(* ===== verification/Prelude.thy ===== *)
theory Prelude
  imports Main "HOL-Library.Word" "HOL-Library.Signed_Division"
begin

section \<open>Prelude: Rust values and results the components share\<close>

text \<open>
  What every component of the model uses of the Rust language and its standard library:
  strings as sequences of Unicode scalar values with their UTF-8 length, 64-bit integers with
  the overflow behaviour of both build profiles, results with panics, the 64-bit floating point
  operations as a parameter, and the string routines (\<open>trim\<close>, \<open>trim_end_matches\<close>,
  \<open>starts_with\<close>, \<open>parse::<u64>\<close>) that the source calls. The collections declared
  here are filled by the component theories.
\<close>

named_theorems lexer_simps \<open>what one lexer operation does to the rest of the input\<close>
named_theorems vm_simps \<open>one-step facts of the virtual machine\<close>

subsection \<open>Strings\<close>

text \<open>
  A Rust \<open>char\<close> is a Unicode scalar value, a number; a \<open>String\<close> is the sequence of its
  \<open>chars()\<close>. The bytes of the string are its UTF-8 encoding, of which the source observes
  only the length (\<open>s.len()\<close>) and the order, which is the order of the scalar values.
\<close>

type_synonym uchar = nat
type_synonym ustr = "uchar list"

abbreviation uc :: "char \<Rightarrow> uchar" where
  "uc c \<equiv> of_char c"

definition lit :: "string \<Rightarrow> ustr" where
  "lit s = map of_char s"

definition utf8_width :: "uchar \<Rightarrow> nat" where
  "utf8_width c = (if c < 128 then 1 else if c < 2048 then 2 else if c < 65536 then 3 else 4)"

definition utf8_len :: "ustr \<Rightarrow> nat" where
  "utf8_len s = sum_list (map utf8_width s)"

fun str_less :: "ustr \<Rightarrow> ustr \<Rightarrow> bool" where
  "str_less _ [] = False"
| "str_less [] (_ # _) = True"
| "str_less (a # as) (b # bs) = (a < b \<or> a = b \<and> str_less as bs)"

lemma utf8_width_pos [simp]: "0 < utf8_width c"
  by (simp add: utf8_width_def)

lemma length_le_utf8_len: "length s \<le> utf8_len s"
proof (induction s)
  case (Cons c s)
  have "1 \<le> utf8_width c" by (simp add: Suc_leI)
  with Cons show ?case by (simp add: utf8_len_def)
qed (simp add: utf8_len_def)

lemma utf8_len_ascii: "list_all (\<lambda>c. c < 128) s \<Longrightarrow> utf8_len s = length s"
  by (induction s) (auto simp: utf8_len_def utf8_width_def)

lemma str_less_irrefl [simp]: "\<not> str_less s s"
  by (induction s) auto

lemma str_less_antisym: "str_less a b \<Longrightarrow> \<not> str_less b a"
  by (induction a b rule: str_less.induct) auto

lemma str_less_total: "a = b \<or> str_less a b \<or> str_less b a"
  by (induction a b rule: str_less.induct) (auto, metis neq_Nil_conv str_less.simps(2))

subsubsection \<open>String routines of the standard library\<close>

definition starts_with :: "ustr \<Rightarrow> ustr \<Rightarrow> bool" where
  "starts_with s p = (take (length p) s = p)"

definition ends_with :: "ustr \<Rightarrow> ustr \<Rightarrow> bool" where
  "ends_with s p = (length p \<le> length s \<and> drop (length s - length p) s = p)"

text \<open>\<open>str::trim_end_matches\<close>: the suffix is removed as often as it occurs.\<close>

function trim_end_matches :: "ustr \<Rightarrow> ustr \<Rightarrow> ustr" where
  "trim_end_matches p s =
     (if p \<noteq> [] \<and> ends_with s p
      then trim_end_matches p (take (length s - length p) s) else s)"
  by pat_completeness auto
termination
  by (relation "measure (\<lambda>(p, s). length s)") (auto simp: ends_with_def min_def)

declare trim_end_matches.simps [simp del]

text \<open>The characters of the Unicode property White\_Space, which \<open>str::trim\<close> removes.\<close>

definition is_white_space :: "uchar \<Rightarrow> bool" where
  "is_white_space c = (9 \<le> c \<and> c \<le> 13 \<or> c = 32 \<or> c = 133 \<or> c = 160 \<or> c = 5760 \<or>
     8192 \<le> c \<and> c \<le> 8202 \<or> c = 8232 \<or> c = 8233 \<or> c = 8239 \<or> c = 8287 \<or> c = 12288)"

definition trim_ws :: "ustr \<Rightarrow> ustr" where
  "trim_ws s = rev (dropWhile is_white_space (rev (dropWhile is_white_space s)))"

definition is_ascii_digit :: "uchar \<Rightarrow> bool" where
  "is_ascii_digit c = (48 \<le> c \<and> c \<le> 57)"

definition digits_value :: "ustr \<Rightarrow> nat" where
  "digits_value s = foldl (\<lambda>n c. 10 * n + (c - 48)) 0 s"

text \<open>\<open>u64::from_str\<close>: an optional plus sign, then at least one digit, below \<open>2^64\<close>.\<close>

definition parse_u64 :: "ustr \<Rightarrow> nat option" where
  "parse_u64 s =
     (let d = (case s of c # r \<Rightarrow> if c = uc CHR ''+'' then r else s | [] \<Rightarrow> s) in
      if d \<noteq> [] \<and> list_all is_ascii_digit d \<and> digits_value d < 2 ^ 64
      then Some (digits_value d) else None)"

text \<open>\<open>i64::from_str\<close>: an optional sign, then at least one digit, in range.\<close>

definition parse_i64 :: "ustr \<Rightarrow> int option" where
  "parse_i64 s =
     (let (neg, d) = (case s of
            c # r \<Rightarrow> if c = uc CHR ''-'' then (True, r)
                      else if c = uc CHR ''+'' then (False, r) else (False, s)
          | [] \<Rightarrow> (False, s));
          v = (if neg then - int (digits_value d) else int (digits_value d))
      in if d \<noteq> [] \<and> list_all is_ascii_digit d \<and> - (2 ^ 63) \<le> v \<and> v < 2 ^ 63
         then Some v else None)"

lemma parse_u64_bound: "parse_u64 s = Some n \<Longrightarrow> n < 2 ^ 64"
  by (auto simp: parse_u64_def Let_def split: if_splits)

lemma trim_end_matches_prefix: "\<exists>n. trim_end_matches p s = take n s"
proof (induction p s rule: trim_end_matches.induct)
  case (1 p s)
  show ?case
  proof (cases "p \<noteq> [] \<and> ends_with s p")
    case True
    with 1 obtain n where
      "trim_end_matches p (take (length s - length p) s) = take n (take (length s - length p) s)"
      by blast
    with True show ?thesis by (subst trim_end_matches.simps) (auto simp: min_def)
  next
    case False
    then show ?thesis
      by (subst trim_end_matches.simps) (metis order_refl take_all)
  qed
qed

text \<open>Decimal printing, as \<open>Display\<close> prints the integer types.\<close>

fun show_nat :: "nat \<Rightarrow> ustr" where
  "show_nat n = (if n < 10 then [48 + n] else show_nat (n div 10) @ [48 + n mod 10])"

declare show_nat.simps [simp del]

definition show_int :: "int \<Rightarrow> ustr" where
  "show_int i = (if i < 0 then uc CHR ''-'' # show_nat (nat (- i)) else show_nat (nat i))"

lemma digit_char: "k < 10 \<Longrightarrow> is_ascii_digit (48 + k)"
  by (simp add: is_ascii_digit_def)

lemma show_nat_digits: "list_all is_ascii_digit (show_nat n) \<and> show_nat n \<noteq> []"
proof (induction n rule: show_nat.induct)
  case (1 n)
  then show ?case
    by (subst (1 2) show_nat.simps) (auto simp: digit_char)
qed

lemma digits_value_append: "digits_value (xs @ [c]) = 10 * digits_value xs + (c - 48)"
  by (simp add: digits_value_def)

lemma digits_value_show: "digits_value (show_nat n) = n"
proof (induction n rule: show_nat.induct)
  case (1 n)
  show ?case
  proof (cases "n < 10")
    case True
    then show ?thesis by (subst show_nat.simps) (simp add: digits_value_def)
  next
    case False
    then show ?thesis using 1 by (subst show_nat.simps) (simp add: digits_value_append)
  qed
qed

lemma parse_show_u64:
  assumes "n < 2 ^ 64"
  shows "parse_u64 (show_nat n) = Some n"
proof -
  obtain c r where s: "show_nat n = c # r"
    using show_nat_digits[of n] by (cases "show_nat n") auto
  then have "is_ascii_digit c" using show_nat_digits[of n] by simp
  then have "c \<noteq> 43" by (auto simp: is_ascii_digit_def)
  then show ?thesis
    using show_nat_digits[of n] digits_value_show[of n] s assms by (simp add: parse_u64_def)
qed

text \<open>\<open>join\<close> on a list of strings.\<close>

fun join_with :: "ustr \<Rightarrow> ustr list \<Rightarrow> ustr" where
  "join_with sep [] = []"
| "join_with sep [s] = s"
| "join_with sep (s # t # ss) = s @ sep @ join_with sep (t # ss)"

subsection \<open>Results\<close>

text \<open>
  A fallible operation returns \<open>Ok\<close> or \<open>Err\<close>; an operation that can also panic (an
  arithmetic overflow in a checked build, an index out of range) has a third outcome.
\<close>

datatype ('e, 'a) outcome = is_Ok: Ok (the_Ok: 'a) | Err (the_Err: 'e) | Panic

fun obind :: "('e, 'a) outcome \<Rightarrow> ('a \<Rightarrow> ('e, 'b) outcome) \<Rightarrow> ('e, 'b) outcome" where
  "obind (Ok x) f = f x"
| "obind (Err e) f = Err e"
| "obind Panic f = Panic"

definition or_panic :: "'a option \<Rightarrow> ('e, 'a) outcome" where
  "or_panic r = (case r of None \<Rightarrow> Panic | Some x \<Rightarrow> Ok x)"

lemma obind_Ok_iff: "obind m f = Ok y \<longleftrightarrow> (\<exists>x. m = Ok x \<and> f x = Ok y)"
  by (cases m) auto

lemma obind_assoc: "obind (obind m f) g = obind m (\<lambda>x. obind (f x) g)"
  by (cases m) auto

lemma obind_cong [fundef_cong]:
  "m = m' \<Longrightarrow> (\<And>x. m' = Ok x \<Longrightarrow> f x = g x) \<Longrightarrow> obind m f = obind m' g"
  by (cases m') auto

lemma or_panic_simps [simp]: "or_panic (Some x) = Ok x" "or_panic None = Panic"
  by (simp_all add: or_panic_def)

lemma or_panic_not_Err [simp]: "or_panic r \<noteq> Err e"
  by (cases r) (simp_all add: or_panic_def)

subsection \<open>64-bit integers\<close>

text \<open>
  \<open>i64\<close> is a 64-bit word read as two's complement. Rust's \<open>+\<close>, \<open>-\<close>, \<open>*\<close> and unary
  \<open>-\<close> panic on overflow in a build with overflow checks and wrap in one without
  (\<open>ovf_checks\<close> below); \<open>/\<close> and \<open>%\<close> panic in every build on a zero divisor and on the
  quotient \<open>i64::MIN / -1\<close>.
\<close>

type_synonym i64 = "64 word"

definition i64_fits :: "int \<Rightarrow> bool" where
  "i64_fits x = (- (2 ^ 63) \<le> x \<and> x < 2 ^ 63)"

definition i64_op :: "bool \<Rightarrow> int \<Rightarrow> i64 option" where
  "i64_op chk x = (if chk \<and> \<not> i64_fits x then None else Some (word_of_int x))"

definition i64_add :: "bool \<Rightarrow> i64 \<Rightarrow> i64 \<Rightarrow> i64 option" where
  "i64_add chk a b = i64_op chk (sint a + sint b)"

definition i64_sub :: "bool \<Rightarrow> i64 \<Rightarrow> i64 \<Rightarrow> i64 option" where
  "i64_sub chk a b = i64_op chk (sint a - sint b)"

definition i64_mul :: "bool \<Rightarrow> i64 \<Rightarrow> i64 \<Rightarrow> i64 option" where
  "i64_mul chk a b = i64_op chk (sint a * sint b)"

definition i64_neg :: "bool \<Rightarrow> i64 \<Rightarrow> i64 option" where
  "i64_neg chk a = i64_op chk (- sint a)"

definition i64_abs :: "bool \<Rightarrow> i64 \<Rightarrow> i64 option" where
  "i64_abs chk a = (if sint a < 0 then i64_neg chk a else Some a)"

definition i64_div :: "i64 \<Rightarrow> i64 \<Rightarrow> i64 option" where
  "i64_div a b =
     (if b = 0 \<or> \<not> i64_fits (sint a sdiv sint b) then None
      else Some (word_of_int (sint a sdiv sint b)))"

definition i64_rem :: "i64 \<Rightarrow> i64 \<Rightarrow> i64 option" where
  "i64_rem a b =
     (if b = 0 \<or> \<not> i64_fits (sint a sdiv sint b) then None
      else Some (word_of_int (sint a smod sint b)))"

lemma i64_fits_sint [simp]: "i64_fits (sint (a :: i64))"
  using sint_ge[of a] sint_less[of a] by (simp add: i64_fits_def)

lemma sint_word_of_int_i64: "i64_fits x \<Longrightarrow> sint (word_of_int x :: i64) = x"
  unfolding i64_fits_def int_word_sint by simp

lemma i64_op_exact: "i64_op True x = Some r \<Longrightarrow> sint r = x"
  by (auto simp: i64_op_def sint_word_of_int_i64 split: if_splits)

lemma i64_op_wraps: "i64_op False x = Some r \<Longrightarrow> r = word_of_int x"
  by (simp add: i64_op_def)

lemma i64_add_unchecked: "i64_add False a b = Some (a + b)"
  by (simp add: i64_add_def i64_op_def)

lemma i64_sub_unchecked: "i64_sub False a b = Some (a - b)"
  by (simp add: i64_sub_def i64_op_def)

lemma i64_mul_unchecked: "i64_mul False a b = Some (a * b)"
  by (simp add: i64_mul_def i64_op_def)

lemma i64_neg_unchecked: "i64_neg False a = Some (- a)"
  by (simp add: i64_neg_def i64_op_def)

subsection \<open>Floating point and the build profile\<close>

text \<open>
  The \<open>f64\<close> operations the source uses are a parameter: the theories below hold for every
  interpretation of them, and state a law of one where they rely on it. \<open>f_small d e\<close> is
  \<open>d.abs() < e\<close> for the two tolerances the source compares with.
\<close>

datatype tolerance = Epsilon | Tol_1e_10

record 'f plat =
  ovf_checks :: bool
  f_add :: "'f \<Rightarrow> 'f \<Rightarrow> 'f"
  f_sub :: "'f \<Rightarrow> 'f \<Rightarrow> 'f"
  f_mul :: "'f \<Rightarrow> 'f \<Rightarrow> 'f"
  f_div :: "'f \<Rightarrow> 'f \<Rightarrow> 'f"
  f_neg :: "'f \<Rightarrow> 'f"
  f_is_zero :: "'f \<Rightarrow> bool"
  f_lt :: "'f \<Rightarrow> 'f \<Rightarrow> bool"
  f_le :: "'f \<Rightarrow> 'f \<Rightarrow> bool"
  f_small :: "tolerance \<Rightarrow> 'f \<Rightarrow> bool"
  f_of_i64 :: "i64 \<Rightarrow> 'f"
  f_to_i64 :: "'f \<Rightarrow> i64"
  f_abs :: "'f \<Rightarrow> 'f"
  f_parse :: "ustr \<Rightarrow> 'f option"
  f_zero :: 'f
  f_show :: "'f \<Rightarrow> ustr"

text \<open>\<open>f64::partial_cmp\<close>, and the orders of i64 and of strings.\<close>

datatype ordering = OLess | OEqual | OGreater

definition f_cmp :: "'f plat \<Rightarrow> 'f \<Rightarrow> 'f \<Rightarrow> ordering option" where
  "f_cmp P a b =
     (case (f_le P a b, f_le P b a) of
        (False, False) \<Rightarrow> None
      | (False, True) \<Rightarrow> Some OGreater
      | (True, False) \<Rightarrow> Some OLess
      | (True, True) \<Rightarrow> Some OEqual)"

definition i64_cmp :: "i64 \<Rightarrow> i64 \<Rightarrow> ordering" where
  "i64_cmp a b = (if sint a < sint b then OLess else if a = b then OEqual else OGreater)"

definition str_cmp :: "ustr \<Rightarrow> ustr \<Rightarrow> ordering" where
  "str_cmp a b = (if str_less a b then OLess else if a = b then OEqual else OGreater)"

text \<open>One interpretation, with the integers as the floating point numbers.\<close>

definition int_plat :: "int plat" where
  "int_plat = \<lparr>ovf_checks = True, f_add = (+), f_sub = (-), f_mul = (*), f_div = (sdiv),
     f_neg = uminus, f_is_zero = (\<lambda>x. x = 0), f_lt = (<), f_le = (\<le>),
     f_small = (\<lambda>_ d. d = 0), f_of_i64 = sint, f_to_i64 = word_of_int, f_abs = abs,
     f_parse = (\<lambda>_. None), f_zero = 0, f_show = show_int\<rparr>"

end
