(* ===== verification/Ast.thy ===== *)
theory Ast
  imports Prelude
begin

section \<open>The abstract syntax (compiler/src/ast.rs)\<close>

text \<open>
  The type references, expressions, patterns and statements. The parameter \<open>'f\<close> is the type of
  64-bit floating point numbers. Constructors of statements whose names also name an expression,
  a token or a HOL constant carry the prefix \<open>S\<close>; the base types carry the prefix \<open>B\<close>. The ten
  optional annotation strings of a function statement are grouped into one record.
\<close>

datatype BaseType =
    BInt | BFloat | BString | BBool | BChar | BNone | BArray | BOption | BResult | BFunc
  | BUnknown

datatype TypeRef =
  TypeRef (base: BaseType) (generic_arg: "TypeRef option") (result_err: "TypeRef option")

definition type_new :: "BaseType \<Rightarrow> TypeRef" where
  "type_new b = TypeRef b None None"

definition type_generic :: "BaseType \<Rightarrow> TypeRef \<Rightarrow> TypeRef" where
  "type_generic b a = TypeRef b (Some a) None"

definition type_result :: "TypeRef \<Rightarrow> TypeRef \<Rightarrow> TypeRef" where
  "type_result a e = TypeRef BResult (Some a) (Some e)"

fun base_name :: "BaseType \<Rightarrow> ustr" where
  "base_name BInt = lit ''int''"
| "base_name BFloat = lit ''float''"
| "base_name BString = lit ''string''"
| "base_name BBool = lit ''bool''"
| "base_name BChar = lit ''char''"
| "base_name BNone = lit ''none''"
| "base_name BArray = lit ''array''"
| "base_name BOption = lit ''option''"
| "base_name BResult = lit ''result''"
| "base_name BFunc = lit ''func''"
| "base_name BUnknown = lit ''unknown''"

text \<open>The printed form of a type reference, \<open>impl Display for TypeRef\<close>.\<close>

fun show_type :: "TypeRef \<Rightarrow> ustr" where
  "show_type (TypeRef b (Some a) (Some e)) =
     base_name b @ lit ''<'' @ show_type a @ lit ''>'' @ lit '', '' @ show_type e @ lit ''>''"
| "show_type (TypeRef b (Some a) None) = base_name b @ lit ''<'' @ show_type a @ lit ''>''"
| "show_type (TypeRef b None (Some e)) =
     lit ''result<'' @ base_name b @ lit '', '' @ show_type e @ lit ''>''"
| "show_type (TypeRef b None None) = base_name b"

record FieldDef =
  field_name :: ustr
  field_type :: TypeRef

record EnumVariant =
  variant_name :: ustr
  variant_fields :: "TypeRef list"

record FnAnnot =
  an_effect :: "ustr option"
  an_capability :: "ustr option"
  an_llm_prompt :: "ustr option"
  an_confidence :: "ustr option"
  an_cognitive_loop :: "ustr option"
  an_governance :: "ustr option"
  an_latency :: "ustr option"
  an_timeout :: "ustr option"
  an_throughput :: "ustr option"

definition no_annot :: FnAnnot where
  "no_annot = \<lparr>an_effect = None, an_capability = None, an_llm_prompt = None,
     an_confidence = None, an_cognitive_loop = None, an_governance = None, an_latency = None,
     an_timeout = None, an_throughput = None\<rparr>"

datatype (plugins only: size) 'f Expr =
    IntLiteral i64
  | FloatLiteral 'f
  | StringLiteral ustr
  | BoolLiteral bool
  | CharLiteral uchar
  | Ident ustr
  | BinaryOp "'f Expr" ustr "'f Expr"
  | UnaryOp ustr "'f Expr"
  | Call "'f Expr" "'f Expr list"
  | MemberAccess "'f Expr" ustr
  | Index "'f Expr" "'f Expr"
  | Pipe "'f Expr" "(ustr \<times> 'f Expr) list"
  | Range "'f Expr" "'f Expr" bool
  | Array "'f Expr list"
  | OptionValue bool "'f Expr option"
  | ResultValue bool "'f Expr option" "'f Expr option"
  | IfExpr "'f Expr" "'f Expr" "'f Expr"
  | MatchExpr "'f Expr" "'f MatchArm list"
and (dead 'f) Pattern =
    Pattern (pat_kind: ustr) (pat_name: ustr) (pat_binding: "ustr option")
      (pat_inner: "'f Pattern list") (pat_fields: "(ustr \<times> ustr) list")
      (pat_value: "'f Expr option")
and (dead 'f) MatchArm =
    MatchArm (arm_pattern: "'f Pattern") (arm_guard: "'f Expr option")
      (arm_body: "'f Statement list")
and (dead 'f) FnParam =
    FnParam (param_name: ustr) (param_type: "TypeRef option") (param_default: "'f Expr option")
and (dead 'f) TraitMethod =
    TraitMethod ustr "TypeRef option" "'f FnParam list"
and (dead 'f) Statement =
    SLet ustr "'f Expr option" "TypeRef option" bool
  | SConst ustr "'f Expr option" "TypeRef option"
  | SFn ustr "'f FnParam list" "TypeRef option" FnAnnot "'f Statement list" bool bool
  | SReturn "'f Expr option"
  | SIf "'f Expr" "'f Statement list" "'f Statement list"
  | SWhile "'f Expr" "'f Statement list"
  | SFor ustr "'f Expr" "'f Statement list"
  | SMatch "'f Expr" "'f MatchArm list"
  | SStructDef ustr "ustr list" "FieldDef list"
  | SEnumDef ustr "EnumVariant list"
  | STraitDef ustr "'f TraitMethod list"
  | SImplBlock "ustr option" ustr "'f FnParam list"
  | SSpawn "'f Statement"
  | SChannel ustr ustr TypeRef nat
  | STryCatch "'f Statement list" "ustr option" "'f Statement list"
  | SAssert "'f Expr" "'f Expr option"
  | SLlm ustr "ustr option" "ustr option" "ustr option"
  | SUse ustr
  | SExport ustr
  | STypeAlias ustr "TypeRef option"
  | SExpr "'f Expr"

text \<open>The statements are declared together with the expressions; this is their name in the source.\<close>

type_synonym 'f Stmt = "'f Statement"

subsection \<open>Modules, packages and macros\<close>

record AttrDerive =
  attr_name :: ustr
  attr_traits :: "ustr list"

datatype (plugins only: size) 'f ModuleDecl =
    External ustr
  | Inline ustr "'f Stmt list"

datatype UseTree =
    UsePath "ustr list"
  | UseGlob
  | UseGroup "(ustr \<times> ustr option) list"

record SemVer =
  major :: nat
  minor :: nat
  patch :: nat

record PackageManifest =
  pkg_name :: ustr
  pkg_version :: SemVer
  pkg_edition :: ustr
  pkg_deps :: "(ustr \<times> ustr) list"
  pkg_stdlib_modules :: "ustr list"

record MacroRule =
  rule_pattern :: "ustr list"
  rule_expansion :: "ustr list"

datatype (plugins only: size) 'f MacroDecl =
    Declarative ustr "MacroRule list"
  | Derive ustr ustr "'f Stmt list"

record 'f Program =
  statements :: "'f Stmt list"
  modules :: "'f ModuleDecl list"
  uses :: "UseTree list"
  package_manifest :: "PackageManifest option"
  macros :: "'f MacroDecl list"
  derive_attrs :: "AttrDerive list"

definition program_new :: "'f Program" where
  "program_new = \<lparr>statements = [], modules = [], uses = [], package_manifest = None,
     macros = [], derive_attrs = []\<rparr>"

definition program_add :: "'f Program \<Rightarrow> 'f Stmt \<Rightarrow> 'f Program" where
  "program_add p st = p\<lparr>statements := statements p @ [st]\<rparr>"

definition program_is_empty :: "'f Program \<Rightarrow> bool" where
  "program_is_empty p = (statements p = [] \<and> modules p = [])"

end
