(* ===== verification/Channels.thy ===== *)
theory Channels
  imports Complex_Main Ast
begin

section \<open>The channels of the type system (compiler/src/ty2.rs)\<close>

text \<open>
  A type of the language carries, beside its value type, an effect, a capability, a confidence, a
  stage of the cognitive loop, a governance level and a time constraint. Each of the first five
  has an order \<open>leq\<close> and a \<open>join\<close>. The locales state what the inferencers rely on: a partial
  order with a partial least upper bound, and chains given by a rank. Each is interpreted on the
  source's definitions.
\<close>

subsection \<open>Interfaces\<close>

definition least_upper :: "('a \<Rightarrow> 'a \<Rightarrow> bool) \<Rightarrow> 'a \<Rightarrow> 'a \<Rightarrow> 'a \<Rightarrow> bool" where
  "least_upper le a b c = (le a c \<and> le b c \<and> (\<forall>d. le a d \<and> le b d \<longrightarrow> le c d))"

definition partial_order :: "('a \<Rightarrow> 'a \<Rightarrow> bool) \<Rightarrow> bool" where
  "partial_order le = ((\<forall>a. le a a) \<and> (\<forall>a b. le a b \<and> le b a \<longrightarrow> a = b) \<and>
     (\<forall>a b c. le a b \<and> le b c \<longrightarrow> le a c))"

locale chan_order =
  fixes leq :: "'a \<Rightarrow> 'a \<Rightarrow> bool"
  assumes leq_refl: "leq a a"
    and leq_antisym: "leq a b \<Longrightarrow> leq b a \<Longrightarrow> a = b"
    and leq_trans: "leq a b \<Longrightarrow> leq b c \<Longrightarrow> leq a c"
begin

lemma order_laws: "partial_order leq"
  unfolding partial_order_def by (blast intro: leq_refl leq_antisym leq_trans)

end

locale partial_join = chan_order leq for leq :: "'a \<Rightarrow> 'a \<Rightarrow> bool" +
  fixes join :: "'a \<Rightarrow> 'a \<Rightarrow> 'a option"
  assumes join_upper: "join a b = Some c \<Longrightarrow> leq a c \<and> leq b c"
    and join_least: "leq a d \<Longrightarrow> leq b d \<Longrightarrow> \<exists>c. join a b = Some c \<and> leq c d"
begin

lemma join_lub: "(join a b = Some c) = least_upper leq a b c"
proof
  assume "join a b = Some c"
  then show "least_upper leq a b c"
    unfolding least_upper_def using join_upper join_least by fastforce
next
  assume lub: "least_upper leq a b c"
  then obtain d where "join a b = Some d" "leq d c"
    using join_least unfolding least_upper_def by blast
  with lub show "join a b = Some c"
    unfolding least_upper_def using join_upper leq_antisym by blast
qed

lemma join_none: "(join a b = None) = (\<nexists>u. leq a u \<and> leq b u)"
  using join_upper join_least by (metis option.exhaust option.distinct(1))

lemma join_self: "join a a = Some a"
  by (simp add: join_lub least_upper_def leq_refl)

lemma join_commute: "join a b = join b a"
proof (cases "join b a")
  case None
  then show ?thesis using join_none by metis
next
  case (Some c)
  then have "join a b = Some c" by (auto simp: join_lub least_upper_def)
  with Some show ?thesis by simp
qed

lemma leq_iff_join: "leq a b = (join a b = Some b)"
  by (auto simp: join_lub least_upper_def leq_refl)

text \<open>The accumulation \<open>acc = join(acc, x).unwrap_or(d)\<close> over a list below a bound.\<close>

lemma fold_join_below:
  assumes "leq a u" and "\<forall>x \<in> set xs. leq x u"
  shows "leq (foldl (\<lambda>acc x. case join acc x of None \<Rightarrow> d | Some c \<Rightarrow> c) a xs) u"
  using assms
proof (induction xs arbitrary: a)
  case (Cons x xs)
  obtain c where "join a x = Some c" "leq c u" using Cons.prems join_least[of a u x] by auto
  with Cons show ?case by simp
qed simp

lemma fold_join_above:
  assumes "leq a u" and "\<forall>x \<in> set xs. leq x u"
  shows "leq a (foldl (\<lambda>acc x. case join acc x of None \<Rightarrow> d | Some c \<Rightarrow> c) a xs) \<and>
    (\<forall>x \<in> set xs. leq x (foldl (\<lambda>acc x. case join acc x of None \<Rightarrow> d | Some c \<Rightarrow> c) a xs))"
  using assms
proof (induction xs arbitrary: a)
  case (Cons x xs)
  obtain c where c: "join a x = Some c" "leq c u" using Cons.prems join_least[of a u x] by auto
  then have "leq a c" "leq x c" using join_upper by blast+
  with c Cons.IH[of c] Cons.prems show ?case
    using leq_trans[of a c] leq_trans[of x c] by auto
qed (simp add: leq_refl)

end

locale ranked = fixes leq :: "'a \<Rightarrow> 'a \<Rightarrow> bool" and rank :: "'a \<Rightarrow> nat"
  assumes leq_rank: "leq a b = (rank a \<le> rank b)"
    and rank_inj: "rank a = rank b \<Longrightarrow> a = b"

sublocale ranked \<subseteq> chan_order leq
  by unfold_locales (auto simp: leq_rank rank_inj)

locale chain_max = ranked leq rank for leq :: "'a \<Rightarrow> 'a \<Rightarrow> bool" and rank +
  fixes join :: "'a \<Rightarrow> 'a \<Rightarrow> 'a"
  assumes join_max: "join a b = (if rank b \<le> rank a then a else b)"

sublocale chain_max \<subseteq> partial_join leq "\<lambda>a b. Some (join a b)"
  by unfold_locales (auto simp: leq_rank join_max)

locale chain_min = ranked leq rank for leq :: "'a \<Rightarrow> 'a \<Rightarrow> bool" and rank +
  fixes join :: "'a \<Rightarrow> 'a \<Rightarrow> 'a"
  assumes join_min: "join a b = (if rank a \<le> rank b then a else b)"

sublocale chain_min \<subseteq> dual: partial_join "\<lambda>a b. leq b a" "\<lambda>a b. Some (join a b)"
  by unfold_locales (auto simp: leq_rank join_min rank_inj)

subsection \<open>Effects\<close>

datatype Effect = Pure | Io | Async | Spawn

fun effect_leq :: "Effect \<Rightarrow> Effect \<Rightarrow> bool" where
  "effect_leq Pure _ = True"
| "effect_leq _ Pure = False"
| "effect_leq Io Io = True"
| "effect_leq Io Async = True"
| "effect_leq Async Async = True"
| "effect_leq Spawn Spawn = True"
| "effect_leq _ _ = False"

fun effect_join :: "Effect \<Rightarrow> Effect \<Rightarrow> Effect option" where
  "effect_join Pure x = Some x"
| "effect_join x Pure = Some x"
| "effect_join Io Io = Some Io"
| "effect_join Io Async = Some Async"
| "effect_join Async Io = Some Async"
| "effect_join Async Async = Some Async"
| "effect_join Spawn Spawn = Some Spawn"
| "effect_join Io Spawn = None"
| "effect_join Spawn Io = None"
| "effect_join Async Spawn = None"
| "effect_join Spawn Async = None"

definition parse_effect :: "ustr \<Rightarrow> Effect" where
  "parse_effect s =
     (if s = lit ''pure'' then Pure else if s = lit ''io'' then Io
      else if s = lit ''async'' then Async else if s = lit ''spawn'' then Spawn else Pure)"

fun show_effect :: "Effect \<Rightarrow> ustr" where
  "show_effect Pure = lit ''pure''"
| "show_effect Io = lit ''io''"
| "show_effect Async = lit ''async''"
| "show_effect Spawn = lit ''spawn''"

interpretation eff: partial_join effect_leq effect_join
proof
  fix a b c d :: Effect
  show "effect_leq a a" by (cases a) simp_all
  show "effect_leq a b \<Longrightarrow> effect_leq b a \<Longrightarrow> a = b" by (cases a; cases b) simp_all
  show "effect_leq a b \<Longrightarrow> effect_leq b c \<Longrightarrow> effect_leq a c"
    by (cases a; cases b; cases c) simp_all
  show "effect_join a b = Some c \<Longrightarrow> effect_leq a c \<and> effect_leq b c"
    by (cases a; cases b) auto
  show "effect_leq a d \<Longrightarrow> effect_leq b d \<Longrightarrow> \<exists>c. effect_join a b = Some c \<and> effect_leq c d"
    by (cases a; cases b; cases d) simp_all
qed

subsection \<open>Capabilities\<close>

datatype Capability = Cpu | Gpu | Sfa | Net

fun capability_leq :: "Capability \<Rightarrow> Capability \<Rightarrow> bool" where
  "capability_leq Cpu _ = True"
| "capability_leq _ Cpu = False"
| "capability_leq Gpu Gpu = True"
| "capability_leq Sfa Sfa = True"
| "capability_leq Net Net = True"
| "capability_leq _ _ = False"

fun capability_join :: "Capability \<Rightarrow> Capability \<Rightarrow> Capability option" where
  "capability_join Cpu x = Some x"
| "capability_join x Cpu = Some x"
| "capability_join Gpu Gpu = Some Gpu"
| "capability_join Sfa Sfa = Some Sfa"
| "capability_join Net Net = Some Net"
| "capability_join _ _ = None"

definition parse_capability :: "ustr \<Rightarrow> Capability" where
  "parse_capability s =
     (if s = lit ''cpu'' then Cpu else if s = lit ''gpu'' then Gpu
      else if s = lit ''sfa'' then Sfa else if s = lit ''net'' then Net else Cpu)"

fun show_capability :: "Capability \<Rightarrow> ustr" where
  "show_capability Cpu = lit ''cpu''"
| "show_capability Gpu = lit ''gpu''"
| "show_capability Sfa = lit ''sfa''"
| "show_capability Net = lit ''net''"

interpretation cap: partial_join capability_leq capability_join
proof
  fix a b c d :: Capability
  show "capability_leq a a" by (cases a) simp_all
  show "capability_leq a b \<Longrightarrow> capability_leq b a \<Longrightarrow> a = b" by (cases a; cases b) simp_all
  show "capability_leq a b \<Longrightarrow> capability_leq b c \<Longrightarrow> capability_leq a c"
    by (cases a; cases b; cases c) simp_all
  show "capability_join a b = Some c \<Longrightarrow> capability_leq a c \<and> capability_leq b c"
    by (cases a; cases b) auto
  show "capability_leq a d \<Longrightarrow> capability_leq b d \<Longrightarrow>
      \<exists>c. capability_join a b = Some c \<and> capability_leq c d"
    by (cases a; cases b; cases d) simp_all
qed

subsection \<open>Confidence\<close>

datatype Confidence = Proven | Verified | Inferred | Generated | Uncertain

fun confidence_leq :: "Confidence \<Rightarrow> Confidence \<Rightarrow> bool" where
  "confidence_leq Uncertain _ = True"
| "confidence_leq _ Uncertain = False"
| "confidence_leq Generated x = (x = Generated \<or> x = Inferred \<or> x = Verified \<or> x = Proven)"
| "confidence_leq Inferred x = (x = Inferred \<or> x = Verified \<or> x = Proven)"
| "confidence_leq Verified x = (x = Verified \<or> x = Proven)"
| "confidence_leq Proven x = (x = Proven)"

fun confidence_order :: "Confidence \<Rightarrow> nat" where
  "confidence_order Proven = 4"
| "confidence_order Verified = 3"
| "confidence_order Inferred = 2"
| "confidence_order Generated = 1"
| "confidence_order Uncertain = 0"

definition confidence_join :: "Confidence \<Rightarrow> Confidence \<Rightarrow> Confidence" where
  "confidence_join a b = (if confidence_order a \<le> confidence_order b then a else b)"

fun confidence_score :: "Confidence \<Rightarrow> rat" where
  "confidence_score Proven = 1"
| "confidence_score Verified = 95 / 100"
| "confidence_score Inferred = 85 / 100"
| "confidence_score Generated = 7 / 10"
| "confidence_score Uncertain = 5 / 10"

definition parse_confidence :: "ustr \<Rightarrow> Confidence" where
  "parse_confidence s =
     (if s = lit ''proven'' then Proven else if s = lit ''verified'' then Verified
      else if s = lit ''inferred'' then Inferred else if s = lit ''generated'' then Generated
      else if s = lit ''uncertain'' then Uncertain else Uncertain)"

fun show_confidence :: "Confidence \<Rightarrow> ustr" where
  "show_confidence Proven = lit ''proven''"
| "show_confidence Verified = lit ''verified''"
| "show_confidence Inferred = lit ''inferred''"
| "show_confidence Generated = lit ''generated''"
| "show_confidence Uncertain = lit ''uncertain''"

interpretation conf: chain_min confidence_leq confidence_order confidence_join
proof
  fix a b :: Confidence
  show "confidence_leq a b = (confidence_order a \<le> confidence_order b)"
    by (cases a; cases b) simp_all
  show "confidence_order a = confidence_order b \<Longrightarrow> a = b" by (cases a; cases b) simp_all
  show "confidence_join a b = (if confidence_order a \<le> confidence_order b then a else b)"
    by (rule confidence_join_def)
qed

subsection \<open>The cognitive loop\<close>

datatype CognitiveLoop = Perceive | Reason | Decide | Act | Loop

fun cognitive_leq :: "CognitiveLoop \<Rightarrow> CognitiveLoop \<Rightarrow> bool" where
  "cognitive_leq Perceive _ = True"
| "cognitive_leq Reason x = (x = Reason \<or> x = Decide \<or> x = Act \<or> x = Loop)"
| "cognitive_leq _ Reason = False"
| "cognitive_leq Decide x = (x = Decide \<or> x = Act \<or> x = Loop)"
| "cognitive_leq _ Decide = False"
| "cognitive_leq Act x = (x = Act \<or> x = Loop)"
| "cognitive_leq _ Act = False"
| "cognitive_leq Loop Loop = True"
| "cognitive_leq _ _ = False"

fun cognitive_order :: "CognitiveLoop \<Rightarrow> nat" where
  "cognitive_order Perceive = 0"
| "cognitive_order Reason = 1"
| "cognitive_order Decide = 2"
| "cognitive_order Act = 3"
| "cognitive_order Loop = 4"

definition cognitive_join :: "CognitiveLoop \<Rightarrow> CognitiveLoop \<Rightarrow> CognitiveLoop" where
  "cognitive_join a b = (if cognitive_order a \<ge> cognitive_order b then a else b)"

definition parse_cognitive_loop :: "ustr \<Rightarrow> CognitiveLoop" where
  "parse_cognitive_loop s =
     (if s = lit ''perceive'' then Perceive else if s = lit ''reason'' then Reason
      else if s = lit ''decide'' then Decide else if s = lit ''act'' then Act
      else if s = lit ''loop'' then Loop else Perceive)"

fun show_cognitive :: "CognitiveLoop \<Rightarrow> ustr" where
  "show_cognitive Perceive = lit ''perceive''"
| "show_cognitive Reason = lit ''reason''"
| "show_cognitive Decide = lit ''decide''"
| "show_cognitive Act = lit ''act''"
| "show_cognitive Loop = lit ''loop''"

interpretation cog: chain_max cognitive_leq cognitive_order cognitive_join
proof
  fix a b :: CognitiveLoop
  show "cognitive_leq a b = (cognitive_order a \<le> cognitive_order b)"
    by (cases a; cases b) simp_all
  show "cognitive_order a = cognitive_order b \<Longrightarrow> a = b" by (cases a; cases b) simp_all
  show "cognitive_join a b = (if cognitive_order b \<le> cognitive_order a then a else b)"
    by (rule cognitive_join_def)
qed

subsection \<open>Governance\<close>

datatype GovernanceLevel = Prepare | Suggest | Approve | Execute

fun governance_leq :: "GovernanceLevel \<Rightarrow> GovernanceLevel \<Rightarrow> bool" where
  "governance_leq Prepare _ = True"
| "governance_leq _ Prepare = False"
| "governance_leq Suggest x = (x = Suggest \<or> x = Approve \<or> x = Execute)"
| "governance_leq _ Suggest = False"
| "governance_leq Approve x = (x = Approve \<or> x = Execute)"
| "governance_leq _ Approve = False"
| "governance_leq Execute Execute = True"

fun governance_order :: "GovernanceLevel \<Rightarrow> nat" where
  "governance_order Prepare = 0"
| "governance_order Suggest = 1"
| "governance_order Approve = 2"
| "governance_order Execute = 3"

definition governance_join :: "GovernanceLevel \<Rightarrow> GovernanceLevel \<Rightarrow> GovernanceLevel" where
  "governance_join a b = (if governance_order a \<ge> governance_order b then a else b)"

definition parse_governance :: "ustr \<Rightarrow> GovernanceLevel" where
  "parse_governance s =
     (if s = lit ''prepare'' then Prepare else if s = lit ''suggest'' then Suggest
      else if s = lit ''approve'' then Approve else if s = lit ''execute'' then Execute
      else Prepare)"

fun show_governance :: "GovernanceLevel \<Rightarrow> ustr" where
  "show_governance Prepare = lit ''prepare''"
| "show_governance Suggest = lit ''suggest''"
| "show_governance Approve = lit ''approve''"
| "show_governance Execute = lit ''execute''"

interpretation gov: chain_max governance_leq governance_order governance_join
proof
  fix a b :: GovernanceLevel
  show "governance_leq a b = (governance_order a \<le> governance_order b)"
    by (cases a; cases b) simp_all
  show "governance_order a = governance_order b \<Longrightarrow> a = b" by (cases a; cases b) simp_all
  show "governance_join a b = (if governance_order b \<le> governance_order a then a else b)"
    by (rule governance_join_def)
qed

subsection \<open>Time constraints\<close>

text \<open>
  The three bounds are \<open>u64\<close>. The conversion from seconds multiplies by 1000, which panics on
  overflow in a checked build and wraps in an unchecked one; a panic is \<open>None\<close>.
\<close>

record TimeConstraint =
  latency_ms :: "nat option"
  timeout_ms :: "nat option"
  throughput :: "nat option"

definition time_new :: TimeConstraint where
  "time_new = \<lparr>latency_ms = None, timeout_ms = None, throughput = None\<rparr>"

fun opt_min :: "nat option \<Rightarrow> nat option \<Rightarrow> nat option" where
  "opt_min (Some x) (Some y) = Some (min x y)"
| "opt_min (Some x) None = Some x"
| "opt_min None (Some y) = Some y"
| "opt_min None None = None"

definition time_meet :: "TimeConstraint \<Rightarrow> TimeConstraint \<Rightarrow> TimeConstraint" where
  "time_meet a b =
     \<lparr>latency_ms = opt_min (latency_ms a) (latency_ms b),
      timeout_ms = opt_min (timeout_ms a) (timeout_ms b),
      throughput = opt_min (throughput a) (throughput b)\<rparr>"

definition above :: "nat option \<Rightarrow> nat option \<Rightarrow> bool" where
  "above required actual =
     (case (required, actual) of (Some req, Some act) \<Rightarrow> act > req | _ \<Rightarrow> False)"

definition below :: "nat option \<Rightarrow> nat option \<Rightarrow> bool" where
  "below required actual =
     (case (required, actual) of (Some req, Some act) \<Rightarrow> act < req | _ \<Rightarrow> False)"

definition time_satisfies :: "TimeConstraint \<Rightarrow> TimeConstraint \<Rightarrow> bool" where
  "time_satisfies self required =
     (if above (latency_ms required) (latency_ms self) then False
      else if above (timeout_ms required) (timeout_ms self) then False
      else if below (throughput required) (throughput self) then False
      else True)"

definition has_time_bound :: "TimeConstraint \<Rightarrow> bool" where
  "has_time_bound t = (latency_ms t \<noteq> None \<or> timeout_ms t \<noteq> None \<or> throughput t \<noteq> None)"

definition u64_times_1000 :: "bool \<Rightarrow> nat \<Rightarrow> nat option" where
  "u64_times_1000 chk x =
     (if x * 1000 < 2 ^ 64 then Some (x * 1000)
      else if chk then None else Some (x * 1000 mod 2 ^ 64))"

text \<open>\<open>parse(..).ok().map(|x| x * 1000)\<close>.\<close>

definition seconds_to_ms :: "bool \<Rightarrow> nat option \<Rightarrow> nat option option" where
  "seconds_to_ms chk r =
     (case r of None \<Rightarrow> Some None
      | Some x \<Rightarrow> (case u64_times_1000 chk x of None \<Rightarrow> None | Some y \<Rightarrow> Some (Some y)))"

definition parse_time_constraint :: "bool \<Rightarrow> ustr \<Rightarrow> ustr \<Rightarrow> TimeConstraint option" where
  "parse_time_constraint chk key value =
     (let tc = time_new; ms = lit ''ms'' in
      if key = lit ''latency'' then
        Some (tc\<lparr>latency_ms := parse_u64 (trim_ws (trim_end_matches ms value))\<rparr>)
      else if key = lit ''timeout'' then
        (if ends_with value (lit ''s'') \<and> \<not> ends_with value ms
         then (case seconds_to_ms chk
                 (parse_u64 (trim_ws (trim_end_matches (lit ''s'') value))) of
                 None \<Rightarrow> None
               | Some t \<Rightarrow> Some (tc\<lparr>timeout_ms := t\<rparr>))
         else Some (tc\<lparr>timeout_ms := parse_u64 (trim_ws (trim_end_matches ms value))\<rparr>))
      else if key = lit ''throughput'' then
        Some (tc\<lparr>throughput := parse_u64 (trim_ws (trim_end_matches (lit ''/s'') value))\<rparr>)
      else Some tc)"

subsection \<open>Properties\<close>

text \<open>
  C27: The order \<open>leq\<close> of every channel is a partial order, so checking \<open>leq\<close> against a declared
  level is transitive and no two levels are equivalent.
\<close>
theorem channel_orders:
  "partial_order effect_leq \<and> partial_order capability_leq \<and> partial_order confidence_leq \<and>
   partial_order cognitive_leq \<and> partial_order governance_leq"
  by (intro conjI eff.order_laws cap.order_laws conf.order_laws cog.order_laws gov.order_laws)

text \<open>
  C29: The effect and capability joins return exactly the least upper bound of two levels, and
  \<open>None\<close> exactly when the two have no common upper bound.
\<close>
theorem partial_joins_least_upper:
  "((effect_join a b = Some c) = least_upper effect_leq a b c) \<and>
   ((effect_join a b = None) = (\<nexists>u. effect_leq a u \<and> effect_leq b u)) \<and>
   ((capability_join p q = Some r) = least_upper capability_leq p q r) \<and>
   ((capability_join p q = None) = (\<nexists>u. capability_leq p u \<and> capability_leq q u))"
  by (intro conjI eff.join_lub eff.join_none cap.join_lub cap.join_none)

text \<open>
  The total joins. For the cognitive loop and governance the join is the least upper bound;
  for confidence it is the greatest lower bound, the least certain of the two, so the join is
  never more certain than either argument.
\<close>
theorem total_joins_bounds:
  "least_upper cognitive_leq a b (cognitive_join a b) \<and>
   least_upper governance_leq g h (governance_join g h) \<and>
   least_upper (\<lambda>x y. confidence_leq y x) p q (confidence_join p q)"
  using cog.join_lub[of a b "cognitive_join a b"] gov.join_lub[of g h "governance_join g h"]
    conf.dual.join_lub[of p q "confidence_join p q"] by simp

lemma parse_show [simp]:
  "parse_effect (show_effect e) = e" "parse_capability (show_capability c) = c"
  "parse_confidence (show_confidence f) = f" "parse_cognitive_loop (show_cognitive l) = l"
  "parse_governance (show_governance g) = g"
  by ((cases e; simp add: lit_def parse_effect_def),
     (cases c; simp add: lit_def parse_capability_def),
     (cases f; simp add: lit_def parse_confidence_def),
     (cases l; simp add: lit_def parse_cognitive_loop_def),
     (cases g; simp add: lit_def parse_governance_def))

text \<open>
  Every level survives printing and parsing, in all five channels.
\<close>
lemma channel_names_roundtrip:
  "parse_effect (show_effect e) = e \<and> parse_capability (show_capability c) = c \<and>
   parse_confidence (show_confidence f) = f \<and> parse_cognitive_loop (show_cognitive l) = l \<and>
   parse_governance (show_governance g) = g"
  by simp

lemma above_min: "above (opt_min a b) x = (above a x \<or> above b x)"
  by (cases a; cases b; cases x) (auto simp: above_def)

lemma below_min: "below (opt_min (Some p) (Some q)) (Some t) = (t < p \<and> t < q)"
  by (auto simp: below_def)

text \<open>
  Merging time constraints. On latency and timeout, satisfying the merged constraint is
  satisfying both; on throughput, where more is better, the merged constraint is the laxer of
  the two, so it is satisfied as soon as either one is.
\<close>
theorem time_meet_strictness:
  "(time_satisfies (x\<lparr>throughput := None\<rparr>) (time_meet a b) =
      (time_satisfies (x\<lparr>throughput := None\<rparr>) a \<and> time_satisfies (x\<lparr>throughput := None\<rparr>) b)) \<and>
   (time_satisfies (time_new\<lparr>throughput := Some t\<rparr>)
      (time_meet (a\<lparr>throughput := Some p\<rparr>) (b\<lparr>throughput := Some q\<rparr>)) =
      (time_satisfies (time_new\<lparr>throughput := Some t\<rparr>) (a\<lparr>throughput := Some p\<rparr>) \<or>
       time_satisfies (time_new\<lparr>throughput := Some t\<rparr>) (b\<lparr>throughput := Some q\<rparr>)))"
proof
  show "time_satisfies (x\<lparr>throughput := None\<rparr>) (time_meet a b) =
      (time_satisfies (x\<lparr>throughput := None\<rparr>) a \<and> time_satisfies (x\<lparr>throughput := None\<rparr>) b)"
    by (auto simp: time_satisfies_def time_meet_def above_min below_def split: option.split)
  have none: "above r None = False" for r by (simp add: above_def split: option.split)
  show "time_satisfies (time_new\<lparr>throughput := Some t\<rparr>)
      (time_meet (a\<lparr>throughput := Some p\<rparr>) (b\<lparr>throughput := Some q\<rparr>)) =
      (time_satisfies (time_new\<lparr>throughput := Some t\<rparr>) (a\<lparr>throughput := Some p\<rparr>) \<or>
       time_satisfies (time_new\<lparr>throughput := Some t\<rparr>) (b\<lparr>throughput := Some q\<rparr>))"
    by (auto simp: time_satisfies_def time_meet_def time_new_def none below_def)
qed

end
