(* ===== verification/Infer.thy ===== *)
theory Infer
  imports Channels
begin

section \<open>The channel inferencers (compiler/src/ty2.rs)\<close>

text \<open>
  One inferencer per channel maps an expression to a level of the channel. Their only state is
  the list of reported errors, which inference does not touch, and for capabilities the table
  \<open>fn_annotations\<close>, an argument here. The message of an error is kept as the arguments of its
  format string: the location, the level found and the level declared.
\<close>

subsection \<open>Sizes of nested syntax\<close>

lemma size_arm_body [termination_simp]:
  "st \<in> set (arm_body arm) \<Longrightarrow> size st < size arm"
  by (cases arm) (auto dest!: size_list_estimation'[where y = "size st" and f = size, OF _ order_refl])

lemma size_in_list [termination_simp]:
  "x \<in> set xs \<Longrightarrow> size x < size_list size xs"
  by (induction xs) auto

lemma size_stmt_in_arms [termination_simp]:
  assumes "arm \<in> set arms" and "SExpr e \<in> set (arm_body arm)"
  shows "size e < size_list size arms"
  using size_arm_body[OF assms(2)] size_in_list[OF assms(1)] by simp

definition unwrap_or :: "'a option \<Rightarrow> 'a \<Rightarrow> 'a" where
  "unwrap_or r d = (case r of None \<Rightarrow> d | Some x \<Rightarrow> x)"

lemma unwrap_or_simps [simp]: "unwrap_or None d = d" "unwrap_or (Some x) d = x"
  by (simp_all add: unwrap_or_def)

text \<open>\<open>Iterator::reduce\<close>.\<close>

fun reduce :: "('a \<Rightarrow> 'a \<Rightarrow> 'a) \<Rightarrow> 'a list \<Rightarrow> 'a option" where
  "reduce f [] = None"
| "reduce f (x # xs) = Some (foldl f x xs)"

subsection \<open>Effects\<close>

fun effect_infer :: "'f Expr \<Rightarrow> Effect" where
  "effect_infer (Call func args) =
     (let eff = foldl (\<lambda>acc a. unwrap_or (effect_join acc (effect_infer a)) Async) Pure args
      in case func of
           Ident name \<Rightarrow>
             (if name = lit ''println'' \<or> name = lit ''print''
              then unwrap_or (effect_join eff Io) Io else eff)
         | _ \<Rightarrow> eff)"
| "effect_infer (IfExpr _ t e) =
     unwrap_or (effect_join (effect_infer t) (effect_infer e)) Async"
| "effect_infer (MatchExpr _ arms) =
     foldl (\<lambda>acc arm. foldl (\<lambda>acc st.
         case st of
           SExpr e \<Rightarrow> unwrap_or (effect_join acc (effect_infer e)) Async
         | _ \<Rightarrow> acc) acc (arm_body arm)) Pure arms"
| "effect_infer _ = Pure"

type_synonym effect_error = "ustr \<times> Effect \<times> Effect"

definition effect_check ::
  "Effect \<Rightarrow> Effect \<Rightarrow> ustr \<Rightarrow> effect_error list \<Rightarrow> effect_error list" where
  "effect_check ctx expr_eff location errors =
     (if \<not> effect_leq expr_eff ctx then errors @ [(location, expr_eff, ctx)] else errors)"

subsection \<open>Capabilities\<close>

definition builtin_capability :: "ustr \<Rightarrow> Capability option" where
  "builtin_capability name =
     (if name \<in> {lit ''sfa_encode'', lit ''sfa_query'', lit ''sfa_attend''} then Some Sfa
      else if starts_with name (lit ''gpu_'') then Some Gpu
      else if starts_with name (lit ''net_'') then Some Net
      else None)"

fun capability_infer :: "(ustr \<rightharpoonup> Capability) \<Rightarrow> 'f Expr \<Rightarrow> Capability" where
  "capability_infer ann (Call func args) =
     (let cap = foldl (\<lambda>acc a. unwrap_or (capability_join acc (capability_infer ann a)) Cpu)
                  Cpu args
      in case func of
           Ident name \<Rightarrow>
             (let fn_cap = (case builtin_capability name of
                              Some c \<Rightarrow> c
                            | None \<Rightarrow> unwrap_or (ann name) Cpu)
              in unwrap_or (capability_join cap fn_cap) Cpu)
         | _ \<Rightarrow> cap)"
| "capability_infer ann (IfExpr _ t e) =
     unwrap_or (capability_join (capability_infer ann t) (capability_infer ann e)) Cpu"
| "capability_infer ann (MatchExpr _ arms) =
     foldl (\<lambda>acc arm. foldl (\<lambda>acc st.
         case st of
           SExpr e \<Rightarrow> unwrap_or (capability_join acc (capability_infer ann e)) Cpu
         | _ \<Rightarrow> acc) acc (arm_body arm)) Cpu arms"
| "capability_infer ann _ = Cpu"

subsection \<open>Confidence\<close>

definition call_confidence :: "ustr \<Rightarrow> Confidence" where
  "call_confidence name =
     (if name \<in> {lit ''llm_generate'', lit ''llm_complete'', lit ''llm_embed''} then Generated
      else if name \<in> {lit ''verify'', lit ''validate'', lit ''check''} then Verified
      else if name \<in> {lit ''prove'', lit ''formal_verify''} then Proven
      else Inferred)"

fun confidence_infer :: "'f Expr \<Rightarrow> Confidence" where
  "confidence_infer (IntLiteral _) = Proven"
| "confidence_infer (FloatLiteral _) = Proven"
| "confidence_infer (StringLiteral _) = Proven"
| "confidence_infer (BoolLiteral _) = Proven"
| "confidence_infer (CharLiteral _) = Proven"
| "confidence_infer (Range _ _ _) = Proven"
| "confidence_infer (OptionValue _ _) = Inferred"
| "confidence_infer (ResultValue _ _ _) = Inferred"
| "confidence_infer (Array items) =
     unwrap_or (reduce confidence_join (map confidence_infer items)) Proven"
| "confidence_infer (Ident _) = Uncertain"
| "confidence_infer (BinaryOp l _ r) = confidence_join (confidence_infer l) (confidence_infer r)"
| "confidence_infer (UnaryOp _ e) = confidence_infer e"
| "confidence_infer (Call func args) =
     (let conf = foldl (\<lambda>acc a. confidence_join acc (confidence_infer a)) Proven args
      in case func of
           Ident name \<Rightarrow> confidence_join conf (call_confidence name)
         | _ \<Rightarrow> confidence_join conf Inferred)"
| "confidence_infer (IfExpr _ t e) = confidence_join (confidence_infer t) (confidence_infer e)"
| "confidence_infer (MatchExpr _ arms) =
     foldl (\<lambda>acc arm. foldl (\<lambda>acc st.
         case st of SExpr e \<Rightarrow> confidence_join acc (confidence_infer e) | _ \<Rightarrow> acc)
       acc (arm_body arm)) Proven arms"
| "confidence_infer _ = Uncertain"

type_synonym confidence_error = "ustr \<times> Confidence \<times> Confidence"

definition confidence_check ::
  "Confidence \<Rightarrow> Confidence \<Rightarrow> ustr \<Rightarrow> confidence_error list \<Rightarrow> confidence_error list" where
  "confidence_check actual required location errors =
     (if \<not> confidence_leq required actual then errors @ [(location, required, actual)]
      else errors)"

subsection \<open>The cognitive loop\<close>

fun cognitive_infer :: "'f Expr \<Rightarrow> CognitiveLoop" where
  "cognitive_infer (BinaryOp _ _ _) = Reason"
| "cognitive_infer (UnaryOp _ _) = Reason"
| "cognitive_infer (IfExpr _ _ _) = Decide"
| "cognitive_infer (MatchExpr _ _) = Decide"
| "cognitive_infer (Call func args) =
     (case func of
        Ident name \<Rightarrow>
          (if name \<in> {lit ''sfa_encode'', lit ''sfa_query'', lit ''sfa_attend'',
                       lit ''llm_infer''} then Loop
           else unwrap_or (reduce cognitive_join (map cognitive_infer args)) Act)
      | _ \<Rightarrow> Act)"
| "cognitive_infer _ = Perceive"

type_synonym cognitive_error = "ustr \<times> CognitiveLoop \<times> CognitiveLoop"

definition cognitive_check ::
  "CognitiveLoop \<Rightarrow> CognitiveLoop \<Rightarrow> ustr \<Rightarrow> cognitive_error list \<Rightarrow> cognitive_error list" where
  "cognitive_check ctx expr_loop location errors =
     (if \<not> cognitive_leq expr_loop ctx then errors @ [(location, expr_loop, ctx)] else errors)"

subsection \<open>Governance\<close>

definition approve_calls :: "ustr list" where
  "approve_calls = [lit ''write'', lit ''delete'', lit ''update'', lit ''charge'', lit ''pay'',
     lit ''send_money'', lit ''delete_user'', lit ''modify_permissions'']"

definition execute_calls :: "ustr list" where
  "execute_calls = [lit ''execute'', lit ''deploy'', lit ''shutdown'', lit ''format'',
     lit ''exec'']"

fun governance_infer :: "'f Expr \<Rightarrow> GovernanceLevel" where
  "governance_infer (BinaryOp _ _ _) = Suggest"
| "governance_infer (UnaryOp _ _) = Suggest"
| "governance_infer (IfExpr _ _ _) = Suggest"
| "governance_infer (MatchExpr _ _) = Suggest"
| "governance_infer (Call func args) =
     (case func of
        Ident name \<Rightarrow>
          (if name \<in> set approve_calls then Approve
           else if name \<in> set execute_calls then Execute
           else unwrap_or (reduce governance_join (map governance_infer args)) Prepare)
      | _ \<Rightarrow> Suggest)"
| "governance_infer _ = Prepare"

type_synonym governance_error = "ustr \<times> GovernanceLevel \<times> GovernanceLevel"

definition governance_check ::
  "GovernanceLevel \<Rightarrow> GovernanceLevel \<Rightarrow> ustr \<Rightarrow> governance_error list \<Rightarrow>
   governance_error list" where
  "governance_check required actual location errors =
     (if \<not> governance_leq actual required then errors @ [(location, actual, required)]
      else errors)"

subsection \<open>Time\<close>

definition latency_only :: "nat \<Rightarrow> TimeConstraint" where
  "latency_only n = \<lparr>latency_ms = Some n, timeout_ms = None, throughput = None\<rparr>"

fun time_infer :: "'f Expr \<Rightarrow> TimeConstraint" where
  "time_infer (Call _ _) = latency_only 10"
| "time_infer (MemberAccess _ _) = time_new"
| "time_infer (Index _ _) = time_new"
| "time_infer (Pipe _ _) = time_new"
| "time_infer _ = latency_only 0"

type_synonym time_error = "ustr \<times> TimeConstraint \<times> TimeConstraint"

definition time_check ::
  "TimeConstraint \<Rightarrow> TimeConstraint \<Rightarrow> ustr \<Rightarrow> time_error list \<Rightarrow> time_error list" where
  "time_check actual required location errors =
     (if \<not> time_satisfies actual required then errors @ [(location, required, actual)]
      else errors)"

end
