(* ===== verification/Scope.thy ===== *)
theory Scope
  imports Prelude
begin

section \<open>Scoped environments\<close>

text \<open>
  The interface shared by the environment of the type inferencer (compiler/src/ty.rs, TypeEnv)
  and that of the interpreter (runtime/src/env.rs, Environment): a table of names with an optional
  parent, where a lookup goes to the nearest scope that has the name. The clients' facts about
  shadowing and parameter binding are proved here once.
\<close>

locale scoped_env =
  fixes empty :: 'e
    and child :: "'e \<Rightarrow> 'e"
    and define_in :: "'e \<Rightarrow> ustr \<Rightarrow> 'v \<Rightarrow> 'e"
    and lookup :: "'e \<Rightarrow> ustr \<Rightarrow> 'v option"
  assumes lookup_empty: "lookup empty n = None"
    and lookup_child: "lookup (child e) n = lookup e n"
    and lookup_define: "lookup (define_in e n v) m = (if m = n then Some v else lookup e m)"
begin

lemma define_shadows: "lookup (define_in (child e) n v) n = Some v"
  by (simp add: lookup_define)

lemma define_frame: "m \<noteq> n \<Longrightarrow> lookup (define_in (child e) n v) m = lookup e m"
  by (simp add: lookup_define lookup_child)

lemma define_commute:
  "n \<noteq> m \<Longrightarrow> lookup (define_in (define_in e n v) m w) k = lookup (define_in (define_in e m w) n v) k"
  by (simp add: lookup_define)

text \<open>Binding a list of parameters in a fresh scope: the last binding of a name wins.\<close>

lemma lookup_define_all:
  "lookup (foldl (\<lambda>e (n, v). define_in e n v) e ps) m =
     (case map_of (rev ps) m of Some v \<Rightarrow> Some v | None \<Rightarrow> lookup e m)"
proof (induction ps rule: rev_induct)
  case (snoc p ps)
  obtain n v where "p = (n, v)" by force
  with snoc show ?case by (simp add: lookup_define)
qed simp

lemma lookup_call_scope:
  "lookup (foldl (\<lambda>e (n, v). define_in e n v) (child e) ps) m =
     (case map_of (rev ps) m of Some v \<Rightarrow> Some v | None \<Rightarrow> lookup e m)"
  by (simp add: lookup_define_all lookup_child split: option.split)

end

end
