(* ===== verification/Ty.thy ===== *)
theory Ty
  imports Infer Scope
begin

section \<open>The value type inferencer (compiler/src/ty.rs)\<close>

text \<open>
  Type variables are numbered by a global counter (\<open>counter\<close> in the state); the printed name of
  variable \<open>n\<close> is a letter followed by \<open>n\<close>. Following a chain of variable bindings and unifying
  may run forever on a cyclic substitution, so both are partial functions into \<open>option\<close>, where
  \<open>None\<close> is "does not return"; \<open>unify_returns\<close> in \<open>TyCorrect\<close> shows that on the substitutions
  the inferencer builds they always return.
\<close>

subsection \<open>Types, environments, substitutions\<close>

datatype TypeOrVar = Concrete TypeRef | Variable nat

datatype TypeEnv = TypeEnv (env_types: "ustr \<rightharpoonup> TypeOrVar") (env_parent: "TypeEnv option")

definition env_new :: TypeEnv where
  "env_new = TypeEnv Map.empty None"

definition env_child :: "TypeEnv \<Rightarrow> TypeEnv" where
  "env_child self = TypeEnv Map.empty (Some self)"

definition env_declare :: "TypeEnv \<Rightarrow> ustr \<Rightarrow> TypeOrVar \<Rightarrow> TypeEnv" where
  "env_declare self name typ = TypeEnv ((env_types self)(name \<mapsto> typ)) (env_parent self)"

fun env_lookup :: "TypeEnv \<Rightarrow> ustr \<Rightarrow> TypeOrVar option" where
  "env_lookup (TypeEnv m p) name =
     (case m name of
        Some t \<Rightarrow> Some t
      | None \<Rightarrow> (case p of Some parent \<Rightarrow> env_lookup parent name | None \<Rightarrow> None))"

lemma env_lookup_declare:
  "env_lookup (env_declare e n t) m = (if m = n then Some t else env_lookup e m)"
  by (cases e) (simp add: env_declare_def)

interpretation tenv: scoped_env env_new env_child env_declare env_lookup
proof
  show "env_lookup env_new n = None" for n by (simp add: env_new_def)
  show "env_lookup (env_child e) n = env_lookup e n" for e n
    by (simp add: env_child_def split: option.split)
qed (rule env_lookup_declare)

datatype TypeError =
    InfiniteType nat TypeOrVar
  | BaseMismatch TypeRef TypeRef
  | ArgMismatch TypeRef TypeRef

type_synonym subst = "nat \<rightharpoonup> TypeOrVar"

definition int_type :: TypeRef where "int_type = type_new BInt"
definition float_type :: TypeRef where "float_type = type_new BFloat"
definition string_type :: TypeRef where "string_type = type_new BString"
definition bool_type :: TypeRef where "bool_type = type_new BBool"
definition none_type :: TypeRef where "none_type = type_new BNone"
definition unknown_type :: TypeRef where "unknown_type = type_new BUnknown"

definition is_numeric :: "BaseType \<Rightarrow> bool" where
  "is_numeric b = (b = BInt \<or> b = BFloat)"

definition can_compare :: "TypeRef \<Rightarrow> TypeRef \<Rightarrow> bool" where
  "can_compare a b = (base a \<in> {BInt, BFloat, BString, BBool, BChar} \<and>
     base b \<in> {BInt, BFloat, BString, BBool, BChar})"

subsection \<open>Unification\<close>

function occurs_check :: "nat \<Rightarrow> TypeOrVar \<Rightarrow> bool" where
  "occurs_check tv (Variable other) = (tv = other)"
| "occurs_check tv (Concrete t) =
     ((case generic_arg t of Some arg \<Rightarrow> occurs_check tv (Concrete arg) | None \<Rightarrow> False) \<or>
      (case result_err t of Some err \<Rightarrow> occurs_check tv (Concrete err) | None \<Rightarrow> False))"
  by pat_completeness auto
termination
proof (relation "measure (\<lambda>(v, t). case t of Concrete r \<Rightarrow> size r | Variable _ \<Rightarrow> 0)", goal_cases)
  case (2 tv t arg)
  then show ?case by (cases t) auto
next
  case (3 tv t err)
  then show ?case by (cases t) auto
qed simp

definition bind_var ::
  "nat \<Rightarrow> TypeOrVar \<Rightarrow> subst \<Rightarrow> TypeError option \<times> subst" where
  "bind_var tv typ s =
     (if occurs_check tv typ then (Some (InfiniteType tv typ), s) else (None, s(tv \<mapsto> typ)))"

partial_function (option) apply_subst_local :: "subst \<Rightarrow> TypeOrVar \<Rightarrow> TypeOrVar option" where
  "apply_subst_local s typ =
     (case typ of
        Variable tv \<Rightarrow>
          (case s tv of
             Some resolved \<Rightarrow> apply_subst_local s resolved
           | None \<Rightarrow> Some typ)
      | Concrete t \<Rightarrow>
          (case generic_arg t of
             Some a \<Rightarrow>
               Option.bind (apply_subst_local s (Concrete a)) (\<lambda>g.
                 case result_err t of
                   Some e \<Rightarrow>
                     Option.bind (apply_subst_local s (Concrete e)) (\<lambda>e'.
                       Some (case (g, e') of
                           (Concrete g', Concrete e'') \<Rightarrow>
                             Concrete (TypeRef (base t) (Some g') (Some e''))
                         | _ \<Rightarrow> typ))
                 | None \<Rightarrow>
                     Some (case g of
                         Concrete g' \<Rightarrow> Concrete (TypeRef (base t) (Some g') None)
                       | _ \<Rightarrow> typ))
           | None \<Rightarrow>
               (case result_err t of
                  Some e \<Rightarrow>
                    Option.bind (apply_subst_local s (Concrete e)) (\<lambda>_. Some typ)
                | None \<Rightarrow> Some typ)))"

partial_function (option) unify ::
  "TypeOrVar \<Rightarrow> TypeOrVar \<Rightarrow> subst \<Rightarrow> (TypeError option \<times> subst) option" where
  "unify t1 t2 s =
     Option.bind (apply_subst_local s t1) (\<lambda>u1.
     Option.bind (apply_subst_local s t2) (\<lambda>u2.
       case u1 of
         Variable tv \<Rightarrow> Some (bind_var tv u2 s)
       | Concrete a \<Rightarrow>
           (case u2 of
              Variable tv \<Rightarrow> Some (bind_var tv u1 s)
            | Concrete b \<Rightarrow>
                if base a \<noteq> base b then Some (Some (BaseMismatch a b), s)
                else
                  Option.bind
                    (case (generic_arg a, generic_arg b) of
                       (Some ga, Some gb) \<Rightarrow> unify (Concrete ga) (Concrete gb) s
                     | (None, None) \<Rightarrow> Some (None, s)
                     | _ \<Rightarrow> Some (Some (ArgMismatch a b), s)) (\<lambda>r.
                  case r of
                    (Some e, s') \<Rightarrow> Some (Some e, s')
                  | (None, s') \<Rightarrow>
                      (case (result_err a, result_err b) of
                         (Some ea, Some eb) \<Rightarrow> unify (Concrete ea) (Concrete eb) s'
                       | _ \<Rightarrow> Some (None, s'))))))"

subsubsection \<open>Facts about unification\<close>

lemma occurs_check_Concrete [simp]: "\<not> occurs_check tv (Concrete t)"
proof (induction t)
  case (TypeRef b a e)
  then show ?case by (cases a; cases e) auto
qed

declare occurs_check.simps(2) [simp del]

lemma apply_Concrete [simp]: "apply_subst_local s (Concrete t) = Some (Concrete t)"
proof (induction t)
  case (TypeRef b a e)
  then show ?case
    by (subst apply_subst_local.simps) (cases a; cases e; auto)
qed

lemma apply_Variable_free: "s v = None \<Longrightarrow> apply_subst_local s (Variable v) = Some (Variable v)"
  by (simp add: apply_subst_local.simps)

lemma apply_Variable_bound:
  "s v = Some t \<Longrightarrow> apply_subst_local s (Variable v) = apply_subst_local s t"
  by (subst apply_subst_local.simps) simp

lemma apply_empty [simp]: "apply_subst_local Map.empty t = Some t"
  by (cases t) (simp_all add: apply_Variable_free)

text \<open>
  Following a chain of bindings, as a relation: it ends in a concrete type or an unbound variable.
\<close>

inductive follows :: "subst \<Rightarrow> TypeOrVar \<Rightarrow> TypeOrVar \<Rightarrow> bool" for s where
  concrete: "follows s (Concrete t) (Concrete t)"
| free: "s v = None \<Longrightarrow> follows s (Variable v) (Variable v)"
| step: "s v = Some t \<Longrightarrow> follows s t r \<Longrightarrow> follows s (Variable v) r"

inductive_simps follows_Concrete [simp]: "follows s (Concrete t) r"

inductive_cases follows_VariableE: "follows s (Variable v) r"

lemma follows_apply: "follows s t r \<Longrightarrow> apply_subst_local s t = Some r"
  by (induction rule: follows.induct) (simp_all add: apply_Variable_free apply_Variable_bound)

lemma apply_follows: "apply_subst_local s t = Some r \<Longrightarrow> follows s t r"
proof (rule apply_subst_local.raw_induct [where P = follows])
  fix f s t r
  assume IH: "\<And>s t r. f s t = Some r \<Longrightarrow> follows s t r"
  assume eq: "(case t of
        Concrete u \<Rightarrow>
          (case generic_arg u of
             None \<Rightarrow>
               (case result_err u of
                  None \<Rightarrow> Some t
                | Some e \<Rightarrow> Option.bind (f s (Concrete e)) (\<lambda>_. Some t))
           | Some a \<Rightarrow>
               Option.bind (f s (Concrete a)) (\<lambda>g.
                 case result_err u of
                   None \<Rightarrow>
                     Some (case g of
                         Concrete g' \<Rightarrow> Concrete (TypeRef (base u) (Some g') None)
                       | Variable n \<Rightarrow> t)
                 | Some e \<Rightarrow>
                     Option.bind (f s (Concrete e)) (\<lambda>e'.
                       Some (case (g, e') of
                           (Concrete g', Concrete e'') \<Rightarrow>
                             Concrete (TypeRef (base u) (Some g') (Some e''))
                         | (Concrete g', Variable n) \<Rightarrow> t
                         | (Variable n, b) \<Rightarrow> t))))
      | Variable tv \<Rightarrow>
          (case s tv of None \<Rightarrow> Some t | Some resolved \<Rightarrow> f s resolved)) = Some r"
  have IHc: "r' = Concrete w" if "f s (Concrete w) = Some r'" for w r'
    using IH[OF that] by simp
  show "follows s t r"
  proof (cases t)
    case (Variable v)
    with eq IH show ?thesis
      by (cases "s v") (auto intro: follows.intros)
  next
    case (Concrete u)
    with eq show ?thesis
      by (cases u) (auto split: option.splits bind_splits dest!: IHc)
  qed
qed

lemma apply_iff_follows: "apply_subst_local s t = Some r \<longleftrightarrow> follows s t r"
  by (blast intro: follows_apply apply_follows)

definition resolved :: "subst \<Rightarrow> TypeOrVar \<Rightarrow> bool" where
  "resolved s t = (case t of Concrete _ \<Rightarrow> True | Variable v \<Rightarrow> s v = None)"

lemma follows_resolved: "follows s t r \<Longrightarrow> resolved s r"
  by (induction rule: follows.induct) (auto simp: resolved_def)

lemma resolved_follows: "resolved s t \<Longrightarrow> follows s t t"
  by (cases t) (auto simp: resolved_def intro: follows.intros)

text \<open>Binding a free variable redirects the chains that end in it.\<close>

lemma follows_bind:
  assumes "follows s x r" and "s v = None" and "resolved s t" and "t \<noteq> Variable v"
  shows "follows (s(v \<mapsto> t)) x (if r = Variable v then t else r)"
  using assms(1)
proof (induction rule: follows.induct)
  case (free w)
  have "follows (s(v \<mapsto> t)) t t"
    using assms(3,4) by (intro resolved_follows) (auto simp: resolved_def split: TypeOrVar.splits)
  then have bound: "follows (s(v \<mapsto> t)) (Variable v) t" by (intro follows.step) auto
  show ?case
  proof (cases "w = v")
    case True
    with bound show ?thesis by (simp only: refl if_True)
  next
    case False
    with free have "follows (s(v \<mapsto> t)) (Variable w) (Variable w)" by (intro follows.free) simp
    with False show ?thesis by (simp only: TypeOrVar.inject if_False)
  qed
next
  case (step w u r)
  then have "w \<noteq> v" using assms(2) by auto
  with step show ?case by (auto intro: follows.step)
qed simp

definition total_subst :: "subst \<Rightarrow> bool" where
  "total_subst s = (\<forall>t. \<exists>r. follows s t r)"

lemma total_empty [simp]: "total_subst Map.empty"
  unfolding total_subst_def by (intro allI exI, rule apply_follows, rule apply_empty)

lemma total_bind:
  "total_subst s \<Longrightarrow> s v = None \<Longrightarrow> resolved s t \<Longrightarrow> t \<noteq> Variable v \<Longrightarrow> total_subst (s(v \<mapsto> t))"
  unfolding total_subst_def using follows_bind by blast

subsubsection \<open>Unification returns, and is sound\<close>

text \<open>
  Two concrete types unify exactly when they agree: the same base, both or neither with a
  generic argument, the arguments agreeing, and the error types agreeing where both have one.
\<close>

fun agree :: "TypeRef \<Rightarrow> TypeRef \<Rightarrow> bool" where
  "agree (TypeRef b a e) (TypeRef b' a' e') =
     (b = b' \<and>
      (case (a, a') of (Some x, Some y) \<Rightarrow> agree x y | (None, None) \<Rightarrow> True | _ \<Rightarrow> False) \<and>
      (case (e, e') of (Some x, Some y) \<Rightarrow> agree x y | _ \<Rightarrow> True))"

lemma unify_Concrete:
  "\<exists>err. unify (Concrete a) (Concrete b) s = Some (err, s) \<and> (err = None \<longleftrightarrow> agree a b)"
proof (induction a b rule: agree.induct)
  case (1 b a e b' a' e')
  note unf = unify.simps[of "Concrete (TypeRef b a e)" "Concrete (TypeRef b' a' e')" s]
  show ?case
  proof (cases "b = b'")
    case eq: True
    show ?thesis
    proof (cases "a = None \<longleftrightarrow> a' = None")
      case True
      then obtain err where err: "(case (a, a') of
          (Some ga, Some gb) \<Rightarrow> unify (Concrete ga) (Concrete gb) s
        | (None, None) \<Rightarrow> Some (None, s)
        | _ \<Rightarrow> Some (Some (ArgMismatch (TypeRef b a e) (TypeRef b' a' e')), s)) = Some (err, s)"
        "err = None \<longleftrightarrow> (case (a, a') of (Some x, Some y) \<Rightarrow> agree x y | (None, None) \<Rightarrow> True | _ \<Rightarrow> False)"
        using 1(1) by (cases a; cases a') auto
      show ?thesis
      proof (cases err)
        case None
        with err eq show ?thesis using 1(2) unf by (cases e; cases e') auto
      next
        case (Some x)
        with err eq show ?thesis using unf by auto
      qed
    next
      case False
      with eq show ?thesis using unf by (cases a; cases a') auto
    qed
  next
    case False
    then show ?thesis using unf by simp
  qed
qed

lemma unify_left_var:
  "follows s t1 (Variable v) \<Longrightarrow> follows s t2 u \<Longrightarrow> unify t1 t2 s = Some (bind_var v u s)"
  by (subst unify.simps) (simp add: follows_apply)

lemma unify_right_var:
  "follows s t1 (Concrete a) \<Longrightarrow> follows s t2 (Variable v) \<Longrightarrow>
   unify t1 t2 s = Some (bind_var v (Concrete a) s)"
  by (subst unify.simps) (simp add: follows_apply)

lemma unify_concrete:
  assumes "follows s t1 (Concrete a)" and "follows s t2 (Concrete b)"
  shows "unify t1 t2 s = unify (Concrete a) (Concrete b) s"
  using assms by (subst (1 2) unify.simps) (simp add: follows_apply)

lemma bind_var_Variable:
  "bind_var v (Variable w) s =
     (if v = w then (Some (InfiniteType v (Variable w)), s) else (None, s(v \<mapsto> Variable w)))"
  by (simp add: bind_var_def)

lemma bind_var_Concrete: "bind_var v (Concrete a) s = (None, s(v \<mapsto> Concrete a))"
  by (simp add: bind_var_def)

text \<open>The outcomes of a call on a substitution whose chains end, by the ends of the two chains.\<close>

lemma unify_cases [consumes 1, case_names same left right concrete]:
  assumes "total_subst s"
  obtains (same) v where "follows s t1 (Variable v)" "follows s t2 (Variable v)"
      "unify t1 t2 s = Some (Some (InfiniteType v (Variable v)), s)"
  | (left) v u where "follows s t1 (Variable v)" "follows s t2 u" "u \<noteq> Variable v"
      "unify t1 t2 s = Some (None, s(v \<mapsto> u))"
  | (right) v a where "follows s t1 (Concrete a)" "follows s t2 (Variable v)"
      "unify t1 t2 s = Some (None, s(v \<mapsto> Concrete a))"
  | (concrete) a b err where "follows s t1 (Concrete a)" "follows s t2 (Concrete b)"
      "unify t1 t2 s = Some (err, s)" "err = None \<longleftrightarrow> agree a b"
proof -
  obtain u1 u2 where u: "follows s t1 u1" "follows s t2 u2"
    using assms unfolding total_subst_def by blast
  show thesis
  proof (cases u1)
    case (Variable v)
    with u unify_left_var[of s t1 v t2 u2] show thesis
      by (cases "u2 = Variable v"; cases u2)
        (auto intro: same left simp: bind_var_Variable bind_var_Concrete)
  next
    case (Concrete a)
    show thesis
    proof (cases u2)
      case (Variable v)
      with u Concrete unify_right_var[of s t1 a t2 v] show thesis
        by (intro right) (simp_all add: bind_var_Concrete)
    next
      case (Concrete b)
      with u \<open>u1 = Concrete a\<close> unify_Concrete[of a b s] show thesis
        using concrete unify_concrete[of s t1 a t2 b] by metis
    qed
  qed
qed


lemma unify_total:
  assumes "total_subst s"
  shows "\<exists>err s'. unify t1 t2 s = Some (err, s') \<and> total_subst s'"
  using assms
proof (cases rule: unify_cases[of s t1 t2])
  case (left v u)
  then have "s v = None" "resolved s u"
    using follows_resolved by (fastforce simp: resolved_def)+
  with left assms show ?thesis by (simp add: total_bind)
next
  case (right v a)
  then have "s v = None" "resolved s (Concrete a)"
    using follows_resolved by (fastforce simp: resolved_def)+
  with right assms show ?thesis by (simp add: total_bind)
qed (use assms in simp_all)

text \<open>\<open>run_unify\<close> and \<open>run_apply\<close> are the values of calls that return.\<close>

definition run_unify :: "TypeOrVar \<Rightarrow> TypeOrVar \<Rightarrow> subst \<Rightarrow> TypeError option \<times> subst" where
  "run_unify t1 t2 s = the (unify t1 t2 s)"

definition run_apply :: "subst \<Rightarrow> TypeOrVar \<Rightarrow> TypeOrVar" where
  "run_apply s t = the (apply_subst_local s t)"

lemma run_unify_total: "total_subst s \<Longrightarrow> total_subst (snd (run_unify t1 t2 s))"
  using unify_total[of s t1 t2] by (auto simp: run_unify_def)

lemma run_apply_follows: "total_subst s \<Longrightarrow> follows s t (run_apply s t)"
  unfolding total_subst_def run_apply_def by (metis follows_apply option.sel)

lemma run_apply_Concrete [simp]: "run_apply s (Concrete t) = Concrete t"
  by (simp add: run_apply_def)

subsection \<open>The inferencer\<close>

record tyinf =
  env :: TypeEnv
  errors :: "TypeError list"
  inferred_types :: "ustr \<rightharpoonup> TypeRef"
  fn_signatures :: "ustr \<rightharpoonup> (TypeOrVar list \<times> TypeOrVar)"
  counter :: nat

definition tyinf_new :: "nat \<Rightarrow> tyinf" where
  "tyinf_new n = \<lparr>env = env_new, errors = [], inferred_types = Map.empty,
     fn_signatures = Map.empty, counter = n\<rparr>"

definition fresh_var :: "tyinf \<Rightarrow> TypeOrVar \<times> tyinf" where
  "fresh_var st = (Variable (counter st), st\<lparr>counter := counter st + 1\<rparr>)"

definition declare_type :: "ustr \<Rightarrow> TypeOrVar \<Rightarrow> tyinf \<Rightarrow> tyinf" where
  "declare_type name t st = st\<lparr>env := env_declare (env st) name t\<rparr>"

definition record_type :: "ustr \<Rightarrow> TypeOrVar \<Rightarrow> tyinf \<Rightarrow> tyinf" where
  "record_type name t st =
     (case t of
        Concrete r \<Rightarrow> st\<lparr>inferred_types := (inferred_types st)(name \<mapsto> r)\<rparr>
      | Variable _ \<Rightarrow> st)"

definition push_error :: "TypeError option \<Rightarrow> tyinf \<Rightarrow> tyinf" where
  "push_error e st = (case e of None \<Rightarrow> st | Some x \<Rightarrow> st\<lparr>errors := errors st @ [x]\<rparr>)"

definition infer_ident :: "ustr \<Rightarrow> tyinf \<Rightarrow> TypeOrVar \<times> tyinf" where
  "infer_ident name st =
     (case env_lookup (env st) name of
        Some t \<Rightarrow> (t, st)
      | None \<Rightarrow> (let (tv, st1) = fresh_var st in (tv, declare_type name tv st1)))"

definition has_base :: "TypeOrVar \<Rightarrow> BaseType \<Rightarrow> bool" where
  "has_base t b = (case t of Concrete r \<Rightarrow> base r = b | Variable _ \<Rightarrow> False)"

text \<open>The result type of a binary operator from the types of its operands.\<close>

definition binary_type :: "TypeOrVar \<Rightarrow> ustr \<Rightarrow> TypeOrVar \<Rightarrow> TypeOrVar" where
  "binary_type l op r =
     (let (_, s) = run_unify l r Map.empty; unified = run_apply s l in
      if op \<in> {lit ''+'', lit ''-'', lit ''*'', lit ''/'', lit ''%''} then
        (case unified of
           Variable _ \<Rightarrow> unified
         | Concrete t \<Rightarrow>
             if is_numeric (base t) then
               (if op = lit ''+'' \<and> (has_base l BString \<or> has_base r BString)
                then Concrete string_type
                else if has_base l BFloat \<or> has_base r BFloat then Concrete float_type
                else Concrete int_type)
             else Concrete int_type)
      else if op \<in> {lit ''=='', lit ''!='', lit ''<'', lit ''>'', lit ''<='', lit ''>=''}
        then Concrete bool_type
      else if op \<in> {lit ''&&'', lit ''||''} then Concrete bool_type
      else if op = lit ''='' then r
      else Concrete unknown_type)"

definition unary_type :: "ustr \<Rightarrow> TypeOrVar \<Rightarrow> TypeOrVar" where
  "unary_type op t =
     (if op = lit ''-'' then
        (case t of
           Variable _ \<Rightarrow> t
         | Concrete c \<Rightarrow> if is_numeric (base c) then t else Concrete int_type)
      else if op = lit ''!'' then Concrete bool_type
      else Concrete unknown_type)"

definition type_builtins :: "ustr list" where
  "type_builtins = [lit ''println'', lit ''print'', lit ''len'', lit ''push'', lit ''assert'',
     lit ''int'', lit ''float'', lit ''str'', lit ''abs'', lit ''range'']"

definition builtin_call_type :: "ustr \<Rightarrow> TypeOrVar" where
  "builtin_call_type name =
     (if name \<in> set type_builtins then
        (if name \<in> {lit ''int'', lit ''float'', lit ''str'', lit ''abs''} then Concrete int_type
         else if name \<in> {lit ''len'', lit ''range''} then Concrete int_type
         else Concrete none_type)
      else Concrete none_type)"

definition fresh_map :: "TypeOrVar \<Rightarrow> tyinf \<Rightarrow> TypeOrVar \<times> tyinf" where
  "fresh_map t st = (case t of Variable _ \<Rightarrow> fresh_var st | Concrete c \<Rightarrow> (Concrete c, st))"

fun fresh_maps :: "TypeOrVar list \<Rightarrow> tyinf \<Rightarrow> TypeOrVar list \<times> tyinf" where
  "fresh_maps [] st = ([], st)"
| "fresh_maps (t # ts) st =
     (let (u, st1) = fresh_map t st; (us, st2) = fresh_maps ts st1 in (u # us, st2))"

text \<open>One stage of a pipeline: the type after applying the function called \<open>name\<close>.\<close>

definition pipe_step :: "ustr \<Rightarrow> TypeOrVar \<Rightarrow> tyinf \<Rightarrow> TypeOrVar \<times> tyinf" where
  "pipe_step name current st =
     (case fn_signatures st name of
        Some (param_types, return_type) \<Rightarrow>
          (let (fresh_ret, st1) = fresh_map return_type st;
               s = (case param_types of
                      first_param # _ \<Rightarrow> snd (run_unify first_param current Map.empty)
                    | [] \<Rightarrow> Map.empty)
           in (run_apply s fresh_ret, st1))
      | None \<Rightarrow>
          if name \<in> {lit ''len'', lit ''int'', lit ''float'', lit ''str'', lit ''abs''} then
            (if name = lit ''len'' then (Concrete int_type, st) else (current, st))
          else (Concrete unknown_type, st))"

fun pipe_steps :: "ustr list \<Rightarrow> TypeOrVar \<Rightarrow> tyinf \<Rightarrow> TypeOrVar \<times> tyinf" where
  "pipe_steps [] current st = (current, st)"
| "pipe_steps (n # ns) current st =
     (let (t, st1) = pipe_step n current st in pipe_steps ns t st1)"

definition array_type :: "TypeOrVar \<Rightarrow> TypeOrVar" where
  "array_type first =
     (case first of
        Concrete t \<Rightarrow> Concrete (TypeRef BArray (Some t) None)
      | Variable _ \<Rightarrow> Concrete (type_new BArray))"

definition option_type :: "TypeOrVar \<Rightarrow> TypeOrVar" where
  "option_type inner =
     (case inner of
        Concrete t \<Rightarrow> Concrete (TypeRef BOption (Some t) None)
      | Variable _ \<Rightarrow> Concrete (type_new BOption))"

definition ok_type :: "TypeOrVar \<Rightarrow> TypeOrVar" where
  "ok_type inner =
     (case inner of
        Concrete t \<Rightarrow> Concrete (TypeRef BResult (Some t) (Some string_type))
      | Variable _ \<Rightarrow> Concrete (type_new BResult))"

definition index_type :: "TypeOrVar \<Rightarrow> TypeOrVar" where
  "index_type arr =
     (case arr of
        Concrete t \<Rightarrow>
          (case generic_arg t of Some a \<Rightarrow> Concrete a | None \<Rightarrow> Concrete none_type)
      | Variable _ \<Rightarrow> Concrete none_type)"

definition if_type :: "TypeOrVar \<Rightarrow> TypeOrVar \<Rightarrow> TypeOrVar" where
  "if_type then_type else_type =
     (if has_base then_type BNone then else_type
      else if has_base else_type BNone then then_type
      else then_type)"

definition param_types :: "'f FnParam list \<Rightarrow> TypeEnv \<Rightarrow> tyinf \<Rightarrow> TypeOrVar list \<times> TypeEnv \<times> tyinf"
  where
  "param_types params child_env st =
     foldl (\<lambda>(ts, e, st) p.
        case param_type p of
          Some ann \<Rightarrow> (ts @ [Concrete ann], env_declare e (param_name p) (Concrete ann), st)
        | None \<Rightarrow>
            (let (tv, st1) = fresh_var st
             in (ts @ [tv], env_declare e (param_name p) tv, st1)))
       ([], child_env, st) params"


text \<open>
  The mutual recursion over statements and expressions. As in the source, only the last
  statement of the body of a function, a branch or a loop is inferred, while every statement of
  a match arm is. Results of unification are used or dropped as the source does.
\<close>

lemma size_last [termination_simp]: "xs \<noteq> [] \<Longrightarrow> size (last xs) < size_list size xs"
  by (induction xs) auto

lemma size_in_arm [termination_simp]:
  assumes "arm \<in> set arms" and "st \<in> set (arm_body arm)"
  shows "size st < size_list size arms"
  using size_arm_body[OF assms(2)] size_in_list[OF assms(1)] by simp

function (sequential) infer_stmt :: "'f Stmt \<Rightarrow> tyinf \<Rightarrow> TypeOrVar \<times> tyinf"
and infer_expr :: "'f Expr \<Rightarrow> tyinf \<Rightarrow> TypeOrVar \<times> tyinf" where
  "infer_stmt (SLet name value ann _) st =
     (case ann of
        Some a \<Rightarrow>
          (let t = Concrete a; st1 = record_type name t (declare_type name t st) in
           case value of
             Some v \<Rightarrow>
               (let (actual, st2) = infer_expr v st1
                in (t, push_error (fst (run_unify t actual Map.empty)) st2))
           | None \<Rightarrow> (t, st1))
      | None \<Rightarrow>
          (case value of
             Some v \<Rightarrow>
               (let (t, st1) = infer_expr v st
                in (t, record_type name t (declare_type name t st1)))
           | None \<Rightarrow> (Concrete none_type, st)))"
| "infer_stmt (SConst name value _) st =
     (case value of
        Some v \<Rightarrow>
          (let (t, st1) = infer_expr v st
           in (Concrete none_type, record_type name t (declare_type name t st1)))
      | None \<Rightarrow> (Concrete none_type, st))"
| "infer_stmt (SFn name params return_type _ body _ _) st =
     (let (ptypes, child_env, st1) = param_types params (env_child (env st)) st;
          (ret_tv, st2) = fresh_var st1;
          st3 = declare_type name (Concrete (type_new BFunc)) st2;
          st4 = st3\<lparr>fn_signatures := (fn_signatures st3)(name \<mapsto> (ptypes, ret_tv))\<rparr>;
          old_env = env st4;
          (body_type, st5) =
            (if body = [] then (Concrete none_type, st4\<lparr>env := child_env\<rparr>)
             else infer_stmt (last body) (st4\<lparr>env := child_env\<rparr>));
          st6 = st5\<lparr>env := old_env\<rparr>
      in case return_type of
           Some ann \<Rightarrow>
             (let (e, s) = run_unify (Concrete ann) body_type Map.empty;
                  st7 = push_error e st6;
                  resolved = run_apply s (Concrete ann);
                  sig = (case resolved of Concrete _ \<Rightarrow> resolved | Variable _ \<Rightarrow> body_type);
                  st8 = st7\<lparr>fn_signatures := (fn_signatures st7)(name \<mapsto> (ptypes, sig))\<rparr>
              in (resolved, declare_type name (Concrete (type_new BFunc)) st8))
         | None \<Rightarrow>
             (let st8 = st6\<lparr>fn_signatures := (fn_signatures st6)(name \<mapsto> (ptypes, body_type))\<rparr>
              in (body_type, declare_type name (Concrete (type_new BFunc)) st8)))"
| "infer_stmt (SIf condition then_body else_body) st =
     (let (_, st1) = infer_expr condition st;
          (then_type, st2) = (if then_body = [] then (Concrete none_type, st1)
                              else infer_stmt (last then_body) st1);
          (else_type, st3) = (if else_body = [] then (Concrete none_type, st2)
                              else infer_stmt (last else_body) st2)
      in (if_type then_type else_type, st3))"
| "infer_stmt (SFor target iterable body) st =
     (let (_, st1) = infer_expr iterable st;
          st2 = declare_type target (Concrete int_type) st1
      in if body = [] then (Concrete none_type, st2) else infer_stmt (last body) st2)"
| "infer_stmt (SWhile condition body) st =
     (let (_, st1) = infer_expr condition st
      in if body = [] then (Concrete none_type, st1) else infer_stmt (last body) st1)"
| "infer_stmt (SMatch target arms) st =
     (let (_, st1) = infer_expr target st;
          (ts, st2) = foldl (\<lambda>acc arm. foldl (\<lambda>acc s. case acc of (ts, st) \<Rightarrow>
              let (t, st') = infer_stmt s st in (ts @ [t], st')) acc (arm_body arm))
            ([], st1) arms
      in (case ts of t # _ \<Rightarrow> t | [] \<Rightarrow> Concrete none_type, st2))"
| "infer_stmt (SReturn v) st =
     (case v of Some e \<Rightarrow> infer_expr e st | None \<Rightarrow> (Concrete none_type, st))"
| "infer_stmt (SExpr e) st = infer_expr e st"
| "infer_stmt _ st = (Concrete none_type, st)"
| "infer_expr (IntLiteral _) st = (Concrete int_type, st)"
| "infer_expr (FloatLiteral _) st = (Concrete float_type, st)"
| "infer_expr (StringLiteral _) st = (Concrete string_type, st)"
| "infer_expr (BoolLiteral _) st = (Concrete bool_type, st)"
| "infer_expr (CharLiteral _) st = (Concrete (type_new BChar), st)"
| "infer_expr (Ident name) st = infer_ident name st"
| "infer_expr (BinaryOp left op right) st =
     (let (l, st1) = infer_expr left st; (r, st2) = infer_expr right st1
      in (binary_type l op r, st2))"
| "infer_expr (UnaryOp op operand) st =
     (let (t, st1) = infer_expr operand st in (unary_type op t, st1))"
| "infer_expr (Call func args) st =
     (case func of
        Ident func_name \<Rightarrow>
          (case fn_signatures st func_name of
             Some (ptypes, return_type) \<Rightarrow>
               (let (fresh_params, st1) = fresh_maps ptypes st;
                    (fresh_return, st2) = fresh_map return_type st1;
                    (_, s, st3) = foldl (\<lambda>acc arg. case acc of (i, s, st) \<Rightarrow>
                        let (arg_type, st') = infer_expr arg st in
                        if i < length fresh_params
                        then (Suc i, snd (run_unify (fresh_params ! i) arg_type s), st')
                        else (Suc i, s, st')) (0, Map.empty, st2) args
                in (run_apply s fresh_return, st3))
           | None \<Rightarrow>
               (builtin_call_type func_name, foldl (\<lambda>st a. snd (infer_expr a st)) st args))
      | _ \<Rightarrow> (Concrete none_type, foldl (\<lambda>st a. snd (infer_expr a st)) st args))"
| "infer_expr (Pipe input ops) st =
     (let (current, st1) = infer_expr input st in pipe_steps (map fst ops) current st1)"
| "infer_expr (Range start end' _) st =
     (let (_, st1) = infer_expr start st; (_, st2) = infer_expr end' st1
      in (Concrete (type_new BArray), st2))"
| "infer_expr (Array elems) st =
     (case elems of
        [] \<Rightarrow> (Concrete (type_new BArray), st)
      | e # es \<Rightarrow>
          (let (first, st1) = infer_expr e st;
               st2 = foldl (\<lambda>st elem.
                   let (et, st') = infer_expr elem st
                   in push_error (fst (run_unify first et Map.empty)) st') st1 es
           in (array_type first, st2)))"
| "infer_expr (OptionValue is_some value) st =
     (if is_some then
        (case value of
           Some v \<Rightarrow> (let (inner, st1) = infer_expr v st in (option_type inner, st1))
         | None \<Rightarrow> (Concrete (type_new BOption), st))
      else (Concrete (type_new BOption), st))"
| "infer_expr (ResultValue is_ok value _) st =
     (if is_ok then
        (case value of
           Some v \<Rightarrow> (let (inner, st1) = infer_expr v st in (ok_type inner, st1))
         | None \<Rightarrow> (Concrete (type_new BResult), st))
      else (Concrete (type_new BResult), st))"
| "infer_expr (MemberAccess _ _) st = (Concrete none_type, st)"
| "infer_expr (Index array index) st =
     (let (arr_type, st1) = infer_expr array st; (_, st2) = infer_expr index st1
      in (index_type arr_type, st2))"
| "infer_expr (IfExpr cond then_expr else_expr) st =
     (let (_, st1) = infer_expr cond st; (then_t, st2) = infer_expr then_expr st1;
          (_, st3) = infer_expr else_expr st2
      in (then_t, st3))"
| "infer_expr (MatchExpr target arms) st =
     (let (_, st1) = infer_expr target st;
          (ts, st2) = foldl (\<lambda>acc arm. foldl (\<lambda>acc s. case acc of (ts, st) \<Rightarrow>
              let (t, st') = infer_stmt s st in (ts @ [t], st')) acc (arm_body arm))
            ([], st1) arms
      in (case ts of t # _ \<Rightarrow> t | [] \<Rightarrow> Concrete none_type, st2))"

  by pat_completeness auto
termination
  by (relation "measure (case_sum (size \<circ> fst) (size \<circ> fst))")
    (auto simp: termination_simp)

definition infer_program :: "'f Program \<Rightarrow> tyinf \<Rightarrow> tyinf" where
  "infer_program prog st = foldl (\<lambda>st s. snd (infer_stmt s st)) st (statements prog)"


end
