(* ===== verification/TyCorrect.thy ===== *)
theory TyCorrect
  imports Ty
begin

text \<open>
  What the inference of ty.rs guarantees.
\<close>

subsection \<open>What inference keeps\<close>

text \<open>
  Inference only adds: errors are appended, the variable counter grows, and no name of the
  current scope is lost while the enclosing scopes stay as they are.
\<close>

definition extends :: "tyinf \<Rightarrow> tyinf \<Rightarrow> bool" where
  "extends st st' =
     ((\<exists>es. errors st' = errors st @ es) \<and> counter st \<le> counter st' \<and>
      env_parent (env st') = env_parent (env st) \<and>
      dom (env_types (env st)) \<subseteq> dom (env_types (env st')) \<and>
      dom (inferred_types st) \<subseteq> dom (inferred_types st') \<and>
      dom (fn_signatures st) \<subseteq> dom (fn_signatures st'))"

lemma extends_refl [simp, intro]: "extends st st"
  by (simp add: extends_def)

lemma extends_trans [trans]: "extends a b \<Longrightarrow> extends b c \<Longrightarrow> extends a c"
  unfolding extends_def
  by (elim conjE, intro conjI) (metis append_assoc, linarith, simp, blast, blast, blast)

lemma extends_declare: "extends st t \<Longrightarrow> extends st (declare_type n v t)"
  by (auto simp: extends_def declare_type_def env_declare_def)

lemma extends_record: "extends st t \<Longrightarrow> extends st (record_type n v t)"
  by (auto simp: extends_def record_type_def split: TypeOrVar.split)

lemma extends_push: "extends st t \<Longrightarrow> extends st (push_error e t)"
  by (auto simp: extends_def push_error_def split: option.split)

lemma extends_fresh: "extends st t \<Longrightarrow> extends st (snd (fresh_var t))"
  by (auto simp: extends_def fresh_var_def)

lemma extends_signature:
  "extends st t \<Longrightarrow> extends st (t\<lparr>fn_signatures := (fn_signatures t)(n \<mapsto> sig)\<rparr>)"
  by (auto simp: extends_def)

lemma extends_signature_scope:
  "extends st (t\<lparr>env := e\<rparr>) \<Longrightarrow>
   extends st (t\<lparr>env := e, fn_signatures := (fn_signatures t)(n \<mapsto> sig)\<rparr>)"
  by (auto simp: extends_def)

lemma extends_ident: "extends st (snd (infer_ident n st))"
  by (auto simp: infer_ident_def Let_def split_beta extends_declare extends_fresh
      split: option.split)

lemma extends_fresh_map: "extends st (snd (fresh_map t st))"
  by (auto simp: fresh_map_def extends_fresh split: TypeOrVar.split)

lemma extends_fresh_maps: "extends st (snd (fresh_maps ts st))"
proof (induction ts arbitrary: st)
  case (Cons t ts)
  show ?case
    using extends_trans[OF extends_fresh_map Cons.IH] by (simp add: Let_def split_beta)
qed simp

lemma extends_pipe_step: "extends st (snd (pipe_step n c st))"
  by (auto simp: pipe_step_def Let_def split_beta extends_fresh_map split: option.split)

lemma extends_pipe_steps: "extends st (snd (pipe_steps ns c st))"
proof (induction ns arbitrary: c st)
  case (Cons n ns)
  show ?case
    using extends_trans[OF extends_pipe_step Cons.IH] by (simp add: Let_def split_beta)
qed simp

lemma extends_foldl:
  assumes "\<And>x st. x \<in> set xs \<Longrightarrow> extends (g st) (g (f st x))"
  shows "extends (g a) (g (foldl f a xs))"
  using assms
proof (induction xs arbitrary: a)
  case (Cons x xs)
  have "extends (g a) (g (f a x))" by (rule Cons.prems) simp
  also have "extends (g (f a x)) (g (foldl f (f a x) xs))" by (rule Cons.IH) (simp add: Cons.prems)
  finally show ?case by simp
qed simp

lemma extends_arms:
  assumes "\<And>arm s st. arm \<in> set arms \<Longrightarrow> s \<in> set (arm_body arm) \<Longrightarrow> extends st (snd (f s st))"
  shows "extends (snd a) (snd (foldl (\<lambda>acc arm. foldl (\<lambda>acc s. case acc of (ts, st) \<Rightarrow>
      let (t, st') = f s st in (ts @ [t], st')) acc (arm_body arm)) a arms))"
proof (rule extends_foldl[where g = snd])
  fix arm and acc :: "'b list \<times> tyinf"
  assume "arm \<in> set arms"
  then show "extends (snd acc) (snd (foldl (\<lambda>acc s. case acc of (ts, st) \<Rightarrow>
      let (t, st') = f s st in (ts @ [t], st')) acc (arm_body arm)))"
    using assms by (intro extends_foldl[where g = snd]) (simp add: split_beta Let_def)
qed

lemma param_types_state:
  "extends st (snd (snd (param_types ps e st))) \<and>
   env (snd (snd (param_types ps e st))) = env st"
proof -
  let ?f = "\<lambda>(ts, e, st) p.
        case param_type p of
          Some ann \<Rightarrow> (ts @ [Concrete ann], env_declare e (param_name p) (Concrete ann), st)
        | None \<Rightarrow>
            (let (tv, st1) = fresh_var st
             in (ts @ [tv], env_declare e (param_name p) tv, st1))"
  have "extends st (snd (snd (foldl ?f (ts, e, st') ps))) \<and>
      env (snd (snd (foldl ?f (ts, e, st') ps))) = env st"
    if "extends st st'" "env st' = env st" for ts e st'
    using that
  proof (induction ps arbitrary: ts e st')
    case (Cons p ps)
    show ?case
    proof (cases "param_type p")
      case None
      have "extends st (snd (fresh_var st'))" using Cons.prems(1) by (rule extends_fresh)
      moreover have "env (snd (fresh_var st')) = env st"
        using Cons.prems(2) by (simp add: fresh_var_def)
      ultimately
      show ?thesis using None Cons.IH by (simp add: Let_def split_beta)
    qed (use Cons in simp)
  qed simp
  then show ?thesis unfolding param_types_def by blast
qed

text \<open>Leaving the scope of a function body restores the outer scope.\<close>

lemma extends_body:
  assumes "extends st t" and "extends (t\<lparr>env := e\<rparr>) u"
  shows "extends st (u\<lparr>env := env t\<rparr>)"
  using assms unfolding extends_def
  by (elim conjE, intro conjI)
    (simp, metis append_assoc, simp, simp, simp, simp, blast, simp, blast)


lemma infer_extends:
  fixes s :: "'f Stmt" and e :: "'f Expr"
  shows "extends st (snd (infer_stmt s st))" and "extends st' (snd (infer_expr e st'))"
proof (induction s st and e st' rule: infer_stmt_infer_expr.induct)
  case (1 name v ann m st)
  have decl: "extends st (record_type name t (declare_type name t u))" if "extends st u" for t u
    using that by (intro extends_record extends_declare)
  show ?case
  proof (cases ann)
    case None
    with 1 show ?thesis by (auto simp: Let_def split_beta decl split: option.split)
  next
    case (Some a)
    have "extends st (snd (infer_expr w (record_type name (Concrete a)
        (declare_type name (Concrete a) st))))" if "v = Some w" for w
      using extends_trans[OF decl[OF extends_refl]] 1(2)[OF Some refl refl that] by blast
    with Some show ?thesis
      by (auto simp: Let_def split_beta decl intro!: extends_push split: option.split)
  qed
next
  case (2 name v m st)
  then show ?case
    by (auto simp: Let_def split_beta intro!: extends_record extends_declare split: option.split)
next
  case (3 name params ret an body a p st)
  obtain ts ce st1 where pt: "param_types params (env_child (env st)) st = (ts, ce, st1)"
    by (cases "param_types params (env_child (env st)) st")
  obtain tv st2 where fv: "fresh_var st1 = (tv, st2)" by force
  define st4 where "st4 = (declare_type name (Concrete (type_new BFunc)) st2)
      \<lparr>fn_signatures := (fn_signatures (declare_type name (Concrete (type_new BFunc)) st2))
        (name \<mapsto> (ts, tv))\<rparr>"
  have "extends st st1" using param_types_state[of st params "env_child (env st)"] pt by simp
  then have "extends st st2" using extends_fresh[of st st1] fv by simp
  then have st4: "extends st st4" unfolding st4_def by (intro extends_signature extends_declare)
  define r where "r = (if body = [] then (Concrete none_type, st4\<lparr>env := ce\<rparr>)
      else infer_stmt (last body) (st4\<lparr>env := ce\<rparr>))"
  have "extends (st4\<lparr>env := ce\<rparr>) (snd r)"
    using 3[OF pt[symmetric] refl refl fv[symmetric] refl refl st4_def refl]
    by (simp add: r_def st4_def)
  note body = extends_body[OF st4 this, unfolded r_def]
  show ?case
    using body pt fv st4
    by (cases "body = []")
      (auto simp: Let_def split_beta st4_def[symmetric] split: option.split
        intro!: extends_declare extends_signature extends_signature_scope extends_push)
next
  case (4 c t e st)
  then show ?case
    by (auto simp: Let_def split_beta) (meson extends_trans prod.collapse)+
next
  case (5 target iterable body st)
  have "extends st (declare_type target (Concrete int_type) (snd (infer_expr iterable st)))"
    by (intro extends_declare 5(1))
  then show ?case
    using 5(2)[OF refl prod.collapse refl] extends_trans
    by (auto simp: Let_def split_beta)
next
  case (6 c body st)
  then show ?case
    by (auto simp: Let_def split_beta) (meson extends_trans prod.collapse)+
next
  case (7 target arms st)
  have "extends st (snd (infer_stmt s st))" if "arm \<in> set arms" "s \<in> set (arm_body arm)"
    for arm s st
    using 7(2)[OF refl prod.collapse that prod.collapse, of "([], st)"] by simp
  from extends_arms[where f = infer_stmt and a = "([], snd (infer_expr target st))", OF this]
  show ?case
    using extends_trans[OF 7(1)] by (simp add: Let_def split_beta)
next
  case (17 left op right st)
  show ?case
    using extends_trans[OF 17(1) 17(2)[OF refl prod.collapse]]
    by (simp add: Let_def split_beta)
next
  case (19 func args st)
  have arg: "extends u (snd (infer_expr x u))" if "x \<in> set args" for x u
  proof (cases func)
    case (Ident name)
    show ?thesis
    proof (cases "fn_signatures st name")
      case None
      show ?thesis by (rule 19(6)[OF Ident None that])
    next
      case (Some sig)
      show ?thesis
        by (rule 19(7)[OF Ident Some prod.collapse refl prod.collapse refl prod.collapse that
              prod.collapse prod.collapse, where a = "(0, Map.empty, u)", simplified])
    qed
  qed (erule 19(1-5) 19(8-19), rule that)+
  have plain: "extends u (foldl (\<lambda>st a. snd (infer_expr a st)) u args)" for u
    using extends_foldl[where g = "\<lambda>x. x" and xs = args and f = "\<lambda>st a. snd (infer_expr a st)"]
      arg by fastforce
  have sig: "extends u (snd (snd (foldl (\<lambda>acc arg. case acc of (i, s, st) \<Rightarrow>
      let (arg_type, st') = infer_expr arg st in
      if i < length ps then (Suc i, snd (run_unify (ps ! i) arg_type s), st')
      else (Suc i, s, st')) (n, m, u) args)))" for u ps n m
    using extends_foldl[where g = "\<lambda>x. snd (snd x)" and xs = args and a = "(n, m, u)" and
        f = "\<lambda>acc arg. case acc of (i, s, st) \<Rightarrow> let (arg_type, st') = infer_expr arg st in
      if i < length ps then (Suc i, snd (run_unify (ps ! i) arg_type s), st')
      else (Suc i, s, st')"] arg
    by (auto simp: Let_def split_beta)
  show ?case
  proof (cases func)
    case (Ident name)
    show ?thesis
    proof (cases "fn_signatures st name")
      case (Some sg)
      obtain ptypes ret where sg: "sg = (ptypes, ret)" by force
      obtain ps st1 where ps: "fresh_maps ptypes st = (ps, st1)" by force
      obtain rt st2 where rt: "fresh_map ret st1 = (rt, st2)" by force
      have "extends st st2"
        using extends_trans[OF extends_fresh_maps[of st ptypes] extends_fresh_map] ps rt
        by (metis snd_conv)
      from extends_trans[OF this sig[of st2 ps 0 Map.empty]]
      have "extends st (snd (infer_expr (Call (Ident name) args) st))"
        by (simp add: Some sg ps rt, simp add: split_beta Let_def)
      then show ?thesis by (simp only: Ident)
    qed (simp add: Ident plain)
  qed (simp_all add: plain)
next
  case (20 input ops st)
  show ?case
    using extends_trans[OF 20 extends_pipe_steps] by (simp add: Let_def split_beta)
next
  case (21 start end' i st)
  show ?case
    using extends_trans[OF 21(1) 21(2)[OF refl prod.collapse]]
    by (simp add: Let_def split_beta)
next
  case (22 elems st)
  show ?case
  proof (cases elems)
    case (Cons e es)
    have step: "extends u (push_error er (snd (infer_expr x u)))" if "x \<in> set es" for x u er
      by (intro extends_push 22(2)[OF Cons refl prod.collapse that])
    show ?thesis
      using extends_trans[OF 22(1)[OF Cons] extends_foldl[where g = "\<lambda>x. x" and xs = es and
            f = "\<lambda>acc elem. let (et, st') = infer_expr elem acc
              in push_error (fst (run_unify (fst (infer_expr e st)) et Map.empty)) st'"]]
      by (simp add: Cons Let_def split_beta step)
  qed simp
next
  case (26 array index st)
  show ?case
    using extends_trans[OF 26(1) 26(2)[OF refl prod.collapse]]
    by (simp add: Let_def split_beta)
next
  case (27 cond t e st)
  show ?case
    using extends_trans[OF extends_trans[OF 27(1) 27(2)[OF refl prod.collapse]]
        27(3)[OF refl prod.collapse refl prod.collapse]]
    by (simp add: Let_def split_beta)
next
  case (28 target arms st)
  have "extends st (snd (infer_stmt s st))" if "arm \<in> set arms" "s \<in> set (arm_body arm)"
    for arm s st
    using 28(2)[OF refl prod.collapse that prod.collapse, of "([], st)"] by simp
  from extends_arms[where f = infer_stmt and a = "([], snd (infer_expr target st))", OF this]
  show ?case
    using extends_trans[OF 28(1)] by (simp add: Let_def split_beta)
qed (auto simp: Let_def split_beta extends_ident split: option.split list.split)

lemma infer_program_extends: "extends st (infer_program p st)"
  unfolding infer_program_def
  using extends_foldl[where g = "\<lambda>x. x" and f = "\<lambda>st s. snd (infer_stmt s st)"]
    infer_extends(1) by fastforce

subsection \<open>Properties\<close>

text \<open>
  C9: Unification returns on every substitution whose chains of bindings all end, and hands back
  such a substitution: the old one, or the old one with one more binding of a variable that was
  free. So the calls of the inferencer, which start from the empty substitution, all return.
\<close>

theorem unify_returns:
  assumes "total_subst s"
  shows "\<exists>err s'. unify t1 t2 s = Some (err, s') \<and> total_subst s' \<and> s \<subseteq>\<^sub>m s' \<and>
      card (dom s' - dom s) \<le> 1"
proof -
  obtain err s' where res: "unify t1 t2 s = Some (err, s')" "total_subst s'"
    using unify_total[OF assms] by blast
  have bind: "s \<subseteq>\<^sub>m s(v \<mapsto> u) \<and> card (dom (s(v \<mapsto> u)) - dom s) \<le> 1"
    if "follows s t (Variable v)" for t v u
  proof -
    have "s v = None" using follows_resolved[OF that] by (simp add: resolved_def)
    moreover from this have "dom (s(v \<mapsto> u)) - dom s = {v}" by auto
    ultimately show ?thesis by (auto simp: map_le_def)
  qed
  from assms have "s \<subseteq>\<^sub>m s' \<and> card (dom s' - dom s) \<le> 1"
    by (cases rule: unify_cases[of s t1 t2]) (use res bind in auto)
  with res show ?thesis by blast
qed

theorem unify_returns_witness:
  "\<exists>err s'. unify (Variable 0) (Concrete int_type) [0 \<mapsto> Variable 1] = Some (err, s') \<and>
     total_subst s' \<and> [0 \<mapsto> Variable 1] \<subseteq>\<^sub>m s' \<and> card (dom s' - dom [0 \<mapsto> Variable (1::nat)]) \<le> 1"
proof (rule unify_returns)
  show "total_subst [0 \<mapsto> Variable 1]"
    by (rule total_bind[where s = Map.empty]) (simp_all add: resolved_def)
qed

text \<open>
  C7: Unification is sound: when it succeeds, applying the resulting substitution to the two types
  gives the same type, or two concrete types that agree (same base and generic arguments, and the
  same error type where both carry one).
\<close>

theorem unify_sound:
  assumes "total_subst s" and "unify t1 t2 s = Some (None, s')"
  shows "\<exists>r1 r2. apply_subst_local s' t1 = Some r1 \<and> apply_subst_local s' t2 = Some r2 \<and>
      (r1 = r2 \<or> (\<exists>a b. r1 = Concrete a \<and> r2 = Concrete b \<and> agree a b))"
  using assms(1)
proof (cases rule: unify_cases[of s t1 t2])
  case (left v u)
  have free: "s v = None" and "resolved s u"
    using left(1,2) follows_resolved by (fastforce simp: resolved_def)+
  note bind = follows_bind[OF _ this left(3)]
  show ?thesis
    using bind[OF left(1)] bind[OF left(2)] left(3,4) assms(2)
    by (auto simp: apply_iff_follows)
next
  case (right v a)
  have "s v = None" "resolved s (Concrete a)"
    using right(2) follows_resolved by (fastforce simp: resolved_def)+
  note bind = follows_bind[OF _ this]
  show ?thesis
    using bind[OF right(1)] bind[OF right(2)] right(3) assms(2)
    by (auto simp: apply_iff_follows)
next
  case (concrete a b err)
  with assms(2) show ?thesis by (auto simp: apply_iff_follows)
qed (use assms in simp)

theorem unify_sound_witness:
  "\<exists>r1 r2. apply_subst_local [0 \<mapsto> Concrete int_type] (Variable 0) = Some r1 \<and>
     apply_subst_local [0 \<mapsto> Concrete int_type] (Concrete int_type) = Some r2 \<and>
     (r1 = r2 \<or> (\<exists>a b. r1 = Concrete a \<and> r2 = Concrete b \<and> agree a b))"
proof (rule unify_sound[OF total_empty])
  show "unify (Variable 0) (Concrete int_type) Map.empty = Some (None, [0 \<mapsto> Concrete int_type])"
    by (subst unify.simps) (simp add: bind_var_Concrete)
qed

text \<open>
  The failures of unification are exactly: both types end in the same unbound variable (which
  is reported as an infinite type, although a variable is equal to itself), or both end in concrete
  types that do not agree.
\<close>

theorem unify_failures:
  assumes "total_subst s"
  shows "(\<exists>err s'. unify t1 t2 s = Some (Some err, s')) =
     ((\<exists>v. apply_subst_local s t1 = Some (Variable v) \<and>
           apply_subst_local s t2 = Some (Variable v)) \<or>
      (\<exists>a b. apply_subst_local s t1 = Some (Concrete a) \<and>
           apply_subst_local s t2 = Some (Concrete b) \<and> \<not> agree a b))"
  using assms
proof (cases rule: unify_cases[of s t1 t2])
  case (left v u)
  then show ?thesis by (auto dest!: follows_apply)
next
  case (concrete a b err)
  then show ?thesis by (cases err) (auto dest!: follows_apply)
qed (auto dest!: follows_apply)

theorem unify_failures_witness:
  "(\<exists>err s'. unify (Variable 3) (Variable 3) Map.empty = Some (Some err, s')) =
     ((\<exists>v. apply_subst_local Map.empty (Variable 3) = Some (Variable v) \<and>
           apply_subst_local Map.empty (Variable 3) = Some (Variable v)) \<or>
      (\<exists>a b. apply_subst_local Map.empty (Variable 3) = Some (Concrete a) \<and>
           apply_subst_local Map.empty (Variable 3) = Some (Concrete b) \<and> \<not> agree a b)) \<and>
   unify (Variable 3) (Variable 3) Map.empty =
     Some (Some (InfiniteType 3 (Variable 3)), Map.empty)"
  by (rule conjI, rule unify_failures[OF total_empty])
    (subst unify.simps, simp add: bind_var_Variable)

text \<open>
  Inferring a program only adds to the state: errors are appended, the variable counter does not
  decrease, the enclosing scopes stay as they are, and no declared, recorded or signed name is lost.
\<close>

lemma infer_program_only_adds:
  "(\<exists>es. errors (infer_program p st) = errors st @ es) \<and>
   counter st \<le> counter (infer_program p st) \<and>
   env_parent (env (infer_program p st)) = env_parent (env st) \<and>
   dom (env_types (env st)) \<subseteq> dom (env_types (env (infer_program p st))) \<and>
   dom (inferred_types st) \<subseteq> dom (inferred_types (infer_program p st)) \<and>
   dom (fn_signatures st) \<subseteq> dom (fn_signatures (infer_program p st))"
  using infer_program_extends[of st p] by (simp add: extends_def)

text \<open>
  Arithmetic over numeric literals: the type is float as soon as one literal is a float, and the
  state is left alone (the failing unification of int with float is not reported).
\<close>

fun arith :: "'f Expr \<Rightarrow> bool" where
  "arith (IntLiteral _) = True"
| "arith (FloatLiteral _) = True"
| "arith (UnaryOp op e) = (op = lit ''-'' \<and> arith e)"
| "arith (BinaryOp l op r) =
     (op \<in> {lit ''+'', lit ''-'', lit ''*'', lit ''/'', lit ''%''} \<and> arith l \<and> arith r)"
| "arith _ = False"

fun mentions_float :: "'f Expr \<Rightarrow> bool" where
  "mentions_float (FloatLiteral _) = True"
| "mentions_float (UnaryOp _ e) = mentions_float e"
| "mentions_float (BinaryOp l _ r) = (mentions_float l \<or> mentions_float r)"
| "mentions_float _ = False"

definition number_type :: "bool \<Rightarrow> TypeRef" where
  "number_type float = (if float then float_type else int_type)"

lemma run_unify_Concrete: "\<exists>err. run_unify (Concrete a) (Concrete b) s = (err, s)"
  using unify_Concrete[of a b s] by (auto simp: run_unify_def)

lemma binary_type_arith:
  assumes "op \<in> {lit ''+'', lit ''-'', lit ''*'', lit ''/'', lit ''%''}"
  shows "binary_type (Concrete (number_type x)) op (Concrete (number_type y)) =
      Concrete (number_type (x \<or> y))"
proof -
  obtain err where "run_unify (Concrete (number_type x)) (Concrete (number_type y)) Map.empty =
      (err, Map.empty)"
    using run_unify_Concrete by blast
  with assms show ?thesis
    by (auto simp: binary_type_def number_type_def is_numeric_def int_type_def float_type_def
        type_new_def has_base_def)
qed

lemma infer_arith:
  "arith e \<Longrightarrow> infer_expr e st = (Concrete (number_type (mentions_float e)), st)"
proof (induction e arbitrary: st rule: arith.induct)
  case (1 n st)
  show ?case by (simp add: number_type_def)
next
  case (2 x st)
  show ?case by (simp add: number_type_def)
next
  case (3 op e)
  then show ?case
    by (simp add: unary_type_def number_type_def is_numeric_def int_type_def float_type_def
        type_new_def)
next
  case (4 l op r)
  have op: "op \<in> {lit ''+'', lit ''-'', lit ''*'', lit ''/'', lit ''%''}" and "arith l" "arith r"
    using "4.prems" by (simp_all only: arith.simps)
  then show ?case
    using "4.IH" by (simp add: binary_type_arith[OF op] del: insert_iff)
qed simp_all

text \<open>
  Arithmetic on numeric literals has type float exactly when a float literal occurs in it, and
  int otherwise; mixing the two is accepted without an error.
\<close>

theorem infer_arithmetic:
  assumes "arith e"
  shows "infer_expr e st = (Concrete (if mentions_float e then float_type else int_type), st)"
  using infer_arith[OF assms] by (simp add: number_type_def)

theorem infer_arithmetic_witness:
  "infer_expr (BinaryOp (IntLiteral 1) (lit ''+'')
      (UnaryOp (lit ''-'') (FloatLiteral (2 :: nat)))) (tyinf_new 0) =
   (Concrete float_type, tyinf_new 0)"
proof -
  let ?e = "BinaryOp (IntLiteral 1) (lit ''+'') (UnaryOp (lit ''-'') (FloatLiteral (2 :: nat)))"
  have "arith ?e" by simp
  from infer_arithmetic[OF this] show ?thesis by simp
qed

text \<open>
  A string concatenation is inferred to be an int without an error, although the code has a
  branch for it: the branch is only reached when the unified type is numeric.
\<close>

theorem string_concatenation_is_int:
  "infer_expr (BinaryOp (StringLiteral a) (lit ''+'') (StringLiteral b)) st =
   (Concrete int_type, st)"
proof -
  obtain err where "run_unify (Concrete string_type) (Concrete string_type) Map.empty =
      (err, Map.empty)"
    using run_unify_Concrete by blast
  then show ?thesis
    by (simp add: binary_type_def is_numeric_def string_type_def type_new_def)
qed

text \<open>
  A call of a function whose parameter and return types are the same variable (an identity
  function) is not instantiated: the return variable is replaced by a fresh one of its own, which
  nothing relates to the argument, so the type of the call stays an unbound variable.
\<close>

theorem polymorphic_call_unresolved:
  assumes "fn_signatures st f = Some ([Variable a], Variable a)"
  shows "infer_expr (Call (Ident f) [IntLiteral n]) st =
     (Variable (Suc (counter st)), st\<lparr>counter := counter st + 2\<rparr>)"
proof -
  have "run_unify (Variable (counter st)) (Concrete int_type) Map.empty =
      (None, [counter st \<mapsto> Concrete int_type])"
    unfolding run_unify_def by (subst unify.simps) (simp add: bind_var_Concrete)
  moreover have "run_apply [counter st \<mapsto> Concrete int_type] (Variable (Suc (counter st))) =
      Variable (Suc (counter st))"
    by (simp add: run_apply_def apply_Variable_free)
  ultimately show ?thesis
    by (simp add: assms fresh_map_def fresh_var_def)
qed

theorem polymorphic_call_unresolved_witness:
  "infer_expr (Call (Ident (lit ''id'')) [IntLiteral 1 :: nat Expr])
      ((tyinf_new 7)\<lparr>fn_signatures := [lit ''id'' \<mapsto> ([Variable 5], Variable 5)]\<rparr>) =
   (Variable 8, (tyinf_new 7)\<lparr>fn_signatures := [lit ''id'' \<mapsto> ([Variable 5], Variable 5)],
      counter := 9\<rparr>)"
  using polymorphic_call_unresolved[of
      "(tyinf_new 7)\<lparr>fn_signatures := [lit ''id'' \<mapsto> ([Variable 5], Variable 5)]\<rparr>"
      "lit ''id''" 5 1]
  by (simp add: tyinf_new_def)

text \<open>
  Only the last statement of a function, loop or branch body is inferred: everything before it
  is ignored, so no declaration in it is seen and no error in it is reported.
\<close>

theorem body_prefix_ignored:
  "infer_stmt (SFn n ps r an (body @ [s]) a p) st = infer_stmt (SFn n ps r an [s] a p) st \<and>
   infer_stmt (SWhile c (body @ [s])) st = infer_stmt (SWhile c [s]) st \<and>
   infer_stmt (SFor x c (body @ [s])) st = infer_stmt (SFor x c [s]) st \<and>
   infer_stmt (SIf c (body @ [s]) (body' @ [s'])) st = infer_stmt (SIf c [s] [s']) st"
  by simp

end
