(* ===== verification/Seven.thy ===== *)
theory Seven
  imports Ty
begin

section \<open>The seven-channel inferencer (compiler/src/ty2.rs)\<close>

text \<open>
  The value channel of ty.rs and the six channels of \<open>Infer\<close>, run over every function
  of a program: the annotations are parsed into declared levels, one result per function is
  recorded, and the body is walked, checking each visited expression in each channel. The mutable
  fields of the inferencers are the record \<open>seven\<close>; the only panic, the overflow of the
  conversion of seconds to milliseconds in a build with overflow checks, is \<open>None\<close>.
\<close>

record SevenChannelType =
  ct_value :: "TypeRef option"
  ct_effect :: "Effect option"
  ct_capability :: "Capability option"
  ct_confidence :: "Confidence option"
  ct_cognitive_loop :: "CognitiveLoop option"
  ct_governance :: "GovernanceLevel option"
  ct_time_constraint :: "TimeConstraint option"

record seven =
  value_inf :: tyinf
  effect_errors :: "effect_error list"
  fn_annotations :: "ustr \<rightharpoonup> Capability"
  capability_errors :: "ustr list"
  confidence_errors :: "confidence_error list"
  cognitive_errors :: "cognitive_error list"
  governance_errors :: "governance_error list"
  time_errors :: "time_error list"
  results :: "(ustr \<times> SevenChannelType) list"

definition seven_new :: "nat \<Rightarrow> seven" where
  "seven_new n = \<lparr>value_inf = tyinf_new n, effect_errors = [], fn_annotations = Map.empty,
     capability_errors = [], confidence_errors = [], cognitive_errors = [],
     governance_errors = [], time_errors = [], results = []\<rparr>"

text \<open>The levels a function declares, which the walk over its body passes along unchanged.\<close>

record declared =
  d_effect :: Effect
  d_capability :: Capability
  d_cognitive_loop :: "CognitiveLoop option"
  d_governance :: "GovernanceLevel option"
  d_time :: TimeConstraint

subsection \<open>Walking a body\<close>

text \<open>The checks of one expression, before the walk descends into it.\<close>

definition check_expr :: "ustr \<Rightarrow> declared \<Rightarrow> seven \<Rightarrow> 'f Expr \<Rightarrow> seven" where
  "check_expr location d st e =
     (let st1 = st\<lparr>effect_errors :=
            effect_check (d_effect d) (effect_infer e) location (effect_errors st)\<rparr>;
          st2 = (case d_cognitive_loop d of
              Some cl \<Rightarrow> st1\<lparr>cognitive_errors :=
                cognitive_check cl (cognitive_infer e) location (cognitive_errors st1)\<rparr>
            | None \<Rightarrow> st1);
          st3 = (case d_governance d of
              Some gov \<Rightarrow> st2\<lparr>governance_errors :=
                governance_check gov (governance_infer e) location (governance_errors st2)\<rparr>
            | None \<Rightarrow> st2)
      in if has_time_bound (d_time d) \<and> \<not> time_satisfies (time_infer e) (d_time d)
         then st3\<lparr>time_errors :=
           time_check (time_infer e) (d_time d) location (time_errors st3)\<rparr>
         else st3)"

fun walk_expr_check :: "ustr \<Rightarrow> declared \<Rightarrow> seven \<Rightarrow> 'f Expr \<Rightarrow> seven" where
  "walk_expr_check fn d st (BinaryOp l op r) =
     walk_expr_check fn d (walk_expr_check fn d (check_expr fn d st (BinaryOp l op r)) l) r"
| "walk_expr_check fn d st (UnaryOp op e) =
     walk_expr_check fn d (check_expr fn d st (UnaryOp op e)) e"
| "walk_expr_check fn d st (Call f args) =
     foldl (\<lambda>st a. walk_expr_check fn d st a) (check_expr fn d st (Call f args)) args"
| "walk_expr_check fn d st (IfExpr c t e) =
     walk_expr_check fn d
       (walk_expr_check fn d (walk_expr_check fn d (check_expr fn d st (IfExpr c t e)) c) t) e"
| "walk_expr_check fn d st e = check_expr fn d st e"

fun walk_stmt_for_check :: "ustr \<Rightarrow> declared \<Rightarrow> seven \<Rightarrow> 'f Stmt \<Rightarrow> seven" where
  "walk_stmt_for_check fn d st (SExpr e) = walk_expr_check fn d st e"
| "walk_stmt_for_check fn d st (SReturn v) =
     (case v of Some e \<Rightarrow> walk_expr_check fn d st e | None \<Rightarrow> st)"
| "walk_stmt_for_check fn d st (SLet _ v _ _) =
     (case v of Some e \<Rightarrow> walk_expr_check fn d st e | None \<Rightarrow> st)"
| "walk_stmt_for_check fn d st (SConst _ v _) =
     (case v of Some e \<Rightarrow> walk_expr_check fn d st e | None \<Rightarrow> st)"
| "walk_stmt_for_check fn d st (SIf c then_body else_body) =
     foldl (\<lambda>st s. walk_stmt_for_check fn d st s)
       (foldl (\<lambda>st s. walk_stmt_for_check fn d st s) (walk_expr_check fn d st c) then_body)
       else_body"
| "walk_stmt_for_check fn d st (SWhile c body) =
     foldl (\<lambda>st s. walk_stmt_for_check fn d st s) (walk_expr_check fn d st c) body"
| "walk_stmt_for_check fn d st (SFor _ iterable body) =
     foldl (\<lambda>st s. walk_stmt_for_check fn d st s) (walk_expr_check fn d st iterable) body"
| "walk_stmt_for_check fn d st (SAssert c _) = walk_expr_check fn d st c"
| "walk_stmt_for_check fn d st (SMatch target arms) =
     foldl (\<lambda>st arm. foldl (\<lambda>st s. walk_stmt_for_check fn d st s) st (arm_body arm))
       (walk_expr_check fn d st target) arms"
| "walk_stmt_for_check fn d st (STryCatch try_body _ catch_body) =
     foldl (\<lambda>st s. walk_stmt_for_check fn d st s)
       (foldl (\<lambda>st s. walk_stmt_for_check fn d st s) st try_body) catch_body"
| "walk_stmt_for_check fn d st _ = st"

definition walk_body_and_check :: "ustr \<Rightarrow> declared \<Rightarrow> seven \<Rightarrow> 'f Stmt list \<Rightarrow> seven" where
  "walk_body_and_check fn d st body = foldl (walk_stmt_for_check fn d) st body"

subsection \<open>Functions and programs\<close>

definition opt_map :: "('a \<Rightarrow> 'b) \<Rightarrow> 'a option \<Rightarrow> 'b option" where
  "opt_map f r = (case r of None \<Rightarrow> None | Some x \<Rightarrow> Some (f x))"

lemma opt_map_simps [simp]: "opt_map f None = None" "opt_map f (Some x) = Some (f x)"
  by (simp_all add: opt_map_def)

text \<open>The time annotations of a function; \<open>None\<close> is the overflow panic.\<close>

definition fn_timeout :: "bool \<Rightarrow> ustr option \<Rightarrow> nat option option" where
  "fn_timeout chk timeout =
     (case timeout of
        None \<Rightarrow> Some None
      | Some to \<Rightarrow>
          if ends_with to (lit ''ms'') then Some (parse_u64 (trim_end_matches (lit ''ms'') to))
          else seconds_to_ms chk (parse_u64 (trim_end_matches (lit ''s'') to)))"

definition fn_time :: "bool \<Rightarrow> FnAnnot \<Rightarrow> TimeConstraint option" where
  "fn_time chk an =
     opt_map (\<lambda>t. \<lparr>latency_ms = (case an_latency an of
           Some l \<Rightarrow> parse_u64 (trim_end_matches (lit ''ms'') l) | None \<Rightarrow> None),
         timeout_ms = t,
         throughput = (case an_throughput an of
           Some tp \<Rightarrow> parse_u64 (trim_end_matches (lit ''/s'') tp) | None \<Rightarrow> None)\<rparr>)
       (fn_timeout chk (an_timeout an))"

definition fn_declared :: "FnAnnot \<Rightarrow> bool \<Rightarrow> TimeConstraint \<Rightarrow> declared" where
  "fn_declared an async tc =
     \<lparr>d_effect = (case an_effect an of Some s \<Rightarrow> parse_effect s
        | None \<Rightarrow> if async then Async else Pure),
      d_capability = (case an_capability an of Some s \<Rightarrow> parse_capability s | None \<Rightarrow> Cpu),
      d_cognitive_loop = opt_map parse_cognitive_loop (an_cognitive_loop an),
      d_governance = opt_map parse_governance (an_governance an),
      d_time = tc\<rparr>"

definition fn_result :: "(ustr \<rightharpoonup> TypeRef) \<Rightarrow> ustr \<Rightarrow> FnAnnot \<Rightarrow> declared \<Rightarrow> SevenChannelType" where
  "fn_result value_types name an d =
     \<lparr>ct_value = (case value_types name of Some vt \<Rightarrow> Some vt | None \<Rightarrow> Some (type_new BFunc)),
      ct_effect = Some (d_effect d),
      ct_capability = Some (d_capability d),
      ct_confidence = opt_map parse_confidence (an_confidence an),
      ct_cognitive_loop = d_cognitive_loop d,
      ct_governance = d_governance d,
      ct_time_constraint = (if has_time_bound (d_time d) then Some (d_time d) else None)\<rparr>"

definition seven_stmt :: "bool \<Rightarrow> (ustr \<rightharpoonup> TypeRef) \<Rightarrow> seven \<Rightarrow> 'f Stmt \<Rightarrow> seven option" where
  "seven_stmt chk value_types st s =
     (case s of
        SFn name _ _ an body async _ \<Rightarrow>
          (case fn_time chk an of
             None \<Rightarrow> None
           | Some tc \<Rightarrow>
               (let d = fn_declared an async tc;
                    st1 = st\<lparr>fn_annotations := (fn_annotations st)(name \<mapsto> d_capability d)\<rparr>;
                    st2 = st1\<lparr>results := results st1 @ [(name, fn_result value_types name an d)]\<rparr>
                in Some (walk_body_and_check name d st2 body)))
      | _ \<Rightarrow> Some st)"

fun seven_stmts :: "bool \<Rightarrow> (ustr \<rightharpoonup> TypeRef) \<Rightarrow> seven \<Rightarrow> 'f Stmt list \<Rightarrow> seven option" where
  "seven_stmts chk value_types st [] = Some st"
| "seven_stmts chk value_types st (s # ss) =
     (case seven_stmt chk value_types st s of
        None \<Rightarrow> None
      | Some st' \<Rightarrow> seven_stmts chk value_types st' ss)"

definition seven_infer_program :: "bool \<Rightarrow> 'f Program \<Rightarrow> seven \<Rightarrow> seven option" where
  "seven_infer_program chk prog st =
     (let v = infer_program prog (value_inf st)
      in seven_stmts chk (inferred_types v) (st\<lparr>value_inf := v\<rparr>) (statements prog))"

text \<open>The condition under which the report says that there are no errors.\<close>

definition report_clean :: "seven \<Rightarrow> bool" where
  "report_clean st =
     (errors (value_inf st) = [] \<and> effect_errors st = [] \<and> capability_errors st = [] \<and>
      confidence_errors st = [] \<and> cognitive_errors st = [] \<and> governance_errors st = [] \<and>
      time_errors st = [])"

end
