(* ===== verification/SevenCorrect.thy ===== *)
theory SevenCorrect
  imports Seven
begin

section \<open>What the seven-channel check guarantees\<close>

text \<open>
  The walk over a body is the fold of the checks of one expression over the expressions it visits;
  so the error list of each of the four channels it checks grows by the failing checks in the order of
  the visit. On bodies without the constructs it does not look into, it visits every sub-expression.
  From it follows what the effect check says of a body: whether it calls a print function by name.
\<close>

subsection \<open>The visited expressions\<close>

fun visited :: "'f Expr \<Rightarrow> 'f Expr list" where
  "visited (BinaryOp l op r) = BinaryOp l op r # visited l @ visited r"
| "visited (UnaryOp op e) = UnaryOp op e # visited e"
| "visited (Call f args) = Call f args # concat (map visited args)"
| "visited (IfExpr c t e) = IfExpr c t e # visited c @ visited t @ visited e"
| "visited e = [e]"

definition visited_opt :: "'f Expr option \<Rightarrow> 'f Expr list" where
  "visited_opt v = (case v of None \<Rightarrow> [] | Some e \<Rightarrow> visited e)"

fun visited_stmt :: "'f Stmt \<Rightarrow> 'f Expr list" where
  "visited_stmt (SExpr e) = visited e"
| "visited_stmt (SReturn v) = visited_opt v"
| "visited_stmt (SLet _ v _ _) = visited_opt v"
| "visited_stmt (SConst _ v _) = visited_opt v"
| "visited_stmt (SIf c t e) =
     visited c @ concat (map visited_stmt t) @ concat (map visited_stmt e)"
| "visited_stmt (SWhile c body) = visited c @ concat (map visited_stmt body)"
| "visited_stmt (SFor _ i body) = visited i @ concat (map visited_stmt body)"
| "visited_stmt (SAssert c _) = visited c"
| "visited_stmt (SMatch t arms) =
     visited t @ concat (map (\<lambda>arm. concat (map visited_stmt (arm_body arm))) arms)"
| "visited_stmt (STryCatch t _ c) = concat (map visited_stmt t) @ concat (map visited_stmt c)"
| "visited_stmt _ = []"

text \<open>
  All sub-expressions of an expression and of a statement, whether the walk visits them or not. The
  name of the function in a direct call is not one.
\<close>

lemma size_arm_guard [termination_simp]:
  assumes "arm \<in> set arms" and "arm_guard arm = Some g"
  shows "size g < size_list size arms"
proof -
  have "size g < size arm" using assms(2) by (cases arm) auto
  then show ?thesis using size_in_list[OF assms(1)] by simp
qed

fun sub_exprs :: "'f Expr \<Rightarrow> 'f Expr list" and stmt_exprs :: "'f Stmt \<Rightarrow> 'f Expr list" where
  "sub_exprs (BinaryOp l op r) = BinaryOp l op r # sub_exprs l @ sub_exprs r"
| "sub_exprs (UnaryOp op e) = UnaryOp op e # sub_exprs e"
| "sub_exprs (Call f args) =
     Call f args # (case f of Ident _ \<Rightarrow> [] | _ \<Rightarrow> sub_exprs f) @ concat (map sub_exprs args)"
| "sub_exprs (MemberAccess e m) = MemberAccess e m # sub_exprs e"
| "sub_exprs (Index e i) = Index e i # sub_exprs e @ sub_exprs i"
| "sub_exprs (Pipe e ops) = Pipe e ops # sub_exprs e @ concat (map (\<lambda>(n, a). sub_exprs a) ops)"
| "sub_exprs (Range a b incl) = Range a b incl # sub_exprs a @ sub_exprs b"
| "sub_exprs (Array es) = Array es # concat (map sub_exprs es)"
| "sub_exprs (OptionValue b v) = OptionValue b v # (case v of Some e \<Rightarrow> sub_exprs e | None \<Rightarrow> [])"
| "sub_exprs (ResultValue b v w) = ResultValue b v w #
     (case v of Some e \<Rightarrow> sub_exprs e | None \<Rightarrow> []) @ (case w of Some e \<Rightarrow> sub_exprs e | None \<Rightarrow> [])"
| "sub_exprs (IfExpr c t e) = IfExpr c t e # sub_exprs c @ sub_exprs t @ sub_exprs e"
| "sub_exprs (MatchExpr t arms) = MatchExpr t arms # sub_exprs t @
     concat (map (\<lambda>arm. (case arm_guard arm of Some g \<Rightarrow> sub_exprs g | None \<Rightarrow> []) @
       concat (map stmt_exprs (arm_body arm))) arms)"
| "sub_exprs e = [e]"
| "stmt_exprs (SExpr e) = sub_exprs e"
| "stmt_exprs (SReturn v) = (case v of Some e \<Rightarrow> sub_exprs e | None \<Rightarrow> [])"
| "stmt_exprs (SLet _ v _ _) = (case v of Some e \<Rightarrow> sub_exprs e | None \<Rightarrow> [])"
| "stmt_exprs (SConst _ v _) = (case v of Some e \<Rightarrow> sub_exprs e | None \<Rightarrow> [])"
| "stmt_exprs (SIf c t e) = sub_exprs c @ concat (map stmt_exprs t) @ concat (map stmt_exprs e)"
| "stmt_exprs (SWhile c b) = sub_exprs c @ concat (map stmt_exprs b)"
| "stmt_exprs (SFor _ i b) = sub_exprs i @ concat (map stmt_exprs b)"
| "stmt_exprs (SAssert c m) = sub_exprs c @ (case m of Some e \<Rightarrow> sub_exprs e | None \<Rightarrow> [])"
| "stmt_exprs (SMatch t arms) = sub_exprs t @
     concat (map (\<lambda>arm. (case arm_guard arm of Some g \<Rightarrow> sub_exprs g | None \<Rightarrow> []) @
       concat (map stmt_exprs (arm_body arm))) arms)"
| "stmt_exprs (STryCatch t _ c) = concat (map stmt_exprs t) @ concat (map stmt_exprs c)"
| "stmt_exprs (SSpawn s) = stmt_exprs s"
| "stmt_exprs (SFn _ _ _ _ b _ _) = concat (map stmt_exprs b)"
| "stmt_exprs _ = []"

text \<open>The fragment all of whose sub-expressions the walk reaches.\<close>

fun plain :: "'f Expr \<Rightarrow> bool" where
  "plain (BinaryOp l _ r) = (plain l \<and> plain r)"
| "plain (UnaryOp _ e) = plain e"
| "plain (Call f args) = ((case f of Ident _ \<Rightarrow> True | _ \<Rightarrow> False) \<and> list_all plain args)"
| "plain (IfExpr c t e) = (plain c \<and> plain t \<and> plain e)"
| "plain (MemberAccess _ _) = False"
| "plain (Index _ _) = False"
| "plain (Pipe _ _) = False"
| "plain (Range _ _ _) = False"
| "plain (Array _) = False"
| "plain (OptionValue _ _) = False"
| "plain (ResultValue _ _ _) = False"
| "plain (MatchExpr _ _) = False"
| "plain _ = True"

definition plain_opt :: "'f Expr option \<Rightarrow> bool" where
  "plain_opt v = (case v of None \<Rightarrow> True | Some e \<Rightarrow> plain e)"

fun plain_stmt :: "'f Stmt \<Rightarrow> bool" where
  "plain_stmt (SExpr e) = plain e"
| "plain_stmt (SReturn v) = plain_opt v"
| "plain_stmt (SLet _ v _ _) = plain_opt v"
| "plain_stmt (SConst _ v _) = plain_opt v"
| "plain_stmt (SIf c t e) = (plain c \<and> list_all plain_stmt t \<and> list_all plain_stmt e)"
| "plain_stmt (SWhile c b) = (plain c \<and> list_all plain_stmt b)"
| "plain_stmt (SFor _ i b) = (plain i \<and> list_all plain_stmt b)"
| "plain_stmt (SAssert c m) = (plain c \<and> m = None)"
| "plain_stmt (SMatch t arms) =
     (plain t \<and> list_all (\<lambda>arm. arm_guard arm = None \<and> list_all plain_stmt (arm_body arm)) arms)"
| "plain_stmt (STryCatch t _ c) = (list_all plain_stmt t \<and> list_all plain_stmt c)"
| "plain_stmt _ = False"

lemma map_concat_cong: "(\<And>x. x \<in> set xs \<Longrightarrow> f x = g x) \<Longrightarrow> concat (map f xs) = concat (map g xs)"
  by (metis map_cong)

lemma visited_plain: "plain e \<Longrightarrow> visited e = sub_exprs e"
proof (induction e rule: visited.induct)
  case (3 f args)
  then have "concat (map visited args) = concat (map sub_exprs args)"
    by (intro map_concat_cong) (auto simp: list_all_iff)
  then show ?case using 3(2) by (cases f) auto
qed simp_all

lemma visited_stmt_plain: "plain_stmt s \<Longrightarrow> visited_stmt s = stmt_exprs s"
proof (induction s rule: visited_stmt.induct)
  case (9 t arms)
  have "concat (map visited_stmt (arm_body arm)) = (case arm_guard arm of Some g \<Rightarrow> sub_exprs g | None \<Rightarrow> []) @
      concat (map stmt_exprs (arm_body arm))" if "arm \<in> set arms" for arm
    using 9 that by (auto simp: list_all_iff intro!: map_concat_cong)
  then have "concat (map (\<lambda>arm. concat (map visited_stmt (arm_body arm))) arms) =
      concat (map (\<lambda>arm. (case arm_guard arm of Some g \<Rightarrow> sub_exprs g | None \<Rightarrow> []) @
        concat (map stmt_exprs (arm_body arm))) arms)"
    by (rule map_concat_cong)
  then show ?case using 9(2) by (simp add: visited_plain)
qed (auto simp: visited_plain visited_opt_def plain_opt_def list_all_iff intro!: map_concat_cong arg_cong2[where f = append]
      split: option.splits)

lemma visited_sub_exprs: "set (visited e) \<subseteq> set (sub_exprs e)"
  by (induction e rule: visited.induct) auto

lemma visited_stmt_exprs: "x \<in> set (visited_stmt s) \<Longrightarrow> x \<in> set (stmt_exprs s)"
  by (induction s rule: visited_stmt.induct)
    (use visited_sub_exprs in \<open>fastforce simp: visited_opt_def split: option.splits\<close>)+

lemma foldl_concat_map:
  assumes "\<And>x st. x \<in> set xs \<Longrightarrow> w st x = foldl f st (g x)"
  shows "foldl w st xs = foldl f st (concat (map g xs))"
  using assms by (induction xs arbitrary: st) simp_all

lemma walk_expr_visited: "walk_expr_check fn d st e = foldl (check_expr fn d) st (visited e)"
proof (induction fn d st e rule: walk_expr_check.induct)
  case (3 fn d st f args)
  have "walk_expr_check fn d st' a = foldl (check_expr fn d) st' (visited a)"
    if "a \<in> set args" for a st'
    using 3[OF that] by simp
  from foldl_concat_map[where w = "\<lambda>st a. walk_expr_check fn d st a", OF this]
  show ?case by simp
qed simp_all

lemma walk_stmt_visited:
  "walk_stmt_for_check fn d st s = foldl (check_expr fn d) st (visited_stmt s)"
proof (induction fn d st s rule: walk_stmt_for_check.induct)
  case (5 fn d st c t e)
  have "walk_stmt_for_check fn d u s = foldl (check_expr fn d) u (visited_stmt s)"
    if "s \<in> set t \<union> set e" for s u
    using that 5(1,2) by blast
  then show ?case
    by (simp add: walk_expr_visited
        foldl_concat_map[where w = "\<lambda>st s. walk_stmt_for_check fn d st s" and g = visited_stmt])
next
  case (9 fn d st target arms)
  have "walk_stmt_for_check fn d u s = foldl (check_expr fn d) u (visited_stmt s)"
    if "arm \<in> set arms" "s \<in> set (arm_body arm)" for arm s u
    using that 9 by blast
  then have "foldl (\<lambda>st s. walk_stmt_for_check fn d st s) u (arm_body arm) =
      foldl (check_expr fn d) u (concat (map visited_stmt (arm_body arm)))"
    if "arm \<in> set arms" for arm u
    using that by (intro foldl_concat_map) blast
  then show ?case
    by (simp add: walk_expr_visited foldl_concat_map[where xs = arms and
        w = "\<lambda>st arm. foldl (\<lambda>st s. walk_stmt_for_check fn d st s) st (arm_body arm)" and
        g = "\<lambda>arm. concat (map visited_stmt (arm_body arm))"])
next
  case (10 fn d st t v c)
  have "walk_stmt_for_check fn d u s = foldl (check_expr fn d) u (visited_stmt s)"
    if "s \<in> set t \<union> set c" for s u
    using that 10(1,2) by blast
  then show ?case
    by (simp add:
        foldl_concat_map[where w = "\<lambda>st s. walk_stmt_for_check fn d st s" and g = visited_stmt])
qed (simp_all add: walk_expr_visited visited_opt_def
      foldl_concat_map[where w = "\<lambda>st s. walk_stmt_for_check fn d st s" for fn d, where
        g = visited_stmt]
      split: option.split)

lemma walk_body_visited:
  "walk_body_and_check fn d st body =
   foldl (check_expr fn d) st (concat (map visited_stmt body))"
  unfolding walk_body_and_check_def by (rule foldl_concat_map) (rule walk_stmt_visited)

text \<open>The errors one expression adds in each channel.\<close>

definition effect_fails :: "declared \<Rightarrow> 'f Expr \<Rightarrow> bool" where
  "effect_fails d e = (\<not> effect_leq (effect_infer e) (d_effect d))"

definition cognitive_fails :: "declared \<Rightarrow> 'f Expr \<Rightarrow> bool" where
  "cognitive_fails d e =
     (case d_cognitive_loop d of None \<Rightarrow> False
      | Some cl \<Rightarrow> \<not> cognitive_leq (cognitive_infer e) cl)"

definition governance_fails :: "declared \<Rightarrow> 'f Expr \<Rightarrow> bool" where
  "governance_fails d e =
     (case d_governance d of None \<Rightarrow> False
      | Some g \<Rightarrow> \<not> governance_leq (governance_infer e) g)"

definition time_fails :: "declared \<Rightarrow> 'f Expr \<Rightarrow> bool" where
  "time_fails d e = (\<not> time_satisfies (time_infer e) (d_time d))"

lemma no_time_bound: "\<not> has_time_bound t \<Longrightarrow> time_satisfies x t"
  by (simp add: has_time_bound_def time_satisfies_def above_def below_def split: option.split)

lemma check_expr_fields:
  "effect_errors (check_expr fn d st e) = effect_errors st @
     (if effect_fails d e then [(fn, effect_infer e, d_effect d)] else [])"
  "cognitive_errors (check_expr fn d st e) = cognitive_errors st @
     (if cognitive_fails d e then [(fn, cognitive_infer e, the (d_cognitive_loop d))] else [])"
  "governance_errors (check_expr fn d st e) = governance_errors st @
     (if governance_fails d e then [(fn, governance_infer e, the (d_governance d))] else [])"
  "time_errors (check_expr fn d st e) = time_errors st @
     (if time_fails d e then [(fn, d_time d, time_infer e)] else [])"
  "value_inf (check_expr fn d st e) = value_inf st"
  "fn_annotations (check_expr fn d st e) = fn_annotations st"
  "capability_errors (check_expr fn d st e) = capability_errors st"
  "confidence_errors (check_expr fn d st e) = confidence_errors st"
  "results (check_expr fn d st e) = results st"
  by (auto simp: check_expr_def Let_def effect_check_def cognitive_check_def governance_check_def
      time_check_def effect_fails_def cognitive_fails_def governance_fails_def time_fails_def
      no_time_bound split: option.split)

lemma check_fold:
  "effect_errors (foldl (check_expr fn d) st es) = effect_errors st @
     map (\<lambda>e. (fn, effect_infer e, d_effect d)) (filter (effect_fails d) es)"
  "cognitive_errors (foldl (check_expr fn d) st es) = cognitive_errors st @
     map (\<lambda>e. (fn, cognitive_infer e, the (d_cognitive_loop d))) (filter (cognitive_fails d) es)"
  "governance_errors (foldl (check_expr fn d) st es) = governance_errors st @
     map (\<lambda>e. (fn, governance_infer e, the (d_governance d))) (filter (governance_fails d) es)"
  "time_errors (foldl (check_expr fn d) st es) = time_errors st @
     map (\<lambda>e. (fn, d_time d, time_infer e)) (filter (time_fails d) es)"
  "value_inf (foldl (check_expr fn d) st es) = value_inf st"
  "fn_annotations (foldl (check_expr fn d) st es) = fn_annotations st"
  "capability_errors (foldl (check_expr fn d) st es) = capability_errors st"
  "confidence_errors (foldl (check_expr fn d) st es) = confidence_errors st"
  "results (foldl (check_expr fn d) st es) = results st"
  by (induction es arbitrary: st) (simp_all add: check_expr_fields)

text \<open>
  C14: Walking a body checks some of its sub-expressions in four of the seven channels. There is a list of
  sub-expressions of the body, all of them in order for a body without the constructs that the walk does
  not look into (arrays, indexes, ranges, members, pipes, option and result values, match expressions,
  callees that are no names, guards of arms, messages of assertions, spawned and nested functions), such that the errors
  added in the effect, cognitive, governance and time channels are exactly those of the members of the
  list that do not fit the declared level, in its order. The walk is given the declared capability and
  does not use it: capability and confidence errors never change, nor does the value channel.
\<close>

theorem walk_reports_exactly:
  "\<exists>vs. set vs \<subseteq> set (concat (map stmt_exprs body)) \<and>
   (list_all plain_stmt body \<longrightarrow> vs = concat (map stmt_exprs body)) \<and>
   (let st' = walk_body_and_check fn d st body in
   effect_errors st' = effect_errors st @
     map (\<lambda>e. (fn, effect_infer e, d_effect d)) (filter (effect_fails d) vs) \<and>
   cognitive_errors st' = cognitive_errors st @
     map (\<lambda>e. (fn, cognitive_infer e, the (d_cognitive_loop d))) (filter (cognitive_fails d) vs) \<and>
   governance_errors st' = governance_errors st @
     map (\<lambda>e. (fn, governance_infer e, the (d_governance d))) (filter (governance_fails d) vs) \<and>
   time_errors st' = time_errors st @
     map (\<lambda>e. (fn, d_time d, time_infer e)) (filter (time_fails d) vs) \<and>
   value_inf st' = value_inf st \<and> fn_annotations st' = fn_annotations st \<and>
   capability_errors st' = capability_errors st \<and> confidence_errors st' = confidence_errors st \<and>
   results st' = results st)"
proof (intro exI[of _ "concat (map visited_stmt body)"] conjI)
  show "set (concat (map visited_stmt body)) \<subseteq> set (concat (map stmt_exprs body))"
    using visited_stmt_exprs by fastforce
  show "list_all plain_stmt body \<longrightarrow> concat (map visited_stmt body) = concat (map stmt_exprs body)"
    by (auto simp: list_all_iff visited_stmt_plain intro!: map_concat_cong)
qed (unfold Let_def walk_body_visited, intro conjI check_fold)

theorem walk_reports_exactly_witness:
  "effect_errors (walk_body_and_check (lit ''f'') (fn_declared no_annot False time_new) (seven_new 0)
      [SExpr (BinaryOp (Call (Ident (lit ''print'')) []) (lit ''+'') (IntLiteral 1 :: nat Expr))]) =
    [(lit ''f'', Io, Pure)]"
proof -
  let ?body = "[SExpr (BinaryOp (Call (Ident (lit ''print'')) []) (lit ''+'') (IntLiteral 1 :: nat Expr))]"
  let ?d = "fn_declared no_annot False time_new"
  obtain vs where "list_all plain_stmt ?body \<longrightarrow> vs = concat (map stmt_exprs ?body)"
    "effect_errors (walk_body_and_check (lit ''f'') ?d (seven_new 0) ?body) = effect_errors (seven_new 0) @
     map (\<lambda>e. (lit ''f'', effect_infer e, d_effect ?d)) (filter (effect_fails ?d) vs)"
    using walk_reports_exactly[of ?body "lit ''f''" ?d "seven_new 0"] unfolding Let_def by blast
  then show ?thesis by (simp add: effect_fails_def fn_declared_def no_annot_def seven_new_def)
qed

subsection \<open>The effect check\<close>

definition print_calls :: "ustr list" where
  "print_calls = [lit ''println'', lit ''print'']"

text \<open>Whether a print function is called by its name anywhere in a statement.\<close>

definition prints_itself :: "'f Expr \<Rightarrow> bool" where
  "prints_itself e = (case e of Call (Ident n) _ \<Rightarrow> n \<in> set print_calls
     | Pipe _ ops \<Rightarrow> fst ` set ops \<inter> set print_calls \<noteq> {} | _ \<Rightarrow> False)"

lemma prints_itself_simps:
  "prints_itself (Call (Ident n) args) = (n \<in> set print_calls)" "\<not> prints_itself (BinaryOp l op r)"
  "\<not> prints_itself (UnaryOp op e)" "\<not> prints_itself (IfExpr c t e)"
  by (simp_all add: prints_itself_def)

definition prints_stmt :: "'f Stmt \<Rightarrow> bool" where
  "prints_stmt s = list_ex prints_itself (stmt_exprs s)"

lemma join_pure_io:
  assumes "a \<in> {Pure, Io}" and "b \<in> {Pure, Io}"
  shows "unwrap_or (effect_join a b) d = (if a = Io \<or> b = Io then Io else Pure)"
  using assms by auto

lemma effect_args:
  assumes "\<forall>x\<in>set args. effect_infer x \<in> {Pure, Io}" and "acc \<in> {Pure, Io}"
  shows "foldl (\<lambda>acc a. unwrap_or (effect_join acc (effect_infer a)) Async) acc args =
      (if acc = Io \<or> list_ex (\<lambda>a. effect_infer a = Io) args then Io else Pure)"
  using assms by (induction args arbitrary: acc) (auto simp: join_pure_io)

lemma effect_infer_two: "effect_infer e \<in> {Pure, Io}"
proof (induction e rule: effect_infer.induct)
  case (1 f args)
  then show ?case by (auto simp: Let_def effect_args split: Expr.split)
next
  case (3 t arms)
  have st: "(case s of SExpr e \<Rightarrow> unwrap_or (effect_join acc (effect_infer e)) Async
      | _ \<Rightarrow> acc) \<in> {Pure, Io}"
    if "acc \<in> {Pure, Io}" "arm \<in> set arms" "s \<in> set (arm_body arm)" for acc arm s
    using 3[OF that(2,3)] that(1) by (auto split: Statement.split)
  have "foldl (\<lambda>acc s. case s of SExpr e \<Rightarrow> unwrap_or (effect_join acc (effect_infer e)) Async
      | _ \<Rightarrow> acc) acc ss \<in> {Pure, Io}"
    if "acc \<in> {Pure, Io}" "arm \<in> set arms" "set ss \<subseteq> set (arm_body arm)" for acc arm ss
    using that
  proof (induction ss arbitrary: acc)
    case (Cons s ss)
    then show ?case using st[of acc arm s] by simp
  qed simp
  then have "foldl (\<lambda>acc arm. foldl (\<lambda>acc s.
      case s of SExpr e \<Rightarrow> unwrap_or (effect_join acc (effect_infer e)) Async
      | _ \<Rightarrow> acc) acc (arm_body arm)) acc as \<in> {Pure, Io}"
    if "acc \<in> {Pure, Io}" "set as \<subseteq> set arms" for acc as
    using that by (induction as arbitrary: acc) auto
  then show ?case by simp
qed auto

lemma effect_infer_Call:
  "(effect_infer (Call (Ident n) args) = Io) =
   (n \<in> set print_calls \<or> list_ex (\<lambda>a. effect_infer a = Io) args)"
proof -
  have "\<forall>x\<in>set args. effect_infer x \<in> {Pure, Io}" using effect_infer_two by blast
  note fold = effect_args[OF this, of Pure, simplified]
  show ?thesis by (simp add: print_calls_def Let_def fold)
qed

lemma visited_self: "e \<in> set (visited e)"
  by (cases e) simp_all

lemma prints_visited:
  "plain e \<Longrightarrow> (\<exists>v\<in>set (visited e). prints_itself v) \<longleftrightarrow> (\<exists>v\<in>set (visited e). effect_infer v = Io)"
proof (induction e rule: visited.induct)
  case (3 f args)
  then obtain n where f: "f = Ident n" by (cases f) auto
  have "(\<exists>v\<in>set (concat (map visited args)). prints_itself v) \<longleftrightarrow> (\<exists>v\<in>set (concat (map visited args)). effect_infer v = Io)"
    using 3 by (auto simp: list_all_iff)
  moreover have "list_ex (\<lambda>a. effect_infer a = Io) args \<Longrightarrow>
      \<exists>v\<in>set (concat (map visited args)). effect_infer v = Io"
    using visited_self by (fastforce simp: list_ex_iff)
  ultimately show ?case
    using f effect_infer_Call[of n args] by (auto simp: prints_itself_simps simp del: effect_infer.simps)
next
  case (4 c t e)
  have "effect_infer (IfExpr c t e) = Io \<longleftrightarrow> effect_infer t = Io \<or> effect_infer e = Io"
    using effect_infer_two[of t] effect_infer_two[of e] by (auto simp: join_pure_io)
  then show ?case
    using 4 visited_self[of t] visited_self[of e] by (auto simp: prints_itself_simps simp del: effect_infer.simps(2))
qed (auto simp: prints_itself_def)

lemma prints_stmt_visited:
  "plain_stmt s \<Longrightarrow> (\<exists>v\<in>set (visited_stmt s). prints_itself v) \<longleftrightarrow> (\<exists>v\<in>set (visited_stmt s). effect_infer v = Io)"
  by (induction s rule: visited_stmt.induct)
    (simp_all add: bex_Un list_all_iff prints_visited prints_visited[unfolded Bex_def] visited_opt_def plain_opt_def
      cong: bex_cong split: option.splits)

text \<open>
  C12: What the effect check says of a body. On a body without the constructs that the walk does not look
  into, it reports no effect error exactly when the declared effect is io or above, or neither \<open>print\<close>
  nor \<open>println\<close> is called by name anywhere in the body. The call of any other function without arguments,
  whatever that function declares, is taken as pure: adding one changes nothing. So the check does not
  know the effect of the called function, which the comment on the inferencer promises.
\<close>

theorem effect_check_exact:
  assumes "list_all plain_stmt body"
  shows "(effect_errors (walk_body_and_check fn d st body) = effect_errors st) =
     (effect_leq Io (d_effect d) \<or> \<not> list_ex prints_stmt body) \<and>
     (f \<notin> set print_calls \<longrightarrow>
      effect_errors (walk_body_and_check fn d st (body @ [SExpr (Call (Ident f) [])])) =
      effect_errors (walk_body_and_check fn d st body))"
proof -
  let ?vs = "concat (map visited_stmt body)"
  have "effect_fails d v \<longleftrightarrow> effect_infer v = Io \<and> \<not> effect_leq Io (d_effect d)" for v :: "'a Expr"
    using effect_infer_two[of v] by (auto simp: effect_fails_def)
  moreover have "list_ex prints_stmt body \<longleftrightarrow> (\<exists>v\<in>set ?vs. effect_infer v = Io)"
  proof -
    have "prints_stmt s \<longleftrightarrow> (\<exists>v\<in>set (visited_stmt s). effect_infer v = Io)" if "s \<in> set body" for s
      using assms that prints_stmt_visited[of s] visited_stmt_plain[of s] by (simp add: prints_stmt_def list_ex_iff list_all_iff)
    then show ?thesis by (auto simp: list_ex_iff)
  qed
  ultimately show ?thesis
    by (auto simp: walk_body_visited check_fold check_expr_fields filter_empty_conv effect_infer_Call print_calls_def)
qed

theorem effect_check_exact_witness:
  "effect_errors (walk_body_and_check (lit ''f'') (fn_declared no_annot False time_new) (seven_new 0)
      [SReturn (Some (BinaryOp (IntLiteral 1 :: nat Expr) (lit ''+'')
         (Call (Ident (lit ''print'')) [])))]) \<noteq> []"
proof -
  let ?body = "[SReturn (Some (BinaryOp (IntLiteral 1 :: nat Expr) (lit ''+'')
         (Call (Ident (lit ''print'')) [])))]"
  have "list_all plain_stmt ?body" by (simp add: plain_opt_def)
  from effect_check_exact[OF this, of "lit ''f''" "fn_declared no_annot False time_new" "seven_new 0" "lit ''g''"]
  show ?thesis
    by (simp add: fn_declared_def no_annot_def print_calls_def seven_new_def prints_stmt_def prints_itself_def)
qed

text \<open>An expression the walk passes as pure without looking inside.\<close>

definition opaque :: "'f Expr \<Rightarrow> bool" where
  "opaque w = (visited w = [w] \<and> effect_infer w = Pure)"

text \<open>
  What the effect check does not see. A call of any other function is pure whatever that function
  declares; and an expression inside an array, an index, an option, a range or a pipe is not
  visited, so the print in it is not reported even in a function declared pure.
\<close>

theorem effect_check_gaps:
  "effect_infer (Call (Ident f) []) = (if f \<in> set print_calls then Io else Pure) \<and>
   opaque (Array [e]) \<and> opaque (Index e e) \<and> opaque (OptionValue True (Some e)) \<and>
   opaque (ResultValue True (Some e) None) \<and> opaque (Range e e b) \<and> opaque (Pipe e ops) \<and>
   opaque (MemberAccess e m) \<and>
   effect_errors (walk_body_and_check fn d st
      [SExpr (Array [Call (Ident (lit ''print'')) args])]) = effect_errors st"
  by (auto simp: print_calls_def walk_body_visited check_expr_fields effect_fails_def opaque_def)

text \<open>The functions of a program, and the results recorded for them.\<close>

definition fn_names :: "'f Stmt list \<Rightarrow> ustr list" where
  "fn_names ss = map (\<lambda>s. case s of SFn n _ _ _ _ _ _ \<Rightarrow> n | _ \<Rightarrow> [])
     (filter (\<lambda>s. case s of SFn _ _ _ _ _ _ _ \<Rightarrow> True | _ \<Rightarrow> False) ss)"

lemma walk_keeps:
  "results (walk_body_and_check fn d st body) = results st"
  "fn_annotations (walk_body_and_check fn d st body) = fn_annotations st"
  "value_inf (walk_body_and_check fn d st body) = value_inf st"
  "confidence_errors (walk_body_and_check fn d st body) = confidence_errors st"
  "capability_errors (walk_body_and_check fn d st body) = capability_errors st"
  by (simp_all add: walk_body_visited check_fold)

lemma seven_stmt_keeps:
  assumes "seven_stmt chk vt st s = Some st'"
  shows "map fst (results st') = map fst (results st) @ fn_names [s]"
    and "dom (fn_annotations st') = dom (fn_annotations st) \<union> set (fn_names [s])"
    and "value_inf st' = value_inf st"
    and "confidence_errors st' = confidence_errors st"
    and "capability_errors st' = capability_errors st"
  using assms
  by (auto simp: seven_stmt_def fn_names_def Let_def walk_keeps split: Statement.splits option.splits)

lemma fn_names_Cons: "fn_names (s # ss) = fn_names [s] @ fn_names ss"
  by (simp add: fn_names_def)

lemma seven_stmts_keep:
  assumes "seven_stmts chk vt st ss = Some st'"
  shows "map fst (results st') = map fst (results st) @ fn_names ss \<and>
     dom (fn_annotations st') = dom (fn_annotations st) \<union> set (fn_names ss) \<and>
     value_inf st' = value_inf st \<and> confidence_errors st' = confidence_errors st \<and>
     capability_errors st' = capability_errors st"
  using assms
proof (induction ss arbitrary: st)
  case Nil
  then show ?case by (simp add: fn_names_def)
next
  case (Cons s ss)
  from Cons.prems obtain st1 where st1: "seven_stmt chk vt st s = Some st1"
      "seven_stmts chk vt st1 ss = Some st'"
    by (auto split: option.splits)
  show ?case
    using Cons.IH[OF st1(2)] seven_stmt_keeps[OF st1(1)] fn_names_Cons[of s ss] by auto
qed

text \<open>
  Inferring a program records one result per top-level function, in order, puts exactly the
  functions into the capability table, and reports no capability and no confidence error: those
  two channels are recorded but nothing checks them.
\<close>

lemma seven_results:
  assumes "seven_infer_program chk prog st = Some st'"
  shows "map fst (results st') = map fst (results st) @ fn_names (statements prog) \<and>
     dom (fn_annotations st') = dom (fn_annotations st) \<union> set (fn_names (statements prog)) \<and>
     value_inf st' = infer_program prog (value_inf st) \<and>
     confidence_errors st' = confidence_errors st \<and> capability_errors st' = capability_errors st"
  using seven_stmts_keep assms by (fastforce simp: seven_infer_program_def Let_def)

theorem seven_results_witness:
  "\<exists>st' :: seven. map fst (results st') = [lit ''f''] \<and>
     dom (fn_annotations st') = {lit ''f''}"
proof -
  let ?p = "program_add program_new (SFn (lit ''f'') [] None no_annot [] False False) :: nat Program"
  obtain st' where run: "seven_infer_program True ?p (seven_new 0) = Some st'"
    by (simp add: seven_infer_program_def program_add_def program_new_def seven_stmt_def fn_time_def
        no_annot_def fn_timeout_def Let_def)
  from seven_results[OF this] show ?thesis
    by (intro exI[of _ st']) (simp add: seven_new_def program_add_def program_new_def fn_names_def)
qed

text \<open>
  The two readings of a timeout. Annotated on a function, the timeout \<open>5\<close> without a unit is
  taken as seconds; parsed on its own, as milliseconds. The unit ms is read alike by both.
\<close>

theorem timeout_readings:
  "fn_timeout chk (Some (lit ''5'')) = Some (Some 5000) \<and>
   parse_time_constraint chk (lit ''timeout'') (lit ''5'') = Some (time_new\<lparr>timeout_ms := Some 5\<rparr>) \<and>
   fn_timeout chk (Some (lit ''5ms'')) = Some (Some 5) \<and>
   parse_time_constraint chk (lit ''timeout'') (lit ''5ms'') =
     Some (time_new\<lparr>timeout_ms := Some 5\<rparr>) \<and>
   fn_timeout chk (Some (lit ''5s'')) = Some (Some 5000) \<and>
   parse_time_constraint chk (lit ''timeout'') (lit ''5s'') =
     Some (time_new\<lparr>timeout_ms := Some 5000\<rparr>)"
  by (intro conjI) (simp_all add: fn_timeout_def parse_time_constraint_def lit_def ends_with_def
      trim_end_matches.simps parse_u64_def digits_value_def is_ascii_digit_def
      seconds_to_ms_def u64_times_1000_def trim_ws_def is_white_space_def Let_def)

end
