(* ===== verification/Tokens.thy ===== *)
theory Tokens
  imports Prelude
begin

section \<open>Tokens (compiler/src/token.rs)\<close>

text \<open>
  The enumeration \<open>TokenType\<close>, its printed names and the token record. Three constructors carry
  the suffix \<open>Tok\<close> (\<open>IdentTok\<close>, \<open>NotTok\<close>, \<open>PipeTok\<close>), because their names belong to the
  expression syntax or to HOL.
\<close>

datatype (plugins only: size) TokenType =
    KeywordLet | KeywordFn | KeywordReturn | KeywordIf | KeywordElse | KeywordMatch |
    KeywordFor | KeywordIn | KeywordWhile | KeywordSpawn | KeywordAsync | KeywordTry |
    KeywordCatch | KeywordUse | KeywordTrait | KeywordAssert | KeywordChannel | KeywordMut |
    KeywordOk | KeywordError | KeywordExport | KeywordPub | KeywordImpl | KeywordStruct |
    KeywordEnum | KeywordType | KeywordConst | KeywordMod | IdentTok | IntLiteral |
    FloatLiteral | StringLiteral | CharLiteral | BoolLiteral | Plus | Minus | Star | Slash |
    Modulo | Equal | DoubleEqual | NotEqual | Less | Greater | LessEqual | GreaterEqual |
    And | Or | NotTok | PlusEqual | MinusEqual | StarEqual | SlashEqual | Arrow |
    DoubleArrow | PipeTok | QuestionMark | At | Dollar | Comma | Semicolon | Colon |
    DoubleColon | LeftParen | RightParen | LeftBracket | RightBracket | LeftBrace |
    RightBrace | Dot | DoubleDot | Eof | Newline | Attribute | Comment

primrec token_name :: "TokenType \<Rightarrow> string" where
  "token_name KeywordLet = ''KEYWORD_LET''"
| "token_name KeywordFn = ''KEYWORD_FN''"
| "token_name KeywordReturn = ''KEYWORD_RETURN''"
| "token_name KeywordIf = ''KEYWORD_IF''"
| "token_name KeywordElse = ''KEYWORD_ELSE''"
| "token_name KeywordMatch = ''KEYWORD_MATCH''"
| "token_name KeywordFor = ''KEYWORD_FOR''"
| "token_name KeywordIn = ''KEYWORD_IN''"
| "token_name KeywordWhile = ''KEYWORD_WHILE''"
| "token_name KeywordSpawn = ''KEYWORD_SPAWN''"
| "token_name KeywordAsync = ''KEYWORD_ASYNC''"
| "token_name KeywordTry = ''KEYWORD_TRY''"
| "token_name KeywordCatch = ''KEYWORD_CATCH''"
| "token_name KeywordUse = ''KEYWORD_USE''"
| "token_name KeywordTrait = ''KEYWORD_TRAIT''"
| "token_name KeywordAssert = ''KEYWORD_ASSERT''"
| "token_name KeywordChannel = ''KEYWORD_CHANNEL''"
| "token_name KeywordMut = ''KEYWORD_MUT''"
| "token_name KeywordOk = ''KEYWORD_OK''"
| "token_name KeywordError = ''KEYWORD_ERROR''"
| "token_name KeywordExport = ''KEYWORD_EXPORT''"
| "token_name KeywordPub = ''KEYWORD_PUB''"
| "token_name KeywordImpl = ''KEYWORD_IMPL''"
| "token_name KeywordStruct = ''KEYWORD_STRUCT''"
| "token_name KeywordEnum = ''KEYWORD_ENUM''"
| "token_name KeywordType = ''KEYWORD_TYPE''"
| "token_name KeywordConst = ''KEYWORD_CONST''"
| "token_name KeywordMod = ''KEYWORD_MOD''"
| "token_name IdentTok = ''IDENT''"
| "token_name IntLiteral = ''INT_LITERAL''"
| "token_name FloatLiteral = ''FLOAT_LITERAL''"
| "token_name StringLiteral = ''STRING_LITERAL''"
| "token_name CharLiteral = ''CHAR_LITERAL''"
| "token_name BoolLiteral = ''BOOL_LITERAL''"
| "token_name Plus = ''PLUS''"
| "token_name Minus = ''MINUS''"
| "token_name Star = ''STAR''"
| "token_name Slash = ''SLASH''"
| "token_name Modulo = ''MODULO''"
| "token_name Equal = ''EQUAL''"
| "token_name DoubleEqual = ''DOUBLE_EQUAL''"
| "token_name NotEqual = ''NOT_EQUAL''"
| "token_name Less = ''LESS''"
| "token_name Greater = ''GREATER''"
| "token_name LessEqual = ''LESS_EQUAL''"
| "token_name GreaterEqual = ''GREATER_EQUAL''"
| "token_name And = ''AND''"
| "token_name Or = ''OR''"
| "token_name NotTok = ''NOT''"
| "token_name PlusEqual = ''PLUS_EQUAL''"
| "token_name MinusEqual = ''MINUS_EQUAL''"
| "token_name StarEqual = ''STAR_EQUAL''"
| "token_name SlashEqual = ''SLASH_EQUAL''"
| "token_name Arrow = ''ARROW''"
| "token_name DoubleArrow = ''DOUBLE_ARROW''"
| "token_name PipeTok = ''PIPE''"
| "token_name QuestionMark = ''QUESTION_MARK''"
| "token_name At = ''AT''"
| "token_name Dollar = ''DOLLAR''"
| "token_name Comma = ''COMMA''"
| "token_name Semicolon = ''SEMICOLON''"
| "token_name Colon = ''COLON''"
| "token_name DoubleColon = ''DOUBLE_COLON''"
| "token_name LeftParen = ''LEFT_PAREN''"
| "token_name RightParen = ''RIGHT_PAREN''"
| "token_name LeftBracket = ''LEFT_BRACKET''"
| "token_name RightBracket = ''RIGHT_BRACKET''"
| "token_name LeftBrace = ''LEFT_BRACE''"
| "token_name RightBrace = ''RIGHT_BRACE''"
| "token_name Dot = ''DOT''"
| "token_name DoubleDot = ''DOUBLE_DOT''"
| "token_name Eof = ''EOF''"
| "token_name Newline = ''NEWLINE''"
| "token_name Attribute = ''ATTRIBUTE''"
| "token_name Comment = ''COMMENT''"

text \<open>
  \<open>TokenType\<close> derives \<open>PartialEq\<close>: equality compares discriminants, the positions in the
  declaration. This makes token comparison executable.
\<close>

primrec discriminant :: "TokenType \<Rightarrow> nat" where
  "discriminant KeywordLet = 0"
| "discriminant KeywordFn = 1"
| "discriminant KeywordReturn = 2"
| "discriminant KeywordIf = 3"
| "discriminant KeywordElse = 4"
| "discriminant KeywordMatch = 5"
| "discriminant KeywordFor = 6"
| "discriminant KeywordIn = 7"
| "discriminant KeywordWhile = 8"
| "discriminant KeywordSpawn = 9"
| "discriminant KeywordAsync = 10"
| "discriminant KeywordTry = 11"
| "discriminant KeywordCatch = 12"
| "discriminant KeywordUse = 13"
| "discriminant KeywordTrait = 14"
| "discriminant KeywordAssert = 15"
| "discriminant KeywordChannel = 16"
| "discriminant KeywordMut = 17"
| "discriminant KeywordOk = 18"
| "discriminant KeywordError = 19"
| "discriminant KeywordExport = 20"
| "discriminant KeywordPub = 21"
| "discriminant KeywordImpl = 22"
| "discriminant KeywordStruct = 23"
| "discriminant KeywordEnum = 24"
| "discriminant KeywordType = 25"
| "discriminant KeywordConst = 26"
| "discriminant KeywordMod = 27"
| "discriminant IdentTok = 28"
| "discriminant IntLiteral = 29"
| "discriminant FloatLiteral = 30"
| "discriminant StringLiteral = 31"
| "discriminant CharLiteral = 32"
| "discriminant BoolLiteral = 33"
| "discriminant Plus = 34"
| "discriminant Minus = 35"
| "discriminant Star = 36"
| "discriminant Slash = 37"
| "discriminant Modulo = 38"
| "discriminant Equal = 39"
| "discriminant DoubleEqual = 40"
| "discriminant NotEqual = 41"
| "discriminant Less = 42"
| "discriminant Greater = 43"
| "discriminant LessEqual = 44"
| "discriminant GreaterEqual = 45"
| "discriminant And = 46"
| "discriminant Or = 47"
| "discriminant NotTok = 48"
| "discriminant PlusEqual = 49"
| "discriminant MinusEqual = 50"
| "discriminant StarEqual = 51"
| "discriminant SlashEqual = 52"
| "discriminant Arrow = 53"
| "discriminant DoubleArrow = 54"
| "discriminant PipeTok = 55"
| "discriminant QuestionMark = 56"
| "discriminant At = 57"
| "discriminant Dollar = 58"
| "discriminant Comma = 59"
| "discriminant Semicolon = 60"
| "discriminant Colon = 61"
| "discriminant DoubleColon = 62"
| "discriminant LeftParen = 63"
| "discriminant RightParen = 64"
| "discriminant LeftBracket = 65"
| "discriminant RightBracket = 66"
| "discriminant LeftBrace = 67"
| "discriminant RightBrace = 68"
| "discriminant Dot = 69"
| "discriminant DoubleDot = 70"
| "discriminant Eof = 71"
| "discriminant Newline = 72"
| "discriminant Attribute = 73"
| "discriminant Comment = 74"

definition all_tokens :: "TokenType list" where
  "all_tokens =
  [KeywordLet, KeywordFn, KeywordReturn, KeywordIf, KeywordElse,
   KeywordMatch, KeywordFor, KeywordIn, KeywordWhile, KeywordSpawn,
   KeywordAsync, KeywordTry, KeywordCatch, KeywordUse, KeywordTrait,
   KeywordAssert, KeywordChannel, KeywordMut, KeywordOk, KeywordError,
   KeywordExport, KeywordPub, KeywordImpl, KeywordStruct, KeywordEnum,
   KeywordType, KeywordConst, KeywordMod, IdentTok, IntLiteral,
   FloatLiteral, StringLiteral, CharLiteral, BoolLiteral, Plus,
   Minus, Star, Slash, Modulo, Equal,
   DoubleEqual, NotEqual, Less, Greater, LessEqual,
   GreaterEqual, And, Or, NotTok, PlusEqual,
   MinusEqual, StarEqual, SlashEqual, Arrow, DoubleArrow,
   PipeTok, QuestionMark, At, Dollar, Comma,
   Semicolon, Colon, DoubleColon, LeftParen, RightParen,
   LeftBracket, RightBracket, LeftBrace, RightBrace, Dot,
   DoubleDot, Eof, Newline, Attribute, Comment]"

lemma all_tokens_nth: "all_tokens ! discriminant t = t"
  by (cases t) (simp_all add: all_tokens_def)

lemma discriminant_inj: "discriminant a = discriminant b \<longleftrightarrow> a = b"
  using all_tokens_nth by metis

instantiation TokenType :: equal
begin

definition equal_TokenType :: "TokenType \<Rightarrow> TokenType \<Rightarrow> bool" where
  "equal_TokenType a b = (discriminant a = discriminant b)"

instance
  by standard (simp add: equal_TokenType_def discriminant_inj)

end

record Token =
  token_type :: TokenType
  tvalue :: ustr
  tline :: nat
  tcolumn :: nat

definition new_token :: "TokenType \<Rightarrow> ustr \<Rightarrow> nat \<Rightarrow> nat \<Rightarrow> Token" where
  "new_token tt v l c = \<lparr>token_type = tt, tvalue = v, tline = l, tcolumn = c\<rparr>"

lemma new_token_sel [simp]:
  "token_type (new_token tt v l c) = tt" "tvalue (new_token tt v l c) = v"
  "tline (new_token tt v l c) = l" "tcolumn (new_token tt v l c) = c"
  by (simp_all add: new_token_def)

text \<open>The two-character and one-character operator spellings and the keyword table are in Lexer.\<close>

end
