(* ===== verification/Lexer.thy ===== *)
theory Lexer
  imports Tokens
begin

section \<open>The lexer (compiler/src/lexer.rs)\<close>

text \<open>
  The lexer walks a vector of characters with a position and a line and column. Every loop of
  the source is a recursion that stops when the input ends; the measure is the number of
  characters left. The answers of \<open>char::is_alphabetic\<close> and \<open>char::is_alphanumeric\<close> for
  characters outside ASCII come from the Unicode tables of the standard library and are a
  parameter \<open>U\<close>; for ASCII they are written out.
\<close>

subsection \<open>Character classes\<close>

record unicode =
  wide_alphabetic :: "uchar \<Rightarrow> bool"
  wide_numeric :: "uchar \<Rightarrow> bool"

definition is_alphabetic :: "unicode \<Rightarrow> uchar \<Rightarrow> bool" where
  "is_alphabetic U c =
     (if c < 128 then 65 \<le> c \<and> c \<le> 90 \<or> 97 \<le> c \<and> c \<le> 122 else wide_alphabetic U c)"

definition is_alphanumeric :: "unicode \<Rightarrow> uchar \<Rightarrow> bool" where
  "is_alphanumeric U c =
     (is_alphabetic U c \<or> (if c < 128 then is_ascii_digit c else wide_numeric U c))"

definition is_chinese_char :: "uchar \<Rightarrow> bool" where
  "is_chinese_char c =
     (0x4E00 \<le> c \<and> c \<le> 0x9FFF \<or> 0x3400 \<le> c \<and> c \<le> 0x4DBF \<or>
      0x20000 \<le> c \<and> c \<le> 0x2A6DF \<or> 0xF900 \<le> c \<and> c \<le> 0xFAFF)"

definition is_ident_start :: "unicode \<Rightarrow> uchar \<Rightarrow> bool" where
  "is_ident_start U c = (is_alphabetic U c \<or> c = uc CHR ''_'' \<or> is_chinese_char c)"

definition is_ident_continue :: "unicode \<Rightarrow> uchar \<Rightarrow> bool" where
  "is_ident_continue U c = (is_alphanumeric U c \<or> c = uc CHR ''_'' \<or> is_chinese_char c)"

definition build_keywords :: "(ustr \<times> TokenType) list" where
  "build_keywords =
    [(lit ''let'', KeywordLet), (lit ''fn'', KeywordFn), (lit ''return'', KeywordReturn),
     (lit ''if'', KeywordIf), (lit ''else'', KeywordElse), (lit ''match'', KeywordMatch),
     (lit ''for'', KeywordFor), (lit ''in'', KeywordIn), (lit ''while'', KeywordWhile),
     (lit ''spawn'', KeywordSpawn), (lit ''async'', KeywordAsync), (lit ''try'', KeywordTry),
     (lit ''catch'', KeywordCatch), (lit ''use'', KeywordUse), (lit ''trait'', KeywordTrait),
     (lit ''assert'', KeywordAssert), (lit ''channel'', KeywordChannel),
     (lit ''mut'', KeywordMut), (lit ''ok'', KeywordOk), (lit ''error'', KeywordError),
     (lit ''export'', KeywordExport), (lit ''pub'', KeywordPub), (lit ''impl'', KeywordImpl),
     (lit ''struct'', KeywordStruct), (lit ''enum'', KeywordEnum), (lit ''type'', KeywordType),
     (lit ''const'', KeywordConst), (lit ''mod'', KeywordMod),
     (lit ''true'', BoolLiteral), (lit ''false'', BoolLiteral)]"

definition keyword_type :: "ustr \<Rightarrow> TokenType" where
  "keyword_type s = (case map_of build_keywords s of None \<Rightarrow> IdentTok | Some t \<Rightarrow> t)"

definition double_map :: "(ustr \<times> TokenType) list" where
  "double_map =
    [(lit ''->'', Arrow), (lit ''=>'', DoubleArrow), (lit ''|>'', PipeTok),
     (lit ''<|'', PipeTok), (lit ''=='', DoubleEqual), (lit ''!='', NotEqual),
     (lit ''<='', LessEqual), (lit ''>='', GreaterEqual), (lit ''&&'', And),
     (lit ''||'', Or), (lit ''..'', DoubleDot), (lit ''::'', DoubleColon),
     (lit ''+='', PlusEqual), (lit ''-='', MinusEqual), (lit ''*='', StarEqual),
     (lit ''/='', SlashEqual)]"

definition single_map :: "(uchar \<times> TokenType) list" where
  "single_map =
    [(uc CHR ''+'', Plus), (uc CHR ''-'', Minus), (uc CHR ''*'', Star),
     (uc CHR ''/'', Slash), (uc CHR ''%'', Modulo), (uc CHR ''='', Equal),
     (uc CHR ''<'', Less), (uc CHR ''>'', Greater), (uc CHR ''!'', NotTok),
     (uc CHR ''?'', QuestionMark), (uc CHR ''@'', At), (uc CHR ''$'', Dollar),
     (uc CHR '','', Comma), (uc CHR '';'', Semicolon), (uc CHR '':'', Colon),
     (uc CHR ''('', LeftParen), (uc CHR '')'', RightParen), (uc CHR ''['', LeftBracket),
     (uc CHR '']'', RightBracket), (uc CHR ''{'', LeftBrace), (uc CHR ''}'', RightBrace),
     (uc CHR ''.'', Dot)]"

subsection \<open>State and cursor\<close>

record LexerError =
  message :: ustr
  eline :: nat
  ecolumn :: nat

record lexer =
  chars :: ustr
  pos :: nat
  line :: nat
  column :: nat

definition new_lexer :: "ustr \<Rightarrow> lexer" where
  "new_lexer source = \<lparr>chars = source, pos = 0, line = 1, column = 1\<rparr>"

definition peek :: "lexer \<Rightarrow> nat \<Rightarrow> uchar option" where
  "peek s k = (if pos s + k < length (chars s) then Some (chars s ! (pos s + k)) else None)"

definition current :: "lexer \<Rightarrow> uchar option" where
  "current s = (if pos s < length (chars s) then Some (chars s ! pos s) else None)"

definition advance :: "lexer \<Rightarrow> lexer" where
  "advance s =
     (case current s of
        None \<Rightarrow> s
      | Some c \<Rightarrow>
          if c = 10 then s\<lparr>line := line s + 1, column := 1, pos := pos s + 1\<rparr>
          else s\<lparr>column := column s + 1, pos := pos s + 1\<rparr>)"

definition rest :: "lexer \<Rightarrow> ustr" where
  "rest s = drop (pos s) (chars s)"

definition remaining :: "lexer \<Rightarrow> nat" where
  "remaining s = length (chars s) - pos s"

lemma current_rest [lexer_simps]: "current s = (case rest s of [] \<Rightarrow> None | c # _ \<Rightarrow> Some c)"
  by (auto simp: current_def rest_def Cons_nth_drop_Suc[symmetric])

lemma current_peek: "current s = peek s 0"
  by (simp add: current_def peek_def)

lemma peek_rest: "peek s k = (if k < length (rest s) then Some (rest s ! k) else None)"
  by (auto simp: peek_def rest_def)

lemma peek1_rest [lexer_simps]: "peek s (Suc 0) = (case rest s of _ # c # _ \<Rightarrow> Some c | _ \<Rightarrow> None)"
  by (auto simp: peek_rest split: list.splits)

lemma rest_advance [lexer_simps]: "rest (advance s) = tl (rest s)"
  by (auto simp: advance_def rest_def current_def tl_drop drop_Suc)

lemma chars_advance [simp]: "chars (advance s) = chars s"
  by (auto simp: advance_def split: option.splits)

lemma remaining_rest: "remaining s = length (rest s)"
  by (simp add: remaining_def rest_def)

lemma remaining_advance: "current s = Some c \<Longrightarrow> remaining (advance s) < remaining s"
  by (auto simp: remaining_rest lexer_simps split: list.splits)

lemma remaining_advance_le: "remaining (advance s) \<le> remaining s"
  by (simp add: remaining_rest lexer_simps)

subsection \<open>Runs of \<open>advance\<close>\<close>

text \<open>
  Every operation only advances the cursor: its final state is some number of \<open>advance\<close>
  steps away. What \<open>advance\<close> preserves is thereby preserved by every operation.
\<close>

definition reach :: "lexer \<Rightarrow> lexer \<Rightarrow> bool" where
  "reach s s' = (\<exists>n. s' = (advance ^^ n) s)"

lemma reach_refl [simp, intro]: "reach s s"
  unfolding reach_def by (rule exI[of _ 0]) simp

lemma reach_trans: "reach s t \<Longrightarrow> reach t u \<Longrightarrow> reach s u"
  unfolding reach_def by (auto simp: funpow_add[symmetric, THEN fun_cong, simplified o_def])

lemma reach_advance [intro]: "reach s (advance s)"
  unfolding reach_def by (rule exI[of _ 1]) simp

lemma reach_advanceI: "reach s t \<Longrightarrow> reach s (advance t)"
  by (rule reach_trans[OF _ reach_advance])

lemma advance_reach: "reach (advance s) t \<Longrightarrow> reach s t"
  by (rule reach_trans[OF reach_advance])

lemma advance2_reach: "reach (advance (advance s)) t \<Longrightarrow> reach s t"
  by (rule advance_reach[OF advance_reach])

lemma reach_invariant:
  assumes "reach s s'" and "P s" and "\<And>t. P t \<Longrightarrow> P (advance t)"
  shows "P s'"
proof -
  from assms(1) obtain n where "s' = (advance ^^ n) s" by (auto simp: reach_def)
  moreover have "P ((advance ^^ n) s)" by (induction n) (simp_all add: assms)
  ultimately show ?thesis by simp
qed

lemma reach_chars: "reach s s' \<Longrightarrow> chars s' = chars s"
  by (erule reach_invariant[where P = "\<lambda>t. chars t = chars s"]) simp_all

lemma reach_remaining: "reach s s' \<Longrightarrow> remaining s' \<le> remaining s"
  by (erule reach_invariant[where P = "\<lambda>t. remaining t \<le> remaining s"])
    (auto intro: order_trans[OF remaining_advance_le])

text \<open>The text between two positions, \<open>self.chars[start..self.pos]\<close>.\<close>

definition slice :: "lexer \<Rightarrow> lexer \<Rightarrow> ustr" where
  "slice s s' = take (pos s' - pos s) (drop (pos s) (chars s'))"

subsection \<open>White space and comments\<close>

function line_comment_loop :: "lexer \<Rightarrow> lexer" where
  "line_comment_loop s =
     (case current s of
        None \<Rightarrow> s
      | Some c \<Rightarrow> if c = 10 then s else line_comment_loop (advance s))"
  by pat_completeness auto
termination by (relation "measure remaining") (auto intro: remaining_advance)

definition skip_line_comment :: "lexer \<Rightarrow> lexer" where
  "skip_line_comment s = line_comment_loop (advance (advance s))"

function block_comment_loop :: "lexer \<Rightarrow> lexer" where
  "block_comment_loop s =
     (case current s of
        None \<Rightarrow> s
      | Some c \<Rightarrow>
          if c = uc CHR ''*'' \<and> peek s 1 = Some (uc CHR ''/'') then advance (advance s)
          else block_comment_loop (advance s))"
  by pat_completeness auto
termination by (relation "measure remaining") (auto intro: remaining_advance)

definition skip_block_comment :: "lexer \<Rightarrow> lexer" where
  "skip_block_comment s = block_comment_loop (advance (advance s))"

declare line_comment_loop.simps [simp del] block_comment_loop.simps [simp del]

lemma reach_line_comment_loop: "reach s (line_comment_loop s)"
proof (induction s rule: line_comment_loop.induct)
  case (1 s)
  then show ?case
    by (subst line_comment_loop.simps) (auto split: option.split intro: advance_reach)
qed

lemma reach_block_comment_loop: "reach s (block_comment_loop s)"
proof (induction s rule: block_comment_loop.induct)
  case (1 s)
  then show ?case
    by (subst block_comment_loop.simps)
      (auto split: option.split intro: advance_reach reach_advanceI)
qed

lemma reach_skip_line_comment: "reach s (skip_line_comment s)"
  unfolding skip_line_comment_def
  by (rule advance_reach[OF advance_reach[OF reach_line_comment_loop]])

lemma reach_skip_block_comment: "reach s (skip_block_comment s)"
  unfolding skip_block_comment_def
  by (rule advance_reach[OF advance_reach[OF reach_block_comment_loop]])

lemma remaining_skip_line_comment:
  "current s = Some c \<Longrightarrow> remaining (skip_line_comment s) < remaining s"
  unfolding skip_line_comment_def
  using reach_remaining[OF advance_reach[OF reach_line_comment_loop]] remaining_advance
  by (meson le_less_trans)

lemma remaining_skip_block_comment:
  "current s = Some c \<Longrightarrow> remaining (skip_block_comment s) < remaining s"
  unfolding skip_block_comment_def
  using reach_remaining[OF advance_reach[OF reach_block_comment_loop]] remaining_advance
  by (meson le_less_trans)

function skip_whitespace :: "lexer \<Rightarrow> lexer" where
  "skip_whitespace s =
     (case current s of
        None \<Rightarrow> s
      | Some c \<Rightarrow>
          if c = 32 \<or> c = 9 \<or> c = 13 then skip_whitespace (advance s)
          else if c = 10 then skip_whitespace (advance s)
          else if c = uc CHR ''/'' \<and> peek s 1 = Some (uc CHR ''/'')
            then skip_whitespace (skip_line_comment s)
          else if c = uc CHR ''/'' \<and> peek s 1 = Some (uc CHR ''*'')
            then skip_whitespace (skip_block_comment s)
          else s)"
  by pat_completeness auto
termination
  by (relation "measure remaining")
    (auto intro: remaining_advance remaining_skip_line_comment remaining_skip_block_comment)

declare skip_whitespace.simps [simp del]

lemma reach_skip_whitespace: "reach s (skip_whitespace s)"
proof (induction s rule: skip_whitespace.induct)
  case (1 s)
  then show ?case
    by (subst skip_whitespace.simps)
      (auto split: option.split intro: advance_reach
        reach_trans[OF reach_skip_line_comment] reach_trans[OF reach_skip_block_comment])
qed

subsection \<open>Identifiers and numbers\<close>

function read_ident_loop :: "unicode \<Rightarrow> lexer \<Rightarrow> lexer" where
  "read_ident_loop U s =
     (case current s of
        None \<Rightarrow> s
      | Some c \<Rightarrow> if is_ident_continue U c then read_ident_loop U (advance s) else s)"
  by pat_completeness auto
termination by (relation "measure (\<lambda>(U, s). remaining s)") (auto intro: remaining_advance)

definition read_ident :: "unicode \<Rightarrow> lexer \<Rightarrow> ustr \<times> lexer" where
  "read_ident U s = (let s' = read_ident_loop U s in (slice s s', s'))"

function read_number_loop :: "bool \<Rightarrow> lexer \<Rightarrow> bool \<times> lexer" where
  "read_number_loop has_dot s =
     (case current s of
        None \<Rightarrow> (has_dot, s)
      | Some c \<Rightarrow>
          if is_ascii_digit c then read_number_loop has_dot (advance s)
          else if c = uc CHR ''.'' \<and> \<not> has_dot then
            (if peek s 1 = Some (uc CHR ''.'') then (has_dot, s)
             else read_number_loop True (advance s))
          else (has_dot, s))"
  by pat_completeness auto
termination by (relation "measure (\<lambda>(d, s). remaining s)") (auto intro: remaining_advance)

text \<open>
  \<open>parse::<f64>\<close> and \<open>parse::<i64>\<close> on what the loop collects: digits with at most one dot,
  the first character a digit. A digit and at most one dot is a valid \<open>f64\<close>; digits are a
  valid \<open>i64\<close> when their value is below \<open>2^63\<close>.
\<close>

definition f64_parse_ok :: "ustr \<Rightarrow> bool" where
  "f64_parse_ok t =
     (list_all (\<lambda>c. is_ascii_digit c \<or> c = uc CHR ''.'') t \<and> list_ex is_ascii_digit t \<and>
      count_list t (uc CHR ''.'') \<le> 1)"

definition i64_parse_ok :: "ustr \<Rightarrow> bool" where
  "i64_parse_ok t = (t \<noteq> [] \<and> list_all is_ascii_digit t \<and> digits_value t < 2 ^ 63)"

definition read_number :: "lexer \<Rightarrow> (TokenType \<times> ustr) \<times> lexer" where
  "read_number s =
     (let (has_dot, s') = read_number_loop False s; t = slice s s' in
      (if has_dot \<and> f64_parse_ok t then (FloatLiteral, t)
       else if i64_parse_ok t then (IntLiteral, t)
       else (IdentTok, t), s'))"

declare read_ident_loop.simps [simp del] read_number_loop.simps [simp del]

lemma reach_read_ident_loop: "reach s (read_ident_loop U s)"
proof (induction U s rule: read_ident_loop.induct)
  case (1 U s)
  then show ?case
    by (subst read_ident_loop.simps) (auto split: option.split intro: advance_reach)
qed

lemma reach_read_number_loop: "reach s (snd (read_number_loop d s))"
proof (induction d s rule: read_number_loop.induct)
  case (1 d s)
  then show ?case
    by (subst read_number_loop.simps) (auto split: option.split intro: advance_reach)
qed

subsection \<open>String and attribute literals\<close>

definition unterminated :: "lexer \<Rightarrow> LexerError" where
  "unterminated s =
     \<lparr>message = lit ''Unterminated string'', eline = line s, ecolumn = column s\<rparr>"

definition escape_replacement :: "uchar \<Rightarrow> uchar" where
  "escape_replacement e =
     (if e = uc CHR ''n'' then 10 else if e = uc CHR ''t'' then 9
      else if e = 34 then 34 else if e = 39 then 39 else if e = 92 then 92 else e)"

text \<open>34 is the double quote, 39 the single quote and 92 the backslash.\<close>

function read_string_loop :: "uchar \<Rightarrow> ustr \<Rightarrow> lexer \<Rightarrow> (LexerError + ustr) \<times> lexer" where
  "read_string_loop quote parts s =
     (case current s of
        None \<Rightarrow> (Inl (unterminated s), s)
      | Some c \<Rightarrow>
          if c = 92 then
            (let s1 = advance s;
                 esc = (case current s1 of None \<Rightarrow> 92 | Some e \<Rightarrow> e)
             in read_string_loop quote (parts @ [escape_replacement esc]) (advance s1))
          else if c = quote then (Inr parts, advance s)
          else read_string_loop quote (parts @ [c]) (advance s))"
  by pat_completeness auto
termination
  by (relation "measure (\<lambda>(q, p, s). remaining s)")
    (auto intro: remaining_advance le_less_trans[OF remaining_advance_le remaining_advance])

definition read_string :: "uchar \<Rightarrow> lexer \<Rightarrow> (LexerError + ustr) \<times> lexer" where
  "read_string quote s = read_string_loop quote [] (advance s)"

function attribute_loop :: "ustr \<Rightarrow> lexer \<Rightarrow> ustr \<times> lexer" where
  "attribute_loop attr s =
     (case current s of
        None \<Rightarrow> (attr, s)
      | Some c \<Rightarrow>
          if c = uc CHR '']'' then (attr @ [uc CHR '']''], advance s)
          else attribute_loop (attr @ [c]) (advance s))"
  by pat_completeness auto
termination by (relation "measure (\<lambda>(a, s). remaining s)") (auto intro: remaining_advance)

declare read_string_loop.simps [simp del] attribute_loop.simps [simp del]

lemma reach_read_string_loop: "reach s (snd (read_string_loop q p s))"
proof (induction q p s rule: read_string_loop.induct)
  case (1 q p s)
  note step = read_string_loop.simps[of q p s]
  show ?case
  proof (cases "current s")
    case (Some c)
    then show ?thesis
      using 1(1)[OF Some _ refl refl, THEN advance2_reach] 1(2)[OF Some, THEN advance_reach]
      by (cases "c = 92") (simp_all add: step Let_def reach_advance)
  qed (simp add: step)
qed

lemma reach_attribute_loop: "reach s (snd (attribute_loop a s))"
proof (induction a s rule: attribute_loop.induct)
  case (1 a s)
  then show ?case
    by (subst attribute_loop.simps) (auto split: option.split intro: advance_reach)
qed

subsection \<open>The next token\<close>

text \<open>
  The branches of \<open>next_token\<close> in the source's order: end of input, identifiers and keywords,
  numbers, strings, attributes, operators of two and of one character, and last the unknown
  character, which becomes an identifier \<open>?c?\<close>. \<open>lex_at\<close> is the body after the white space
  has been skipped and the position recorded.
\<close>

definition two_char :: "lexer \<Rightarrow> uchar \<Rightarrow> ustr" where
  "two_char s c = [c, case peek s 1 of None \<Rightarrow> 0 | Some d \<Rightarrow> d]"

definition lex_at :: "unicode \<Rightarrow> lexer \<Rightarrow> (LexerError + Token) \<times> lexer" where
  "lex_at U s =
     (let tok = (\<lambda>tt v. new_token tt v (line s) (column s)) in
      case current s of
        None \<Rightarrow> (Inr (tok Eof []), s)
      | Some c \<Rightarrow>
          if is_ident_start U c then
            (let (ident, s') = read_ident U s in (Inr (tok (keyword_type ident) ident), s'))
          else if is_ascii_digit c then
            (let ((tt, v), s') = read_number s in (Inr (tok tt v), s'))
          else if c = 34 \<or> c = 39 then
            (case read_string c s of
               (Inl e, s') \<Rightarrow> (Inl e, s')
             | (Inr v, s') \<Rightarrow>
                 (Inr (tok (if c = 34 then StringLiteral else CharLiteral) v), s'))
          else if c = uc CHR ''#'' \<and> peek s 1 = Some (uc CHR ''['') then
            (let (attr, s') = attribute_loop (lit ''#['') (advance (advance s))
             in (Inr (tok Attribute attr), s'))
          else
            (case map_of double_map (two_char s c) of
               Some tt \<Rightarrow> (Inr (tok tt (two_char s c)), advance (advance s))
             | None \<Rightarrow>
                 (case map_of single_map c of
                    Some tt \<Rightarrow> (Inr (tok tt [c]), advance s)
                  | None \<Rightarrow>
                      (Inr (tok IdentTok ([uc CHR ''?''] @ [c] @ [uc CHR ''?''])), advance s))))"

definition next_token :: "unicode \<Rightarrow> lexer \<Rightarrow> (LexerError + Token) \<times> lexer" where
  "next_token U s = lex_at U (skip_whitespace s)"

lemma reach_read_ident: "reach s (snd (read_ident U s))"
  by (simp add: read_ident_def Let_def reach_read_ident_loop)

lemma reach_read_number: "reach s (snd (read_number s))"
  by (simp add: read_number_def Let_def reach_read_number_loop split_beta)

lemma reach_read_string: "reach s (snd (read_string q s))"
  unfolding read_string_def by (rule advance_reach[OF reach_read_string_loop])

lemma reach_attribute: "reach s (snd (attribute_loop a (advance (advance s))))"
  by (rule advance_reach[OF advance_reach[OF reach_attribute_loop]])

lemma snd_sum_result [simp]:
  "snd (case x of Inl e \<Rightarrow> (Inl e, t) | Inr v \<Rightarrow> (Inr (f v), t)) = t"
  by (cases x) auto

lemma reach_lex_at: "reach s (snd (lex_at U s))"
proof (cases "current s")
  case (Some c)
  then show ?thesis
    by (simp add: lex_at_def Let_def split_beta reach_read_ident
        reach_read_number reach_read_string reach_attribute reach_advanceI
        split: option.split)
qed (simp add: lex_at_def)

lemma reach_next_token: "reach s (snd (next_token U s))"
  unfolding next_token_def by (rule reach_trans[OF reach_skip_whitespace reach_lex_at])


subsection \<open>Progress and the token stream\<close>

lemma ident_start_continue: "is_ident_start U c \<Longrightarrow> is_ident_continue U c"
  by (auto simp: is_ident_start_def is_ident_continue_def is_alphanumeric_def)

lemma reach_advance_read_ident:
  assumes "current s = Some c" and "is_ident_start U c"
  shows "reach (advance s) (snd (read_ident U s))"
  using assms ident_start_continue[of U c] reach_read_ident_loop[of "advance s" U]
  by (simp add: read_ident_def Let_def read_ident_loop.simps[of U s])

lemma reach_advance_read_number:
  assumes "current s = Some c" and "is_ascii_digit c"
  shows "reach (advance s) (snd (read_number s))"
  using assms reach_read_number_loop[of "advance s" False]
  by (simp add: read_number_def Let_def split_beta read_number_loop.simps[of False s])

lemma lex_at_advances:
  assumes "current s = Some c"
  shows "reach (advance s) (snd (lex_at U s))"
  using assms reach_advance_read_ident[OF assms, of U] reach_advance_read_number[OF assms]
    reach_read_string_loop[of "advance s"]
    advance_reach[OF reach_attribute_loop[of "advance (advance s)"]]
  by (simp add: lex_at_def Let_def split_beta read_string_def reach_advance split: option.split)

lemma lex_at_eof: "current s = None \<Longrightarrow> lex_at U s = (Inr (new_token Eof [] (line s) (column s)), s)"
  by (simp add: lex_at_def)

lemma next_token_progress:
  assumes "next_token U s = (Inr tok, s')" and "token_type tok \<noteq> Eof"
  shows "remaining s' < remaining s"
proof -
  let ?t = "skip_whitespace s"
  have lex: "lex_at U ?t = (Inr tok, s')" using assms(1) by (simp add: next_token_def)
  with assms(2) obtain c where c: "current ?t = Some c"
    by (cases "current ?t") (auto simp: lex_at_eof)
  have "remaining s' \<le> remaining (advance ?t)"
    using reach_remaining[OF lex_at_advances[OF c, of U]] lex by simp
  also have "\<dots> < remaining ?t" by (rule remaining_advance[OF c])
  also have "\<dots> \<le> remaining s" by (rule reach_remaining[OF reach_skip_whitespace])
  finally show ?thesis .
qed

function tokenize_loop ::
  "unicode \<Rightarrow> Token list \<Rightarrow> lexer \<Rightarrow> (LexerError + Token list) \<times> lexer" where
  "tokenize_loop U tokens s =
     (case next_token U s of
        (Inl e, s') \<Rightarrow> (Inl e, s')
      | (Inr tok, s') \<Rightarrow>
          (let tokens' = tokens @ [tok] in
           if token_type tok = Eof then (Inr tokens', s') else tokenize_loop U tokens' s'))"
  by pat_completeness auto
termination
  by (relation "measure (\<lambda>(U, ts, s). remaining s)") (auto intro: next_token_progress[OF sym])

definition tokenize :: "unicode \<Rightarrow> lexer \<Rightarrow> (LexerError + Token list) \<times> lexer" where
  "tokenize U s = tokenize_loop U [] s"

declare tokenize_loop.simps [simp del]

lemma tokenize_loop_step:
  assumes "next_token U s = (Inr tok, s')" and "token_type tok \<noteq> Eof"
  shows "tokenize_loop U ts s = tokenize_loop U (ts @ [tok]) s'"
  using assms by (subst tokenize_loop.simps) simp

lemma tokenize_loop_eof:
  assumes "next_token U s = (Inr tok, s')" and "token_type tok = Eof"
  shows "tokenize_loop U ts s = (Inr (ts @ [tok]), s')"
  using assms by (subst tokenize_loop.simps) simp

lemma tokenize_loop_error:
  assumes "next_token U s = (Inl e, s')"
  shows "tokenize_loop U ts s = (Inl e, s')"
  using assms by (subst tokenize_loop.simps) simp

text \<open>A run of the loop, as an induction rule over the three outcomes of a step.\<close>

lemma tokenize_loop_induct [case_names error eof step]:
  assumes "\<And>ts s e s'. next_token U s = (Inl e, s') \<Longrightarrow> P ts s (Inl e, s')"
    and "\<And>ts s tok s'. next_token U s = (Inr tok, s') \<Longrightarrow> token_type tok = Eof \<Longrightarrow>
      P ts s (Inr (ts @ [tok]), s')"
    and "\<And>ts s tok s' r. next_token U s = (Inr tok, s') \<Longrightarrow> token_type tok \<noteq> Eof \<Longrightarrow>
      P (ts @ [tok]) s' r \<Longrightarrow> P ts s r"
  shows "P ts s (tokenize_loop U ts s)"
proof (induction "remaining s" arbitrary: ts s rule: less_induct)
  case less
  obtain x s' where step: "next_token U s = (x, s')" by force
  show ?case
  proof (cases x)
    case (Inl e)
    with step assms(1) show ?thesis by (simp add: tokenize_loop_error)
  next
    case (Inr tok)
    note nt = step[unfolded Inr]
    show ?thesis
    proof (cases "token_type tok = Eof")
      case True
      with nt assms(2) show ?thesis by (simp add: tokenize_loop_eof)
    next
      case False
      from less[OF next_token_progress[OF nt False]] assms(3)[OF nt False]
      show ?thesis by (simp add: tokenize_loop_step[OF nt False])
    qed
  qed
qed


end
