(* ===== verification/LexerCorrect.thy ===== *)
theory LexerCorrect
  imports Lexer
begin

section \<open>Correctness of the lexer\<close>

text \<open>
  What the loops of the lexer do to the rest of the input, the positions of the tokens, the
  only error the lexer reports, and the round trip from printed tokens back to tokens.
\<close>

subsection \<open>The loops as functions of the rest of the input\<close>

lemma rest_funpow: "rest ((advance ^^ n) s) = drop n (rest s)"
  by (induction n) (simp_all add: rest_advance drop_Suc tl_drop)

lemma pos_advance: "pos (advance s) = pos s + (if rest s = [] then 0 else 1)"
  by (auto simp: advance_def lexer_simps split: list.splits)

lemma pos_funpow: "pos ((advance ^^ n) s) = pos s + min n (length (rest s))"
  by (induction n) (auto simp: pos_advance rest_funpow min_def)

lemma slice_reach:
  assumes "reach s s'"
  shows "slice s s' = take (length (rest s) - length (rest s')) (rest s)"
proof -
  from assms obtain n where n: "s' = (advance ^^ n) s" by (auto simp: reach_def)
  have "pos s' - pos s = length (rest s) - length (rest s')"
    by (simp add: n pos_funpow rest_funpow min_def)
  then show ?thesis by (simp add: slice_def reach_chars[OF assms] rest_def)
qed

lemma slice_append:
  assumes "reach s s'" and "rest s = w @ rest s'"
  shows "slice s s' = w"
  using slice_reach[OF assms(1)] assms(2) by simp

lemma rest_read_ident_loop:
  "rest (read_ident_loop U s) = dropWhile (is_ident_continue U) (rest s)"
proof (induction U s rule: read_ident_loop.induct)
  case (1 U s)
  then show ?case
    by (subst read_ident_loop.simps) (auto simp: lexer_simps split: list.splits)
qed

lemma read_ident_eq:
  "fst (read_ident U s) = takeWhile (is_ident_continue U) (rest s)"
  "rest (snd (read_ident U s)) = dropWhile (is_ident_continue U) (rest s)"
proof -
  show "rest (snd (read_ident U s)) = dropWhile (is_ident_continue U) (rest s)"
    by (simp add: read_ident_def Let_def rest_read_ident_loop)
  have "slice s (read_ident_loop U s) = takeWhile (is_ident_continue U) (rest s)"
    by (rule slice_append[OF reach_read_ident_loop]) (simp add: rest_read_ident_loop)
  then show "fst (read_ident U s) = takeWhile (is_ident_continue U) (rest s)"
    by (simp add: read_ident_def Let_def)
qed

lemma line_comment_loop_rest:
  "rest (line_comment_loop s) = dropWhile (\<lambda>c. c \<noteq> 10) (rest s)"
proof (induction s rule: line_comment_loop.induct)
  case (1 s)
  then show ?case
    by (subst line_comment_loop.simps) (auto simp: lexer_simps split: list.splits)
qed

text \<open>Numbers: the digits, then a dot not followed by a dot, then digits.\<close>

lemma read_number_loop_digits:
  "rest s = ds @ r \<Longrightarrow> list_all is_ascii_digit ds \<Longrightarrow>
   (\<And>c r'. r = c # r' \<Longrightarrow> \<not> is_ascii_digit c \<and> (c \<noteq> uc CHR ''.'' \<or> d)) \<Longrightarrow>
   fst (read_number_loop d s) = d \<and> rest (snd (read_number_loop d s)) = r"
proof (induction ds arbitrary: s)
  case Nil
  then show ?case
    by (subst read_number_loop.simps, subst (2) read_number_loop.simps)
      (auto simp: lexer_simps split: list.splits)
next
  case (Cons a ds)
  have "current s = Some a" and a: "is_ascii_digit a" and "rest (advance s) = ds @ r"
    using Cons.prems by (auto simp: lexer_simps)
  then show ?case
    using Cons.IH[of "advance s"] Cons.prems by (simp add: read_number_loop.simps[of d s])
qed

subsection \<open>Positions\<close>

definition line_at :: "ustr \<Rightarrow> nat" where
  "line_at p = 1 + count_list p 10"

definition column_at :: "ustr \<Rightarrow> nat" where
  "column_at p = 1 + length (takeWhile (\<lambda>c. c \<noteq> 10) (rev p))"

definition located :: "lexer \<Rightarrow> bool" where
  "located s = (pos s \<le> length (chars s) \<and> line s = line_at (take (pos s) (chars s)) \<and>
     column s = column_at (take (pos s) (chars s)))"

lemma located_new: "located (new_lexer src)"
  by (simp add: located_def new_lexer_def line_at_def column_at_def)

lemma located_advance: "located s \<Longrightarrow> located (advance s)"
  by (auto simp: located_def advance_def current_def line_at_def column_at_def
      take_Suc_conv_app_nth)

lemma located_reach: "reach s s' \<Longrightarrow> located s \<Longrightarrow> located s'"
  by (erule reach_invariant) (auto intro: located_advance)

text \<open>A token is recorded at the line and column of an offset of the source.\<close>

definition token_at :: "ustr \<Rightarrow> Token \<Rightarrow> nat \<Rightarrow> bool" where
  "token_at src tok n = (n \<le> length src \<and> tline tok = line_at (take n src) \<and>
     tcolumn tok = column_at (take n src))"

lemma pos_mono_reach: "reach s s' \<Longrightarrow> pos s \<le> pos s'"
  by (erule reach_invariant[where P = "\<lambda>t. pos s \<le> pos t"]) (simp_all add: pos_advance)

lemma pos_less_advance: "current s = Some c \<Longrightarrow> pos s < pos (advance s)"
  by (auto simp: pos_advance lexer_simps split: list.splits)

lemma lex_at_line_column:
  assumes "lex_at U s = (Inr tok, s')"
  shows "tline tok = line s" and "tcolumn tok = column s"
  using assms
  by (auto simp: lex_at_def Let_def split_beta split: option.splits if_splits sum.splits)

lemma keyword_type_not_Eof: "keyword_type w \<noteq> Eof"
proof -
  have "t \<noteq> Eof" if "map_of build_keywords w = Some t" for t
    using map_of_SomeD[OF that] by (auto simp: build_keywords_def)
  then show ?thesis by (auto simp: keyword_type_def split: option.split)
qed

lemma double_map_not_Eof: "map_of double_map w = Some t \<Longrightarrow> t \<noteq> Eof"
  by (drule map_of_SomeD) (auto simp: double_map_def)

lemma single_map_not_Eof: "map_of single_map c = Some t \<Longrightarrow> t \<noteq> Eof"
  by (drule map_of_SomeD) (auto simp: single_map_def)

lemma read_number_not_Eof: "fst (fst (read_number s)) \<noteq> Eof"
  by (simp add: read_number_def Let_def split_beta)

lemma lex_at_Eof_iff:
  assumes "lex_at U s = (Inr tok, s')"
  shows "token_type tok = Eof \<longleftrightarrow> current s = None"
  using assms keyword_type_not_Eof read_number_not_Eof[of s]
  by (auto simp: lex_at_def Let_def split_beta split: option.splits if_splits sum.splits
      dest: double_map_not_Eof single_map_not_Eof)

lemma read_string_loop_error:
  "read_string_loop q p s = (Inl e, s') \<Longrightarrow> e = unterminated s' \<and> current s' = None"
proof (induction q p s rule: read_string_loop.induct)
  case (1 q p s)
  show ?case
  proof (cases "current s")
    case (Some c)
    with 1 show ?thesis
      by (simp add: read_string_loop.simps[of q p s] Let_def split: if_splits)
  qed (use 1 in \<open>auto simp: read_string_loop.simps[of q p s]\<close>)
qed

lemma lex_at_error:
  assumes "lex_at U s = (Inl e, s')"
  shows "e = unterminated s' \<and> current s' = None"
proof -
  from assms obtain c where "read_string c s = (Inl e, s')"
    by (auto simp: lex_at_def Let_def split_beta prod_eq_iff
        split: option.splits if_splits sum.splits)
  then show ?thesis unfolding read_string_def by (rule read_string_loop_error)
qed

lemma current_None_pos: "located s \<Longrightarrow> current s = None \<longleftrightarrow> pos s = length (chars s)"
  by (auto simp: located_def current_def)

text \<open>What a run of the token loop returns, with the offsets of the tokens.\<close>

definition stream_from :: "ustr \<Rightarrow> nat \<Rightarrow> Token list \<Rightarrow> nat list \<Rightarrow> bool" where
  "stream_from src p toks ns =
     (list_all2 (token_at src) toks ns \<and> sorted_wrt (<) ns \<and> (\<forall>n \<in> set ns. p \<le> n) \<and>
      (\<exists>body eof. toks = body @ [eof] \<and> token_type eof = Eof \<and>
        (\<forall>t \<in> set body. token_type t \<noteq> Eof)) \<and> last ns = length src)"

lemma stream_from_single:
  "token_at src tok (length src) \<Longrightarrow> token_type tok = Eof \<Longrightarrow> p \<le> length src \<Longrightarrow>
   stream_from src p [tok] [length src]"
  by (auto simp: stream_from_def)

lemma stream_from_Cons:
  assumes "stream_from src q toks ns" and "token_at src tok n" and "token_type tok \<noteq> Eof"
    and "p \<le> n" and "n < q"
  shows "stream_from src p (tok # toks) (n # ns)"
proof -
  from assms(1) obtain body eof where "toks = body @ [eof]" "token_type eof = Eof"
    "\<forall>t \<in> set body. token_type t \<noteq> Eof" by (auto simp: stream_from_def)
  then have "\<exists>body' eof'. tok # toks = body' @ [eof'] \<and> token_type eof' = Eof \<and>
      (\<forall>t \<in> set body'. token_type t \<noteq> Eof)"
    using assms(3) by (intro exI[of _ "tok # body"] exI[of _ eof]) simp
  moreover have "ns \<noteq> []" using assms(1) by (auto simp: stream_from_def)
  moreover have "p \<le> m" if "m \<in> set ns" for m
    using assms that by (fastforce simp: stream_from_def)
  ultimately show ?thesis using assms by (force simp: stream_from_def)
qed

lemma next_token_located:
  assumes "next_token U s = (Inr tok, s')" and "located s"
  obtains n where "token_at (chars s) tok n" and "pos s \<le> n"
    and "token_type tok = Eof \<longleftrightarrow> n = length (chars s)"
    and "token_type tok \<noteq> Eof \<Longrightarrow> n < pos s'"
proof
  let ?t = "skip_whitespace s"
  have lex: "lex_at U ?t = (Inr tok, s')" using assms(1) by (simp add: next_token_def)
  have t: "located ?t" "chars ?t = chars s"
    using located_reach[OF reach_skip_whitespace assms(2)] reach_chars[OF reach_skip_whitespace]
    by auto
  show "token_at (chars s) tok (pos ?t)"
    using lex_at_line_column[OF lex] t by (simp add: token_at_def located_def)
  show "pos s \<le> pos ?t" by (rule pos_mono_reach[OF reach_skip_whitespace])
  show eof: "token_type tok = Eof \<longleftrightarrow> pos ?t = length (chars s)"
    using lex_at_Eof_iff[OF lex] current_None_pos[OF t(1)] t(2) by simp
  assume "token_type tok \<noteq> Eof"
  then obtain c where c: "current ?t = Some c" using lex_at_Eof_iff[OF lex] by auto
  show "pos ?t < pos s'"
    using pos_less_advance[OF c] pos_mono_reach[OF lex_at_advances[OF c, of U]] lex by simp
qed

lemma tokenize_loop_stream:
  "located s \<longrightarrow>
     (case tokenize_loop U ts s of
        (Inl e, s') \<Rightarrow> located s' \<and> e = unterminated s' \<and> chars s' = chars s \<and>
          pos s' = length (chars s)
      | (Inr out, s') \<Rightarrow> \<exists>new ns. out = ts @ new \<and> stream_from (chars s) (pos s) new ns)"
proof (induction ts s rule: tokenize_loop_induct[where U = U])
  case (error ts s e s')
  have "reach s s'" using reach_next_token[of s U] error by simp
  moreover have "e = unterminated s' \<and> current s' = None"
    using error by (intro lex_at_error) (simp add: next_token_def)
  ultimately show ?case using located_reach current_None_pos reach_chars by fastforce
next
  case (eof ts s tok s')
  show ?case
  proof
    assume "located s"
    then obtain n where "token_at (chars s) tok n" "pos s \<le> n" "n = length (chars s)"
      using next_token_located[OF eof(1)] eof(2) by metis
    then show "case (Inr (ts @ [tok]), s') of
        (Inl e, s') \<Rightarrow> located s' \<and> e = unterminated s' \<and> chars s' = chars s \<and>
          pos s' = length (chars s)
      | (Inr out, s') \<Rightarrow> \<exists>new ns. out = ts @ new \<and> stream_from (chars s) (pos s) new ns"
      using eof(2) stream_from_single by fastforce
  qed
next
  case (step ts s tok s' r)
  have reach: "reach s s'" using reach_next_token[of s U] step(1) by simp
  show ?case
  proof
    assume loc: "located s"
    obtain n where n: "token_at (chars s) tok n" "pos s \<le> n" "n < pos s'"
      using next_token_located[OF step(1) loc] step(2) by metis
    show "case r of
        (Inl e, s') \<Rightarrow> located s' \<and> e = unterminated s' \<and> chars s' = chars s \<and>
          pos s' = length (chars s)
      | (Inr out, s') \<Rightarrow> \<exists>new ns. out = ts @ new \<and> stream_from (chars s) (pos s) new ns"
      using step(3) located_reach[OF reach loc] reach_chars[OF reach]
        stream_from_Cons[OF _ n(1) step(2) n(2,3)]
      by (fastforce split: prod.splits sum.splits)
  qed
qed


subsection \<open>Reading back printed tokens\<close>

text \<open>
  \<open>render\<close> prints a token: its value, or for the two kinds of quoted literal the value between
  quotes with the escapes of \<open>read_string\<close>. \<open>readable\<close> says which pairs of a type and a value
  are tokens the lexer can produce from their printed form.
\<close>

definition escape_char :: "uchar \<Rightarrow> uchar \<Rightarrow> ustr" where
  "escape_char q c =
     (if c = 92 \<or> c = q then [92, c] else if c = 10 then [92, uc CHR ''n'']
      else if c = 9 then [92, uc CHR ''t''] else [c])"

definition escape :: "uchar \<Rightarrow> ustr \<Rightarrow> ustr" where
  "escape q v = concat (map (escape_char q) v)"

definition render :: "TokenType \<Rightarrow> ustr \<Rightarrow> ustr" where
  "render tt v =
     (if tt = StringLiteral then 34 # escape 34 v @ [34]
      else if tt = CharLiteral then 39 # escape 39 v @ [39] else v)"

definition readable_ident :: "unicode \<Rightarrow> ustr \<Rightarrow> bool" where
  "readable_ident U v = (v \<noteq> [] \<and> is_ident_start U (hd v) \<and> list_all (is_ident_continue U) v)"

definition readable_float :: "ustr \<Rightarrow> bool" where
  "readable_float v =
     (let a = takeWhile is_ascii_digit v; b = dropWhile is_ascii_digit v
      in a \<noteq> [] \<and> b \<noteq> [] \<and> hd b = uc CHR ''.'' \<and> list_all is_ascii_digit (tl b))"

definition readable_attribute :: "ustr \<Rightarrow> bool" where
  "readable_attribute v =
     (let w = drop 2 v in take 2 v = lit ''#['' \<and> w \<noteq> [] \<and> last w = uc CHR '']'' \<and>
        uc CHR '']'' \<notin> set (butlast w))"

definition readable :: "unicode \<Rightarrow> TokenType \<Rightarrow> ustr \<Rightarrow> bool" where
  "readable U tt v =
     (readable_ident U v \<and> tt = keyword_type v \<or>
      i64_parse_ok v \<and> tt = IntLiteral \<or> readable_float v \<and> tt = FloatLiteral \<or>
      tt = StringLiteral \<or> tt = CharLiteral \<or> readable_attribute v \<and> tt = Attribute \<or>
      map_of double_map v = Some tt \<or> (length v = 1 \<and> map_of single_map (hd v) = Some tt))"

definition print_tokens :: "(TokenType \<times> ustr) list \<Rightarrow> ustr" where
  "print_tokens ts = concat (map (\<lambda>(tt, v). 32 # render tt v) ts) @ [32]"

lemma rest_Cons_current: "rest s = c # r \<Longrightarrow> current s = Some c"
  by (simp add: lexer_simps)

lemma skip_whitespace_stop:
  assumes "rest s = c # d # r" and "c \<notin> {32, 9, 13, 10}"
    and "c = uc CHR ''/'' \<Longrightarrow> d \<noteq> uc CHR ''/'' \<and> d \<noteq> uc CHR ''*''"
  shows "skip_whitespace s = s"
  using assms by (subst skip_whitespace.simps) (auto simp: lexer_simps)

lemma skip_whitespace_space:
  "rest s = 32 # r \<Longrightarrow> skip_whitespace s = skip_whitespace (advance s)"
  by (subst skip_whitespace.simps) (simp add: lexer_simps)

lemma next_token_space: "rest s = 32 # r \<Longrightarrow> next_token U s = next_token U (advance s)"
  by (simp add: next_token_def skip_whitespace_space)

lemma space_not_ident [simp]: "\<not> is_ident_continue U 32"
  by (simp add: is_ident_continue_def is_alphanumeric_def is_alphabetic_def
      is_ascii_digit_def is_chinese_char_def)

lemma ident_start_not_ws:
  "is_ident_start U c \<Longrightarrow> c \<notin> {32, 9, 13, 10} \<and> c \<noteq> uc CHR ''/''"
  by (auto simp: is_ident_start_def is_alphabetic_def is_chinese_char_def split: if_splits)

lemma digit_not_ident_start: "is_ascii_digit c \<Longrightarrow> \<not> is_ident_start U c"
  by (auto simp: is_ident_start_def is_alphabetic_def is_chinese_char_def is_ascii_digit_def
      split: if_splits)

lemma digit_not_ws: "is_ascii_digit c \<Longrightarrow> c \<notin> {32, 9, 13, 10} \<and> c \<noteq> uc CHR ''/''"
  by (auto simp: is_ascii_digit_def)

lemma quote_class [simp]:
  "\<not> is_ident_start U 34" "\<not> is_ident_start U 39" "\<not> is_ident_start U 35"
  "\<not> is_ascii_digit 34" "\<not> is_ascii_digit 39" "\<not> is_ascii_digit 35" "\<not> is_ascii_digit 32"
  by (auto simp: is_ident_start_def is_alphabetic_def is_chinese_char_def is_ascii_digit_def)

text \<open>The reading of one printed token, kind by kind.\<close>

definition reads :: "unicode \<Rightarrow> lexer \<Rightarrow> TokenType \<Rightarrow> ustr \<Rightarrow> ustr \<Rightarrow> bool" where
  "reads U s tt v r =
     (\<exists>s'. next_token U s = (Inr (new_token tt v (line s) (column s)), s') \<and> rest s' = r)"

lemma reads_ident:
  assumes "readable_ident U v" and "rest s = v @ 32 # r"
  shows "reads U s (keyword_type v) v (32 # r)"
proof -
  obtain c w where v: "v = c # w" and c: "is_ident_start U c" and w: "list_all (is_ident_continue U) v"
    using assms(1) by (cases v) (auto simp: readable_ident_def)
  have take: "takeWhile (is_ident_continue U) (rest s) = v"
    "dropWhile (is_ident_continue U) (rest s) = 32 # r"
    using w by (simp_all add: assms(2) list_all_iff)
  obtain d r' where "rest s = c # d # r'"
    using assms(2) v by (cases w) auto
  then have "skip_whitespace s = s"
    using ident_start_not_ws[OF c] by (intro skip_whitespace_stop) auto
  moreover have "current s = Some c" using assms(2) v by (simp add: lexer_simps)
  ultimately show ?thesis
    using c take read_ident_eq[of U s]
    by (simp add: reads_def next_token_def lex_at_def Let_def split_beta)
qed

lemma reads_int:
  assumes "i64_parse_ok v" and "rest s = v @ 32 # r"
  shows "reads U s IntLiteral v (32 # r)"
proof -
  have ds: "list_all is_ascii_digit v" and "v \<noteq> []" using assms(1) by (auto simp: i64_parse_ok_def)
  then obtain c w where v: "v = c # w" and c: "is_ascii_digit c" by (cases v) auto
  have num: "fst (read_number_loop False s) = False" "rest (snd (read_number_loop False s)) = 32 # r"
    using read_number_loop_digits[OF assms(2) ds, of False] by (auto simp: is_ascii_digit_def)
  then have "slice s (snd (read_number_loop False s)) = v"
    by (intro slice_append reach_read_number_loop) (simp add: assms(2))
  then have rn: "read_number s = ((IntLiteral, v), snd (read_number_loop False s))"
    using num assms(1) by (simp add: read_number_def Let_def split_beta)
  obtain d r' where "rest s = c # d # r'" using assms(2) v by (cases w) auto
  then have "skip_whitespace s = s"
    using digit_not_ws[OF c] by (intro skip_whitespace_stop) auto
  moreover have "current s = Some c" using assms(2) v by (simp add: lexer_simps)
  ultimately show ?thesis
    using c digit_not_ident_start[OF c] num rn
    by (simp add: reads_def next_token_def lex_at_def Let_def)
qed


lemma read_number_loop_skip:
  "rest s = ds @ r \<Longrightarrow> list_all is_ascii_digit ds \<Longrightarrow>
   \<exists>t. read_number_loop d s = read_number_loop d t \<and> rest t = r"
proof (induction ds arbitrary: s)
  case (Cons a ds)
  have "current s = Some a" and a: "is_ascii_digit a" and "rest (advance s) = ds @ r"
    using Cons.prems by (auto simp: lexer_simps)
  then show ?case
    using Cons.IH[of "advance s"] Cons.prems by (simp add: read_number_loop.simps[of d s])
qed auto

lemma read_number_loop_float:
  assumes "rest s = a @ 46 # b @ 32 # r"
    and "list_all is_ascii_digit a" and "list_all is_ascii_digit b"
  shows "fst (read_number_loop False s) \<and> rest (snd (read_number_loop False s)) = 32 # r"
proof -
  obtain t where t: "read_number_loop False s = read_number_loop False t"
    "rest t = 46 # b @ 32 # r"
    using read_number_loop_skip[OF assms(1,2)] by blast
  have "peek t 1 \<noteq> Some 46"
    using assms(3) t(2) by (cases b) (auto simp: lexer_simps is_ascii_digit_def)
  then have "read_number_loop False t = read_number_loop True (advance t)"
    using t(2) by (subst read_number_loop.simps) (simp add: lexer_simps is_ascii_digit_def)
  moreover have "rest (advance t) = b @ 32 # r" using t(2) by (simp add: lexer_simps)
  ultimately show ?thesis
    using read_number_loop_digits[OF _ assms(3), of "advance t" "32 # r" True] t(1) by simp
qed

lemma f64_parse_ok_float:
  assumes "list_all is_ascii_digit a" and "a \<noteq> []" and "list_all is_ascii_digit b"
  shows "f64_parse_ok (a @ 46 # b)"
proof -
  have none: "count_list w 46 = 0" if "list_all is_ascii_digit w" for w
    using that by (induction w) (auto simp: is_ascii_digit_def)
  have "list_all (\<lambda>c. is_ascii_digit c \<or> c = 46) w" if "list_all is_ascii_digit w" for w
    using that by (simp add: list_all_iff)
  moreover have "list_ex is_ascii_digit a" using assms(1,2) by (cases a) auto
  ultimately show ?thesis using assms none by (simp add: f64_parse_ok_def)
qed

lemma reads_float:
  assumes "readable_float v" and "rest s = v @ 32 # r"
  shows "reads U s FloatLiteral v (32 # r)"
proof -
  define a where "a = takeWhile is_ascii_digit v"
  define b where "b = tl (dropWhile is_ascii_digit v)"
  have "dropWhile is_ascii_digit v = 46 # b" and "a \<noteq> []" and b: "list_all is_ascii_digit b"
    using assms(1) by (auto simp: readable_float_def Let_def a_def b_def neq_Nil_conv)
  then have v: "v = a @ 46 # b" unfolding a_def by (metis takeWhile_dropWhile_id)
  have a: "list_all is_ascii_digit a" by (auto simp: a_def list_all_iff dest: set_takeWhileD)
  obtain c w where ca: "a = c # w" using \<open>a \<noteq> []\<close> by (cases a) auto
  then have c: "is_ascii_digit c" using a by simp
  have num: "fst (read_number_loop False s)" "rest (snd (read_number_loop False s)) = 32 # r"
    using read_number_loop_float[of s a b r] assms(2) a b v by simp_all
  then have "slice s (snd (read_number_loop False s)) = v"
    by (intro slice_append reach_read_number_loop) (simp add: assms(2))
  then have rn: "read_number s = ((FloatLiteral, v), snd (read_number_loop False s))"
    using num f64_parse_ok_float[OF a \<open>a \<noteq> []\<close> b] v
    by (simp add: read_number_def Let_def split_beta)
  obtain d r' where "rest s = c # d # r'" using assms(2) v ca by (cases w) auto
  then have "skip_whitespace s = s"
    using digit_not_ws[OF c] by (intro skip_whitespace_stop) auto
  moreover have "current s = Some c" using assms(2) v ca by (simp add: lexer_simps)
  ultimately show ?thesis
    using c digit_not_ident_start[OF c] num rn
    by (simp add: reads_def next_token_def lex_at_def Let_def)
qed

lemma read_string_loop_escape:
  assumes "q = 34 \<or> q = 39"
  shows "rest s = escape q v @ q # r \<Longrightarrow>
    fst (read_string_loop q p s) = Inr (p @ v) \<and> rest (snd (read_string_loop q p s)) = r"
proof (induction v arbitrary: s p)
  case Nil
  then show ?case using assms
    by (subst read_string_loop.simps, subst (2) read_string_loop.simps)
      (auto simp: escape_def lexer_simps)
next
  case (Cons c v)
  show ?case
  proof (cases "escape_char q c = [c]")
    case True
    then have c: "c \<noteq> 92 \<and> c \<noteq> q" by (auto simp: escape_char_def split: if_splits)
    have "rest s = c # escape q v @ q # r" using Cons.prems True by (simp add: escape_def)
    then have "current s = Some c" "rest (advance s) = escape q v @ q # r"
      by (simp_all add: lexer_simps)
    with c Cons.IH[of "advance s" "p @ [c]"] show ?thesis
      by (simp add: read_string_loop.simps[of q p s])
  next
    case False
    then obtain e where e: "escape_char q c = [92, e]" "escape_replacement e = c"
      using assms by (auto simp: escape_char_def escape_replacement_def split: if_splits)
    then have "rest s = 92 # e # escape q v @ q # r" using Cons.prems by (simp add: escape_def)
    then have "current s = Some 92" "current (advance s) = Some e"
      "rest (advance (advance s)) = escape q v @ q # r"
      by (simp_all add: lexer_simps)
    with e(2) Cons.IH[of "advance (advance s)" "p @ [c]"] show ?thesis
      by (simp add: read_string_loop.simps[of q p s] Let_def)
  qed
qed

lemma reads_string:
  assumes "q = 34 \<or> q = 39" and "rest s = q # escape q v @ q # 32 # r"
  shows "reads U s (if q = 34 then StringLiteral else CharLiteral) v (32 # r)"
proof -
  have "rest (advance s) = escape q v @ q # 32 # r" using assms(2) by (simp add: lexer_simps)
  note str = read_string_loop_escape[OF assms(1) this, of "[]"]
  obtain d r' where "rest s = q # d # r'" using assms(2) by (cases "escape q v") auto
  then have "skip_whitespace s = s"
    using assms(1) by (intro skip_whitespace_stop) auto
  moreover have "current s = Some q" using assms(2) by (simp add: lexer_simps)
  ultimately show ?thesis
    using assms(1) str
    by (auto simp: reads_def next_token_def lex_at_def read_string_def split_beta)
qed

lemma attribute_loop_rest:
  "rest s = w @ 93 # r \<Longrightarrow> 93 \<notin> set w \<Longrightarrow>
   fst (attribute_loop a s) = a @ w @ [93] \<and> rest (snd (attribute_loop a s)) = r"
proof (induction w arbitrary: a s)
  case Nil
  then show ?case
    by (subst attribute_loop.simps, subst (2) attribute_loop.simps) (simp add: lexer_simps)
next
  case (Cons c w)
  then have "current s = Some c" "rest (advance s) = w @ 93 # r" by (simp_all add: lexer_simps)
  with Cons.IH[of "advance s" "a @ [c]"] Cons.prems(2) show ?case
    by (simp add: attribute_loop.simps[of a s])
qed

lemma reads_attribute:
  assumes "readable_attribute v" and "rest s = v @ 32 # r"
  shows "reads U s Attribute v (32 # r)"
proof -
  define w where "w = butlast (drop 2 v)"
  have "drop 2 v = w @ [93]" and w: "93 \<notin> set w"
    using assms(1) append_butlast_last_id[of "drop 2 v"]
    by (auto simp: readable_attribute_def Let_def w_def)
  then have v: "v = 35 # 91 # w @ [93]"
    using assms(1) append_take_drop_id[of 2 v]
    by (simp add: readable_attribute_def Let_def lit_def)
  have rest: "rest s = 35 # 91 # w @ 93 # 32 # r" using assms(2) v by simp
  then have "rest (advance (advance s)) = w @ 93 # 32 # r" by (simp add: lexer_simps)
  note attr = attribute_loop_rest[OF this w, of "lit ''#[''"]
  have "skip_whitespace s = s" using rest by (intro skip_whitespace_stop) auto
  moreover have "current s = Some 35" "peek s 1 = Some 91"
    using rest by (simp_all add: lexer_simps)
  ultimately show ?thesis
    using attr v
    by (simp add: reads_def next_token_def lex_at_def Let_def split_beta lit_def)
qed


lemma double_map_spelling:
  assumes "map_of double_map v = Some tt"
  shows "v = [hd v, v ! 1] \<and> hd v \<notin> {32, 9, 13, 10, 34, 39, 35} \<and> (hd v = 47 \<longrightarrow> v ! 1 = 61) \<and>
    \<not> is_ident_start U (hd v) \<and> \<not> is_ascii_digit (hd v)"
  using map_of_SomeD[OF assms]
  by (auto simp: double_map_def lit_def is_ident_start_def is_alphabetic_def
      is_chinese_char_def is_ascii_digit_def)

lemma single_map_spelling:
  assumes "map_of single_map c = Some tt"
  shows "map_of double_map [c, 32] = None \<and> c \<notin> {32, 9, 13, 10, 34, 39, 35} \<and>
    \<not> is_ident_start U c \<and> \<not> is_ascii_digit c"
  using map_of_SomeD[OF assms]
  by (auto simp: single_map_def double_map_def lit_def is_ident_start_def is_alphabetic_def
      is_chinese_char_def is_ascii_digit_def)

lemma reads_double:
  assumes "map_of double_map v = Some tt" and "rest s = v @ 32 # r"
  shows "reads U s tt v (32 # r)"
proof -
  obtain a b where v: "v = [a, b]" and a: "a \<notin> {32, 9, 13, 10, 34, 39, 35}" "a = 47 \<longrightarrow> b = 61"
    "\<not> is_ident_start U a" "\<not> is_ascii_digit a"
    using double_map_spelling[OF assms(1), of U] by blast
  have rest: "rest s = a # b # 32 # r" using assms(2) v by simp
  then have "skip_whitespace s = s" using a by (intro skip_whitespace_stop) auto
  moreover have "current s = Some a" "two_char s a = v" "rest (advance (advance s)) = 32 # r"
    using rest v by (simp_all add: lexer_simps two_char_def)
  ultimately show ?thesis
    using a assms(1) by (simp add: reads_def next_token_def lex_at_def)
qed

lemma reads_single:
  assumes "map_of single_map c = Some tt" and "rest s = c # 32 # r"
  shows "reads U s tt [c] (32 # r)"
proof -
  note c = single_map_spelling[OF assms(1), of U]
  have "skip_whitespace s = s" using c assms(2) by (intro skip_whitespace_stop) auto
  moreover have "current s = Some c" "two_char s c = [c, 32]" "rest (advance s) = 32 # r"
    using assms(2) by (simp_all add: lexer_simps two_char_def)
  ultimately show ?thesis
    using c assms(1) by (simp add: reads_def next_token_def lex_at_def)
qed

lemma render_plain:
  "tt \<noteq> StringLiteral \<Longrightarrow> tt \<noteq> CharLiteral \<Longrightarrow> render tt v = v"
  by (simp add: render_def)

lemma keyword_type_not_quoted:
  "keyword_type v \<noteq> StringLiteral \<and> keyword_type v \<noteq> CharLiteral"
proof -
  have "t \<noteq> StringLiteral \<and> t \<noteq> CharLiteral" if "map_of build_keywords v = Some t" for t
    using map_of_SomeD[OF that] by (auto simp: build_keywords_def)
  then show ?thesis by (auto simp: keyword_type_def split: option.split)
qed

lemma operators_not_quoted:
  "map_of double_map v = Some tt \<Longrightarrow> tt \<noteq> StringLiteral \<and> tt \<noteq> CharLiteral"
  "map_of single_map c = Some tt \<Longrightarrow> tt \<noteq> StringLiteral \<and> tt \<noteq> CharLiteral"
proof -
  show "tt \<noteq> StringLiteral \<and> tt \<noteq> CharLiteral" if "map_of double_map v = Some tt"
    using map_of_SomeD[OF that] by (auto simp: double_map_def)
  show "tt \<noteq> StringLiteral \<and> tt \<noteq> CharLiteral" if "map_of single_map c = Some tt"
    using map_of_SomeD[OF that] by (auto simp: single_map_def)
qed

lemma reads_readable:
  assumes "readable U tt v" and "rest s = render tt v @ 32 # r"
  shows "reads U s tt v (32 # r)"
proof -
  consider (quoted) "tt = StringLiteral \<or> tt = CharLiteral"
    | (ident) "readable_ident U v" "tt = keyword_type v"
    | (int) "i64_parse_ok v" "tt = IntLiteral"
    | (float) "readable_float v" "tt = FloatLiteral"
    | (attribute) "readable_attribute v" "tt = Attribute"
    | (double) "map_of double_map v = Some tt"
    | (single) "length v = 1" "map_of single_map (hd v) = Some tt"
    using assms(1) by (auto simp: readable_def)
  then show ?thesis
  proof cases
    case quoted
    then show ?thesis
      using reads_string[of 34 s v r U] reads_string[of 39 s v r U] assms(2)
      by (auto simp: render_def)
  next
    case ident
    then show ?thesis
      using reads_ident assms(2) keyword_type_not_quoted[of v] by (simp add: render_plain)
  next
    case int
    then show ?thesis using reads_int assms(2) by (simp add: render_plain)
  next
    case float
    then show ?thesis using reads_float assms(2) by (simp add: render_plain)
  next
    case attribute
    then show ?thesis using reads_attribute assms(2) by (simp add: render_plain)
  next
    case double
    then show ?thesis
      using reads_double assms(2) operators_not_quoted(1)[OF double] by (simp add: render_plain)
  next
    case single
    then obtain c where "v = [c]" by (cases v) auto
    with single show ?thesis
      using reads_single[of c tt s r U] assms(2) operators_not_quoted(2)[OF single(2)]
      by (simp add: render_plain)
  qed
qed

lemma readable_not_Eof: "readable U tt v \<Longrightarrow> tt \<noteq> Eof"
  using keyword_type_not_Eof[of v] double_map_not_Eof[of v tt] single_map_not_Eof[of "hd v" tt]
  by (auto simp: readable_def)

lemma tokenize_loop_printed:
  assumes "rest s = print_tokens ts" and "\<forall>(tt, v) \<in> set ts. readable U tt v"
  shows "\<exists>new s'. tokenize_loop U acc s = (Inr (acc @ new), s') \<and>
    map (\<lambda>t. (token_type t, tvalue t)) new = ts @ [(Eof, [])]"
  using assms
proof (induction ts arbitrary: s acc)
  case Nil
  then have sp: "rest s = 32 # []" by (simp add: print_tokens_def)
  then have "current (advance s) = None" by (simp add: lexer_simps)
  moreover from this have "skip_whitespace (advance s) = advance s"
    by (subst skip_whitespace.simps) simp
  ultimately have "next_token U (advance s) =
      (Inr (new_token Eof [] (line (advance s)) (column (advance s))), advance s)"
    by (simp add: next_token_def lex_at_eof)
  then show ?case by (simp add: tokenize_loop_eof next_token_space[OF sp])
next
  case (Cons p ts)
  obtain tt v where p: "p = (tt, v)" by force
  have sp: "rest s = 32 # render tt v @ print_tokens ts"
    using Cons.prems(1) p by (simp add: print_tokens_def)
  obtain r where r: "print_tokens ts = 32 # r"
    by (cases ts) (auto simp: print_tokens_def)
  have "rest (advance s) = render tt v @ 32 # r" using sp r by (simp add: lexer_simps)
  then have "reads U (advance s) tt v (32 # r)"
    using Cons.prems(2) p by (intro reads_readable) auto
  then obtain tok s' where tok: "next_token U s = (Inr tok, s')" "token_type tok = tt"
    "tvalue tok = v" "rest s' = print_tokens ts"
    unfolding reads_def next_token_space[OF sp] using r by auto
  moreover have "tt \<noteq> Eof" using readable_not_Eof[of U tt v] Cons.prems(2) p by auto
  ultimately show ?case
    using Cons.IH[OF tok(4), of "acc @ [tok]"] Cons.prems(2) p
    by (auto simp: tokenize_loop_step[OF tok(1)])
qed


subsection \<open>Properties\<close>

definition no_tables :: unicode where
  "no_tables = \<lparr>wide_alphabetic = (\<lambda>_. False), wide_numeric = (\<lambda>_. False)\<rparr>"

text \<open>
  Tokenizing any source returns. Either the result is the one error of the lexer, an
  unterminated string reported at the line and column of the end of the source; or it is a
  stream of tokens that ends with the only Eof token, placed at the end of the source, and every
  token carries the line and column of the offset where it starts, the offsets increasing.
\<close>
theorem tokenize_stream:
  "case fst (tokenize U (new_lexer src)) of
     Inl e \<Rightarrow> message e = lit ''Unterminated string'' \<and> eline e = line_at src \<and>
       ecolumn e = column_at src
   | Inr toks \<Rightarrow> \<exists>ns. list_all2 (token_at src) toks ns \<and> sorted_wrt (<) ns \<and>
       last ns = length src \<and>
       (\<exists>body eof. toks = body @ [eof] \<and> token_type eof = Eof \<and>
          Eof \<notin> token_type ` set body)"
proof -
  have init: "located (new_lexer src)" "chars (new_lexer src) = src"
    by (rule located_new) (simp add: new_lexer_def)
  obtain x s' where run: "tokenize_loop U [] (new_lexer src) = (x, s')" by force
  show ?thesis
  proof (cases x)
    case (Inl e)
    with tokenize_loop_stream[where s = "new_lexer src" and U = U and ts = "[]"] init run
    have "located s'" "e = unterminated s'" "chars s' = src" "pos s' = length src" by auto
    with Inl run show ?thesis by (simp add: tokenize_def unterminated_def located_def)
  next
    case (Inr toks)
    with tokenize_loop_stream[where s = "new_lexer src" and U = U and ts = "[]"] init run
    obtain ns where "stream_from src (pos (new_lexer src)) toks ns" by auto
    with Inr run show ?thesis by (fastforce simp: tokenize_def stream_from_def)
  qed
qed

text \<open>
  C6: Printing and reading back. For every list of readable tokens (identifiers and keywords,
  integer and float literals, quoted strings and characters with their escapes, attributes, and
  all operators), lexing the printed tokens returns exactly these types and values, then Eof. Where
  the tokens stand is not part of the statement.
\<close>
theorem tokenize_printed:
  assumes "\<forall>(tt, v) \<in> set ts. readable U tt v"
  shows "\<exists>toks s'. tokenize U (new_lexer (print_tokens ts)) = (Inr toks, s') \<and>
    map (\<lambda>t. (token_type t, tvalue t)) toks = ts @ [(Eof, [])]"
proof -
  have "rest (new_lexer (print_tokens ts)) = print_tokens ts"
    by (simp add: rest_def new_lexer_def)
  from tokenize_loop_printed[OF this assms, of "[]"] show ?thesis by (simp add: tokenize_def)
qed

theorem tokenize_printed_witness:
  "(\<exists>toks s'. tokenize no_tables (new_lexer (print_tokens
      [(KeywordLet, lit ''let''), (IdentTok, [21517, 23383]), (Equal, lit ''=''),
       (StringLiteral, [34, 92, 10])])) = (Inr toks, s') \<and>
    map (\<lambda>t. (token_type t, tvalue t)) toks =
      [(KeywordLet, lit ''let''), (IdentTok, [21517, 23383]), (Equal, lit ''=''),
       (StringLiteral, [34, 92, 10])] @ [(Eof, [])])"
proof -
  have h: "\<forall>(tt, v) \<in> set [(KeywordLet, lit ''let''), (IdentTok, [21517, 23383]),
      (Equal, lit ''=''), (StringLiteral, [34, 92, 10])]. readable no_tables tt v"
    by (simp add: readable_def readable_ident_def keyword_type_def build_keywords_def lit_def
        is_ident_start_def is_ident_continue_def is_alphanumeric_def is_alphabetic_def
        is_chinese_char_def single_map_def no_tables_def)
  show ?thesis using h tokenize_printed[OF h] by blast
qed

text \<open>
  An identifier is read to its longest extent: from a character that can start one, the next
  token is the longest run of identifier characters, typed by the keyword table, and the rest
  of the input is what follows that run.
\<close>
theorem lex_longest_identifier:
  assumes "rest s = c # r" and "is_ident_start U c"
  shows "\<exists>s'. lex_at U s =
      (Inr (new_token (keyword_type (takeWhile (is_ident_continue U) (c # r)))
        (takeWhile (is_ident_continue U) (c # r)) (line s) (column s)), s') \<and>
    rest s' = dropWhile (is_ident_continue U) (c # r)"
  using assms read_ident_eq[of U s]
  by (simp add: lex_at_def rest_Cons_current[OF assms(1)] Let_def split_beta)

theorem lex_longest_identifier_witness:
  "rest (new_lexer (lit ''lets=1'')) = uc CHR ''l'' # lit ''ets=1'' \<and>
   (\<exists>s'. lex_at no_tables (new_lexer (lit ''lets=1'')) =
      (Inr (new_token IdentTok (lit ''lets'') 1 1), s') \<and> rest s' = lit ''=1'')"
proof -
  have h1: "rest (new_lexer (lit ''lets=1'')) = uc CHR ''l'' # lit ''ets=1''"
    by (simp add: rest_def new_lexer_def lit_def)
  have h2: "is_ident_start no_tables (uc CHR ''l'')"
    by (simp add: is_ident_start_def is_alphabetic_def)
  show ?thesis
    using h1 lex_longest_identifier[OF h1 h2]
    by (simp add: new_lexer_def lit_def is_ident_continue_def is_alphanumeric_def
        is_alphabetic_def is_ascii_digit_def is_chinese_char_def keyword_type_def
        build_keywords_def)
qed

text \<open>
  A decimal literal too large for i64 is not an error: it becomes an identifier token whose
  name is the digits.
\<close>
theorem lex_oversized_integer:
  assumes "rest s = v @ 32 # r" and "v \<noteq> []" and "list_all is_ascii_digit v"
    and "2 ^ 63 \<le> digits_value v"
  shows "\<exists>s'. lex_at U s = (Inr (new_token IdentTok v (line s) (column s)), s') \<and> rest s' = 32 # r"
proof -
  obtain c w where v: "v = c # w" and c: "is_ascii_digit c" using assms(2,3) by (cases v) auto
  have num: "fst (read_number_loop False s) = False" "rest (snd (read_number_loop False s)) = 32 # r"
    using read_number_loop_digits[OF assms(1,3), of False] by (auto simp: is_ascii_digit_def)
  then have "slice s (snd (read_number_loop False s)) = v"
    by (intro slice_append reach_read_number_loop) (simp add: assms(1))
  then have "read_number s = ((IdentTok, v), snd (read_number_loop False s))"
    using num assms(4) by (simp add: read_number_def Let_def split_beta i64_parse_ok_def)
  moreover have "current s = Some c" using assms(1) v by (simp add: lexer_simps)
  ultimately show ?thesis
    using c digit_not_ident_start[OF c] num by (simp add: lex_at_def)
qed

theorem lex_oversized_integer_witness:
  "rest (new_lexer (lit ''9223372036854775808 '')) = lit ''9223372036854775808'' @ 32 # [] \<and>
   (\<exists>s'. lex_at no_tables (new_lexer (lit ''9223372036854775808 '')) =
      (Inr (new_token IdentTok (lit ''9223372036854775808'') 1 1), s') \<and> rest s' = 32 # [])"
proof -
  have h: "rest (new_lexer (lit ''9223372036854775808 '')) = lit ''9223372036854775808'' @ 32 # []"
    by (simp add: rest_def new_lexer_def lit_def)
  have "\<exists>s'. lex_at no_tables (new_lexer (lit ''9223372036854775808 '')) =
      (Inr (new_token IdentTok (lit ''9223372036854775808'') 1 1), s') \<and> rest s' = 32 # []"
    using lex_oversized_integer[OF h, of no_tables]
    by (simp add: new_lexer_def lit_def is_ascii_digit_def digits_value_def)
  with h show ?thesis by blast
qed


end
