(* ===== verification/LexerTiles.thy ===== *)
theory LexerTiles
  imports LexerCorrect
begin

section \<open>The token stream as a reading of the source\<close>

text \<open>
  What a token is, said of texts and not of the lexer: the white space and comments between tokens, the
  text of each kind of token with the type and value it stands for and what may follow it, and the
  reading of a whole text as such pieces, none left out. The lexer gives this reading.
\<close>

subsection \<open>White space and comments\<close>





subsection \<open>The texts of tokens\<close>









subsection \<open>The lexer skips gaps\<close>




subsection \<open>The lexer reads tokens\<close>







subsection \<open>The whole text\<close>




end
