(* ===== verification/Env.thy ===== *)
theory Env
  imports Ast Scope
begin

section \<open>The run-time environment (runtime/src/env.rs)\<close>

text \<open>
  The values of the interpreter and its scopes. A scope owns a copy of its parent, so an
  assignment through a child changes the copy only. The fields of a struct are an association
  list; its order stands for the iteration order of the hash map, which only printing shows.
\<close>

subsection \<open>Values\<close>

datatype (plugins only: size) 'f RValue =
    RInt i64
  | RFloat 'f
  | RString ustr
  | RBool bool
  | RChar uchar
  | RNone
  | RArray "'f RValue list"
  | ROption bool "'f RValue option"
  | RResult bool "'f RValue option" "'f RValue option"
  | RFunction "'f FnValue"
  | RStruct "(ustr \<times> 'f RValue) list"
  | REnumVariant ustr ustr
  | RTask ustr
  | RChannelSender nat
  | RChannelReceiver ustr
and (dead 'f) FnValue =
    FnValue (fv_name: ustr) (fv_params: "'f FnParam list") (fv_body: "'f Stmt list")
      (fv_closure: "'f Environment") (fv_return_type: "TypeRef option")
      (fv_effect: "ustr option") (fv_capability: "ustr option")
and (dead 'f) Environment =
    Environment (vars: "ustr \<rightharpoonup> 'f RValue") (parent: "'f Environment option")

definition dalin_type_key :: ustr where
  "dalin_type_key = lit ''__dalin_type__''"

subsection \<open>Scopes\<close>

definition rt_new :: "'f Environment" where
  "rt_new = Environment Map.empty None"

definition rt_child :: "'f Environment \<Rightarrow> 'f Environment" where
  "rt_child self = Environment Map.empty (Some self)"

definition rt_define :: "'f Environment \<Rightarrow> ustr \<Rightarrow> 'f RValue \<Rightarrow> 'f Environment" where
  "rt_define self name v = Environment ((vars self)(name \<mapsto> v)) (parent self)"

fun rt_lookup :: "'f Environment \<Rightarrow> ustr \<Rightarrow> 'f RValue option" where
  "rt_lookup (Environment m p) name =
     (case m name of
        Some v \<Rightarrow> Some v
      | None \<Rightarrow> (case p of Some q \<Rightarrow> rt_lookup q name | None \<Rightarrow> None))"

text \<open>\<open>None\<close> when no scope has the name (the source returns false).\<close>

fun rt_assign :: "'f Environment \<Rightarrow> ustr \<Rightarrow> 'f RValue \<Rightarrow> 'f Environment option" where
  "rt_assign (Environment m p) name v =
     (if m name \<noteq> None then Some (Environment (m(name \<mapsto> v)) p)
      else case p of
          None \<Rightarrow> None
        | Some q \<Rightarrow>
            (case rt_assign q name v of
               None \<Rightarrow> None
             | Some q' \<Rightarrow> Some (Environment m (Some q'))))"

lemma rt_lookup_define:
  "rt_lookup (rt_define e n v) m = (if m = n then Some v else rt_lookup e m)"
  by (cases e) (simp add: rt_define_def)

lemma rt_assign_none: "(rt_assign e n v = None) = (rt_lookup e n = None)"
proof (induction e n v rule: rt_assign.induct)
  case (1 m p n v)
  then show ?case by (cases p) (auto split: option.splits)
qed

lemma rt_assign_lookup:
  "rt_assign e n v = Some e' \<Longrightarrow>
   rt_lookup e' m = (if m = n then Some v else rt_lookup e m)"
proof (induction e n v arbitrary: e' rule: rt_assign.induct)
  case (1 k p n v)
  show ?case
  proof (cases "k n = None")
    case True
    then obtain q q' where "p = Some q" "rt_assign q n v = Some q'" "e' = Environment k (Some q')"
      using "1.prems" by (auto split: option.splits)
    with "1.IH" True show ?thesis by (auto split: option.split)
  next
    case False
    with "1.prems" show ?thesis by (auto split: option.splits)
  qed
qed

text \<open>
  The interface of scopes whose names can be assigned: an assignment succeeds exactly on a visible
  name, and is then seen by every lookup of that name and no other.
\<close>

locale assignable_env = scoped_env empty child define_in lookup
  for empty :: 'e and child :: "'e \<Rightarrow> 'e" and define_in :: "'e \<Rightarrow> ustr \<Rightarrow> 'v \<Rightarrow> 'e"
    and lookup :: "'e \<Rightarrow> ustr \<Rightarrow> 'v option" +
  fixes assign :: "'e \<Rightarrow> ustr \<Rightarrow> 'v \<Rightarrow> 'e option"
  assumes assign_none: "(assign e n v = None) = (lookup e n = None)"
    and assign_lookup: "assign e n v = Some e' \<Longrightarrow> lookup e' m = (if m = n then Some v else lookup e m)"
begin

lemma assign_after_define:
  "\<exists>e'. assign (define_in e n v) n w = Some e' \<and>
     (\<forall>m. lookup e' m = lookup (define_in e n w) m)"
proof -
  have "assign (define_in e n v) n w \<noteq> None" by (simp add: assign_none lookup_define)
  then obtain e' where e': "assign (define_in e n v) n w = Some e'" by blast
  then have "lookup e' m = lookup (define_in e n w) m" for m
    using assign_lookup[OF e'] by (simp add: lookup_define)
  with e' show ?thesis by blast
qed

text \<open>An assignment in a child reads like one in its parent, unless the child defines the name.\<close>

lemma assign_child:
  assumes "assign (child e) n v = Some e'"
  shows "\<exists>p. assign e n v = Some p \<and> (\<forall>m. lookup e' m = lookup p m)"
proof -
  have "lookup e n \<noteq> None" using assms assign_none[of "child e" n v] by (simp add: lookup_child)
  then obtain p where "assign e n v = Some p" using assign_none[of e n v] by auto
  with assms show ?thesis using assign_lookup by (metis lookup_child)
qed

end

interpretation rtenv: assignable_env rt_new rt_child rt_define rt_lookup rt_assign
proof
  show "rt_lookup rt_new n = None" for n by (simp add: rt_new_def)
  show "rt_lookup (rt_child e) n = rt_lookup e n" for e n
    by (simp add: rt_child_def split: option.split)
qed (rule rt_lookup_define rt_assign_none rt_assign_lookup, assumption?)+

end
