(* ===== verification/Interp.thy ===== *)
theory Interp
  imports Env "HOL-Library.AList"
begin

section \<open>The tree-walking interpreter (runtime/src/interpreter.rs)\<close>

text \<open>
  The interpreter walks the syntax tree with a mutable scope and the mutable fields of
  \<open>interp\<close>. A step is a function of both; it returns the outcome together with the scope and the
  state as the step leaves them, since the source keeps them after an error too (a while loop
  ignores the errors of its body). \<open>None\<close> is a step that has not returned: the evaluators take
  fuel, and \<open>fuel_mono\<close> shows that a result does not depend on it. The error that carries a
  return is the constructor \<open>RtReturn\<close>; no other message of the source is its text.

  Threads and channels are the standard library's and the scheduler's: \<open>threads\<close> holds the
  answers the other threads give, for any behaviour of theirs. This is the interpreter of one
  thread.
\<close>

subsection \<open>State and steps\<close>

datatype (plugins only: size) 'f rt_error =
    RtReturn
  | SpawnNotAnnotated ustr
  | SpawnNotFunction
  | AssertionFailed ustr
  | MatchFailure
  | MatchExprFailure
  | UndefinedVariable ustr
  | AssignUndefined ustr
  | InvalidArrayAssignment
  | InvalidAssignmentTarget
  | CannotApply ustr "'f RValue" "'f RValue"
  | CannotCompare "'f RValue" "'f RValue"
  | CannotNegate "'f RValue"
  | UnknownOperator ustr
  | UnknownUnary ustr
  | InvalidCall
  | NotCallable ustr
  | UndefinedFunction ustr
  | WrongArity ustr nat nat
  | BuiltinError ustr
  | UnknownTask ustr
  | UnknownChannel ustr
  | UnknownBuiltin ustr
  | NoField ustr ustr
  | CannotAccessMember ustr
  | IndexOutOfRange nat
  | InvalidIndex
  | PipeNotCallable ustr
  | RangeNotInt

record ('f, 'w) interp =
  global_env :: "'f Environment"
  structs :: "ustr \<rightharpoonup> ustr list"
  enums :: "(ustr \<times> ustr list) list"
  fn_defs :: "ustr \<rightharpoonup> 'f FnValue"
  return_value :: "'f RValue option"
  stdout :: ustr
  world :: 'w

definition interp_new :: "'w \<Rightarrow> ('f, 'w) interp" where
  "interp_new w = \<lparr>global_env = rt_new, structs = Map.empty, enums = [], fn_defs = Map.empty,
     return_value = None, stdout = [], world = w\<rparr>"

text \<open>
  \<open>t_spawn\<close> starts a function and gives the id of the task; \<open>t_await\<close> and \<open>t_recv\<close> give
  \<open>None\<close> when they block forever, and \<open>Some None\<close> for an unknown task or channel; \<open>t_send\<close>
  tells whether the channel is still open.
\<close>

record ('f, 'w) threads =
  t_spawn :: "'f FnValue \<Rightarrow> 'f RValue list \<Rightarrow> (ustr \<rightharpoonup> 'f FnValue) \<Rightarrow> 'w \<Rightarrow> ustr \<times> 'w"
  t_await :: "ustr \<Rightarrow> 'w \<Rightarrow> ('f RValue option \<times> 'w) option"
  t_channel :: "ustr \<Rightarrow> 'w \<Rightarrow> nat \<times> 'w"
  t_send :: "nat \<Rightarrow> 'f RValue \<Rightarrow> 'w \<Rightarrow> bool \<times> 'w"
  t_recv :: "ustr \<Rightarrow> 'w \<Rightarrow> ('f RValue option \<times> 'w) option"

type_synonym ('f, 'w, 'a) run =
  "'f Environment \<Rightarrow> ('f, 'w) interp \<Rightarrow>
   (('f rt_error, 'a) outcome \<times> 'f Environment \<times> ('f, 'w) interp) option"

definition ret :: "'a \<Rightarrow> ('f, 'w, 'a) run" where
  "ret x = (\<lambda>e s. Some (Ok x, e, s))"

definition fail :: "'f rt_error \<Rightarrow> ('f, 'w, 'a) run" where
  "fail r = (\<lambda>e s. Some (Err r, e, s))"

definition lift_out :: "('f rt_error, 'a) outcome \<Rightarrow> ('f, 'w, 'a) run" where
  "lift_out r = (\<lambda>e s. Some (r, e, s))"

definition bind_run ::
  "('f, 'w, 'a) run \<Rightarrow> ('a \<Rightarrow> ('f, 'w, 'b) run) \<Rightarrow> ('f, 'w, 'b) run" where
  "bind_run m f = (\<lambda>e s. case m e s of
       None \<Rightarrow> None
     | Some (Ok x, e', s') \<Rightarrow> f x e' s'
     | Some (Err r, e', s') \<Rightarrow> Some (Err r, e', s')
     | Some (Panic, e', s') \<Rightarrow> Some (Panic, e', s'))"

text \<open>The outcome of a step as a value: the error or the result. A panic is not caught.\<close>

definition attempt :: "('f, 'w, 'a) run \<Rightarrow> ('f, 'w, 'f rt_error + 'a) run" where
  "attempt m = (\<lambda>e s. case m e s of
       None \<Rightarrow> None
     | Some (Ok x, e', s') \<Rightarrow> Some (Ok (Inr x), e', s')
     | Some (Err r, e', s') \<Rightarrow> Some (Ok (Inl r), e', s')
     | Some (Panic, e', s') \<Rightarrow> Some (Panic, e', s'))"

text \<open>A step in another scope, which is dropped afterwards.\<close>

definition in_env :: "'f Environment \<Rightarrow> ('f, 'w, 'a) run \<Rightarrow> ('f, 'w, 'a) run" where
  "in_env e0 m = (\<lambda>e s. case m e0 s of
       None \<Rightarrow> None
     | Some (r, _, s') \<Rightarrow> Some (r, e, s'))"

definition with_env :: "('f Environment \<Rightarrow> ('f, 'w, 'a) run) \<Rightarrow> ('f, 'w, 'a) run" where
  "with_env f = (\<lambda>e s. f e e s)"

definition with_state :: "(('f, 'w) interp \<Rightarrow> ('f, 'w, 'a) run) \<Rightarrow> ('f, 'w, 'a) run" where
  "with_state f = (\<lambda>e s. f s e s)"

definition update_state :: "(('f, 'w) interp \<Rightarrow> ('f, 'w) interp) \<Rightarrow> ('f, 'w, unit) run" where
  "update_state f = (\<lambda>e s. Some (Ok (), e, f s))"

definition define_var :: "ustr \<Rightarrow> 'f RValue \<Rightarrow> ('f, 'w, unit) run" where
  "define_var name v = (\<lambda>e s. Some (Ok (), rt_define e name v, s))"

subsection \<open>Values\<close>

fun show_rvalue :: "'f plat \<Rightarrow> 'f RValue \<Rightarrow> ustr" where
  "show_rvalue P (RInt i) = show_int (sint i)"
| "show_rvalue P (RFloat x) = f_show P x"
| "show_rvalue P (RString s) = s"
| "show_rvalue P (RBool b) = (if b then lit ''true'' else lit ''false'')"
| "show_rvalue P (RChar c) = [c]"
| "show_rvalue P RNone = lit ''none''"
| "show_rvalue P (RArray vs) =
     lit ''['' @ join_with (lit '', '') (map (show_rvalue P) vs) @ lit '']''"
| "show_rvalue P (ROption b v) =
     (if b then (case v of Some x \<Rightarrow> lit ''Some('' @ show_rvalue P x @ lit '')''
                 | None \<Rightarrow> lit ''Some(None)'')
      else lit ''None'')"
| "show_rvalue P (RResult b v e) =
     (case (b, v, e) of
        (True, Some x, _) \<Rightarrow> lit ''Ok('' @ show_rvalue P x @ lit '')''
      | (False, _, Some x) \<Rightarrow> lit ''Err('' @ show_rvalue P x @ lit '')''
      | _ \<Rightarrow> lit ''Result'')"
| "show_rvalue P (RFunction fv) = lit ''<fn '' @ fv_name fv @ lit ''>''"
| "show_rvalue P (RStruct fs) =
     (case map_of fs dalin_type_key of Some (RString s) \<Rightarrow> s | _ \<Rightarrow> []) @ lit '' { '' @
     join_with (lit '', '') (map (\<lambda>(k, t). k @ lit '' = '' @ t)
       (filter (\<lambda>(k, _). k \<noteq> dalin_type_key) (map (\<lambda>(k, v). (k, show_rvalue P v)) fs))) @
     lit '' }''"
| "show_rvalue P (REnumVariant en vn) = en @ lit ''::'' @ vn"
| "show_rvalue P (RTask _) = lit ''<task>''"
| "show_rvalue P (RChannelSender _) = lit ''<sender>''"
| "show_rvalue P (RChannelReceiver _) = lit ''<receiver>''"

fun truthy_value :: "'f plat \<Rightarrow> 'f RValue \<Rightarrow> bool" where
  "truthy_value P RNone = False"
| "truthy_value P (RBool b) = b"
| "truthy_value P (RInt i) = (i \<noteq> 0)"
| "truthy_value P (RFloat x) = (\<not> f_is_zero P x)"
| "truthy_value P (RString s) = (s \<noteq> [])"
| "truthy_value P (RArray vs) = (vs \<noteq> [])"
| "truthy_value P (ROption b _) = b"
| "truthy_value P (RResult b _ _) = b"
| "truthy_value P _ = True"

definition values_equal :: "'f plat \<Rightarrow> 'f RValue \<Rightarrow> 'f RValue \<Rightarrow> bool" where
  "values_equal P a b =
     (case a of
        RInt x \<Rightarrow> (case b of RInt y \<Rightarrow> x = y | _ \<Rightarrow> False)
      | RFloat x \<Rightarrow> (case b of RFloat y \<Rightarrow> f_small P Tol_1e_10 (f_sub P x y) | _ \<Rightarrow> False)
      | RString x \<Rightarrow> (case b of RString y \<Rightarrow> x = y | _ \<Rightarrow> False)
      | RBool x \<Rightarrow> (case b of RBool y \<Rightarrow> x = y | _ \<Rightarrow> False)
      | RChar x \<Rightarrow> (case b of RChar y \<Rightarrow> x = y | _ \<Rightarrow> False)
      | _ \<Rightarrow> False)"

definition float_cmp :: "'f plat \<Rightarrow> 'f \<Rightarrow> 'f \<Rightarrow> ordering" where
  "float_cmp P a b = (case f_cmp P a b of Some r \<Rightarrow> r | None \<Rightarrow> OEqual)"

definition compare_values ::
  "'f plat \<Rightarrow> 'f RValue \<Rightarrow> 'f RValue \<Rightarrow> ustr \<Rightarrow> ('f rt_error, 'f RValue) outcome" where
  "compare_values P a b op =
     (let cmp = (case (a, b) of
            (RInt x, RInt y) \<Rightarrow> Some (i64_cmp x y)
          | (RFloat x, RFloat y) \<Rightarrow> Some (float_cmp P x y)
          | (RInt x, RFloat y) \<Rightarrow> Some (float_cmp P (f_of_i64 P x) y)
          | (RFloat x, RInt y) \<Rightarrow> Some (float_cmp P x (f_of_i64 P y))
          | (RString x, RString y) \<Rightarrow> Some (str_cmp x y)
          | _ \<Rightarrow> None)
      in case cmp of
           Some r \<Rightarrow> Ok (RBool (if op = lit ''<'' then r = OLess
             else if op = lit ''>'' then r = OGreater
             else if op = lit ''<='' then r \<noteq> OGreater
             else if op = lit ''>='' then r \<noteq> OLess else False))
         | None \<Rightarrow> Err (CannotCompare a b))"

definition as_iterable :: "'f RValue \<Rightarrow> 'f RValue list" where
  "as_iterable v =
     (case v of
        RArray vs \<Rightarrow> vs
      | RString s \<Rightarrow> map (\<lambda>c. RString [c]) s
      | _ \<Rightarrow> [v])"

definition literal_to_value :: "'f Expr \<Rightarrow> 'f RValue" where
  "literal_to_value e =
     (case e of
        IntLiteral v \<Rightarrow> RInt v
      | FloatLiteral v \<Rightarrow> RFloat v
      | StringLiteral v \<Rightarrow> RString v
      | BoolLiteral v \<Rightarrow> RBool v
      | CharLiteral v \<Rightarrow> RChar v
      | _ \<Rightarrow> RNone)"

text \<open>The scope with the bindings of a pattern that matches.\<close>

definition match_pattern ::
  "'f plat \<Rightarrow> 'f Pattern \<Rightarrow> 'f RValue \<Rightarrow> 'f Environment \<Rightarrow> 'f Environment option" where
  "match_pattern P pat v env =
     (if pat_kind pat = lit ''wild'' then Some env
      else if pat_kind pat = lit ''ident'' then Some (rt_define env (pat_name pat) v)
      else if pat_kind pat = lit ''lit'' then
        (case pat_value pat of
           Some e \<Rightarrow> if values_equal P (literal_to_value e) v then Some env else None
         | None \<Rightarrow> None)
      else if pat_kind pat = lit ''ctor'' then
        (if pat_name pat = lit ''Some'' then
           (case (v, pat_binding pat) of
              (ROption True (Some x), Some b) \<Rightarrow> Some (rt_define env b x)
            | _ \<Rightarrow> None)
         else if pat_name pat = lit ''None'' then
           (case v of ROption False _ \<Rightarrow> Some env | _ \<Rightarrow> None)
         else if pat_name pat = lit ''Ok'' then
           (case (v, pat_binding pat) of
              (RResult True (Some x) _, Some b) \<Rightarrow> Some (rt_define env b x)
            | _ \<Rightarrow> None)
         else if pat_name pat = lit ''Err'' then
           (case (v, pat_binding pat) of
              (RResult False _ (Some x), Some b) \<Rightarrow> Some (rt_define env b x)
            | _ \<Rightarrow> None)
         else (case v of
             REnumVariant _ vn \<Rightarrow> if vn = pat_name pat then Some env else None
           | _ \<Rightarrow> None))
      else None)"

subsection \<open>Operators\<close>

definition add_values ::
  "'f plat \<Rightarrow> 'f RValue \<Rightarrow> 'f RValue \<Rightarrow> ('f rt_error, 'f RValue) outcome" where
  "add_values P a b =
     (case (a, b) of
        (RInt x, RInt y) \<Rightarrow> obind (or_panic (i64_add (ovf_checks P) x y)) (\<lambda>n. Ok (RInt n))
      | (RFloat x, RFloat y) \<Rightarrow> Ok (RFloat (f_add P x y))
      | (RInt x, RFloat y) \<Rightarrow> Ok (RFloat (f_add P (f_of_i64 P x) y))
      | (RFloat x, RInt y) \<Rightarrow> Ok (RFloat (f_add P x (f_of_i64 P y)))
      | (RString x, _) \<Rightarrow> Ok (RString (x @ show_rvalue P b))
      | (_, RString y) \<Rightarrow> Ok (RString (show_rvalue P a @ y))
      | _ \<Rightarrow> Err (CannotApply (lit ''add'') a b))"

definition sub_values ::
  "'f plat \<Rightarrow> 'f RValue \<Rightarrow> 'f RValue \<Rightarrow> ('f rt_error, 'f RValue) outcome" where
  "sub_values P a b =
     (case (a, b) of
        (RInt x, RInt y) \<Rightarrow> obind (or_panic (i64_sub (ovf_checks P) x y)) (\<lambda>n. Ok (RInt n))
      | (RFloat x, RFloat y) \<Rightarrow> Ok (RFloat (f_sub P x y))
      | (RInt x, RFloat y) \<Rightarrow> Ok (RFloat (f_sub P (f_of_i64 P x) y))
      | (RFloat x, RInt y) \<Rightarrow> Ok (RFloat (f_sub P x (f_of_i64 P y)))
      | _ \<Rightarrow> Err (CannotApply (lit ''subtract'') a b))"

definition mul_values ::
  "'f plat \<Rightarrow> 'f RValue \<Rightarrow> 'f RValue \<Rightarrow> ('f rt_error, 'f RValue) outcome" where
  "mul_values P a b =
     (case (a, b) of
        (RInt x, RInt y) \<Rightarrow> obind (or_panic (i64_mul (ovf_checks P) x y)) (\<lambda>n. Ok (RInt n))
      | (RFloat x, RFloat y) \<Rightarrow> Ok (RFloat (f_mul P x y))
      | (RInt x, RFloat y) \<Rightarrow> Ok (RFloat (f_mul P (f_of_i64 P x) y))
      | (RFloat x, RInt y) \<Rightarrow> Ok (RFloat (f_mul P x (f_of_i64 P y)))
      | _ \<Rightarrow> Err (CannotApply (lit ''multiply'') a b))"

definition div_values ::
  "'f plat \<Rightarrow> 'f RValue \<Rightarrow> 'f RValue \<Rightarrow> ('f rt_error, 'f RValue) outcome" where
  "div_values P a b =
     (case (a, b) of
        (RInt x, RInt y) \<Rightarrow> obind (or_panic (i64_div x y)) (\<lambda>n. Ok (RInt n))
      | (RFloat x, RFloat y) \<Rightarrow> Ok (RFloat (f_div P x y))
      | _ \<Rightarrow> Err (CannotApply (lit ''divide'') a b))"

definition mod_values ::
  "'f RValue \<Rightarrow> 'f RValue \<Rightarrow> ('f rt_error, 'f RValue) outcome" where
  "mod_values a b =
     (case (a, b) of
        (RInt x, RInt y) \<Rightarrow> obind (or_panic (i64_rem x y)) (\<lambda>n. Ok (RInt n))
      | _ \<Rightarrow> Err (CannotApply (lit ''modulo'') a b))"

definition apply_binary ::
  "'f plat \<Rightarrow> ustr \<Rightarrow> 'f RValue \<Rightarrow> 'f RValue \<Rightarrow> ('f rt_error, 'f RValue) outcome" where
  "apply_binary P op a b =
     (if op = lit ''+'' then add_values P a b
      else if op = lit ''-'' then sub_values P a b
      else if op = lit ''*'' then mul_values P a b
      else if op = lit ''/'' then div_values P a b
      else if op = lit ''%'' then mod_values a b
      else if op = lit ''=='' then Ok (RBool (values_equal P a b))
      else if op = lit ''!='' then Ok (RBool (\<not> values_equal P a b))
      else if op \<in> {lit ''<'', lit ''>'', lit ''<='', lit ''>=''} then compare_values P a b op
      else if op = lit ''&&'' then Ok (RBool (truthy_value P a \<and> truthy_value P b))
      else if op = lit ''||'' then Ok (RBool (truthy_value P a \<or> truthy_value P b))
      else Err (UnknownOperator op))"

definition apply_unary ::
  "'f plat \<Rightarrow> ustr \<Rightarrow> 'f RValue \<Rightarrow> ('f rt_error, 'f RValue) outcome" where
  "apply_unary P op v =
     (if op = lit ''-'' then
        (case v of
           RInt x \<Rightarrow> obind (or_panic (i64_neg (ovf_checks P) x)) (\<lambda>n. Ok (RInt n))
         | RFloat x \<Rightarrow> Ok (RFloat (f_neg P x))
         | _ \<Rightarrow> Err (CannotNegate v))
      else if op = lit ''!'' then Ok (RBool (\<not> truthy_value P v))
      else Err (UnknownUnary op))"

definition index_values :: "'f RValue \<Rightarrow> 'f RValue \<Rightarrow> ('f rt_error, 'f RValue) outcome" where
  "index_values arr idx =
     (case (arr, idx) of
        (RArray vs, RInt i) \<Rightarrow>
          if unat i < length vs then Ok (vs ! unat i) else Err (IndexOutOfRange (unat i))
      | _ \<Rightarrow> Err InvalidIndex)"

definition int_range :: "i64 \<Rightarrow> i64 \<Rightarrow> 'f RValue list" where
  "int_range a b = map (\<lambda>i. RInt (word_of_int i)) [sint a..sint b - 1]"

subsection \<open>Evaluating expressions\<close>

text \<open>
  The handlers of the expressions and statements take the evaluators they call as arguments:
  \<open>ev\<close> for expressions and \<open>es\<close> for statements.
\<close>

fun eval_list :: "('f Expr \<Rightarrow> ('f, 'w, 'f RValue) run) \<Rightarrow> 'f Expr list \<Rightarrow> ('f, 'w, 'f RValue list) run"
  where
  "eval_list ev [] = ret []"
| "eval_list ev (e # es) =
     bind_run (ev e) (\<lambda>v. bind_run (eval_list ev es) (\<lambda>vs. ret (v # vs)))"

fun block_loop :: "('f Stmt \<Rightarrow> ('f, 'w, 'f RValue) run) \<Rightarrow> 'f Stmt list \<Rightarrow> 'f RValue \<Rightarrow> ('f, 'w, 'f RValue) run"
  where
  "block_loop es [] v = ret v"
| "block_loop es (t # ts) _ = bind_run (es t) (\<lambda>v. block_loop es ts v)"

definition eval_block ::
  "('f Stmt \<Rightarrow> ('f, 'w, 'f RValue) run) \<Rightarrow> 'f Stmt list \<Rightarrow> ('f, 'w, 'f RValue) run" where
  "eval_block es ts = block_loop es ts RNone"

definition eval_ident :: "ustr \<Rightarrow> ('f, 'w, 'f RValue) run" where
  "eval_ident name = with_env (\<lambda>env.
     case rt_lookup env name of
       Some v \<Rightarrow> ret v
     | None \<Rightarrow> with_state (\<lambda>s.
         case find (\<lambda>(_, variants). name \<in> set variants) (enums s) of
           Some (enum_name, _) \<Rightarrow> ret (REnumVariant enum_name name)
         | None \<Rightarrow> fail (UndefinedVariable name)))"

definition assign_var :: "ustr \<Rightarrow> 'f RValue \<Rightarrow> ('f, 'w, 'f RValue) run" where
  "assign_var name v = (\<lambda>e s.
     case rt_assign e name v of
       None \<Rightarrow> Some (Err (AssignUndefined name), e, s)
     | Some e' \<Rightarrow> Some (Ok v, e', s))"

definition eval_binary ::
  "'f plat \<Rightarrow> ('f Expr \<Rightarrow> ('f, 'w, 'f RValue) run) \<Rightarrow> 'f Expr \<Rightarrow> ustr \<Rightarrow> 'f Expr \<Rightarrow>
   ('f, 'w, 'f RValue) run" where
  "eval_binary P ev left op right =
     (if op = lit ''='' then
        bind_run (ev right) (\<lambda>right_val.
          case left of
            Ident name \<Rightarrow> assign_var name right_val
          | Index array index \<Rightarrow>
              bind_run (ev array) (\<lambda>arr. bind_run (ev index) (\<lambda>idx.
                case (arr, idx) of
                  (RArray vs, RInt i) \<Rightarrow>
                    if unat i < length vs then ret right_val else fail InvalidArrayAssignment
                | _ \<Rightarrow> fail InvalidArrayAssignment))
          | _ \<Rightarrow> fail InvalidAssignmentTarget)
      else
        bind_run (ev left) (\<lambda>left_val. bind_run (ev right) (\<lambda>right_val.
          lift_out (apply_binary P op left_val right_val))))"

text \<open>A call runs in a scope of its own, a child of the scope the function was declared in.\<close>

definition call_scope :: "'f FnValue \<Rightarrow> 'f RValue list \<Rightarrow> 'f Environment" where
  "call_scope fnv args =
     foldl (\<lambda>e (n, v). rt_define e n v) (rt_child (fv_closure fnv))
       (zip (map param_name (fv_params fnv)) args)"

definition call_function ::
  "('f Stmt \<Rightarrow> ('f, 'w, 'f RValue) run) \<Rightarrow> 'f FnValue \<Rightarrow> 'f RValue list \<Rightarrow>
   ('f, 'w, 'f RValue) run" where
  "call_function es fnv args =
     (if length args \<noteq> length (fv_params fnv)
      then fail (WrongArity (fv_name fnv) (length (fv_params fnv)) (length args))
      else
        bind_run (update_state (\<lambda>s. s\<lparr>return_value := None\<rparr>)) (\<lambda>_.
        bind_run (attempt (in_env (call_scope fnv args) (eval_block es (fv_body fnv)))) (\<lambda>r.
          case r of
            Inl RtReturn \<Rightarrow> with_state (\<lambda>s.
              bind_run (update_state (\<lambda>s. s\<lparr>return_value := None\<rparr>)) (\<lambda>_.
                ret (case return_value s of Some v \<Rightarrow> v | None \<Rightarrow> RNone)))
          | Inl e \<Rightarrow> fail e
          | Inr _ \<Rightarrow> ret RNone)))"

definition rt_builtins :: "ustr list" where
  "rt_builtins = [lit ''println'', lit ''println!'', lit ''print'', lit ''print!'', lit ''len'',
     lit ''push'', lit ''assert'', lit ''int'', lit ''float'', lit ''str'', lit ''abs'',
     lit ''range'', lit ''await'', lit ''send'', lit ''recv'', lit ''spawn_task'']"

text \<open>\<open>args[i]\<close>, which panics beyond the arguments.\<close>

definition nth_arg :: "'f RValue list \<Rightarrow> nat \<Rightarrow> ('f, 'w, 'f RValue) run" where
  "nth_arg args i = (if i < length args then ret (args ! i) else lift_out Panic)"

definition write_out :: "ustr \<Rightarrow> ('f, 'w, 'f RValue) run" where
  "write_out w = bind_run (update_state (\<lambda>s. s\<lparr>stdout := stdout s @ w\<rparr>)) (\<lambda>_. ret RNone)"

definition call_builtin_rt ::
  "'f plat \<Rightarrow> ('f, 'w) threads \<Rightarrow> ustr \<Rightarrow> 'f RValue list \<Rightarrow> ('f, 'w, 'f RValue) run" where
  "call_builtin_rt P T name args =
     (if name \<in> {lit ''println'', lit ''println!''} then
        write_out (join_with (lit '' '') (map (show_rvalue P) args) @ [10])
      else if name \<in> {lit ''print'', lit ''print!''} then
        write_out (join_with (lit '' '') (map (show_rvalue P) args))
      else if name = lit ''len'' then
        bind_run (nth_arg args 0) (\<lambda>v. ret (case v of
            RArray vs \<Rightarrow> RInt (of_nat (length vs))
          | RString s \<Rightarrow> RInt (of_nat (utf8_len s))
          | _ \<Rightarrow> RInt 0))
      else if name = lit ''push'' then
        bind_run (nth_arg args 0) (\<lambda>v. case v of
            RArray vs \<Rightarrow> bind_run (nth_arg args 1) (\<lambda>x. ret (RArray (vs @ [x])))
          | _ \<Rightarrow> fail (BuiltinError (lit ''push requires array'')))
      else if name = lit ''int'' then
        bind_run (nth_arg args 0) (\<lambda>v. ret (case v of
            RString s \<Rightarrow> RInt (case parse_i64 s of Some i \<Rightarrow> word_of_int i | None \<Rightarrow> 0)
          | RFloat x \<Rightarrow> RInt (f_to_i64 P x)
          | RInt i \<Rightarrow> RInt i
          | _ \<Rightarrow> RInt 0))
      else if name = lit ''float'' then
        bind_run (nth_arg args 0) (\<lambda>v. ret (case v of
            RString s \<Rightarrow> RFloat (case f_parse P s of Some x \<Rightarrow> x | None \<Rightarrow> f_zero P)
          | RInt i \<Rightarrow> RFloat (f_of_i64 P i)
          | RFloat x \<Rightarrow> RFloat x
          | _ \<Rightarrow> RFloat (f_zero P)))
      else if name = lit ''str'' then
        bind_run (nth_arg args 0) (\<lambda>v. ret (RString (show_rvalue P v)))
      else if name = lit ''abs'' then
        bind_run (nth_arg args 0) (\<lambda>v. case v of
            RInt i \<Rightarrow> lift_out (obind (or_panic (i64_abs (ovf_checks P) i)) (\<lambda>n. Ok (RInt n)))
          | RFloat x \<Rightarrow> ret (RFloat (f_abs P x))
          | _ \<Rightarrow> fail (BuiltinError (lit ''abs requires number'')))
      else if name = lit ''range'' then
        bind_run (nth_arg args 0) (\<lambda>v. bind_run (nth_arg args 1) (\<lambda>w.
          case (v, w) of
            (RInt a, RInt b) \<Rightarrow> ret (RArray (int_range a b))
          | _ \<Rightarrow> fail (BuiltinError (lit ''range requires int args''))))
      else if name = lit ''assert'' then
        (if length args > 1 \<and> \<not> truthy_value P (args ! 0)
         then fail (AssertionFailed (show_rvalue P (args ! 1)))
         else ret RNone)
      else if name = lit ''await'' then
        (case args of
           [] \<Rightarrow> fail (BuiltinError (lit ''await: no task''))
         | RTask tid # _ \<Rightarrow> (\<lambda>e s.
             case t_await T tid (world s) of
               None \<Rightarrow> None
             | Some (Some v, w) \<Rightarrow> Some (Ok v, e, s\<lparr>world := w\<rparr>)
             | Some (None, w) \<Rightarrow> Some (Err (UnknownTask tid), e, s\<lparr>world := w\<rparr>))
         | _ \<Rightarrow> fail (BuiltinError (lit ''await: not a task'')))
      else if name = lit ''send'' then
        (if length args < 2 then fail (BuiltinError (lit ''send: two arguments''))
         else case args ! 0 of
             RChannelSender c \<Rightarrow> (\<lambda>e s.
               case t_send T c (args ! 1) (world s) of
                 (True, w) \<Rightarrow> Some (Ok RNone, e, s\<lparr>world := w\<rparr>)
               | (False, w) \<Rightarrow>
                   Some (Err (BuiltinError (lit ''send: closed'')), e, s\<lparr>world := w\<rparr>))
           | _ \<Rightarrow> fail (BuiltinError (lit ''send: not a channel'')))
      else if name = lit ''recv'' then
        (case args of
           [] \<Rightarrow> fail (BuiltinError (lit ''recv: no channel''))
         | RChannelReceiver c # _ \<Rightarrow> (\<lambda>e s.
             case t_recv T c (world s) of
               None \<Rightarrow> None
             | Some (Some v, w) \<Rightarrow> Some (Ok v, e, s\<lparr>world := w\<rparr>)
             | Some (None, w) \<Rightarrow> Some (Err (UnknownChannel c), e, s\<lparr>world := w\<rparr>))
         | _ \<Rightarrow> fail (BuiltinError (lit ''recv: not a channel'')))
      else if name = lit ''spawn_task'' then
        (case args of
           [] \<Rightarrow> fail (BuiltinError (lit ''spawn_task: no name''))
         | RString fname # rest \<Rightarrow> (\<lambda>e s.
             case fn_defs s fname of
               None \<Rightarrow> Some (Err (UndefinedFunction fname), e, s)
             | Some fnv \<Rightarrow>
                 if fv_effect fnv \<noteq> Some (lit ''spawn'')
                 then Some (Err (SpawnNotAnnotated fname), e, s)
                 else (let (tid, w) = t_spawn T fnv rest (fn_defs s) (world s)
                       in Some (Ok (RTask tid), e, s\<lparr>world := w\<rparr>)))
         | _ \<Rightarrow> fail (BuiltinError (lit ''spawn_task: not a string'')))
      else fail (UnknownBuiltin name))"

definition eval_call ::
  "'f plat \<Rightarrow> ('f, 'w) threads \<Rightarrow> ('f Expr \<Rightarrow> ('f, 'w, 'f RValue) run) \<Rightarrow>
   ('f Stmt \<Rightarrow> ('f, 'w, 'f RValue) run) \<Rightarrow> 'f Expr \<Rightarrow> 'f Expr list \<Rightarrow> ('f, 'w, 'f RValue) run"
  where
  "eval_call P T ev es func args =
     (case (case func of Ident name \<Rightarrow> Some name | MemberAccess _ m \<Rightarrow> Some m | _ \<Rightarrow> None) of
        None \<Rightarrow> fail InvalidCall
      | Some callee \<Rightarrow>
          bind_run (eval_list ev args) (\<lambda>vals.
            if callee \<in> set rt_builtins then call_builtin_rt P T callee vals
            else with_state (\<lambda>s.
              case structs s callee of
                Some flds \<Rightarrow>
                  ret (RStruct (foldl (\<lambda>m (k, v). AList.update k v m)
                    [(dalin_type_key, RString callee)] (zip flds vals)))
              | None \<Rightarrow>
                  (case fn_defs s callee of
                     Some fnv \<Rightarrow> call_function es fnv vals
                   | None \<Rightarrow> with_env (\<lambda>env.
                       case rt_lookup env callee of
                         Some (RFunction fnv) \<Rightarrow> call_function es fnv vals
                       | Some _ \<Rightarrow> fail (NotCallable callee)
                       | None \<Rightarrow> fail (UndefinedFunction callee))))))"

definition eval_member_access ::
  "'f plat \<Rightarrow> ('f Expr \<Rightarrow> ('f, 'w, 'f RValue) run) \<Rightarrow> 'f Expr \<Rightarrow> ustr \<Rightarrow> ('f, 'w, 'f RValue) run"
  where
  "eval_member_access P ev obj member =
     bind_run (ev obj) (\<lambda>v. case v of
         RStruct fs \<Rightarrow>
           (case map_of fs member of
              Some x \<Rightarrow> ret x
            | None \<Rightarrow> fail (NoField (case map_of fs dalin_type_key of
                  Some t \<Rightarrow> show_rvalue P t | None \<Rightarrow> []) member))
       | _ \<Rightarrow> fail (CannotAccessMember member))"

fun pipe_loop :: "('f Stmt \<Rightarrow> ('f, 'w, 'f RValue) run) \<Rightarrow> ustr list \<Rightarrow> 'f RValue \<Rightarrow> ('f, 'w, 'f RValue) run"
  where
  "pipe_loop es [] current = ret current"
| "pipe_loop es (name # names) current = with_env (\<lambda>env.
     case rt_lookup env name of
       Some (RFunction fnv) \<Rightarrow> bind_run (call_function es fnv [current]) (pipe_loop es names)
     | _ \<Rightarrow> fail (PipeNotCallable name))"

fun arms_loop ::
  "'f plat \<Rightarrow> ('f Expr \<Rightarrow> ('f, 'w, 'f RValue) run) \<Rightarrow> ('f Stmt \<Rightarrow> ('f, 'w, 'f RValue) run) \<Rightarrow>
   'f RValue \<Rightarrow> 'f MatchArm list \<Rightarrow> ('f, 'w, 'f RValue) run" where
  "arms_loop P ev es v [] = fail MatchFailure"
| "arms_loop P ev es v (arm # arms) = with_env (\<lambda>env.
     case match_pattern P (arm_pattern arm) v (rt_child env) of
       None \<Rightarrow> arms_loop P ev es v arms
     | Some arm_env \<Rightarrow>
         bind_run (in_env arm_env
           (bind_run (case arm_guard arm of None \<Rightarrow> ret True
              | Some g \<Rightarrow> bind_run (ev g) (\<lambda>gv. ret (truthy_value P gv))) (\<lambda>go.
            if go then bind_run (eval_block es (arm_body arm)) (\<lambda>r. ret (Some r))
            else ret None))) (\<lambda>r.
         case r of Some x \<Rightarrow> ret x | None \<Rightarrow> arms_loop P ev es v arms))"

fun match_expr_loop ::
  "'f plat \<Rightarrow> ('f Stmt \<Rightarrow> ('f, 'w, 'f RValue) run) \<Rightarrow> 'f RValue \<Rightarrow> 'f MatchArm list \<Rightarrow>
   ('f, 'w, 'f RValue) run" where
  "match_expr_loop P es v [] = fail MatchExprFailure"
| "match_expr_loop P es v (arm # arms) = with_env (\<lambda>env.
     case match_pattern P (arm_pattern arm) v (rt_child env) of
       None \<Rightarrow> match_expr_loop P es v arms
     | Some arm_env \<Rightarrow> in_env arm_env (eval_block es (arm_body arm)))"

definition opt_value :: "('f Expr \<Rightarrow> ('f, 'w, 'f RValue) run) \<Rightarrow> 'f Expr option \<Rightarrow> ('f, 'w, 'f RValue option) run"
  where
  "opt_value ev v =
     (case v of None \<Rightarrow> ret None | Some e \<Rightarrow> bind_run (ev e) (\<lambda>x. ret (Some x)))"

definition expr_step ::
  "'f plat \<Rightarrow> ('f, 'w) threads \<Rightarrow> ('f Expr \<Rightarrow> ('f, 'w, 'f RValue) run) \<Rightarrow>
   ('f Stmt \<Rightarrow> ('f, 'w, 'f RValue) run) \<Rightarrow> 'f Expr \<Rightarrow> ('f, 'w, 'f RValue) run" where
  "expr_step P T ev es expr =
     (case expr of
        IntLiteral v \<Rightarrow> ret (RInt v)
      | FloatLiteral v \<Rightarrow> ret (RFloat v)
      | StringLiteral v \<Rightarrow> ret (RString v)
      | BoolLiteral v \<Rightarrow> ret (RBool v)
      | CharLiteral v \<Rightarrow> ret (RChar v)
      | Ident name \<Rightarrow> eval_ident name
      | BinaryOp left op right \<Rightarrow> eval_binary P ev left op right
      | UnaryOp op operand \<Rightarrow> bind_run (ev operand) (\<lambda>v. lift_out (apply_unary P op v))
      | Call func args \<Rightarrow> eval_call P T ev es func args
      | MemberAccess obj member \<Rightarrow> eval_member_access P ev obj member
      | Index array index \<Rightarrow>
          bind_run (ev array) (\<lambda>a. bind_run (ev index) (\<lambda>i. lift_out (index_values a i)))
      | Pipe input ops \<Rightarrow> bind_run (ev input) (pipe_loop es (map fst ops))
      | Range start end' _ \<Rightarrow>
          bind_run (ev start) (\<lambda>a. bind_run (ev end') (\<lambda>b.
            case (a, b) of
              (RInt x, RInt y) \<Rightarrow> ret (RArray (int_range x y))
            | _ \<Rightarrow> fail RangeNotInt))
      | Array elems \<Rightarrow> bind_run (eval_list ev elems) (\<lambda>vs. ret (RArray vs))
      | OptionValue is_some value \<Rightarrow>
          if is_some then bind_run (opt_value ev value) (\<lambda>v. ret (ROption True v))
          else ret (ROption False None)
      | ResultValue is_ok value error \<Rightarrow>
          if is_ok then bind_run (opt_value ev value) (\<lambda>v. ret (RResult True v None))
          else bind_run (opt_value ev error) (\<lambda>v. ret (RResult False None v))
      | IfExpr c t e \<Rightarrow> bind_run (ev c) (\<lambda>v. if truthy_value P v then ev t else ev e)
      | MatchExpr target arms \<Rightarrow> bind_run (ev target) (\<lambda>v. match_expr_loop P es v arms))"

subsection \<open>Executing statements\<close>

definition eval_let ::
  "('f Expr \<Rightarrow> ('f, 'w, 'f RValue) run) \<Rightarrow> ustr \<Rightarrow> 'f Expr option \<Rightarrow> ('f, 'w, 'f RValue) run" where
  "eval_let ev name value =
     bind_run (case value of Some e \<Rightarrow> ev e | None \<Rightarrow> ret RNone) (\<lambda>v.
       bind_run (define_var name v) (\<lambda>_. ret v))"

definition eval_fn_decl :: "'f FnValue \<Rightarrow> ('f, 'w, 'f RValue) run" where
  "eval_fn_decl fnv =
     bind_run (update_state (\<lambda>s. s\<lparr>fn_defs := (fn_defs s)(fv_name fnv \<mapsto> fnv)\<rparr>)) (\<lambda>_.
       bind_run (define_var (fv_name fnv) (RFunction fnv)) (\<lambda>_. ret RNone))"

definition eval_if ::
  "'f plat \<Rightarrow> ('f Expr \<Rightarrow> ('f, 'w, 'f RValue) run) \<Rightarrow> ('f Stmt \<Rightarrow> ('f, 'w, 'f RValue) run) \<Rightarrow>
   'f Expr \<Rightarrow> 'f Stmt list \<Rightarrow> 'f Stmt list \<Rightarrow> ('f, 'w, 'f RValue) run" where
  "eval_if P ev es c then_body else_body =
     bind_run (ev c) (\<lambda>v.
       if truthy_value P v then eval_block es then_body else eval_block es else_body)"

text \<open>
  The body runs in a child of the scope, a copy, and only its return leaves the loop: every other
  error and every result is dropped.
\<close>

fun eval_while ::
  "'f plat \<Rightarrow> ('f Expr \<Rightarrow> ('f, 'w, 'f RValue) run) \<Rightarrow> ('f Stmt \<Rightarrow> ('f, 'w, 'f RValue) run) \<Rightarrow> nat \<Rightarrow>
   'f Expr \<Rightarrow> 'f Stmt list \<Rightarrow> ('f, 'w, 'f RValue) run" where
  "eval_while P ev es 0 c body = (\<lambda>_ _. None)"
| "eval_while P ev es (Suc n) c body =
     bind_run (ev c) (\<lambda>v.
       if \<not> truthy_value P v then ret RNone
       else with_env (\<lambda>env.
         bind_run (attempt (in_env (rt_child env) (eval_block es body))) (\<lambda>r.
           case r of
             Inl RtReturn \<Rightarrow> fail RtReturn
           | _ \<Rightarrow> eval_while P ev es n c body)))"

fun for_loop ::
  "('f Stmt \<Rightarrow> ('f, 'w, 'f RValue) run) \<Rightarrow> ustr \<Rightarrow> 'f Stmt list \<Rightarrow> 'f RValue list \<Rightarrow> 'f RValue \<Rightarrow>
   ('f, 'w, 'f RValue) run" where
  "for_loop es target body [] r = ret r"
| "for_loop es target body (x # xs) _ =
     bind_run (define_var target x) (\<lambda>_.
       bind_run (eval_block es body) (\<lambda>r. for_loop es target body xs r))"

definition eval_for ::
  "('f Expr \<Rightarrow> ('f, 'w, 'f RValue) run) \<Rightarrow> ('f Stmt \<Rightarrow> ('f, 'w, 'f RValue) run) \<Rightarrow> ustr \<Rightarrow> 'f Expr \<Rightarrow>
   'f Stmt list \<Rightarrow> ('f, 'w, 'f RValue) run" where
  "eval_for ev es target iterable body =
     bind_run (ev iterable) (\<lambda>v. for_loop es target body (as_iterable v) RNone)"

definition eval_match ::
  "'f plat \<Rightarrow> ('f Expr \<Rightarrow> ('f, 'w, 'f RValue) run) \<Rightarrow> ('f Stmt \<Rightarrow> ('f, 'w, 'f RValue) run) \<Rightarrow>
   'f Expr \<Rightarrow> 'f MatchArm list \<Rightarrow> ('f, 'w, 'f RValue) run" where
  "eval_match P ev es target arms = bind_run (ev target) (\<lambda>v. arms_loop P ev es v arms)"

definition eval_spawn :: "('f, 'w) threads \<Rightarrow> 'f Stmt \<Rightarrow> ('f, 'w, 'f RValue) run" where
  "eval_spawn T fn_decl =
     (case fn_decl of
        SFn name params return_type an body _ _ \<Rightarrow>
          if an_effect an \<noteq> Some (lit ''spawn'') then fail (SpawnNotAnnotated name)
          else (\<lambda>e s.
            let fnv = FnValue name params body e return_type (an_effect an) (an_capability an);
                (tid, w) = t_spawn T fnv [] (fn_defs s) (world s)
            in Some (Ok (RTask tid), rt_define e name (RTask tid), s\<lparr>world := w\<rparr>))
      | _ \<Rightarrow> fail SpawnNotFunction)"

definition eval_channel :: "('f, 'w) threads \<Rightarrow> ustr \<Rightarrow> ustr \<Rightarrow> ('f, 'w, 'f RValue) run" where
  "eval_channel T send_name recv_name = (\<lambda>e s.
     let (c, w) = t_channel T recv_name (world s)
     in Some (Ok RNone,
          rt_define (rt_define e send_name (RChannelSender c)) recv_name
            (RChannelReceiver recv_name), s\<lparr>world := w\<rparr>))"

definition eval_assert ::
  "'f plat \<Rightarrow> ('f Expr \<Rightarrow> ('f, 'w, 'f RValue) run) \<Rightarrow> 'f Expr \<Rightarrow> 'f Expr option \<Rightarrow>
   ('f, 'w, 'f RValue) run" where
  "eval_assert P ev condition message =
     bind_run (ev condition) (\<lambda>c.
       if truthy_value P c then ret RNone
       else case message of
           None \<Rightarrow> fail (AssertionFailed [])
         | Some m \<Rightarrow> bind_run (attempt (ev m)) (\<lambda>r.
             fail (AssertionFailed (case r of Inr v \<Rightarrow> show_rvalue P v | Inl _ \<Rightarrow> []))))"

definition stmt_step ::
  "'f plat \<Rightarrow> ('f, 'w) threads \<Rightarrow> nat \<Rightarrow> ('f Expr \<Rightarrow> ('f, 'w, 'f RValue) run) \<Rightarrow>
   ('f Stmt \<Rightarrow> ('f, 'w, 'f RValue) run) \<Rightarrow> 'f Stmt \<Rightarrow> ('f, 'w, 'f RValue) run" where
  "stmt_step P T n ev es st =
     (case st of
        SLet name value _ _ \<Rightarrow> eval_let ev name value
      | SFn name params return_type an body _ _ \<Rightarrow> with_env (\<lambda>env.
          eval_fn_decl (FnValue name params body env return_type (an_effect an) (an_capability an)))
      | SReturn v \<Rightarrow>
          bind_run (case v of Some e \<Rightarrow> ev e | None \<Rightarrow> ret RNone) (\<lambda>x.
            bind_run (update_state (\<lambda>s. s\<lparr>return_value := Some x\<rparr>)) (\<lambda>_. fail RtReturn))
      | SIf c then_body else_body \<Rightarrow> eval_if P ev es c then_body else_body
      | SWhile c body \<Rightarrow> eval_while P ev es n c body
      | SFor target iterable body \<Rightarrow> eval_for ev es target iterable body
      | SMatch target arms \<Rightarrow> eval_match P ev es target arms
      | SStructDef name _ flds \<Rightarrow>
          bind_run (update_state (\<lambda>s. s\<lparr>structs := (structs s)(name \<mapsto> map field_name flds)\<rparr>))
            (\<lambda>_. ret RNone)
      | SEnumDef name variants \<Rightarrow>
          bind_run (update_state (\<lambda>s. s\<lparr>enums := AList.update name (map variant_name variants) (enums s)\<rparr>))
            (\<lambda>_. ret RNone)
      | SSpawn fn_decl \<Rightarrow> eval_spawn T fn_decl
      | SChannel send_name recv_name _ _ \<Rightarrow> eval_channel T send_name recv_name
      | SAssert condition message \<Rightarrow> eval_assert P ev condition message
      | SExpr e \<Rightarrow> ev e
      | _ \<Rightarrow> ret RNone)"

subsection \<open>The evaluators\<close>

text \<open>
  Fuel bounds the depth of the syntax and of the calls, and the number of rounds of a while loop;
  without fuel a step does not return.
\<close>

fun eval_expr :: "'f plat \<Rightarrow> ('f, 'w) threads \<Rightarrow> nat \<Rightarrow> 'f Expr \<Rightarrow> ('f, 'w, 'f RValue) run"
and eval_stmt :: "'f plat \<Rightarrow> ('f, 'w) threads \<Rightarrow> nat \<Rightarrow> 'f Stmt \<Rightarrow> ('f, 'w, 'f RValue) run" where
  "eval_expr P T 0 e = (\<lambda>_ _. None)"
| "eval_expr P T (Suc n) e = expr_step P T (eval_expr P T n) (eval_stmt P T n) e"
| "eval_stmt P T 0 st = (\<lambda>_ _. None)"
| "eval_stmt P T (Suc n) st = stmt_step P T n (eval_expr P T n) (eval_stmt P T n) st"

fun interpret_stmts ::
  "'f plat \<Rightarrow> ('f, 'w) threads \<Rightarrow> nat \<Rightarrow> 'f Stmt list \<Rightarrow> 'f RValue list \<Rightarrow> ('f, 'w, 'f RValue list) run"
  where
  "interpret_stmts P T n [] vs = ret vs"
| "interpret_stmts P T n (t # ts) vs =
     bind_run (eval_stmt P T n t) (\<lambda>v. interpret_stmts P T n ts (vs @ [v]))"

definition interpret_program ::
  "'f plat \<Rightarrow> ('f, 'w) threads \<Rightarrow> nat \<Rightarrow> 'f Program \<Rightarrow> ('f, 'w) interp \<Rightarrow>
   (('f rt_error, 'f RValue list) outcome \<times> ('f, 'w) interp) option" where
  "interpret_program P T n prog s =
     (case interpret_stmts P T n (statements prog) [] (global_env s) s of
        None \<Rightarrow> None
      | Some (Ok vs, env, s') \<Rightarrow> Some (Ok vs, s'\<lparr>global_env := env\<rparr>)
      | Some (Err r, _, s') \<Rightarrow> Some (Err r, s')
      | Some (Panic, _, s') \<Rightarrow> Some (Panic, s'))"

end
