(* ===== verification/InterpCorrect.thy ===== *)
theory InterpCorrect
  imports Interp TyCorrect
begin

section \<open>What the interpreter guarantees\<close>

text \<open>
  More fuel keeps every result; arithmetic on literals returns a value of the inferred type; and what
  the interpreter makes of loops, assignments and operands.
\<close>

subsection \<open>Fuel\<close>

text \<open>More fuel keeps every result.\<close>

definition below_run :: "('f, 'w, 'a) run \<Rightarrow> ('f, 'w, 'a) run \<Rightarrow> bool" where
  "below_run m m' = (\<forall>E s r. m E s = Some r \<longrightarrow> m' E s = Some r)"

named_theorems run_mono \<open>the steps are monotone in the evaluators they call\<close>

lemma below_refl [simp, run_mono]: "below_run m m"
  by (simp add: below_run_def)

lemma below_none [run_mono]: "below_run (\<lambda>_ _. None) m"
  by (simp add: below_run_def)

lemma below_bind [run_mono]:
  "below_run m m' \<Longrightarrow> (\<And>x. below_run (f x) (f' x)) \<Longrightarrow> below_run (bind_run m f) (bind_run m' f')"
  unfolding below_run_def bind_run_def
  by (fastforce split: option.splits prod.splits outcome.splits)

lemma below_attempt [run_mono]: "below_run m m' \<Longrightarrow> below_run (attempt m) (attempt m')"
  unfolding below_run_def attempt_def
  by (fastforce split: option.splits prod.splits outcome.splits)

lemma below_in_env [run_mono]: "below_run m m' \<Longrightarrow> below_run (in_env E m) (in_env E m')"
  unfolding below_run_def in_env_def by (fastforce split: option.splits prod.splits)

lemma below_with_env [run_mono]:
  "(\<And>E. below_run (f E) (f' E)) \<Longrightarrow> below_run (with_env f) (with_env f')"
  unfolding below_run_def with_env_def by blast

lemma below_with_state [run_mono]:
  "(\<And>s. below_run (f s) (f' s)) \<Longrightarrow> below_run (with_state f) (with_state f')"
  unfolding below_run_def with_state_def by blast

definition below_all :: "('x \<Rightarrow> ('f, 'w, 'a) run) \<Rightarrow> ('x \<Rightarrow> ('f, 'w, 'a) run) \<Rightarrow> bool" where
  "below_all ev ev' = (\<forall>x. below_run (ev x) (ev' x))"

lemma below_allD: "below_all ev ev' \<Longrightarrow> below_run (ev x) (ev' x)"
  by (simp add: below_all_def)

lemma below_eval_list [run_mono]:
  "below_all ev ev' \<Longrightarrow> below_run (eval_list ev xs) (eval_list ev' xs)"
  by (induction xs) (auto simp: below_all_def intro!: run_mono)

lemma below_block_loop: "below_all es es' \<Longrightarrow> below_run (block_loop es ts v) (block_loop es' ts v)"
  by (induction ts arbitrary: v) (auto simp: below_all_def intro!: run_mono)

lemma below_eval_block [run_mono]:
  "below_all es es' \<Longrightarrow> below_run (eval_block es ts) (eval_block es' ts)"
  unfolding eval_block_def by (rule below_block_loop)

lemma below_eval_binary [run_mono]:
  "below_all ev ev' \<Longrightarrow> below_run (eval_binary P ev l op r) (eval_binary P ev' l op r)"
  unfolding eval_binary_def by (auto simp: below_all_def split: Expr.split intro!: run_mono)

lemma below_call_function [run_mono]:
  "below_all es es' \<Longrightarrow> below_run (call_function es fnv args) (call_function es' fnv args)"
  unfolding call_function_def by (auto simp: below_all_def intro!: run_mono)

lemma below_eval_call [run_mono]:
  "below_all ev ev' \<Longrightarrow> below_all es es' \<Longrightarrow>
   below_run (eval_call P T ev es func args) (eval_call P T ev' es' func args)"
  unfolding eval_call_def
  by (auto simp: below_all_def split: option.split RValue.split intro!: run_mono)

lemma below_member [run_mono]:
  "below_all ev ev' \<Longrightarrow> below_run (eval_member_access P ev e m) (eval_member_access P ev' e m)"
  unfolding eval_member_access_def by (auto simp: below_all_def intro!: run_mono)

lemma below_pipe [run_mono]:
  "below_all es es' \<Longrightarrow> below_run (pipe_loop es ns v) (pipe_loop es' ns v)"
  by (induction ns arbitrary: v) (auto simp: below_all_def split: option.split RValue.split intro!: run_mono)

lemma below_arms [run_mono]:
  "below_all ev ev' \<Longrightarrow> below_all es es' \<Longrightarrow>
   below_run (arms_loop P ev es v arms) (arms_loop P ev' es' v arms)"
  by (induction arms) (auto simp: below_all_def split: option.split intro!: run_mono)

lemma below_match_expr [run_mono]:
  "below_all es es' \<Longrightarrow> below_run (match_expr_loop P es v arms) (match_expr_loop P es' v arms)"
  by (induction arms) (auto simp: below_all_def split: option.split intro!: run_mono)

lemma below_opt_value [run_mono]:
  "below_all ev ev' \<Longrightarrow> below_run (opt_value ev v) (opt_value ev' v)"
  unfolding opt_value_def by (auto simp: below_all_def split: option.split intro!: run_mono)

lemma below_expr_step:
  "below_all ev ev' \<Longrightarrow> below_all es es' \<Longrightarrow>
   below_run (expr_step P T ev es e) (expr_step P T ev' es' e)"
  unfolding expr_step_def by (cases e) (auto simp: below_all_def intro!: run_mono)

lemma below_while:
  "below_all ev ev' \<Longrightarrow> below_all es es' \<Longrightarrow> n \<le> m \<Longrightarrow>
   below_run (eval_while P ev es n c body) (eval_while P ev' es' m c body)"
proof (induction n arbitrary: m)
  case (Suc n)
  then obtain k where m: "m = Suc k" "n \<le> k" by (cases m) auto
  show ?case
    unfolding m(1) eval_while.simps
    by (intro below_bind below_with_env)
      (use Suc m(2) in \<open>auto simp: below_all_def split: sum.split rt_error.split intro!: run_mono\<close>)
qed (simp add: below_none)

lemma below_for [run_mono]:
  "below_all es es' \<Longrightarrow> below_run (for_loop es x body vs r) (for_loop es' x body vs r)"
  by (induction vs arbitrary: r) (auto simp: below_all_def intro!: run_mono)

lemma below_stmt_step:
  assumes "below_all ev ev'" and "below_all es es'" and "n \<le> m"
  shows "below_run (stmt_step P T n ev es t) (stmt_step P T m ev' es' t)"
  using assms unfolding stmt_step_def
  by (cases t) (auto simp: below_all_def eval_let_def eval_if_def eval_for_def eval_match_def eval_assert_def
      split: option.split intro!: run_mono below_while)

lemma fuel_mono:
  "n \<le> m \<Longrightarrow> below_all (eval_expr P T n) (eval_expr P T m) \<and>
     below_all (eval_stmt P T n) (eval_stmt P T m)"
proof (induction n arbitrary: m)
  case 0
  then show ?case by (simp add: below_all_def below_none)
next
  case (Suc n)
  then obtain k where m: "m = Suc k" "n \<le> k" by (cases m) auto
  from Suc.IH[OF m(2)] m(2) show ?case
    unfolding m(1) by (simp add: below_all_def below_expr_step below_stmt_step)
qed

lemma below_interpret:
  "n \<le> m \<Longrightarrow> below_run (interpret_stmts P T n ts vs) (interpret_stmts P T m ts vs)"
  using fuel_mono[of n m P T]
  by (induction ts arbitrary: vs) (auto simp: below_all_def intro!: run_mono)

lemma interpret_mono:
  assumes "interpret_program P T n prog s = Some r" and "n \<le> m"
  shows "interpret_program P T m prog s = Some r"
proof -
  from assms(1) obtain x where x: "interpret_stmts P T n (statements prog) [] (global_env s) s = Some x"
    by (auto simp: interpret_program_def split: option.splits)
  then have "interpret_stmts P T m (statements prog) [] (global_env s) s = Some x"
    using below_interpret[OF assms(2), of P T "statements prog" "[]"] unfolding below_run_def by blast
  with x assms(1) show ?thesis by (simp add: interpret_program_def)
qed

text \<open>One behaviour of the other threads, which no thread is ever started under.\<close>

definition no_threads :: "('f, unit) threads" where
  "no_threads = \<lparr>t_spawn = (\<lambda>_ _ _ w. ([], w)), t_await = (\<lambda>_ w. Some (None, w)),
     t_channel = (\<lambda>_ w. (0, w)), t_send = (\<lambda>_ _ w. (False, w)), t_recv = (\<lambda>_ w. Some (None, w))\<rparr>"

lemmas run_simps = ret_def fail_def lift_out_def bind_run_def attempt_def in_env_def with_env_def
  with_state_def update_state_def define_var_def

lemmas step_simps = run_simps expr_step_def stmt_step_def eval_binary_def eval_let_def
  eval_ident_def assign_var_def eval_block_def

definition one_expr :: "'f Expr \<Rightarrow> 'f Program" where
  "one_expr e = program_add program_new (SExpr e)"

lemma statements_one_expr [simp]: "statements (one_expr e) = [SExpr e]"
  by (simp add: one_expr_def program_add_def program_new_def)

text \<open>
  The result of a program is unique: whatever fuel two runs have, if both return, they return
  the same result in the same state; and a run that returns also returns with more fuel.
\<close>

theorem interpret_result_unique:
  assumes "interpret_program P T n prog s = Some r"
  shows "(\<forall>k. interpret_program P T (n + k) prog s = Some r) \<and>
    (interpret_program P T m prog s = None \<or> interpret_program P T m prog s = Some r)"
proof -
  have "interpret_program P T m prog s = Some r" if r': "interpret_program P T m prog s = Some r'" for r'
  proof (cases "n \<le> m")
    case True
    then show ?thesis using interpret_mono[OF assms] by blast
  next
    case False
    then have "interpret_program P T n prog s = Some r'" using interpret_mono[OF r'] by simp
    with assms r' show ?thesis by simp
  qed
  with interpret_mono[OF assms] show ?thesis by (cases "interpret_program P T m prog s") auto
qed

theorem interpret_result_unique_witness:
  "\<exists>r. (\<forall>k. interpret_program int_plat no_threads (2 + k) (one_expr (IntLiteral 7)) (interp_new ()) =
     Some r) \<and>
   (interpret_program int_plat no_threads 1 (one_expr (IntLiteral 7)) (interp_new ()) = None \<or>
    interpret_program int_plat no_threads 1 (one_expr (IntLiteral 7)) (interp_new ()) = Some r)"
proof -
  have "interpret_program int_plat no_threads 2 (one_expr (IntLiteral 7)) (interp_new ()) =
      Some (Ok [RInt 7], interp_new ())"
    by (simp add: interpret_program_def step_simps numeral_2_eq_2 interp_new_def)
  from interpret_result_unique[OF this, of 1] show ?thesis by blast
qed

subsection \<open>Scopes\<close>

text \<open>
  Parameters. Inside a call a name means the argument of the last parameter of that name, and
  otherwise what it means where the function was declared; the caller's scope plays no role.
\<close>

theorem call_scope_lookup:
  "rt_lookup (call_scope fnv args) x =
     (case map_of (rev (zip (map param_name (fv_params fnv)) args)) x of
        Some v \<Rightarrow> Some v
      | None \<Rightarrow> rt_lookup (fv_closure fnv) x)"
  unfolding call_scope_def by (rule rtenv.lookup_call_scope)

lemma in_env_keeps: "in_env E0 m E s = Some (r, E', s') \<Longrightarrow> E' = E"
  by (auto simp: in_env_def split: option.splits prod.splits)

text \<open>
  A call leaves the caller's scope as it is, whatever the function does: it can only change its
  own scope, a copy of the one it was declared in.
\<close>

lemma call_keeps_scope:
  assumes "call_function es fnv args E s = Some (r, E', s')"
  shows "E' = E"
  using assms
  by (auto simp: call_function_def run_simps split: if_splits option.splits prod.splits
      outcome.splits sum.splits rt_error.splits)

theorem call_keeps_scope_witness:
  "\<exists>r E' s'. call_function (eval_stmt int_plat no_threads 2)
     (FnValue (lit ''f'') [FnParam (lit ''x'') None None]
       [SReturn (Some (Ident (lit ''x'')))] rt_new None None None) [RInt 5] rt_new (interp_new ()) =
     Some (r, E', s') \<and> r = Ok (RInt 5) \<and> E' = rt_new"
proof -
  let ?f = "FnValue (lit ''f'') [FnParam (lit ''x'') None None]
       [SReturn (Some (Ident (lit ''x'')))] rt_new None None None :: int FnValue"
  have "rt_lookup (call_scope ?f [RInt 5]) (lit ''x'') = Some (RInt 5)"
    by (simp add: call_scope_def rtenv.lookup_define)
  then obtain s' where
    "call_function (eval_stmt int_plat no_threads 2) ?f [RInt 5] rt_new (interp_new ()) =
     Some (Ok (RInt 5), rt_new, s')"
    by (auto simp: call_function_def step_simps numeral_2_eq_2)
  with call_keeps_scope[OF this] show ?thesis by blast
qed

subsection \<open>While loops\<close>

lemma eval_ident_bound:
  "rt_lookup E x = Some v \<Longrightarrow>
   eval_expr P T m (Ident x) E s = (if m = 0 then None else Some (Ok v, E, s))"
  by (cases m) (simp_all add: expr_step_def eval_ident_def run_simps)

lemma while_loop_ends:
  assumes "rt_lookup E x = Some v" and "truthy_value P v"
    and "eval_while P (eval_expr P T m) (eval_stmt P T m) n (Ident x) body E s = Some (r, E', s')"
  shows "(r = Err RtReturn \<or> r = Panic) \<and> E' = E"
  using assms(3)
proof (induction n arbitrary: s)
  case (Suc n)
  then show ?case
    by (auto simp: eval_ident_bound[OF assms(1)] assms(2) bind_run_def[of "eval_expr P T m (Ident x)"]
        with_env_def bind_run_def attempt_def in_env_def fail_def
        split: if_splits option.splits prod.splits outcome.splits sum.splits rt_error.splits)
qed simp

text \<open>
  The body of a while loop runs in a copy of the scope, so it cannot change the variables the
  condition reads: a loop on a variable that is true when it starts never ends by itself. If it
  ends at all, the body returned from the enclosing function, or panicked; every other error of the
  body is dropped.
\<close>

theorem while_condition_is_fixed:
  assumes "rt_lookup E x = Some v" and "truthy_value P v"
    and "eval_stmt P T n (SWhile (Ident x) body) E s = Some (r, E', s')"
  shows "(r = Err RtReturn \<or> r = Panic) \<and> E' = E"
proof (cases n)
  case (Suc m)
  with assms(3) show ?thesis using while_loop_ends[OF assms(1,2)] by (simp add: stmt_step_def)
qed (use assms(3) in simp)

theorem while_condition_is_fixed_witness:
  "\<exists>r E' s'. eval_stmt int_plat no_threads 3 (SWhile (Ident (lit ''x'')) [SReturn None])
     (rt_define rt_new (lit ''x'') (RBool True)) (interp_new ()) = Some (r, E', s') \<and>
   (r = Err RtReturn \<or> r = Panic) \<and> E' = rt_define rt_new (lit ''x'') (RBool True)"
proof -
  let ?E = "rt_define rt_new (lit ''x'') (RBool True) :: int Environment"
  have x: "rt_lookup ?E (lit ''x'') = Some (RBool True)" by (simp add: rtenv.lookup_define)
  obtain r E' s' where r: "eval_stmt int_plat no_threads 3 (SWhile (Ident (lit ''x'')) [SReturn None])
      ?E (interp_new ()) = Some (r, E', s')"
    using x by (auto simp: step_simps numeral_3_eq_3)
  from while_condition_is_fixed[OF x _ r] r show ?thesis by auto
qed

text \<open>
  So the ordinary loop that clears its own flag runs forever, whatever the fuel.
\<close>

theorem clearing_loop_diverges:
  "interpret_program P T n (program_new\<lparr>statements :=
     [SLet (lit ''x'') (Some (BoolLiteral True)) None True,
      SWhile (Ident (lit ''x''))
        [SExpr (BinaryOp (Ident (lit ''x'')) (lit ''='') (BoolLiteral False))]]\<rparr>) s = None"
proof -
  let ?x = "lit ''x''" and ?E = "rt_define (global_env s) (lit ''x'') (RBool True)"
  let ?set = "SExpr (BinaryOp (Ident ?x) (lit ''='') (BoolLiteral False)) :: 'a Stmt"
  have x: "rt_lookup ?E ?x = Some (RBool True)" by (simp add: rtenv.lookup_define)
  then obtain E' where a: "rt_assign (rt_child ?E) ?x (RBool False) = Some E'"
    by (cases "rt_assign (rt_child ?E) ?x (RBool False)")
      (simp_all add: rtenv.assign_none rtenv.lookup_child)
  have body: "eval_stmt P T m ?set (rt_child ?E) s' =
      (if m < 3 then None else Some (Ok (RBool False), E', s'))" for m s'
  proof -
    consider "m = 0" | "m = 1" | "m = 2" | k where "m = Suc (Suc (Suc k))"
      by (metis One_nat_def numeral_2_eq_2 old.nat.exhaust)
    then show ?thesis
      using a by cases (simp_all add: step_simps numeral_2_eq_2)
  qed
  have loop: "eval_while P (eval_expr P T m) (eval_stmt P T m) k (Ident ?x) [?set] ?E s' = None"
    for k m s'
    by (induction k arbitrary: s')
      (auto simp: eval_ident_bound[OF x] bind_run_def[of "eval_expr P T m (Ident ?x)"] with_env_def
        bind_run_def attempt_def in_env_def eval_block_def body ret_def)
  have "eval_stmt P T n (SLet ?x (Some (BoolLiteral True)) None True) (global_env s) s =
      (if n < 2 then None else Some (Ok (RBool True), ?E, s))"
  proof -
    consider "n = 0" | "n = 1" | k where "n = Suc (Suc k)"
      by (metis One_nat_def old.nat.exhaust)
    then show ?thesis by cases (simp_all add: step_simps)
  qed
  moreover have "eval_stmt P T n (SWhile (Ident ?x) [?set]) ?E s = None"
    by (cases n) (simp_all add: stmt_step_def loop)
  ultimately show ?thesis
    by (simp add: interpret_program_def bind_run_def program_new_def)
qed

subsection \<open>Expressions that only compute\<close>

text \<open>
  An expression \<open>returns\<close> an outcome if with enough fuel it gives it in every scope and state, and
  changes neither.
\<close>

definition returns ::
  "'f plat \<Rightarrow> ('f, 'w) threads \<Rightarrow> 'f Expr \<Rightarrow> ('f rt_error, 'f RValue) outcome \<Rightarrow> bool" where
  "returns P T e r = (\<exists>n. \<forall>m\<ge>n. \<forall>E s. eval_expr P T m e E s = Some (r, E, s))"

lemma returnsI:
  assumes "\<And>m E s. n \<le> m \<Longrightarrow> eval_expr P T (Suc m) e E s = Some (r, E, s)"
  shows "returns P T e r"
  unfolding returns_def
proof (intro exI[of _ "Suc n"] allI impI)
  fix m E s assume "Suc n \<le> m"
  then obtain k where "m = Suc k" "n \<le> k" by (cases m) auto
  with assms show "eval_expr P T m e E s = Some (r, E, s)" by simp
qed

lemma returns_literal:
  "returns P T (IntLiteral i) (Ok (RInt i))" "returns P T (FloatLiteral x) (Ok (RFloat x))"
  "returns P T (StringLiteral v) (Ok (RString v))" "returns P T (BoolLiteral b) (Ok (RBool b))"
  by (rule returnsI[of 0], simp add: expr_step_def ret_def)+

lemma returns_binary:
  assumes "returns P T l r1" and "returns P T r r2" and "op \<noteq> lit ''=''"
  shows "returns P T (BinaryOp l op r)
    (obind r1 (\<lambda>a. obind r2 (\<lambda>b. apply_binary P op a b)))"
proof -
  obtain n1 n2 where n: "\<And>m E s. n1 \<le> m \<Longrightarrow> eval_expr P T m l E s = Some (r1, E, s)"
    "\<And>m E s. n2 \<le> m \<Longrightarrow> eval_expr P T m r E s = Some (r2, E, s)"
    using assms(1,2) unfolding returns_def by blast
  show ?thesis
  proof (rule returnsI)
    fix m E s assume "max n1 n2 \<le> m"
    then have "eval_expr P T m l E s = Some (r1, E, s)" "eval_expr P T m r E s = Some (r2, E, s)"
      using n by simp_all
    then show "eval_expr P T (Suc m) (BinaryOp l op r) E s =
        Some (obind r1 (\<lambda>a. obind r2 (\<lambda>b. apply_binary P op a b)), E, s)"
      by (cases r1; cases r2) (simp_all add: expr_step_def eval_binary_def assms(3) run_simps)
  qed
qed

lemma returns_unary:
  assumes "returns P T e r"
  shows "returns P T (UnaryOp op e) (obind r (apply_unary P op))"
proof -
  obtain n where n: "\<And>m E s. n \<le> m \<Longrightarrow> eval_expr P T m e E s = Some (r, E, s)"
    using assms unfolding returns_def by blast
  show ?thesis
    by (rule returnsI[of n]; cases r) (simp_all add: expr_step_def run_simps n)
qed

lemma returns_if:
  assumes "returns P T c r" and "returns P T t r1" and "returns P T e r2"
  shows "returns P T (IfExpr c t e)
    (obind r (\<lambda>v. if truthy_value P v then r1 else r2))"
proof -
  obtain n where n: "\<And>m E s. n \<le> m \<Longrightarrow> eval_expr P T m c E s = Some (r, E, s)"
    using assms(1) unfolding returns_def by blast
  obtain n1 n2 where n': "\<And>m E s. n1 \<le> m \<Longrightarrow> eval_expr P T m t E s = Some (r1, E, s)"
    "\<And>m E s. n2 \<le> m \<Longrightarrow> eval_expr P T m e E s = Some (r2, E, s)"
    using assms(2,3) unfolding returns_def by blast
  show ?thesis
    by (rule returnsI[of "max n (max n1 n2)"]; cases r) (simp_all add: expr_step_def run_simps n n')
qed

lemma returns_program:
  assumes "returns P T e r"
  shows "\<exists>n. interpret_program P T n (one_expr e) s = Some (obind r (\<lambda>v. Ok [v]), s)"
proof -
  obtain n where n: "\<And>m E s. n \<le> m \<Longrightarrow> eval_expr P T m e E s = Some (r, E, s)"
    using assms unfolding returns_def by blast
  have "interpret_program P T (Suc n) (one_expr e) s = Some (obind r (\<lambda>v. Ok [v]), s)"
    by (cases r) (simp_all add: interpret_program_def stmt_step_def run_simps n)
  then show ?thesis by blast
qed

subsection \<open>The types of numbers\<close>

fun number_of_value :: "'f RValue \<Rightarrow> bool option" where
  "number_of_value (RInt _) = Some False"
| "number_of_value (RFloat _) = Some True"
| "number_of_value _ = None"

definition number_outcome :: "bool \<Rightarrow> ('f rt_error, 'f RValue) outcome \<Rightarrow> bool" where
  "number_outcome b r = (case r of
      Ok v \<Rightarrow> number_of_value v = Some b
    | Err x \<Rightarrow> b \<and>
        (\<exists>c d. x = CannotApply (lit ''divide'') c d \<or> x = CannotApply (lit ''modulo'') c d)
    | Panic \<Rightarrow> True)"

lemma number_outcome_simps [simp]:
  "number_outcome b (Ok v) = (number_of_value v = Some b)"
  "number_outcome b Panic"
  "number_outcome True (Err (CannotApply (lit ''divide'') c d))"
  "number_outcome True (Err (CannotApply (lit ''modulo'') c d))"
  "number_outcome False (obind (or_panic q) (\<lambda>n. Ok (RInt n)))"
  by (auto simp: number_outcome_def or_panic_def split: option.split)

lemma number_outcome_obind:
  assumes "number_outcome b r" and "\<And>v. number_of_value v = Some b \<Longrightarrow> number_outcome c (f v)"
    and "b \<Longrightarrow> c"
  shows "number_outcome c (obind r f)"
  using assms by (cases r) (auto simp: number_outcome_def)

lemma arith_ops:
  assumes "op \<in> {lit ''+'', lit ''-'', lit ''*'', lit ''/'', lit ''%''}"
    and "number_of_value a = Some x" and "number_of_value b = Some y"
  shows "number_outcome (x \<or> y) (apply_binary P op a b)"
proof -
  have ops: "apply_binary P (lit ''+'') = add_values P" "apply_binary P (lit ''-'') = sub_values P"
    "apply_binary P (lit ''*'') = mul_values P" "apply_binary P (lit ''/'') = div_values P"
    "apply_binary P (lit ''%'') = mod_values"
    by (intro ext, simp add: apply_binary_def lit_def)+
  show ?thesis
    using assms
    by (cases a; cases b)
      (auto simp: ops add_values_def sub_values_def mul_values_def div_values_def mod_values_def)
qed

lemma arith_returns:
  "arith e \<Longrightarrow> \<exists>r. returns P T e r \<and> number_outcome (mentions_float e) r"
proof (induction e rule: arith.induct)
  case (1 n)
  show ?case by (rule exI[of _ "Ok (RInt n)"]) (simp add: returns_literal)
next
  case (2 x)
  show ?case by (rule exI[of _ "Ok (RFloat x)"]) (simp add: returns_literal)
next
  case (3 op e)
  then have op: "op = lit ''-''" and "arith e" by simp_all
  with "3.IH" obtain r where r: "returns P T e r" "number_outcome (mentions_float e) r" by blast
  have "number_outcome (mentions_float e) (apply_unary P op v)"
    if "number_of_value v = Some (mentions_float e)" for v
    using that by (cases v) (auto simp: apply_unary_def op)
  with returns_unary[OF r(1), of op] number_outcome_obind[OF r(2)] show ?case by auto
next
  case (4 l op r)
  then have op: "op \<in> {lit ''+'', lit ''-'', lit ''*'', lit ''/'', lit ''%''}" "arith l" "arith r"
    by (simp_all only: arith.simps)
  with "4.IH" obtain r1 r2 where r: "returns P T l r1" "returns P T r r2"
    "number_outcome (mentions_float l) r1" "number_outcome (mentions_float r) r2"
    by blast
  have "op \<noteq> lit ''=''" using op(1) by (auto simp: lit_def)
  from returns_binary[OF r(1,2) this]
  have "returns P T (BinaryOp l op r) (obind r1 (\<lambda>a. obind r2 (apply_binary P op a)))" .
  moreover have "number_outcome (mentions_float (BinaryOp l op r))
      (obind r1 (\<lambda>a. obind r2 (apply_binary P op a)))"
    by (rule number_outcome_obind[OF r(3)], rule number_outcome_obind[OF r(4)])
      (auto dest: arith_ops[OF op(1)] simp del: number_outcome_simps)
  ultimately show ?case by blast
qed simp_all

definition number_type_of :: "'f RValue \<Rightarrow> TypeRef" where
  "number_type_of v = (case v of RFloat _ \<Rightarrow> float_type | _ \<Rightarrow> int_type)"

lemma number_type_of_value:
  "number_of_value v = Some b \<Longrightarrow> number_type_of v = (if b then float_type else int_type)"
  by (cases v) (auto simp: number_type_of_def)

text \<open>
  C8: Types of arithmetic are sound at run time. Arithmetic on numeric literals always returns; the
  scope and the state are as before; its value has the inferred type; and the only error is a
  division or remainder with a float among the operands, which inference accepts. Otherwise it
  panics, on an overflow or a zero divisor.
\<close>

theorem arithmetic_type_sound:
  assumes "arith e"
  shows "\<exists>n r. eval_expr P T n e E s = Some (r, E, s) \<and> (case r of
      Ok v \<Rightarrow> infer_expr e st = (Concrete (number_type_of v), st)
    | Err x \<Rightarrow> infer_expr e st = (Concrete float_type, st) \<and>
        (\<exists>a b. x = CannotApply (lit ''divide'') a b \<or> x = CannotApply (lit ''modulo'') a b)
    | Panic \<Rightarrow> True)"
proof -
  obtain r where r: "returns P T e r" "number_outcome (mentions_float e) r"
    using arith_returns[OF assms] by blast
  then obtain n where "eval_expr P T n e E s = Some (r, E, s)" unfolding returns_def by blast
  with r(2) show ?thesis
    by (intro exI[of _ n] exI[of _ r])
      (auto simp: infer_arith[OF assms] number_type_def number_type_of_value number_outcome_def
        split: outcome.split)
qed

theorem arithmetic_type_sound_witness:
  "\<exists>n r. eval_expr int_plat no_threads n
      (BinaryOp (IntLiteral 1) (lit ''/'') (FloatLiteral 2)) rt_new (interp_new ()) =
      Some (r, rt_new, interp_new ()) \<and> (case r of
      Ok v \<Rightarrow> infer_expr (BinaryOp (IntLiteral 1) (lit ''/'') (FloatLiteral (2 :: int))) (tyinf_new 0) =
        (Concrete (number_type_of v), tyinf_new 0)
    | Err x \<Rightarrow> infer_expr (BinaryOp (IntLiteral 1) (lit ''/'') (FloatLiteral (2 :: int))) (tyinf_new 0) =
        (Concrete float_type, tyinf_new 0) \<and>
        (\<exists>a b. x = CannotApply (lit ''divide'') a b \<or> x = CannotApply (lit ''modulo'') a b)
    | Panic \<Rightarrow> True)"
  by (rule arithmetic_type_sound) simp

subsection \<open>Operations that do less or more than their source text suggests\<close>

lemma element_assignment_lost:
  assumes "rt_lookup E a = Some (RArray vs)" and "unat k < length vs"
  shows "eval_expr P T (n + 3) (BinaryOp (Index (Ident a) (IntLiteral k)) (lit ''='') (IntLiteral v)) E s =
    Some (Ok (RInt v), E, s)"
  using assms
  by (simp add: expr_step_def eval_binary_def run_simps eval_ident_def numeral_3_eq_3)

text \<open>
  C40: Four operations that surprise. Assigning to an element of an array variable gives the
  assigned value and changes nothing, since the element is set in a copy of the array. The logical
  operators evaluate both operands, so a false left operand does not keep an error of the right one
  away. The builtin \<open>assert\<close> with one argument never fails. An integer division by zero is not
  an error but a panic.
\<close>

theorem operations_that_surprise:
  "eval_expr P T (n + 3) (BinaryOp (Index (Ident a) (IntLiteral 0)) (lit ''='') (IntLiteral k))
     (rt_define E a (RArray (v # vs))) s =
     Some (Ok (RInt k), rt_define E a (RArray (v # vs)), s) \<and>
   eval_expr P T (n + 2) (BinaryOp (BoolLiteral False) (lit ''&&'') (Ident y)) rt_new (interp_new w) =
     Some (Err (UndefinedVariable y), rt_new, interp_new w) \<and>
   call_builtin_rt P T (lit ''assert'') [v] E s = Some (Ok RNone, E, s) \<and>
   apply_binary P (lit ''/'') (RInt i) (RInt 0) = Panic"
proof (intro conjI)
  show "eval_expr P T (n + 3) (BinaryOp (Index (Ident a) (IntLiteral 0)) (lit ''='') (IntLiteral k))
     (rt_define E a (RArray (v # vs))) s =
     Some (Ok (RInt k), rt_define E a (RArray (v # vs)), s)"
    by (rule element_assignment_lost[of _ _ "v # vs"]) (simp_all add: rtenv.lookup_define)
qed (simp_all add: expr_step_def eval_binary_def run_simps eval_ident_def numeral_2_eq_2
    interp_new_def rtenv.lookup_empty lit_def call_builtin_rt_def apply_binary_def div_values_def
    i64_div_def)

end
