(* ===== verification/Vm.thy ===== *)
theory Vm
  imports Prelude
begin

section \<open>The bytecode virtual machine (dlvm/src/lib.rs)\<close>

text \<open>
  A machine with an operand stack, a call stack and a table of functions. The operand stack is a
  list whose head is the top. \<open>out\<close> is the text written to standard output. An operation returns
  the next state, the error it reports, or \<open>Panic\<close> where the Rust code panics.
\<close>

type_synonym u16 = "16 word"
type_synonym i16 = "16 word"
type_synonym u8 = "8 word"

datatype (plugins only: size) 'f Opcode =
    OpLoadInt i64
  | OpLoadFloat 'f
  | OpLoadStr u16
  | OpLoadBool bool
  | OpLoadNone
  | OpAdd
  | OpSub
  | OpMul
  | OpDiv
  | OpNeg
  | OpEq
  | OpNe
  | OpLt
  | OpGt
  | OpLe
  | OpGe
  | OpJmp i16
  | OpJmpIf i16
  | OpJmpIfNot i16
  | OpHalt
  | OpCall u16
  | OpReturn
  | OpMakeClosure u16
  | OpMakeArray u16
  | OpIndex
  | OpMember u16
  | OpBuiltin u8
  | OpSpawn u16
  | OpSend
  | OpRecv

record 'f BytecodeFunction =
  bf_name :: ustr
  bf_code :: "'f Opcode list"
  bf_constants :: "ustr list"
  bf_arity :: u8
  bf_locals :: u8
  bf_effect :: "ustr option"
  bf_capability :: "ustr option"

datatype 'f Value =
    VInt i64
  | VFloat 'f
  | VBool bool
  | VStr ustr
  | VNone
  | VArray "'f Value list"
  | VClosure u16 "'f Value list"

subsection \<open>Values\<close>

text \<open>\<open>PartialEq\<close>: floats are equal up to the machine epsilon; arrays never are.\<close>

fun value_eq :: "'f plat \<Rightarrow> 'f Value \<Rightarrow> 'f Value \<Rightarrow> bool" where
  "value_eq P (VInt a) (VInt b) = (a = b)"
| "value_eq P (VFloat a) (VFloat b) = f_small P Epsilon (f_sub P a b)"
| "value_eq P (VBool a) (VBool b) = (a = b)"
| "value_eq P (VStr a) (VStr b) = (a = b)"
| "value_eq P VNone VNone = True"
| "value_eq P _ _ = False"

text \<open>\<open>PartialOrd\<close>.\<close>

fun value_partial_cmp :: "'f plat \<Rightarrow> 'f Value \<Rightarrow> 'f Value \<Rightarrow> ordering option" where
  "value_partial_cmp P (VInt a) (VInt b) = Some (i64_cmp a b)"
| "value_partial_cmp P (VFloat a) (VFloat b) = f_cmp P a b"
| "value_partial_cmp P (VStr a) (VStr b) = Some (str_cmp a b)"
| "value_partial_cmp P _ _ = None"

fun show_value :: "'f plat \<Rightarrow> 'f Value \<Rightarrow> ustr" where
  "show_value P (VInt i) = show_int (sint i)"
| "show_value P (VFloat x) = f_show P x"
| "show_value P (VBool b) = (if b then lit ''true'' else lit ''false'')"
| "show_value P (VStr s) = s"
| "show_value P VNone = lit ''none''"
| "show_value P (VArray vs) =
     lit ''['' @ join_with (lit '', '') (map (show_value P) vs) @ lit '']''"
| "show_value P (VClosure idx _) = lit ''<closure fn#'' @ show_nat (unat idx) @ lit ''>''"

fun as_int :: "'f Value \<Rightarrow> i64 option" where
  "as_int (VInt n) = Some n"
| "as_int _ = None"

fun as_float :: "'f Value \<Rightarrow> 'f option" where
  "as_float (VFloat x) = Some x"
| "as_float _ = None"

fun as_str :: "'f Value \<Rightarrow> ustr option" where
  "as_str (VStr s) = Some s"
| "as_str _ = None"

subsection \<open>The machine\<close>

datatype 'f VmError =
    StackUnderflow
  | InvalidOpcode "'f Opcode"
  | FunctionNotFound u16
  | VmTypeError ustr
  | DivisionByZero
  | HaltError

record 'f Vm =
  stack :: "'f Value list"
  call_stack :: "(nat \<times> nat) list"
  fn_table :: "'f BytecodeFunction list"
  ip :: nat
  current_fn :: nat
  running :: bool
  out :: ustr

definition vm_new :: "'f BytecodeFunction list \<Rightarrow> 'f Vm" where
  "vm_new fs = \<lparr>stack = [], call_stack = [], fn_table = fs, ip = 0, current_fn = 0,
     running = False, out = []\<rparr>"

type_synonym ('f, 'a) vm_res = "('f VmError, 'a) outcome"

definition push_val :: "'f Value \<Rightarrow> 'f Vm \<Rightarrow> 'f Vm" where
  "push_val v vm = vm\<lparr>stack := v # stack vm\<rparr>"

text \<open>\<open>self.stack.pop().ok_or(VmError::StackUnderflow)?\<close>.\<close>

definition pop_val :: "'f Vm \<Rightarrow> ('f, 'f Value \<times> 'f Vm) vm_res" where
  "pop_val vm =
     (case stack vm of [] \<Rightarrow> Err StackUnderflow | v # vs \<Rightarrow> Ok (v, vm\<lparr>stack := vs\<rparr>))"

fun truthy :: "'f Value \<Rightarrow> bool" where
  "truthy (VBool b) = b"
| "truthy VNone = False"
| "truthy (VInt n) = (n \<noteq> 0)"
| "truthy _ = True"

definition pop_bool :: "'f Vm \<Rightarrow> ('f, bool \<times> 'f Vm) vm_res" where
  "pop_bool vm = obind (pop_val vm) (\<lambda>(v, vm'). Ok (truthy v, vm'))"

text \<open>The results of the operators on the two operands (the second was on top).\<close>

fun vm_add :: "'f plat \<Rightarrow> 'f Value \<Rightarrow> 'f Value \<Rightarrow> ('f, 'f Value) vm_res" where
  "vm_add P (VInt x) (VInt y) = obind (or_panic (i64_add (ovf_checks P) x y)) (\<lambda>n. Ok (VInt n))"
| "vm_add P (VFloat x) (VFloat y) = Ok (VFloat (f_add P x y))"
| "vm_add P (VStr x) (VStr y) = Ok (VStr (x @ y))"
| "vm_add P _ _ = Err (VmTypeError (lit ''+ requires int/float/str''))"

fun vm_sub :: "'f plat \<Rightarrow> 'f Value \<Rightarrow> 'f Value \<Rightarrow> ('f, 'f Value) vm_res" where
  "vm_sub P (VInt x) (VInt y) = obind (or_panic (i64_sub (ovf_checks P) x y)) (\<lambda>n. Ok (VInt n))"
| "vm_sub P (VFloat x) (VFloat y) = Ok (VFloat (f_sub P x y))"
| "vm_sub P _ _ = Err (VmTypeError (lit ''- requires int/float''))"

fun vm_mul :: "'f plat \<Rightarrow> 'f Value \<Rightarrow> 'f Value \<Rightarrow> ('f, 'f Value) vm_res" where
  "vm_mul P (VInt x) (VInt y) = obind (or_panic (i64_mul (ovf_checks P) x y)) (\<lambda>n. Ok (VInt n))"
| "vm_mul P (VFloat x) (VFloat y) = Ok (VFloat (f_mul P x y))"
| "vm_mul P _ _ = Err (VmTypeError (lit ''* requires int/float''))"

definition is_zero_value :: "'f plat \<Rightarrow> 'f Value \<Rightarrow> bool" where
  "is_zero_value P v = (case v of VInt n \<Rightarrow> n = 0 | VFloat x \<Rightarrow> f_is_zero P x | _ \<Rightarrow> False)"

definition vm_div :: "'f plat \<Rightarrow> 'f Value \<Rightarrow> 'f Value \<Rightarrow> ('f, 'f Value) vm_res" where
  "vm_div P a b =
     (if is_zero_value P b then Err DivisionByZero
      else case (a, b) of
          (VInt x, VInt y) \<Rightarrow> obind (or_panic (i64_div x y)) (\<lambda>n. Ok (VInt n))
        | (VFloat x, VFloat y) \<Rightarrow> Ok (VFloat (f_div P x y))
        | _ \<Rightarrow> Err (VmTypeError (lit ''/ requires int/float'')))"

fun vm_neg :: "'f plat \<Rightarrow> 'f Value \<Rightarrow> ('f, 'f Value) vm_res" where
  "vm_neg P (VInt x) = obind (or_panic (i64_neg (ovf_checks P) x)) (\<lambda>n. Ok (VInt n))"
| "vm_neg P (VFloat x) = Ok (VFloat (f_neg P x))"
| "vm_neg P _ = Err (VmTypeError (lit ''-x requires numeric''))"

fun vm_lt :: "'f plat \<Rightarrow> 'f Value \<Rightarrow> 'f Value \<Rightarrow> bool" where
  "vm_lt P (VInt x) (VInt y) = (sint x < sint y)"
| "vm_lt P (VFloat x) (VFloat y) = f_lt P x y"
| "vm_lt P (VStr x) (VStr y) = str_less x y"
| "vm_lt P _ _ = False"

fun vm_le :: "'f plat \<Rightarrow> 'f Value \<Rightarrow> 'f Value \<Rightarrow> bool" where
  "vm_le P (VInt x) (VInt y) = (sint x \<le> sint y)"
| "vm_le P (VFloat x) (VFloat y) = f_le P x y"
| "vm_le P (VStr x) (VStr y) = (\<not> str_less y x)"
| "vm_le P _ _ = False"

definition vm_index :: "'f Value \<Rightarrow> 'f Value \<Rightarrow> ('f, 'f Value) vm_res" where
  "vm_index arr idx =
     (case (arr, idx) of
        (VArray vs, VInt i) \<Rightarrow>
          (if sint i < 0 \<or> nat (sint i) \<ge> length vs
           then Err (VmTypeError (lit ''array index '' @ show_int (sint i) @
             lit '' out of bounds ['' @ show_nat (length vs) @ lit '']''))
           else Ok (vs ! nat (sint i)))
      | (VStr s, VInt i) \<Rightarrow>
          (if sint i < 0 \<or> nat (sint i) \<ge> utf8_len s
           then Err (VmTypeError (lit ''string index '' @ show_int (sint i) @
             lit '' out of bounds''))
           else if nat (sint i) < length s then Ok (VStr [s ! nat (sint i)]) else Panic)
      | _ \<Rightarrow> Err (VmTypeError (lit ''index requires array/string'')))"

text \<open>An operator with two operands: pop both, push the result.\<close>

definition binary_op ::
  "('f Value \<Rightarrow> 'f Value \<Rightarrow> ('f, 'f Value) vm_res) \<Rightarrow> 'f Vm \<Rightarrow> ('f, 'f Vm) vm_res" where
  "binary_op f vm =
     obind (pop_val vm) (\<lambda>(b, vm1). obind (pop_val vm1) (\<lambda>(a, vm2).
       obind (f a b) (\<lambda>r. Ok (push_val r vm2))))"

definition compare_op ::
  "('f Value \<Rightarrow> 'f Value \<Rightarrow> bool) \<Rightarrow> 'f Vm \<Rightarrow> ('f, 'f Vm) vm_res" where
  "compare_op f = binary_op (\<lambda>a b. Ok (VBool (f a b)))"

text \<open>
  A jump, relative to the instruction after it. The negation of the least i16 overflows: it panics
  with overflow checks, and wraps to itself without, where the cast to usize makes it huge and the
  saturating subtraction gives 0.
\<close>

definition jump :: "bool \<Rightarrow> i16 \<Rightarrow> 'f Vm \<Rightarrow> ('f, 'f Vm) vm_res" where
  "jump chk offset vm =
     (if 0 \<le> sint offset then Ok (vm\<lparr>ip := ip vm + nat (sint offset)\<rparr>)
      else if sint offset = - (2 ^ 15) then (if chk then Panic else Ok (vm\<lparr>ip := 0\<rparr>))
      else Ok (vm\<lparr>ip := ip vm - nat (- sint offset)\<rparr>))"

fun find_fn_from :: "nat \<Rightarrow> nat \<Rightarrow> nat \<Rightarrow> 'f BytecodeFunction list \<Rightarrow> nat option" where
  "find_fn_from i offset target [] = None"
| "find_fn_from i offset target (f # fs) =
     (if offset \<le> target \<and> target < offset + length (bf_code f) then Some i
      else find_fn_from (Suc i) (offset + length (bf_code f)) target fs)"

definition find_fn_by_ip :: "'f Vm \<Rightarrow> nat \<Rightarrow> nat option" where
  "find_fn_by_ip vm target = find_fn_from 0 0 target (fn_table vm)"

definition execute_builtin :: "'f plat \<Rightarrow> u8 \<Rightarrow> 'f Vm \<Rightarrow> ('f, 'f Vm) vm_res" where
  "execute_builtin P idx vm =
     (if idx = 0 then
        obind (pop_val vm) (\<lambda>(v, vm1).
          Ok (push_val VNone (vm1\<lparr>out := out vm1 @ show_value P v\<rparr>)))
      else if idx = 1 then
        obind (pop_val vm) (\<lambda>(v, vm1).
          Ok (push_val VNone (vm1\<lparr>out := out vm1 @ show_value P v @ [10]\<rparr>)))
      else if idx = 2 then
        obind (pop_val vm) (\<lambda>(v, vm1).
          case v of
            VArray vs \<Rightarrow> Ok (push_val (VInt (of_nat (length vs))) vm1)
          | VStr s \<Rightarrow> Ok (push_val (VInt (of_nat (utf8_len s))) vm1)
          | _ \<Rightarrow> Err (VmTypeError (lit ''len requires array/str'')))
      else if idx = 3 then
        obind (pop_bool vm) (\<lambda>(c, vm1).
          if \<not> c then Err (VmTypeError (lit ''assertion failed'')) else Ok (push_val VNone vm1))
      else Err (InvalidOpcode (OpBuiltin idx)))"

text \<open>\<open>n\<close> pops, the popped values in stack order.\<close>

fun pop_many :: "nat \<Rightarrow> 'f Vm \<Rightarrow> ('f, 'f Value list \<times> 'f Vm) vm_res" where
  "pop_many 0 vm = Ok ([], vm)"
| "pop_many (Suc n) vm =
     obind (pop_val vm) (\<lambda>(v, vm1). obind (pop_many n vm1) (\<lambda>(vs, vm2). Ok (v # vs, vm2)))"

text \<open>\<open>Vec::truncate\<close> on a stack whose head is the top.\<close>

definition truncate_stack :: "nat \<Rightarrow> 'a list \<Rightarrow> 'a list" where
  "truncate_stack base xs = drop (length xs - base) xs"

definition nth_function :: "'f Vm \<Rightarrow> nat \<Rightarrow> 'f BytecodeFunction option" where
  "nth_function vm i = (if i < length (fn_table vm) then Some (fn_table vm ! i) else None)"

fun execute_op :: "'f plat \<Rightarrow> 'f Opcode \<Rightarrow> 'f Vm \<Rightarrow> ('f, 'f Vm) vm_res" where
  "execute_op P (OpLoadInt n) vm = Ok (push_val (VInt n) vm)"
| "execute_op P (OpLoadFloat x) vm = Ok (push_val (VFloat x) vm)"
| "execute_op P (OpLoadStr idx) vm =
     obind (or_panic (nth_function vm (current_fn vm))) (\<lambda>f.
       Ok (push_val (VStr (if unat idx < length (bf_constants f)
         then bf_constants f ! unat idx else [])) vm))"
| "execute_op P (OpLoadBool b) vm = Ok (push_val (VBool b) vm)"
| "execute_op P OpLoadNone vm = Ok (push_val VNone vm)"
| "execute_op P OpAdd vm = binary_op (vm_add P) vm"
| "execute_op P OpSub vm = binary_op (vm_sub P) vm"
| "execute_op P OpMul vm = binary_op (vm_mul P) vm"
| "execute_op P OpDiv vm = binary_op (vm_div P) vm"
| "execute_op P OpNeg vm =
     obind (pop_val vm) (\<lambda>(v, vm1). obind (vm_neg P v) (\<lambda>r. Ok (push_val r vm1)))"
| "execute_op P OpEq vm = compare_op (value_eq P) vm"
| "execute_op P OpNe vm = compare_op (\<lambda>a b. \<not> value_eq P a b) vm"
| "execute_op P OpLt vm = compare_op (vm_lt P) vm"
| "execute_op P OpGt vm = compare_op (\<lambda>a b. vm_lt P b a) vm"
| "execute_op P OpLe vm = compare_op (vm_le P) vm"
| "execute_op P OpGe vm = compare_op (\<lambda>a b. vm_le P b a) vm"
| "execute_op P (OpJmp offset) vm = jump (ovf_checks P) offset vm"
| "execute_op P (OpJmpIf offset) vm =
     obind (pop_bool vm) (\<lambda>(c, vm1). if c then jump (ovf_checks P) offset vm1 else Ok vm1)"
| "execute_op P (OpJmpIfNot offset) vm =
     obind (pop_bool vm) (\<lambda>(c, vm1). if \<not> c then jump (ovf_checks P) offset vm1 else Ok vm1)"
| "execute_op P OpReturn vm =
     obind (pop_val vm) (\<lambda>(result, vm1).
       case call_stack vm1 of
         (ret_ip, base) # frames \<Rightarrow>
           Ok (vm1\<lparr>call_stack := frames, stack := result # truncate_stack base (stack vm1),
             ip := ret_ip,
             current_fn := (case find_fn_by_ip vm1 ret_ip of Some i \<Rightarrow> i | None \<Rightarrow> 0)\<rparr>)
       | [] \<Rightarrow> Ok ((push_val result vm1)\<lparr>running := False\<rparr>))"
| "execute_op P (OpCall argc) vm =
     Ok (vm\<lparr>call_stack := (ip vm, length (stack vm) - unat argc) # call_stack vm\<rparr>)"
| "execute_op P OpHalt vm = Ok (vm\<lparr>running := False\<rparr>)"
| "execute_op P (OpMakeClosure idx) vm = Ok (push_val (VClosure idx []) vm)"
| "execute_op P OpIndex vm = binary_op vm_index vm"
| "execute_op P (OpMember field) vm =
     (case nth_function vm (current_fn vm) of
        None \<Rightarrow> Panic
      | Some _ \<Rightarrow>
          (case stack vm of [] \<Rightarrow> Err StackUnderflow | _ # _ \<Rightarrow> Ok (push_val VNone vm)))"
| "execute_op P (OpSpawn fn_idx) vm = Ok (push_val VNone vm)"
| "execute_op P OpSend vm =
     obind (pop_val vm) (\<lambda>(_, vm1). obind (pop_val vm1) (\<lambda>(_, vm2). Ok (push_val VNone vm2)))"
| "execute_op P OpRecv vm = Ok (push_val VNone vm)"
| "execute_op P (OpBuiltin idx) vm = execute_builtin P idx vm"
| "execute_op P (OpMakeArray len) vm =
     obind (pop_many (unat len) vm) (\<lambda>(vs, vm1). Ok (push_val (VArray (rev vs)) vm1))"

text \<open>The loop of \<open>run\<close>, \<open>None\<close> when it does not end; and \<open>run\<close> with the result it pops.\<close>

partial_function (option) run_loop :: "'f plat \<Rightarrow> 'f Vm \<Rightarrow> ('f, 'f Vm) vm_res option" where
  "run_loop P vm =
     (if \<not> running vm then Some (Ok vm)
      else case nth_function vm (current_fn vm) of
          None \<Rightarrow> Some Panic
        | Some f \<Rightarrow>
            if ip vm \<ge> length (bf_code f) then Some (Ok vm)
            else (case execute_op P (bf_code f ! ip vm) (vm\<lparr>ip := ip vm + 1\<rparr>) of
                Ok vm' \<Rightarrow> run_loop P vm'
              | Err e \<Rightarrow> Some (Err e)
              | Panic \<Rightarrow> Some Panic))"

definition run_vm :: "'f plat \<Rightarrow> 'f Vm \<Rightarrow> ('f, 'f Value \<times> 'f Vm) vm_res option" where
  "run_vm P vm =
     (case run_loop P (vm\<lparr>running := True, ip := 0, current_fn := 0\<rparr>) of
        None \<Rightarrow> None
      | Some r \<Rightarrow> Some (obind r (\<lambda>vm'.
          case stack vm' of [] \<Rightarrow> Ok (VNone, vm') | v # vs \<Rightarrow> Ok (v, vm'\<lparr>stack := vs\<rparr>))))"

end
