(* ===== verification/VmCompiler.thy ===== *)
theory VmCompiler
  imports Vm Ast
begin

section \<open>The bytecode compiler (dlvm/src/compiler.rs)\<close>

text \<open>
  The compiler appends instructions to the code of the function being compiled and strings to its
  constants. The state is the record \<open>bc\<close>; \<open>None\<close> is the panic of an overflowing i16
  subtraction in a build with overflow checks.
\<close>

record 'f bc =
  bc_functions :: "'f BytecodeFunction list"
  bc_constants :: "ustr list"
  bc_code :: "'f Opcode list"
  bc_fn_name :: ustr

definition bc_new :: "'f bc" where
  "bc_new = \<lparr>bc_functions = [], bc_constants = [], bc_code = [], bc_fn_name = lit ''main''\<rparr>"

definition start_function :: "ustr \<Rightarrow> 'f bc \<Rightarrow> 'f bc" where
  "start_function name s = s\<lparr>bc_fn_name := name, bc_code := [], bc_constants := []\<rparr>"

definition finish_function :: "'f bc \<Rightarrow> 'f bc" where
  "finish_function s = s\<lparr>bc_functions := bc_functions s @
       [\<lparr>bf_name = bc_fn_name s, bf_code = bc_code s, bf_constants = bc_constants s, bf_arity = 0,
         bf_locals = 0, bf_effect = None, bf_capability = None\<rparr>],
     bc_fn_name := [], bc_code := [], bc_constants := []\<rparr>"

definition emit :: "'f Opcode \<Rightarrow> 'f bc \<Rightarrow> 'f bc" where
  "emit op s = s\<lparr>bc_code := bc_code s @ [op]\<rparr>"

definition add_constant :: "ustr \<Rightarrow> 'f bc \<Rightarrow> u16 \<times> 'f bc" where
  "add_constant str s =
     (of_nat (length (bc_constants s)), s\<lparr>bc_constants := bc_constants s @ [str]\<rparr>)"

text \<open>The instruction of a binary operator.\<close>

definition binary_opcode :: "ustr \<Rightarrow> 'f Opcode" where
  "binary_opcode op =
     (if op = lit ''+'' then OpAdd else if op = lit ''-'' then OpSub
      else if op = lit ''*'' then OpMul else if op = lit ''/'' then OpDiv
      else if op = lit ''=='' then OpEq else if op = lit ''!='' then OpNe
      else if op = lit ''<'' then OpLt else if op = lit ''>'' then OpGt
      else if op = lit ''<='' then OpLe else if op = lit ''>='' then OpGe
      else OpAdd)"

definition call_builtin :: "ustr \<Rightarrow> u8 option" where
  "call_builtin name =
     (if name = lit ''print'' then Some 0 else if name = lit ''println'' then Some 1
      else if name = lit ''len'' then Some 2 else if name = lit ''assert'' then Some 3
      else None)"

definition pipe_builtin :: "ustr \<Rightarrow> u8 option" where
  "pipe_builtin name =
     (if name = lit ''print'' then Some 0 else if name = lit ''println'' then Some 1 else None)"

text \<open>\<open>a as i16 - b as i16 - 1\<close> on two lengths.\<close>

definition i16_sub :: "bool \<Rightarrow> i16 \<Rightarrow> i16 \<Rightarrow> i16 option" where
  "i16_sub chk a b =
     (let d = sint a - sint b in
      if chk \<and> \<not> (- (2 ^ 15) \<le> d \<and> d < 2 ^ 15) then None else Some (word_of_int d))"

definition jump_offset :: "bool \<Rightarrow> nat \<Rightarrow> nat \<Rightarrow> i16 option" where
  "jump_offset chk a b =
     Option.bind (i16_sub chk (of_nat a) (of_nat b)) (\<lambda>d. i16_sub chk d 1)"

definition patch :: "nat \<Rightarrow> 'f Opcode \<Rightarrow> 'f bc \<Rightarrow> 'f bc" where
  "patch i op s = s\<lparr>bc_code := (bc_code s)[i := op]\<rparr>"

fun compile_all :: "('f Expr \<Rightarrow> 'f bc \<Rightarrow> 'f bc option) \<Rightarrow> 'f Expr list \<Rightarrow> 'f bc \<Rightarrow> 'f bc option" where
  "compile_all f [] s = Some s"
| "compile_all f (e # es) s = Option.bind (f e s) (compile_all f es)"

lemma compile_all_cong [fundef_cong]:
  assumes "es = es'" and "s = s'" and "\<And>e u. e \<in> set es' \<Longrightarrow> f e u = g e u"
  shows "compile_all f es s = compile_all g es' s'"
proof -
  have "compile_all f es' s = compile_all g es' s" if "\<And>e u. e \<in> set es' \<Longrightarrow> f e u = g e u" for s
    using that
  proof (induction es' arbitrary: s)
    case (Cons e es)
    then show ?case by (cases "g e s") simp_all
  qed simp
  with assms show ?thesis by simp
qed

fun compile_expr :: "bool \<Rightarrow> 'f Expr \<Rightarrow> 'f bc \<Rightarrow> 'f bc option" where
  "compile_expr chk (IntLiteral n) s = Some (emit (OpLoadInt n) s)"
| "compile_expr chk (FloatLiteral x) s = Some (emit (OpLoadFloat x) s)"
| "compile_expr chk (StringLiteral str) s =
     (let (idx, s1) = add_constant str s in Some (emit (OpLoadStr idx) s1))"
| "compile_expr chk (BoolLiteral b) s = Some (emit (OpLoadBool b) s)"
| "compile_expr chk (CharLiteral c) s =
     (let (idx, s1) = add_constant [c] s in Some (emit (OpLoadStr idx) s1))"
| "compile_expr chk (Ident _) s = Some (emit OpLoadNone s)"
| "compile_expr chk (BinaryOp l op r) s =
     Option.bind (compile_expr chk l s) (\<lambda>s1. Option.bind (compile_expr chk r s1) (\<lambda>s2.
       Some (emit (binary_opcode op) s2)))"
| "compile_expr chk (UnaryOp op e) s =
     Option.bind (compile_expr chk e s) (\<lambda>s1.
       Some (if op = lit ''-'' then emit OpNeg s1 else s1))"
| "compile_expr chk (Call func args) s =
     Option.bind (compile_all (\<lambda>a u. compile_expr chk a u) args s) (\<lambda>s1.
       let call = emit (OpCall (of_nat (length args))) s1 in
       Some (case func of
           Ident name \<Rightarrow>
             (case call_builtin name of
                Some idx \<Rightarrow> emit (OpBuiltin idx) (call\<lparr>bc_code := butlast (bc_code call)\<rparr>)
              | None \<Rightarrow> call)
         | _ \<Rightarrow> call))"
| "compile_expr chk (IfExpr c t e) s =
     Option.bind (compile_expr chk c s) (\<lambda>s1.
     let jmp_false_idx = length (bc_code s1) in
     Option.bind (compile_expr chk t (emit (OpJmpIfNot 0) s1)) (\<lambda>s2.
     let jmp_end_idx = length (bc_code s2); s3 = emit (OpJmp 0) s2 in
     Option.bind (jump_offset chk (length (bc_code s3)) jmp_false_idx) (\<lambda>false_offset.
     Option.bind (compile_expr chk e s3) (\<lambda>s4.
     Option.bind (jump_offset chk (length (bc_code s4)) jmp_end_idx) (\<lambda>end_offset.
       Some (patch jmp_end_idx (OpJmp end_offset)
         (patch jmp_false_idx (OpJmpIfNot false_offset) s4)))))))"
| "compile_expr chk (Array items) s =
     Option.bind (compile_all (\<lambda>a u. compile_expr chk a u) items s) (\<lambda>s1.
       Some (emit (OpMakeArray (of_nat (length items))) s1))"
| "compile_expr chk (Pipe input ops) s =
     Option.bind (compile_expr chk input s) (\<lambda>s1.
       foldl (\<lambda>acc (fn_name, call_arg). Option.bind acc (\<lambda>u.
           Option.bind (compile_expr chk call_arg u) (\<lambda>v.
             Some (case pipe_builtin fn_name of
                 Some idx \<Rightarrow> emit (OpBuiltin idx) v
               | None \<Rightarrow> emit (OpCall 2) v))))
         (Some s1) ops)"
| "compile_expr chk _ s = Some (emit OpLoadNone s)"

fun compile_stmt :: "bool \<Rightarrow> 'f Stmt \<Rightarrow> 'f bc \<Rightarrow> 'f bc option" where
  "compile_stmt chk (SExpr e) s = compile_expr chk e s"
| "compile_stmt chk (SLet _ value _ _) s =
     (case value of Some v \<Rightarrow> compile_expr chk v s | None \<Rightarrow> Some (emit OpLoadNone s))"
| "compile_stmt chk (SFn _ _ _ _ _ _ _) s = Some s"
| "compile_stmt chk (SReturn val) s =
     Option.bind
       (case val of Some e \<Rightarrow> compile_expr chk e s | None \<Rightarrow> Some (emit OpLoadNone s))
       (\<lambda>s1. Some (emit OpReturn s1))"
| "compile_stmt chk _ s = Some s"

fun compile_stmts :: "bool \<Rightarrow> 'f Stmt list \<Rightarrow> 'f bc \<Rightarrow> 'f bc option" where
  "compile_stmts chk [] s = Some s"
| "compile_stmts chk (t # ts) s = Option.bind (compile_stmt chk t s) (compile_stmts chk ts)"

definition compile_program ::
  "bool \<Rightarrow> 'f Program \<Rightarrow> 'f bc \<Rightarrow> ('f BytecodeFunction list \<times> 'f bc) option" where
  "compile_program chk prog s =
     Option.bind
       (compile_stmts chk (statements prog)
         (start_function (lit ''__entry__'') (s\<lparr>bc_functions := []\<rparr>))) (\<lambda>s1.
     let s2 = (if bc_code s1 \<noteq> []
               then (case last (bc_code s1) of OpReturn \<Rightarrow> s1 | _ \<Rightarrow> emit OpReturn s1)
               else s1);
         s3 = finish_function s2
     in Some (bc_functions s3, s3\<lparr>bc_functions := []\<rparr>))"

end
