(* ===== verification/VmCorrect.thy ===== *)
theory VmCorrect
  imports VmCompiler
begin

section \<open>The bytecode compiler is correct for the code it supports\<close>

text \<open>
  A direct evaluator of expressions and statement lists is the reference. On the fragment the
  compiler translates in full, compiling and running gives what the evaluator gives: the value, the
  text printed, the error or the panic; in particular the run ends. \<open>emitted\<close> and \<open>strings\<close> are
  the code and the constants an expression adds, free of the compiler's state.
\<close>

subsection \<open>The reference evaluator\<close>

definition bin_value ::
  "'f plat \<Rightarrow> ustr \<Rightarrow> 'f Value \<Rightarrow> 'f Value \<Rightarrow> ('f, 'f Value) vm_res" where
  "bin_value P op a b =
     (if op = lit ''+'' then vm_add P a b
      else if op = lit ''-'' then vm_sub P a b
      else if op = lit ''*'' then vm_mul P a b
      else if op = lit ''/'' then vm_div P a b
      else Ok (VBool (if op = lit ''=='' then value_eq P a b
        else if op = lit ''!='' then \<not> value_eq P a b
        else if op = lit ''<'' then vm_lt P a b
        else if op = lit ''>'' then vm_lt P b a
        else if op = lit ''<='' then vm_le P a b
        else vm_le P b a)))"


definition call_value :: "'f plat \<Rightarrow> ustr \<Rightarrow> 'f Value \<Rightarrow> ustr \<Rightarrow> ('f, 'f Value \<times> ustr) vm_res" where
  "call_value P name v w =
     (if name = lit ''print'' then Ok (VNone, w @ show_value P v)
      else if name = lit ''println'' then Ok (VNone, w @ show_value P v @ [10])
      else if name = lit ''len'' then
        (case v of
           VArray vs \<Rightarrow> Ok (VInt (of_nat (length vs)), w)
         | VStr s \<Rightarrow> Ok (VInt (of_nat (utf8_len s)), w)
         | _ \<Rightarrow> Err (VmTypeError (lit ''len requires array/str'')))
      else if truthy v then Ok (VNone, w)
      else Err (VmTypeError (lit ''assertion failed'')))"

fun eval :: "'f plat \<Rightarrow> 'f Expr \<Rightarrow> ustr \<Rightarrow> ('f, 'f Value \<times> ustr) vm_res"
and eval_all :: "'f plat \<Rightarrow> 'f Expr list \<Rightarrow> ustr \<Rightarrow> ('f, 'f Value list \<times> ustr) vm_res" where
  "eval P (IntLiteral n) w = Ok (VInt n, w)"
| "eval P (FloatLiteral x) w = Ok (VFloat x, w)"
| "eval P (StringLiteral s) w = Ok (VStr s, w)"
| "eval P (BoolLiteral b) w = Ok (VBool b, w)"
| "eval P (CharLiteral c) w = Ok (VStr [c], w)"
| "eval P (BinaryOp l op r) w =
     obind (eval P l w) (\<lambda>(a, t1). obind (eval P r t1) (\<lambda>(b, t2).
       obind (bin_value P op a b) (\<lambda>v. Ok (v, t2))))"
| "eval P (UnaryOp op e) w =
     obind (eval P e w) (\<lambda>(a, t1). obind (vm_neg P a) (\<lambda>v. Ok (v, t1)))"
| "eval P (Call f args) w =
     (case (f, args) of
        (Ident name, [a]) \<Rightarrow> obind (eval P a w) (\<lambda>(v, t1). call_value P name v t1)
      | _ \<Rightarrow> Ok (VNone, w))"
| "eval P (IfExpr c t e) w =
     obind (eval P c w) (\<lambda>(v, t1). if truthy v then eval P t t1 else eval P e t1)"
| "eval P (Array es) w = obind (eval_all P es w) (\<lambda>(vs, t1). Ok (VArray vs, t1))"
| "eval P _ w = Ok (VNone, w)"
| "eval_all P [] w = Ok ([], w)"
| "eval_all P (e # es) w =
     obind (eval P e w) (\<lambda>(v, t1). obind (eval_all P es t1) (\<lambda>(vs, t2). Ok (v # vs, t2)))"

text \<open>The fragment: all operators but the ones the compiler has no instruction for.\<close>

fun compilable :: "'f Expr \<Rightarrow> bool" and compilable_all :: "'f Expr list \<Rightarrow> bool" where
  "compilable (IntLiteral _) = True"
| "compilable (FloatLiteral _) = True"
| "compilable (StringLiteral _) = True"
| "compilable (BoolLiteral _) = True"
| "compilable (CharLiteral _) = True"
| "compilable (BinaryOp l op r) =
     (op \<in> {lit ''+'', lit ''-'', lit ''*'', lit ''/'', lit ''=='', lit ''!='', lit ''<'',
        lit ''>'', lit ''<='', lit ''>=''} \<and> compilable l \<and> compilable r)"
| "compilable (UnaryOp op e) = (op = lit ''-'' \<and> compilable e)"
| "compilable (Call f args) =
     (case f of Ident name \<Rightarrow> call_builtin name \<noteq> None \<and> length args = 1 \<and> compilable_all args
      | _ \<Rightarrow> False)"
| "compilable (IfExpr c t e) = (compilable c \<and> compilable t \<and> compilable e)"
| "compilable (Array es) = compilable_all es"
| "compilable _ = False"
| "compilable_all [] = True"
| "compilable_all (e # es) = (compilable e \<and> compilable_all es)"

subsection \<open>The code and the constants of an expression\<close>

fun strings :: "'f Expr \<Rightarrow> ustr list" and strings_all :: "'f Expr list \<Rightarrow> ustr list" where
  "strings (StringLiteral s) = [s]"
| "strings (CharLiteral c) = [[c]]"
| "strings (BinaryOp l op r) = strings l @ strings r"
| "strings (UnaryOp op e) = strings e"
| "strings (Call f args) = strings_all args"
| "strings (IfExpr c t e) = strings c @ strings t @ strings e"
| "strings (Array es) = strings_all es"
| "strings _ = []"
| "strings_all [] = []"
| "strings_all (e # es) = strings e @ strings_all es"

fun emitted :: "nat \<Rightarrow> 'f Expr \<Rightarrow> 'f Opcode list"
and emitted_all :: "nat \<Rightarrow> 'f Expr list \<Rightarrow> 'f Opcode list" where
  "emitted k (IntLiteral n) = [OpLoadInt n]"
| "emitted k (FloatLiteral x) = [OpLoadFloat x]"
| "emitted k (StringLiteral s) = [OpLoadStr (of_nat k)]"
| "emitted k (BoolLiteral b) = [OpLoadBool b]"
| "emitted k (CharLiteral c) = [OpLoadStr (of_nat k)]"
| "emitted k (BinaryOp l op r) =
     emitted k l @ emitted (k + length (strings l)) r @ [binary_opcode op]"
| "emitted k (UnaryOp op e) = emitted k e @ [OpNeg]"
| "emitted k (Call f args) = emitted_all k args @
     [OpBuiltin (case f of Ident name \<Rightarrow> the (call_builtin name) | _ \<Rightarrow> 0)]"
| "emitted k (IfExpr c t e) =
     (let ts = emitted (k + length (strings c)) t;
          es = emitted (k + length (strings c) + length (strings t)) e
      in emitted k c @ [OpJmpIfNot (of_nat (length ts + 1))] @ ts @ [OpJmp (of_nat (length es))] @ es)"
| "emitted k (Array es) = emitted_all k es @ [OpMakeArray (of_nat (length es))]"
| "emitted k _ = [OpLoadNone]"
| "emitted_all k [] = []"
| "emitted_all k (e # es) = emitted k e @ emitted_all (k + length (strings e)) es"

lemma emitted_nonempty: "compilable e \<Longrightarrow> emitted k e \<noteq> []"
  by (cases e) (auto simp: Let_def)

lemma emitted_all_length: "compilable_all es \<Longrightarrow> length es \<le> length (emitted_all k es)"
proof (induction es arbitrary: k)
  case (Cons e es)
  have "1 \<le> length (emitted k e)"
    using Cons.prems emitted_nonempty[of e k] by (cases "emitted k e") auto
  then show ?case using Cons.IH[of "k + length (strings e)"] Cons.prems by simp
qed simp

lemma strings_length:
  fixes e :: "'f Expr" and es :: "'f Expr list"
  shows "compilable e \<Longrightarrow> length (strings e) \<le> length (emitted k e)"
    and "compilable_all es \<Longrightarrow> length (strings_all es) \<le> length (emitted_all k es)"
proof (induction e and es arbitrary: k and k rule: compilable_compilable_all.induct)
  case (6 l op r)
  then show ?case by (auto intro!: le_SucI add_mono)
next
  case (9 c t e)
  then show ?case by (auto simp: Let_def intro!: le_SucI add_mono)
next
  case (13 e es)
  then show ?case by (auto intro!: add_mono)
qed (auto intro!: le_SucI split: Expr.splits)

lemma emitted_no_return:
  fixes e :: "'f Expr" and es :: "'f Expr list"
  shows "compilable e \<Longrightarrow> OpReturn \<notin> set (emitted k e)"
    and "compilable_all es \<Longrightarrow> OpReturn \<notin> set (emitted_all k es)"
  by (induction e and es arbitrary: k and k rule: compilable_compilable_all.induct)
    (auto simp: Let_def binary_opcode_def split: Expr.splits)

subsection \<open>Compiling emits that code\<close>

definition extend :: "'f Opcode list \<Rightarrow> ustr list \<Rightarrow> 'f bc \<Rightarrow> 'f bc" where
  "extend ops strs s =
     s\<lparr>bc_code := bc_code s @ ops, bc_constants := bc_constants s @ strs\<rparr>"

lemma extend_simps [simp]:
  "bc_code (extend ops strs s) = bc_code s @ ops"
  "bc_constants (extend ops strs s) = bc_constants s @ strs"
  "extend ops' strs' (extend ops strs s) = extend (ops @ ops') (strs @ strs') s"
  "emit op (extend ops strs s) = extend (ops @ [op]) strs s"
  by (simp_all add: extend_def emit_def)

lemma emit_extend: "emit op s = extend [op] [] s"
  by (simp add: extend_def emit_def)

lemma small_sint: "n < 2 ^ 15 \<Longrightarrow> sint (of_nat n :: 16 word) = int n"
  using int_word_sint[where 'a = 16, of "int n"] by simp

lemma jump_offset_small:
  assumes "a < 2 ^ 15" and "b < a"
  shows "jump_offset chk a b = Some (of_nat (a - b - 1))"
proof -
  have sub: "i16_sub chk (of_nat a) (of_nat b) = Some (of_nat (a - b))"
    using assms small_sint[of a] small_sint[of b] by (simp add: i16_sub_def of_nat_diff)
  have "i16_sub chk (of_nat (a - b)) 1 = Some (of_nat (a - b - 1))"
    using assms small_sint[of "a - b"] small_sint[of 1]
    by (simp add: i16_sub_def of_nat_diff)
  with sub show ?thesis by (simp add: jump_offset_def)
qed

lemma patch_if:
  assumes "jf = length pre + length cs" and "je = jf + 1 + length ts"
  shows "patch je (OpJmp b) (patch jf (OpJmpIfNot a)
      (extend (cs @ OpJmpIfNot 0 # ts @ OpJmp 0 # es) strs (s\<lparr>bc_code := pre\<rparr>))) =
    extend (cs @ OpJmpIfNot a # ts @ OpJmp b # es) strs (s\<lparr>bc_code := pre\<rparr>)"
  using assms by (simp add: patch_def extend_def list_update_append)

lemma compile_emits:
  fixes e :: "'f Expr" and es :: "'f Expr list"
  shows "compilable e \<Longrightarrow>
      length (bc_code s) + length (emitted (length (bc_constants s)) e) < 2 ^ 15 \<Longrightarrow>
      compile_expr chk e s = Some (extend (emitted (length (bc_constants s)) e) (strings e) s)"
    and "compilable_all es \<Longrightarrow>
      length (bc_code s) + length (emitted_all (length (bc_constants s)) es) < 2 ^ 15 \<Longrightarrow>
      compile_all (compile_expr chk) es s =
        Some (extend (emitted_all (length (bc_constants s)) es) (strings_all es) s)"
proof (induction e and es arbitrary: s and s rule: compilable_compilable_all.induct)
  case (6 l op r)
  then show ?case using "6.IH"(1)[of s] by simp
next
  case (7 op e)
  then show ?case using "7.IH"[of s] by simp
next
  case (8 f args)
  then obtain name idx where f: "f = Ident name" "call_builtin name = Some idx"
    by (auto split: Expr.splits)
  then show ?case using 8 by (simp add: extend_def emit_def Let_def)
next
  case (9 c t e)
  let ?k = "length (bc_constants s)"
  let ?cs = "emitted ?k c" and ?ts = "emitted (?k + length (strings c)) t"
  let ?es = "emitted (?k + length (strings c) + length (strings t)) e"
  have size: "length (bc_code s) + length ?cs + length ?ts + length ?es + 2 < 2 ^ 15"
    using 9(5) by (simp add: Let_def)
  have c: "compile_expr chk c s = Some (extend ?cs (strings c) s)"
    using 9(1)[of s] 9(4) size by simp
  let ?s1 = "extend (?cs @ [OpJmpIfNot 0]) (strings c) s"
  have t: "compile_expr chk t ?s1 = Some (extend ?ts (strings t) ?s1)"
    using 9(2)[of ?s1] 9(4) size by simp
  let ?s2 = "extend (?cs @ [OpJmpIfNot 0] @ ?ts @ [OpJmp 0]) (strings c @ strings t) s"
  have e: "compile_expr chk e ?s2 = Some (extend ?es (strings e) ?s2)"
    using 9(3)[of ?s2] 9(4) size by (simp add: add.assoc)
  have j1: "jump_offset chk (length (bc_code s) + (length ?cs + (1 + (length ?ts + 1))))
      (length (bc_code s) + length ?cs) = Some (of_nat (length ?ts + 1))"
    using jump_offset_small[of "length (bc_code s) + (length ?cs + (1 + (length ?ts + 1)))"
        "length (bc_code s) + length ?cs" chk] size by simp
  have j2: "jump_offset chk
      (length (bc_code s) + (length ?cs + (1 + (length ?ts + (1 + length ?es)))))
      (length (bc_code s) + (length ?cs + (1 + length ?ts))) = Some (of_nat (length ?es))"
    using jump_offset_small[of
        "length (bc_code s) + (length ?cs + (1 + (length ?ts + (1 + length ?es))))"
        "length (bc_code s) + (length ?cs + (1 + length ?ts))" chk] size by simp
  have p: "patch (length (bc_code s) + (length ?cs + (1 + length ?ts))) (OpJmp b)
      (patch (length (bc_code s) + length ?cs) (OpJmpIfNot a)
        (extend (?cs @ OpJmpIfNot 0 # ?ts @ OpJmp 0 # ?es) strs s)) =
      extend (?cs @ OpJmpIfNot a # ?ts @ OpJmp b # ?es) strs s" for a b strs
    using patch_if[of "length (bc_code s) + length ?cs" "bc_code s" ?cs
        "length (bc_code s) + (length ?cs + (1 + length ?ts))" ?ts b a ?es strs s] by simp
  show ?case
    using c t e j1 j2 p by (simp add: Let_def)
next
  case (13 e es)
  then show ?case using "13.IH"(1)[of s] by (simp add: extend_def)
qed (simp_all add: Let_def add_constant_def emit_def extend_def)

subsection \<open>Running that code\<close>

text \<open>The states that differ in the instruction pointer, the stack and the output only.\<close>

definition mst :: "'f Vm \<Rightarrow> nat \<Rightarrow> 'f Value list \<Rightarrow> ustr \<Rightarrow> 'f Vm" where
  "mst vm i st w = vm\<lparr>ip := i, stack := st, out := w\<rparr>"

lemma mst_simps [vm_simps]:
  "stack (mst vm i st w) = st" "ip (mst vm i st w) = i" "out (mst vm i st w) = w"
  "running (mst vm i st w) = running vm" "current_fn (mst vm i st w) = current_fn vm"
  "call_stack (mst vm i st w) = call_stack vm"
  "nth_function (mst vm i st w) k = nth_function vm k"
  "push_val v (mst vm i st w) = mst vm i (v # st) w"
  "pop_val (mst vm i (v # st) w) = Ok (v, mst vm i st w)"
  "pop_bool (mst vm i (v # st) w) = Ok (truthy v, mst vm i st w)"
  "(mst vm i st w)\<lparr>ip := j\<rparr> = mst vm j st w"
  "(mst vm i st w)\<lparr>out := w'\<rparr> = mst vm i st w'"
  by (simp_all add: mst_def push_val_def pop_val_def pop_bool_def nth_function_def)

lemma binary_op_at [vm_simps]:
  "binary_op f (mst vm i (b # a # st) w) = obind (f a b) (\<lambda>v. Ok (mst vm i (v # st) w))"
  by (simp add: binary_op_def vm_simps)

lemma compare_op_at [vm_simps]:
  "compare_op f (mst vm i (b # a # st) w) = Ok (mst vm i (VBool (f a b) # st) w)"
  by (simp add: compare_op_def vm_simps)

lemma jump_at [vm_simps]:
  "n < 2 ^ 15 \<Longrightarrow> jump chk (of_nat n) (mst vm i st w) = Ok (mst vm (i + n) st w)"
  using small_sint[of n] by (simp add: jump_def vm_simps)

lemma binary_opcode_at:
  assumes "op \<in> {lit ''+'', lit ''-'', lit ''*'', lit ''/'', lit ''=='', lit ''!='', lit ''<'',
      lit ''>'', lit ''<='', lit ''>=''}"
  shows "execute_op P (binary_opcode op) (mst vm i (b # a # st) w) =
      obind (bin_value P op a b) (\<lambda>v. Ok (mst vm i (v # st) w))"
proof -
  have "execute_op P (binary_opcode op) (mst vm i (b # a # st) w) =
      obind (bin_value P op a b) (\<lambda>v. Ok (mst vm i (v # st) w))"
    if "op = x" "x \<in> {lit ''+'', lit ''-'', lit ''*'', lit ''/'', lit ''=='', lit ''!='', lit ''<'',
      lit ''>'', lit ''<='', lit ''>=''}" for x
    using that by (auto simp: binary_opcode_def bin_value_def vm_simps)
  with assms show ?thesis by blast
qed

lemma builtin_at:
  assumes "call_builtin name = Some idx"
  shows "execute_op P (OpBuiltin idx) (mst vm i (v # st) w) =
      obind (call_value P name v w) (\<lambda>(r, t1). Ok (mst vm i (r # st) t1))"
  using assms
  by (auto simp: call_builtin_def call_value_def execute_builtin_def vm_simps
      split: if_splits Value.split)

lemma pop_many_at:
  "pop_many (length vs) (mst vm i (vs @ st) w) = Ok (vs, mst vm i st w)"
  by (induction vs) (simp_all add: vm_simps)

lemma make_array_at:
  assumes "n < 2 ^ 15" and "n = length vs"
  shows "execute_op P (OpMakeArray (of_nat n)) (mst vm i (rev vs @ st) w) =
      Ok (mst vm i (VArray vs # st) w)"
proof -
  have "unat (of_nat n :: u16) = n"
    using assms(1) by (simp add: unat_of_nat)
  then show ?thesis
    using pop_many_at[of "rev vs" vm i st w] assms(2) by (simp add: vm_simps)
qed

text \<open>Running on from the result of an operation.\<close>

definition continue ::
  "('e, 'a) outcome \<Rightarrow> ('a \<Rightarrow> ('e, 'b) outcome option) \<Rightarrow> ('e, 'b) outcome option" where
  "continue m K = (case m of Ok x \<Rightarrow> K x | Err e \<Rightarrow> Some (Err e) | Panic \<Rightarrow> Some Panic)"

lemma continue_simps [simp]:
  "continue (Ok x) K = K x" "continue (Err e) K = Some (Err e)" "continue Panic K = Some Panic"
  by (simp_all add: continue_def)

lemma continue_obind: "continue (obind m f) K = continue m (\<lambda>x. continue (f x) K)"
  by (cases m) simp_all

lemma continue_cong: "(\<And>x. m = Ok x \<Longrightarrow> K x = L x) \<Longrightarrow> continue m K = continue m L"
  by (cases m) simp_all

lemma run_loop_step:
  assumes "running vm" and "nth_function vm (current_fn vm) = Some f"
    and "bf_code f = pre @ op # post" and "i = length pre"
  shows "run_loop P (mst vm i st w) =
      continue (execute_op P op (mst vm (Suc i) st w)) (run_loop P)"
  using assms by (subst run_loop.simps) (simp add: vm_simps continue_def)

definition loads :: "'f BytecodeFunction \<Rightarrow> nat \<Rightarrow> ustr list \<Rightarrow> bool" where
  "loads f k strs = (\<exists>pre post. bf_constants f = pre @ strs @ post \<and> length pre = k \<and>
     k + length strs < 2 ^ 16)"

lemma loads_append:
  assumes "loads f k (xs @ ys)"
  shows "loads f k xs" and "loads f (k + length xs) ys"
proof -
  obtain pre post where c: "bf_constants f = pre @ (xs @ ys) @ post" "length pre = k"
      "k + length (xs @ ys) < 2 ^ 16"
    using assms unfolding loads_def by blast
  then show "loads f k xs"
    unfolding loads_def by (intro exI[of _ pre] exI[of _ "ys @ post"]) simp
  from c show "loads f (k + length xs) ys"
    unfolding loads_def by (intro exI[of _ "pre @ xs"] exI[of _ post]) simp
qed

lemma load_string_at:
  assumes "loads f k [s]" and "nth_function vm (current_fn vm) = Some f"
  shows "execute_op P (OpLoadStr (of_nat k)) (mst vm i st w) = Ok (mst vm i (VStr s # st) w)"
  using assms by (auto simp: loads_def vm_simps unat_of_nat nth_append)

lemma eval_all_length: "eval_all P es w = Ok (vs, w') \<Longrightarrow> length vs = length es"
  by (induction es arbitrary: w vs w') (auto simp: obind_Ok_iff)

text \<open>
  The code of an expression, anywhere in a function, pushes the value of the expression and goes on
  behind itself, or stops with the error or the panic of the expression.
\<close>

lemma run_code:
  fixes e :: "'f Expr" and es :: "'f Expr list"
  assumes vm: "running vm" "nth_function vm (current_fn vm) = Some f" "length (bf_code f) < 2 ^ 15"
  shows "compilable e \<Longrightarrow> bf_code f = pre @ emitted k e @ post \<Longrightarrow> loads f k (strings e) \<Longrightarrow>
      run_loop P (mst vm (length pre) st w) =
      continue (eval P e w) (\<lambda>(v, w').
        run_loop P (mst vm (length pre + length (emitted k e)) (v # st) w'))"
    and "compilable_all es \<Longrightarrow> bf_code f = pre @ emitted_all k es @ post \<Longrightarrow>
      loads f k (strings_all es) \<Longrightarrow>
      run_loop P (mst vm (length pre) st w) =
      continue (eval_all P es w) (\<lambda>(vs, w').
        run_loop P (mst vm (length pre + length (emitted_all k es)) (rev vs @ st) w'))"
proof (induction e and es arbitrary: pre post k st w and pre post k st w
    rule: compilable_compilable_all.induct)
  note step = run_loop_step[OF vm(1,2)]
  {
    case (1 n)
    have code: "bf_code f = pre @ hd (emitted k (IntLiteral n)) # post" using "1.prems"(2) by simp
    show ?case using step[OF code refl, of P st w] by (simp add: vm_simps)
  next
    case (2 x)
    have code: "bf_code f = pre @ hd (emitted k (FloatLiteral x)) # post" using "2.prems"(2) by simp
    show ?case using step[OF code refl, of P st w] by (simp add: vm_simps)
  next
    case (3 s)
    have code: "bf_code f = pre @ OpLoadStr (of_nat k) # post" and "loads f k [s]"
      using "3.prems"(2,3) by simp_all
    then show ?case
      using step[OF code refl, of P st w] load_string_at[of f k "s" vm P "Suc (length pre)" st w] vm(2)
      by simp
  next
    case (4 b)
    have code: "bf_code f = pre @ hd (emitted k (BoolLiteral b)) # post" using "4.prems"(2) by simp
    show ?case using step[OF code refl, of P st w] by (simp add: vm_simps)
  next
    case (5 c)
    have code: "bf_code f = pre @ OpLoadStr (of_nat k) # post" and "loads f k [[c]]"
      using "5.prems"(2,3) by simp_all
    then show ?case
      using step[OF code refl, of P st w] load_string_at[of f k "[c]" vm P "Suc (length pre)" st w] vm(2)
      by simp
  next
    case (6 l op r)
    let ?k = "k + length (strings l)"
    let ?cl = "emitted k l" and ?cr = "emitted ?k r"
    have op: "op \<in> {lit ''+'', lit ''-'', lit ''*'', lit ''/'', lit ''=='', lit ''!='', lit ''<'',
        lit ''>'', lit ''<='', lit ''>=''}" and "compilable l" "compilable r"
      using "6.prems"(1) by (simp_all only: compilable.simps)
    have code: "bf_code f = pre @ ?cl @ (?cr @ binary_opcode op # post)"
      "bf_code f = (pre @ ?cl) @ ?cr @ (binary_opcode op # post)"
      "bf_code f = (pre @ ?cl @ ?cr) @ binary_opcode op # post"
      using "6.prems"(2) by simp_all
    note ld = loads_append[OF "6.prems"(3)[unfolded strings.simps]]
    note l = "6.IH"(1)[OF \<open>compilable l\<close> code(1) ld(1)]
    note r = "6.IH"(2)[OF \<open>compilable r\<close> code(2) ld(2)]
    note o = step[OF code(3) refl, of P]
    show ?case
      using l r o
      by (auto simp: continue_obind binary_opcode_at[OF op] add.assoc intro!: continue_cong
          split: prod.split)
  next
    case (7 op e)
    let ?ce = "emitted k e"
    have "compilable e" and code: "bf_code f = pre @ ?ce @ (OpNeg # post)"
      "bf_code f = (pre @ ?ce) @ OpNeg # post"
      using "7.prems" by simp_all
    note e = "7.IH"[OF \<open>compilable e\<close> code(1), of st w] and o = step[OF code(2) refl, of P]
    show ?case
      using e o "7.prems"(3)
      by (auto simp: continue_obind vm_simps intro!: continue_cong split: prod.split)
  next
    case (8 g args)
    then obtain name idx a where g: "g = Ident name" "call_builtin name = Some idx" "args = [a]"
      by (cases g) (auto simp: length_Suc_conv)
    let ?ca = "emitted_all k args"
    have code: "bf_code f = pre @ ?ca @ (OpBuiltin idx # post)"
      "bf_code f = (pre @ ?ca) @ OpBuiltin idx # post"
      using "8.prems"(2) g by simp_all
    have "compilable_all args" "loads f k (strings_all args)" using "8.prems"(1,3) g by simp_all
    note a = "8.IH"[OF g(1) this(1) code(1) this(2), of st w]
    note o = step[OF code(2) refl, of P]
    show ?case
      using a o g
      by (auto simp: continue_obind builtin_at[OF g(2), unfolded execute_op.simps] intro!: continue_cong split: prod.split)
  next
    case (9 c t e)
    let ?kt = "k + length (strings c)" and ?ke = "k + length (strings c) + length (strings t)"
    let ?cc = "emitted k c" and ?ct = "emitted ?kt t" and ?ce = "emitted ?ke e"
    let ?j = "OpJmpIfNot (of_nat (length ?ct + 1))" and ?j' = "OpJmp (of_nat (length ?ce))"
    have "compilable c" "compilable t" "compilable e" using "9.prems"(1) by simp_all
    have code: "bf_code f = pre @ ?cc @ (?j # ?ct @ ?j' # ?ce @ post)"
      "bf_code f = (pre @ ?cc) @ ?j # (?ct @ ?j' # ?ce @ post)"
      "bf_code f = (pre @ ?cc @ [?j]) @ ?ct @ (?j' # ?ce @ post)"
      "bf_code f = (pre @ ?cc @ [?j] @ ?ct) @ ?j' # (?ce @ post)"
      "bf_code f = (pre @ ?cc @ [?j] @ ?ct @ [?j']) @ ?ce @ post"
      using "9.prems"(2) by (simp_all add: Let_def)
    have small: "length ?ct + 1 < 2 ^ 15" "length ?ce < 2 ^ 15" using vm(3) code(1) by simp_all
    note ld = loads_append[OF "9.prems"(3)[unfolded strings.simps]]
    note ld' = loads_append[OF ld(2)]
    note c = "9.IH"(1)[OF \<open>compilable c\<close> code(1) ld(1), of st w]
    note t = "9.IH"(2)[OF \<open>compilable t\<close> code(3) ld'(1), of st]
    note e = "9.IH"(3)[OF \<open>compilable e\<close> code(5) ld'(2), of st]
    have j: "run_loop P (mst vm (length pre + length ?cc) (v # st) w') =
        run_loop P (mst vm (if truthy v then Suc (length pre + length ?cc)
          else length pre + length ?cc + length ?ct + 2) st w')" for v w'
      using step[OF code(2) refl, of P "v # st" w']
      by (simp add: jump_at[OF small(1), simplified] vm_simps add.assoc)
    have j': "run_loop P (mst vm (length pre + length ?cc + length ?ct + 1) st' w') =
        run_loop P (mst vm (length pre + length ?cc + length ?ct + length ?ce + 2) st' w')" for st' w'
      using step[OF code(4) refl, of P st' w']
      by (simp add: jump_at[OF small(2), unfolded add.assoc] vm_simps add.assoc)
    show ?case
      using c t e j j'
      by (auto simp: continue_obind Let_def ac_simps intro!: continue_cong split: prod.split)
  next
    case (10 es)
    let ?ce = "emitted_all k es"
    have "compilable_all es" "loads f k (strings_all es)" using "10.prems"(1,3) by simp_all
    have code: "bf_code f = pre @ ?ce @ (OpMakeArray (of_nat (length es)) # post)"
      "bf_code f = (pre @ ?ce) @ OpMakeArray (of_nat (length es)) # post"
      using "10.prems"(2) by simp_all
    have small: "length es < 2 ^ 15"
      using vm(3) code(1) emitted_all_length[OF \<open>compilable_all es\<close>, of k] by simp
    note a = "10.IH"[OF \<open>compilable_all es\<close> code(1) \<open>loads f k (strings_all es)\<close>, of st w]
    have o: "run_loop P (mst vm (length pre + length ?ce) (rev vs @ st) w') =
        run_loop P (mst vm (Suc (length pre + length ?ce)) (VArray vs # st) w')"
      if "eval_all P es w = Ok (vs, w')" for vs w'
      using step[OF code(2) refl, of P "rev vs @ st" w'] eval_all_length[OF that]
      by (simp add: make_array_at[OF small] del: execute_op.simps)
    show ?case
      using a o
      by (auto simp: continue_obind intro!: continue_cong split: prod.split)
  next
    case 12
    then show ?case by simp
  next
    case (13 e es)
    let ?k = "k + length (strings e)"
    let ?ce = "emitted k e" and ?cs = "emitted_all ?k es"
    have "compilable e" "compilable_all es" using "13.prems"(1) by simp_all
    have code: "bf_code f = pre @ ?ce @ (?cs @ post)" "bf_code f = (pre @ ?ce) @ ?cs @ post"
      using "13.prems"(2) by simp_all
    note ld = loads_append[OF "13.prems"(3)[unfolded strings_all.simps]]
    note e = "13.IH"(1)[OF \<open>compilable e\<close> code(1) ld(1), of st w]
    note es = "13.IH"(2)[OF \<open>compilable_all es\<close> code(2) ld(2)]
    show ?case
      using e es
      by (auto simp: continue_obind add.assoc intro!: continue_cong split: prod.split)
  }
qed simp_all


subsection \<open>Statements and programs\<close>

text \<open>
  The value of a list of statements: the value of the last one that has a value, or of the first
  \<open>return\<close>. The definition of a function has no value.
\<close>

fun eval_stmts ::
  "'f plat \<Rightarrow> 'f Stmt list \<Rightarrow> 'f Value \<Rightarrow> ustr \<Rightarrow> ('f, 'f Value \<times> ustr) vm_res" where
  "eval_stmts P [] v w = Ok (v, w)"
| "eval_stmts P (s # ss) v w =
     (case s of
        SExpr e \<Rightarrow> obind (eval P e w) (\<lambda>(u, w1). eval_stmts P ss u w1)
      | SLet _ (Some e) _ _ \<Rightarrow> obind (eval P e w) (\<lambda>(u, w1). eval_stmts P ss u w1)
      | SLet _ None _ _ \<Rightarrow> eval_stmts P ss VNone w
      | SReturn (Some e) \<Rightarrow> eval P e w
      | SReturn None \<Rightarrow> Ok (VNone, w)
      | _ \<Rightarrow> eval_stmts P ss v w)"

fun compilable_stmt :: "'f Stmt \<Rightarrow> bool" where
  "compilable_stmt (SExpr e) = compilable e"
| "compilable_stmt (SLet _ v _ _) = (case v of Some e \<Rightarrow> compilable e | None \<Rightarrow> True)"
| "compilable_stmt (SReturn v) = (case v of Some e \<Rightarrow> compilable e | None \<Rightarrow> True)"
| "compilable_stmt (SFn _ _ _ _ _ _ _) = True"
| "compilable_stmt _ = False"

definition stmt_expr :: "'f Stmt \<Rightarrow> 'f Expr option" where
  "stmt_expr s =
     (case s of SExpr e \<Rightarrow> Some e | SLet _ v _ _ \<Rightarrow> v | SReturn v \<Rightarrow> v | _ \<Rightarrow> None)"

definition stmt_strings :: "'f Stmt \<Rightarrow> ustr list" where
  "stmt_strings s = (case stmt_expr s of Some e \<Rightarrow> strings e | None \<Rightarrow> [])"

definition stmt_code :: "nat \<Rightarrow> 'f Stmt \<Rightarrow> 'f Opcode list" where
  "stmt_code k s =
     (case s of SFn _ _ _ _ _ _ _ \<Rightarrow> []
      | _ \<Rightarrow> (case stmt_expr s of Some e \<Rightarrow> emitted k e | None \<Rightarrow> [OpLoadNone]) @
          (case s of SReturn _ \<Rightarrow> [OpReturn] | _ \<Rightarrow> []))"

fun stmts_code :: "nat \<Rightarrow> 'f Stmt list \<Rightarrow> 'f Opcode list" where
  "stmts_code k [] = []"
| "stmts_code k (s # ss) = stmt_code k s @ stmts_code (k + length (stmt_strings s)) ss"

lemma compile_stmt_emits:
  assumes "compilable_stmt t"
    and "length (bc_code s) + length (stmt_code (length (bc_constants s)) t) < 2 ^ 15"
  shows "compile_stmt chk t s =
      Some (extend (stmt_code (length (bc_constants s)) t) (stmt_strings t) s)"
  using assms compile_emits(1)[of _ s chk]
  by (cases t rule: compilable_stmt.cases)
    (auto simp: stmt_code_def stmt_strings_def stmt_expr_def emit_extend extend_def
      split: option.splits)

lemma compile_stmts_emit:
  assumes "list_all compilable_stmt ts"
    and "length (bc_code s) + length (stmts_code (length (bc_constants s)) ts) < 2 ^ 15"
  shows "compile_stmts chk ts s =
      Some (extend (stmts_code (length (bc_constants s)) ts) (concat (map stmt_strings ts)) s)"
  using assms
proof (induction ts arbitrary: s)
  case (Cons t ts)
  then show ?case using compile_stmt_emits[of t s chk] by simp
qed (simp add: extend_def)

text \<open>What a caller of \<open>run\<close> sees: the value and the output, or how the run failed.\<close>

definition observe_loop :: "('f, 'f Vm) vm_res option \<Rightarrow> ('f, 'f Value \<times> ustr) vm_res option" where
  "observe_loop r = map_option (\<lambda>m. obind m (\<lambda>vm.
     Ok (case stack vm of [] \<Rightarrow> VNone | v # _ \<Rightarrow> v, out vm))) r"

definition observe ::
  "('f, 'f Value \<times> 'f Vm) vm_res option \<Rightarrow> ('f, 'f Value \<times> ustr) vm_res option" where
  "observe r = map_option (\<lambda>m. obind m (\<lambda>(v, vm). Ok (v, out vm))) r"

lemma observe_run_vm:
  "observe (run_vm P vm) = observe_loop (run_loop P (vm\<lparr>running := True, ip := 0, current_fn := 0\<rparr>))"
  unfolding observe_def observe_loop_def run_vm_def
  by (auto simp: obind_assoc split: option.split list.split intro!: arg_cong2[where f = obind])

lemma observe_loop_fails [simp]:
  "observe_loop (Some (Err e)) = Some (Err e)" "observe_loop (Some Panic) = Some Panic"
  by (simp_all add: observe_loop_def)

lemma observe_continue:
  "observe_loop (continue m K) =
   (case m of Ok x \<Rightarrow> observe_loop (K x) | Err e \<Rightarrow> Some (Err e) | Panic \<Rightarrow> Some Panic)"
  by (cases m) simp_all

lemma observe_continue_eq:
  assumes "\<And>x. m = Ok x \<Longrightarrow> observe_loop (K x) = Some (g x)"
  shows "observe_loop (continue m K) = Some (obind m g)"
  using assms by (cases m) (simp_all add: observe_continue)

lemma run_return:
  assumes "running vm" and "nth_function vm (current_fn vm) = Some f" and "call_stack vm = []"
    and "bf_code f = pre @ OpReturn # post"
  shows "observe_loop (run_loop P (mst vm (length pre) (v # st) w)) = Some (Ok (v, w))"
proof -
  have stop: "run_loop P ((mst vm i (v # st) w)\<lparr>running := False\<rparr>) =
      Some (Ok ((mst vm i (v # st) w)\<lparr>running := False\<rparr>))" for i
    by (subst run_loop.simps) simp
  have fields: "stack ((mst vm i st' w)\<lparr>running := False\<rparr>) = st'"
    "out ((mst vm i st' w)\<lparr>running := False\<rparr>) = w" for i st'
    by (simp_all add: mst_def)
  show ?thesis
    using run_loop_step[OF assms(1,2,4) refl, of P "v # st" w] stop fields
    by (simp add: vm_simps assms(3) observe_loop_def)
qed

lemma run_end:
  assumes "nth_function vm (current_fn vm) = Some f" and "bf_code f = []"
  shows "observe_loop (run_loop P (mst vm 0 [] w)) = Some (Ok (VNone, w))"
  using assms by (subst run_loop.simps) (simp add: vm_simps observe_loop_def)

definition top_value :: "'f Value list \<Rightarrow> 'f Value" where
  "top_value st = (case st of [] \<Rightarrow> VNone | v # _ \<Rightarrow> v)"

text \<open>How the code of the statements ends: \<open>post\<close> is the return the compiler adds.\<close>

definition ends_well :: "'f Opcode list \<Rightarrow> 'f Opcode list \<Rightarrow> 'f Value list \<Rightarrow> bool" where
  "ends_well code post st =
     (post = [OpReturn] \<and> (code \<noteq> [] \<or> st \<noteq> []) \<or>
      post = [] \<and> code \<noteq> [] \<and> last code = OpReturn)"

lemma last_stmt_code:
  assumes "compilable_stmt s" and "stmt_code k s \<noteq> []" and "last (stmt_code k s) = OpReturn"
  shows "\<exists>v. s = SReturn v"
proof -
  have "last (emitted k e) \<noteq> OpReturn" if "compilable e" for e
    using emitted_no_return(1)[OF that, of k] emitted_nonempty[OF that, of k] by (metis last_in_set)
  with assms show ?thesis
    by (cases s rule: compilable_stmt.cases)
      (auto simp: stmt_code_def stmt_expr_def split: option.splits)
qed

lemma run_stmts:
  assumes vm: "running vm" "nth_function vm (current_fn vm) = Some f" "length (bf_code f) < 2 ^ 15"
      "call_stack vm = []"
    and "list_all compilable_stmt ss" and "bf_code f = pre @ stmts_code k ss @ post"
    and "loads f k (concat (map stmt_strings ss))"
    and "ends_well (stmts_code k ss) post st"
  shows "observe_loop (run_loop P (mst vm (length pre) st w)) =
      Some (eval_stmts P ss (top_value st) w)"
  using assms(5-)
proof (induction ss arbitrary: pre k st w)
  case Nil
  then obtain v vs where "st = v # vs" "post = [OpReturn]"
    by (auto simp: ends_well_def neq_Nil_conv)
  with Nil show ?case
    using run_return[OF vm(1,2,4), of pre "[]"] by (simp add: top_value_def)
next
  case (Cons s ss)
  let ?k = "k + length (stmt_strings s)"
  let ?cs = "stmts_code ?k ss"
  have ss: "list_all compilable_stmt ss" and s: "compilable_stmt s" using Cons.prems(1) by simp_all
  have "loads f k (stmt_strings s @ concat (map stmt_strings ss))" using Cons.prems(3) by simp
  note ld = loads_append[OF this]
  have rest: "observe_loop (run_loop P (mst vm (length pre + length (stmt_code k s)) (v # st) w')) =
      Some (eval_stmts P ss v w')" if "\<And>x. s \<noteq> SReturn x" for v w'
  proof -
    have code: "bf_code f = (pre @ stmt_code k s) @ ?cs @ post" using Cons.prems(2) by simp
    have "?cs = [] \<Longrightarrow> post = []  \<Longrightarrow> False"
      using Cons.prems(4) last_stmt_code[OF s, of k] that by (auto simp: ends_well_def)
    then have "ends_well ?cs post (v # st)"
      using Cons.prems(4) by (cases "?cs = []") (auto simp: ends_well_def last_append)
    from Cons.IH[OF ss code ld(2) this, of w'] show ?thesis by (simp add: top_value_def)
  qed
  have expr: "observe_loop (run_loop P (mst vm (length pre) st w)) =
      Some (obind (eval P e w) (\<lambda>(v, w'). eval_stmts P ss v w'))"
    if "stmt_code k s = emitted k e" "compilable e" "stmt_strings s = strings e"
      "\<And>x. s \<noteq> SReturn x" for e
  proof -
    have code: "bf_code f = pre @ emitted k e @ (?cs @ post)" using Cons.prems(2) that(1) by simp
    show ?thesis
      unfolding run_code(1)[OF vm(1-3) that(2) code ld(1)[unfolded that(3)]]
      by (rule observe_continue_eq) (use rest that(1,4) in \<open>auto split: prod.split\<close>)
  qed
  show ?case
  proof (cases s rule: compilable_stmt.cases)
    case (1 e)
    then show ?thesis
      using expr[of e] s by (simp add: stmt_code_def stmt_expr_def stmt_strings_def)
  next
    case (2 n v a m)
    show ?thesis
    proof (cases v)
      case None
      have code: "bf_code f = pre @ OpLoadNone # (?cs @ post)"
        using Cons.prems(2) 2 None by (simp add: stmt_code_def stmt_expr_def)
      show ?thesis
        using run_loop_step[OF vm(1,2) code refl, of P st w] rest[of VNone w] 2 None
        by (simp add: vm_simps stmt_code_def stmt_expr_def)
    next
      case (Some e)
      then show ?thesis
        using expr[of e] s 2 by (simp add: stmt_code_def stmt_expr_def stmt_strings_def)
    qed
  next
    case (3 v)
    show ?thesis
    proof (cases v)
      case None
      have code: "bf_code f = pre @ OpLoadNone # (OpReturn # ?cs @ post)"
        "bf_code f = (pre @ [OpLoadNone]) @ OpReturn # (?cs @ post)"
        using Cons.prems(2) 3 None by (simp_all add: stmt_code_def stmt_expr_def)
      show ?thesis
        using run_loop_step[OF vm(1,2) code(1) refl, of P st w]
          run_return[OF vm(1,2,4) code(2), of P VNone st w] 3 None
        by (simp add: vm_simps)
    next
      case (Some e)
      have code: "bf_code f = pre @ emitted k e @ (OpReturn # ?cs @ post)"
        "bf_code f = (pre @ emitted k e) @ OpReturn # (?cs @ post)"
        using Cons.prems(2) 3 Some by (simp_all add: stmt_code_def stmt_expr_def)
      have "compilable e" "stmt_strings s = strings e"
        using s 3 Some by (simp_all add: stmt_strings_def stmt_expr_def)
      note run = run_code(1)[OF vm(1-3) this(1) code(1) ld(1)[unfolded this(2)], of P st w]
      have "observe_loop (run_loop P (mst vm (length pre) st w)) =
          Some (obind (eval P e w) (\<lambda>(v, w'). Ok (v, w')))"
        unfolding run
        by (rule observe_continue_eq)
          (use run_return[OF vm(1,2,4) code(2)] in \<open>auto split: prod.split\<close>)
      also have "obind (eval P e w) (\<lambda>(v, w'). Ok (v, w')) = eval P e w"
        by (cases "eval P e w") auto
      finally show ?thesis using 3 Some by simp
    qed
  next
    case (4 n p r a b c d)
    then have s0: "stmt_code k s = []" "stmt_strings s = []"
      by (simp_all add: stmt_code_def stmt_strings_def stmt_expr_def)
    then show ?thesis
      using Cons.IH[OF ss, of pre k st w] Cons.prems(2-4) ld(2) 4 by simp
  qed (use s in simp_all)
qed

lemma stmts_strings_length:
  "list_all compilable_stmt ss \<Longrightarrow>
   length (concat (map stmt_strings ss)) \<le> length (stmts_code k ss)"
proof (induction ss arbitrary: k)
  case (Cons s ss)
  have "length (stmt_strings s) \<le> length (stmt_code k s)"
    using Cons.prems strings_length(1)[of _ k]
    by (cases s rule: compilable_stmt.cases)
      (auto simp: stmt_strings_def stmt_code_def stmt_expr_def le_SucI split: option.splits)
  then show ?case
    using Cons.IH[of "k + length (stmt_strings s)"] Cons.prems by simp
qed simp

lemma no_code_no_value:
  "list_all compilable_stmt ss \<Longrightarrow> stmts_code k ss = [] \<Longrightarrow> eval_stmts P ss v w = Ok (v, w)"
proof (induction ss arbitrary: k)
  case (Cons s ss)
  then show ?case
    using emitted_nonempty
    by (cases s rule: compilable_stmt.cases)
      (auto simp: stmt_code_def stmt_expr_def split: option.splits)
qed simp

definition entry_function :: "'f Opcode list \<Rightarrow> ustr list \<Rightarrow> 'f BytecodeFunction" where
  "entry_function code strs = \<lparr>bf_name = lit ''__entry__'', bf_code = code, bf_constants = strs,
     bf_arity = 0, bf_locals = 0, bf_effect = None, bf_capability = None\<rparr>"

definition add_return :: "'f Opcode list \<Rightarrow> 'f Opcode list" where
  "add_return code = (if code = [] \<or> last code = OpReturn then [] else [OpReturn])"

lemma compile_program_code:
  assumes "compile_stmts chk (statements prog) (start_function (lit ''__entry__'') bc_new) =
      Some (extend code strs (start_function (lit ''__entry__'') bc_new))"
  shows "\<exists>s'. compile_program chk prog bc_new =
      Some ([entry_function (code @ add_return code) strs], s')"
  using assms
  by (auto simp: compile_program_def bc_new_def start_function_def Let_def finish_function_def
      extend_def emit_def entry_function_def add_return_def split: Opcode.split)

lemma initial_mst:
  "(vm_new fs)\<lparr>running := True, ip := 0, current_fn := 0\<rparr> =
   mst ((vm_new fs)\<lparr>running := True\<rparr>) 0 [] []"
  by (simp add: vm_new_def mst_def)

lemma run_entry:
  assumes "list_all compilable_stmt ss" and "length (stmts_code 0 ss) + 1 < 2 ^ 15"
  shows "observe (run_vm P (vm_new [entry_function
      (stmts_code 0 ss @ add_return (stmts_code 0 ss)) (concat (map stmt_strings ss))])) =
    Some (eval_stmts P ss VNone [])"
proof -
  let ?code = "stmts_code 0 ss" and ?strs = "concat (map stmt_strings ss)"
  let ?f = "entry_function (?code @ add_return ?code) ?strs"
  let ?vm = "(vm_new [?f])\<lparr>running := True\<rparr>"
  have vm: "running ?vm" "nth_function ?vm (current_fn ?vm) = Some ?f" "call_stack ?vm = []"
    by (simp_all add: vm_new_def nth_function_def)
  show ?thesis
  proof (cases "?code = []")
    case True
    then have "bf_code ?f = []" by (simp add: entry_function_def add_return_def)
    from run_end[OF vm(2) this] show ?thesis
      using no_code_no_value[OF assms(1) True] by (simp add: observe_run_vm initial_mst)
  next
    case False
    have "loads ?f 0 ?strs"
      unfolding loads_def using stmts_strings_length[OF assms(1), of 0] assms(2)
      by (intro exI[of _ "[]"]) (simp add: entry_function_def)
    moreover have "ends_well ?code (add_return ?code) []"
      using False by (auto simp: ends_well_def add_return_def)
    moreover have "length (bf_code ?f) < 2 ^ 15"
      using assms(2) by (simp add: entry_function_def add_return_def)
    moreover have "bf_code ?f = [] @ ?code @ add_return ?code" by (simp add: entry_function_def)
    ultimately show ?thesis
      using run_stmts[OF vm(1,2) _ vm(3) assms(1), of "[]" 0 "add_return ?code" "[]" P "[]"]
      by (simp add: observe_run_vm initial_mst top_value_def)
  qed
qed

lemma compile_and_run:
  assumes "list_all compilable_stmt (statements prog)"
    and "length (stmts_code 0 (statements prog)) + 1 < 2 ^ 15"
  shows "\<exists>fs s'. compile_program chk prog bc_new = Some (fs, s') \<and>
     observe (run_vm P (vm_new fs)) = Some (eval_stmts P (statements prog) VNone [])"
proof -
  let ?s = "start_function (lit ''__entry__'') bc_new :: 'a bc"
  have "compile_stmts chk (statements prog) ?s =
      Some (extend (stmts_code 0 (statements prog)) (concat (map stmt_strings (statements prog))) ?s)"
    using compile_stmts_emit[OF assms(1), of ?s chk] assms(2)
    by (simp add: start_function_def)
  from compile_program_code[OF this] run_entry[OF assms, of P] show ?thesis by blast
qed

subsection \<open>Properties\<close>

text \<open>
  C1: The compiler is correct. A program of expression, let, return and function statements whose
  expressions are in the supported fragment, and whose code is shorter than 2^15, compiles without a
  panic, and running the code from its start ends with what the reference evaluator gives: the value
  of the program and the text it prints, or its error, or its panic.
\<close>

theorem compile_program_correct:
  assumes "list_all compilable_stmt (statements prog)"
    and "length (stmts_code 0 (statements prog)) + 1 < 2 ^ 15"
  shows "\<exists>fs s'. compile_program chk prog bc_new = Some (fs, s') \<and>
     observe (run_vm P (vm_new fs)) = Some (eval_stmts P (statements prog) VNone [])"
  using assms by (rule compile_and_run)

theorem compile_program_correct_witness:
  "\<exists>fs s'. compile_program True (program_new\<lparr>statements :=
      [SLet (lit ''x'') (Some (StringLiteral (lit ''a''))) None False,
       SReturn (Some (IfExpr (BinaryOp (IntLiteral 1) (lit ''<'') (IntLiteral 2))
         (BinaryOp (IntLiteral 3) (lit ''+'') (IntLiteral 4)) (IntLiteral 0)))]\<rparr>) bc_new =
      Some (fs, s') \<and>
     observe (run_vm int_plat (vm_new fs)) = Some (Ok (VInt 7, []))"
proof -
  let ?p = "program_new\<lparr>statements :=
      [SLet (lit ''x'') (Some (StringLiteral (lit ''a''))) None False,
       SReturn (Some (IfExpr (BinaryOp (IntLiteral 1) (lit ''<'') (IntLiteral 2))
         (BinaryOp (IntLiteral 3) (lit ''+'') (IntLiteral 4)) (IntLiteral 0)))]\<rparr> :: int Program"
  have "list_all compilable_stmt (statements ?p)" by simp
  moreover have "length (stmts_code 0 (statements ?p)) + 1 < 2 ^ 15"
    by (simp add: stmt_code_def stmt_expr_def stmt_strings_def Let_def)
  ultimately obtain fs s' where "compile_program True ?p bc_new = Some (fs, s')"
      "observe (run_vm int_plat (vm_new fs)) =
       Some (eval_stmts int_plat (statements ?p) VNone [])"
    using compile_program_correct[of ?p True int_plat] by blast
  moreover have "eval_stmts int_plat (statements ?p) VNone [] = Ok (VInt 7, [])"
    by (simp add: bin_value_def lit_def int_plat_def i64_add_def i64_op_def i64_fits_def)
  ultimately show ?thesis by auto
qed

text \<open>
  What the compiler drops without an error. Logical negation adds no instruction, so the
  negated value is the value itself; the operators without an instruction of their own become an
  addition; an identifier becomes none; control flow and all other statements add no code at all.
\<close>

theorem compiler_drops:
  "compile_expr chk (UnaryOp (lit ''!'') e) s = compile_expr chk e s \<and>
   (binary_opcode (lit ''&&'') :: 'f Opcode) = OpAdd \<and>
   (binary_opcode (lit ''||'') :: 'f Opcode) = OpAdd \<and>
   (binary_opcode (lit ''%'') :: 'f Opcode) = OpAdd \<and>
   compile_expr chk (Ident name) s = compile_expr chk (MemberAccess e name) s \<and>
   compile_stmt chk (SIf e body body') s = Some s \<and>
   compile_stmt chk (SWhile e body) s = Some s \<and>
   compile_stmt chk (SFor name e body) s = Some s \<and>
   compile_stmt chk (SConst name (Some e) t) s = Some s \<and>
   compile_stmt chk (SFn name ps t an body async pub) s = Some s"
proof -
  have "Option.bind (compile_expr chk e s) Some = compile_expr chk e s"
    by (cases "compile_expr chk e s") simp_all
  then show ?thesis by (simp add: binary_opcode_def lit_def)
qed

text \<open>
  A call of a user function never reaches the function: compiled, the call leaves a frame that
  the return behind it pops, and the program's value is the last argument, whatever the name.
\<close>

lemma user_call_returns_last_argument:
  assumes "call_builtin g = None"
  shows "\<exists>fs s'. compile_program chk
       (program_add program_new (SExpr (Call (Ident g) [IntLiteral m, IntLiteral n]))) bc_new =
       Some (fs, s') \<and> observe (run_vm P (vm_new fs)) = Some (Ok (VInt n, []))"
proof -
  let ?p = "program_add program_new (SExpr (Call (Ident g) [IntLiteral m, IntLiteral n])) :: 'a Program"
  let ?code = "[OpLoadInt m, OpLoadInt n, OpCall 2] :: 'a Opcode list"
  let ?s = "start_function (lit ''__entry__'') bc_new :: 'a bc"
  have "compile_stmts chk (statements ?p) ?s = Some (extend ?code [] ?s)"
    by (simp add: program_add_def program_new_def assms extend_def emit_def start_function_def Let_def)
  from compile_program_code[OF this] obtain s' where
    c: "compile_program chk ?p bc_new = Some ([entry_function (?code @ [OpReturn]) []], s')"
    by (auto simp: add_return_def)
  let ?f = "entry_function (?code @ [OpReturn]) [] :: 'a BytecodeFunction"
  have "observe (run_vm P (vm_new [?f])) = Some (Ok (VInt n, []))"
    unfolding observe_run_vm
    by (simp add: run_loop.simps[of P] vm_new_def nth_function_def entry_function_def push_val_def
        pop_val_def truncate_stack_def find_fn_by_ip_def observe_loop_def)
  with c show ?thesis by blast
qed

theorem user_call_returns_last_argument_witness:
  "\<exists>fs s'. compile_program True
     (program_add program_new (SExpr (Call (Ident (lit ''f'')) [IntLiteral 1, IntLiteral 2]))) bc_new =
     Some (fs, s') \<and> observe (run_vm int_plat (vm_new fs)) = Some (Ok (VInt 2, []))"
  by (rule user_call_returns_last_argument) (simp add: call_builtin_def lit_def)

text \<open>
  Indexing panics exactly on a string with an index between its number of characters and its
  number of bytes, so only on a string with a character outside ASCII.
\<close>

theorem index_panics:
  "(vm_index (VStr s) (VInt i) = Panic) =
     (0 \<le> sint i \<and> length s \<le> nat (sint i) \<and> nat (sint i) < utf8_len s) \<and>
   vm_index (VArray vs) idx \<noteq> Panic \<and>
   vm_index (VStr [0x4E2D]) (VInt 1) = Panic"
  by (auto simp: vm_index_def utf8_len_def utf8_width_def split: Value.split)

subsection \<open>Termination of straight-line code\<close>

fun forward :: "'f Opcode \<Rightarrow> bool" where
  "forward (OpJmp d) = (0 \<le> sint d)"
| "forward (OpJmpIf d) = (0 \<le> sint d)"
| "forward (OpJmpIfNot d) = (0 \<le> sint d)"
| "forward (OpCall _) = False"
| "forward _ = True"

definition same_control :: "'f Vm \<Rightarrow> 'f Vm \<Rightarrow> bool" where
  "same_control vm vm' =
     (fn_table vm' = fn_table vm \<and> current_fn vm' = current_fn vm \<and>
      call_stack vm' = call_stack vm \<and> ip vm' = ip vm)"

lemma same_control_refl [simp]: "same_control vm vm"
  by (simp add: same_control_def)

lemma same_control_push [simp]: "same_control vm (push_val v vm') = same_control vm vm'"
  by (simp add: same_control_def push_val_def)

lemma same_control_out [simp]: "same_control vm (vm'\<lparr>out := w\<rparr>) = same_control vm vm'"
  by (simp add: same_control_def)

lemma pop_val_control: "pop_val vm = Ok (v, vm') \<Longrightarrow> same_control vm vm'"
  by (auto simp: pop_val_def same_control_def split: list.splits)

lemma same_control_trans: "same_control a b \<Longrightarrow> same_control b c \<Longrightarrow> same_control a c"
  by (simp add: same_control_def)

lemma pop_bool_control: "pop_bool vm = Ok (v, vm') \<Longrightarrow> same_control vm vm'"
  by (auto simp: pop_bool_def obind_Ok_iff pop_val_control)

lemma binary_op_control: "binary_op f vm = Ok vm' \<Longrightarrow> same_control vm vm'"
  by (auto simp: binary_op_def obind_Ok_iff) (meson pop_val_control same_control_trans)

lemma pop_many_control: "pop_many n vm = Ok (vs, vm') \<Longrightarrow> same_control vm vm'"
proof (induction n arbitrary: vm vs vm')
  case (Suc n)
  then show ?case
    by (auto simp: obind_Ok_iff) (meson pop_val_control same_control_trans)
qed simp

lemma builtin_control: "execute_builtin P idx vm = Ok vm' \<Longrightarrow> same_control vm vm'"
proof (cases "pop_val vm")
  case (Ok r)
  then obtain v vm1 where pop: "pop_val vm = Ok (v, vm1)" by (cases r) auto
  assume "execute_builtin P idx vm = Ok vm'"
  with pop pop_val_control[OF pop] show ?thesis
    by (cases v) (auto simp: execute_builtin_def pop_bool_def split: if_splits)
qed (auto simp: execute_builtin_def pop_bool_def split: if_splits)

lemma jump_forward:
  "0 \<le> sint d \<Longrightarrow> jump chk d vm = Ok vm' \<Longrightarrow> \<exists>n. vm' = vm\<lparr>ip := ip vm + n\<rparr>"
  by (auto simp: jump_def)

definition moves_on :: "'f Vm \<Rightarrow> 'f Vm \<Rightarrow> bool" where
  "moves_on vm vm' =
     (fn_table vm' = fn_table vm \<and> current_fn vm' = current_fn vm \<and> call_stack vm' = [] \<and>
      ip vm \<le> ip vm')"

lemma moves_on_simps [simp]:
  "moves_on vm (push_val v vm') = moves_on vm vm'"
  "moves_on vm (vm'\<lparr>running := b\<rparr>) = moves_on vm vm'"
  by (simp_all add: moves_on_def push_val_def)

lemma moves_on_same: "same_control vm vm' \<Longrightarrow> call_stack vm = [] \<Longrightarrow> moves_on vm vm'"
  by (simp add: same_control_def moves_on_def)

lemma moves_on_jump:
  assumes "0 \<le> sint d" "jump chk d vm1 = Ok vm'" "same_control vm vm1" "call_stack vm = []"
  shows "moves_on vm vm'"
  using jump_forward[OF assms(1,2)] assms(3,4) by (auto simp: same_control_def moves_on_def)

lemma forward_moves_on:
  assumes "execute_op P op vm = Ok vm'" and "forward op" and "call_stack vm = []"
  shows "moves_on vm vm'"
proof (cases op)
  case OpReturn
  then obtain v vm1 where pop: "pop_val vm = Ok (v, vm1)"
    using assms(1) by (cases "pop_val vm") auto
  then show ?thesis
    using assms(1,3) OpReturn pop_val_control[OF pop]
    by (auto simp: moves_on_def push_val_def same_control_def)
next
  case OpNeg
  then show ?thesis
    using assms(1,3) by (auto simp: obind_Ok_iff intro!: moves_on_same elim!: pop_val_control)
next
  case OpHalt
  then show ?thesis using assms(1,3) by (auto simp: moves_on_def)
next
  case (OpMakeArray n)
  then show ?thesis
    using assms(1,3) by (auto simp: obind_Ok_iff intro!: moves_on_same elim!: pop_many_control)
next
  case OpSend
  then show ?thesis
    using assms(1,3)
    by (auto simp: obind_Ok_iff intro!: moves_on_same)
      (meson pop_val_control same_control_trans)
qed (use assms in \<open>auto simp: obind_Ok_iff compare_op_def Let_def
      split: if_splits option.splits list.splits
      intro: moves_on_same binary_op_control builtin_control moves_on_jump pop_val_control
        pop_bool_control pop_many_control\<close>)

lemma forward_loop_returns:
  assumes "\<forall>op\<in>set (bf_code f). forward op" and "nth_function vm (current_fn vm) = Some f"
    and "call_stack vm = []"
  shows "run_loop P vm \<noteq> None"
  using assms(2,3)
proof (induction "length (bf_code f) - ip vm" arbitrary: vm rule: less_induct)
  case less
  show ?case
  proof (cases "running vm \<and> ip vm < length (bf_code f)")
    case True
    let ?op = "bf_code f ! ip vm" and ?vm = "vm\<lparr>ip := ip vm + 1\<rparr>"
    have next_state: "run_loop P vm' \<noteq> None" if "execute_op P ?op ?vm = Ok vm'" for vm'
    proof (rule less.hyps)
      have "forward ?op" using assms(1) True by simp
      from forward_moves_on[OF that this] have m: "moves_on ?vm vm'" using less.prems(2) by simp
      then show "length (bf_code f) - ip vm' < length (bf_code f) - ip vm" "call_stack vm' = []"
        using True by (auto simp: moves_on_def)
      show "nth_function vm' (current_fn vm') = Some f"
        using m less.prems(1) by (auto simp: moves_on_def nth_function_def split: if_splits)
    qed
    show ?thesis
      using True less.prems(1) next_state
      by (subst run_loop.simps) (simp split: outcome.split)
  next
    case False
    then show ?thesis
      using less.prems(1) by (subst run_loop.simps) auto
  qed
qed

text \<open>
  A run ends whenever the entry function has no call and no backward jump: with a result, an
  error or a panic. So code the compiler makes from expressions without user calls always ends.
\<close>

theorem forward_code_terminates:
  assumes "\<forall>op\<in>set (bf_code f). forward op"
  shows "run_vm P (vm_new (f # fs)) \<noteq> None"
proof -
  let ?vm = "(vm_new (f # fs))\<lparr>running := True, ip := 0, current_fn := 0\<rparr>"
  have "run_loop P ?vm \<noteq> None"
    by (rule forward_loop_returns[OF assms]) (simp_all add: vm_new_def nth_function_def)
  then show ?thesis by (auto simp: run_vm_def split: option.split)
qed

theorem forward_code_terminates_witness:
  "run_vm int_plat (vm_new [entry_function
     [OpLoadBool False, OpJmpIfNot 2, OpLoadInt 10, OpJmp 1, OpLoadInt 20, OpReturn] []]) \<noteq> None"
  by (rule forward_code_terminates) (simp add: entry_function_def)

text \<open>
  Without that restriction a run need not end: the one-instruction program that jumps back to
  itself runs forever.
\<close>

lemma backward_jump_diverges:
  "run_vm P (vm_new [entry_function [OpJmp (- 1)] []]) = None"
proof -
  let ?code = "[OpJmp (- 1)] :: 'a Opcode list"
  let ?vm = "(vm_new [entry_function ?code []])\<lparr>running := True\<rparr>"
  have "case (P, vm) of (_, u) \<Rightarrow> u \<noteq> ?vm" if "run_loop P vm = Some r" for vm r
  proof (rule run_loop.raw_induct[where Pa = "\<lambda>x _. case x of (_, u) \<Rightarrow> u \<noteq> ?vm", OF _ that])
    fix loop :: "'a plat \<Rightarrow> 'a Vm \<Rightarrow> ('a, 'a Vm) vm_res option" and P vm r
    assume IH: "\<And>P vm r. loop P vm = Some r \<Longrightarrow> case (P, vm) of (_, u) \<Rightarrow> u \<noteq> ?vm"
    assume step: "(if \<not> running vm then Some (Ok vm)
      else case nth_function vm (current_fn vm) of
          None \<Rightarrow> Some Panic
        | Some f \<Rightarrow>
            if length (bf_code f) \<le> ip vm then Some (Ok vm)
            else (case execute_op P (bf_code f ! ip vm) (vm\<lparr>ip := ip vm + 1\<rparr>) of
                Ok vm' \<Rightarrow> loop P vm'
              | Err e \<Rightarrow> Some (Err e)
              | Panic \<Rightarrow> Some Panic)) = Some r"
    have "vm \<noteq> ?vm"
    proof
      assume "vm = ?vm"
      with step have "loop P ?vm = Some r"
        by (simp add: vm_new_def nth_function_def entry_function_def jump_def)
      from IH[OF this] show False by simp
    qed
    then show "case (P, vm) of (_, u) \<Rightarrow> u \<noteq> ?vm" by simp
  qed
  from this[of ?vm] have "run_loop P ?vm = None" by (cases "run_loop P ?vm") auto
  then show ?thesis by (simp add: run_vm_def vm_new_def)
qed

end
