(* ===== verification/Agreement.thy ===== *)
theory Agreement
  imports InterpCorrect VmCorrect
begin

section \<open>The bytecode and the interpreter agree\<close>

text \<open>
  The two ways to run an expression. A small type system, \<open>simple_type\<close>, picks the expressions on
  which they agree: literals of integers, floats, strings and booleans; \<open>+\<close> on two integers, floats or
  strings, \<open>-\<close> and \<open>*\<close> on two integers or two floats, \<open>/\<close> on two integers; \<open>==\<close> and \<open>!=\<close> on two integers,
  strings or booleans, the four orders on two integers or two strings; negation of a number; and
  conditionals with a boolean condition and branches of one type. On these the virtual machine and the
  interpreter give the same value or both panic, except that an integer division by zero is an error of
  the machine and a panic of the interpreter. Division, equality and order of floats have no type: there
  the two differ, as \<open>float_operators_differ\<close> shows.
\<close>

datatype simple = TInt | TFloat | TStr | TBool

definition simple_binary :: "ustr \<Rightarrow> simple \<Rightarrow> simple option" where
  "simple_binary op t =
     (if op = lit ''+'' then (if t = TBool then None else Some t)
      else if op \<in> {lit ''-'', lit ''*''} then (if t \<in> {TInt, TFloat} then Some t else None)
      else if op = lit ''/'' then (if t = TInt then Some t else None)
      else if op \<in> {lit ''=='', lit ''!=''} then (if t = TFloat then None else Some TBool)
      else if op \<in> {lit ''<'', lit ''>'', lit ''<='', lit ''>=''} then
        (if t \<in> {TInt, TStr} then Some TBool else None)
      else None)"

fun simple_type :: "'f Expr \<Rightarrow> simple option" where
  "simple_type (IntLiteral _) = Some TInt"
| "simple_type (FloatLiteral _) = Some TFloat"
| "simple_type (StringLiteral _) = Some TStr"
| "simple_type (BoolLiteral _) = Some TBool"
| "simple_type (BinaryOp l op r) =
     (case (simple_type l, simple_type r) of
        (Some t, Some u) \<Rightarrow> if t = u then simple_binary op t else None
      | _ \<Rightarrow> None)"
| "simple_type (UnaryOp op e) =
     (if op = lit ''-'' then
        (case simple_type e of Some TInt \<Rightarrow> Some TInt | Some TFloat \<Rightarrow> Some TFloat | _ \<Rightarrow> None)
      else None)"
| "simple_type (IfExpr c t e) =
     (if simple_type c = Some TBool \<and> simple_type t = simple_type e then simple_type t else None)"
| "simple_type _ = None"

fun value_simple :: "'f Value \<Rightarrow> simple option" where
  "value_simple (VInt _) = Some TInt"
| "value_simple (VFloat _) = Some TFloat"
| "value_simple (VStr _) = Some TStr"
| "value_simple (VBool _) = Some TBool"
| "value_simple _ = None"

fun to_rt :: "'f Value \<Rightarrow> 'f RValue" where
  "to_rt (VInt n) = RInt n"
| "to_rt (VFloat x) = RFloat x"
| "to_rt (VStr s) = RString s"
| "to_rt (VBool b) = RBool b"
| "to_rt _ = RNone"

definition to_rt_out :: "('f, 'f Value) vm_res \<Rightarrow> ('f rt_error, 'f RValue) outcome" where
  "to_rt_out r = (case r of Ok v \<Rightarrow> Ok (to_rt v) | _ \<Rightarrow> Panic)"

definition typed_res :: "simple \<Rightarrow> ('f, 'f Value) vm_res \<Rightarrow> bool" where
  "typed_res t r =
     (case r of Ok v \<Rightarrow> value_simple v = Some t | Err e \<Rightarrow> e = DivisionByZero | Panic \<Rightarrow> True)"

lemma value_simple_cases:
  "value_simple v = Some t \<longleftrightarrow>
     (case t of TInt \<Rightarrow> \<exists>n. v = VInt n | TFloat \<Rightarrow> \<exists>x. v = VFloat x | TStr \<Rightarrow> \<exists>s. v = VStr s
      | TBool \<Rightarrow> \<exists>b. v = VBool b)"
  by (cases v) (auto split: simple.split)

lemma or_panic_agree:
  "to_rt_out (obind (or_panic r) (\<lambda>n. Ok (VInt n))) = obind (or_panic r) (\<lambda>n. Ok (RInt n))"
  "typed_res TInt (obind (or_panic r) (\<lambda>n. Ok (VInt n)))"
  by (cases r; simp add: to_rt_out_def typed_res_def)+

lemma simple_binary_ops:
  assumes "simple_binary op t = Some u"
  shows "(op = lit ''+'' \<and> t \<noteq> TBool \<and> u = t) \<or>
    (op = lit ''-'' \<or> op = lit ''*'') \<and> (t = TInt \<or> t = TFloat) \<and> u = t \<or>
    (op = lit ''/'' \<and> t = TInt \<and> u = t) \<or>
    (op = lit ''=='' \<or> op = lit ''!='') \<and> t \<noteq> TFloat \<and> u = TBool \<or>
    (op = lit ''<'' \<or> op = lit ''>'' \<or> op = lit ''<='' \<or> op = lit ''>='') \<and>
      (t = TInt \<or> t = TStr) \<and> u = TBool"
  using assms unfolding simple_binary_def by (simp split: if_splits)

lemma apply_binary_ops:
  "apply_binary P (lit ''+'') = add_values P"
  "apply_binary P (lit ''-'') = sub_values P"
  "apply_binary P (lit ''*'') = mul_values P"
  "apply_binary P (lit ''/'') = div_values P"
  "apply_binary P (lit ''=='') = (\<lambda>a b. Ok (RBool (values_equal P a b)))"
  "apply_binary P (lit ''!='') = (\<lambda>a b. Ok (RBool (\<not> values_equal P a b)))"
  "apply_binary P (lit ''<'') = (\<lambda>a b. compare_values P a b (lit ''<''))"
  "apply_binary P (lit ''>'') = (\<lambda>a b. compare_values P a b (lit ''>''))"
  "apply_binary P (lit ''<='') = (\<lambda>a b. compare_values P a b (lit ''<=''))"
  "apply_binary P (lit ''>='') = (\<lambda>a b. compare_values P a b (lit ''>=''))"
  by (intro ext, simp add: apply_binary_def lit_def)+

lemma bin_value_ops:
  "bin_value P (lit ''+'') = vm_add P"
  "bin_value P (lit ''-'') = vm_sub P"
  "bin_value P (lit ''*'') = vm_mul P"
  "bin_value P (lit ''/'') = vm_div P"
  "bin_value P (lit ''=='') = (\<lambda>a b. Ok (VBool (value_eq P a b)))"
  "bin_value P (lit ''!='') = (\<lambda>a b. Ok (VBool (\<not> value_eq P a b)))"
  "bin_value P (lit ''<'') = (\<lambda>a b. Ok (VBool (vm_lt P a b)))"
  "bin_value P (lit ''>'') = (\<lambda>a b. Ok (VBool (vm_lt P b a)))"
  "bin_value P (lit ''<='') = (\<lambda>a b. Ok (VBool (vm_le P a b)))"
  "bin_value P (lit ''>='') = (\<lambda>a b. Ok (VBool (vm_le P b a)))"
  by (intro ext, simp add: bin_value_def lit_def)+

lemma res_simps [simp]:
  "to_rt_out (Ok v) = Ok (to_rt v)" "to_rt_out (Err e) = Panic" "to_rt_out Panic = Panic"
  "typed_res t (Ok v) = (value_simple v = Some t)" "typed_res t (Err e) = (e = DivisionByZero)"
  "typed_res t Panic"
  by (simp_all add: to_rt_out_def typed_res_def)

lemma sint_eq_iff: "sint (x :: i64) = sint y \<longleftrightarrow> x = y"
  by (auto dest: signed_word_eqI)

lemma compare_agree:
  "compare_values P (RInt x) (RInt y) (lit ''<'') = Ok (RBool (sint x < sint y))"
  "compare_values P (RInt x) (RInt y) (lit ''>'') = Ok (RBool (sint y < sint x))"
  "compare_values P (RInt x) (RInt y) (lit ''<='') = Ok (RBool (sint x \<le> sint y))"
  "compare_values P (RInt x) (RInt y) (lit ''>='') = Ok (RBool (sint y \<le> sint x))"
  "compare_values P (RString v) (RString w) (lit ''<'') = Ok (RBool (str_less v w))"
  "compare_values P (RString v) (RString w) (lit ''>'') = Ok (RBool (str_less w v))"
  "compare_values P (RString v) (RString w) (lit ''<='') = Ok (RBool (\<not> str_less w v))"
  "compare_values P (RString v) (RString w) (lit ''>='') = Ok (RBool (\<not> str_less v w))"
  using str_less_antisym[of v w] str_less_total[of v w]
  by (auto simp: compare_values_def i64_cmp_def str_cmp_def lit_def not_less order_le_less
      sint_eq_iff)

lemma binary_agree:
  assumes "simple_binary op t = Some u" and "value_simple a = Some t" "value_simple b = Some t"
  shows "apply_binary P op (to_rt a) (to_rt b) = to_rt_out (bin_value P op a b) \<and>
    typed_res u (bin_value P op a b)"
  using simple_binary_ops[OF assms(1)] assms(2,3)
  by (elim disjE conjE)
    (cases t; auto simp: value_simple_cases apply_binary_ops bin_value_ops compare_agree or_panic_agree
      add_values_def sub_values_def mul_values_def div_values_def values_equal_def vm_div_def
      is_zero_value_def i64_div_def)+


text \<open>
  Why the floats are left out of division, equality and order: a quotient by zero is an error of the
  machine and a value of the interpreter, equality has two tolerances, and where two floats are not
  ordered, as with a NaN, the machine answers no to \<open>\<le>\<close> and the interpreter yes.
\<close>

lemma float_operators_differ:
  "f_is_zero P y \<Longrightarrow> bin_value P (lit ''/'') (VFloat x) (VFloat y) = Err DivisionByZero \<and>
     apply_binary P (lit ''/'') (RFloat x) (RFloat y) = Ok (RFloat (f_div P x y))"
  "bin_value P (lit ''=='') (VFloat x) (VFloat y) = Ok (VBool (f_small P Epsilon (f_sub P x y))) \<and>
     apply_binary P (lit ''=='') (RFloat x) (RFloat y) = Ok (RBool (f_small P Tol_1e_10 (f_sub P x y)))"
  "f_cmp P x y = None \<Longrightarrow> bin_value P (lit ''<='') (VFloat x) (VFloat y) = Ok (VBool False) \<and>
     apply_binary P (lit ''<='') (RFloat x) (RFloat y) = Ok (RBool True)"
  unfolding bin_value_ops apply_binary_ops
  by (auto simp: vm_div_def is_zero_value_def div_values_def values_equal_def compare_values_def float_cmp_def
      f_cmp_def lit_def split: bool.splits)

lemma simple_binary_not_assign: "simple_binary op t = Some u \<Longrightarrow> op \<noteq> lit ''=''"
  by (auto simp: simple_binary_def lit_def)

lemma unary_agree:
  assumes "value_simple v = Some t" and "t = TInt \<or> t = TFloat"
  shows "apply_unary P (lit ''-'') (to_rt v) = to_rt_out (vm_neg P v) \<and> typed_res t (vm_neg P v)"
  using assms by (cases v) (auto simp: apply_unary_def or_panic_agree)

text \<open>
  An expression with a simple type has one outcome, which the reference evaluator of the compiler and the
  interpreter both give.
\<close>

lemma simple_agree:
  "simple_type e = Some t \<Longrightarrow>
   \<exists>r. typed_res t r \<and> (\<forall>w. eval P e w = obind r (\<lambda>v. Ok (v, w))) \<and> returns P T e (to_rt_out r)"
proof (induction e arbitrary: t rule: simple_type.induct)
  case (5 l op r)
  then obtain u where u: "simple_type l = Some u" "simple_type r = Some u" "simple_binary op u = Some t"
    by (auto split: option.splits if_splits)
  obtain r1 r2 where r1: "typed_res u r1" "\<forall>w. eval P l w = obind r1 (\<lambda>v. Ok (v, w))"
      "returns P T l (to_rt_out r1)"
    and r2: "typed_res u r2" "\<forall>w. eval P r w = obind r2 (\<lambda>v. Ok (v, w))"
      "returns P T r (to_rt_out r2)"
    using "5.IH" u by blast
  let ?r = "obind r1 (\<lambda>a. obind r2 (\<lambda>b. bin_value P op a b))"
  have "\<forall>w. eval P (BinaryOp l op r) w = obind ?r (\<lambda>v. Ok (v, w))"
    using r1(2) r2(2) by (simp add: obind_assoc)
  moreover have "obind (to_rt_out r1) (\<lambda>a. obind (to_rt_out r2) (\<lambda>b. apply_binary P op a b)) =
      to_rt_out ?r \<and> typed_res t ?r"
    using r1(1) r2(1) binary_agree[OF u(3)] by (cases r1; cases r2) auto
  ultimately show ?case
    using returns_binary[OF r1(3) r2(3) simple_binary_not_assign[OF u(3)]] by metis
next
  case (6 op e)
  then have op: "op = lit ''-''" "simple_type e = Some t" "t = TInt \<or> t = TFloat"
    by (auto split: if_splits option.splits simple.splits)
  obtain r1 where r1: "typed_res t r1" "\<forall>w. eval P e w = obind r1 (\<lambda>v. Ok (v, w))"
      "returns P T e (to_rt_out r1)"
    using "6.IH" op by blast
  have "\<forall>w. eval P (UnaryOp op e) w = obind (obind r1 (vm_neg P)) (\<lambda>v. Ok (v, w))"
    using r1(2) by (simp add: obind_assoc)
  moreover have "obind (to_rt_out r1) (apply_unary P op) = to_rt_out (obind r1 (vm_neg P)) \<and>
      typed_res t (obind r1 (vm_neg P))"
    using r1(1) unary_agree[OF _ op(3)] op(1) by (cases r1) auto
  ultimately show ?case using returns_unary[OF r1(3), of op] by metis
next
  case (7 c t1 t2)
  then have ty: "simple_type c = Some TBool" "simple_type t1 = Some t" "simple_type t2 = Some t"
    by (auto split: if_splits)
  obtain r1 r2 r3 where r1: "typed_res TBool r1" "\<forall>w. eval P c w = obind r1 (\<lambda>v. Ok (v, w))"
      "returns P T c (to_rt_out r1)"
    and r2: "typed_res t r2" "\<forall>w. eval P t1 w = obind r2 (\<lambda>v. Ok (v, w))"
      "returns P T t1 (to_rt_out r2)"
    and r3: "typed_res t r3" "\<forall>w. eval P t2 w = obind r3 (\<lambda>v. Ok (v, w))"
      "returns P T t2 (to_rt_out r3)"
    using "7.IH" ty by metis
  let ?r = "obind r1 (\<lambda>v. if truthy v then r2 else r3)"
  have "\<forall>w. eval P (IfExpr c t1 t2) w = obind ?r (\<lambda>v. Ok (v, w))"
    using r1(2) r2(2) r3(2) by (cases r1) auto
  moreover have "obind (to_rt_out r1) (\<lambda>v. if truthy_value P v then to_rt_out r2 else to_rt_out r3) =
      to_rt_out ?r \<and> typed_res t ?r"
    using r1(1) r2(1) r3(1) by (cases r1) (auto simp: value_simple_cases)
  ultimately show ?case using returns_if[OF r1(3) r2(3) r3(3)] by metis
qed (auto intro!: exI[of _ "Ok _"] simp: returns_literal)

lemma simple_compilable: "simple_type e = Some t \<Longrightarrow> compilable e"
proof (induction e arbitrary: t rule: simple_type.induct)
  case (5 l op r)
  then show ?case by (auto split: option.splits if_splits dest!: simple_binary_ops)
next
  case (7 c t1 t2)
  from "7.prems" have "simple_type c = Some TBool" "simple_type t1 = Some t" "simple_type t2 = Some t"
    by (auto split: if_splits)
  then show ?case using "7.IH" by simp
qed (auto split: if_splits option.splits)

lemma eval_stmts_one:
  "eval_stmts P [SExpr e] VNone w = eval P e w"
  by (cases "eval P e w") auto

lemma simple_program_runs:
  assumes "simple_type e = Some t" and "length (stmts_code 0 [SExpr e]) + 1 < 2 ^ 15"
  shows "\<exists>r fs s' n. typed_res t r \<and>
    compile_program chk (one_expr e) bc_new = Some (fs, s') \<and>
    observe (run_vm P (vm_new fs)) = Some (obind r (\<lambda>v. Ok (v, []))) \<and>
    interpret_program P T n (one_expr e) s = Some (obind (to_rt_out r) (\<lambda>v. Ok [v]), s)"
proof -
  obtain r where r: "typed_res t r" "\<forall>w. eval P e w = obind r (\<lambda>v. Ok (v, w))"
      "returns P T e (to_rt_out r)"
    using simple_agree[OF assms(1)] by blast
  have "list_all compilable_stmt (statements (one_expr e))"
    using simple_compilable[OF assms(1)] by simp
  moreover have "length (stmts_code 0 (statements (one_expr e))) + 1 < 2 ^ 15"
    using assms(2) by simp
  ultimately obtain fs s' where "compile_program chk (one_expr e) bc_new = Some (fs, s')"
      "observe (run_vm P (vm_new fs)) = Some (eval_stmts P [SExpr e] VNone [])"
    using compile_and_run[of "one_expr e" chk P] by auto
  then show ?thesis
    using r returns_program[OF r(3), of s] unfolding eval_stmts_one by auto
qed

text \<open>
  C2: The two back ends agree on the expressions that \<open>simple_type\<close> types, which have no variables, no
  calls, and no division, equality or order of floats. Such an expression whose code is shorter than
  2^15 compiles without a panic, the bytecode and the interpreter both end on it without printing, and
  they give the same value, of the type of the expression; or both panic; or the bytecode ends with an
  integer division by zero, where the interpreter panics. No other error occurs.
\<close>

theorem vm_interpreter_agree:
  assumes "simple_type e = Some t" and "length (stmts_code 0 [SExpr e]) + 1 < 2 ^ 15"
  shows "\<exists>r fs s' n. typed_res t r \<and>
    compile_program chk (one_expr e) bc_new = Some (fs, s') \<and>
    observe (run_vm P (vm_new fs)) = Some (obind r (\<lambda>v. Ok (v, []))) \<and>
    interpret_program P T n (one_expr e) s = Some (obind (to_rt_out r) (\<lambda>v. Ok [v]), s)"
  using assms by (rule simple_program_runs)

theorem vm_interpreter_agree_witness:
  "\<exists>r fs s' n. typed_res TStr r \<and>
    compile_program True (one_expr (IfExpr (BinaryOp (IntLiteral 1) (lit ''<'') (IntLiteral 2))
      (BinaryOp (StringLiteral (lit ''a'')) (lit ''+'') (StringLiteral (lit ''b'')))
      (StringLiteral []))) bc_new = Some (fs, s') \<and>
    observe (run_vm int_plat (vm_new fs)) = Some (obind r (\<lambda>v. Ok (v, []))) \<and>
    interpret_program int_plat no_threads n
      (one_expr (IfExpr (BinaryOp (IntLiteral 1) (lit ''<'') (IntLiteral 2))
      (BinaryOp (StringLiteral (lit ''a'')) (lit ''+'') (StringLiteral (lit ''b'')))
      (StringLiteral []))) (interp_new ()) =
      Some (obind (to_rt_out r) (\<lambda>v. Ok [v]), interp_new ())"
  by (rule vm_interpreter_agree)
    (simp_all add: simple_binary_def lit_def stmt_code_def stmt_expr_def stmt_strings_def Let_def)

end
