(* ===== verification/Parser.thy ===== *)
theory Parser
  imports Tokens Ast
begin

section \<open>The parser (compiler/src/parser.rs)\<close>

text \<open>
  Recursive descent over the tokens, with precedence climbing for the binary operators. The state is
  the record \<open>parser\<close>; beyond the last token the parser sees an end-of-file token. A parsing
  function returns a result with the next state, or the error that ends the whole parse, whose
  message is kept as the arguments of its format string. The functions that call each other are
  given fuel, and \<open>None\<close> is running out of it; \<open>parse_returns\<close> in ParserCorrect shows how much is
  enough for any input.
\<close>

subsection \<open>State and results\<close>

datatype parse_message =
    ExpectedToken ustr TokenType ustr
  | InvalidAnnotationToken ustr
  | InvalidEffectType ustr
  | UnknownGovernance ustr
  | UnknownAnnotation ustr
  | UnexpectedInPattern ustr
  | UnknownBinaryOperator ustr
  | UnexpectedToken ustr

record ParseError =
  pe_message :: parse_message
  pe_line :: nat
  pe_column :: nat

record parser =
  ptokens :: "Token list"
  ppos :: nat

definition parser_new :: "Token list \<Rightarrow> parser" where
  "parser_new ts = \<lparr>ptokens = ts, ppos = 0\<rparr>"

definition eof_proxy :: Token where
  "eof_proxy = new_token Eof [] 99999 0"

definition p_peek :: "parser \<Rightarrow> nat \<Rightarrow> Token" where
  "p_peek p offset =
     (if ppos p + offset < length (ptokens p) then ptokens p ! (ppos p + offset) else eof_proxy)"

definition p_current :: "parser \<Rightarrow> Token" where
  "p_current p = (if ppos p < length (ptokens p) then ptokens p ! ppos p else eof_proxy)"

definition p_check :: "parser \<Rightarrow> TokenType \<Rightarrow> bool" where
  "p_check p tt = (token_type (p_current p) = tt)"

definition peek_token_value :: "parser \<Rightarrow> nat \<Rightarrow> ustr option" where
  "peek_token_value p offset =
     (if ppos p + offset < length (ptokens p) then Some (tvalue (ptokens p ! (ppos p + offset)))
      else None)"

type_synonym 'a parse = "parser \<Rightarrow> (ParseError + 'a \<times> parser) option"

definition p_none :: "'a parse" where
  "p_none = (\<lambda>p. None)"

definition p_ret :: "'a \<Rightarrow> 'a parse" where
  "p_ret x = (\<lambda>p. Some (Inr (x, p)))"

definition p_bind :: "'a parse \<Rightarrow> ('a \<Rightarrow> 'b parse) \<Rightarrow> 'b parse" where
  "p_bind m f = (\<lambda>p. case m p of
       None \<Rightarrow> None
     | Some (Inl e) \<Rightarrow> Some (Inl e)
     | Some (Inr (x, p')) \<Rightarrow> f x p')"

definition p_get :: "(parser \<Rightarrow> 'a parse) \<Rightarrow> 'a parse" where
  "p_get f = (\<lambda>p. f p p)"

text \<open>An error at the position of a token.\<close>

definition p_fail :: "Token \<Rightarrow> parse_message \<Rightarrow> 'a parse" where
  "p_fail tok msg = (\<lambda>p. Some (Inl \<lparr>pe_message = msg, pe_line = tline tok, pe_column = tcolumn tok\<rparr>))"

definition p_advance :: "Token parse" where
  "p_advance = (\<lambda>p. Some (Inr (p_current p, p\<lparr>ppos := ppos p + 1\<rparr>)))"

definition match_token :: "TokenType \<Rightarrow> bool parse" where
  "match_token tt = p_get (\<lambda>p.
     if p_check p tt then p_bind p_advance (\<lambda>_. p_ret True) else p_ret False)"

definition expect :: "TokenType \<Rightarrow> ustr \<Rightarrow> Token parse" where
  "expect tt name = p_get (\<lambda>p.
     if p_check p tt then p_advance
     else p_fail (p_current p)
       (ExpectedToken name (token_type (p_current p)) (tvalue (p_current p))))"

text \<open>The value of an expected identifier, and the text of a token name in quotes.\<close>

definition expect_ident :: "string \<Rightarrow> ustr parse" where
  "expect_ident name = p_bind (expect IdentTok (lit name)) (\<lambda>t. p_ret (tvalue t))"

abbreviation quoted :: "string \<Rightarrow> ustr" where
  "quoted s \<equiv> [39] @ lit s @ [39]"

text \<open>\<open>if self.match_token(tt) { Some(m) } else { None }\<close>.\<close>

definition p_opt :: "TokenType \<Rightarrow> 'a parse \<Rightarrow> 'a option parse" where
  "p_opt tt m = p_bind (match_token tt) (\<lambda>b.
     if b then p_bind m (\<lambda>x. p_ret (Some x)) else p_ret None)"

text \<open>The loops up to a closing brace, and over what follows commas.\<close>

fun until_brace :: "nat \<Rightarrow> 'a parse \<Rightarrow> 'a list parse" where
  "until_brace 0 m = p_none"
| "until_brace (Suc n) m = p_get (\<lambda>p.
     if \<not> p_check p RightBrace \<and> \<not> p_check p Eof
     then p_bind m (\<lambda>x. p_bind (until_brace n m) (\<lambda>xs. p_ret (x # xs)))
     else p_ret [])"

fun comma_rest :: "nat \<Rightarrow> 'a parse \<Rightarrow> 'a list parse" where
  "comma_rest 0 m = p_none"
| "comma_rest (Suc n) m = p_bind (match_token Comma) (\<lambda>b.
     if b then p_bind m (\<lambda>x. p_bind (comma_rest n m) (\<lambda>xs. p_ret (x # xs)))
     else p_ret [])"

definition comma_list :: "nat \<Rightarrow> TokenType \<Rightarrow> 'a parse \<Rightarrow> 'a list parse" where
  "comma_list n close m = p_get (\<lambda>p.
     if p_check p close then p_ret []
     else p_bind m (\<lambda>x. p_bind (comma_rest n m) (\<lambda>xs. p_ret (x # xs))))"

subsection \<open>Types and patterns\<close>

definition base_of_name :: "ustr \<Rightarrow> BaseType" where
  "base_of_name v =
     (if v = lit ''int'' then BInt else if v = lit ''float'' then BFloat
      else if v = lit ''string'' then BString else if v = lit ''bool'' then BBool
      else if v = lit ''char'' then BChar else if v = lit ''none'' then BNone
      else if v = lit ''array'' then BArray else if v = lit ''option'' then BOption
      else if v = lit ''result'' then BResult else if v = lit ''func'' then BFunc
      else BUnknown)"

fun parse_type :: "nat \<Rightarrow> TypeRef parse" where
  "parse_type 0 = p_none"
| "parse_type (Suc n) = p_bind (expect_ident ''type name'') (\<lambda>v.
     p_bind (match_token Less) (\<lambda>b.
       if b then
         p_bind (parse_type n) (\<lambda>arg.
         p_bind (p_opt Comma (parse_type n)) (\<lambda>err.
         p_bind (expect Greater (quoted ''>'')) (\<lambda>_.
           p_ret (TypeRef (base_of_name v) (Some arg) err))))
       else p_ret (type_new (base_of_name v))))"

text \<open>A literal token as an expression; a text that is no number counts as 0.\<close>

definition literal_tokens :: "TokenType set" where
  "literal_tokens = {TokenType.IntLiteral, TokenType.FloatLiteral, TokenType.StringLiteral,
     TokenType.BoolLiteral, TokenType.CharLiteral}"

definition int_of_text :: "ustr \<Rightarrow> i64" where
  "int_of_text v = (case parse_i64 v of Some i \<Rightarrow> word_of_int i | None \<Rightarrow> 0)"

definition literal_expr :: "'f plat \<Rightarrow> Token \<Rightarrow> 'f Expr" where
  "literal_expr P tok =
     (let tt = token_type tok; v = tvalue tok in
      if tt = TokenType.IntLiteral then Expr.IntLiteral (int_of_text v)
      else if tt = TokenType.FloatLiteral then
        Expr.FloatLiteral (case f_parse P v of Some x \<Rightarrow> x | None \<Rightarrow> f_zero P)
      else if tt = TokenType.StringLiteral then Expr.StringLiteral v
      else if tt = TokenType.BoolLiteral then Expr.BoolLiteral (v = lit ''true'')
      else Expr.CharLiteral (case v of c # _ \<Rightarrow> c | [] \<Rightarrow> 0))"

definition parse_field_pattern :: "(ustr \<times> ustr) parse" where
  "parse_field_pattern =
     p_bind (expect_ident ''field name'') (\<lambda>fname.
     p_bind (p_opt Colon (expect_ident ''binding'')) (\<lambda>b.
     p_bind (match_token Comma) (\<lambda>_.
       p_ret (fname, case b of Some x \<Rightarrow> x | None \<Rightarrow> fname))))"

fun parse_pattern :: "'f plat \<Rightarrow> nat \<Rightarrow> 'f Pattern parse" where
  "parse_pattern P 0 = p_none"
| "parse_pattern P (Suc n) = p_get (\<lambda>p.
     let tok = p_current p in
     if token_type tok = IdentTok \<and> tvalue tok = lit ''_'' then
       p_bind p_advance (\<lambda>_. p_ret (Pattern (lit ''wild'') [] None [] [] None))
     else if token_type tok = IdentTok then
       p_bind p_advance (\<lambda>_. p_bind (match_token LeftParen) (\<lambda>paren.
         if paren then
           p_bind (parse_pattern P n) (\<lambda>inner. p_bind (expect RightParen (quoted '')'')) (\<lambda>_.
             p_ret (Pattern (lit ''ctor'') (tvalue tok) (Some (pat_name inner)) [inner] [] None)))
         else p_bind (match_token LeftBrace) (\<lambda>brace.
           if brace then
             p_bind (until_brace n parse_field_pattern) (\<lambda>fs.
             p_bind (expect RightBrace (quoted ''}'')) (\<lambda>_.
               p_ret (Pattern (lit ''struct'') (tvalue tok) None [] fs None)))
           else p_ret (Pattern (lit ''ctor'') (tvalue tok) None [] [] None))))
     else if token_type tok \<in> literal_tokens then
       p_bind p_advance (\<lambda>_. p_ret (Pattern (lit ''lit'') [] None [] [] (Some (literal_expr P tok))))
     else p_fail tok (UnexpectedInPattern (tvalue tok)))"

subsection \<open>From statements to expressions\<close>

definition stmt_to_expr_single :: "'f Stmt \<Rightarrow> 'f Expr" where
  "stmt_to_expr_single st =
     (case st of
        SExpr e \<Rightarrow> e
      | SReturn (Some e) \<Rightarrow> e
      | SLet _ (Some e) _ _ \<Rightarrow> e
      | _ \<Rightarrow> Expr.IntLiteral 0)"

definition stmts_to_expr :: "'f Stmt list \<Rightarrow> 'f Expr" where
  "stmts_to_expr ts = (if ts = [] then Expr.IntLiteral 0 else stmt_to_expr_single (last ts))"

definition stmt_to_expr :: "'f Stmt \<Rightarrow> 'f Expr" where
  "stmt_to_expr st =
     (case st of
        SIf c t e \<Rightarrow> IfExpr c (stmts_to_expr t) (stmts_to_expr e)
      | SMatch target arms \<Rightarrow> MatchExpr target arms
      | _ \<Rightarrow> stmt_to_expr_single st)"

subsection \<open>Blocks and compound statements\<close>

text \<open>
  \<open>pe\<close> parses an expression, \<open>ps\<close> a statement and \<open>pb\<close> a block. \<open>parse_statement\<close> returns
  an option as in the source, where it is never None.
\<close>

definition parse_block :: "'f Stmt option parse \<Rightarrow> nat \<Rightarrow> 'f Stmt list parse" where
  "parse_block ps n =
     p_bind (expect LeftBrace (quoted ''{'')) (\<lambda>_.
     p_bind (until_brace n ps) (\<lambda>ts.
     p_bind (expect RightBrace (quoted ''}'')) (\<lambda>_. p_ret (List.map_filter id ts))))"

fun parse_if :: "'f Expr parse \<Rightarrow> 'f Stmt list parse \<Rightarrow> nat \<Rightarrow> 'f Stmt parse" where
  "parse_if pe pb 0 = p_none"
| "parse_if pe pb (Suc n) =
     p_bind pe (\<lambda>c. p_bind pb (\<lambda>t.
     p_bind (match_token KeywordElse) (\<lambda>el.
     p_bind (if el then p_get (\<lambda>p.
         if p_check p KeywordIf
         then p_bind p_advance (\<lambda>_. p_bind (parse_if pe pb n) (\<lambda>s. p_ret [s]))
         else pb)
       else p_ret []) (\<lambda>e. p_ret (SIf c t e)))))"

definition parse_while :: "'f Expr parse \<Rightarrow> 'f Stmt list parse \<Rightarrow> 'f Stmt parse" where
  "parse_while pe pb = p_bind pe (\<lambda>c. p_bind pb (\<lambda>body. p_ret (SWhile c body)))"

definition parse_for :: "'f Expr parse \<Rightarrow> 'f Stmt list parse \<Rightarrow> 'f Stmt parse" where
  "parse_for pe pb =
     p_bind (expect_ident ''loop variable'') (\<lambda>target.
     p_bind (expect KeywordIn (quoted ''in'')) (\<lambda>_.
     p_bind pe (\<lambda>it. p_bind pb (\<lambda>body. p_ret (SFor target it body)))))"

definition parse_match_arm ::
  "'f plat \<Rightarrow> 'f Expr parse \<Rightarrow> 'f Stmt option parse \<Rightarrow> nat \<Rightarrow> 'f MatchArm parse" where
  "parse_match_arm P pe ps n =
     p_bind (parse_pattern P n) (\<lambda>pat.
     p_bind (p_opt KeywordIf pe) (\<lambda>guard.
     p_bind (expect DoubleArrow (quoted ''=>'')) (\<lambda>_.
     p_bind ps (\<lambda>body.
     p_bind (match_token Comma) (\<lambda>_.
       p_ret (MatchArm pat guard
         [case body of Some s \<Rightarrow> s | None \<Rightarrow> SExpr (Expr.IntLiteral 0)]))))))"

definition parse_match ::
  "'f plat \<Rightarrow> 'f Expr parse \<Rightarrow> 'f Stmt option parse \<Rightarrow> nat \<Rightarrow> 'f Stmt parse" where
  "parse_match P pe ps n =
     p_bind pe (\<lambda>target.
     p_bind (expect LeftBrace (quoted ''{'')) (\<lambda>_.
     p_bind (until_brace n (parse_match_arm P pe ps n)) (\<lambda>arms.
     p_bind (expect RightBrace (quoted ''}'')) (\<lambda>_. p_ret (SMatch target arms)))))"

subsection \<open>Expressions\<close>

definition op_precedence :: "TokenType \<Rightarrow> int" where
  "op_precedence tt =
     (if tt = Or then 1 else if tt = And then 2
      else if tt \<in> {Equal, DoubleEqual, NotEqual} then 3
      else if tt \<in> {Less, Greater, LessEqual, GreaterEqual} then 4
      else if tt \<in> {Plus, Minus} then 5
      else if tt \<in> {Star, Slash, Modulo} then 6 else 0)"

definition op_text :: "TokenType \<Rightarrow> ustr option" where
  "op_text tt =
     (if tt = Plus then Some (lit ''+'') else if tt = Minus then Some (lit ''-'')
      else if tt = Star then Some (lit ''*'') else if tt = Slash then Some (lit ''/'')
      else if tt = Modulo then Some (lit ''%'') else if tt = Equal then Some (lit ''='')
      else if tt = DoubleEqual then Some (lit ''=='')
      else if tt = NotEqual then Some (lit ''!='')
      else if tt = Less then Some (lit ''<'') else if tt = Greater then Some (lit ''>'')
      else if tt = LessEqual then Some (lit ''<='')
      else if tt = GreaterEqual then Some (lit ''>='')
      else if tt = And then Some (lit ''&&'') else if tt = Or then Some (lit ''||'')
      else None)"

fun parse_binary :: "'f Expr parse \<Rightarrow> nat \<Rightarrow> int \<Rightarrow> 'f Expr parse"
and binary_loop :: "'f Expr parse \<Rightarrow> nat \<Rightarrow> int \<Rightarrow> 'f Expr \<Rightarrow> 'f Expr parse" where
  "parse_binary pu 0 min_prec = p_none"
| "parse_binary pu (Suc n) min_prec = p_bind pu (binary_loop pu n min_prec)"
| "binary_loop pu 0 min_prec left = p_none"
| "binary_loop pu (Suc n) min_prec left = p_get (\<lambda>p.
     let op_tt = token_type (p_current p); prec = op_precedence op_tt in
     if prec < min_prec then p_ret left
     else if prec = 0 then p_ret left
     else p_bind p_advance (\<lambda>_.
       case op_text op_tt of
         None \<Rightarrow> p_get (\<lambda>p. p_fail (p_current p) (UnknownBinaryOperator (tvalue (p_current p))))
       | Some op \<Rightarrow> p_bind (parse_binary pu n (prec + 1)) (\<lambda>right.
           binary_loop pu n min_prec (BinaryOp left op right))))"

fun pipe_ops :: "nat \<Rightarrow> (ustr \<times> 'f Expr) list parse" where
  "pipe_ops 0 = p_none"
| "pipe_ops (Suc n) = p_bind (match_token PipeTok) (\<lambda>b.
     if b then p_bind (expect_ident ''pipe function name'') (\<lambda>name.
       p_bind (pipe_ops n) (\<lambda>ops. p_ret ((name, Ident name) # ops)))
     else p_ret [])"

definition parse_pipe :: "'f Expr parse \<Rightarrow> nat \<Rightarrow> 'f Expr parse" where
  "parse_pipe pu n =
     p_bind (parse_binary pu n 0) (\<lambda>left.
     p_bind (pipe_ops n) (\<lambda>ops. p_ret (if ops = [] then left else Pipe left ops)))"

definition parse_expression :: "'f Expr parse \<Rightarrow> nat \<Rightarrow> 'f Expr parse" where
  "parse_expression pu n = parse_pipe pu n"

text \<open>What follows an identifier: member accesses, calls and indexes.\<close>

fun postfix_loop :: "'f Expr parse \<Rightarrow> nat \<Rightarrow> 'f Expr \<Rightarrow> 'f Expr parse" where
  "postfix_loop pe 0 obj = p_none"
| "postfix_loop pe (Suc n) obj =
     p_bind (match_token Dot) (\<lambda>dot.
     if dot then p_bind (expect_ident ''field name'') (\<lambda>member.
       postfix_loop pe n (MemberAccess obj member))
     else p_bind (match_token LeftParen) (\<lambda>paren.
     if paren then p_bind (comma_list n RightParen pe) (\<lambda>args.
       p_bind (expect RightParen (quoted '')'')) (\<lambda>_. postfix_loop pe n (Call obj args)))
     else p_bind (match_token LeftBracket) (\<lambda>bracket.
     if bracket then p_bind pe (\<lambda>idx.
       p_bind (expect RightBracket (quoted '']'')) (\<lambda>_. postfix_loop pe n (Index obj idx)))
     else p_ret obj)))"

definition parse_range :: "ustr \<Rightarrow> 'f Expr parse" where
  "parse_range v =
     p_bind p_advance (\<lambda>_. p_bind p_advance (\<lambda>_.
     p_bind (expect TokenType.IntLiteral (lit ''range end'')) (\<lambda>end_tok.
       p_ret (Range (Expr.IntLiteral (int_of_text v))
         (Expr.IntLiteral (int_of_text (tvalue end_tok))) False))))"

definition parenthesized :: "'f Expr parse \<Rightarrow> 'f Expr parse" where
  "parenthesized pe =
     p_bind (expect LeftParen (quoted ''('')) (\<lambda>_. p_bind pe (\<lambda>e.
     p_bind (expect RightParen (quoted '')'')) (\<lambda>_. p_ret e)))"

definition constructor_expr :: "'f Expr parse \<Rightarrow> ustr \<Rightarrow> 'f Expr parse" where
  "constructor_expr pe v =
     (if v = lit ''Some'' then
        p_bind (parenthesized pe) (\<lambda>e. p_ret (OptionValue True (Some e)))
      else if v = lit ''None'' then p_ret (OptionValue False None)
      else if v = lit ''Ok'' then
        p_bind (parenthesized pe) (\<lambda>e. p_ret (ResultValue True (Some e) None))
      else p_bind (parenthesized pe) (\<lambda>e. p_ret (ResultValue False None (Some e))))"

definition parse_primary ::
  "'f plat \<Rightarrow> 'f Expr parse \<Rightarrow> 'f Stmt option parse \<Rightarrow> nat \<Rightarrow> 'f Expr parse" where
  "parse_primary P pe ps n = p_get (\<lambda>p.
     let tok = p_current p; tt = token_type tok; v = tvalue tok in
     if tt = KeywordIf then
       p_bind p_advance (\<lambda>_. p_bind (parse_if pe (parse_block ps n) n) (\<lambda>s. p_ret (stmt_to_expr s)))
     else if tt = KeywordMatch then
       p_bind p_advance (\<lambda>_. p_bind (parse_match P pe ps n) (\<lambda>s. p_ret (stmt_to_expr s)))
     else if tt = TokenType.IntLiteral \<and> token_type (p_peek p 1) = DoubleDot then parse_range v
     else if tt \<in> literal_tokens then p_bind p_advance (\<lambda>_. p_ret (literal_expr P tok))
     else if tt = IdentTok \<and> v \<in> {lit ''Some'', lit ''None'', lit ''Ok'', lit ''Err''} then
       p_bind p_advance (\<lambda>_. constructor_expr pe v)
     else if tt = LeftParen then
       p_bind p_advance (\<lambda>_. p_bind pe (\<lambda>e.
         p_bind (expect RightParen (quoted '')'')) (\<lambda>_. p_ret e)))
     else if tt = LeftBracket then
       p_bind p_advance (\<lambda>_. p_bind (comma_list n RightBracket pe) (\<lambda>es.
         p_bind (expect RightBracket (quoted '']'')) (\<lambda>_. p_ret (Array es))))
     else if tt = LeftBrace then
       p_bind (parse_block ps n) (\<lambda>ts.
         p_ret (stmt_to_expr (if ts = [] then SExpr (Expr.IntLiteral 0) else last ts)))
     else if tt = IdentTok then p_bind p_advance (\<lambda>_. postfix_loop pe n (Ident v))
     else p_fail tok (UnexpectedToken v))"

definition unary_step :: "'f Expr parse \<Rightarrow> 'f Expr parse \<Rightarrow> 'f Expr parse" where
  "unary_step pu primary = p_get (\<lambda>p.
     let tt = token_type (p_current p) in
     if tt = Minus then
       p_bind p_advance (\<lambda>_. p_bind pu (\<lambda>e. p_ret (UnaryOp (lit ''-'') e)))
     else if tt = NotTok then
       p_bind p_advance (\<lambda>_. p_bind pu (\<lambda>e. p_ret (UnaryOp (lit ''!'') e)))
     else primary)"

subsection \<open>Function declarations and their annotations\<close>

definition annotation_tokens :: "ustr list" where
  "annotation_tokens = [lit ''pure'', lit ''io'', lit ''async'', lit ''spawn'', lit ''cpu'',
     lit ''gpu'', lit ''sfa'', lit ''net'', lit ''perceive'', lit ''reason'', lit ''decide'',
     lit ''act'', lit ''loop'', lit ''gov'', lit ''latency'', lit ''timeout'',
     lit ''throughput'', lit ''proven'', lit ''verified'', lit ''inferred'', lit ''generated'',
     lit ''uncertain'']"

definition parse_effect_or_cap :: "ustr parse" where
  "parse_effect_or_cap = p_get (\<lambda>p.
     let tok = p_current p; v = tvalue tok in
     if token_type tok \<in> {IdentTok, KeywordAsync, KeywordSpawn} then
       p_bind p_advance (\<lambda>_.
         if v \<in> set annotation_tokens then p_ret v else p_fail tok (InvalidEffectType v))
     else if v \<in> set annotation_tokens then p_bind p_advance (\<lambda>_. p_ret v)
     else p_fail tok (InvalidAnnotationToken v))"

definition is_effect_token :: "ustr \<Rightarrow> bool" where
  "is_effect_token s = (s \<in> {lit ''pure'', lit ''io'', lit ''async'', lit ''spawn''})"

definition is_capability_token :: "ustr \<Rightarrow> bool" where
  "is_capability_token s = (s \<in> {lit ''cpu'', lit ''gpu'', lit ''sfa'', lit ''net''})"

definition is_cognitive_loop_token :: "ustr \<Rightarrow> bool" where
  "is_cognitive_loop_token s =
     (s \<in> {lit ''perceive'', lit ''reason'', lit ''decide'', lit ''act'', lit ''loop''})"

definition is_governance_token :: "ustr \<Rightarrow> bool" where
  "is_governance_token s = (s = lit ''gov'')"

definition is_time_channel_token :: "ustr \<Rightarrow> bool" where
  "is_time_channel_token s = (s \<in> {lit ''latency'', lit ''timeout'', lit ''throughput''})"

definition is_confidence_token :: "ustr \<Rightarrow> bool" where
  "is_confidence_token s = (s \<in> {lit ''proven'', lit ''verified'', lit ''inferred'',
     lit ''generated'', lit ''uncertain''})"

text \<open>\<open>@ llm("...")\<close>, \<open>@ gov(level)\<close> and \<open>@ latency(50ms)\<close> and the like, behind their names.\<close>

definition llm_annotation :: "FnAnnot \<Rightarrow> FnAnnot parse" where
  "llm_annotation an =
     p_bind p_advance (\<lambda>_. p_bind p_advance (\<lambda>_.
     p_bind (expect LeftParen (quoted ''('')) (\<lambda>_.
     p_bind (expect TokenType.StringLiteral (lit ''LLM prompt string'')) (\<lambda>prompt.
     p_bind (expect RightParen (quoted '')'')) (\<lambda>_.
       p_ret (an\<lparr>an_llm_prompt := Some (tvalue prompt)\<rparr>))))))"

definition gov_annotation :: "FnAnnot \<Rightarrow> FnAnnot parse" where
  "gov_annotation an =
     p_bind (expect LeftParen (quoted ''('')) (\<lambda>_.
     p_bind (expect_ident ''governance level'') (\<lambda>level.
     p_bind (if level \<in> {lit ''prepare'', lit ''suggest'', lit ''approve'', lit ''execute''}
       then p_ret (an\<lparr>an_governance := Some level\<rparr>)
       else p_get (\<lambda>p. p_fail (p_current p) (UnknownGovernance level))) (\<lambda>an'.
     p_bind (expect RightParen (quoted '')'')) (\<lambda>_. p_ret an'))))"

definition time_value :: "ustr parse" where
  "time_value =
     p_bind (expect LeftParen (quoted ''('')) (\<lambda>_.
     p_bind (expect TokenType.IntLiteral (lit ''time value'')) (\<lambda>num.
     p_bind (p_get (\<lambda>p. if token_type (p_current p) = IdentTok
       then p_bind p_advance (\<lambda>t. p_ret (tvalue t)) else p_ret [])) (\<lambda>unit.
     p_bind (p_get (\<lambda>p. if token_type (p_current p) = Slash
       then p_bind p_advance (\<lambda>_. p_bind (expect_ident ''throughput unit'') (\<lambda>suffix.
         p_ret (lit ''/'' @ suffix)))
       else p_ret unit)) (\<lambda>unit'.
     p_bind (expect RightParen (quoted '')'')) (\<lambda>_. p_ret (tvalue num @ unit'))))))"

definition time_annotation :: "ustr \<Rightarrow> FnAnnot \<Rightarrow> FnAnnot parse" where
  "time_annotation tok an = p_bind time_value (\<lambda>v.
     p_ret (if tok = lit ''latency'' then an\<lparr>an_latency := Some v\<rparr>
       else if tok = lit ''timeout'' then an\<lparr>an_timeout := Some v\<rparr>
       else if tok = lit ''throughput'' then an\<lparr>an_throughput := Some v\<rparr> else an))"

definition one_annotation :: "FnAnnot \<Rightarrow> FnAnnot parse" where
  "one_annotation an =
     p_bind p_advance (\<lambda>_. p_bind parse_effect_or_cap (\<lambda>tok.
       if is_effect_token tok then p_ret (an\<lparr>an_effect := Some tok\<rparr>)
       else if is_capability_token tok then p_ret (an\<lparr>an_capability := Some tok\<rparr>)
       else if is_cognitive_loop_token tok then p_ret (an\<lparr>an_cognitive_loop := Some tok\<rparr>)
       else if is_governance_token tok then gov_annotation an
       else if is_confidence_token tok then p_ret (an\<lparr>an_confidence := Some tok\<rparr>)
       else if is_time_channel_token tok then time_annotation tok an
       else p_get (\<lambda>p. p_fail (p_current p) (UnknownAnnotation tok))))"

fun annotations_loop :: "nat \<Rightarrow> FnAnnot \<Rightarrow> FnAnnot parse" where
  "annotations_loop 0 an = p_none"
| "annotations_loop (Suc n) an = p_get (\<lambda>p.
     if token_type (p_current p) \<noteq> At then p_ret an
     else p_bind (if peek_token_value p 1 = Some (lit ''llm'') then llm_annotation an
         else one_annotation an) (annotations_loop n))"

definition parse_channel_annotations :: "nat \<Rightarrow> ustr option \<Rightarrow> FnAnnot parse" where
  "parse_channel_annotations n preset_effect = annotations_loop n (no_annot\<lparr>an_effect := preset_effect\<rparr>)"

definition parse_param :: "'f Expr parse \<Rightarrow> nat \<Rightarrow> 'f FnParam parse" where
  "parse_param pe n =
     p_bind (expect_ident ''parameter name'') (\<lambda>name.
     p_bind (p_opt Colon (parse_type n)) (\<lambda>type_ann.
     p_bind (p_opt Equal pe) (\<lambda>default. p_ret (FnParam name type_ann default))))"

definition parse_fn_params :: "'f Expr parse \<Rightarrow> nat \<Rightarrow> 'f FnParam list parse" where
  "parse_fn_params pe n =
     p_bind (expect LeftParen (quoted ''('')) (\<lambda>_.
     p_bind (comma_list n RightParen (parse_param pe n)) (\<lambda>params.
     p_bind (expect RightParen (quoted '')'')) (\<lambda>_. p_ret params)))"

definition parse_fn_rest ::
  "'f Expr parse \<Rightarrow> 'f Stmt list parse \<Rightarrow> nat \<Rightarrow> ustr option \<Rightarrow> bool \<Rightarrow> 'f Stmt parse" where
  "parse_fn_rest pe pb n preset_effect async =
     p_bind (expect_ident ''function name'') (\<lambda>name.
     p_bind (parse_fn_params pe n) (\<lambda>params.
     p_bind (p_opt Arrow (parse_type n)) (\<lambda>return_type.
     p_bind (parse_channel_annotations n preset_effect) (\<lambda>an.
     p_bind pb (\<lambda>body. p_ret (SFn name params return_type an body async False))))))"

definition parse_fn :: "'f Expr parse \<Rightarrow> 'f Stmt list parse \<Rightarrow> nat \<Rightarrow> 'f Stmt parse" where
  "parse_fn pe pb n = parse_fn_rest pe pb n None False"

definition parse_async_fn :: "'f Expr parse \<Rightarrow> 'f Stmt list parse \<Rightarrow> nat \<Rightarrow> 'f Stmt parse" where
  "parse_async_fn pe pb n =
     p_bind (expect KeywordFn (quoted ''fn'')) (\<lambda>_.
       parse_fn_rest pe pb n (Some (lit ''async'')) True)"

subsection \<open>The other statements\<close>

definition parse_binding :: "'f Expr parse \<Rightarrow> nat \<Rightarrow> string \<Rightarrow>
    (ustr \<times> TypeRef option \<times> 'f Expr option) parse" where
  "parse_binding pe n what =
     p_bind (expect_ident what) (\<lambda>name.
     p_bind (p_opt Colon (parse_type n)) (\<lambda>type_ann.
     p_bind (p_opt Equal pe) (\<lambda>value. p_ret (name, type_ann, value))))"

definition parse_let :: "'f Expr parse \<Rightarrow> nat \<Rightarrow> 'f Stmt parse" where
  "parse_let pe n =
     p_bind (match_token KeywordMut) (\<lambda>mutable.
     p_bind (parse_binding pe n ''identifier'') (\<lambda>(name, type_ann, value).
       p_ret (SLet name value type_ann mutable)))"

definition parse_mut_let :: "'f Expr parse \<Rightarrow> nat \<Rightarrow> 'f Stmt parse" where
  "parse_mut_let pe n =
     p_bind (parse_binding pe n ''identifier'') (\<lambda>(name, type_ann, value).
       p_ret (SLet name value type_ann True))"

definition parse_const :: "'f Expr parse \<Rightarrow> nat \<Rightarrow> 'f Stmt parse" where
  "parse_const pe n =
     p_bind (parse_binding pe n ''constant name'') (\<lambda>(name, type_ann, value).
       p_ret (SConst name value type_ann))"

definition parse_type_alias :: "nat \<Rightarrow> 'f Stmt parse" where
  "parse_type_alias n =
     p_bind (expect_ident ''type name'') (\<lambda>name.
     p_bind (p_opt Equal (parse_type n)) (\<lambda>t. p_ret (STypeAlias name t)))"

definition parse_struct :: "nat \<Rightarrow> 'f Stmt parse" where
  "parse_struct n =
     p_bind (expect_ident ''struct name'') (\<lambda>name.
     p_bind (expect LeftBrace (quoted ''{'')) (\<lambda>_.
     p_bind (until_brace n
       (p_bind (expect_ident ''field name'') (\<lambda>fname.
        p_bind (expect Colon (quoted '':'')) (\<lambda>_.
        p_bind (parse_type n) (\<lambda>ftype.
        p_bind (match_token Comma) (\<lambda>_.
          p_ret \<lparr>field_name = fname, field_type = ftype\<rparr>)))))) (\<lambda>flds.
     p_bind (expect RightBrace (quoted ''}'')) (\<lambda>_. p_ret (SStructDef name [] flds)))))"

definition parse_enum :: "nat \<Rightarrow> 'f Stmt parse" where
  "parse_enum n =
     p_bind (expect_ident ''enum name'') (\<lambda>name.
     p_bind (expect LeftBrace (quoted ''{'')) (\<lambda>_.
     p_bind (until_brace n
       (p_bind (expect_ident ''variant name'') (\<lambda>vname.
        p_bind (match_token Comma) (\<lambda>_.
          p_ret \<lparr>variant_name = vname, variant_fields = []\<rparr>)))) (\<lambda>variants.
     p_bind (expect RightBrace (quoted ''}'')) (\<lambda>_. p_ret (SEnumDef name variants)))))"

definition parse_trait :: "'f Expr parse \<Rightarrow> nat \<Rightarrow> 'f Stmt parse" where
  "parse_trait pe n =
     p_bind (expect_ident ''trait name'') (\<lambda>name.
     p_bind (expect LeftBrace (quoted ''{'')) (\<lambda>_.
     p_bind (until_brace n
       (p_bind (expect KeywordFn (quoted ''fn'')) (\<lambda>_.
        p_bind (expect_ident ''method name'') (\<lambda>mname.
        p_bind (parse_fn_params pe n) (\<lambda>params.
        p_bind (p_opt Arrow (parse_type n)) (\<lambda>return_type.
          p_ret (TraitMethod mname return_type params))))))) (\<lambda>methods.
     p_bind (expect RightBrace (quoted ''}'')) (\<lambda>_. p_ret (STraitDef name methods)))))"

definition parse_impl :: "'f Expr parse \<Rightarrow> 'f Stmt list parse \<Rightarrow> nat \<Rightarrow> 'f Stmt parse" where
  "parse_impl pe pb n =
     p_bind (expect_ident ''type name'') (\<lambda>type_name.
     p_bind (expect LeftBrace (quoted ''{'')) (\<lambda>_.
     p_bind (until_brace n
       (p_bind (expect KeywordFn (quoted ''fn'')) (\<lambda>_.
        p_bind (expect_ident ''method name'') (\<lambda>mname.
        p_bind (parse_fn_params pe n) (\<lambda>_.
        p_bind (p_opt Arrow (parse_type n)) (\<lambda>return_type.
        p_bind pb (\<lambda>_. p_ret (FnParam mname return_type None)))))))) (\<lambda>methods.
     p_bind (expect RightBrace (quoted ''}'')) (\<lambda>_.
       p_ret (SImplBlock None type_name methods)))))"

definition parse_return :: "'f Expr parse \<Rightarrow> 'f Stmt parse" where
  "parse_return pe = p_get (\<lambda>p.
     if p_check p RightBrace \<or> p_check p Semicolon then p_ret (SReturn None)
     else p_bind pe (\<lambda>e. p_ret (SReturn (Some e))))"

definition parse_use :: "'f Stmt parse" where
  "parse_use = p_bind (expect_ident ''module path'') (\<lambda>path. p_ret (SUse path))"

definition parse_export :: "'f Stmt parse" where
  "parse_export = p_bind (expect_ident ''export name'') (\<lambda>name. p_ret (SExport name))"

definition parse_spawn :: "'f Expr parse \<Rightarrow> 'f Stmt list parse \<Rightarrow> nat \<Rightarrow> 'f Stmt parse" where
  "parse_spawn pe pb n =
     p_bind (expect KeywordFn (quoted ''fn'')) (\<lambda>_.
     p_bind (parse_fn pe pb n) (\<lambda>f. p_ret (SSpawn f)))"

definition parse_channel :: "nat \<Rightarrow> 'f Stmt parse" where
  "parse_channel n =
     p_bind (expect_ident ''channel send endpoint'') (\<lambda>send_name.
     p_bind (expect_ident ''channel recv endpoint'') (\<lambda>recv_name.
     p_bind (p_opt Colon (parse_type n)) (\<lambda>t.
       p_ret (SChannel send_name recv_name
         (case t of Some ty \<Rightarrow> ty | None \<Rightarrow> type_new BUnknown) 0))))"

definition parse_assert :: "'f Expr parse \<Rightarrow> 'f Stmt parse" where
  "parse_assert pe =
     p_bind pe (\<lambda>c. p_bind (p_opt Comma pe) (\<lambda>message. p_ret (SAssert c message)))"

definition parse_try_catch :: "'f Stmt list parse \<Rightarrow> 'f Stmt parse" where
  "parse_try_catch pb =
     p_bind pb (\<lambda>try_body.
     p_bind (expect KeywordCatch (quoted ''catch'')) (\<lambda>_.
     p_bind (match_token LeftParen) (\<lambda>paren.
     if paren then
       p_bind (expect_ident ''catch parameter'') (\<lambda>param.
       p_bind (expect RightParen (quoted '')'')) (\<lambda>_.
       p_bind pb (\<lambda>body. p_ret (STryCatch try_body (Some param) body))))
     else p_bind pb (\<lambda>body. p_ret (STryCatch try_body None body)))))"

definition behind :: "'f Stmt parse \<Rightarrow> 'f Stmt option parse" where
  "behind m = p_bind p_advance (\<lambda>_. p_bind m (\<lambda>s. p_ret (Some s)))"

definition statement_step ::
  "'f plat \<Rightarrow> 'f Expr parse \<Rightarrow> 'f Stmt option parse \<Rightarrow> nat \<Rightarrow> 'f Stmt option parse" where
  "statement_step P pe ps n = p_get (\<lambda>p.
     let tt = token_type (p_current p); pb = parse_block ps n in
     if tt = KeywordLet then behind (parse_let pe n)
     else if tt = KeywordMut then behind (parse_mut_let pe n)
     else if tt = KeywordFn then behind (parse_fn pe pb n)
     else if tt = KeywordIf then behind (parse_if pe pb n)
     else if tt = KeywordWhile then behind (parse_while pe pb)
     else if tt = KeywordFor then behind (parse_for pe pb)
     else if tt = KeywordMatch then behind (parse_match P pe ps n)
     else if tt = KeywordStruct then behind (parse_struct n)
     else if tt = KeywordEnum then behind (parse_enum n)
     else if tt = KeywordTrait then behind (parse_trait pe n)
     else if tt = KeywordImpl then behind (parse_impl pe pb n)
     else if tt = KeywordReturn then behind (parse_return pe)
     else if tt = KeywordUse then behind parse_use
     else if tt = KeywordExport then behind parse_export
     else if tt = KeywordSpawn then behind (parse_spawn pe pb n)
     else if tt = KeywordAssert then behind (parse_assert pe)
     else if tt = KeywordChannel then behind (parse_channel n)
     else if tt = KeywordAsync then behind (parse_async_fn pe pb n)
     else if tt = KeywordTry then behind (parse_try_catch pb)
     else if tt = KeywordConst then behind (parse_const pe n)
     else if tt = KeywordType then behind (parse_type_alias n)
     else p_bind pe (\<lambda>e. p_bind (match_token Semicolon) (\<lambda>_. p_ret (Some (SExpr e)))))"

subsection \<open>The whole parser\<close>

fun parse_unary :: "'f plat \<Rightarrow> nat \<Rightarrow> 'f Expr parse"
and parse_statement :: "'f plat \<Rightarrow> nat \<Rightarrow> 'f Stmt option parse" where
  "parse_unary P 0 = p_none"
| "parse_unary P (Suc n) = unary_step (parse_unary P n)
     (parse_primary P (parse_expression (parse_unary P n) n) (parse_statement P n) n)"
| "parse_statement P 0 = p_none"
| "parse_statement P (Suc n) =
     statement_step P (parse_expression (parse_unary P n) n) (parse_statement P n) n"

fun parse_loop :: "'f plat \<Rightarrow> nat \<Rightarrow> nat \<Rightarrow> 'f Program \<Rightarrow> 'f Program parse" where
  "parse_loop P k 0 prog = p_none"
| "parse_loop P k (Suc n) prog = p_get (\<lambda>p.
     if p_check p Eof then p_ret prog
     else p_bind (parse_statement P k) (\<lambda>st.
       parse_loop P k n (case st of Some s \<Rightarrow> program_add prog s | None \<Rightarrow> prog)))"

definition parse_program :: "'f plat \<Rightarrow> nat \<Rightarrow> 'f Program parse" where
  "parse_program P n = parse_loop P n n program_new"

text \<open>\<open>Parser::new(tokens).parse()\<close>.\<close>

definition parse_tokens :: "'f plat \<Rightarrow> nat \<Rightarrow> Token list \<Rightarrow> (ParseError + 'f Program) option" where
  "parse_tokens P n ts =
     (case parse_program P n (parser_new ts) of
        None \<Rightarrow> None
      | Some (Inl e) \<Rightarrow> Some (Inl e)
      | Some (Inr (prog, _)) \<Rightarrow> Some (Inr prog))"

end
