(* ===== verification/ParserCorrect.thy ===== *)
theory ParserCorrect
  imports Parser
begin

section \<open>The parser always answers\<close>

text \<open>
  A parsing step is \<open>good\<close> at a state for a postcondition if it returns and, when it returns no
  error, the postcondition holds of its result. The rules compute what has to hold before a step;
  the measure is the number of tokens left. From them: fuel of twice the number of tokens, plus two,
  is enough for every token list.
\<close>

subsection \<open>Postconditions\<close>

definition left :: "parser \<Rightarrow> nat" where
  "left p = length (ptokens p) - ppos p"

definition good :: "'a parse \<Rightarrow> parser \<Rightarrow> ('a \<Rightarrow> parser \<Rightarrow> bool) \<Rightarrow> bool" where
  "good m p Q =
     (case m p of None \<Rightarrow> False | Some (Inl _) \<Rightarrow> True | Some (Inr (x, p')) \<Rightarrow> Q x p')"

named_theorems parse_wp \<open>the precondition of a step for a postcondition, as equations\<close>
named_theorems parse_rules \<open>the precondition of a step for a postcondition, as rules\<close>

lemma good_simps [parse_wp]:
  "good (p_ret x) p Q = Q x p"
  "good (p_fail t msg) p Q"
  "good (p_get f) p Q = good (f p) p Q"
  "good (if b then m else m') p Q = (if b then good m p Q else good m' p Q)"
  by (simp_all add: good_def p_ret_def p_fail_def p_get_def)

lemma good_bind [parse_wp]: "good (p_bind m f) p Q = good m p (\<lambda>x p'. good (f x) p' Q)"
  by (auto simp: good_def p_bind_def split: option.split sum.split prod.split)

lemma good_mono: "good m p Q \<Longrightarrow> (\<And>x p'. Q x p' \<Longrightarrow> Q' x p') \<Longrightarrow> good m p Q'"
  by (auto simp: good_def split: option.splits sum.splits prod.splits)

lemma current_left: "token_type (p_current p) \<noteq> Eof \<Longrightarrow> 0 < left p"
  by (auto simp: p_current_def left_def eof_proxy_def split: if_splits)

lemma good_advance [parse_wp]: "good p_advance p Q = Q (p_current p) (p\<lparr>ppos := ppos p + 1\<rparr>)"
  by (simp add: good_def p_advance_def)

lemma left_advance [simp]:
  "left (p\<lparr>ppos := Suc (ppos p)\<rparr>) = left p - 1"
  "left (p\<lparr>ppos := Suc (Suc (ppos p))\<rparr>) = left p - 2"
  by (simp_all add: left_def)

text \<open>A step \<open>eats\<close> if it uses at least one token, and \<open>keeps\<close> if it never goes back.\<close>

definition eats :: "nat \<Rightarrow> 'a parse \<Rightarrow> bool" where
  "eats L m = (\<forall>p. left p \<le> L \<longrightarrow> good m p (\<lambda>_ p'. left p' < left p))"

definition keeps :: "nat \<Rightarrow> 'a parse \<Rightarrow> bool" where
  "keeps L m = (\<forall>p. left p \<le> L \<longrightarrow> good m p (\<lambda>_ p'. left p' \<le> left p))"

lemma eatsI: "(\<And>p. left p \<le> L \<Longrightarrow> good m p (\<lambda>_ p'. left p' < left p)) \<Longrightarrow> eats L m"
  by (simp add: eats_def)

lemma keepsI: "(\<And>p. left p \<le> L \<Longrightarrow> good m p (\<lambda>_ p'. left p' \<le> left p)) \<Longrightarrow> keeps L m"
  by (simp add: keeps_def)

lemma eatsD:
  "eats L m \<Longrightarrow> left p \<le> L \<Longrightarrow> (\<And>x p'. left p' < left p \<Longrightarrow> Q x p') \<Longrightarrow> good m p Q"
  unfolding eats_def by (meson good_mono)

lemma keepsD:
  "keeps L m \<Longrightarrow> left p \<le> L \<Longrightarrow> (\<And>x p'. left p' \<le> left p \<Longrightarrow> Q x p') \<Longrightarrow> good m p Q"
  unfolding keeps_def by (meson good_mono)

lemma eats_less: "eats L m \<Longrightarrow> L' \<le> L \<Longrightarrow> eats L' m"
  by (simp add: eats_def)

lemma good_expect [parse_rules]:
  "tt \<noteq> Eof \<Longrightarrow> (\<And>x p'. left p' < left p \<Longrightarrow> Q x p') \<Longrightarrow> good (expect tt name) p Q"
  using current_left[of p] by (auto simp: expect_def parse_wp p_check_def)

lemma good_expect_ident [parse_rules]:
  "(\<And>x p'. left p' < left p \<Longrightarrow> Q x p') \<Longrightarrow> good (expect_ident name) p Q"
  by (auto simp: expect_ident_def parse_wp intro!: parse_rules)

lemma good_match [parse_rules]:
  "tt \<noteq> Eof \<Longrightarrow> (\<And>p'. left p' < left p \<Longrightarrow> Q True p') \<Longrightarrow> Q False p \<Longrightarrow> good (match_token tt) p Q"
  using current_left[of p] by (auto simp: match_token_def parse_wp p_check_def)

lemma good_opt [parse_rules]:
  assumes "tt \<noteq> Eof" and "\<And>p'. left p' < left p \<Longrightarrow> good m p' (\<lambda>_ p''. left p'' \<le> left p')"
    and "\<And>x p'. left p' \<le> left p \<Longrightarrow> Q x p'"
  shows "good (p_opt tt m) p Q"
  unfolding p_opt_def parse_wp
proof (rule good_match[OF assms(1)])
  fix p' assume "left p' < left p"
  with assms(2)[OF this] show "if True then good m p' (\<lambda>x p'a. Q (Some x) p'a) else Q None p'"
    by (auto elim!: good_mono intro!: assms(3))
qed (simp add: assms(3))

lemma good_until [parse_rules]:
  assumes "eats (left p) m" and "left p < n" and "\<And>x p'. left p' \<le> left p \<Longrightarrow> Q x p'"
  shows "good (until_brace n m) p Q"
  using assms
proof (induction n arbitrary: p Q)
  case (Suc n)
  show ?case
    by (auto simp: parse_wp Suc.prems(3) intro!: eatsD[OF Suc.prems(1)] Suc.IH
        intro: eats_less[OF Suc.prems(1)])
      (use Suc.prems in \<open>auto\<close>)
qed simp

lemma good_comma_rest [parse_rules]:
  assumes "eats (left p) m" and "left p < n" and "\<And>x p'. left p' \<le> left p \<Longrightarrow> Q x p'"
  shows "good (comma_rest n m) p Q"
  using assms
proof (induction n arbitrary: p Q)
  case (Suc n)
  show ?case
    by (auto simp: parse_wp Suc.prems(3) intro!: good_match eatsD[OF Suc.prems(1)] Suc.IH
        intro: eats_less[OF Suc.prems(1)])
      (use Suc.prems in \<open>auto\<close>)
qed simp

lemma good_comma_list [parse_rules]:
  assumes "eats (left p) m" and "left p < n" and "\<And>x p'. left p' \<le> left p \<Longrightarrow> Q x p'"
  shows "good (comma_list n close m) p Q"
  unfolding comma_list_def
  by (auto simp: parse_wp assms(3) intro!: eatsD[OF assms(1)] good_comma_rest eats_less[OF assms(1)])
    (use assms in \<open>auto\<close>)

subsection \<open>Every parsing function eats\<close>

lemma eats_keeps: "eats L m \<Longrightarrow> keeps L m"
  unfolding eats_def keeps_def by (meson good_mono less_imp_le)

lemma good_type [parse_rules]:
  assumes "left p < n" and "\<And>x p'. left p' < left p \<Longrightarrow> Q x p'"
  shows "good (parse_type n) p Q"
  using assms
proof (induction n arbitrary: p Q)
  case (Suc n)
  then show ?case
    by (auto simp: parse_wp intro!: good_expect good_expect_ident good_match good_opt Suc.IH)
qed simp

lemma eats_field_pattern: "eats L parse_field_pattern"
  by (auto simp: parse_field_pattern_def parse_wp intro!: eatsI parse_rules)

lemma literal_tokens_not_eof [simp]: "Eof \<notin> literal_tokens"
  by (simp add: literal_tokens_def)

lemma good_pattern [parse_rules]:
  assumes "left p < n" and "\<And>x p'. left p' < left p \<Longrightarrow> Q x p'"
  shows "good (parse_pattern P n) p Q"
  using assms
proof (induction n arbitrary: p Q)
  case (Suc n)
  show ?case
  proof (cases "token_type (p_current p) = Eof")
    case True
    then show ?thesis by (simp add: parse_wp Let_def)
  next
    case False
    then have "0 < left p" by (rule current_left)
    with Suc.prems show ?thesis
      by (auto simp: parse_wp Let_def intro!: good_expect good_match good_until Suc.IH
          eats_field_pattern)
  qed
qed simp

lemma eats_block:
  assumes "eats L ps" and "L < n"
  shows "eats (Suc L) (parse_block ps n)"
  by (auto simp: parse_block_def parse_wp intro!: eatsI good_expect good_until eats_less[OF assms(1)])
    (use assms(2) in auto)

lemma good_if:
  assumes "eats L pe" and "eats L pb" and "left p \<le> L" and "left p < n"
    and "\<And>x p'. left p' < left p \<Longrightarrow> Q x p'"
  shows "good (parse_if pe pb n) p Q"
  using assms(3-5)
proof (induction n arbitrary: p Q)
  case (Suc n)
  have "0 < left q" if "p_check q KeywordIf" for q
    using that current_left[of q] by (simp add: p_check_def)
  with Suc.prems show ?case
    by (auto simp: parse_wp intro!: good_match eatsD[OF assms(1)] eatsD[OF assms(2)] Suc.IH)
qed simp

lemma eats_while: "eats L pe \<Longrightarrow> eats L pb \<Longrightarrow> eats L (parse_while pe pb)"
  by (auto simp: parse_while_def parse_wp intro!: eatsI elim!: eatsD)

lemma eats_for: "eats L pe \<Longrightarrow> eats L pb \<Longrightarrow> eats L (parse_for pe pb)"
  by (auto simp: parse_for_def parse_wp intro!: eatsI good_expect good_expect_ident elim!: eatsD)

lemma eats_match_arm:
  assumes "eats L pe" and "eats L ps" and "L < n"
  shows "eats L (parse_match_arm P pe ps n)"
  using assms(3)
  by (auto simp: parse_match_arm_def parse_wp
      intro!: eatsI good_pattern good_opt good_expect good_match eatsD[OF assms(1)] eatsD[OF assms(2)])

lemma eats_match:
  assumes "eats L pe" and "eats L ps" and "L < n"
  shows "eats L (parse_match P pe ps n)"
  using assms(3)
  by (auto simp: parse_match_def parse_wp
      intro!: eatsI good_expect good_until eatsD[OF assms(1)] eats_less[OF eats_match_arm[OF assms]])

lemma op_precedence_eof: "op_precedence Eof = 0"
  by (simp add: op_precedence_def)

lemma good_binary_loop:
  assumes "eats L pu"
  shows "left p \<le> L \<Longrightarrow> left p < n \<Longrightarrow>
      good (parse_binary pu n m) p (\<lambda>_ p'. left p' < left p) \<and>
      good (binary_loop pu n m l) p (\<lambda>_ p'. left p' \<le> left p)"
proof (induction n arbitrary: m l p)
  case (Suc n)
  have IH1: "good (parse_binary pu n m) q Q"
    if "left q \<le> L" "left q < n" "\<And>x p'. left p' < left q \<Longrightarrow> Q x p'" for m q and Q
    using Suc.IH[OF that(1,2)] that(3) by (meson good_mono)
  have IH2: "good (binary_loop pu n m l) q Q"
    if "left q \<le> L" "left q < n" "\<And>x p'. left p' \<le> left q \<Longrightarrow> Q x p'" for m l q and Q
    using Suc.IH[OF that(1,2)] that(3) by (meson good_mono)
  have "0 < left p" if "op_precedence (token_type (p_current p)) \<noteq> 0"
    using that current_left[of p] op_precedence_eof by metis
  then show ?case
    using Suc.prems
    by (auto simp: parse_wp Let_def intro!: eatsD[OF assms] IH1 IH2 split: option.split)
qed simp

lemma good_binary:
  "eats L pu \<Longrightarrow> left p \<le> L \<Longrightarrow> left p < n \<Longrightarrow> (\<And>x p'. left p' < left p \<Longrightarrow> Q x p') \<Longrightarrow>
   good (parse_binary pu n m) p Q"
  using good_binary_loop by (metis (mono_tags, lifting) good_mono)

lemma good_pipe_ops [parse_rules]:
  "left p < n \<Longrightarrow> (\<And>x p'. left p' \<le> left p \<Longrightarrow> Q x p') \<Longrightarrow> good (pipe_ops n) p Q"
  by (induction n arbitrary: p Q) (auto simp: parse_wp intro!: good_match good_expect_ident)

lemma eats_expression:
  assumes "eats L pu" and "L < n"
  shows "eats L (parse_expression pu n)"
  using assms(2)
  by (auto simp: parse_expression_def parse_pipe_def parse_wp
      intro!: eatsI good_binary[OF assms(1)] good_pipe_ops)

lemma good_postfix:
  assumes "eats L pe"
  shows "left p \<le> L \<Longrightarrow> left p < n \<Longrightarrow> (\<And>x p'. left p' \<le> left p \<Longrightarrow> Q x p') \<Longrightarrow>
    good (postfix_loop pe n obj) p Q"
  by (induction n arbitrary: p Q obj)
    (auto simp: parse_wp intro!: good_match good_expect_ident good_expect good_comma_list
      eatsD[OF assms] eats_less[OF assms])

lemma eats_parenthesized: "eats L pe \<Longrightarrow> eats (Suc L) (parenthesized pe)"
  by (auto simp: parenthesized_def parse_wp intro!: eatsI good_expect elim!: eatsD)

lemma good_constructor:
  assumes "eats L pe" and "left p \<le> L" and "\<And>x p'. left p' \<le> left p \<Longrightarrow> Q x p'"
  shows "good (constructor_expr pe v) p Q"
  using assms(2,3)
  by (auto simp: constructor_expr_def parse_wp intro!: eatsD[OF eats_parenthesized[OF assms(1)]])

lemma eats_range_at:
  assumes "token_type (p_current p) = TokenType.IntLiteral"
  shows "good (parse_range v) p (\<lambda>_ p'. left p' < left p)"
  using current_left[of p] assms
  by (auto simp: parse_range_def parse_wp intro!: good_expect)

lemma eats_primary:
  assumes "eats L pe" and "eats L ps" and "Suc L < n"
  shows "eats (Suc L) (parse_primary P pe ps n)"
proof (rule eatsI)
  fix p assume L: "left p \<le> Suc L"
  note pb = eats_block[OF assms(2)]
  show "good (parse_primary P pe ps n) p (\<lambda>_ p'. left p' < left p)"
  proof (cases "token_type (p_current p) = Eof")
    case True
    then show ?thesis by (simp add: parse_primary_def parse_wp Let_def)
  next
    case False
    then have "0 < left p" by (rule current_left)
    with L assms(3) show ?thesis
      by (auto simp: parse_primary_def parse_wp Let_def
          intro!: good_if[OF assms(1) eats_less[OF pb]] eatsD[OF eats_match[OF assms(1,2)]]
            eats_range_at good_constructor[OF assms(1)] good_postfix[OF assms(1)] good_expect
            good_comma_list eatsD[OF assms(1)] eatsD[OF pb] eats_less[OF assms(1)])
  qed
qed

lemma eats_unary:
  assumes "eats L pu" and "eats (Suc L) primary"
  shows "eats (Suc L) (unary_step pu primary)"
proof (rule eatsI)
  fix p assume L: "left p \<le> Suc L"
  have "0 < left p" if "token_type (p_current p) \<in> {Minus, NotTok}"
    using that current_left[of p] by auto
  with L show "good (unary_step pu primary) p (\<lambda>_ p'. left p' < left p)"
    by (auto simp: unary_step_def parse_wp Let_def intro!: eatsD[OF assms(1)] eatsD[OF assms(2)])
qed

lemma eats_effect_or_cap: "eats L parse_effect_or_cap"
proof (rule eatsI)
  fix p
  have "0 < left p" if "tvalue (p_current p) \<in> set annotation_tokens"
    using that by (auto simp: p_current_def left_def eof_proxy_def annotation_tokens_def lit_def
        split: if_splits)
  moreover have "0 < left p" if "token_type (p_current p) \<in> {IdentTok, KeywordAsync, KeywordSpawn}"
    using that current_left[of p] by auto
  ultimately show "good parse_effect_or_cap p (\<lambda>_ p'. left p' < left p)"
    by (auto simp: parse_effect_or_cap_def parse_wp Let_def)
qed

lemma eats_gov: "eats L (gov_annotation an)"
  by (auto simp: gov_annotation_def parse_wp intro!: eatsI good_expect good_expect_ident)

lemma eats_time_value: "eats L time_value"
proof (rule eatsI)
  fix p
  show "good time_value p (\<lambda>_ p'. left p' < left p)"
    by (auto simp: time_value_def parse_wp intro!: good_expect good_expect_ident)
qed

lemma eats_time: "eats L (time_annotation tok an)"
  by (auto simp: time_annotation_def parse_wp intro!: eatsI eatsD[OF eats_time_value])

lemma eats_llm: "eats L (llm_annotation an)"
  by (auto simp: llm_annotation_def parse_wp intro!: eatsI good_expect)

lemma eats_one_annotation: "eats L (one_annotation an)"
  by (auto simp: one_annotation_def parse_wp intro!: eatsI eatsD[OF eats_effect_or_cap] eatsD[OF eats_gov]
      eatsD[OF eats_time])

lemma good_annotations:
  "left p < n \<Longrightarrow> (\<And>x p'. left p' \<le> left p \<Longrightarrow> Q x p') \<Longrightarrow> good (annotations_loop n an) p Q"
  by (induction n arbitrary: p Q an)
    (auto simp: parse_wp intro!: eatsD[OF eats_llm] eatsD[OF eats_one_annotation])

lemma eats_param: "eats L pe \<Longrightarrow> L < n \<Longrightarrow> eats L (parse_param pe n)"
  by (auto simp: parse_param_def parse_wp intro!: eatsI good_expect_ident good_opt good_type elim!: eatsD)

lemma eats_fn_params:
  assumes "eats L pe" and "L < n"
  shows "eats L (parse_fn_params pe n)"
  using assms(2)
  by (auto simp: parse_fn_params_def parse_wp
      intro!: eatsI good_expect good_comma_list eats_less[OF eats_param[OF assms]])

lemma eats_fn_rest:
  assumes "eats L pe" and "eats L pb" and "L < n"
  shows "eats L (parse_fn_rest pe pb n eff async)"
  using assms(3)
  by (auto simp: parse_fn_rest_def parse_channel_annotations_def parse_wp
      intro!: eatsI good_expect_ident eatsD[OF eats_fn_params[OF assms(1,3)]] good_opt good_type
        good_annotations eatsD[OF assms(2)])

lemma eats_fn:
  assumes "eats L pe" and "eats L pb" and "L < n"
  shows "eats L (parse_fn pe pb n)" and "eats L (parse_async_fn pe pb n)"
    and "eats L (parse_spawn pe pb n)"
  using assms
  by (auto simp: parse_fn_def parse_async_fn_def parse_spawn_def parse_wp
      intro!: eats_fn_rest eatsI good_expect eatsD[OF eats_fn_rest[OF assms]])

lemma eats_binding: "eats L pe \<Longrightarrow> L < n \<Longrightarrow> eats L (parse_binding pe n what)"
  by (auto simp: parse_binding_def parse_wp intro!: eatsI good_expect_ident good_opt good_type elim!: eatsD)

lemma eats_declarations:
  assumes "eats L pe" and "L < n"
  shows "eats L (parse_let pe n)" and "eats L (parse_mut_let pe n)" and "eats L (parse_const pe n)"
    and "eats L (parse_type_alias n)" and "eats L (parse_struct n)" and "eats L (parse_enum n)"
    and "eats L (parse_trait pe n)" and "eats L parse_use" and "eats L parse_export"
    and "eats L (parse_channel n)" and "eats L (parse_assert pe)"
  using assms(2)
  by (auto simp: parse_let_def parse_mut_let_def parse_const_def parse_type_alias_def
      parse_struct_def parse_enum_def parse_trait_def parse_use_def parse_export_def
      parse_channel_def parse_assert_def parse_wp split_beta
      intro!: eatsI good_match eatsD[OF eats_binding[OF assms]] good_expect good_expect_ident
        good_opt good_type good_until eatsD[OF eats_fn_params[OF assms]] eatsD[OF assms(1)])

lemma eats_impl:
  assumes "eats L pe" and "eats L pb" and "L < n"
  shows "eats L (parse_impl pe pb n)"
  using assms(3)
  by (auto simp: parse_impl_def parse_wp intro!: eatsI good_expect good_expect_ident good_opt
      good_type good_until eatsD[OF eats_fn_params[OF assms(1,3)]] eatsD[OF assms(2)])

lemma eats_try_catch:
  assumes "eats L pb"
  shows "eats L (parse_try_catch pb)"
  by (auto simp: parse_try_catch_def parse_wp intro!: eatsI good_expect good_match good_expect_ident
      eatsD[OF assms])

lemma keeps_return: "eats L pe \<Longrightarrow> keeps L (parse_return pe)"
  by (auto simp: parse_return_def parse_wp intro!: keepsI elim!: eatsD)

lemma good_behind:
  assumes "keeps L m" and "left p \<le> Suc L" and "token_type (p_current p) \<noteq> Eof"
    and "\<And>x p'. left p' < left p \<Longrightarrow> Q x p'"
  shows "good (behind m) p Q"
  using assms(2,4) current_left[OF assms(3)]
  by (auto simp: behind_def parse_wp intro!: keepsD[OF assms(1)])

lemma good_statement:
  assumes pe: "eats (Suc L) pe" and ps: "eats L ps" and n: "Suc L < n" and p: "left p \<le> Suc L"
  shows "good (statement_step P pe ps n) p (\<lambda>_ p'. left p' < left p)"
proof (cases "token_type (p_current p) = Eof")
  case True
  then show ?thesis
    by (auto simp: statement_step_def parse_wp Let_def intro!: eatsD[OF pe p] good_match)
next
  case False
  have pe': "eats L pe" using eats_less[OF pe] by simp
  have L: "L < n" using n by simp
  have pb: "eats L (parse_block ps n)" using eats_less[OF eats_block[OF ps L]] by simp
  have if': "eats L (parse_if pe (parse_block ps n) n)"
    by (rule eatsI, rule good_if[OF pe' pb]) (use L in auto)
  note handlers = eats_declarations[OF pe' L] eats_fn[OF pe' pb L] if' eats_while[OF pe' pb]
    eats_for[OF pe' pb] eats_match[OF pe' ps L] eats_impl[OF pe' pb L] eats_try_catch[OF pb]
  note b = good_behind[OF _ p False]
  show ?thesis
    by (auto simp: statement_step_def parse_wp Let_def keeps_return[OF pe']
        intro!: b eatsD[OF pe p] good_match intro: handlers[THEN eats_keeps])
qed

lemma eats_all:
  "(2 * L + 1 \<le> n \<longrightarrow> eats L (parse_unary P n)) \<and> (2 * L + 2 \<le> n \<longrightarrow> eats L (parse_statement P n))"
proof (induction n arbitrary: L)
  case (Suc n)
  have unary: "eats K (parse_unary P n)" if "2 * K + 1 \<le> n" for K
    using Suc.IH that by blast
  have expr: "eats K (parse_expression (parse_unary P n) n)" if "2 * K + 1 \<le> n" for K
    using unary[OF that] that by (intro eats_expression) auto
  have stmt: "eats K (parse_statement P n)" if "2 * K + 2 \<le> n" for K
    using Suc.IH that by blast
  show ?case
  proof (intro conjI impI)
    assume L: "2 * L + 1 \<le> Suc n"
    show "eats L (parse_unary P (Suc n))"
    proof (cases L)
      case 0
      show ?thesis
      proof (rule eatsI)
        fix p assume "left p \<le> L"
        with 0 have "token_type (p_current p) = Eof" using current_left[of p] by auto
        then show "good (parse_unary P (Suc n)) p (\<lambda>_ p'. left p' < left p)"
          by (simp add: unary_step_def parse_primary_def parse_wp Let_def)
      qed
    next
      case (Suc K)
      with L have "2 * K + 1 \<le> n" "2 * K + 2 \<le> n" "Suc K < n" by auto
      then show ?thesis
        unfolding Suc parse_unary.simps by (intro eats_unary eats_primary unary expr stmt)
    qed
  next
    assume L: "2 * L + 2 \<le> Suc n"
    then have e: "eats L (parse_expression (parse_unary P n) n)" by (intro expr) simp
    show "eats L (parse_statement P (Suc n))"
    proof (cases L)
      case 0
      show ?thesis
      proof (rule eatsI)
        fix p assume p: "left p \<le> L"
        with 0 have "token_type (p_current p) = Eof" using current_left[of p] by auto
        then show "good (parse_statement P (Suc n)) p (\<lambda>_ p'. left p' < left p)"
          by (auto simp: statement_step_def parse_wp Let_def intro!: eatsD[OF e p] good_match)
      qed
    next
      case (Suc K)
      have "eats K (parse_statement P n)" using L Suc by (intro stmt) simp
      from good_statement[OF e[unfolded Suc] this] L Suc show ?thesis
        by (auto intro!: eatsI)
    qed
  qed
qed simp

lemma good_loop:
  "2 * left p + 2 \<le> k \<Longrightarrow> left p < n \<Longrightarrow> good (parse_loop P k n prog) p (\<lambda>_ p'. left p' \<le> left p)"
proof (induction n arbitrary: p prog)
  case (Suc n)
  have "eats (left p) (parse_statement P k)" using eats_all Suc.prems(1) by blast
  then show ?case
    using Suc.prems by (auto simp: parse_wp intro!: good_mono[OF Suc.IH] elim!: eatsD)
qed simp

lemma good_program:
  assumes "2 * length ts + 2 \<le> n"
  shows "good (parse_program P n) (parser_new ts) (\<lambda>_ _. True)"
proof -
  have "left (parser_new ts) = length ts" by (simp add: left_def parser_new_def)
  with assms good_loop[of "parser_new ts" n n P program_new] show ?thesis
    by (auto simp: parse_program_def elim!: good_mono)
qed

text \<open>
  C5: The parser always answers. On every list of tokens, fuel of twice its length plus two is
  enough to return a program or a syntax error.
\<close>

theorem parse_returns:
  assumes "2 * length ts + 2 \<le> n"
  shows "parse_tokens P n ts \<noteq> None"
  using good_program[OF assms, of P]
  by (auto simp: good_def parse_tokens_def split: option.splits sum.splits)

theorem parse_returns_witness:
  "parse_tokens int_plat 8 [new_token KeywordLet (lit ''let'') 1 1, new_token IdentTok (lit ''x'') 1 5,
     new_token Eof [] 1 6] \<noteq> None"
  by (rule parse_returns) simp

end
