(* ===== verification/ParserRoundtrip.thy ===== *)
theory ParserRoundtrip
  imports ParserCorrect
begin

section \<open>Parsing printed expressions\<close>

text \<open>
  A printer that puts parentheses only where the precedences of the operators need them, and the
  proof that parsing its tokens gives the expression back. A step \<open>reads\<close> with a postcondition if
  whenever it returns, it returns no error and the postcondition holds; that it returns is
  \<open>parse_returns\<close>. Only the types and the values of the tokens matter here, not their positions.
\<close>

subsection \<open>The tokens ahead\<close>

type_synonym tok = "TokenType \<times> ustr"

definition tok_core :: "Token \<Rightarrow> tok" where
  "tok_core t = (token_type t, tvalue t)"

definition ahead :: "parser \<Rightarrow> tok list" where
  "ahead p = map tok_core (drop (ppos p) (ptokens p))"

definition next_type :: "tok list \<Rightarrow> TokenType" where
  "next_type ts = (case ts of [] \<Rightarrow> Eof | (tt, _) # _ \<Rightarrow> tt)"

definition next_value :: "tok list \<Rightarrow> ustr" where
  "next_value ts = (case ts of [] \<Rightarrow> [] | (_, v) # _ \<Rightarrow> v)"

definition step_on :: "parser \<Rightarrow> parser" where
  "step_on p = p\<lparr>ppos := ppos p + 1\<rparr>"

lemma next_simps [simp]:
  "next_type [] = Eof" "next_type ((tt, v) # r) = tt" "next_value ((tt, v) # r) = v"
  by (simp_all add: next_type_def next_value_def)

lemma ahead_step [simp]: "ahead (step_on p) = tl (ahead p)"
  by (simp add: ahead_def step_on_def drop_Suc map_tl drop_tl)

lemma current_ahead:
  "token_type (p_current p) = next_type (ahead p)" "tvalue (p_current p) = next_value (ahead p)"
proof -
  have "drop (ppos p) (ptokens p) = (if ppos p < length (ptokens p)
      then ptokens p ! ppos p # drop (Suc (ppos p)) (ptokens p) else [])"
    by (simp add: Cons_nth_drop_Suc)
  then show "token_type (p_current p) = next_type (ahead p)"
    and "tvalue (p_current p) = next_value (ahead p)"
    by (simp_all add: p_current_def ahead_def eof_proxy_def next_type_def next_value_def tok_core_def)
qed

lemma peek_ahead: "token_type (p_peek p 1) = next_type (tl (ahead p))"
proof -
  have "token_type (p_peek p 1) = token_type (p_current (step_on p))"
    by (simp add: p_peek_def p_current_def step_on_def)
  then show ?thesis by (simp add: current_ahead)
qed

subsection \<open>Partial correctness\<close>

definition reads :: "'a parse \<Rightarrow> parser \<Rightarrow> ('a \<Rightarrow> parser \<Rightarrow> bool) \<Rightarrow> bool" where
  "reads m p Q =
     (case m p of None \<Rightarrow> True | Some (Inl _) \<Rightarrow> False | Some (Inr (x, p')) \<Rightarrow> Q x p')"

named_theorems reads_wp \<open>the precondition of a step for reading, as equations\<close>

lemma reads_simps [reads_wp]:
  "reads (p_ret x) p Q = Q x p"
  "reads p_none p Q"
  "reads (p_get f) p Q = reads (f p) p Q"
  "reads (if b then m else m') p Q = (if b then reads m p Q else reads m' p Q)"
  by (simp_all add: reads_def p_ret_def p_none_def p_get_def)

lemma reads_bind [reads_wp]: "reads (p_bind m f) p Q = reads m p (\<lambda>x p'. reads (f x) p' Q)"
  by (auto simp: reads_def p_bind_def split: option.split sum.split prod.split)

lemma reads_mono: "reads m p Q \<Longrightarrow> (\<And>x p'. Q x p' \<Longrightarrow> Q' x p') \<Longrightarrow> reads m p Q'"
  by (auto simp: reads_def split: option.splits sum.splits prod.splits)

lemma reads_advance [reads_wp]: "reads p_advance p Q = Q (p_current p) (step_on p)"
  by (simp add: reads_def p_advance_def step_on_def)

lemma p_check_ahead: "p_check p tt = (next_type (ahead p) = tt)"
  by (simp add: p_check_def current_ahead)

lemma reads_match [reads_wp]:
  "reads (match_token tt) p Q =
     (if next_type (ahead p) = tt then Q True (step_on p) else Q False p)"
  by (simp add: match_token_def reads_wp p_check_ahead)

lemma reads_fail [reads_wp]: "\<not> reads (p_fail t msg) p Q"
  by (simp add: reads_def p_fail_def)

lemma reads_expect [reads_wp]:
  "reads (expect tt name) p Q = (next_type (ahead p) = tt \<and> Q (p_current p) (step_on p))"
  by (simp add: expect_def reads_wp p_check_ahead)

lemma reads_expect_ident [reads_wp]:
  "reads (expect_ident name) p Q =
     (next_type (ahead p) = IdentTok \<and> Q (next_value (ahead p)) (step_on p))"
  by (simp add: expect_ident_def reads_wp current_ahead)

lemma reads_opt [reads_wp]:
  "reads (p_opt tt m) p Q =
     (if next_type (ahead p) = tt then reads m (step_on p) (\<lambda>x. Q (Some x)) else Q None p)"
  by (simp add: p_opt_def reads_wp)

subsection \<open>The printer\<close>

definition op_tokens :: "TokenType list" where
  "op_tokens = [Plus, Minus, Star, Slash, Modulo, Equal, DoubleEqual, NotEqual, Less, Greater,
     LessEqual, GreaterEqual, And, Or]"

definition op_tok :: "ustr \<Rightarrow> TokenType option" where
  "op_tok op = find (\<lambda>tt. op_text tt = Some op) op_tokens"

definition op_level :: "ustr \<Rightarrow> int" where
  "op_level op = (case op_tok op of Some tt \<Rightarrow> op_precedence tt | None \<Rightarrow> 0)"

fun level :: "'f Expr \<Rightarrow> int" where
  "level (BinaryOp _ op _) = op_level op"
| "level (Pipe _ _) = 0"
| "level _ = 7"

definition wrap :: "bool \<Rightarrow> tok list \<Rightarrow> tok list" where
  "wrap b ts = (if b then (LeftParen, lit ''('') # ts @ [(RightParen, lit '')'')] else ts)"

fun commas :: "tok list list \<Rightarrow> tok list" where
  "commas [] = []"
| "commas [ts] = ts"
| "commas (ts # us # tss) = ts @ (Comma, lit '','') # commas (us # tss)"

definition int_tok :: "i64 \<Rightarrow> tok" where
  "int_tok v = (TokenType.IntLiteral, show_int (sint v))"

definition paren_block :: "tok list \<Rightarrow> tok list" where
  "paren_block ts = [(LeftBrace, lit ''{''), (LeftParen, lit ''('')] @ ts @
     [(RightParen, lit '')''), (RightBrace, lit ''}'')]"

fun raw :: "'f plat \<Rightarrow> 'f Expr \<Rightarrow> tok list"
and raw_all :: "'f plat \<Rightarrow> 'f Expr list \<Rightarrow> tok list list" where
  "raw P (Expr.IntLiteral v) = [int_tok v]"
| "raw P (Expr.FloatLiteral x) = [(TokenType.FloatLiteral, f_show P x)]"
| "raw P (Expr.StringLiteral s) = [(TokenType.StringLiteral, s)]"
| "raw P (Expr.BoolLiteral b) =
     [(TokenType.BoolLiteral, if b then lit ''true'' else lit ''false'')]"
| "raw P (Expr.CharLiteral c) = [(TokenType.CharLiteral, [c])]"
| "raw P (Ident x) = [(IdentTok, x)]"
| "raw P (BinaryOp l op r) =
     wrap (level l < op_level op) (raw P l) @ (the (op_tok op), op) #
     wrap (level r < op_level op + 1) (raw P r)"
| "raw P (UnaryOp op e) =
     (if op = lit ''-'' then Minus else NotTok, op) # wrap (level e < 7) (raw P e)"
| "raw P (Call f args) =
     raw P f @ (LeftParen, lit ''('') # commas (raw_all P args) @ [(RightParen, lit '')'')]"
| "raw P (MemberAccess e m) = raw P e @ [(Dot, lit ''.''), (IdentTok, m)]"
| "raw P (Index a i) =
     raw P a @ (LeftBracket, lit ''['') # raw P i @ [(RightBracket, lit '']'')]"
| "raw P (Pipe e ops) =
     wrap (level e < 1) (raw P e) @ concat (map (\<lambda>(n, _). [(PipeTok, lit ''|>''), (IdentTok, n)]) ops)"
| "raw P (Range a b _) = raw P a @ (DoubleDot, lit ''..'') # raw P b"
| "raw P (Array es) =
     (LeftBracket, lit ''['') # commas (raw_all P es) @ [(RightBracket, lit '']'')]"
| "raw P (OptionValue b v) =
     (case v of
        Some e \<Rightarrow> (IdentTok, lit ''Some'') # wrap True (raw P e)
      | None \<Rightarrow> [(IdentTok, lit ''None'')])"
| "raw P (ResultValue b v w) =
     (case (v, w) of
        (Some e, _) \<Rightarrow> (IdentTok, lit ''Ok'') # wrap True (raw P e)
      | (_, Some e) \<Rightarrow> (IdentTok, lit ''Err'') # wrap True (raw P e)
      | _ \<Rightarrow> [])"
| "raw P (IfExpr c t e) =
     (KeywordIf, lit ''if'') # raw P c @ paren_block (raw P t) @ (KeywordElse, lit ''else'') #
     paren_block (raw P e)"
| "raw P _ = []"
| "raw_all P [] = []"
| "raw_all P (e # es) = raw P e # raw_all P es"

text \<open>
  The expressions the printer is for: all the parser can build but those with statements inside. An
  integer literal is not negative, the text of a float reads back, the four constructor names are no
  variables, and what a call, a member access or an index is applied to starts with a variable.
\<close>

fun chain :: "'f Expr \<Rightarrow> bool" where
  "chain (Ident _) = True"
| "chain (Call _ _) = True"
| "chain (MemberAccess _ _) = True"
| "chain (Index _ _) = True"
| "chain _ = False"

fun printable :: "'f plat \<Rightarrow> 'f Expr \<Rightarrow> bool"
and printable_all :: "'f plat \<Rightarrow> 'f Expr list \<Rightarrow> bool" where
  "printable P (Expr.IntLiteral v) = (0 \<le> sint v)"
| "printable P (Expr.FloatLiteral x) = (f_parse P (f_show P x) = Some x)"
| "printable P (Expr.StringLiteral s) = True"
| "printable P (Expr.BoolLiteral b) = True"
| "printable P (Expr.CharLiteral c) = True"
| "printable P (Ident x) = (x \<notin> {lit ''Some'', lit ''None'', lit ''Ok'', lit ''Err''})"
| "printable P (BinaryOp l op r) = (op_tok op \<noteq> None \<and> printable P l \<and> printable P r)"
| "printable P (UnaryOp op e) = (op \<in> {lit ''-'', lit ''!''} \<and> printable P e)"
| "printable P (Call f args) = (chain f \<and> printable P f \<and> printable_all P args)"
| "printable P (MemberAccess e m) = (chain e \<and> printable P e)"
| "printable P (Index a i) = (chain a \<and> printable P a \<and> printable P i)"
| "printable P (Pipe e ops) =
     (ops \<noteq> [] \<and> list_all (\<lambda>(n, a). a = Ident n) ops \<and> printable P e)"
| "printable P (Range a b incl) =
     (case (a, b) of
        (Expr.IntLiteral v, Expr.IntLiteral w) \<Rightarrow> 0 \<le> sint v \<and> 0 \<le> sint w \<and> \<not> incl
      | _ \<Rightarrow> False)"
| "printable P (Array es) = printable_all P es"
| "printable P (OptionValue b v) = (case v of Some e \<Rightarrow> b \<and> printable P e | None \<Rightarrow> \<not> b)"
| "printable P (ResultValue b v w) =
     (case (v, w) of
        (Some e, None) \<Rightarrow> b \<and> printable P e
      | (None, Some e) \<Rightarrow> \<not> b \<and> printable P e
      | _ \<Rightarrow> False)"
| "printable P (IfExpr c t e) = (printable P c \<and> printable P t \<and> printable P e)"
| "printable P _ = False"
| "printable_all P [] = True"
| "printable_all P (e # es) = (printable P e \<and> printable_all P es)"

subsection \<open>Reading expressions\<close>

definition follow :: "tok list \<Rightarrow> bool" where
  "follow r = (next_type r \<notin> {Dot, LeftParen, LeftBracket, DoubleDot})"

definition stop :: "tok list \<Rightarrow> bool" where
  "stop r = (follow r \<and> op_precedence (next_type r) = 0 \<and> next_type r \<noteq> PipeTok)"

definition reads_unary :: "'f plat \<Rightarrow> 'f Expr \<Rightarrow> bool" where
  "reads_unary P e = (\<forall>k p r Q. ahead p = wrap (level e < 7) (raw P e) @ r \<longrightarrow> follow r \<longrightarrow>
     (\<forall>p'. ahead p' = r \<longrightarrow> Q e p') \<longrightarrow> reads (parse_unary P k) p Q)"

definition reads_binary :: "'f plat \<Rightarrow> 'f Expr \<Rightarrow> bool" where
  "reads_binary P e = (\<forall>k n p r Q m m'. 1 \<le> m \<longrightarrow> m \<le> 7 \<longrightarrow> m' \<le> m \<longrightarrow>
     ahead p = wrap (level e < m) (raw P e) @ r \<longrightarrow> follow r \<longrightarrow>
     op_precedence (next_type r) \<le> m \<longrightarrow>
     (\<forall>j p'. ahead p' = r \<longrightarrow> reads (binary_loop (parse_unary P k) j m' e) p' Q) \<longrightarrow>
     reads (parse_binary (parse_unary P k) n m') p Q)"

definition reads_raw :: "'f plat \<Rightarrow> 'f Expr \<Rightarrow> bool" where
  "reads_raw P e = (\<forall>k n p r Q m m'. 1 \<le> m \<longrightarrow> m \<le> level e \<longrightarrow> m' \<le> m \<longrightarrow>
     ahead p = raw P e @ r \<longrightarrow> follow r \<longrightarrow> op_precedence (next_type r) \<le> m \<longrightarrow>
     (\<forall>j p'. ahead p' = r \<longrightarrow> reads (binary_loop (parse_unary P k) j m' e) p' Q) \<longrightarrow>
     reads (parse_binary (parse_unary P k) n m') p Q)"

definition reads_expression :: "'f plat \<Rightarrow> 'f Expr \<Rightarrow> bool" where
  "reads_expression P e = (\<forall>k n p r Q. ahead p = raw P e @ r \<longrightarrow> stop r \<longrightarrow>
     (\<forall>p'. ahead p' = r \<longrightarrow> Q e p') \<longrightarrow> reads (parse_expression (parse_unary P k) n) p Q)"

lemma reads_unaryD:
  "reads_unary P e \<Longrightarrow> ahead p = wrap (level e < 7) (raw P e) @ r \<Longrightarrow> follow r \<Longrightarrow>
   (\<And>p'. ahead p' = r \<Longrightarrow> Q e p') \<Longrightarrow> reads (parse_unary P k) p Q"
  unfolding reads_unary_def by blast

lemma reads_binaryD:
  "reads_binary P e \<Longrightarrow> 1 \<le> m \<Longrightarrow> m \<le> 7 \<Longrightarrow> m' \<le> m \<Longrightarrow>
   ahead p = wrap (level e < m) (raw P e) @ r \<Longrightarrow> follow r \<Longrightarrow> op_precedence (next_type r) \<le> m \<Longrightarrow>
   (\<And>j p'. ahead p' = r \<Longrightarrow> reads (binary_loop (parse_unary P k) j m' e) p' Q) \<Longrightarrow>
   reads (parse_binary (parse_unary P k) n m') p Q"
  unfolding reads_binary_def by blast

lemma reads_rawD:
  "reads_raw P e \<Longrightarrow> 1 \<le> m \<Longrightarrow> m \<le> level e \<Longrightarrow> m' \<le> m \<Longrightarrow>
   ahead p = raw P e @ r \<Longrightarrow> follow r \<Longrightarrow> op_precedence (next_type r) \<le> m \<Longrightarrow>
   (\<And>j p'. ahead p' = r \<Longrightarrow> reads (binary_loop (parse_unary P k) j m' e) p' Q) \<Longrightarrow>
   reads (parse_binary (parse_unary P k) n m') p Q"
  unfolding reads_raw_def by blast

lemma reads_expressionD:
  "reads_expression P e \<Longrightarrow> ahead p = raw P e @ r \<Longrightarrow> stop r \<Longrightarrow>
   (\<And>p'. ahead p' = r \<Longrightarrow> Q e p') \<Longrightarrow> reads (parse_expression (parse_unary P k) n) p Q"
  unfolding reads_expression_def by blast

lemma stop_follow: "stop r \<Longrightarrow> follow r"
  by (simp add: stop_def)

lemma stop_simps [simp]:
  "stop ((RightParen, v) # r)" "stop ((RightBracket, v) # r)" "stop ((RightBrace, v) # r)"
  "stop ((Comma, v) # r)" "stop ((LeftBrace, v) # r)" "stop ((Semicolon, v) # r)"
  by (simp_all add: stop_def follow_def op_precedence_def)

lemma op_levels: "op_precedence tt \<in> {0..6}"
  by (simp add: op_precedence_def)

text \<open>At the end of an expression the loops over operators and pipes stop.\<close>

lemma binary_loop_stops:
  assumes "op_precedence (next_type (ahead p)) < m \<or> op_precedence (next_type (ahead p)) = 0"
    and "Q l p"
  shows "reads (binary_loop pu j m l) p Q"
  using assms by (cases j) (auto simp: reads_wp Let_def current_ahead)

lemma pipe_ops_stop: "next_type (ahead p) \<noteq> PipeTok \<Longrightarrow> Q [] p \<Longrightarrow> reads (pipe_ops n) p Q"
  by (cases n) (auto simp: reads_wp)

lemma expression_of_raw:
  assumes e: "reads_raw P e" and "1 \<le> level e"
  shows "reads_expression P e"
  unfolding reads_expression_def
proof (intro allI impI)
  fix k n p r and Q :: "'a Expr \<Rightarrow> parser \<Rightarrow> bool"
  assume p: "ahead p = raw P e @ r" and r: "stop r" and Q: "\<forall>p'. ahead p' = r \<longrightarrow> Q e p'"
  show "reads (parse_expression (parse_unary P k) n) p Q"
    unfolding parse_expression_def parse_pipe_def reads_wp
  proof (rule reads_rawD[OF e, of 1])
    fix j p' assume "ahead p' = r"
    then show "reads (binary_loop (parse_unary P k) j 0 e) p' (\<lambda>x p'.
        reads (pipe_ops n) p' (\<lambda>xa. Q (if xa = [] then x else Pipe x xa)))"
      using r Q by (intro binary_loop_stops pipe_ops_stop) (auto simp: stop_def)
  qed (use p r assms(2) in \<open>auto simp: stop_def\<close>)
qed

lemma binary_of_unary:
  assumes u: "reads_unary P e" and p: "ahead p = wrap (level e < 7) (raw P e) @ r" "follow r"
    and loop: "\<And>j p'. ahead p' = r \<Longrightarrow> reads (binary_loop (parse_unary P k) j m' e) p' Q"
  shows "reads (parse_binary (parse_unary P k) n m') p Q"
  using p loop by (cases n) (auto simp: reads_wp intro!: reads_unaryD[OF u])

lemma raw_of_unary:
  assumes "reads_unary P e" and "level e = 7"
  shows "reads_raw P e"
  using assms(2) unfolding reads_raw_def by (auto simp: wrap_def intro!: binary_of_unary[OF assms(1)])

lemma level_cases: "level e = 7 \<or> level e \<le> 6"
  using op_levels by (cases e) (auto simp: op_level_def split: option.split)

lemma binary_of_raw:
  assumes "reads_raw P e" and "reads_unary P e"
  shows "reads_binary P e"
  unfolding reads_binary_def
proof (intro allI impI)
  fix k n p r m m' and Q :: "'a Expr \<Rightarrow> parser \<Rightarrow> bool"
  assume h: "1 \<le> m" "m \<le> 7" "m' \<le> m" "ahead p = wrap (level e < m) (raw P e) @ r" "follow r"
    "op_precedence (next_type r) \<le> m"
    "\<forall>j p'. ahead p' = r \<longrightarrow> reads (binary_loop (parse_unary P k) j m' e) p' Q"
  show "reads (parse_binary (parse_unary P k) n m') p Q"
  proof (cases "m \<le> level e")
    case True
    with h show ?thesis by (intro reads_rawD[OF assms(1), of m]) (auto simp: wrap_def)
  next
    case False
    then have "level e < 7" using h(2) by simp
    with False h show ?thesis by (intro binary_of_unary[OF assms(2)]) (auto simp: wrap_def)
  qed
qed

lemma parse_unary_primary:
  assumes "next_type (ahead p) \<notin> {Minus, NotTok}"
    and "\<And>k. reads (parse_primary P (parse_expression (parse_unary P k) k) (parse_statement P k) k) p Q"
  shows "reads (parse_unary P k) p Q"
  using assms by (cases k) (simp_all add: reads_wp unary_step_def Let_def current_ahead)

text \<open>A parenthesized expression, whatever follows it.\<close>

lemma unary_parenthesized:
  assumes "reads_expression P e" and "ahead p = (LeftParen, lp) # raw P e @ (RightParen, rp) # r"
    and "\<And>p'. ahead p' = r \<Longrightarrow> Q e p'"
  shows "reads (parse_unary P k) p Q"
  using assms(2,3)
  by (intro parse_unary_primary)
    (auto simp: parse_primary_def reads_wp Let_def current_ahead literal_tokens_def
      intro!: reads_expressionD[OF assms(1)])

lemma unary_of_expression:
  assumes "reads_expression P e" and "level e < 7"
  shows "reads_unary P e"
  unfolding reads_unary_def
proof (intro allI impI)
  fix k p r and Q :: "'a Expr \<Rightarrow> parser \<Rightarrow> bool"
  assume "ahead p = wrap (level e < 7) (raw P e) @ r" and Q: "\<forall>p'. ahead p' = r \<longrightarrow> Q e p'"
  then show "reads (parse_unary P k) p Q"
    using assms(2) by (intro unary_parenthesized[OF assms(1)]) (auto simp: wrap_def)
qed

definition reads_all :: "'f plat \<Rightarrow> 'f Expr \<Rightarrow> bool" where
  "reads_all P e = (reads_unary P e \<and> reads_binary P e \<and> reads_expression P e)"

lemma reads_allD:
  "reads_all P e \<Longrightarrow> reads_unary P e" "reads_all P e \<Longrightarrow> reads_binary P e"
  "reads_all P e \<Longrightarrow> reads_expression P e"
  by (simp_all add: reads_all_def)

lemma all_of_unary: "reads_unary P e \<Longrightarrow> level e = 7 \<Longrightarrow> reads_all P e"
  unfolding reads_all_def using raw_of_unary binary_of_raw expression_of_raw by fastforce

subsubsection \<open>Operators and pipes\<close>

lemma op_tok_props:
  assumes "op_tok op = Some tt"
  shows "op_text tt = Some op" and "1 \<le> op_precedence tt" and "op_precedence tt \<le> 6"
    and "follow ((tt, v) # r)"
proof -
  have tt: "op_text tt = Some op" "tt \<in> set op_tokens"
    using assms by (auto simp: op_tok_def find_Some_iff)
  then show "op_text tt = Some op" "1 \<le> op_precedence tt" "op_precedence tt \<le> 6"
    "follow ((tt, v) # r)"
    by (auto simp: op_tokens_def op_precedence_def follow_def)
qed

lemma all_BinaryOp:
  assumes l: "reads_all P l" and r: "reads_all P r" and op: "op_tok op = Some tt"
  shows "reads_all P (BinaryOp l op r)"
proof -
  let ?e = "BinaryOp l op r" and ?q = "op_precedence tt"
  note tt = op_tok_props[OF op]
  have level: "level ?e = ?q" "op_level op = ?q" by (simp_all add: op_level_def op)
  have raw: "reads_raw P ?e"
    unfolding reads_raw_def
  proof (intro allI impI)
    fix k n p rest m m' and Q :: "'a Expr \<Rightarrow> parser \<Rightarrow> bool"
    assume h: "1 \<le> m" "m \<le> level ?e" "m' \<le> m" "ahead p = raw P ?e @ rest" "follow rest"
      "op_precedence (next_type rest) \<le> m"
      and loop: "\<forall>j p'. ahead p' = rest \<longrightarrow> reads (binary_loop (parse_unary P k) j m' ?e) p' Q"
    let ?right = "wrap (level r < ?q + 1) (raw P r) @ rest"
    show "reads (parse_binary (parse_unary P k) n m') p Q"
    proof (rule reads_binaryD[OF reads_allD(2)[OF l], of ?q])
      show "ahead p = wrap (level l < ?q) (raw P l) @ (tt, op) # ?right"
        using h(4) by (simp add: level op)
    next
      fix j p' assume p': "ahead p' = (tt, op) # ?right"
      show "reads (binary_loop (parse_unary P k) j m' l) p' Q"
      proof (cases j)
        case (Suc i)
        have "reads (parse_binary (parse_unary P k) i (?q + 1)) (step_on p')
            (\<lambda>x p'. reads (binary_loop (parse_unary P k) i m' (BinaryOp l op x)) p' Q)"
        proof (rule reads_binaryD[OF reads_allD(2)[OF r], of "?q + 1", OF _ _ _ _ h(5)])
          fix j' p'' assume "ahead p'' = rest"
          with h(2,6) loop level show "reads (binary_loop (parse_unary P k) j' (?q + 1) r) p''
              (\<lambda>x p'. reads (binary_loop (parse_unary P k) i m' (BinaryOp l op x)) p' Q)"
            by - (rule binary_loop_stops, auto)
        qed (use h(2,6) p' tt level in auto)
        with Suc p' h tt level show ?thesis
          by (simp add: reads_wp Let_def current_ahead)
      qed (simp add: reads_wp)
    qed (use h tt level in auto)
  qed
  have "reads_expression P ?e" using expression_of_raw[OF raw] tt level by simp
  moreover from this have "reads_unary P ?e" using unary_of_expression tt level by fastforce
  ultimately show ?thesis using binary_of_raw[OF raw] by (simp add: reads_all_def)
qed

lemma reads_pipe_ops:
  assumes "list_all (\<lambda>(n, a). a = Ident n) ops"
    and "ahead p = concat (map (\<lambda>(n, _). [(PipeTok, lit ''|>''), (IdentTok, n)]) ops) @ r"
    and "next_type r \<noteq> PipeTok" and "\<And>p'. ahead p' = r \<Longrightarrow> Q ops p'"
  shows "reads (pipe_ops n) p Q"
  using assms
proof (induction ops arbitrary: n p Q)
  case Nil
  then show ?case by (cases n) (auto simp: reads_wp)
next
  case (Cons x ops)
  then show ?case
    by (cases n; cases x) (auto simp: reads_wp intro!: Cons.IH)
qed

lemma all_Pipe:
  assumes e: "reads_all P e" and ops: "ops \<noteq> []" "list_all (\<lambda>(n, a). a = Ident n) ops"
  shows "reads_all P (Pipe e ops)"
proof -
  have expr: "reads_expression P (Pipe e ops)"
    unfolding reads_expression_def
  proof (intro allI impI)
    fix k n p r and Q :: "'a Expr \<Rightarrow> parser \<Rightarrow> bool"
    assume p: "ahead p = raw P (Pipe e ops) @ r" and r: "stop r"
      and Q: "\<forall>p'. ahead p' = r \<longrightarrow> Q (Pipe e ops) p'"
    let ?r = "concat (map (\<lambda>(n, _). [(PipeTok, lit ''|>''), (IdentTok, n)]) ops) @ r"
    have first: "next_type ?r = PipeTok" using ops(1) by (cases ops) auto
    show "reads (parse_expression (parse_unary P k) n) p Q"
      unfolding parse_expression_def parse_pipe_def reads_wp
    proof (rule reads_binaryD[OF reads_allD(2)[OF e], of 1])
      show "ahead p = wrap (level e < 1) (raw P e) @ ?r" using p by simp
      show "follow ?r" using first by (simp add: follow_def)
      show "op_precedence (next_type ?r) \<le> 1" using first by (simp add: op_precedence_def)
    next
      fix j p' assume p': "ahead p' = ?r"
      have "op_precedence (next_type (ahead p')) = 0"
        unfolding p' first by (simp add: op_precedence_def)
      moreover have "reads (pipe_ops n) p' (\<lambda>xa. Q (if xa = [] then e else Pipe e xa))"
        using r Q ops(1) by (intro reads_pipe_ops[OF ops(2) p']) (auto simp: stop_def)
      ultimately show "reads (binary_loop (parse_unary P k) j 0 e) p' (\<lambda>x p'.
          reads (pipe_ops n) p' (\<lambda>xa. Q (if xa = [] then x else Pipe x xa)))"
        by (intro binary_loop_stops) auto
    qed auto
  qed
  moreover from this have "reads_unary P (Pipe e ops)" using unary_of_expression by fastforce
  moreover have "reads_raw P (Pipe e ops)" by (simp add: reads_raw_def)
  ultimately show ?thesis using binary_of_raw by (simp add: reads_all_def)
qed

subsubsection \<open>Literals\<close>

lemma parse_show_int:
  assumes "0 \<le> i" and "i < 2 ^ 63"
  shows "parse_i64 (show_int i) = Some i"
proof -
  obtain c r where s: "show_nat (nat i) = c # r"
    using show_nat_digits[of "nat i"] by (cases "show_nat (nat i)") auto
  then have "is_ascii_digit c" using show_nat_digits[of "nat i"] by simp
  then have "c \<noteq> 45" "c \<noteq> 43" by (auto simp: is_ascii_digit_def)
  moreover have "list_all is_ascii_digit (c # r)" "digits_value (c # r) = nat i"
    using show_nat_digits[of "nat i"] digits_value_show[of "nat i"] s by simp_all
  ultimately show ?thesis
    using assms s by (simp add: parse_i64_def show_int_def)
qed

lemma int_of_text_show: "0 \<le> sint v \<Longrightarrow> int_of_text (show_int (sint v)) = v"
  using sint_less[of v] by (simp add: int_of_text_def parse_show_int)

lemma all_literal:
  assumes "tt \<in> literal_tokens" and "raw P e = [(tt, v)]" and "level e = 7"
    and "\<And>t. tok_core t = (tt, v) \<Longrightarrow> literal_expr P t = e"
  shows "reads_all P e"
proof (rule all_of_unary[OF _ assms(3)])
  show "reads_unary P e"
    unfolding reads_unary_def
  proof (intro allI impI)
    fix k p r and Q :: "'a Expr \<Rightarrow> parser \<Rightarrow> bool"
    assume p: "ahead p = wrap (level e < 7) (raw P e) @ r" and "follow r"
      and Q: "\<forall>p'. ahead p' = r \<longrightarrow> Q e p'"
    then have a: "ahead p = (tt, v) # r" "next_type r \<noteq> DoubleDot"
      using assms(2,3) by (auto simp: wrap_def follow_def)
    then have "literal_expr P (p_current p) = e"
      by (intro assms(4)) (simp add: tok_core_def current_ahead)
    with a Q assms(1) show "reads (parse_unary P k) p Q"
      by (intro parse_unary_primary)
        (auto simp: literal_tokens_def parse_primary_def reads_wp Let_def current_ahead peek_ahead[simplified])
  qed
qed

lemma all_literals:
  "0 \<le> sint v \<Longrightarrow> reads_all P (Expr.IntLiteral v)"
  "f_parse P (f_show P x) = Some x \<Longrightarrow> reads_all P (Expr.FloatLiteral x)"
  "reads_all P (Expr.StringLiteral s)" "reads_all P (Expr.BoolLiteral b)"
  "reads_all P (Expr.CharLiteral c)"
  by (rule all_literal, auto simp: literal_tokens_def int_tok_def tok_core_def literal_expr_def
      int_of_text_show lit_def)+

lemma all_Range:
  assumes "0 \<le> sint a" and "0 \<le> sint b"
  shows "reads_all P (Range (Expr.IntLiteral a) (Expr.IntLiteral b) False)"
proof (rule all_of_unary)
  show "reads_unary P (Range (Expr.IntLiteral a) (Expr.IntLiteral b) False)"
    unfolding reads_unary_def
  proof (intro allI impI)
    fix k p r and Q :: "'a Expr \<Rightarrow> parser \<Rightarrow> bool"
    assume "ahead p = wrap (level (Range (Expr.IntLiteral a) (Expr.IntLiteral b :: 'a Expr) False) < 7)
        (raw P (Range (Expr.IntLiteral a) (Expr.IntLiteral b) False)) @ r"
      and "\<forall>p'. ahead p' = r \<longrightarrow> Q (Range (Expr.IntLiteral a) (Expr.IntLiteral b) False) p'"
    then show "reads (parse_unary P k) p Q"
      by (intro parse_unary_primary)
        (auto simp: wrap_def int_tok_def parse_primary_def parse_range_def reads_wp Let_def
          current_ahead peek_ahead[simplified] int_of_text_show assms)
  qed
qed simp

subsubsection \<open>Prefixes, parentheses and blocks\<close>

lemma all_UnaryOp:
  assumes e: "reads_all P e" and op: "op \<in> {lit ''-'', lit ''!''}"
  shows "reads_all P (UnaryOp op e)"
proof (rule all_of_unary)
  have neq: "lit ''!'' \<noteq> lit ''-''" by (simp add: lit_def)
  show "reads_unary P (UnaryOp op e)"
    unfolding reads_unary_def
  proof (intro allI impI)
    fix k p r and Q :: "'a Expr \<Rightarrow> parser \<Rightarrow> bool"
    assume p: "ahead p = wrap (level (UnaryOp op e) < 7) (raw P (UnaryOp op e)) @ r" and r: "follow r"
      and Q: "\<forall>p'. ahead p' = r \<longrightarrow> Q (UnaryOp op e) p'"
    show "reads (parse_unary P k) p Q"
    proof (cases k)
      case (Suc i)
      with p r Q op neq show ?thesis
        by (auto simp: wrap_def[of False] unary_step_def reads_wp Let_def current_ahead
            intro!: reads_unaryD[OF reads_allD(1)[OF e]])
    qed (simp add: reads_wp)
  qed
qed simp

text \<open>Constructors, arrays and conditionals start with a token of their own.\<close>

lemma all_by_primary:
  assumes "level e = 7" and "\<And>r. next_type (raw P e @ r) \<notin> {Minus, NotTok}"
    and "\<And>k p r Q. ahead p = raw P e @ r \<Longrightarrow> follow r \<Longrightarrow> (\<And>p'. ahead p' = r \<Longrightarrow> Q e p') \<Longrightarrow>
      reads (parse_primary P (parse_expression (parse_unary P k) k) (parse_statement P k) k) p Q"
  shows "reads_all P e"
proof (rule all_of_unary[OF _ assms(1)])
  show "reads_unary P e"
    unfolding reads_unary_def
  proof (intro allI impI)
    fix k p r and Q :: "'a Expr \<Rightarrow> parser \<Rightarrow> bool"
    assume "ahead p = wrap (level e < 7) (raw P e) @ r" and r: "follow r"
      and Q: "\<forall>p'. ahead p' = r \<longrightarrow> Q e p'"
    then have p: "ahead p = raw P e @ r" using assms(1) by (simp add: wrap_def)
    show "reads (parse_unary P k) p Q"
      by (rule parse_unary_primary) (use p assms(2) Q in \<open>auto intro: assms(3)[OF p r]\<close>)
  qed
qed

lemma reads_parenthesized:
  assumes "reads_expression P e" and "ahead p = wrap True (raw P e) @ r"
    and "\<And>p'. ahead p' = r \<Longrightarrow> Q e p'"
  shows "reads (parenthesized (parse_expression (parse_unary P k) n)) p Q"
  using assms(2,3)
  by (auto simp: parenthesized_def wrap_def reads_wp intro!: reads_expressionD[OF assms(1)])

lemma all_constructors:
  "reads_all P (OptionValue False None)"
  "reads_expression P e \<Longrightarrow> reads_all P (OptionValue True (Some e))"
  "reads_expression P e \<Longrightarrow> reads_all P (ResultValue True (Some e) None)"
  "reads_expression P e \<Longrightarrow> reads_all P (ResultValue False None (Some e))"
  by (rule all_by_primary; auto simp: parse_primary_def constructor_expr_def reads_wp Let_def
      current_ahead literal_tokens_def lit_def intro!: reads_parenthesized)+

lemma commas_Cons:
  "commas (ts # tss) = ts @ concat (map (\<lambda>us. (Comma, lit '','') # us) tss)"
  by (induction tss arbitrary: ts) simp_all

text \<open>A step that reads one item of a list, printed by \<open>f\<close>.\<close>

definition reads_item :: "'a parse \<Rightarrow> ('a \<Rightarrow> tok list) \<Rightarrow> TokenType \<Rightarrow> 'a \<Rightarrow> bool" where
  "reads_item m f close x = (\<forall>p r Q. ahead p = f x @ r \<longrightarrow> next_type r \<in> {Comma, close} \<longrightarrow>
     (\<forall>p'. ahead p' = r \<longrightarrow> Q x p') \<longrightarrow> reads m p Q)"

lemma reads_itemD:
  "reads_item m f close x \<Longrightarrow> ahead p = f x @ r \<Longrightarrow> next_type r \<in> {Comma, close} \<Longrightarrow>
   (\<And>p'. ahead p' = r \<Longrightarrow> Q x p') \<Longrightarrow> reads m p Q"
  unfolding reads_item_def by blast

lemma reads_comma_rest:
  assumes "\<forall>x\<in>set xs. reads_item m f close x"
    and "ahead p = concat (map (\<lambda>x. (Comma, lit '','') # f x) xs) @ (close, v) # r"
    and "close \<noteq> Comma" and "\<And>p'. ahead p' = (close, v) # r \<Longrightarrow> Q xs p'"
  shows "reads (comma_rest n m) p Q"
  using assms
proof (induction xs arbitrary: n p Q)
  case Nil
  then show ?case by (cases n) (auto simp: reads_wp)
next
  case (Cons x xs)
  let ?r = "concat (map (\<lambda>x. (Comma, lit '','') # f x) xs) @ (close, v) # r"
  have r: "next_type ?r \<in> {Comma, close}" by (cases xs) auto
  show ?case
  proof (cases n)
    case (Suc i)
    from Cons.prems have x: "reads_item m f close x" by simp
    have "reads m (step_on p) (\<lambda>x p'. reads (comma_rest i m) p' (\<lambda>xs. Q (x # xs)))"
      by (rule reads_itemD[OF x _ r]) (use Cons.prems in \<open>auto intro!: Cons.IH\<close>)
    with Suc Cons.prems show ?thesis by (simp add: reads_wp)
  qed (simp add: reads_wp)
qed

lemma reads_comma_list:
  assumes xs: "\<forall>x\<in>set xs. reads_item m f close x \<and> (\<forall>r. next_type (f x @ r) \<noteq> close)"
    and p: "ahead p = commas (map f xs) @ (close, v) # r"
    and close: "close \<noteq> Comma" and Q: "\<And>p'. ahead p' = (close, v) # r \<Longrightarrow> Q xs p'"
  shows "reads (comma_list n close m) p Q"
proof (cases xs)
  case Nil
  with p Q show ?thesis by (simp add: comma_list_def reads_wp p_check_ahead)
next
  case (Cons x xs')
  let ?r = "concat (map (\<lambda>x. (Comma, lit '','') # f x) xs') @ (close, v) # r"
  have p': "ahead p = f x @ ?r" using p Cons by (simp add: commas_Cons comp_def)
  have r: "next_type ?r \<in> {Comma, close}" by (cases xs') auto
  have x: "reads_item m f close x" and first: "next_type (ahead p) \<noteq> close"
    using xs Cons p' by auto
  have "reads m p (\<lambda>x p'. reads (comma_rest n m) p' (\<lambda>xs. Q (x # xs)))"
    by (rule reads_itemD[OF x p' r])
      (use xs Cons Q close in \<open>auto intro!: reads_comma_rest[where xs = xs' and v = v and r = r and f = f]\<close>)
  with first show ?thesis by (simp add: comma_list_def reads_wp p_check_ahead)
qed

lemma raw_all_map: "raw_all P es = map (raw P) es"
  by (induction es) simp_all

lemma stop_next: "next_type r \<in> {Comma, RightParen, RightBracket} \<Longrightarrow> stop r"
  by (auto simp: stop_def follow_def op_precedence_def)

lemma reads_items:
  assumes "\<forall>e\<in>set es. reads_expression P e \<and> (\<forall>r. next_type (raw P e @ r) \<noteq> close)"
    and "close \<in> {RightParen, RightBracket}"
  shows "\<forall>e\<in>set es. reads_item (parse_expression (parse_unary P k) i) (raw P) close e \<and>
    (\<forall>r. next_type (raw P e @ r) \<noteq> close)"
  using assms unfolding reads_item_def by (auto intro!: reads_expressionD stop_next)

lemma all_Array:
  assumes "\<forall>e\<in>set es. reads_expression P e \<and> (\<forall>r. next_type (raw P e @ r) \<noteq> RightBracket)"
  shows "reads_all P (Array es)"
  by (rule all_by_primary)
    (auto simp: parse_primary_def reads_wp Let_def current_ahead literal_tokens_def raw_all_map
      intro!: reads_comma_list[OF reads_items[OF assms]])

text \<open>The block that holds one parenthesized expression.\<close>

lemma reads_paren_block:
  assumes e: "reads_expression P e" and p: "ahead p = paren_block (raw P e) @ r"
    and Q: "\<And>p'. ahead p' = r \<Longrightarrow> Q [SExpr e] p'"
  shows "reads (parse_block (parse_statement P k) n) p Q"
proof -
  let ?r = "(RightBrace, lit ''}'') # r"
  have expr: "reads (parse_expression (parse_unary P i) i') q Q'"
    if q: "ahead q = (LeftParen, lit ''('') # raw P e @ (RightParen, lit '')'') # ?r"
      and Q': "\<And>q'. ahead q' = ?r \<Longrightarrow> Q' e q'" for i i' q Q'
  proof -
    show ?thesis
      using Q'
      by (cases i') (auto simp: parse_expression_def parse_pipe_def reads_wp op_precedence_def
          intro!: unary_parenthesized[OF e q] binary_loop_stops pipe_ops_stop)
  qed
  have stmt: "reads (parse_statement P k) q Q'"
    if q: "ahead q = (LeftParen, lit ''('') # raw P e @ (RightParen, lit '')'') # ?r"
      and Q': "\<And>q'. ahead q' = ?r \<Longrightarrow> Q' (Some (SExpr e)) q'" for q Q'
    using Q' by (cases k)
      (auto simp: statement_step_def reads_wp Let_def current_ahead q intro!: expr[OF q])
  have "reads (until_brace n (parse_statement P k)) (step_on p) (\<lambda>ts p'. ts = [Some (SExpr e)] \<and> ahead p' = ?r)"
  proof (cases n)
    case (Suc m)
    have "reads (until_brace m (parse_statement P k)) p' (\<lambda>ts p'. ts = [] \<and> ahead p' = ?r)"
      if "ahead p' = ?r" for p'
      using that by (cases m) (auto simp: reads_wp p_check_ahead)
    with Suc p show ?thesis
      by (auto simp: reads_wp p_check_ahead paren_block_def intro!: stmt elim: reads_mono)
  qed (simp add: reads_wp)
  with p Q show ?thesis
    by (auto simp: parse_block_def reads_wp paren_block_def map_filter_simps elim!: reads_mono)
qed

definition expr_starts :: "TokenType set" where
  "expr_starts = literal_tokens \<union> {IdentTok, Minus, NotTok, LeftParen, LeftBracket, KeywordIf}"

lemma raw_first:
  fixes e :: "'f Expr" and es :: "'f Expr list"
  shows "printable P e \<Longrightarrow> next_type (raw P e) \<in> expr_starts \<and> (\<forall>r. next_type (raw P e @ r) = next_type (raw P e))"
    and "printable_all P es \<Longrightarrow> \<forall>e\<in>set es. next_type (raw P e) \<in> expr_starts \<and>
      (\<forall>r. next_type (raw P e @ r) = next_type (raw P e))"
  by (induction P e and P es rule: printable_printable_all.induct)
    (auto simp: wrap_def int_tok_def expr_starts_def literal_tokens_def
      split: Expr.splits option.splits prod.splits)

lemma raw_starts:
  assumes "printable_all P es"
  shows "\<forall>e\<in>set es. next_type (raw P e @ r) \<notin> {RightParen, RightBracket}"
  using raw_first(2)[OF assms] by (auto simp: expr_starts_def literal_tokens_def)

lemma all_IfExpr:
  assumes c: "reads_expression P c" and t: "reads_expression P t" and e: "reads_expression P e"
  shows "reads_all P (IfExpr c t e)"
proof (rule all_by_primary)
  fix k p r and Q :: "'a Expr \<Rightarrow> parser \<Rightarrow> bool"
  assume p: "ahead p = raw P (IfExpr c t e) @ r" and Q: "\<And>p'. ahead p' = r \<Longrightarrow> Q (IfExpr c t e) p'"
  let ?pe = "parse_expression (parse_unary P k) k" and ?pb = "parse_block (parse_statement P k) k"
  let ?else = "(KeywordElse, lit ''else'') # paren_block (raw P e) @ r"
  have "reads (parse_if ?pe ?pb k) (step_on p) (\<lambda>s. Q (stmt_to_expr s))"
  proof (cases k)
    case (Suc m)
    have block: "next_type (paren_block ts @ r') = LeftBrace" "stop (paren_block ts @ r')" for ts r'
      by (simp_all add: paren_block_def)
    have e_block: "reads ?pb p' (\<lambda>el. Q (stmt_to_expr (SIf c [SExpr t] el)))"
      if "ahead p' = paren_block (raw P e) @ r" for p'
      by (rule reads_paren_block[OF e that])
        (simp add: Q stmt_to_expr_def stmts_to_expr_def stmt_to_expr_single_def)
    have else_part: "reads (match_token KeywordElse) p' (\<lambda>el p'.
        reads (if el then p_get (\<lambda>p. if p_check p KeywordIf
            then p_bind p_advance (\<lambda>_. p_bind (parse_if ?pe ?pb m) (\<lambda>s. p_ret [s])) else ?pb)
          else p_ret []) p' (\<lambda>x. Q (stmt_to_expr (SIf c [SExpr t] x))))"
      if "ahead p' = ?else" for p'
      using that e_block by (simp add: reads_wp p_check_ahead block)
    have t_block: "reads ?pb p' (\<lambda>ts p'. reads (match_token KeywordElse) p' (\<lambda>el p'.
        reads (if el then p_get (\<lambda>p. if p_check p KeywordIf
            then p_bind p_advance (\<lambda>_. p_bind (parse_if ?pe ?pb m) (\<lambda>s. p_ret [s])) else ?pb)
          else p_ret []) p' (\<lambda>x. Q (stmt_to_expr (SIf c ts x)))))"
      if "ahead p' = paren_block (raw P t) @ ?else" for p'
      by (rule reads_paren_block[OF t that]) (rule else_part)
    have "reads (parse_if ?pe ?pb (Suc m)) (step_on p) (\<lambda>s. Q (stmt_to_expr s))"
      unfolding parse_if.simps reads_bind reads_simps(1)
      by (rule reads_expressionD[OF c _ _ , where r = "paren_block (raw P t) @ ?else"], use p in simp,
        simp add: block, rule t_block)
    then show ?thesis unfolding Suc .
  qed (simp add: reads_wp)
  with p show "reads (parse_primary P ?pe (parse_statement P k) k) p Q"
    by (simp add: parse_primary_def reads_wp Let_def current_ahead)
qed simp_all

subsubsection \<open>Calls, member accesses and indexes\<close>

definition reads_chain :: "'f plat \<Rightarrow> 'f Expr \<Rightarrow> bool" where
  "reads_chain P c = (\<forall>k p r Q. ahead p = raw P c @ r \<longrightarrow>
     (\<forall>i m j p'. ahead p' = r \<longrightarrow>
        reads (postfix_loop (parse_expression (parse_unary P i) m) j c) p' Q) \<longrightarrow>
     reads (parse_unary P k) p Q)"

lemma reads_chainD:
  "reads_chain P c \<Longrightarrow> ahead p = raw P c @ r \<Longrightarrow>
   (\<And>i m j p'. ahead p' = r \<Longrightarrow>
      reads (postfix_loop (parse_expression (parse_unary P i) m) j c) p' Q) \<Longrightarrow>
   reads (parse_unary P k) p Q"
  unfolding reads_chain_def by blast

lemma chainI:
  assumes "\<And>k p r Q. ahead p = raw P c @ r \<Longrightarrow>
     (\<And>i m j p'. ahead p' = r \<Longrightarrow>
        reads (postfix_loop (parse_expression (parse_unary P i) m) j c) p' Q) \<Longrightarrow>
     reads (parse_unary P k) p Q"
  shows "reads_chain P c"
  unfolding reads_chain_def using assms by blast

lemma postfix_stops:
  "follow (ahead p) \<Longrightarrow> Q obj p \<Longrightarrow> reads (postfix_loop pe n obj) p Q"
  by (cases n) (auto simp: reads_wp follow_def)

lemma all_of_chain:
  assumes c: "reads_chain P c" and "level c = 7"
  shows "reads_all P c"
proof (rule all_of_unary[OF _ assms(2)])
  show "reads_unary P c"
    unfolding reads_unary_def
    using assms(2) by (auto simp: wrap_def intro!: reads_chainD[OF c] postfix_stops)
qed

lemma chain_Ident:
  assumes "x \<notin> {lit ''Some'', lit ''None'', lit ''Ok'', lit ''Err''}"
  shows "reads_chain P (Ident x)"
proof (rule chainI)
  fix k p r and Q :: "'a Expr \<Rightarrow> parser \<Rightarrow> bool"
  assume "ahead p = raw P (Ident x) @ r" and loop: "\<And>i m j p'. ahead p' = r \<Longrightarrow>
      reads (postfix_loop (parse_expression (parse_unary P i) m) j (Ident x)) p' Q"
  then show "reads (parse_unary P k) p Q"
    using assms by (intro parse_unary_primary)
      (auto simp: parse_primary_def reads_wp Let_def current_ahead literal_tokens_def)
qed

lemma chain_Member:
  assumes "reads_chain P c"
  shows "reads_chain P (MemberAccess c x)"
proof (rule chainI)
  fix k p r and Q :: "'a Expr \<Rightarrow> parser \<Rightarrow> bool"
  assume p: "ahead p = raw P (MemberAccess c x) @ r" and loop: "\<And>i m j p'. ahead p' = r \<Longrightarrow>
      reads (postfix_loop (parse_expression (parse_unary P i) m) j (MemberAccess c x)) p' Q"
  show "reads (parse_unary P k) p Q"
  proof (rule reads_chainD[OF assms])
    show "ahead p = raw P c @ (Dot, lit ''.'') # (IdentTok, x) # r" using p by simp
  next
    fix i m j p' assume "ahead p' = (Dot, lit ''.'') # (IdentTok, x) # r"
    then show "reads (postfix_loop (parse_expression (parse_unary P i) m) j c) p' Q"
      by (cases j) (auto simp: reads_wp intro!: loop)
  qed
qed

lemma chain_Call:
  assumes c: "reads_chain P c" and es: "printable_all P es" "\<forall>e\<in>set es. reads_expression P e"
  shows "reads_chain P (Call c es)"
proof (rule chainI)
  fix k p r and Q :: "'a Expr \<Rightarrow> parser \<Rightarrow> bool"
  assume p: "ahead p = raw P (Call c es) @ r" and loop: "\<And>i m j p'. ahead p' = r \<Longrightarrow>
      reads (postfix_loop (parse_expression (parse_unary P i) m) j (Call c es)) p' Q"
  let ?r = "(LeftParen, lit ''('') # commas (raw_all P es) @ (RightParen, lit '')'') # r"
  have args: "\<forall>e\<in>set es. reads_expression P e \<and> (\<forall>r. next_type (raw P e @ r) \<noteq> RightParen)"
    using raw_starts[OF es(1)] es(2) by blast
  show "reads (parse_unary P k) p Q"
  proof (rule reads_chainD[OF c])
    show "ahead p = raw P c @ ?r" using p by simp
  next
    fix i m j p' assume "ahead p' = ?r"
    then show "reads (postfix_loop (parse_expression (parse_unary P i) m) j c) p' Q"
      by (cases j) (auto simp: reads_wp raw_all_map
          intro!: loop reads_comma_list[OF reads_items[OF args]])
  qed
qed

lemma chain_Index:
  assumes c: "reads_chain P c" and e: "reads_expression P e"
  shows "reads_chain P (Index c e)"
proof (rule chainI)
  fix k p r and Q :: "'a Expr \<Rightarrow> parser \<Rightarrow> bool"
  assume p: "ahead p = raw P (Index c e) @ r" and loop: "\<And>i m j p'. ahead p' = r \<Longrightarrow>
      reads (postfix_loop (parse_expression (parse_unary P i) m) j (Index c e)) p' Q"
  show "reads (parse_unary P k) p Q"
  proof (rule reads_chainD[OF c])
    show "ahead p = raw P c @ (LeftBracket, lit ''['') # raw P e @ (RightBracket, lit '']'') # r"
      using p by simp
  next
    fix i m j p' assume "ahead p' = (LeftBracket, lit ''['') # raw P e @ (RightBracket, lit '']'') # r"
    then show "reads (postfix_loop (parse_expression (parse_unary P i) m) j c) p' Q"
      by (cases j) (auto simp: reads_wp intro!: loop reads_expressionD[OF e])
  qed
qed

subsubsection \<open>Every printable expression\<close>

lemma printable_reads:
  fixes e :: "'f Expr" and es :: "'f Expr list"
  shows "printable P e \<Longrightarrow> reads_all P e \<and> (chain e \<longrightarrow> reads_chain P e)"
    and "printable_all P es \<Longrightarrow> \<forall>e\<in>set es. reads_all P e"
proof (induction P e and P es rule: printable_printable_all.induct)
  case (6 P x)
  then have "reads_chain P (Ident x)" by (intro chain_Ident) simp
  then show ?case using all_of_chain by fastforce
next
  case (9 P f args)
  then have "reads_chain P (Call f args)" by (intro chain_Call) (auto dest: reads_allD)
  then show ?case using all_of_chain by fastforce
next
  case (10 P e m)
  then have "reads_chain P (MemberAccess e m)" by (intro chain_Member) simp
  then show ?case using all_of_chain by fastforce
next
  case (11 P a i)
  then have "reads_chain P (Index a i)" by (intro chain_Index) (auto dest: reads_allD)
  then show ?case using all_of_chain by fastforce
next
  case (7 P l op r)
  then show ?case by (auto intro: all_BinaryOp)
next
  case (14 P es)
  then show ?case
    using raw_starts[of P es] by (auto intro!: all_Array dest: reads_allD)
qed (auto intro!: all_literals all_UnaryOp all_Pipe all_Range all_constructors all_IfExpr
    dest: reads_allD split: Expr.splits option.splits)

end
