(* ===== verification/ParserProgram.thy ===== *)
theory ParserProgram
  imports ParserRoundtrip
begin

section \<open>Parsing printed programs\<close>

text \<open>
  The printer and the round trip for statements and programs. A statement may be followed only by
  what cannot continue it: an expression statement is printed with a semicolon and must not start
  with a token that continues the expression before it.
\<close>

subsection \<open>The printer\<close>

definition ident_tok :: "ustr \<Rightarrow> tok" where
  "ident_tok x = (IdentTok, x)"

fun type_toks :: "TypeRef \<Rightarrow> tok list" where
  "type_toks (TypeRef b None _) = [ident_tok (base_name b)]"
| "type_toks (TypeRef b (Some a) None) =
     [ident_tok (base_name b), (Less, lit ''<'')] @ type_toks a @ [(Greater, lit ''>'')]"
| "type_toks (TypeRef b (Some a) (Some e)) =
     [ident_tok (base_name b), (Less, lit ''<'')] @ type_toks a @ [(Comma, lit '','')] @
     type_toks e @ [(Greater, lit ''>'')]"

fun printable_type :: "TypeRef \<Rightarrow> bool" where
  "printable_type (TypeRef b None e) = (e = None)"
| "printable_type (TypeRef b (Some a) e) =
     (printable_type a \<and> (case e of None \<Rightarrow> True | Some t \<Rightarrow> printable_type t))"

definition opt_toks :: "tok \<Rightarrow> ('a \<Rightarrow> tok list) \<Rightarrow> 'a option \<Rightarrow> tok list" where
  "opt_toks t f v = (case v of None \<Rightarrow> [] | Some x \<Rightarrow> t # f x)"

definition param_toks :: "'f plat \<Rightarrow> 'f FnParam \<Rightarrow> tok list" where
  "param_toks P q = ident_tok (param_name q) # opt_toks (Colon, lit '':'') type_toks (param_type q) @
     opt_toks (Equal, lit ''='') (raw P) (param_default q)"

definition printable_param :: "'f plat \<Rightarrow> 'f FnParam \<Rightarrow> bool" where
  "printable_param P q = (pred_option printable_type (param_type q) \<and>
     pred_option (printable P) (param_default q))"

definition params_toks :: "'f plat \<Rightarrow> 'f FnParam list \<Rightarrow> tok list" where
  "params_toks P qs =
     (LeftParen, lit ''('') # commas (map (param_toks P) qs) @ [(RightParen, lit '')'')]"

definition braces :: "tok list \<Rightarrow> tok list" where
  "braces ts = (LeftBrace, lit ''{'') # ts @ [(RightBrace, lit ''}'')]"

fun stmt_toks :: "'f plat \<Rightarrow> 'f Stmt \<Rightarrow> tok list"
and stmts_toks :: "'f plat \<Rightarrow> 'f Stmt list \<Rightarrow> tok list" where
  "stmt_toks P (SLet x v t mutable) =
     (KeywordLet, lit ''let'') # (if mutable then [(KeywordMut, lit ''mut'')] else []) @
     [ident_tok x] @ opt_toks (Colon, lit '':'') type_toks t @ opt_toks (Equal, lit ''='') (raw P) v"
| "stmt_toks P (SConst x v t) =
     [(KeywordConst, lit ''const''), ident_tok x] @ opt_toks (Colon, lit '':'') type_toks t @
     opt_toks (Equal, lit ''='') (raw P) v"
| "stmt_toks P (SFn name qs ret_type an body async pub) =
     [(KeywordFn, lit ''fn''), ident_tok name] @ params_toks P qs @
     opt_toks (Arrow, lit ''->'') type_toks ret_type @ braces (stmts_toks P body)"
| "stmt_toks P (SReturn v) =
     (KeywordReturn, lit ''return'') # (case v of Some e \<Rightarrow> raw P e | None \<Rightarrow> [])"
| "stmt_toks P (SIf c t e) =
     (KeywordIf, lit ''if'') # raw P c @ braces (stmts_toks P t) @
     (if e = [] then [] else (KeywordElse, lit ''else'') # braces (stmts_toks P e))"
| "stmt_toks P (SWhile c body) =
     (KeywordWhile, lit ''while'') # raw P c @ braces (stmts_toks P body)"
| "stmt_toks P (SFor x it body) =
     [(KeywordFor, lit ''for''), ident_tok x, (KeywordIn, lit ''in'')] @ raw P it @
     braces (stmts_toks P body)"
| "stmt_toks P (SStructDef name _ flds) =
     [(KeywordStruct, lit ''struct''), ident_tok name] @ braces (concat (map (\<lambda>f.
       [ident_tok (field_name f), (Colon, lit '':'')] @ type_toks (field_type f) @
       [(Comma, lit '','')]) flds))"
| "stmt_toks P (SEnumDef name variants) =
     [(KeywordEnum, lit ''enum''), ident_tok name] @ braces (concat (map (\<lambda>v.
       [ident_tok (variant_name v), (Comma, lit '','')]) variants))"
| "stmt_toks P (SSpawn f) = (KeywordSpawn, lit ''spawn'') # stmt_toks P f"
| "stmt_toks P (SChannel a b t _) =
     [(KeywordChannel, lit ''channel''), ident_tok a, ident_tok b, (Colon, lit '':'')] @ type_toks t"
| "stmt_toks P (STryCatch body param handler) =
     (KeywordTry, lit ''try'') # braces (stmts_toks P body) @ [(KeywordCatch, lit ''catch'')] @
     (case param of None \<Rightarrow> [] | Some x \<Rightarrow>
        [(LeftParen, lit ''(''), ident_tok x, (RightParen, lit '')'')]) @
     braces (stmts_toks P handler)"
| "stmt_toks P (SAssert c m) =
     (KeywordAssert, lit ''assert'') # raw P c @ opt_toks (Comma, lit '','') (raw P) m"
| "stmt_toks P (SUse x) = [(KeywordUse, lit ''use''), ident_tok x]"
| "stmt_toks P (SExport x) = [(KeywordExport, lit ''export''), ident_tok x]"
| "stmt_toks P (STypeAlias x t) =
     [(KeywordType, lit ''type''), ident_tok x] @ opt_toks (Equal, lit ''='') type_toks t"
| "stmt_toks P (SExpr e) = raw P e @ [(Semicolon, lit '';'')]"
| "stmt_toks P _ = []"
| "stmts_toks P [] = []"
| "stmts_toks P (t # ts) = stmt_toks P t @ stmts_toks P ts"

fun is_fn :: "'f Stmt \<Rightarrow> bool" where
  "is_fn (SFn _ _ _ _ _ _ _) = True"
| "is_fn _ = False"

fun printable_stmt :: "'f plat \<Rightarrow> 'f Stmt \<Rightarrow> bool"
and printable_stmts :: "'f plat \<Rightarrow> 'f Stmt list \<Rightarrow> bool" where
  "printable_stmt P (SLet _ v t _) = (pred_option (printable P) v \<and> pred_option printable_type t)"
| "printable_stmt P (SConst _ v t) = (pred_option (printable P) v \<and> pred_option printable_type t)"
| "printable_stmt P (SFn _ qs ret_type an body async pub) =
     (list_all (printable_param P) qs \<and> pred_option printable_type ret_type \<and> an = no_annot \<and>
      printable_stmts P body \<and> \<not> async \<and> \<not> pub)"
| "printable_stmt P (SReturn v) = (case v of Some e \<Rightarrow> printable P e | None \<Rightarrow> False)"
| "printable_stmt P (SIf c t e) = (printable P c \<and> printable_stmts P t \<and> printable_stmts P e)"
| "printable_stmt P (SWhile c body) = (printable P c \<and> printable_stmts P body)"
| "printable_stmt P (SFor _ it body) = (printable P it \<and> printable_stmts P body)"
| "printable_stmt P (SStructDef _ ds flds) =
     (ds = [] \<and> list_all (\<lambda>f. printable_type (field_type f)) flds)"
| "printable_stmt P (SEnumDef _ variants) = list_all (\<lambda>v. variant_fields v = []) variants"
| "printable_stmt P (SSpawn f) = (is_fn f \<and> printable_stmt P f)"
| "printable_stmt P (SChannel _ _ t n) = (printable_type t \<and> n = 0)"
| "printable_stmt P (STryCatch body _ handler) = (printable_stmts P body \<and> printable_stmts P handler)"
| "printable_stmt P (SAssert c m) = (printable P c \<and> pred_option (printable P) m)"
| "printable_stmt P (SUse _) = True"
| "printable_stmt P (SExport _) = True"
| "printable_stmt P (STypeAlias _ t) = pred_option printable_type t"
| "printable_stmt P (SExpr e) =
     (printable P e \<and> next_type (raw P e) \<notin> {Minus, LeftParen, LeftBracket, KeywordIf})"
| "printable_stmt P _ = False"
| "printable_stmts P [] = True"
| "printable_stmts P (t # ts) = (printable_stmt P t \<and> printable_stmts P ts)"

subsection \<open>Reading types and declarations\<close>

lemma base_of_base_name [simp]: "base_of_name (base_name b) = b"
  by (cases b) (simp_all add: base_of_name_def lit_def)

lemma reads_type:
  "printable_type t \<Longrightarrow> ahead p = type_toks t @ r \<Longrightarrow> next_type r \<noteq> Less \<Longrightarrow>
   (\<And>p'. ahead p' = r \<Longrightarrow> Q t p') \<Longrightarrow> reads (parse_type n) p Q"
proof (induction t arbitrary: n p r Q rule: type_toks.induct)
  case (1 b e)
  then show ?case by (cases n) (auto simp: reads_wp ident_tok_def type_new_def)
next
  case (2 b a)
  then show ?case
    by (cases n) (auto simp: reads_wp ident_tok_def intro!: "2.IH"[where r = "(Greater, lit ''>'') # r"])
next
  case (3 b a e)
  then show ?case
    by (cases n) (auto simp: reads_wp ident_tok_def
        intro!: "3.IH"(1)[where r = "(Comma, lit '','') # type_toks e @ (Greater, lit ''>'') # r"]
          "3.IH"(2)[where r = "(Greater, lit ''>'') # r"])
qed

lemma reads_opt_toks:
  assumes "ahead p = opt_toks (tt, v) f x @ r" and "next_type r \<noteq> tt"
    and "\<And>y p'. x = Some y \<Longrightarrow> ahead p' = f y @ r \<Longrightarrow> reads m p' (\<lambda>z. Q (Some z))"
    and "x = None \<Longrightarrow> Q None p"
  shows "reads (p_opt tt m) p Q"
  using assms by (cases x) (auto simp: opt_toks_def reads_wp)

lemma printable_expression: "printable P e \<Longrightarrow> reads_expression P e"
  using printable_reads(1) reads_allD(3) by blast

lemmas reads_expr = reads_expressionD[OF printable_expression]

lemma type_toks_next [simp]: "next_type (type_toks t @ r) = IdentTok"
  by (cases t rule: type_toks.cases) (simp_all add: ident_tok_def)

subsection \<open>Reading statements\<close>

definition calm :: "tok list \<Rightarrow> bool" where
  "calm r = (stop r \<and> next_type r \<notin> {Comma, Colon, KeywordElse, Arrow, At})"

lemma calmD:
  assumes "calm r"
  shows "stop r" "next_type r \<noteq> Comma" "next_type r \<noteq> Colon" "next_type r \<noteq> KeywordElse"
    "next_type r \<noteq> Arrow" "next_type r \<noteq> Less" "next_type r \<noteq> Equal" "next_type r \<noteq> At"
  using assms by (auto simp: calm_def stop_def op_precedence_def)

lemma calm_next: "next_type r = next_type r' \<Longrightarrow> calm r = calm r'"
  by (simp add: calm_def stop_def follow_def)

lemma calm_simps [simp]:
  "calm []" "calm ((RightBrace, v) # r)" "calm ((Eof, v) # r)"
  by (simp_all add: calm_def stop_def follow_def op_precedence_def)

lemma calm_stmt:
  assumes "printable_stmt P t"
  shows "next_type (stmt_toks P t @ r) \<notin> {RightBrace, Eof} \<and> calm (stmt_toks P t @ r)"
proof (cases "\<exists>e. t = SExpr e")
  case True
  then obtain e where t: "t = SExpr e" by blast
  have e: "next_type (raw P e) \<in> expr_starts" "next_type (raw P e @ r') = next_type (raw P e)" for r'
    using raw_first(1)[of P e] assms t by auto
  moreover have "next_type (raw P e) \<notin> {Minus, LeftParen, LeftBracket, KeywordIf}"
    using assms t by simp
  ultimately show ?thesis
    by (auto simp: t calm_def stop_def follow_def op_precedence_def expr_starts_def literal_tokens_def)
next
  case False
  with assms show ?thesis
    by (cases t) (auto simp: calm_def stop_def follow_def op_precedence_def)
qed

lemma param_starts: "next_type (param_toks P q @ r) = IdentTok"
  by (simp add: param_toks_def ident_tok_def)

lemma opt_toks_next:
  "next_type (opt_toks (tt, v) f x @ r) = (if x = None then next_type r else tt)"
  by (cases x) (simp_all add: opt_toks_def)

lemma opt_toks_stop: "stop r \<Longrightarrow> tt \<in> {Comma, Colon, Arrow} \<Longrightarrow> stop (opt_toks (tt, v) f x @ r)"
  by (cases x) (auto simp: opt_toks_def stop_def follow_def op_precedence_def)

lemma reads_expr_opt:
  assumes "pred_option (printable P) v" and "ahead p = opt_toks (tt, w) (raw P) v @ r" and "stop r"
    and "next_type r \<noteq> tt" and "\<And>p'. ahead p' = r \<Longrightarrow> Q v p'"
  shows "reads (p_opt tt (parse_expression (parse_unary P k) n)) p Q"
  using assms by (intro reads_opt_toks[OF assms(2,4)]) (auto simp: opt_toks_def intro!: reads_expr)

lemma reads_type_opt:
  assumes "pred_option printable_type v" and "ahead p = opt_toks (tt, w) type_toks v @ r"
    and "next_type r \<noteq> tt" and "next_type r \<noteq> Less" and "\<And>p'. ahead p' = r \<Longrightarrow> Q v p'"
  shows "reads (p_opt tt (parse_type n)) p Q"
  using assms by (intro reads_opt_toks[OF assms(2,3)]) (auto simp: opt_toks_def intro!: reads_type)

text \<open>A name, its type and its value, as \<open>let\<close>, \<open>const\<close> and the parameters have them.\<close>

lemma reads_annotated:
  assumes "pred_option printable_type t" and "pred_option (printable P) v"
    and "ahead p = opt_toks (Colon, lit '':'') type_toks t @ opt_toks (Equal, lit ''='') (raw P) v @ r"
    and "stop r" and "next_type r \<noteq> Colon" and "\<And>p'. ahead p' = r \<Longrightarrow> Q t v p'"
  shows "reads (p_opt Colon (parse_type m)) p (\<lambda>t p'.
    reads (p_opt Equal (parse_expression (parse_unary P k) n)) p' (Q t))"
proof -
  have r: "next_type r \<noteq> Equal" "next_type r \<noteq> Less"
    using assms(4) by (auto simp: stop_def op_precedence_def)
  have "next_type (opt_toks (Equal, lit ''='') (raw P) v @ r) \<notin> {Colon, Less}"
    using assms(5) r by (simp add: opt_toks_next)
  then show ?thesis
    by (intro reads_type_opt[OF assms(1,3)] reads_expr_opt[OF assms(2) _ assms(4)])
      (use r assms(6) in auto)
qed

lemmas reads_steps = reads_simps reads_bind reads_advance reads_match reads_expect reads_expect_ident

lemma reads_param:
  assumes "printable_param P q"
  shows "reads_item (parse_param (parse_expression (parse_unary P k) n) n) (param_toks P) RightParen q"
  unfolding reads_item_def
proof (intro allI impI)
  fix p r and Q :: "'a FnParam \<Rightarrow> parser \<Rightarrow> bool"
  assume p: "ahead p = param_toks P q @ r" and r: "next_type r \<in> {Comma, RightParen}"
    and Q: "\<forall>p'. ahead p' = r \<longrightarrow> Q q p'"
  have "stop r" "next_type r \<noteq> Colon" using r by (auto intro: stop_next)
  with p Q assms show "reads (parse_param (parse_expression (parse_unary P k) n) n) p Q"
    unfolding parse_param_def reads_steps
    by (cases q) (auto simp: param_toks_def printable_param_def ident_tok_def intro!: reads_annotated)
qed

lemma reads_params:
  assumes "list_all (printable_param P) qs" and "ahead p = params_toks P qs @ r"
    and "\<And>p'. ahead p' = r \<Longrightarrow> Q qs p'"
  shows "reads (parse_fn_params (parse_expression (parse_unary P k) n) n) p Q"
proof -
  have "\<forall>q\<in>set qs. reads_item (parse_param (parse_expression (parse_unary P k) n) n) (param_toks P)
      RightParen q \<and> (\<forall>r. next_type (param_toks P q @ r) \<noteq> RightParen)"
    using assms(1) by (auto simp: list_all_iff param_starts intro!: reads_param)
  then show ?thesis
    using assms(2,3)
    by (auto simp: parse_fn_params_def params_toks_def reads_wp intro!: reads_comma_list)
qed

subsection \<open>Blocks\<close>

definition reads_stmt :: "'f plat \<Rightarrow> 'f Stmt \<Rightarrow> bool" where
  "reads_stmt P t = (\<forall>k p r Q. ahead p = stmt_toks P t @ r \<longrightarrow> calm r \<longrightarrow>
     (\<forall>p'. ahead p' = r \<longrightarrow> Q (Some t) p') \<longrightarrow> reads (parse_statement P k) p Q)"

definition reads_body :: "'f plat \<Rightarrow> 'f Stmt list \<Rightarrow> bool" where
  "reads_body P ts = (\<forall>k n p r Q. ahead p = braces (stmts_toks P ts) @ r \<longrightarrow>
     (\<forall>p'. ahead p' = r \<longrightarrow> Q ts p') \<longrightarrow> reads (parse_block (parse_statement P k) n) p Q)"

lemma reads_stmtD:
  "reads_stmt P t \<Longrightarrow> ahead p = stmt_toks P t @ r \<Longrightarrow> calm r \<Longrightarrow>
   (\<And>p'. ahead p' = r \<Longrightarrow> Q (Some t) p') \<Longrightarrow> reads (parse_statement P k) p Q"
  unfolding reads_stmt_def by blast

lemma reads_bodyD:
  "reads_body P ts \<Longrightarrow> ahead p = braces (stmts_toks P ts) @ r \<Longrightarrow>
   (\<And>p'. ahead p' = r \<Longrightarrow> Q ts p') \<Longrightarrow> reads (parse_block (parse_statement P k) n) p Q"
  unfolding reads_body_def by blast

lemma reads_body_at:
  "ahead p = braces (stmts_toks P ts) @ r \<Longrightarrow> reads_body P ts \<Longrightarrow>
   (\<And>p'. ahead p' = r \<Longrightarrow> Q ts p') \<Longrightarrow> reads (parse_block (parse_statement P k) n) p Q"
  by (rule reads_bodyD)

lemma stmtI:
  fixes P :: "'f plat"
  assumes "\<And>k n p r Q. ahead p = stmt_toks P t @ r \<Longrightarrow> calm r \<Longrightarrow> (\<And>p'. ahead p' = r \<Longrightarrow> Q (Some t) p') \<Longrightarrow>
     reads (statement_step P (parse_expression (parse_unary P k) k) (parse_statement P k) k) p Q"
  shows "reads_stmt P t"
  unfolding reads_stmt_def
proof (intro allI impI)
  fix k p r and Q :: "'f Stmt option \<Rightarrow> parser \<Rightarrow> bool"
  assume "ahead p = stmt_toks P t @ r" "calm r" "\<forall>p'. ahead p' = r \<longrightarrow> Q (Some t) p'"
  then show "reads (parse_statement P k) p Q"
    using assms by (cases k) (auto simp: reads_wp)
qed

lemma braces_next [simp]: "next_type (braces ts @ r) = LeftBrace" "stop (braces ts @ r)"
  by (simp_all add: braces_def)

lemma calm_stmts: "printable_stmts P ts \<Longrightarrow> calm r \<Longrightarrow> calm (stmts_toks P ts @ r)"
  using calm_stmt by (cases ts) fastforce+

lemma reads_stmts:
  assumes "printable_stmts P ts" and "\<forall>t\<in>set ts. reads_stmt P t"
    and "ahead p = stmts_toks P ts @ (RightBrace, v) # r"
    and "\<And>p'. ahead p' = (RightBrace, v) # r \<Longrightarrow> Q (map Some ts) p'"
  shows "reads (until_brace n (parse_statement P k)) p Q"
  using assms
proof (induction ts arbitrary: n p Q)
  case Nil
  then show ?case by (cases n) (auto simp: reads_wp p_check_ahead)
next
  case (Cons t ts)
  let ?r = "stmts_toks P ts @ (RightBrace, v) # r"
  have t: "reads_stmt P t" "printable_stmt P t" and calm: "calm ?r"
    using Cons.prems(1,2) calm_stmts[of P ts] by auto
  have p: "ahead p = stmt_toks P t @ ?r" using Cons.prems(3) by simp
  then have "next_type (ahead p) \<notin> {RightBrace, Eof}" using calm_stmt[OF t(2)] by simp
  moreover have "reads (parse_statement P k) p (\<lambda>x p'.
      reads (until_brace m (parse_statement P k)) p' (\<lambda>xs. Q (x # xs)))" for m
    by (rule reads_stmtD[OF t(1) p calm]) (use Cons.prems in \<open>auto intro!: Cons.IH\<close>)
  ultimately show ?case by (cases n) (auto simp: reads_wp p_check_ahead)
qed

lemma body_of_stmts:
  assumes "printable_stmts P ts" and "\<forall>t\<in>set ts. reads_stmt P t"
  shows "reads_body P ts"
proof -
  have "List.map_filter id (map Some ts) = ts" for ts :: "'a Stmt list"
    by (induction ts) (simp_all add: map_filter_simps)
  then show ?thesis
    unfolding reads_body_def
    by (auto simp: parse_block_def braces_def reads_wp intro!: reads_stmts[OF assms])
qed

subsection \<open>Statements\<close>

named_theorems stmt_parsers \<open>the parsers of the statements\<close>

lemmas [stmt_parsers] =
  statement_step_def Let_def current_ahead behind_def reads_steps ident_tok_def p_check_ahead
  parse_let_def parse_const_def parse_binding_def parse_return_def parse_while_def parse_for_def
  parse_use_def parse_export_def parse_assert_def parse_type_alias_def parse_channel_def
  parse_try_catch_def parse_spawn_def case_prod_unfold

lemma stmt_SExpr:
  assumes "printable P e" and "next_type (raw P e) \<notin> {Minus, LeftParen, LeftBracket, KeywordIf}"
  shows "reads_stmt P (SExpr e)"
proof (rule stmtI)
  fix k n p r and Q :: "'a Stmt option \<Rightarrow> parser \<Rightarrow> bool"
  assume p: "ahead p = stmt_toks P (SExpr e) @ r" and Q: "\<And>p'. ahead p' = r \<Longrightarrow> Q (Some (SExpr e)) p'"
  have "next_type (ahead p) = next_type (raw P e)" "next_type (raw P e) \<in> expr_starts"
    using raw_first(1)[OF assms(1)] p by auto
  then have "next_type (ahead p) \<in> literal_tokens \<union> {IdentTok, NotTok}"
    using assms(2) by (auto simp: expr_starts_def)
  then have step: "statement_step P pe ps k p =
      p_bind pe (\<lambda>e. p_bind (match_token Semicolon) (\<lambda>_. p_ret (Some (SExpr e)))) p" for pe ps
    by (auto simp: statement_step_def Let_def p_get_def current_ahead literal_tokens_def)
  have "reads (p_bind (parse_expression (parse_unary P k) k)
      (\<lambda>e. p_bind (match_token Semicolon) (\<lambda>_. p_ret (Some (SExpr e))))) p Q"
    unfolding reads_steps by (rule reads_expr[OF assms(1)]) (use p Q in auto)
  then show "reads (statement_step P (parse_expression (parse_unary P k) k) (parse_statement P k) k) p Q"
    by (simp add: reads_def step)
qed

lemma stmt_SLet:
  assumes "pred_option (printable P) v" and "pred_option printable_type t"
  shows "reads_stmt P (SLet x v t m)" and "reads_stmt P (SConst x v t)"
  by (rule stmtI, auto simp: stmt_parsers dest: calmD intro!: reads_annotated[OF assms(2,1)])+

lemma stmt_SReturn: "printable P e \<Longrightarrow> reads_stmt P (SReturn (Some e))"
  using raw_first(1)[of P e]
  by (auto intro!: stmtI reads_expr simp: stmt_parsers expr_starts_def literal_tokens_def dest: calmD)

lemma stmt_SAssert:
  assumes c: "printable P c" and m: "pred_option (printable P) m"
  shows "reads_stmt P (SAssert c m)"
proof (rule stmtI)
  fix k n p r and Q :: "'a Stmt option \<Rightarrow> parser \<Rightarrow> bool"
  let ?r = "opt_toks (Comma, lit '','') (raw P) m @ r"
  assume p: "ahead p = stmt_toks P (SAssert c m) @ r" and r: "calm r"
    and Q: "\<And>p'. ahead p' = r \<Longrightarrow> Q (Some (SAssert c m)) p'"
  have first: "ahead (step_on p) = raw P c @ ?r" using p by simp
  show "reads (statement_step P (parse_expression (parse_unary P k) k) (parse_statement P k) k) p Q"
    using p calmD[OF r] Q
    by (simp add: stmt_parsers) (rule reads_expr[OF c first], auto intro: opt_toks_stop reads_expr_opt[OF m])
qed

lemma stmt_SWhile: "printable P c \<Longrightarrow> reads_body P b \<Longrightarrow> reads_stmt P (SWhile c b)"
  by (rule stmtI) (auto simp: stmt_parsers intro!: reads_expr reads_bodyD)

lemma stmt_SFor: "printable P e \<Longrightarrow> reads_body P b \<Longrightarrow> reads_stmt P (SFor x e b)"
  by (rule stmtI) (auto simp: stmt_parsers intro!: reads_expr reads_bodyD)

lemma stmt_simple:
  "reads_stmt P (SUse x)" "reads_stmt P (SExport x)"
  "pred_option printable_type u \<Longrightarrow> reads_stmt P (STypeAlias x u)"
  by (rule stmtI, auto simp: stmt_parsers dest: calmD intro!: reads_type_opt)+

lemma stmt_SChannel: "printable_type t \<Longrightarrow> reads_stmt P (SChannel a b t 0)"
  by (rule stmtI) (auto simp: stmt_parsers reads_opt dest: calmD intro!: reads_type)

lemma stmt_STryCatch:
  "reads_body P b \<Longrightarrow> reads_body P h \<Longrightarrow> reads_stmt P (STryCatch b x h)"
  by (rule stmtI) (cases x; auto simp: stmt_parsers intro!: reads_body_at)

lemma reads_fields:
  assumes "list_all (\<lambda>f. printable_type (field_type f)) flds"
    and "ahead p = concat (map (\<lambda>f. [ident_tok (field_name f), (Colon, lit '':'')] @
      type_toks (field_type f) @ [(Comma, lit '','')]) flds) @ (RightBrace, v) # r"
    and "\<And>p'. ahead p' = (RightBrace, v) # r \<Longrightarrow> Q flds p'"
  shows "reads (until_brace n
       (p_bind (expect_ident ''field name'') (\<lambda>fname.
        p_bind (expect Colon (quoted '':'')) (\<lambda>_.
        p_bind (parse_type m) (\<lambda>ftype.
        p_bind (match_token Comma) (\<lambda>_.
          p_ret \<lparr>field_name = fname, field_type = ftype\<rparr>)))))) p Q"
  using assms
proof (induction flds arbitrary: n p Q)
  case Nil
  then show ?case by (cases n) (auto simp: reads_wp p_check_ahead)
next
  case (Cons f flds)
  then show ?case
    by (cases n; cases f) (auto simp: reads_wp p_check_ahead ident_tok_def intro!: reads_type Cons.IH)
qed

lemma reads_variants:
  assumes "list_all (\<lambda>v. variant_fields v = []) vs"
    and "ahead p = concat (map (\<lambda>v. [ident_tok (variant_name v), (Comma, lit '','')]) vs) @
      (RightBrace, w) # r"
    and "\<And>p'. ahead p' = (RightBrace, w) # r \<Longrightarrow> Q vs p'"
  shows "reads (until_brace n
       (p_bind (expect_ident ''variant name'') (\<lambda>vname.
        p_bind (match_token Comma) (\<lambda>_.
          p_ret \<lparr>variant_name = vname, variant_fields = []\<rparr>)))) p Q"
  using assms
proof (induction vs arbitrary: n p Q)
  case Nil
  then show ?case by (cases n) (auto simp: reads_wp p_check_ahead)
next
  case (Cons v vs)
  then show ?case
    by (cases n; cases v) (auto simp: reads_wp p_check_ahead ident_tok_def intro!: Cons.IH)
qed

lemma stmt_SStructDef:
  "list_all (\<lambda>f. printable_type (field_type f)) flds \<Longrightarrow> reads_stmt P (SStructDef x [] flds)"
  by (rule stmtI) (auto simp: stmt_parsers parse_struct_def braces_def intro!: reads_fields[simplified ident_tok_def, simplified])

lemma stmt_SEnumDef:
  "list_all (\<lambda>v. variant_fields v = []) vs \<Longrightarrow> reads_stmt P (SEnumDef x vs)"
  by (rule stmtI) (auto simp: stmt_parsers parse_enum_def braces_def intro!: reads_variants)

lemma parse_if_step:
  "(\<And>m. reads (parse_if pe pb (Suc m)) p Q) \<Longrightarrow> reads (parse_if pe pb n) p Q"
  by (cases n) (auto simp: reads_wp)

lemma stmt_SIf:
  assumes c: "printable P c" and t: "reads_body P t" and e: "reads_body P e"
  shows "reads_stmt P (SIf c t e)"
proof (rule stmtI)
  fix k n p r and Q :: "'a Stmt option \<Rightarrow> parser \<Rightarrow> bool"
  let ?pb = "parse_block (parse_statement P k) k" and ?pe = "parse_expression (parse_unary P k) k"
  let ?else = "if e = [] then r else (KeywordElse, lit ''else'') # braces (stmts_toks P e) @ r"
  assume p: "ahead p = stmt_toks P (SIf c t e) @ r" and r: "calm r"
    and Q: "\<And>p'. ahead p' = r \<Longrightarrow> Q (Some (SIf c t e)) p'"
  have e_body: "reads ?pb p' (\<lambda>el. Q (Some (SIf c t el)))" if "ahead p' = braces (stmts_toks P e) @ r" for p'
    by (rule reads_bodyD[OF e that]) (rule Q)
  have "reads (parse_if ?pe ?pb (Suc m)) (step_on p) (\<lambda>x. Q (Some x))" for m
    unfolding parse_if.simps reads_steps
  proof (rule reads_expr[OF c, where r = "braces (stmts_toks P t) @ ?else"], goal_cases)
    case (3 p')
    show ?case
      by (rule reads_bodyD[OF t 3])
        (use Q calmD[OF r] e_body in \<open>auto simp: p_check_ahead reads_steps\<close>)
  qed (use p in auto)
  then have "reads (parse_if ?pe ?pb k) (step_on p) (\<lambda>x. Q (Some x))" by (rule parse_if_step)
  with p show "reads (statement_step P ?pe (parse_statement P k) k) p Q"
    by (simp add: stmt_parsers)
qed

definition reads_fn :: "'f plat \<Rightarrow> 'f Stmt \<Rightarrow> bool" where
  "reads_fn P f = (\<forall>k p r Q. ahead p = tl (stmt_toks P f) @ r \<longrightarrow> calm r \<longrightarrow>
     (\<forall>p'. ahead p' = r \<longrightarrow> Q f p') \<longrightarrow>
     reads (parse_fn (parse_expression (parse_unary P k) k) (parse_block (parse_statement P k) k) k) p Q)"

lemma no_annotations:
  assumes "next_type (ahead p) \<noteq> At" and "Q no_annot p"
  shows "reads (parse_channel_annotations n None) p Q"
  using assms by (cases n)
    (auto simp: parse_channel_annotations_def reads_wp current_ahead no_annot_def)

lemma fn_SFn:
  assumes qs: "list_all (printable_param P) qs" and t: "pred_option printable_type t"
    and b: "reads_body P b"
  shows "reads_fn P (SFn x qs t no_annot b False False)"
  unfolding reads_fn_def
proof (intro allI impI)
  fix k p r and Q :: "'a Stmt \<Rightarrow> parser \<Rightarrow> bool"
  let ?r = "opt_toks (Arrow, lit ''->'') type_toks t @ braces (stmts_toks P b) @ r"
  assume p: "ahead p = tl (stmt_toks P (SFn x qs t no_annot b False False)) @ r"
    and Q: "\<forall>p'. ahead p' = r \<longrightarrow> Q (SFn x qs t no_annot b False False) p'"
  show "reads (parse_fn (parse_expression (parse_unary P k) k) (parse_block (parse_statement P k) k) k) p Q"
    unfolding parse_fn_def parse_fn_rest_def reads_steps
    using p Q
    by (auto simp: ident_tok_def intro!: reads_params[OF qs, of _ ?r] reads_type_opt[OF t] no_annotations
        reads_bodyD[OF b])
qed

lemma stmt_SFn:
  assumes "is_fn f" and "reads_fn P f"
  shows stmt_of_fn: "reads_stmt P f" and stmt_SSpawn: "reads_stmt P (SSpawn f)"
proof -
  obtain x qs t a b async pub where f: "f = SFn x qs t a b async pub"
    using assms(1) by (cases f) auto
  show "reads_stmt P f" "reads_stmt P (SSpawn f)"
    using assms(2) unfolding f reads_fn_def by (auto intro!: stmtI simp: stmt_parsers)
qed

lemma printable_stmt_reads:
  fixes t :: "'f Stmt" and ts :: "'f Stmt list"
  shows "printable_stmt P t \<Longrightarrow> reads_stmt P t \<and> (is_fn t \<longrightarrow> reads_fn P t)"
    and "printable_stmts P ts \<Longrightarrow> \<forall>t\<in>set ts. reads_stmt P t"
  by (induction P t and P ts rule: printable_stmt_printable_stmts.induct)
    (auto split: option.splits intro!: stmt_SLet stmt_SReturn stmt_SIf stmt_SWhile stmt_SFor
      stmt_SStructDef stmt_SEnumDef stmt_STryCatch stmt_SAssert stmt_simple stmt_SChannel stmt_SExpr stmt_SSpawn
      stmt_of_fn[OF _ fn_SFn] fn_SFn body_of_stmts)

subsection \<open>Programs\<close>

lemma reads_loop:
  assumes "printable_stmts P ts" and "ahead p = stmts_toks P ts @ [(Eof, [])]"
  shows "reads (parse_loop P k n prog) p (\<lambda>prog' _. prog' = prog\<lparr>statements := statements prog @ ts\<rparr>)"
  using assms
proof (induction ts arbitrary: n p prog)
  case Nil
  then show ?case by (cases n) (auto simp: reads_wp p_check_ahead)
next
  case (Cons t ts)
  let ?r = "stmts_toks P ts @ [(Eof, [])]"
  have t: "printable_stmt P t" "reads_stmt P t" and calm: "calm ?r"
    using Cons.prems(1) printable_stmt_reads(1) calm_stmts[of P ts] by auto
  have p: "ahead p = stmt_toks P t @ ?r" using Cons.prems(2) by simp
  then have "next_type (ahead p) \<noteq> Eof" using calm_stmt[OF t(1)] by simp
  moreover have "reads (parse_statement P k) p (\<lambda>st p'. reads (parse_loop P k m
      (case st of Some s \<Rightarrow> program_add prog s | None \<Rightarrow> prog)) p'
      (\<lambda>prog' _. prog' = prog\<lparr>statements := statements prog @ t # ts\<rparr>))" for m
  proof (rule reads_stmtD[OF t(2) p calm])
    fix p' assume p': "ahead p' = ?r"
    have "printable_stmts P ts" using Cons.prems(1) by simp
    from Cons.IH[OF this p', of m "program_add prog t"] show "reads (parse_loop P k m
      (case Some t of Some s \<Rightarrow> program_add prog s | None \<Rightarrow> prog)) p'
      (\<lambda>prog' _. prog' = prog\<lparr>statements := statements prog @ t # ts\<rparr>)"
      by (simp add: program_add_def)
  qed
  ultimately show ?case by (cases n) (auto simp: reads_wp p_check_ahead)
qed

lemma parse_tokens_reads:
  assumes "printable_stmts P ts" and "map tok_core toks = stmts_toks P ts @ [(Eof, [])]"
    and "2 * length toks + 2 \<le> n"
  shows "parse_tokens P n toks = Some (Inr (program_new\<lparr>statements := ts\<rparr>))"
proof -
  have "ahead (parser_new toks) = stmts_toks P ts @ [(Eof, [])]"
    using assms(2) by (simp add: ahead_def parser_new_def)
  from reads_loop[OF assms(1) this, of n n program_new] good_program[OF assms(3), of P]
  show ?thesis
    by (auto simp: reads_def good_def parse_tokens_def parse_program_def program_new_def
        split: option.splits sum.splits prod.splits)
qed

subsection \<open>What a semicolon ends\<close>

text \<open>A step that fails with a message, if it returns at all.\<close>

definition fails :: "'a parse \<Rightarrow> parser \<Rightarrow> parse_message \<Rightarrow> bool" where
  "fails m p msg =
     (case m p of None \<Rightarrow> True | Some (Inl e) \<Rightarrow> pe_message e = msg | Some (Inr _) \<Rightarrow> False)"

lemma fails_bind: "fails m p msg \<Longrightarrow> fails (p_bind m f) p msg"
  by (auto simp: fails_def p_bind_def split: option.splits sum.splits)

lemma fails_after:
  assumes "reads m p (\<lambda>x p'. fails (f x) p' msg)"
  shows "fails (p_bind m f) p msg"
  using assms by (auto simp: fails_def reads_def p_bind_def split: option.splits sum.splits)

lemma fails_semicolon:
  assumes "ahead p = (Semicolon, v) # r"
  shows "fails (parse_statement P k) p (UnexpectedToken v)"
proof -
  have primary: "fails (parse_primary P pe ps n) p (UnexpectedToken v)" for pe ps n
    using assms by (simp add: fails_def parse_primary_def p_get_def Let_def current_ahead literal_tokens_def
        p_fail_def)
  have unary: "fails (parse_unary P n) p (UnexpectedToken v)" for n
    using primary assms by (cases n) (simp_all add: fails_def unary_step_def p_get_def Let_def current_ahead p_none_def)
  have "fails (parse_expression (parse_unary P m) n) p (UnexpectedToken v)" for m n
    unfolding parse_expression_def parse_pipe_def
    by (rule fails_bind, cases n) (simp_all add: fails_bind unary, simp add: fails_def p_none_def)
  from fails_bind[OF this] assms show ?thesis
    by (cases k) (simp_all add: fails_def statement_step_def p_get_def Let_def current_ahead p_none_def)
qed

lemma fails_loop:
  assumes "printable_stmts P ts" and "ahead p = stmts_toks P ts @ (Semicolon, v) # r"
  shows "fails (parse_loop P k n prog) p (UnexpectedToken v)"
  using assms
proof (induction ts arbitrary: n p prog)
  case Nil
  then show ?case
    using fails_semicolon[of p v r P k, THEN fails_bind]
    by (cases n) (simp_all add: fails_def p_get_def p_check_ahead p_none_def)
next
  case (Cons t ts)
  let ?r = "stmts_toks P ts @ (Semicolon, v) # r"
  have t: "printable_stmt P t" "reads_stmt P t" and calm: "calm ?r"
    using Cons.prems(1) printable_stmt_reads(1) calm_stmts[of P ts "(Semicolon, v) # r"]
    by (auto simp: calm_def stop_def follow_def op_precedence_def)
  have p: "ahead p = stmt_toks P t @ ?r" using Cons.prems(2) by simp
  then have "next_type (ahead p) \<noteq> Eof" using calm_stmt[OF t(1)] by simp
  moreover have "fails (p_bind (parse_statement P k) (\<lambda>st. parse_loop P k m
      (case st of Some s \<Rightarrow> program_add prog s | None \<Rightarrow> prog))) p (UnexpectedToken v)" for m
    using Cons.prems(1) by (intro fails_after reads_stmtD[OF t(2) p calm] Cons.IH) auto
  ultimately show ?case
    by (cases n) (simp_all add: fails_def p_get_def p_check_ahead p_none_def)
qed

text \<open>
  C40: A semicolon belongs to an expression statement only. After any number of complete
  statements (a \<open>let\<close>, a \<open>return\<close> with a value, a declaration, or an expression with its
  semicolon) a further semicolon is a syntax error.
\<close>

theorem semicolon_rejected:
  assumes "printable_stmts P ts" and "map tok_core toks = stmts_toks P ts @ (Semicolon, v) # r"
    and "2 * length toks + 2 \<le> n"
  shows "\<exists>e. parse_tokens P n toks = Some (Inl e) \<and> pe_message e = UnexpectedToken v"
proof -
  have "ahead (parser_new toks) = stmts_toks P ts @ (Semicolon, v) # r"
    using assms(2) by (simp add: ahead_def parser_new_def)
  from fails_loop[OF assms(1) this, of n n program_new] good_program[OF assms(3), of P]
  show ?thesis
    by (auto simp: fails_def good_def parse_tokens_def parse_program_def
        split: option.splits sum.splits prod.splits)
qed

theorem semicolon_rejected_witness:
  "\<exists>e. parse_tokens int_plat 14 [new_token KeywordLet (lit ''let'') 1 1,
     new_token IdentTok (lit ''x'') 1 5, new_token Equal (lit ''='') 1 7,
     new_token TokenType.IntLiteral (lit ''1'') 1 9, new_token Semicolon (lit '';'') 1 10,
     new_token Eof [] 1 11] = Some (Inl e) \<and> pe_message e = UnexpectedToken (lit '';'')"
  by (rule semicolon_rejected[where r = "[(Eof, [])]" and
        ts = "[SLet (lit ''x'') (Some (Expr.IntLiteral 1)) None False]"])
    (simp_all add: opt_toks_def ident_tok_def int_tok_def tok_core_def show_int_def show_nat.simps lit_def)

text \<open>
  C39: Assignment has the precedence of equality and groups to the left: \<open>x = a op b\<close> with a
  comparison for equality or a logical operator is read as \<open>(x = a) op b\<close>, which assigns \<open>a\<close>.
\<close>

theorem assignment_groups_left:
  assumes "printable P a" and "level a = 7" and "printable P b" and "level b = 7"
    and "x \<notin> {lit ''Some'', lit ''None'', lit ''Ok'', lit ''Err''}"
    and "op \<in> {lit ''=='', lit ''!='', lit ''&&'', lit ''||''}"
    and "map tok_core toks = (IdentTok, x) # (Equal, lit ''='') # raw P a @ (the (op_tok op), op) #
      raw P b @ [(Semicolon, lit '';''), (Eof, [])]"
    and "2 * length toks + 2 \<le> n"
  shows "parse_tokens P n toks = Some (Inr (program_new\<lparr>statements :=
    [SExpr (BinaryOp (BinaryOp (Ident x) (lit ''='') a) op b)]\<rparr>))"
proof -
  have "op_tok (lit ''='') = Some Equal" "op_level (lit ''='') = 3" "op_tok op \<noteq> None" "op_level op \<le> 3"
    "op_level op < 7"
    using assms(6) by (auto simp: op_level_def op_tok_def op_tokens_def op_precedence_def op_text_def lit_def)
  then have "stmts_toks P [SExpr (BinaryOp (BinaryOp (Ident x) (lit ''='') a) op b)] @ [(Eof, [])] =
      map tok_core toks" "printable_stmts P [SExpr (BinaryOp (BinaryOp (Ident x) (lit ''='') a) op b)]"
    using assms by (auto simp: wrap_def)
  then show ?thesis using parse_tokens_reads assms(8) by metis
qed

theorem assignment_groups_left_witness:
  "parse_tokens int_plat 16 [new_token IdentTok (lit ''x'') 1 1, new_token Equal (lit ''='') 1 3,
     new_token IdentTok (lit ''a'') 1 5, new_token Or (lit ''||'') 1 7, new_token IdentTok (lit ''b'') 1 10,
     new_token Semicolon (lit '';'') 1 11, new_token Eof [] 1 12] =
   Some (Inr (program_new\<lparr>statements :=
    [SExpr (BinaryOp (BinaryOp (Ident (lit ''x'')) (lit ''='') (Ident (lit ''a''))) (lit ''||'')
      (Ident (lit ''b'')))]\<rparr>))"
  by (rule assignment_groups_left)
    (simp_all add: tok_core_def op_tok_def op_tokens_def op_text_def lit_def)

end
