(* ===== verification/Pipeline.thy ===== *)
theory Pipeline
  imports LexerCorrect Agreement ParserProgram
begin

section \<open>From source text to results\<close>

text \<open>
  The two ways a source text is run: \<open>run_source\<close> of \<open>runtime/src/interpreter.rs\<close>, which lexes,
  parses and interprets it, and the bytecode path of the command line, which lexes, parses,
  compiles and runs it. The parser gets the fuel that \<open>parse_returns\<close> shows to be enough, and the
  errors of the two front passes are kept as values instead of their texts.
\<close>

datatype 'r source_result = LexFailed LexerError | ParseFailed ParseError | Ran 'r

definition parse_source ::
  "unicode \<Rightarrow> 'f plat \<Rightarrow> ustr \<Rightarrow> 'f Program source_result option" where
  "parse_source U P src =
     (case tokenize U (new_lexer src) of
        (Inl e, _) \<Rightarrow> Some (LexFailed e)
      | (Inr toks, _) \<Rightarrow>
          (case parse_tokens P (2 * length toks + 2) toks of
             None \<Rightarrow> None
           | Some (Inl e) \<Rightarrow> Some (ParseFailed e)
           | Some (Inr prog) \<Rightarrow> Some (Ran prog)))"

definition with_program ::
  "'f Program source_result option \<Rightarrow> ('f Program \<Rightarrow> 'r option) \<Rightarrow> 'r source_result option" where
  "with_program r f =
     (case r of
        None \<Rightarrow> None
      | Some (LexFailed e) \<Rightarrow> Some (LexFailed e)
      | Some (ParseFailed e) \<Rightarrow> Some (ParseFailed e)
      | Some (Ran prog) \<Rightarrow> map_option Ran (f prog))"

definition run_source where
  "run_source U P T n w src = with_program (parse_source U P src)
     (\<lambda>prog. map_option fst (interpret_program P T n prog (interp_new w)))"

definition run_source_vm where
  "run_source_vm chk U P src = with_program (parse_source U P src)
     (\<lambda>prog. case compile_program chk prog bc_new of
        None \<Rightarrow> Some Panic
      | Some (fs, _) \<Rightarrow> observe (run_vm P (vm_new fs)))"

lemma parse_source_printed:
  assumes "printable_stmts P ts" and "\<forall>(tt, v) \<in> set (stmts_toks P ts). readable U tt v"
  shows "parse_source U P (print_tokens (stmts_toks P ts)) = Some (Ran (program_new\<lparr>statements := ts\<rparr>))"
proof -
  have "rest (new_lexer (print_tokens (stmts_toks P ts))) = print_tokens (stmts_toks P ts)"
    by (simp add: rest_def new_lexer_def)
  from tokenize_loop_printed[OF this assms(2), of "[]"] obtain toks s' where
    lex: "tokenize U (new_lexer (print_tokens (stmts_toks P ts))) = (Inr toks, s')"
      "map tok_core toks = stmts_toks P ts @ [(Eof, [])]"
    by (auto simp: tokenize_def tok_core_def [abs_def])
  then show ?thesis
    using parse_tokens_reads[OF assms(1) lex(2), of "2 * length toks + 2"]
    by (simp add: parse_source_def)
qed


text \<open>
  C3: Source round trip on the programs that \<open>printable_stmts\<close> admits: let, const, functions with typed
  and default parameters, return of a value, conditionals, loops, structures, enumerations, spawned
  functions, channels, try, assert, use, export, type aliases and expressions with the parentheses their
  precedences need. Left out are annotations, async and pub, match, traits, impl blocks, llm statements,
  a bare return, derived structures, fields of enumeration variants, capacities of channels, negative
  literals, inclusive ranges, and expression statements that start with a minus, a parenthesis, a bracket
  or \<open>if\<close>. Printing such a program, whose names and literals the lexer can read, and reading the text
  with the lexer and the parser gives the program back.
\<close>

theorem source_roundtrip:
  assumes "printable_stmts P ts" and "\<forall>(tt, v) \<in> set (stmts_toks P ts). readable U tt v"
  shows "parse_source U P (print_tokens (stmts_toks P ts)) = Some (Ran (program_new\<lparr>statements := ts\<rparr>))"
  using assms by (rule parse_source_printed)

lemmas printing = printable_param_def op_tok_def op_tokens_def op_text_def op_level_def
  op_precedence_def params_toks_def param_toks_def ident_tok_def opt_toks_def braces_def wrap_def
  int_tok_def show_int_def show_nat.simps

lemmas reading = readable_def readable_ident_def keyword_type_def build_keywords_def
  is_ident_start_def is_ident_continue_def is_alphanumeric_def is_alphabetic_def
  is_chinese_char_def single_map_def double_map_def no_tables_def i64_parse_ok_def parse_i64_def
  digits_value_def is_ascii_digit_def

theorem source_roundtrip_witness:
  "parse_source no_tables int_plat (print_tokens (stmts_toks int_plat
     [SFn (lit ''inc'') [FnParam (lit ''x'') None None] None no_annot
        [SReturn (Some (BinaryOp (Ident (lit ''x'')) (lit ''+'') (IntLiteral 1)))] False False])) =
   Some (Ran (program_new\<lparr>statements :=
     [SFn (lit ''inc'') [FnParam (lit ''x'') None None] None no_annot
        [SReturn (Some (BinaryOp (Ident (lit ''x'')) (lit ''+'') (IntLiteral 1)))] False False]\<rparr>))"
proof -
  let ?ts = "[SFn (lit ''inc'') [FnParam (lit ''x'') None None] None no_annot
      [SReturn (Some (BinaryOp (Ident (lit ''x'')) (lit ''+'') (IntLiteral 1)))] False False] :: int Stmt list"
  have p: "printable_stmts int_plat ?ts" by (simp add: printing lit_def)
  have t: "stmts_toks int_plat ?ts = [(KeywordFn, lit ''fn''), (IdentTok, lit ''inc''), (LeftParen, lit ''(''),
      (IdentTok, lit ''x''), (RightParen, lit '')''), (LeftBrace, lit ''{''), (KeywordReturn, lit ''return''),
      (IdentTok, lit ''x''), (Plus, lit ''+''), (TokenType.IntLiteral, lit ''1''), (RightBrace, lit ''}'')]"
    by (simp add: printing lit_def)
  have r: "\<forall>(tt, v) \<in> set (stmts_toks int_plat ?ts). readable no_tables tt v"
    unfolding t by (simp add: reading lit_def)
  show ?thesis by (rule source_roundtrip[OF p r])
qed

text \<open>
  C4: From text to value, for the printable expressions that \<open>simple_type\<close> types: no variables, no calls,
  no division, equality or order of floats, no negative literals, and none that starts with a minus,
  a parenthesis, a bracket or \<open>if\<close>. The source text of such an expression whose code is shorter than 2^15
  runs to the same end through the interpreter and through the bytecode: the same value of the type of
  the expression, or a panic of both, or the integer division by zero that only the bytecode reports as
  an error.
\<close>

theorem run_source_agree:
  assumes "simple_type e = Some t" and "length (stmts_code 0 [SExpr e]) + 1 < 2 ^ 15"
    and "printable_stmts P [SExpr e]" and "\<forall>(tt, v) \<in> set (stmts_toks P [SExpr e]). readable U tt v"
  shows "\<exists>r n. typed_res t r \<and>
    run_source_vm chk U P (print_tokens (stmts_toks P [SExpr e])) =
      Some (Ran (obind r (\<lambda>v. Ok (v, [])))) \<and>
    run_source U P T n w (print_tokens (stmts_toks P [SExpr e])) =
      Some (Ran (obind (to_rt_out r) (\<lambda>v. Ok [v])))"
proof -
  obtain r fs s' n where "typed_res t r" "compile_program chk (one_expr e) bc_new = Some (fs, s')"
      "observe (run_vm P (vm_new fs)) = Some (obind r (\<lambda>v. Ok (v, [])))"
      "interpret_program P T n (one_expr e) (interp_new w) =
        Some (obind (to_rt_out r) (\<lambda>v. Ok [v]), interp_new w)"
    using simple_program_runs[OF assms(1,2)] by blast
  moreover have "parse_source U P (print_tokens (stmts_toks P [SExpr e])) = Some (Ran (one_expr e))"
    using parse_source_printed[OF assms(3,4)] by (simp add: one_expr_def program_add_def program_new_def)
  ultimately show ?thesis
    by (auto simp: run_source_def run_source_vm_def with_program_def)
qed

theorem run_source_agree_witness:
  "\<exists>r n. typed_res TInt r \<and>
    run_source_vm True no_tables int_plat (print_tokens (stmts_toks int_plat
      [SExpr (BinaryOp (IntLiteral 1) (lit ''+'') (IntLiteral 2))])) =
      Some (Ran (obind r (\<lambda>v. Ok (v, [])))) \<and>
    run_source no_tables int_plat no_threads n () (print_tokens (stmts_toks int_plat
      [SExpr (BinaryOp (IntLiteral 1) (lit ''+'') (IntLiteral 2))])) =
      Some (Ran (obind (to_rt_out r) (\<lambda>v. Ok [v])))"
proof -
  let ?e = "BinaryOp (IntLiteral 1) (lit ''+'') (IntLiteral 2) :: int Expr"
  have s: "simple_type ?e = Some TInt" and l: "length (stmts_code 0 [SExpr ?e]) + 1 < 2 ^ 15"
    by (simp_all add: simple_binary_def lit_def stmt_code_def stmt_expr_def stmt_strings_def Let_def)
  have p: "printable_stmts int_plat [SExpr ?e]"
    and t: "stmts_toks int_plat [SExpr ?e] = [(TokenType.IntLiteral, lit ''1''), (Plus, lit ''+''),
      (TokenType.IntLiteral, lit ''2''), (Semicolon, lit '';'')]"
    by (simp_all add: printing lit_def)
  have r: "\<forall>(tt, v) \<in> set (stmts_toks int_plat [SExpr ?e]). readable no_tables tt v"
    unfolding t by (simp add: reading lit_def)
  show ?thesis by (rule run_source_agree[OF s l p r])
qed

end
