(* ===== verification/Scheduler.thy ===== *)
theory Scheduler
  imports Prelude
begin

section \<open>The capability scheduler (control-plane/src/scheduler.rs)\<close>

text \<open>
  Nodes with capabilities, a load, a quota and a circuit breaker each; a task is placed on the
  least loaded node that covers its capability, whose breaker allows it and whose quota is not
  reached. The atomics of the source are read and written under the lock of the service, so an
  operation is one step. A load is a \<open>usize\<close> that wraps, and the time of a call is an argument,
  in milliseconds.
\<close>

type_synonym usize = "64 word"

subsection \<open>Capabilities\<close>

datatype SchCap = Cpu | Gpu | Sfa | Net

primrec cap_rank :: "SchCap \<Rightarrow> nat" where
  "cap_rank Cpu = 0"
| "cap_rank Gpu = 1"
| "cap_rank Sfa = 2"
| "cap_rank Net = 3"

lemma cap_rank_inj [simp]: "cap_rank a = cap_rank b \<longleftrightarrow> a = b"
  by (cases a; cases b) simp_all

text \<open>The derived order compares the positions in the declaration.\<close>

instantiation SchCap :: linorder
begin

definition less_eq_SchCap :: "SchCap \<Rightarrow> SchCap \<Rightarrow> bool" where
  "less_eq_SchCap a b = (cap_rank a \<le> cap_rank b)"

definition less_SchCap :: "SchCap \<Rightarrow> SchCap \<Rightarrow> bool" where
  "less_SchCap a b = (cap_rank a < cap_rank b)"

instance
  by standard (auto simp: less_eq_SchCap_def less_SchCap_def)

end

definition sch_cap_leq :: "SchCap \<Rightarrow> SchCap \<Rightarrow> bool" where
  "sch_cap_leq a b = (cap_rank a \<le> cap_rank b)"

definition sch_cap_from_str :: "ustr \<Rightarrow> SchCap option" where
  "sch_cap_from_str s =
     (if s = lit ''cpu'' then Some Cpu else if s = lit ''gpu'' then Some Gpu
      else if s = lit ''sfa'' then Some Sfa else if s = lit ''net'' then Some Net else None)"

subsection \<open>The circuit breaker\<close>

text \<open>0 is closed, 1 open and 2 half open; every breaker is made with threshold 3 and 30 s.\<close>

record CircuitBreaker =
  failures :: usize
  threshold :: usize
  breaker_state :: nat
  opened_at :: "nat option"
  cooldown :: nat

definition breaker_new :: "usize \<Rightarrow> nat \<Rightarrow> CircuitBreaker" where
  "breaker_new th cd =
     \<lparr>failures = 0, threshold = th, breaker_state = 0, opened_at = None, cooldown = cd\<rparr>"

definition breaker_allow :: "nat \<Rightarrow> CircuitBreaker \<Rightarrow> bool \<times> CircuitBreaker" where
  "breaker_allow now b =
     (if breaker_state b = 0 then (True, b)
      else if breaker_state b = 2 then (True, b)
      else (case opened_at b of
              Some t \<Rightarrow> if cooldown b \<le> now - t then (True, b\<lparr>breaker_state := 2\<rparr>) else (False, b)
            | None \<Rightarrow> (False, b)))"

definition record_failure :: "nat \<Rightarrow> CircuitBreaker \<Rightarrow> CircuitBreaker" where
  "record_failure now b =
     (let f = failures b + 1; b' = b\<lparr>failures := f\<rparr>
      in if threshold b \<le> f then b'\<lparr>breaker_state := 1, opened_at := Some now\<rparr> else b')"

definition record_success :: "CircuitBreaker \<Rightarrow> CircuitBreaker" where
  "record_success b = b\<lparr>failures := 0, breaker_state := 0\<rparr>"

subsection \<open>Nodes\<close>

record Node =
  node_id :: ustr
  node_caps :: "SchCap set"
  node_load :: usize
  node_quota :: "usize option"

definition node_new :: "ustr \<Rightarrow> SchCap set \<Rightarrow> Node" where
  "node_new i caps = \<lparr>node_id = i, node_caps = caps, node_load = 0, node_quota = None\<rparr>"

definition with_quota :: "Node \<Rightarrow> usize \<Rightarrow> Node" where
  "with_quota n q = n\<lparr>node_quota := Some q\<rparr>"

record NodeRuntime =
  rt_id :: ustr
  rt_caps :: "SchCap set"
  rt_load :: usize
  rt_quota :: "usize option"
  rt_breaker :: CircuitBreaker

definition runtime_of :: "Node \<Rightarrow> NodeRuntime" where
  "runtime_of n = \<lparr>rt_id = node_id n, rt_caps = node_caps n, rt_load = node_load n,
     rt_quota = node_quota n, rt_breaker = breaker_new 3 30000\<rparr>"

record Placement =
  pl_node :: ustr
  pl_cap :: SchCap

type_synonym sched = "NodeRuntime list"

definition sched_new :: "Node list \<Rightarrow> sched" where
  "sched_new ns = map runtime_of ns"

subsection \<open>Placement\<close>

definition covers :: "SchCap \<Rightarrow> NodeRuntime \<Rightarrow> bool" where
  "covers req n = (\<exists>c\<in>rt_caps n. sch_cap_leq req c)"

definition quota_reached :: "NodeRuntime \<Rightarrow> bool" where
  "quota_reached n = (case rt_quota n of Some q \<Rightarrow> q \<le> rt_load n | None \<Rightarrow> False)"

text \<open>
  The loop over the nodes: the best one so far, as its position and load, and the nodes with the
  breakers the loop has moved to half open.
\<close>

fun place_scan ::
  "nat \<Rightarrow> SchCap \<Rightarrow> nat \<Rightarrow> (nat \<times> usize) option \<Rightarrow> sched \<Rightarrow> (nat \<times> usize) option \<times> sched" where
  "place_scan now req i best [] = (best, [])"
| "place_scan now req i best (n # ns) =
     (let (n', best') =
        (if \<not> covers req n then (n, best)
         else let (ok, b) = breaker_allow now (rt_breaker n); n' = n\<lparr>rt_breaker := b\<rparr> in
           if \<not> ok then (n', best)
           else if quota_reached n then (n', best)
           else (n', case best of
               None \<Rightarrow> Some (i, rt_load n)
             | Some (j, l) \<Rightarrow> if rt_load n < l then Some (i, rt_load n) else best));
      (r, ns') = place_scan now req (Suc i) best' ns
      in (r, n' # ns'))"

definition place :: "nat \<Rightarrow> SchCap \<Rightarrow> sched \<Rightarrow> Placement option \<times> sched" where
  "place now req s =
     (case place_scan now req 0 None s of
        (None, s') \<Rightarrow> (None, s')
      | (Some (i, _), s') \<Rightarrow>
          (Some \<lparr>pl_node = rt_id (s' ! i), pl_cap = req\<rparr>,
           s'[i := (s' ! i)\<lparr>rt_load := rt_load (s' ! i) + 1\<rparr>]))"

definition place_by_spec :: "nat \<Rightarrow> ustr \<Rightarrow> sched \<Rightarrow> Placement option \<times> sched" where
  "place_by_spec now cap s =
     place now (case sch_cap_from_str cap of Some c \<Rightarrow> c | None \<Rightarrow> Cpu) s"

subsection \<open>Reports and the list of nodes\<close>

text \<open>\<open>iter().find\<close>: the first node with the identifier is changed.\<close>

fun on_node :: "ustr \<Rightarrow> (NodeRuntime \<Rightarrow> NodeRuntime) \<Rightarrow> sched \<Rightarrow> sched" where
  "on_node i f [] = []"
| "on_node i f (n # ns) = (if rt_id n = i then f n # ns else n # on_node i f ns)"

definition release :: "ustr \<Rightarrow> sched \<Rightarrow> sched" where
  "release i s = on_node i (\<lambda>n. n\<lparr>rt_load := rt_load n - 1\<rparr>) s"

definition mark_failure :: "nat \<Rightarrow> ustr \<Rightarrow> sched \<Rightarrow> sched" where
  "mark_failure now i s =
     on_node i (\<lambda>n. n\<lparr>rt_breaker := record_failure now (rt_breaker n)\<rparr>) s"

definition mark_success :: "ustr \<Rightarrow> sched \<Rightarrow> sched" where
  "mark_success i s = on_node i (\<lambda>n. n\<lparr>rt_breaker := record_success (rt_breaker n)\<rparr>) s"

definition load_snapshot :: "sched \<Rightarrow> (ustr \<times> usize) list" where
  "load_snapshot s = map (\<lambda>n. (rt_id n, rt_load n)) s"

definition add_node :: "Node \<Rightarrow> sched \<Rightarrow> sched" where
  "add_node n s = filter (\<lambda>m. rt_id m \<noteq> node_id n) s @ [runtime_of n]"

definition sync_nodes :: "Node list \<Rightarrow> sched \<Rightarrow> sched" where
  "sync_nodes ns s = map runtime_of ns"

definition node_count :: "sched \<Rightarrow> nat" where
  "node_count s = length s"

end
