(* ===== verification/SchedulerCorrect.thy ===== *)
theory SchedulerCorrect
  imports Scheduler
begin

section \<open>Placement, loads and breakers of the scheduler\<close>

text \<open>
  What a placement promises (the first least loaded node among those that cover the capability, are
  let through by their breaker and have room), how the loads add up over any run of placements,
  releases and reports, and what the breaker lets through.
\<close>

lemma usize_Suc: "a < b \<Longrightarrow> unat (a + 1) = unat a + 1" for a b :: usize
  using unsigned_less[of b, where ?'a = nat] by (simp add: unat_word_ariths(1) word_less_nat_alt)

subsection \<open>The chosen node\<close>

definition usable :: "nat \<Rightarrow> SchCap \<Rightarrow> NodeRuntime \<Rightarrow> bool" where
  "usable now req n =
     (covers req n \<and> fst (breaker_allow now (rt_breaker n)) \<and> \<not> quota_reached n)"

definition probed :: "nat \<Rightarrow> SchCap \<Rightarrow> NodeRuntime \<Rightarrow> NodeRuntime" where
  "probed now req n =
     (if covers req n then n\<lparr>rt_breaker := snd (breaker_allow now (rt_breaker n))\<rparr> else n)"

lemma probed_simps [simp]:
  "rt_id (probed now req n) = rt_id n" "rt_load (probed now req n) = rt_load n"
  "rt_quota (probed now req n) = rt_quota n" "rt_caps (probed now req n) = rt_caps n"
  by (simp_all add: probed_def)

fun least :: "nat \<Rightarrow> SchCap \<Rightarrow> nat \<Rightarrow> sched \<Rightarrow> (nat \<times> usize) option" where
  "least now req i [] = None"
| "least now req i (n # ns) =
     (let r = least now req (Suc i) ns in
      if usable now req n
      then (case r of Some (k, m) \<Rightarrow> if m < rt_load n then r else Some (i, rt_load n)
                    | None \<Rightarrow> Some (i, rt_load n))
      else r)"

definition better :: "(nat \<times> usize) option \<Rightarrow> (nat \<times> usize) option \<Rightarrow> (nat \<times> usize) option" where
  "better best r =
     (case best of None \<Rightarrow> r
      | Some (j, l) \<Rightarrow> (case r of None \<Rightarrow> best | Some (k, m) \<Rightarrow> if m < l then r else best))"

lemma place_scan_eq:
  "place_scan now req i best ns = (better best (least now req i ns), map (probed now req) ns)"
  by (induction now req i best ns rule: place_scan.induct)
    (auto simp: Let_def better_def usable_def probed_def split: option.splits prod.splits)

lemma least_spec:
  "case least now req i ns of
     None \<Rightarrow> \<forall>n\<in>set ns. \<not> usable now req n
   | Some (k, m) \<Rightarrow> i \<le> k \<and> k - i < length ns \<and> usable now req (ns ! (k - i)) \<and>
       m = rt_load (ns ! (k - i)) \<and>
       (\<forall>j<length ns. usable now req (ns ! j) \<longrightarrow> m \<le> rt_load (ns ! j) \<and> (j < k - i \<longrightarrow> m < rt_load (ns ! j)))"
proof (induction ns arbitrary: i)
  case (Cons n ns)
  show ?case
  proof (cases "least now req (Suc i) ns")
    case None
    then show ?thesis using Cons[of "Suc i"] by (auto simp: nth_Cons' Let_def)
  next
    case (Some r)
    obtain k m where r: "r = (k, m)" by force
    have h: "Suc i \<le> k" "k - Suc i < length ns" "usable now req (ns ! (k - Suc i))"
      "m = rt_load (ns ! (k - Suc i))"
      "\<forall>j<length ns. usable now req (ns ! j) \<longrightarrow>
         m \<le> rt_load (ns ! j) \<and> (j < k - Suc i \<longrightarrow> m < rt_load (ns ! j))"
      using Cons[of "Suc i"] Some r by auto
    have k: "k - i = Suc (k - Suc i)" using h(1) by simp
    show ?thesis
    proof (cases "usable now req n \<and> \<not> m < rt_load n")
      case True
      then show ?thesis
        using h(5) Some r by (auto simp: Let_def nth_Cons split: nat.splits intro: order_trans)
    next
      case False
      then have "least now req i (n # ns) = Some (k, m)" using Some r by (auto simp: Let_def)
      then show ?thesis
        using h False k by (auto simp: nth_Cons split: nat.splits)
    qed
  qed
qed simp

text \<open>
  C28: A placement takes the first of the least loaded usable nodes, and adds one to its load; it is
  refused exactly when no node is usable. Nothing else changes but the breakers of covering nodes,
  which may have become half open.
\<close>

theorem place_least_loaded:
  assumes "place now req s = (r, s')"
  shows "case r of
      None \<Rightarrow> (\<forall>n\<in>set s. \<not> usable now req n) \<and> s' = map (probed now req) s
    | Some p \<Rightarrow> \<exists>i<length s. usable now req (s ! i) \<and> p = \<lparr>pl_node = rt_id (s ! i), pl_cap = req\<rparr> \<and>
        (\<forall>j<length s. usable now req (s ! j) \<longrightarrow>
           rt_load (s ! i) \<le> rt_load (s ! j) \<and> (j < i \<longrightarrow> rt_load (s ! i) < rt_load (s ! j))) \<and>
        s' = (map (probed now req) s)[i := (probed now req (s ! i))\<lparr>rt_load := rt_load (s ! i) + 1\<rparr>]"
proof (cases "least now req 0 s")
  case None
  then show ?thesis
    using least_spec[where now = now and req = req and i = 0 and ns = s] assms by (auto simp: place_def place_scan_eq better_def)
next
  case (Some km)
  obtain k m where km: "km = (k, m)" by force
  then show ?thesis
    using least_spec[where now = now and req = req and i = 0 and ns = s] assms Some
    by (auto simp: place_def place_scan_eq better_def intro!: exI[of _ k])
qed

theorem place_least_loaded_witness:
  "(\<exists>i<2. usable 0 Cpu ([runtime_of (with_quota (node_new (lit ''a'') {Cpu}) 0),
        runtime_of (node_new (lit ''b'') {Gpu})] ! i) \<and>
      \<lparr>pl_node = lit ''b'', pl_cap = Cpu\<rparr> = \<lparr>pl_node = rt_id ([runtime_of (with_quota (node_new (lit ''a'') {Cpu}) 0),
        runtime_of (node_new (lit ''b'') {Gpu})] ! i), pl_cap = Cpu\<rparr>)"
proof -
  let ?s = "[runtime_of (with_quota (node_new (lit ''a'') {Cpu}) 0), runtime_of (node_new (lit ''b'') {Gpu})]"
  have "place 0 Cpu ?s = (Some \<lparr>pl_node = lit ''b'', pl_cap = Cpu\<rparr>, snd (place 0 Cpu ?s))"
    by (simp add: place_def covers_def sch_cap_leq_def breaker_allow_def quota_reached_def runtime_of_def
        breaker_new_def node_new_def with_quota_def Let_def)
  from place_least_loaded[OF this] show ?thesis by (auto simp: numeral_2_eq_2)
qed

subsection \<open>Loads over a run\<close>

text \<open>
  A run of the scheduler with the number of slots held on each node: a placement takes one, and a
  release is made only for a slot that is held.
\<close>

inductive sched_step :: "sched \<times> (ustr \<Rightarrow> nat) \<Rightarrow> sched \<times> (ustr \<Rightarrow> nat) \<Rightarrow> bool" where
  placed: "place now req s = (Some p, s') \<Longrightarrow>
    sched_step (s, h) (s', h(pl_node p := h (pl_node p) + 1))"
| refused: "place now req s = (None, s') \<Longrightarrow> sched_step (s, h) (s', h)"
| released: "0 < h i \<Longrightarrow> sched_step (s, h) (release i s, h(i := h i - 1))"
| failed: "sched_step (s, h) (mark_failure now i s, h)"
| succeeded: "sched_step (s, h) (mark_success i s, h)"

definition held_ok :: "sched \<times> (ustr \<Rightarrow> nat) \<Rightarrow> bool" where
  "held_ok sh = (distinct (map rt_id (fst sh)) \<and>
     (\<forall>n\<in>set (fst sh). \<forall>q. rt_quota n = Some q \<longrightarrow>
        rt_load n \<le> q \<and> unat (rt_load n) = snd sh (rt_id n)))"

lemma on_node_map:
  "distinct (map rt_id s) \<Longrightarrow> on_node i f s = map (\<lambda>n. if rt_id n = i then f n else n) s"
  by (induction i f s rule: on_node.induct) (auto intro!: map_idI[symmetric] simp: image_iff)

lemma on_node_ids [simp]: "(\<And>n. rt_id (f n) = rt_id n) \<Longrightarrow> map rt_id (on_node i f s) = map rt_id s"
  by (induction i f s rule: on_node.induct) auto

lemma place_cases:
  assumes "place now req s = (r, s')"
  obtains (none) "r = None" "s' = map (probed now req) s"
  | (some) i where "i < length s" "usable now req (s ! i)"
      "r = Some \<lparr>pl_node = rt_id (s ! i), pl_cap = req\<rparr>"
      "s' = (map (probed now req) s)[i := (probed now req (s ! i))\<lparr>rt_load := rt_load (s ! i) + 1\<rparr>]"
proof (cases "least now req 0 s")
  case None
  then show ?thesis using assms none by (auto simp: place_def place_scan_eq better_def)
next
  case (Some km)
  obtain k m where km: "km = (k, m)" by force
  then have "k < length s \<and> usable now req (s ! k)"
    using least_spec[where now = now and req = req and i = 0 and ns = s] Some by auto
  then show ?thesis
    using some[of k] assms Some km by (auto simp: place_def place_scan_eq better_def)
qed

lemma held_reports:
  assumes "held_ok (s, h)" and "\<And>n. rt_id (f n) = rt_id n" "\<And>n. rt_load (f n) = rt_load n"
    "\<And>n. rt_quota (f n) = rt_quota n"
  shows "held_ok (on_node i f s, h)"
proof -
  have d: "distinct (map rt_id s)" using assms(1) by (simp add: held_ok_def)
  have "distinct (map rt_id (on_node i f s))" using d on_node_ids[where f = f, OF assms(2)] by simp
  then show ?thesis
    using assms by (auto simp: held_ok_def on_node_map[OF d])
qed

lemma held_step:
  assumes "sched_step sh sh'" and "held_ok sh"
  shows "held_ok sh'"
  using assms
proof (cases rule: sched_step.cases)
  case (placed now req s p s' h)
  then obtain i where i: "i < length s" "usable now req (s ! i)" "pl_node p = rt_id (s ! i)"
    "s' = (map (probed now req) s)[i := (probed now req (s ! i))\<lparr>rt_load := rt_load (s ! i) + 1\<rparr>]"
    by (elim place_cases) auto
  have d: "distinct (map rt_id s)" and ok: "\<And>n q. n \<in> set s \<Longrightarrow> rt_quota n = Some q \<Longrightarrow>
      rt_load n \<le> q \<and> unat (rt_load n) = h (rt_id n)"
    using assms(2) placed(1) by (auto simp: held_ok_def)
  have ids: "map rt_id s' = map rt_id s"
    using i(1) by (auto simp: i(4) map_update comp_def intro!: nth_equalityI simp: nth_list_update)
  have "rt_load n \<le> q \<and> unat (rt_load n) = (h(pl_node p := h (pl_node p) + 1)) (rt_id n)"
    if n: "n \<in> set s'" "rt_quota n = Some q" for n q
  proof -
    obtain j where j: "j < length s" "n = s' ! j" using n(1) i(4) by (auto simp: in_set_conv_nth)
    show ?thesis
    proof (cases "j = i")
      case True
      then have q: "rt_quota (s ! i) = Some q" "rt_load n = rt_load (s ! i) + 1" "rt_id n = rt_id (s ! i)"
        using n(2) j i(1,4) by auto
      with i(2) have less: "rt_load (s ! i) < q" by (auto simp: usable_def quota_reached_def)
      then have "rt_load n \<le> q" "unat (rt_load n) = unat (rt_load (s ! i)) + 1"
        using q(2) usize_Suc[OF less] by (simp_all add: inc_le)
      then show ?thesis using ok[of "s ! i" q] i(1,3) q by simp
    next
      case False
      then have "n = probed now req (s ! j)" using j i(1,4) by simp
      moreover have "rt_id (s ! j) \<noteq> rt_id (s ! i)"
        using d False i(1) j(1) by (auto simp: distinct_conv_nth)
      ultimately show ?thesis using ok[of "s ! j" q] j(1) n(2) i(3) by simp
    qed
  qed
  then show ?thesis using d ids placed(2) by (auto simp: held_ok_def)
next
  case (refused now req s s' h)
  then have "s' = map (probed now req) s" by (elim place_cases) auto
  then show ?thesis using assms(2) refused by (auto simp: held_ok_def comp_def)
next
  case (released h i s)
  have d: "distinct (map rt_id s)" and ok: "\<And>n q. n \<in> set s \<Longrightarrow> rt_quota n = Some q \<Longrightarrow>
      rt_load n \<le> q \<and> unat (rt_load n) = h (rt_id n)"
    using assms(2) released(1) by (auto simp: held_ok_def)
  have "rt_load n - 1 \<le> q \<and> unat (rt_load n - 1) = h i - 1"
    if "n \<in> set s" "rt_quota n = Some q" "rt_id n = i" for n q
  proof -
    have "rt_load n \<noteq> 0" using ok[OF that(1,2)] that(3) released(3) by auto
    then have "unat (rt_load n - 1) = unat (rt_load n) - 1" by (simp add: unat_minus_one)
    then show ?thesis using ok[OF that(1,2)] that(3) by (auto simp: word_le_nat_alt)
  qed
  moreover have "distinct (map rt_id (release i s))" using d by (simp add: release_def)
  ultimately show ?thesis
    using d ok released(2) by (auto simp: held_ok_def release_def on_node_map)
next
  case (failed s h now i)
  then show ?thesis using assms(2) by (auto simp: mark_failure_def intro: held_reports)
next
  case (succeeded s h i)
  then show ?thesis using assms(2) by (auto simp: mark_success_def intro: held_reports)
qed

text \<open>
  A quota is never exceeded. Starting from idle nodes with different identifiers, after any
  sequence of placements, reports and releases of held slots, the load of a node with a quota is
  the number of slots held on it and at most the quota.
\<close>

theorem quota_respected:
  assumes "distinct (map node_id ns)" and "\<forall>n\<in>set ns. node_load n = 0"
    and "sched_step\<^sup>*\<^sup>* (sched_new ns, \<lambda>_. 0) (s, h)" and "n \<in> set s" and "rt_quota n = Some q"
  shows "rt_load n \<le> q \<and> unat (rt_load n) = h (rt_id n)"
proof -
  have "held_ok (sched_new ns, \<lambda>_. 0)"
    using assms(1,2) by (auto simp: held_ok_def sched_new_def runtime_of_def comp_def)
  with assms(3) have "held_ok (s, h)"
    by (induction rule: rtranclp_induct) (auto intro: held_step)
  then show ?thesis using assms(4,5) by (auto simp: held_ok_def)
qed

theorem quota_respected_witness:
  "rt_load ((runtime_of (with_quota (node_new (lit ''a'') {Cpu}) 2))\<lparr>rt_load := 1\<rparr>) \<le> 2 \<and>
   unat (rt_load ((runtime_of (with_quota (node_new (lit ''a'') {Cpu}) 2))\<lparr>rt_load := 1\<rparr>)) = (1 :: nat)"
proof -
  let ?n = "with_quota (node_new (lit ''a'') {Cpu}) 2" and ?p = "\<lparr>pl_node = lit ''a'', pl_cap = Cpu\<rparr>"
  let ?r = "(runtime_of ?n)\<lparr>rt_load := 1\<rparr>"
  have "place 0 Cpu (sched_new [?n]) = (Some ?p, [?r])"
    by (simp add: place_def covers_def sch_cap_leq_def breaker_allow_def quota_reached_def runtime_of_def
        breaker_new_def node_new_def with_quota_def sched_new_def Let_def)
  from placed[OF this, of "\<lambda>_. 0"]
  have "sched_step\<^sup>*\<^sup>* (sched_new [?n], \<lambda>_. 0) ([?r], (\<lambda>_. 0)(lit ''a'' := 1))" by auto
  from quota_respected[OF _ _ this, of ?r 2] show ?thesis
    by (simp add: runtime_of_def node_new_def with_quota_def)
qed

subsection \<open>Releases without a slot\<close>

text \<open>
  A release of a slot that is not held wraps the load of an idle node to the largest
  \<open>usize\<close>. With a quota, the node is then refused every task, by every placement at any time.
\<close>

lemma release_underflow:
  assumes "distinct (map rt_id s)" and "n \<in> set s" and "rt_load n = 0" and "rt_quota n = Some q"
  shows "map_of (load_snapshot (release (rt_id n) s)) (rt_id n) = Some (2 ^ 64 - 1) \<and>
    (\<forall>now req. case fst (place now req (release (rt_id n) s)) of
       Some p \<Rightarrow> pl_node p \<noteq> rt_id n | None \<Rightarrow> True)"
proof -
  let ?s = "release (rt_id n) s" and ?n = "n\<lparr>rt_load := - 1\<rparr>"
  have s: "?s = map (\<lambda>m. if rt_id m = rt_id n then m\<lparr>rt_load := rt_load m - 1\<rparr> else m) s"
    by (simp add: release_def on_node_map[OF assms(1)])
  have ids: "distinct (map rt_id ?s)"
    using assms(1) by (simp add: release_def)
  have mem: "?n \<in> set ?s" using assms(2,3) unfolding s by (auto intro!: image_eqI[of _ _ n])
  have uniq: "m = ?n" if "m \<in> set ?s" "rt_id m = rt_id n" for m
    using ids mem that by (auto simp: distinct_map inj_on_def)
  have "(rt_id ?n, rt_load ?n) \<in> set (load_snapshot ?s)"
    unfolding load_snapshot_def set_map by (rule imageI[OF mem])
  then have "map_of (load_snapshot ?s) (rt_id ?n) = Some (rt_load ?n)"
    using ids by (intro map_of_is_SomeI) (simp_all add: load_snapshot_def comp_def)
  moreover have "pl_node p \<noteq> rt_id n" if p: "place now req ?s = (Some p, s')" for now req p s'
    using p
  proof (rule place_cases)
    fix i assume i: "i < length ?s" "usable now req (?s ! i)" "Some p = Some \<lparr>pl_node = rt_id (?s ! i), pl_cap = req\<rparr>"
    show "pl_node p \<noteq> rt_id n"
    proof
      assume "pl_node p = rt_id n"
      then have "?s ! i = ?n" using i uniq[of "?s ! i"] by simp
      then show False using i(2) assms(4) by (simp add: usable_def quota_reached_def)
    qed
  qed simp
  ultimately show ?thesis
    by (auto simp: mask_eq_exp_minus_1 split: option.split) (metis prod.collapse)
qed

theorem release_underflow_witness:
  "map_of (load_snapshot (release (lit ''a'') [runtime_of (with_quota (node_new (lit ''a'') {Cpu}) 4)])) (lit ''a'') =
     Some (2 ^ 64 - 1) \<and>
   (case fst (place 0 Cpu (release (lit ''a'') [runtime_of (with_quota (node_new (lit ''a'') {Cpu}) 4)])) of
      Some p \<Rightarrow> pl_node p \<noteq> lit ''a'' | None \<Rightarrow> True)"
proof -
  let ?n = "runtime_of (with_quota (node_new (lit ''a'') {Cpu}) 4)"
  have n: "rt_id ?n = lit ''a''" "rt_load ?n = 0" "rt_quota ?n = Some 4"
    by (simp_all add: runtime_of_def node_new_def with_quota_def)
  have "distinct (map rt_id [?n])" "?n \<in> set [?n]" by simp_all
  from release_underflow[OF this n(2,3), unfolded n(1)] show ?thesis by blast
qed

subsection \<open>What the breaker lets through\<close>

text \<open>
  The circuit breaker. A report that reaches the threshold opens it: nothing passes before the
  cooldown is over. The first request after the cooldown makes it half open, and then every further
  request passes as well, at any time and however many, until the next report; one more failure
  opens it again, and one success closes it whatever its state.
\<close>

theorem breaker_cycle:
  assumes "threshold b \<le> failures b + 1" and "failures b < 2 ^ 63" and "0 < cooldown b"
  shows "fst (breaker_allow now (record_failure t b)) = (t + cooldown b \<le> now) \<and>
    (t + cooldown b \<le> now \<longrightarrow>
      breaker_state (snd (breaker_allow now (record_failure t b))) = 2 \<and>
      fst (breaker_allow later (snd (breaker_allow now (record_failure t b)))) \<and>
      snd (breaker_allow later (snd (breaker_allow now (record_failure t b)))) =
        snd (breaker_allow now (record_failure t b)) \<and>
      breaker_state (record_failure t' (snd (breaker_allow now (record_failure t b)))) = 1) \<and>
    fst (breaker_allow later (record_success (record_failure t b)))"
proof -
  have "failures b + 1 < failures b + 1 + 1"
    using assms(2) by (simp add: word_less_nat_alt unat_word_ariths(1))
  then have "threshold b \<le> failures b + 1 + 1" using assms(1) by simp
  then show ?thesis
    using assms(1,3) by (auto simp: breaker_allow_def record_failure_def record_success_def Let_def)
qed

theorem breaker_cycle_witness:
  "\<not> fst (breaker_allow 30000 (record_failure 1 ((breaker_new 3 30000)\<lparr>failures := 2\<rparr>))) \<and>
   fst (breaker_allow 40000 (snd (breaker_allow 30001 (record_failure 1 ((breaker_new 3 30000)\<lparr>failures := 2\<rparr>)))))"
proof -
  let ?b = "(breaker_new 3 30000)\<lparr>failures := 2\<rparr>"
  have h: "threshold ?b \<le> failures ?b + 1" "failures ?b < 2 ^ 63" "0 < cooldown ?b"
    by (simp_all add: breaker_new_def)
  from breaker_cycle[OF h, of 30000 1] breaker_cycle[OF h, of 30001 1 40000] show ?thesis
    by (simp add: breaker_new_def)
qed

text \<open>A synchronisation forgets the loads and the breakers of the nodes it keeps.\<close>

lemma sync_forgets: "sync_nodes ns s = sync_nodes ns s'"
  by (simp add: sync_nodes_def)

end
