(* ===== verification/Registry.thy ===== *)
theory Registry
  imports Prelude "HOL-Library.AList"
begin

section \<open>The task store (control-plane/src/store.rs and registry.rs)\<close>

text \<open>
  The trait \<open>TaskStore\<close> is the record \<open>task_store\<close> of its operations, since the service holds it
  as a trait object; the locale \<open>task_store_laws\<close> states what the service relies on. The store in
  memory is the first instance. A hash map is an association list without duplicates, whose order
  is one of the orders its values may be listed in. Identifiers (version 4 UUIDs) and the
  clock come from outside: \<open>uuid k\<close> and \<open>clock k\<close> are what the k-th registration draws.
\<close>

subsection \<open>Records and events\<close>

datatype TaskStatus = Queued | Scheduled | Running | Succeeded | Failed | Canceled

record TaskRecord =
  tr_id :: ustr
  tr_name :: ustr
  tr_parent :: "ustr option"
  tr_effect :: ustr
  tr_capability :: ustr
  tr_key :: ustr
  tr_status :: TaskStatus
  tr_node :: "ustr option"
  tr_submitted :: i64

datatype TaskEvent =
    EvSubmitted TaskRecord
  | EvStatusChanged TaskRecord
  | EvCanceled ustr

text \<open>\<open>format!("{}/{}", parent.unwrap_or(""), idempotency_key)\<close>\<close>

definition idem_key :: "ustr option \<Rightarrow> ustr \<Rightarrow> ustr" where
  "idem_key parent k = (case parent of Some p \<Rightarrow> p | None \<Rightarrow> []) @ lit ''/'' @ k"

subsection \<open>The interface\<close>

record 's task_store =
  ts_register :: "ustr \<Rightarrow> ustr option \<Rightarrow> ustr \<Rightarrow> ustr \<Rightarrow> ustr \<Rightarrow> 's \<Rightarrow> TaskRecord \<times> 's"
  ts_set_status :: "ustr \<Rightarrow> TaskStatus \<Rightarrow> 's \<Rightarrow> TaskRecord option \<times> 's"
  ts_assign_node :: "ustr \<Rightarrow> ustr \<Rightarrow> 's \<Rightarrow> 's"
  ts_cancel :: "ustr \<Rightarrow> 's \<Rightarrow> bool \<times> 's"
  ts_get :: "ustr \<Rightarrow> 's \<Rightarrow> TaskRecord option"
  ts_children_of :: "ustr \<Rightarrow> 's \<Rightarrow> TaskRecord list"
  ts_list :: "ustr option \<Rightarrow> 's \<Rightarrow> TaskRecord list"

text \<open>
  \<open>keyed s p k\<close> is the identifier the store has for a parent and an idempotency key. A
  registration returns the record of that identifier, or a new queued one; the other operations
  change one record and no key.
\<close>

locale task_store_laws =
  fixes S :: "'s task_store" and good :: "'s \<Rightarrow> bool" and keyed :: "'s \<Rightarrow> ustr option \<Rightarrow> ustr \<Rightarrow> ustr option"
  assumes register_good: "good s \<Longrightarrow> good (snd (ts_register S name p eff cap k s))"
    and register_old: "good s \<Longrightarrow> keyed s p k = Some i \<Longrightarrow>
      snd (ts_register S name p eff cap k s) = s \<and>
      ts_get S i s = Some (fst (ts_register S name p eff cap k s)) \<and>
      tr_id (fst (ts_register S name p eff cap k s)) = i"
    and register_new: "good s \<Longrightarrow> keyed s p k = None \<Longrightarrow>
      ts_register S name p eff cap k s = (r, s') \<Longrightarrow>
      ts_get S (tr_id r) s = None \<and> ts_get S j s' = (if j = tr_id r then Some r else ts_get S j s) \<and>
      keyed s' p k = Some (tr_id r) \<and> tr_status r = Queued \<and> tr_node r = None \<and>
      (keyed s p' k' = Some j' \<longrightarrow> keyed s' p' k' = Some j')"
    and set_status_good: "good s \<Longrightarrow> good (snd (ts_set_status S i st s))"
    and set_status_get: "good s \<Longrightarrow> ts_get S j (snd (ts_set_status S i st s)) =
      (if j = i then map_option (\<lambda>r. r\<lparr>tr_status := st\<rparr>) (ts_get S i s) else ts_get S j s)"
    and set_status_keyed: "good s \<Longrightarrow> keyed (snd (ts_set_status S i st s)) = keyed s"
    and assign_good: "good s \<Longrightarrow> good (ts_assign_node S i n s)"
    and assign_get: "good s \<Longrightarrow> ts_get S j (ts_assign_node S i n s) =
      (if j = i then map_option (\<lambda>r. r\<lparr>tr_node := Some n\<rparr>) (ts_get S i s) else ts_get S j s)"
    and assign_keyed: "good s \<Longrightarrow> keyed (ts_assign_node S i n s) = keyed s"
    and cancel_good: "good s \<Longrightarrow> good (snd (ts_cancel S i s))"
    and cancel_result: "good s \<Longrightarrow> fst (ts_cancel S i s) = (ts_get S i s \<noteq> None)"
    and cancel_get: "good s \<Longrightarrow> ts_get S j (snd (ts_cancel S i s)) =
      (if j = i then map_option (\<lambda>r. r\<lparr>tr_status := Canceled\<rparr>) (ts_get S i s) else ts_get S j s)"
    and cancel_keyed: "good s \<Longrightarrow> keyed (snd (ts_cancel S i s)) = keyed s"
begin

text \<open>Registering twice, with any changes of records in between, gives the same identifier.\<close>

lemma register_keyed:
  assumes "good s" and "ts_register S name p eff cap k s = (r, s')"
  shows "keyed s' p k = Some (tr_id r)" and "ts_get S (tr_id r) s' = Some r"
proof -
  have "keyed s' p k = Some (tr_id r) \<and> ts_get S (tr_id r) s' = Some r"
  proof (cases "keyed s p k")
    case None
    then show ?thesis using register_new[OF assms(1) None assms(2), of "tr_id r"] by simp
  next
    case (Some i)
    then show ?thesis using register_old[OF assms(1) Some, of name eff cap] assms(2) by auto
  qed
  then show "keyed s' p k = Some (tr_id r)" "ts_get S (tr_id r) s' = Some r" by auto
qed

lemma register_again:
  assumes "good s" and "keyed s p k = Some i"
  shows "tr_id (fst (ts_register S name p eff cap k s)) = i"
  using register_old[OF assms] by simp

end

subsection \<open>The store in memory\<close>

record mem_store =
  ms_tasks :: "(ustr \<times> TaskRecord) list"
  ms_idem :: "(ustr \<times> ustr) list"
  ms_events :: "TaskEvent list"
  ms_drawn :: nat

definition mem_new :: mem_store where
  "mem_new = \<lparr>ms_tasks = [], ms_idem = [], ms_events = [], ms_drawn = 0\<rparr>"

definition mem_send :: "TaskEvent \<Rightarrow> mem_store \<Rightarrow> mem_store" where
  "mem_send e s = s\<lparr>ms_events := ms_events s @ [e]\<rparr>"

definition mem_get :: "ustr \<Rightarrow> mem_store \<Rightarrow> TaskRecord option" where
  "mem_get i s = map_of (ms_tasks s) i"

definition mem_put :: "TaskRecord \<Rightarrow> mem_store \<Rightarrow> mem_store" where
  "mem_put r s = s\<lparr>ms_tasks := AList.update (tr_id r) r (ms_tasks s)\<rparr>"

definition mem_register ::
  "(nat \<Rightarrow> ustr) \<Rightarrow> (nat \<Rightarrow> i64) \<Rightarrow> ustr \<Rightarrow> ustr option \<Rightarrow> ustr \<Rightarrow> ustr \<Rightarrow> ustr \<Rightarrow> mem_store \<Rightarrow>
   TaskRecord \<times> mem_store" where
  "mem_register uuid clock name parent effect capability k s =
     (let ik = idem_key parent k in
      case Option.bind (map_of (ms_idem s) ik) (\<lambda>i. mem_get i s) of
        Some existing \<Rightarrow> (existing, s)
      | None \<Rightarrow>
          (let i = uuid (ms_drawn s);
             r = \<lparr>tr_id = i, tr_name = name, tr_parent = parent, tr_effect = effect,
                  tr_capability = capability, tr_key = k, tr_status = Queued, tr_node = None,
                  tr_submitted = clock (ms_drawn s)\<rparr>
           in (r, mem_send (EvSubmitted r) (mem_put r
                (s\<lparr>ms_idem := AList.update ik i (ms_idem s), ms_drawn := ms_drawn s + 1\<rparr>)))))"

definition mem_set_status :: "ustr \<Rightarrow> TaskStatus \<Rightarrow> mem_store \<Rightarrow> TaskRecord option \<times> mem_store" where
  "mem_set_status i st s =
     (case mem_get i s of
        None \<Rightarrow> (None, s)
      | Some r \<Rightarrow> (let u = r\<lparr>tr_status := st\<rparr>
                  in (Some u, mem_send (EvStatusChanged u) (mem_put u s))))"

definition mem_assign_node :: "ustr \<Rightarrow> ustr \<Rightarrow> mem_store \<Rightarrow> mem_store" where
  "mem_assign_node i n s =
     (case mem_get i s of None \<Rightarrow> s | Some r \<Rightarrow> mem_put (r\<lparr>tr_node := Some n\<rparr>) s)"

definition mem_cancel :: "ustr \<Rightarrow> mem_store \<Rightarrow> bool \<times> mem_store" where
  "mem_cancel i s =
     (case mem_get i s of
        None \<Rightarrow> (False, s)
      | Some r \<Rightarrow> (True, mem_send (EvCanceled i) (mem_put (r\<lparr>tr_status := Canceled\<rparr>) s)))"

definition mem_children_of :: "ustr \<Rightarrow> mem_store \<Rightarrow> TaskRecord list" where
  "mem_children_of p s = filter (\<lambda>r. tr_parent r = Some p) (map snd (ms_tasks s))"

definition mem_list :: "ustr option \<Rightarrow> mem_store \<Rightarrow> TaskRecord list" where
  "mem_list parent s =
     (case parent of
        Some p \<Rightarrow> filter (\<lambda>r. tr_parent r = Some p) (map snd (ms_tasks s))
      | None \<Rightarrow> map snd (ms_tasks s))"

definition in_memory :: "(nat \<Rightarrow> ustr) \<Rightarrow> (nat \<Rightarrow> i64) \<Rightarrow> mem_store task_store" where
  "in_memory uuid clock =
     \<lparr>ts_register = mem_register uuid clock, ts_set_status = mem_set_status,
      ts_assign_node = mem_assign_node, ts_cancel = mem_cancel, ts_get = mem_get,
      ts_children_of = mem_children_of, ts_list = mem_list\<rparr>"

subsection \<open>The store in memory keeps the contract\<close>

definition mem_good :: "(nat \<Rightarrow> ustr) \<Rightarrow> mem_store \<Rightarrow> bool" where
  "mem_good uuid s = (inj uuid \<and>
     (\<forall>i r. mem_get i s = Some r \<longrightarrow> tr_id r = i \<and> (\<exists>k<ms_drawn s. i = uuid k)) \<and>
     (\<forall>ik i. map_of (ms_idem s) ik = Some i \<longrightarrow> mem_get i s \<noteq> None) \<and>
     (\<forall>ik ik' i. map_of (ms_idem s) ik = Some i \<longrightarrow> map_of (ms_idem s) ik' = Some i \<longrightarrow> ik = ik'))"

definition mem_keyed :: "mem_store \<Rightarrow> ustr option \<Rightarrow> ustr \<Rightarrow> ustr option" where
  "mem_keyed s p k = map_of (ms_idem s) (idem_key p k)"

lemma mem_get_put [simp]: "mem_get j (mem_put r s) = (if j = tr_id r then Some r else mem_get j s)"
  by (simp add: mem_get_def mem_put_def update_conv')

lemma mem_get_more [simp]:
  "mem_get i (mem_send e s) = mem_get i s" "mem_get i (s\<lparr>ms_idem := m, ms_drawn := k\<rparr>) = mem_get i s"
  by (simp_all add: mem_get_def mem_send_def)

lemma mem_fields [simp]:
  "ms_idem (mem_send e s) = ms_idem s" "ms_drawn (mem_send e s) = ms_drawn s"
  "ms_idem (mem_put r s) = ms_idem s" "ms_drawn (mem_put r s) = ms_drawn s"
  by (simp_all add: mem_send_def mem_put_def)

lemma mem_keyed_more [simp]:
  "mem_keyed (mem_send e s) = mem_keyed s" "mem_keyed (mem_put r s) = mem_keyed s"
  by (intro ext, simp add: mem_keyed_def)+

lemma mem_good_id: "mem_good uuid s \<Longrightarrow> mem_get i s = Some r \<Longrightarrow> tr_id r = i"
  by (simp add: mem_good_def)

lemma mem_good_drawn: "mem_good uuid s \<Longrightarrow> mem_get i s = Some r \<Longrightarrow> \<exists>k<ms_drawn s. i = uuid k"
  unfolding mem_good_def by blast

lemma mem_keyed_inj:
  "mem_good uuid s \<Longrightarrow> mem_keyed s p k = Some i \<Longrightarrow> mem_keyed s p' k' = Some i \<Longrightarrow>
   idem_key p k = idem_key p' k'"
  unfolding mem_good_def mem_keyed_def by blast

lemma mem_good_new: "inj uuid \<Longrightarrow> mem_good uuid mem_new"
  by (simp add: mem_good_def mem_new_def mem_get_def)

lemma mem_good_put:
  assumes "mem_good uuid s" and "mem_get i s = Some r" and "tr_id r' = tr_id r"
  shows "mem_good uuid (mem_put r' s)"
  using assms by (auto simp: mem_good_def)

lemma mem_good_send [simp]: "mem_good uuid (mem_send e s) = mem_good uuid s"
  by (simp add: mem_good_def)

lemma mem_register_old:
  assumes "mem_good uuid s" and "mem_keyed s p k = Some i"
  shows "\<exists>r. mem_get i s = Some r \<and> tr_id r = i \<and> mem_register uuid clock name p eff cap k s = (r, s)"
proof -
  obtain r where "mem_get i s = Some r" using assms by (fastforce simp: mem_good_def mem_keyed_def)
  then show ?thesis
    using assms mem_good_id by (auto simp: mem_register_def mem_keyed_def)
qed

lemma mem_register_new:
  assumes good: "mem_good uuid s" and new: "mem_keyed s p k = None"
    and reg: "mem_register uuid clock name p eff cap k s = (r, s')"
  shows "tr_id r = uuid (ms_drawn s)" and "mem_get (tr_id r) s = None" and "tr_status r = Queued"
    and "tr_node r = None" and "mem_get j s' = (if j = tr_id r then Some r else mem_get j s)"
    and "ms_idem s' = AList.update (idem_key p k) (tr_id r) (ms_idem s)"
    and "ms_drawn s' = ms_drawn s + 1"
proof -
  have r: "r = \<lparr>tr_id = uuid (ms_drawn s), tr_name = name, tr_parent = p, tr_effect = eff,
      tr_capability = cap, tr_key = k, tr_status = Queued, tr_node = None,
      tr_submitted = clock (ms_drawn s)\<rparr>"
    and s': "s' = mem_send (EvSubmitted r) (mem_put r
      (s\<lparr>ms_idem := AList.update (idem_key p k) (uuid (ms_drawn s)) (ms_idem s), ms_drawn := ms_drawn s + 1\<rparr>))"
    using reg new by (auto simp: mem_register_def mem_keyed_def Let_def)
  show "tr_id r = uuid (ms_drawn s)" "tr_status r = Queued" "tr_node r = None" by (simp_all add: r)
  show "mem_get (tr_id r) s = None"
  proof (rule ccontr)
    assume "mem_get (tr_id r) s \<noteq> None"
    then obtain k where "k < ms_drawn s" "uuid (ms_drawn s) = uuid k"
      using mem_good_drawn[OF good] by (auto simp: r)
    then show False using good by (auto simp: mem_good_def dest: injD)
  qed
  show "mem_get j s' = (if j = tr_id r then Some r else mem_get j s)"
    "ms_idem s' = AList.update (idem_key p k) (tr_id r) (ms_idem s)" "ms_drawn s' = ms_drawn s + 1"
    by (simp_all add: s' r)
qed

lemma mem_register_good:
  assumes "mem_good uuid s"
  shows "mem_good uuid (snd (mem_register uuid clock name p eff cap k s))"
proof (cases "mem_keyed s p k")
  case (Some i)
  from mem_register_old[OF assms Some, of clock name eff cap] assms show ?thesis by auto
next
  case None
  obtain r s' where reg: "mem_register uuid clock name p eff cap k s = (r, s')" by force
  note new = mem_register_new[OF assms None reg]
  have "\<exists>k<ms_drawn s'. i = uuid k" if "mem_get i s' = Some r'" for i r'
  proof (cases "i = tr_id r")
    case True
    then show ?thesis using new(1,7) by auto
  next
    case False
    with that new(5)[of i] have "mem_get i s = Some r'" by simp
    from mem_good_drawn[OF assms this] new(7) show ?thesis by (metis Suc_eq_plus1 less_SucI)
  qed
  moreover have "tr_id r' = i" if "mem_get i s' = Some r'" for i r'
    using that new(5)[of i] mem_good_id[OF assms] by (auto split: if_splits)
  moreover have "mem_get i s' \<noteq> None" if "map_of (ms_idem s') ik = Some i" for ik i
    using that new(5,6) assms by (auto simp: mem_good_def update_conv' split: if_splits)
  moreover have "ik = ik'" if "map_of (ms_idem s') ik = Some i" "map_of (ms_idem s') ik' = Some i" for ik ik' i
  proof -
    have "map_of (ms_idem s) x \<noteq> Some (tr_id r)" for x
      using assms new(2) unfolding mem_good_def by blast
    then show ?thesis
      using that new(6) assms by (auto simp: mem_good_def update_conv' split: if_splits)
  qed
  ultimately show ?thesis using assms by (simp add: reg mem_good_def)
qed

interpretation mem: task_store_laws "in_memory uuid clock" "mem_good uuid" mem_keyed
  for uuid clock
proof (unfold_locales, goal_cases)
  case (1 s name p eff cap k)
  then show ?case by (simp add: in_memory_def mem_register_good)
next
  case (2 s p k i name eff cap)
  then show ?case using mem_register_old[OF 2, of clock name eff cap] by (auto simp: in_memory_def)
next
  case (3 s p k name eff cap r s' j p' k' j')
  then have reg: "mem_register uuid clock name p eff cap k s = (r, s')" by (simp add: in_memory_def)
  note new = mem_register_new[OF 3(1,2) reg]
  from new(2,3,4) new(5)[of j] new(6) 3(2) show ?case
    by (auto simp: in_memory_def mem_keyed_def update_conv')
qed (auto simp: in_memory_def mem_set_status_def mem_assign_node_def mem_cancel_def Let_def
    dest: mem_good_id intro: mem_good_put split: option.splits)

end
