(* ===== verification/EffectMonitor.thy ===== *)
theory EffectMonitor
  imports Prelude
begin

section \<open>The effect monitor (control-plane/src/effect_monitor.rs)\<close>

text \<open>
  One monitor per session: the effect of its context, a counter of spawned children and its
  maximum. The counter is an atomic \<open>usize\<close> that wraps. The session manager keeps the monitors
  behind shared references, so a session is changed through its name; its hash map is a map.
\<close>

subsection \<open>One monitor\<close>

datatype EffectViolation =
    IoInPureContext ustr
  | SpawnLimitExceeded "64 word" "64 word"
  | EffectMismatch ustr ustr

record EffectMonitor =
  context_effect :: ustr
  child_count :: "64 word"
  max_children :: "64 word"

definition monitor_new :: EffectMonitor where
  "monitor_new = \<lparr>context_effect = lit ''pure'', child_count = 0, max_children = 64\<rparr>"

definition set_context :: "ustr \<Rightarrow> EffectMonitor \<Rightarrow> EffectMonitor" where
  "set_context e m = m\<lparr>context_effect := e\<rparr>"

definition set_max_children :: "64 word \<Rightarrow> EffectMonitor \<Rightarrow> EffectMonitor" where
  "set_max_children n m = m\<lparr>max_children := n\<rparr>"

text \<open>\<open>current + 1\<close> in the error is a checked addition; it is never at the largest value here.\<close>

definition check_spawn :: "EffectMonitor \<Rightarrow> (EffectViolation + unit) \<times> EffectMonitor" where
  "check_spawn m =
     (if context_effect m = lit ''pure'' then (Inl (IoInPureContext (lit ''spawn'')), m)
      else (let current = child_count m; m' = m\<lparr>child_count := current + 1\<rparr> in
        if max_children m \<le> current
        then (Inl (SpawnLimitExceeded (current + 1) (max_children m)), m')
        else (Inr (), m')))"

definition check_io :: "ustr \<Rightarrow> EffectMonitor \<Rightarrow> EffectViolation + unit" where
  "check_io operation m =
     (if context_effect m = lit ''pure'' then Inl (IoInPureContext operation) else Inr ())"

definition check_effect :: "ustr \<Rightarrow> EffectMonitor \<Rightarrow> EffectViolation + unit" where
  "check_effect required m =
     (let c = context_effect m in
      if required = lit ''pure'' then Inr ()
      else if required = lit ''io'' \<and> c = lit ''pure'' then Inl (EffectMismatch (lit ''io'') c)
      else if required = lit ''async'' \<and> (c = lit ''pure'' \<or> c = lit ''io'')
        then Inl (EffectMismatch (lit ''async'') c)
      else if required = lit ''spawn'' \<and> c \<noteq> lit ''spawn''
        then Inl (EffectMismatch (lit ''spawn'') c)
      else Inr ())"

definition release_child :: "EffectMonitor \<Rightarrow> EffectMonitor" where
  "release_child m = m\<lparr>child_count := child_count m - 1\<rparr>"

subsection \<open>Sessions\<close>

type_synonym sessions = "ustr \<rightharpoonup> EffectMonitor"

definition get_or_create :: "ustr \<Rightarrow> ustr \<Rightarrow> sessions \<Rightarrow> EffectMonitor \<times> sessions" where
  "get_or_create i effect ss =
     (case ss i of
        Some m \<Rightarrow> (m, ss)
      | None \<Rightarrow> (let m = set_context effect monitor_new in (m, ss(i \<mapsto> m))))"

definition remove_session :: "ustr \<Rightarrow> sessions \<Rightarrow> sessions" where
  "remove_session i ss = ss(i := None)"

subsection \<open>The quota of children\<close>

text \<open>
  A run of a monitor: attempts to spawn and the ends of the children that were started. \<open>active\<close>
  counts the children that run, \<open>rejected\<close> the attempts over the quota.
\<close>

datatype child_event = Attempt | Ends

fun run_monitor :: "child_event list \<Rightarrow> EffectMonitor \<Rightarrow> nat \<Rightarrow> nat \<Rightarrow> EffectMonitor \<times> nat \<times> nat" where
  "run_monitor [] m active rejected = (m, active, rejected)"
| "run_monitor (Attempt # es) m active rejected =
     (case check_spawn m of
        (Inr _, m') \<Rightarrow> run_monitor es m' (active + 1) rejected
      | (Inl _, m') \<Rightarrow> run_monitor es m' active (rejected + 1))"
| "run_monitor (Ends # es) m active rejected =
     (if active = 0 then run_monitor es m active rejected
      else run_monitor es (release_child m) (active - 1) rejected)"

lemma run_monitor_count:
  assumes "context_effect m \<noteq> lit ''pure''"
    and "unat (child_count m) = a + j" and "a + j + length es < 2 ^ 64"
    and "run_monitor es m a j = (m', a', j')"
  shows "unat (child_count m') = a' + j' \<and> j \<le> j' \<and> max_children m' = max_children m \<and>
    (a \<le> unat (max_children m) \<longrightarrow> a' \<le> unat (max_children m))"
  using assms
proof (induction es arbitrary: m a j)
  case (Cons e es)
  show ?case
  proof (cases e)
    case Attempt
    let ?m = "m\<lparr>child_count := child_count m + 1\<rparr>"
    have count: "unat (child_count m + 1) = a + j + 1"
      using Cons.prems(2,3) by (simp add: unat_word_ariths(1))
    show ?thesis
    proof (cases "max_children m \<le> child_count m")
      case True
      then have "run_monitor es ?m a (j + 1) = (m', a', j')"
        using Cons.prems(1,4) Attempt by (simp add: check_spawn_def Let_def)
      then show ?thesis using Cons.IH[of ?m a "j + 1"] Cons.prems count by simp
    next
      case False
      then have "run_monitor es ?m (a + 1) j = (m', a', j')"
        using Cons.prems(1,4) Attempt by (simp add: check_spawn_def Let_def)
      moreover have "a + 1 \<le> unat (max_children m)"
        using False Cons.prems(2) by (simp add: word_le_nat_alt)
      ultimately show ?thesis using Cons.IH[of ?m "a + 1" j] Cons.prems count by simp
    qed
  next
    case Ends
    show ?thesis
    proof (cases "a = 0")
      case True
      then show ?thesis using Cons.IH[of m a j] Cons.prems Ends by simp
    next
      case False
      then have "child_count m \<noteq> 0" using Cons.prems(2) by auto
      then have "unat (child_count m - 1) = a - 1 + j"
        using Cons.prems(2) False by (simp add: unat_minus_one)
      then show ?thesis
        using Cons.IH[of "release_child m" "a - 1" j] Cons.prems Ends False
        by (auto simp: release_child_def)
    qed
  qed
qed simp

text \<open>
  The counter of children counts the rejected attempts as well. In a context that may spawn,
  after any run, the number of running children is within the quota, but the counter is that
  number plus all attempts that were rejected; so once as many attempts were rejected as the
  quota allows, no child can be started any more, even when none is running.
\<close>

lemma spawn_quota_leaks:
  assumes "c \<noteq> lit ''pure''" and "length es < 2 ^ 64"
    and "run_monitor es (set_max_children q (set_context c monitor_new)) 0 0 = (m, active, rejected)"
  shows "active \<le> unat q \<and> unat (child_count m) = active + rejected \<and>
    (unat q \<le> rejected \<longrightarrow> (\<exists>e. fst (check_spawn m) = Inl e))"
proof -
  let ?m = "set_max_children q (set_context c monitor_new)"
  have m: "context_effect ?m = c" "child_count ?m = 0" "max_children ?m = q"
    by (simp_all add: set_max_children_def set_context_def monitor_new_def)
  have h: "unat (child_count m) = active + rejected" "max_children m = q" "active \<le> unat q"
    using run_monitor_count[of ?m 0 0 es m active rejected] assms m by auto
  moreover from this have "unat q \<le> rejected \<Longrightarrow> q \<le> child_count m" by (simp add: word_le_nat_alt)
  ultimately show ?thesis by (auto simp: check_spawn_def Let_def)
qed

theorem spawn_quota_leaks_witness:
  "\<exists>e. fst (check_spawn (fst (run_monitor [Attempt, Attempt, Ends]
     (set_max_children 1 (set_context (lit ''spawn'') monitor_new)) 0 0))) = Inl e"
proof -
  let ?m = "set_max_children 1 (set_context (lit ''spawn'') monitor_new)"
  have run: "run_monitor [Attempt, Attempt, Ends] ?m 0 0 = (?m\<lparr>child_count := 1\<rparr>, 0, 1)"
    by (simp add: check_spawn_def set_max_children_def set_context_def monitor_new_def release_child_def
        lit_def Let_def)
  show ?thesis using spawn_quota_leaks[OF _ _ run] unfolding run by (simp add: lit_def)
qed

end
