(* ===== verification/ControlPlane.thy ===== *)
theory ControlPlane
  imports SchedulerCorrect Registry EffectMonitor
begin

section \<open>The control plane service (control-plane/src/server.rs and dispatch.rs)\<close>

text \<open>
  The service joins the task store, the scheduler, the bus of events and the dispatch broker. A
  request is a sequence of steps, one for each lock it takes or call it awaits; \<open>submit_task\<close> and
  \<open>cancel_task\<close> run their steps without interruption, and \<open>served\<close> interleaves the steps
  of any number of requests. Bus and broker are the ones in memory, histories of what was sent.
\<close>

subsection \<open>Messages\<close>

record PbTaskSpec =
  pb_effect :: ustr
  pb_capability :: ustr
  pb_key :: ustr

record SubmitRequest =
  sr_name :: ustr
  sr_parent :: ustr
  sr_spec :: "PbTaskSpec option"

record PbTask =
  pt_id :: ustr
  pt_name :: ustr
  pt_parent :: ustr
  pt_spec :: PbTaskSpec
  pt_status :: int
  pt_node :: ustr
  pt_submitted :: i64

record DispatchTask =
  dt_task :: ustr
  dt_fn :: ustr
  dt_effect :: ustr
  dt_capability :: ustr
  dt_parent :: "ustr option"
  dt_args :: "ustr option"

text \<open>The values of the enumeration of \<open>proto/control.proto\<close>.\<close>

primrec task_status_to_proto :: "TaskStatus \<Rightarrow> int" where
  "task_status_to_proto Queued = 1"
| "task_status_to_proto Scheduled = 2"
| "task_status_to_proto Running = 3"
| "task_status_to_proto Succeeded = 4"
| "task_status_to_proto Failed = 5"
| "task_status_to_proto Canceled = 6"

definition task_to_proto :: "TaskRecord \<Rightarrow> ustr option \<Rightarrow> PbTask" where
  "task_to_proto r node =
     \<lparr>pt_id = tr_id r, pt_name = tr_name r,
      pt_parent = (case tr_parent r of Some p \<Rightarrow> p | None \<Rightarrow> []),
      pt_spec = \<lparr>pb_effect = tr_effect r, pb_capability = tr_capability r, pb_key = tr_key r\<rparr>,
      pt_status = task_status_to_proto (tr_status r),
      pt_node = (case node of Some n \<Rightarrow> n | None \<Rightarrow> (case tr_node r of Some n \<Rightarrow> n | None \<Rightarrow> [])),
      pt_submitted = tr_submitted r\<rparr>"

definition capability_subject :: "ustr \<Rightarrow> ustr" where
  "capability_subject cap = lit ''dalin.task.'' @ cap"

definition build_dispatch_task :: "ustr \<Rightarrow> ustr \<Rightarrow> ustr \<Rightarrow> ustr \<Rightarrow> ustr option \<Rightarrow> DispatchTask" where
  "build_dispatch_task i f eff cap parent =
     \<lparr>dt_task = i, dt_fn = f, dt_effect = eff, dt_capability = cap, dt_parent = parent, dt_args = None\<rparr>"

definition opt_ref :: "ustr \<Rightarrow> ustr option" where
  "opt_ref s = (if s = [] then None else Some s)"

definition req_effect :: "SubmitRequest \<Rightarrow> ustr" where
  "req_effect r = (case sr_spec r of Some s \<Rightarrow> pb_effect s | None \<Rightarrow> [])"

definition req_capability :: "SubmitRequest \<Rightarrow> ustr" where
  "req_capability r = (case sr_spec r of Some s \<Rightarrow> pb_capability s | None \<Rightarrow> [])"

definition req_key :: "SubmitRequest \<Rightarrow> ustr" where
  "req_key r = (case sr_spec r of Some s \<Rightarrow> pb_key s | None \<Rightarrow> [])"

subsection \<open>The steps of a submission\<close>

record 's cp =
  cp_store :: 's
  cp_sched :: sched
  cp_bus :: "TaskEvent list"
  cp_sent :: "DispatchTask list"

definition submit_check :: "SubmitRequest \<Rightarrow> EffectViolation + unit" where
  "submit_check r = check_effect (req_effect r) (set_context (lit ''spawn'') monitor_new)"

definition submit_place :: "nat \<Rightarrow> SubmitRequest \<Rightarrow> 's cp \<Rightarrow> ustr option \<times> 's cp" where
  "submit_place now r c =
     (case sch_cap_from_str (req_capability r) of
        None \<Rightarrow> (None, c)
      | Some cap \<Rightarrow> (case place now cap (cp_sched c) of
            (p, s) \<Rightarrow> (map_option pl_node p, c\<lparr>cp_sched := s\<rparr>)))"

definition submit_register :: "'s task_store \<Rightarrow> SubmitRequest \<Rightarrow> 's cp \<Rightarrow> TaskRecord \<times> 's cp" where
  "submit_register S r c =
     (case ts_register S (sr_name r) (opt_ref (sr_parent r)) (req_effect r) (req_capability r)
         (req_key r) (cp_store c) of
        (rec, s) \<Rightarrow> (rec, c\<lparr>cp_store := s\<rparr>))"

definition submit_assign :: "'s task_store \<Rightarrow> ustr \<Rightarrow> ustr \<Rightarrow> 's cp \<Rightarrow> 's cp" where
  "submit_assign S i n c = c\<lparr>cp_store := ts_assign_node S i n (cp_store c)\<rparr>"

definition submit_schedule :: "'s task_store \<Rightarrow> ustr \<Rightarrow> 's cp \<Rightarrow> 's cp" where
  "submit_schedule S i c = c\<lparr>cp_store := snd (ts_set_status S i Scheduled (cp_store c))\<rparr>"

definition submit_dispatch :: "SubmitRequest \<Rightarrow> TaskRecord \<Rightarrow> 's cp \<Rightarrow> 's cp" where
  "submit_dispatch r rec c = c\<lparr>cp_sent := cp_sent c @ [build_dispatch_task (tr_id rec) (sr_name r)
     (req_effect r) (req_capability r) (opt_ref (sr_parent r))]\<rparr>"

definition submit_publish :: "TaskRecord \<Rightarrow> 's cp \<Rightarrow> 's cp" where
  "submit_publish rec c = c\<lparr>cp_bus := cp_bus c @ [EvSubmitted rec]\<rparr>"

datatype cp_error = EffectRefused EffectViolation ustr ustr | TaskNotFound ustr

definition submit_task ::
  "'s task_store \<Rightarrow> nat \<Rightarrow> SubmitRequest \<Rightarrow> 's cp \<Rightarrow> (cp_error + PbTask) \<times> 's cp" where
  "submit_task S now r c =
     (case submit_check r of
        Inl v \<Rightarrow> (Inl (EffectRefused v (sr_name r) (req_effect r)), c)
      | Inr _ \<Rightarrow>
          (let (node, c1) = submit_place now r c;
             (rec, c2) = submit_register S r c1;
             c3 = (case node of
                 Some n \<Rightarrow> submit_schedule S (tr_id rec) (submit_assign S (tr_id rec) n c2)
               | None \<Rightarrow> c2)
           in (Inr (task_to_proto rec node), submit_publish rec (submit_dispatch r rec c3))))"

subsection \<open>The other requests\<close>

definition get_task :: "'s task_store \<Rightarrow> ustr \<Rightarrow> 's cp \<Rightarrow> cp_error + PbTask" where
  "get_task S i c =
     (case ts_get S i (cp_store c) of
        Some r \<Rightarrow> Inr (task_to_proto r (tr_node r))
      | None \<Rightarrow> Inl (TaskNotFound i))"

definition list_tasks :: "'s task_store \<Rightarrow> ustr \<Rightarrow> 's cp \<Rightarrow> PbTask list" where
  "list_tasks S parent c =
     map (\<lambda>r. task_to_proto r (tr_node r)) (ts_list S (opt_ref parent) (cp_store c))"

definition cancel_mark :: "'s task_store \<Rightarrow> ustr \<Rightarrow> 's cp \<Rightarrow> bool \<times> 's cp" where
  "cancel_mark S i c = (case ts_cancel S i (cp_store c) of (ok, s) \<Rightarrow> (ok, c\<lparr>cp_store := s\<rparr>))"

definition cancel_node :: "'s task_store \<Rightarrow> ustr \<Rightarrow> 's cp \<Rightarrow> ustr option" where
  "cancel_node S i c = Option.bind (ts_get S i (cp_store c)) tr_node"

definition cancel_release :: "ustr \<Rightarrow> 's cp \<Rightarrow> 's cp" where
  "cancel_release n c = c\<lparr>cp_sched := release n (cp_sched c)\<rparr>"

definition cancel_task :: "'s task_store \<Rightarrow> ustr \<Rightarrow> 's cp \<Rightarrow> bool \<times> 's cp" where
  "cancel_task S i c =
     (let (ok, c1) = cancel_mark S i c in
      (ok, if ok then (case cancel_node S i c1 of Some n \<Rightarrow> cancel_release n c1 | None \<Rightarrow> c1) else c1))"

text \<open>One event of a subscription of \<open>watch_tasks\<close>: the task sent, if the filter lets it pass.\<close>

definition watch_event :: "ustr \<Rightarrow> TaskEvent \<Rightarrow> PbTask option" where
  "watch_event parent ev =
     (case ev of
        EvSubmitted r \<Rightarrow>
          if parent = [] \<or> tr_parent r = Some parent then Some (task_to_proto r (tr_node r)) else None
      | EvStatusChanged r \<Rightarrow>
          if parent = [] \<or> tr_parent r = Some parent then Some (task_to_proto r (tr_node r)) else None
      | EvCanceled _ \<Rightarrow> None)"

subsection \<open>Interleaved requests\<close>

text \<open>
  A request between two of its steps. \<open>next_stage\<close> makes one step; a request that is done stays
  as it is.
\<close>

datatype stage =
    SubmitEntered SubmitRequest
  | SubmitPlaced SubmitRequest "ustr option"
  | SubmitRegistered SubmitRequest "ustr option" TaskRecord
  | SubmitAssigned SubmitRequest ustr TaskRecord
  | SubmitReady SubmitRequest "ustr option" TaskRecord
  | SubmitSent SubmitRequest "ustr option" TaskRecord
  | SubmitDone SubmitRequest "cp_error + PbTask"
  | CancelEntered ustr
  | CancelMarked ustr
  | CancelFound ustr ustr
  | CancelDone ustr bool

fun next_stage :: "'s task_store \<Rightarrow> nat \<Rightarrow> stage \<Rightarrow> 's cp \<Rightarrow> stage \<times> 's cp" where
  "next_stage S now (SubmitEntered r) c =
     (case submit_check r of
        Inl v \<Rightarrow> (SubmitDone r (Inl (EffectRefused v (sr_name r) (req_effect r))), c)
      | Inr _ \<Rightarrow> (case submit_place now r c of (node, c') \<Rightarrow> (SubmitPlaced r node, c')))"
| "next_stage S now (SubmitPlaced r node) c =
     (case submit_register S r c of (rec, c') \<Rightarrow> (SubmitRegistered r node rec, c'))"
| "next_stage S now (SubmitRegistered r node rec) c =
     (case node of
        Some n \<Rightarrow> (SubmitAssigned r n rec, submit_assign S (tr_id rec) n c)
      | None \<Rightarrow> (SubmitReady r None rec, c))"
| "next_stage S now (SubmitAssigned r n rec) c =
     (SubmitReady r (Some n) rec, submit_schedule S (tr_id rec) c)"
| "next_stage S now (SubmitReady r node rec) c = (SubmitSent r node rec, submit_dispatch r rec c)"
| "next_stage S now (SubmitSent r node rec) c =
     (SubmitDone r (Inr (task_to_proto rec node)), submit_publish rec c)"
| "next_stage S now (CancelEntered i) c =
     (case cancel_mark S i c of (ok, c') \<Rightarrow> (if ok then CancelMarked i else CancelDone i False, c'))"
| "next_stage S now (CancelMarked i) c =
     ((case cancel_node S i c of Some n \<Rightarrow> CancelFound i n | None \<Rightarrow> CancelDone i True), c)"
| "next_stage S now (CancelFound i n) c = (CancelDone i True, cancel_release n c)"
| "next_stage S now t c = (t, c)"

fun run_stages :: "'s task_store \<Rightarrow> nat \<Rightarrow> nat \<Rightarrow> stage \<Rightarrow> 's cp \<Rightarrow> stage \<times> 's cp" where
  "run_stages S now 0 t c = (t, c)"
| "run_stages S now (Suc k) t c = (case next_stage S now t c of (t', c') \<Rightarrow> run_stages S now k t' c')"

text \<open>Without interruption the steps are the handlers.\<close>

lemma run_done [simp]: "run_stages S now k (SubmitDone r x) c = (SubmitDone r x, c)"
  "run_stages S now k (CancelDone i ok) c = (CancelDone i ok, c)"
  by (induction k) simp_all

lemma submit_stages:
  "run_stages S now 6 (SubmitEntered r) c =
     (case submit_task S now r c of (x, c') \<Rightarrow> (SubmitDone r x, c'))"
  by (auto simp: submit_task_def eval_nat_numeral split: sum.split prod.split option.split)

lemma cancel_stages:
  "run_stages S now 3 (CancelEntered i) c =
     (case cancel_task S i c of (ok, c') \<Rightarrow> (CancelDone i ok, c'))"
  by (auto simp: cancel_task_def eval_nat_numeral split: prod.split option.split)

text \<open>Any number of requests, one step at a time, with reports of the nodes in between.\<close>

inductive served :: "'s task_store \<Rightarrow> stage list \<times> 's cp \<Rightarrow> stage list \<times> 's cp \<Rightarrow> bool" for S where
  submitted: "served S (ts, c) (ts @ [SubmitEntered r], c)"
| cancelled: "served S (ts, c) (ts @ [CancelEntered i], c)"
| advanced: "j < length ts \<Longrightarrow> next_stage S now (ts ! j) c = (t, c') \<Longrightarrow>
    served S (ts, c) (ts[j := t], c')"
| report_failed: "served S (ts, c) (ts, c\<lparr>cp_sched := mark_failure now n (cp_sched c)\<rparr>)"
| report_succeeded: "served S (ts, c) (ts, c\<lparr>cp_sched := mark_success n (cp_sched c)\<rparr>)"

end
