(* ===== verification/ControlPlaneCorrect.thy ===== *)
theory ControlPlaneCorrect
  imports ControlPlane
begin

section \<open>Submissions and cancellations of the control plane\<close>

text \<open>
  Idempotency of submissions under any interleaving, the agreement of the scheduler's loads with the
  tasks in the store when every key is submitted and every task cancelled once, and what
  happens otherwise: repeated submissions and cancellations change loads that no task accounts for.
\<close>

lemma submit_check_passes [simp]: "submit_check r = Inr ()"
  by (simp add: submit_check_def check_effect_def set_context_def monitor_new_def lit_def Let_def)

lemma cp_store_simps [simp]:
  "submit_place now r c = (node, c') \<Longrightarrow> cp_store c' = cp_store c"
  "cp_store (submit_dispatch r rec c) = cp_store c" "cp_store (submit_publish rec c) = cp_store c"
  "cp_store (cancel_release n c) = cp_store c"
  by (auto simp: submit_place_def submit_dispatch_def submit_publish_def cancel_release_def
      split: option.splits prod.splits)

lemma cp_sched_simps [simp]:
  "cp_sched (submit_dispatch r rec c) = cp_sched c" "cp_sched (submit_publish rec c) = cp_sched c"
  "cp_sched (submit_assign S i n c) = cp_sched c" "cp_sched (submit_schedule S i c) = cp_sched c"
  by (simp_all add: submit_dispatch_def submit_publish_def submit_assign_def submit_schedule_def)

subsection \<open>One identifier for each key\<close>

fun answered :: "stage \<Rightarrow> (SubmitRequest \<times> ustr) option" where
  "answered (SubmitRegistered r _ rec) = Some (r, tr_id rec)"
| "answered (SubmitAssigned r _ rec) = Some (r, tr_id rec)"
| "answered (SubmitReady r _ rec) = Some (r, tr_id rec)"
| "answered (SubmitSent r _ rec) = Some (r, tr_id rec)"
| "answered (SubmitDone r (Inr t)) = Some (r, pt_id t)"
| "answered _ = None"

lemma task_to_proto_id [simp]: "pt_id (task_to_proto r n) = tr_id r"
  by (simp add: task_to_proto_def)

context task_store_laws
begin

definition agreed :: "stage list \<times> 's cp \<Rightarrow> bool" where
  "agreed tc = (good (cp_store (snd tc)) \<and> (\<forall>t\<in>set (fst tc). \<forall>r i. answered t = Some (r, i) \<longrightarrow>
     keyed (cp_store (snd tc)) (opt_ref (sr_parent r)) (req_key r) = Some i))"

text \<open>A step keeps the store good, forgets no key, and answers with the identifier of the key.\<close>

lemma next_stage_agrees:
  assumes good: "good (cp_store c)" and step: "next_stage S now t c = (t', c')"
    and known: "\<forall>r i. answered t = Some (r, i) \<longrightarrow>
      keyed (cp_store c) (opt_ref (sr_parent r)) (req_key r) = Some i"
  shows "good (cp_store c') \<and>
    (\<forall>p k i. keyed (cp_store c) p k = Some i \<longrightarrow> keyed (cp_store c') p k = Some i) \<and>
    (\<forall>r i. answered t' = Some (r, i) \<longrightarrow>
      keyed (cp_store c') (opt_ref (sr_parent r)) (req_key r) = Some i)"
proof (cases t)
  case (SubmitPlaced r node)
  obtain rec s where reg: "ts_register S (sr_name r) (opt_ref (sr_parent r)) (req_effect r)
      (req_capability r) (req_key r) (cp_store c) = (rec, s)" by force
  then have t': "t' = SubmitRegistered r node rec" "cp_store c' = s"
    using step SubmitPlaced by (auto simp: submit_register_def)
  have "good s" using register_good[OF good] reg by (metis snd_conv)
  moreover have "keyed s p k = Some i" if "keyed (cp_store c) p k = Some i" for p k i
  proof (cases "keyed (cp_store c) (opt_ref (sr_parent r)) (req_key r)")
    case None
    from register_new[OF good None reg] that show ?thesis by blast
  next
    case (Some j)
    from register_old[OF good Some] reg that show ?thesis by (metis snd_conv)
  qed
  ultimately show ?thesis using register_keyed(1)[OF good reg] t' by auto
next
  case (SubmitRegistered r node rec)
  then show ?thesis
    using step known good assign_good assign_keyed by (cases node) (auto simp: submit_assign_def)
next
  case (SubmitAssigned r n rec)
  then show ?thesis
    using step known good set_status_good set_status_keyed by (auto simp: submit_schedule_def)
next
  case (CancelEntered i)
  then show ?thesis
    using step good cancel_good cancel_keyed
    by (auto simp: cancel_mark_def split: prod.splits if_splits) (metis snd_conv)+
next
  case (SubmitDone r x)
  then show ?thesis using step good known by (cases x) auto
qed (use step good known in \<open>auto split: option.splits prod.splits\<close>)

lemma served_agreed:
  assumes "served S tc tc'" and "agreed tc"
  shows "agreed tc'"
  using assms
proof (cases rule: served.cases)
  case (advanced j ts now c t c')
  then have t: "ts ! j \<in> set ts" by simp
  then show ?thesis
    using next_stage_agrees[OF _ advanced(4)] advanced(1,2) assms(2)
    by (auto simp: agreed_def dest!: set_update_subset_insert[THEN subsetD])
qed (auto simp: agreed_def)

lemma served_run_agreed: "(served S)\<^sup>*\<^sup>* tc tc' \<Longrightarrow> agreed tc \<Longrightarrow> agreed tc'"
  by (induction rule: rtranclp_induct) (auto intro: served_agreed)

end

text \<open>
  C26: Over the store in memory, submissions are idempotent under every interleaving. Whatever requests
  are served at the same time, step by step in any order, two finished submissions return the same task
  exactly when their parent and idempotency key give the same key text.
\<close>

theorem idempotent_submissions:
  assumes "inj uuid" and "cp_store c\<^sub>0 = mem_new"
    and "(served (in_memory uuid clock))\<^sup>*\<^sup>* ([], c\<^sub>0) (ts, c)"
    and "SubmitDone r (Inr t) \<in> set ts" and "SubmitDone r' (Inr t') \<in> set ts"
  shows "pt_id t = pt_id t' \<longleftrightarrow>
    idem_key (opt_ref (sr_parent r)) (req_key r) = idem_key (opt_ref (sr_parent r')) (req_key r')"
proof -
  have "mem.agreed uuid ([], c\<^sub>0)" using assms(1,2) by (simp add: mem.agreed_def mem_good_new)
  with assms(3) have agreed: "mem.agreed uuid (ts, c)" by (rule mem.served_run_agreed)
  have "mem_good uuid (cp_store c)"
    "mem_keyed (cp_store c) (opt_ref (sr_parent r)) (req_key r) = Some (pt_id t)"
    "mem_keyed (cp_store c) (opt_ref (sr_parent r')) (req_key r') = Some (pt_id t')"
    using agreed assms(4,5) by (auto simp: mem.agreed_def)
  then show ?thesis using mem_keyed_inj by (auto simp: mem_keyed_def)
qed

text \<open>Every request can be completed, whatever else is being served.\<close>

lemma served_step: "j < length ts \<Longrightarrow> next_stage S now (ts ! j) c = (t, c') \<Longrightarrow>
   (served S)\<^sup>*\<^sup>* (ts[j := t], c') d \<Longrightarrow> (served S)\<^sup>*\<^sup>* (ts, c) d"
  by (meson advanced converse_rtranclp_into_rtranclp)

lemma run_served:
  "j < length ts \<Longrightarrow> run_stages S now k (ts ! j) c = (t, c') \<Longrightarrow>
   (served S)\<^sup>*\<^sup>* (ts, c) (ts[j := t], c')"
proof (induction k arbitrary: ts c)
  case (Suc k)
  obtain t1 c1 where step: "next_stage S now (ts ! j) c = (t1, c1)" by force
  with Suc.prems have "run_stages S now k (ts[j := t1] ! j) c1 = (t, c')" by simp
  from Suc.IH[OF _ this] Suc.prems(1) show ?case
    by (auto intro: served_step[OF Suc.prems(1) step])
qed (auto simp: list_update_id)

lemma submit_served: "\<exists>t c'. (served S)\<^sup>*\<^sup>* (ts, c) (ts @ [SubmitDone r (Inr t)], c')"
proof -
  obtain node c1 rec c2 where "submit_place 0 r c = (node, c1)" "submit_register S r c1 = (rec, c2)"
    by (metis surj_pair)
  then obtain t c' where "submit_task S 0 r c = (Inr t, c')" by (simp add: submit_task_def)
  then have "run_stages S 0 6 ((ts @ [SubmitEntered r]) ! length ts) c = (SubmitDone r (Inr t), c')"
    using submit_stages[of S 0 r c] by simp
  from run_served[OF _ this] have "(served S)\<^sup>*\<^sup>* (ts @ [SubmitEntered r], c) (ts @ [SubmitDone r (Inr t)], c')"
    by simp
  with submitted[of S ts c r] show ?thesis by (metis converse_rtranclp_into_rtranclp)
qed

definition spec_request :: "string \<Rightarrow> string \<Rightarrow> SubmitRequest" where
  "spec_request parent k = \<lparr>sr_name = lit ''f'', sr_parent = lit parent, sr_spec =
     Some \<lparr>pb_effect = lit ''io'', pb_capability = lit ''cpu'', pb_key = lit k\<rparr>\<rparr>"

definition idle_cp :: "mem_store cp" where
  "idle_cp = \<lparr>cp_store = mem_new, cp_sched = sched_new [with_quota (node_new (lit ''n'') {Cpu}) 4],
     cp_bus = [], cp_sent = []\<rparr>"

text \<open>Different parents and keys may be the same key text: a/b with c, and a with b/c.\<close>

theorem idempotent_submissions_witness:
  "\<exists>ts c t t'. (served (in_memory (\<lambda>k. [k]) (\<lambda>_. 0)))\<^sup>*\<^sup>* ([], idle_cp) (ts, c) \<and>
     SubmitDone (spec_request ''a/b'' ''c'') (Inr t) \<in> set ts \<and>
     SubmitDone (spec_request ''a'' ''b/c'') (Inr t') \<in> set ts \<and> pt_id t = pt_id t'"
proof -
  let ?S = "in_memory (\<lambda>k. [k]) (\<lambda>_. 0)" and ?r = "spec_request ''a/b'' ''c''"
    and ?r' = "spec_request ''a'' ''b/c''"
  obtain t c where t: "(served ?S)\<^sup>*\<^sup>* ([], idle_cp) ([SubmitDone ?r (Inr t)], c)"
    using submit_served[of ?S "[]" idle_cp ?r] by auto
  obtain t' c' where "(served ?S)\<^sup>*\<^sup>* ([SubmitDone ?r (Inr t)], c)
      ([SubmitDone ?r (Inr t), SubmitDone ?r' (Inr t')], c')"
    using submit_served[of ?S "[SubmitDone ?r (Inr t)]" c ?r'] by auto
  with t have run: "(served ?S)\<^sup>*\<^sup>* ([], idle_cp) ([SubmitDone ?r (Inr t), SubmitDone ?r' (Inr t')], c')"
    by (rule rtranclp_trans)
  have "pt_id t = pt_id t'"
    using idempotent_submissions[OF _ _ run, of ?r t ?r' t']
    by (simp add: inj_def idle_cp_def spec_request_def idem_key_def opt_ref_def req_key_def lit_def)
  with run show ?thesis
    by (intro exI[of _ "[SubmitDone ?r (Inr t), SubmitDone ?r' (Inr t')]"] exI[of _ c'] exI[of _ t] exI[of _ t']) simp
qed

subsection \<open>Loads and live tasks\<close>

definition live_on :: "'s task_store \<Rightarrow> 's \<Rightarrow> ustr \<Rightarrow> ustr set" where
  "live_on S st n =
     {i. \<exists>r. ts_get S i st = Some r \<and> tr_node r = Some n \<and> tr_status r \<noteq> Canceled}"

text \<open>Whole requests: each key is submitted once, and a task is cancelled at most once.\<close>

inductive fair_step ::
  "'s task_store \<Rightarrow> ('s \<Rightarrow> ustr option \<Rightarrow> ustr \<Rightarrow> ustr option) \<Rightarrow> 's cp \<Rightarrow> 's cp \<Rightarrow> bool"
  for S keyed where
  fair_submit: "keyed (cp_store c) (opt_ref (sr_parent r)) (req_key r) = None \<Longrightarrow>
    submit_task S now r c = (x, c') \<Longrightarrow> fair_step S keyed c c'"
| fair_cancel: "ts_get S i (cp_store c) = Some r \<Longrightarrow> tr_status r \<noteq> Canceled \<Longrightarrow>
    cancel_task S i c = (ok, c') \<Longrightarrow> fair_step S keyed c c'"
| fair_failed: "fair_step S keyed c (c\<lparr>cp_sched := mark_failure now n (cp_sched c)\<rparr>)"
| fair_succeeded: "fair_step S keyed c (c\<lparr>cp_sched := mark_success n (cp_sched c)\<rparr>)"

context task_store_laws
begin

definition slots_ok :: "'s cp \<Rightarrow> bool" where
  "slots_ok c = (good (cp_store c) \<and> (\<forall>n. finite (live_on S (cp_store c) n)) \<and>
     held_ok (cp_sched c, \<lambda>n. card (live_on S (cp_store c) n)))"

text \<open>The state of the store after a submission of a new key.\<close>

lemma submit_new:
  assumes good: "good (cp_store c)"
    and new: "keyed (cp_store c) (opt_ref (sr_parent r)) (req_key r) = None"
    and place: "submit_place now r c = (node, c1)" and submit: "submit_task S now r c = (x, c')"
  shows "\<exists>i. ts_get S i (cp_store c) = None \<and> good (cp_store c') \<and> cp_sched c' = cp_sched c1 \<and>
    (\<forall>j. ts_get S j (cp_store c') =
      (if j = i then Some (the (ts_get S i (cp_store c'))) else ts_get S j (cp_store c))) \<and>
    tr_node (the (ts_get S i (cp_store c'))) = node \<and>
    tr_status (the (ts_get S i (cp_store c'))) \<noteq> Canceled"
proof -
  have st: "cp_store c1 = cp_store c" using place by simp
  obtain rec s where reg: "ts_register S (sr_name r) (opt_ref (sr_parent r)) (req_effect r)
      (req_capability r) (req_key r) (cp_store c) = (rec, s)" by force
  have "good s" using register_good[OF good] reg by (metis snd_conv)
  moreover have "ts_get S (tr_id rec) (cp_store c) = None" "tr_status rec = Queued" "tr_node rec = None"
    and get: "ts_get S j s = (if j = tr_id rec then Some rec else ts_get S j (cp_store c))" for j
    using register_new[OF good new reg, of j] by auto
  moreover from \<open>good s\<close> have "good (ts_assign_node S (tr_id rec) n s)" for n by (rule assign_good)
  moreover have "(node, c1) = submit_place now r c" using place by simp
  ultimately show ?thesis
    using submit reg st
    by (intro exI[of _ "tr_id rec"], cases node)
      (auto simp: submit_task_def place submit_register_def submit_assign_def submit_schedule_def
        set_status_good set_status_get assign_get get submit_dispatch_def submit_publish_def)
qed

lemma live_submit:
  assumes "ts_get S i s = None"
    and "\<forall>j. ts_get S j s' = (if j = i then Some rec else ts_get S j s)"
    and "tr_status rec \<noteq> Canceled"
  shows "i \<notin> live_on S s n"
    and "live_on S s' n = (if tr_node rec = Some n then insert i (live_on S s n) else live_on S s n)"
  using assms by (auto simp: live_on_def)

lemma slots_submit:
  assumes ok: "slots_ok c" and new: "keyed (cp_store c) (opt_ref (sr_parent r)) (req_key r) = None"
    and submit: "submit_task S now r c = (x, c')"
  shows "slots_ok c'"
proof -
  let ?h = "\<lambda>n. card (live_on S (cp_store c) n)"
  have good: "good (cp_store c)" and fin: "\<And>n. finite (live_on S (cp_store c) n)"
    and held: "held_ok (cp_sched c, ?h)" using ok by (auto simp: slots_ok_def)
  obtain node c1 where place: "submit_place now r c = (node, c1)" by force
  from submit_new[OF good new place submit] obtain i rec where i: "ts_get S i (cp_store c) = None"
    "good (cp_store c')" "cp_sched c' = cp_sched c1"
    "\<forall>j. ts_get S j (cp_store c') = (if j = i then Some rec else ts_get S j (cp_store c))"
    "tr_node rec = node" "tr_status rec \<noteq> Canceled" by blast
  note live = live_submit[OF i(1,4,6)]
  have "held_ok (cp_sched c1, case node of Some n \<Rightarrow> ?h(n := ?h n + 1) | None \<Rightarrow> ?h)"
  proof (cases "sch_cap_from_str (req_capability r)")
    case None
    then show ?thesis using place held by (auto simp: submit_place_def)
  next
    case (Some q)
    then obtain p s where p: "place now q (cp_sched c) = (p, s)" "node = map_option pl_node p" "cp_sched c1 = s"
      using place by (auto simp: submit_place_def split: prod.splits)
    show ?thesis
    proof (cases p)
      case None
      then show ?thesis using held_step[OF refused held] p by simp
    next
      case (Some pl)
      then show ?thesis using held_step[OF placed held] p by simp
    qed
  qed
  moreover have "(case node of Some n \<Rightarrow> ?h(n := ?h n + 1) | None \<Rightarrow> ?h) =
      (\<lambda>n. card (live_on S (cp_store c') n))"
    using live fin i(5) by (cases node) (auto simp: fun_eq_iff)
  ultimately show ?thesis
    using i(2,3) fin by (auto simp: slots_ok_def live)
qed

lemma slots_cancel:
  assumes ok: "slots_ok c" and r: "ts_get S i (cp_store c) = Some r" "tr_status r \<noteq> Canceled"
    and cancel: "cancel_task S i c = (x, c')"
  shows "slots_ok c'"
proof -
  let ?h = "\<lambda>n. card (live_on S (cp_store c) n)" and ?s = "snd (ts_cancel S i (cp_store c))"
  have good: "good (cp_store c)" and fin: "\<And>n. finite (live_on S (cp_store c) n)"
    and held: "held_ok (cp_sched c, ?h)" using ok by (auto simp: slots_ok_def)
  have final: "cp_store c' = ?s"
    "cp_sched c' = (case tr_node r of Some n \<Rightarrow> release n (cp_sched c) | None \<Rightarrow> cp_sched c)"
    using cancel cancel_result[OF good, of i] cancel_get[OF good, of i i] r
    by (auto simp: cancel_task_def cancel_mark_def cancel_node_def cancel_release_def Let_def
        split: prod.splits option.splits if_splits)
  have live: "live_on S ?s n = live_on S (cp_store c) n - {i}" for n
    using cancel_get[OF good] by (auto simp: live_on_def split: if_splits)
  have mine: "i \<in> live_on S (cp_store c) n \<longleftrightarrow> tr_node r = Some n" for n
    using r by (auto simp: live_on_def)
  have "held_ok (cp_sched c', \<lambda>n. card (live_on S ?s n))"
  proof (cases "tr_node r")
    case None
    then show ?thesis using held mine final(2) by (simp add: live)
  next
    case (Some n)
    then have "0 < ?h n" using fin mine by (auto simp: card_gt_0_iff)
    moreover have "?h(n := ?h n - 1) = (\<lambda>n. card (live_on S ?s n))"
      using Some mine fin by (auto simp: live fun_eq_iff card_Diff_singleton)
    ultimately show ?thesis using held_step[OF released held, of n] final(2) Some by simp
  qed
  then show ?thesis using final fin cancel_good[OF good] by (simp add: slots_ok_def live)
qed

lemma slots_step: "fair_step S keyed c c' \<Longrightarrow> slots_ok c \<Longrightarrow> slots_ok c'"
proof (induction rule: fair_step.induct)
  case (fair_submit c r now x c')
  then show ?case by (rule slots_submit[rotated 1])
next
  case (fair_cancel i c r ok c')
  then show ?case by (rule slots_cancel[rotated 1])
qed (auto simp: slots_ok_def intro: held_step[OF failed] held_step[OF succeeded])

lemma slots_run: "(fair_step S keyed)\<^sup>*\<^sup>* c c' \<Longrightarrow> slots_ok c \<Longrightarrow> slots_ok c'"
  by (induction rule: rtranclp_induct) (auto intro: slots_step)

end

text \<open>
  C27: The loads are the live tasks as long as submissions and cancellations run one after the other,
  each as a whole handler. From idle nodes and an empty store in memory, while every key is submitted
  once and every task cancelled at most once, with any reports of the nodes in between, the load
  of each node with a quota is the number of its tasks that are not cancelled, and within the quota.
  The step relation \<open>fair_step\<close> has no steps inside a handler: a cancellation that is served between
  the stages of the submission of the same task breaks the equation.
\<close>

theorem loads_are_live_tasks:
  assumes "inj uuid" and "cp_store c\<^sub>0 = mem_new" and "cp_sched c\<^sub>0 = sched_new ns"
    and "distinct (map node_id ns)" and "\<forall>n\<in>set ns. node_load n = 0"
    and "(fair_step (in_memory uuid clock) mem_keyed)\<^sup>*\<^sup>* c\<^sub>0 c"
    and "n \<in> set (cp_sched c)" and "rt_quota n = Some q"
  shows "rt_load n \<le> q \<and>
    unat (rt_load n) = card (live_on (in_memory uuid clock) (cp_store c) (rt_id n))"
proof -
  have "live_on (in_memory uuid clock) mem_new = (\<lambda>_. {})"
    by (simp add: live_on_def in_memory_def mem_get_def mem_new_def fun_eq_iff)
  then have "mem.slots_ok uuid clock c\<^sub>0"
    using assms(1-5)
    by (auto simp: mem.slots_ok_def mem_good_new held_ok_def sched_new_def runtime_of_def comp_def)
  with assms(6) have "mem.slots_ok uuid clock c" by (rule mem.slots_run)
  then show ?thesis using assms(7,8) by (auto simp: mem.slots_ok_def held_ok_def)
qed

subsection \<open>Requests made twice or at the same time\<close>

context task_store_laws
begin

lemma submit_old:
  assumes good: "good (cp_store c)"
    and old: "keyed (cp_store c) (opt_ref (sr_parent r)) (req_key r) = Some i"
    and place: "submit_place now r c = (node, c1)"
  shows "\<exists>t c' rec. submit_task S now r c = (Inr t, c') \<and> pt_id t = i \<and> cp_sched c' = cp_sched c1 \<and>
    ts_get S i (cp_store c) = Some rec \<and> ts_get S i (cp_store c') = Some (case node of
      Some n \<Rightarrow> rec\<lparr>tr_node := Some n, tr_status := Scheduled\<rparr> | None \<Rightarrow> rec)"
proof -
  have st: "cp_store c1 = cp_store c" using place by simp
  obtain rec where reg: "ts_register S (sr_name r) (opt_ref (sr_parent r)) (req_effect r)
      (req_capability r) (req_key r) (cp_store c) = (rec, cp_store c)"
    and rec: "ts_get S i (cp_store c) = Some rec" "tr_id rec = i"
    using register_old[OF good old, of "sr_name r" "req_effect r" "req_capability r"]
    by (metis prod.collapse)
  have "good (ts_assign_node S i n (cp_store c))" for n using good by (rule assign_good)
  then show ?thesis
    using reg rec good
    by (cases node) (simp_all add: submit_task_def place st submit_register_def submit_assign_def
        submit_schedule_def set_status_get assign_get submit_dispatch_def submit_publish_def)
qed

lemma cancel_once:
  assumes good: "good (cp_store c)" and r: "ts_get S i (cp_store c) = Some r" "tr_node r = Some n"
  shows "\<exists>c'. cancel_task S i c = (True, c') \<and> good (cp_store c') \<and>
    ts_get S i (cp_store c') = Some (r\<lparr>tr_status := Canceled\<rparr>) \<and> cp_sched c' = release n (cp_sched c)"
proof -
  obtain s where "ts_cancel S i (cp_store c) = (True, s)"
    using cancel_result[OF good, of i] r by (cases "ts_cancel S i (cp_store c)") auto
  moreover from this have "good s" "ts_get S i s = Some (r\<lparr>tr_status := Canceled\<rparr>)"
    using cancel_good[OF good, of i] cancel_get[OF good, of i i] r by auto
  ultimately show ?thesis
    using r by (auto simp: cancel_task_def cancel_mark_def cancel_node_def cancel_release_def Let_def)
qed

lemma cancel_many:
  assumes "good (cp_store c)" and "ts_get S i (cp_store c) = Some r" and "tr_node r = Some n"
  shows "cp_sched (((\<lambda>c. snd (cancel_task S i c)) ^^ k) c) = (release n ^^ k) (cp_sched c)"
  using assms
proof (induction k arbitrary: c r)
  case (Suc k)
  obtain c' where "cancel_task S i c = (True, c')" "good (cp_store c')"
      "ts_get S i (cp_store c') = Some (r\<lparr>tr_status := Canceled\<rparr>)" "cp_sched c' = release n (cp_sched c)"
    using cancel_once[OF Suc.prems] by blast
  with Suc.IH[of c' "r\<lparr>tr_status := Canceled\<rparr>"] Suc.prems(3) show ?case
    by (simp add: funpow_Suc_right del: funpow.simps)
qed simp

text \<open>
  A cancellation between the registration of a task and the assignment of its node: the cancellation
  finds no node to release, and the submission overwrites the status.
\<close>

lemma cancel_lost:
  assumes good: "good (cp_store c)"
    and new: "keyed (cp_store c) (opt_ref (sr_parent r)) (req_key r) = None"
    and place: "submit_place 0 r c = (Some n, c1)"
  shows "\<exists>t c' rec. (served S)\<^sup>*\<^sup>* (ts, c) (ts @ [SubmitDone r (Inr t), CancelDone (pt_id t) True], c') \<and>
    ts_get S (pt_id t) (cp_store c') = Some rec \<and> tr_status rec = Scheduled \<and>
    tr_node rec = Some n \<and> cp_sched c' = cp_sched c1"
proof -
  let ?j = "length ts"
  have st: "cp_store c1 = cp_store c" using place by simp
  obtain rec s where reg: "ts_register S (sr_name r) (opt_ref (sr_parent r)) (req_effect r)
      (req_capability r) (req_key r) (cp_store c) = (rec, s)" by force
  let ?i = "tr_id rec" and ?c2 = "c1\<lparr>cp_store := s\<rparr>"
  have s: "good s" "ts_get S ?i s = Some rec" "tr_node rec = None"
    using register_good[OF good] register_new[OF good new reg, of ?i] reg by (metis snd_conv)+
  obtain s3 where s3: "ts_cancel S ?i s = (True, s3)" "good s3"
      "ts_get S ?i s3 = Some (rec\<lparr>tr_status := Canceled\<rparr>)"
    using cancel_result[OF s(1), of ?i] cancel_good[OF s(1), of ?i] cancel_get[OF s(1), of ?i ?i] s(2)
    by (cases "ts_cancel S ?i s") auto
  let ?c3 = "c1\<lparr>cp_store := s3\<rparr>"
  let ?c4 = "submit_publish rec (submit_dispatch r rec (submit_schedule S ?i (submit_assign S ?i n ?c3)))"
  let ?t = "task_to_proto rec (Some n)"
  have "(served S)\<^sup>*\<^sup>* (ts, c) (ts @ [SubmitEntered r], c)" by (intro r_into_rtranclp submitted)
  also have "(served S)\<^sup>*\<^sup>* \<dots> (ts @ [SubmitRegistered r (Some n) rec], ?c2)"
    using run_served[of ?j "ts @ [SubmitEntered r]" S 0 2 c] place reg st
    by (simp add: eval_nat_numeral submit_register_def)
  also have "(served S)\<^sup>*\<^sup>* \<dots> (ts @ [SubmitRegistered r (Some n) rec, CancelEntered ?i], ?c2)"
    using cancelled[of S "ts @ [SubmitRegistered r (Some n) rec]" ?c2 ?i] by simp
  also have "(served S)\<^sup>*\<^sup>* \<dots> (ts @ [SubmitRegistered r (Some n) rec, CancelDone ?i True], ?c3)"
    using run_served[of "Suc ?j" "ts @ [SubmitRegistered r (Some n) rec, CancelEntered ?i]" S 0 2 ?c2] s3 s(3)
    by (simp add: eval_nat_numeral cancel_mark_def cancel_node_def nth_append list_update_append)
  also have "(served S)\<^sup>*\<^sup>* \<dots> (ts @ [SubmitDone r (Inr ?t), CancelDone ?i True], ?c4)"
    using run_served[of ?j "ts @ [SubmitRegistered r (Some n) rec, CancelDone ?i True]" S 0 4 ?c3]
    by (simp add: eval_nat_numeral)
  finally have "(served S)\<^sup>*\<^sup>* (ts, c) (ts @ [SubmitDone r (Inr ?t), CancelDone ?i True], ?c4)" .
  moreover have "good (ts_assign_node S ?i n s3)" using s3(2) by (rule assign_good)
  then have "ts_get S ?i (cp_store ?c4) = Some (rec\<lparr>tr_status := Scheduled, tr_node := Some n\<rparr>)"
    using s3 by (simp add: submit_schedule_def submit_assign_def set_status_get assign_get)
  ultimately show ?thesis
    by (intro exI[of _ ?t] exI[of _ ?c4] exI[of _ "rec\<lparr>tr_status := Scheduled, tr_node := Some n\<rparr>"]) simp
qed

end

text \<open>One task with a node, registered under a key.\<close>

definition one_task :: "TaskRecord" where
  "one_task = \<lparr>tr_id = [0], tr_name = lit ''f'', tr_parent = None, tr_effect = lit ''io'',
     tr_capability = lit ''cpu'', tr_key = lit ''k'', tr_status = Canceled, tr_node = Some (lit ''n''),
     tr_submitted = 0\<rparr>"

definition one_task_cp :: "mem_store cp" where
  "one_task_cp = idle_cp\<lparr>cp_store := \<lparr>ms_tasks = [([0], one_task)],
     ms_idem = [(idem_key None (lit ''k''), [0])], ms_events = [], ms_drawn = 1\<rparr>\<rparr>"

text \<open>The only node is free.\<close>

definition busy :: sched where
  "busy = (cp_sched idle_cp)[0 := (cp_sched idle_cp ! 0)\<lparr>rt_load := 1\<rparr>]"

lemma busy_load: "map rt_load busy = [1]"
  by (simp add: busy_def idle_cp_def sched_new_def)

lemma idle_place: "place 0 Cpu (cp_sched idle_cp) = (Some \<lparr>pl_node = lit ''n'', pl_cap = Cpu\<rparr>, busy)"
  by (simp add: idle_cp_def busy_def sched_new_def runtime_of_def with_quota_def node_new_def place_def
      covers_def sch_cap_leq_def breaker_new_def breaker_allow_def quota_reached_def)

lemma spec_request_simps [simp]:
  "sch_cap_from_str (req_capability (spec_request p k)) = Some Cpu"
  "lit [] = []" "req_key (spec_request p k) = lit k" "sr_parent (spec_request p k) = lit p"
  by (simp_all add: spec_request_def req_capability_def req_key_def sch_cap_from_str_def, simp add: lit_def)

lemma spec_place:
  "cp_sched c = cp_sched idle_cp \<Longrightarrow>
   submit_place 0 (spec_request p k) c = (Some (lit ''n''), c\<lparr>cp_sched := busy\<rparr>)"
  by (simp add: submit_place_def idle_place)

lemma one_task_good: "mem_good (\<lambda>k. [k]) (cp_store one_task_cp)"
  by (auto simp: mem_good_def one_task_cp_def one_task_def mem_get_def inj_def)

lemma one_task_get [simp]: "mem_get [0] (cp_store one_task_cp) = Some one_task"
  by (simp add: one_task_cp_def mem_get_def)

lemma one_task_keyed [simp]: "mem_keyed (cp_store one_task_cp) None (lit ''k'') = Some [0]"
  by (simp add: one_task_cp_def mem_keyed_def)

lemma in_memory_get [simp]: "ts_get (in_memory uuid clock) = mem_get"
  by (simp add: in_memory_def)

text \<open>
  A submission with a known key is not free. It returns the old task, yet the scheduler has
  placed it once more, and the store's record now names the new node and is scheduled again, whatever
  its status was (a cancelled or finished task included); without a node nothing changes.
\<close>

theorem resubmission_places_again:
  assumes "mem_good uuid (cp_store c)"
    and "mem_keyed (cp_store c) (opt_ref (sr_parent r)) (req_key r) = Some i"
    and "submit_place now r c = (node, c\<^sub>1)"
  shows "\<exists>t c' rec. submit_task (in_memory uuid clock) now r c = (Inr t, c') \<and> pt_id t = i \<and>
    cp_sched c' = cp_sched c\<^sub>1 \<and> mem_get i (cp_store c) = Some rec \<and>
    mem_get i (cp_store c') = Some (case node of
      Some n \<Rightarrow> rec\<lparr>tr_node := Some n, tr_status := Scheduled\<rparr> | None \<Rightarrow> rec)"
  using mem.submit_old[OF assms, where clock = clock] by simp

text \<open>A cancelled task is scheduled again, and the load of the node grows.\<close>

theorem resubmission_places_again_witness:
  "\<exists>t c' rec. submit_task (in_memory (\<lambda>k. [k]) (\<lambda>_. 0)) 0 (spec_request '''' ''k'') one_task_cp = (Inr t, c') \<and>
     mem_get [0] (cp_store one_task_cp) = Some one_task \<and> tr_status one_task = Canceled \<and>
     mem_get [0] (cp_store c') = Some rec \<and> tr_status rec = Scheduled \<and> map rt_load (cp_sched c') = [1]"
proof -
  have "submit_place 0 (spec_request '''' ''k'') one_task_cp = (Some (lit ''n''), one_task_cp\<lparr>cp_sched := busy\<rparr>)"
    by (simp add: spec_place one_task_cp_def)
  from resubmission_places_again[OF one_task_good _ this, of "[0]" "\<lambda>_. 0"]
  obtain t c' rec where c': "submit_task (in_memory (\<lambda>k. [k]) (\<lambda>_. 0)) 0 (spec_request '''' ''k'') one_task_cp = (Inr t, c')"
      "cp_sched c' = busy" "mem_get [0] (cp_store c') = Some (rec\<lparr>tr_node := Some (lit ''n''), tr_status := Scheduled\<rparr>)"
    by (auto simp: opt_ref_def)
  show ?thesis
    by (intro exI conjI, rule c'(1), rule one_task_get, simp add: one_task_def, rule c'(3))
      (simp_all add: c'(2) busy_load)
qed

text \<open>
  A cancellation is not idempotent. Each time a task that was given a node is cancelled, the
  node's slot is released again: k cancellations release k slots.
\<close>

theorem repeated_cancel_releases:
  assumes "mem_good uuid (cp_store c)" and "mem_get i (cp_store c) = Some r" and "tr_node r = Some n"
  shows "cp_sched (((\<lambda>c. snd (cancel_task (in_memory uuid clock) i c)) ^^ k) c) =
    (release n ^^ k) (cp_sched c)"
  using assms by (intro mem.cancel_many[where uuid = uuid]) simp_all

lemma one_task_released: "map rt_load ((release (lit ''n'') ^^ 2) (cp_sched one_task_cp)) = [-2]"
  by (simp add: one_task_cp_def idle_cp_def sched_new_def runtime_of_def with_quota_def node_new_def
      release_def numeral_2_eq_2)

theorem repeated_cancel_releases_witness:
  "map rt_load (cp_sched (((\<lambda>c. snd (cancel_task (in_memory (\<lambda>k. [k]) (\<lambda>_. 0)) [0] c)) ^^ 2) one_task_cp)) = [-2]"
proof -
  have "tr_node one_task = Some (lit ''n'')" by (simp add: one_task_def)
  from repeated_cancel_releases[OF one_task_good one_task_get this] one_task_released
  show ?thesis by simp
qed

text \<open>
  A cancellation can be lost. From any state, a submission of a new key and a cancellation
  of its task can be served so that the cancellation reports success and the task ends
  scheduled, with its node's slot taken.
\<close>

theorem cancel_can_be_lost:
  assumes "mem_good uuid (cp_store c)"
    and "mem_keyed (cp_store c) (opt_ref (sr_parent r)) (req_key r) = None"
    and "submit_place 0 r c = (Some n, c\<^sub>1)"
  shows "\<exists>t c' rec. (served (in_memory uuid clock))\<^sup>*\<^sup>* (ts, c)
      (ts @ [SubmitDone r (Inr t), CancelDone (pt_id t) True], c') \<and>
    mem_get (pt_id t) (cp_store c') = Some rec \<and> tr_status rec = Scheduled \<and>
    tr_node rec = Some n \<and> cp_sched c' = cp_sched c\<^sub>1"
  using mem.cancel_lost[OF assms, where clock = clock] by simp

theorem cancel_can_be_lost_witness:
  "\<exists>t c' rec. (served (in_memory (\<lambda>k. [k]) (\<lambda>_. 0)))\<^sup>*\<^sup>* ([], idle_cp)
      ([SubmitDone (spec_request '''' ''k'') (Inr t), CancelDone (pt_id t) True], c') \<and>
    mem_get (pt_id t) (cp_store c') = Some rec \<and> tr_status rec = Scheduled \<and> map rt_load (cp_sched c') = [1]"
proof -
  have good: "mem_good (\<lambda>k. [k]) (cp_store idle_cp)"
    by (simp add: idle_cp_def mem_good_new inj_def)
  have new: "mem_keyed (cp_store idle_cp) (opt_ref (sr_parent r)) (req_key r) = None" for r
    by (simp add: mem_keyed_def idle_cp_def mem_new_def)
  have "submit_place 0 (spec_request '''' ''k'') idle_cp = (Some (lit ''n''), idle_cp\<lparr>cp_sched := busy\<rparr>)"
    by (simp add: spec_place)
  from cancel_can_be_lost[OF good new this, of "\<lambda>_. 0" "[]"]
  obtain t c' rec where
      c': "(served (in_memory (\<lambda>k. [k]) (\<lambda>_. 0)))\<^sup>*\<^sup>* ([], idle_cp)
        ([SubmitDone (spec_request '''' ''k'') (Inr t), CancelDone (pt_id t) True], c')"
      "mem_get (pt_id t) (cp_store c') = Some rec" "tr_status rec = Scheduled" "cp_sched c' = busy"
    by auto
  show ?thesis by (intro exI conjI, rule c'(1), rule c'(2), rule c'(3)) (simp add: c'(4) busy_load)
qed

text \<open>One task submitted: its node holds one task.\<close>

lemma submit_sched: "submit_task S now r c = (x, c') \<Longrightarrow> cp_sched c' = cp_sched (snd (submit_place now r c))"
  by (auto simp: submit_task_def submit_register_def split: prod.splits option.splits)

theorem loads_are_live_tasks_witness:
  "\<exists>c n. (fair_step (in_memory (\<lambda>k. [k]) (\<lambda>_. 0)) mem_keyed)\<^sup>*\<^sup>* idle_cp c \<and>
     n \<in> set (cp_sched c) \<and> rt_load n = 1 \<and>
     card (live_on (in_memory (\<lambda>k. [k]) (\<lambda>_. 0)) (cp_store c) (rt_id n)) = 1"
proof -
  let ?S = "in_memory (\<lambda>k. [k]) (\<lambda>_. 0)" and ?r = "spec_request '''' ''k''"
  let ?n = "with_quota (node_new (lit ''n'') {Cpu}) 4"
  obtain x c where c: "submit_task ?S 0 ?r idle_cp = (x, c)" by force
  then have sched: "cp_sched c = busy" using submit_sched[OF c] by (simp add: spec_place)
  have "mem_keyed (cp_store idle_cp) (opt_ref (sr_parent ?r)) (req_key ?r) = None"
    by (simp add: mem_keyed_def idle_cp_def mem_new_def)
  then have run: "(fair_step ?S mem_keyed)\<^sup>*\<^sup>* idle_cp c" using c by (blast intro: fair_submit)
  have n: "busy ! 0 \<in> set (cp_sched c)" "rt_quota (busy ! 0) = Some 4" "rt_load (busy ! 0) = 1"
    unfolding sched by (simp_all add: busy_def idle_cp_def sched_new_def runtime_of_def with_quota_def node_new_def)
  have "unat (rt_load (busy ! 0)) = card (live_on ?S (cp_store c) (rt_id (busy ! 0)))"
    using loads_are_live_tasks[OF _ _ _ _ _ run n(1,2), of "[?n]"]
    by (auto simp: inj_def idle_cp_def node_new_def with_quota_def)
  then show ?thesis using run n by (intro exI[of _ c] exI[of _ "busy ! 0"]) simp
qed

end
