(* ===== verification/Steps.thy ===== *)
theory Steps
  imports Prelude
begin

section \<open>Steps over a mutable state\<close>

text \<open>
  A method of a mutable object as a function of its state: it returns the outcome together with
  the state as it leaves it, after an error too, or \<open>None\<close> when it has not returned within its
  fuel. The rules below are shared by the evaluators built from such steps: more fuel keeps a
  result (\<open>s_below\<close>), and a relation between the states before and after that holds of the basic
  updates holds of every step built from them (the locale \<open>step_relation\<close>).
\<close>

type_synonym ('s, 'e, 'a) step = "'s \<Rightarrow> (('e, 'a) outcome \<times> 's) option"

definition s_ret :: "'a \<Rightarrow> ('s, 'e, 'a) step" where
  "s_ret x = (\<lambda>s. Some (Ok x, s))"

definition s_out :: "('e, 'a) outcome \<Rightarrow> ('s, 'e, 'a) step" where
  "s_out r = (\<lambda>s. Some (r, s))"

definition s_fail :: "'e \<Rightarrow> ('s, 'e, 'a) step" where
  "s_fail e = s_out (Err e)"

definition s_stuck :: "('s, 'e, 'a) step" where
  "s_stuck = (\<lambda>_. None)"

definition s_bind :: "('s, 'e, 'a) step \<Rightarrow> ('a \<Rightarrow> ('s, 'e, 'b) step) \<Rightarrow> ('s, 'e, 'b) step" where
  "s_bind m f = (\<lambda>s. case m s of
       None \<Rightarrow> None
     | Some (Ok x, s') \<Rightarrow> f x s'
     | Some (Err e, s') \<Rightarrow> Some (Err e, s')
     | Some (Panic, s') \<Rightarrow> Some (Panic, s'))"

text \<open>The outcome of a step as a value: \<open>let result = m;\<close> without the question mark.\<close>

definition s_try :: "('s, 'e, 'a) step \<Rightarrow> ('s, 'e, ('e, 'a) outcome) step" where
  "s_try m = (\<lambda>s. case m s of
       None \<Rightarrow> None
     | Some (Panic, s') \<Rightarrow> Some (Panic, s')
     | Some (r, s') \<Rightarrow> Some (Ok r, s'))"

definition s_with :: "('s \<Rightarrow> ('s, 'e, 'a) step) \<Rightarrow> ('s, 'e, 'a) step" where
  "s_with f = (\<lambda>s. f s s)"

definition s_upd :: "('s \<Rightarrow> 's) \<Rightarrow> ('s, 'e, unit) step" where
  "s_upd f = (\<lambda>s. Some (Ok (), f s))"

text \<open>\<open>{ setup; let result = m; cleanup; result }\<close>\<close>

definition s_around :: "('s \<Rightarrow> 's) \<Rightarrow> ('s, 'e, 'a) step \<Rightarrow> ('s \<Rightarrow> 's) \<Rightarrow> ('s, 'e, 'a) step" where
  "s_around f m g =
     s_bind (s_upd f) (\<lambda>_. s_bind (s_try m) (\<lambda>r. s_bind (s_upd g) (\<lambda>_. s_out r)))"

fun s_all :: "('x \<Rightarrow> ('s, 'e, 'a) step) \<Rightarrow> 'x list \<Rightarrow> ('s, 'e, 'a list) step" where
  "s_all ev [] = s_ret []"
| "s_all ev (x # xs) = s_bind (ev x) (\<lambda>v. s_bind (s_all ev xs) (\<lambda>vs. s_ret (v # vs)))"

definition s_opt :: "('x \<Rightarrow> ('s, 'e, 'a) step) \<Rightarrow> 'x option \<Rightarrow> ('s, 'e, 'a option) step" where
  "s_opt ev v = (case v of None \<Rightarrow> s_ret None | Some e \<Rightarrow> s_bind (ev e) (\<lambda>x. s_ret (Some x)))"

lemmas s_simps = s_ret_def s_out_def s_fail_def s_stuck_def s_bind_def s_try_def s_with_def
  s_upd_def s_around_def s_opt_def

lemma s_bind_ret [simp]: "s_bind (s_ret x) f = f x"
  by (simp add: s_simps)

lemma s_bind_fail [simp]: "s_bind (s_fail e) f = s_fail e"
  by (simp add: s_simps)

lemma s_bind_Some: "m s = Some (Ok x, s') \<Longrightarrow> s_bind m f s = f x s'"
  by (simp add: s_bind_def)

lemma s_bind_Err: "m s = Some (Err e, s') \<Longrightarrow> s_bind m f s = Some (Err e, s')"
  by (simp add: s_bind_def)

subsection \<open>More fuel\<close>

definition s_below :: "('s, 'e, 'a) step \<Rightarrow> ('s, 'e, 'a) step \<Rightarrow> bool" where
  "s_below m m' = (\<forall>s r. m s = Some r \<longrightarrow> m' s = Some r)"

named_theorems step_mono \<open>steps are monotone in the steps they are built from\<close>

lemma s_below_refl [simp, step_mono]: "s_below m m"
  by (simp add: s_below_def)

lemma s_below_stuck [step_mono]: "s_below s_stuck m"
  by (simp add: s_below_def s_stuck_def)

lemma s_below_bind [step_mono]:
  "s_below m m' \<Longrightarrow> (\<And>x. s_below (f x) (f' x)) \<Longrightarrow> s_below (s_bind m f) (s_bind m' f')"
  unfolding s_below_def s_bind_def by (fastforce split: option.splits prod.splits outcome.splits)

lemma s_below_try [step_mono]: "s_below m m' \<Longrightarrow> s_below (s_try m) (s_try m')"
  unfolding s_below_def s_try_def by (fastforce split: option.splits prod.splits outcome.splits)

lemma s_below_with [step_mono]: "(\<And>s. s_below (f s) (f' s)) \<Longrightarrow> s_below (s_with f) (s_with f')"
  unfolding s_below_def s_with_def by blast

lemma s_below_around [step_mono]: "s_below m m' \<Longrightarrow> s_below (s_around f m g) (s_around f m' g)"
  unfolding s_around_def by (intro step_mono)

definition s_below_all :: "('x \<Rightarrow> ('s, 'e, 'a) step) \<Rightarrow> ('x \<Rightarrow> ('s, 'e, 'a) step) \<Rightarrow> bool" where
  "s_below_all ev ev' = (\<forall>x. s_below (ev x) (ev' x))"

lemma s_below_allD: "s_below_all ev ev' \<Longrightarrow> s_below (ev x) (ev' x)"
  by (simp add: s_below_all_def)

lemma s_below_s_all [step_mono]: "s_below_all ev ev' \<Longrightarrow> s_below (s_all ev xs) (s_all ev' xs)"
  by (induction xs) (auto simp: s_below_all_def intro!: step_mono)

lemma s_below_opt [step_mono]: "s_below_all ev ev' \<Longrightarrow> s_below (s_opt ev v) (s_opt ev' v)"
  unfolding s_opt_def by (auto simp: s_below_all_def split: option.split intro!: step_mono)

lemma s_below_SomeD: "s_below m m' \<Longrightarrow> m s = Some r \<Longrightarrow> m' s = Some r"
  unfolding s_below_def by blast

subsection \<open>Relations between the states before and after\<close>

definition s_rel :: "('s \<Rightarrow> 's \<Rightarrow> bool) \<Rightarrow> ('s, 'e, 'a) step \<Rightarrow> bool" where
  "s_rel R m = (\<forall>s r s'. m s = Some (r, s') \<longrightarrow> R s s')"

named_theorems step_rel \<open>a relation of the updates is a relation of the steps\<close>

lemma s_relD: "s_rel R m \<Longrightarrow> m s = Some (r, s') \<Longrightarrow> R s s'"
  unfolding s_rel_def by blast

lemma s_rel_stuck [step_rel]: "s_rel R s_stuck"
  by (simp add: s_rel_def s_stuck_def)

lemma s_rel_with [step_rel]: "(\<And>s. s_rel R (f s)) \<Longrightarrow> s_rel R (s_with f)"
  by (simp add: s_rel_def s_with_def)

lemma s_rel_try [step_rel]: "s_rel R m \<Longrightarrow> s_rel R (s_try m)"
  unfolding s_rel_def s_try_def by (fastforce split: option.splits prod.splits outcome.splits)

lemma s_rel_upd [step_rel]: "(\<And>s. R s (f s)) \<Longrightarrow> s_rel R (s_upd f)"
  by (simp add: s_rel_def s_upd_def)

locale step_relation =
  fixes R :: "'s \<Rightarrow> 's \<Rightarrow> bool"
  assumes R_refl [simp, intro]: "R s s"
    and R_trans: "R s t \<Longrightarrow> R t u \<Longrightarrow> R s u"
begin

lemma rel_out [step_rel]: "s_rel R (s_out r)"
  by (simp add: s_rel_def s_out_def)

lemma rel_ret [step_rel]: "s_rel R (s_ret x)"
  by (simp add: s_rel_def s_ret_def)

lemma rel_fail [step_rel]: "s_rel R (s_fail e)"
  by (simp add: s_fail_def rel_out)

lemma rel_bind [step_rel]:
  assumes "s_rel R m" and "\<And>x. s_rel R (f x)"
  shows "s_rel R (s_bind m f)"
  using assms unfolding s_rel_def s_bind_def
  by (fastforce split: option.splits prod.splits outcome.splits intro: R_trans)

lemma rel_around [step_rel]:
  "(\<And>s. R s (f s)) \<Longrightarrow> s_rel R m \<Longrightarrow> (\<And>s. R s (g s)) \<Longrightarrow> s_rel R (s_around f m g)"
  unfolding s_around_def by (intro step_rel)

lemma rel_all [step_rel]: "(\<And>x. s_rel R (ev x)) \<Longrightarrow> s_rel R (s_all ev xs)"
  by (induction xs) (auto intro!: step_rel)

lemma rel_opt [step_rel]: "(\<And>x. s_rel R (ev x)) \<Longrightarrow> s_rel R (s_opt ev v)"
  unfolding s_opt_def by (auto split: option.split intro!: step_rel)

end

subsection \<open>Returning with some fuel\<close>

text \<open>
  A family of steps, one for each fuel, that grows with the fuel and from every state of the
  invariant returns, with enough fuel, in a state of the invariant.
\<close>

definition s_returns :: "('s \<Rightarrow> bool) \<Rightarrow> (nat \<Rightarrow> ('s, 'e, 'a) step) \<Rightarrow> bool" where
  "s_returns I m = ((\<forall>i j. i \<le> j \<longrightarrow> s_below (m i) (m j)) \<and>
     (\<forall>s. I s \<longrightarrow> (\<exists>n r s'. m n s = Some (r, s') \<and> I s')))"

named_theorems step_returns \<open>steps return when the steps they are built from do\<close>

lemma s_returnsI:
  assumes "\<And>i j. i \<le> j \<Longrightarrow> s_below (m i) (m j)"
    and "\<And>s. I s \<Longrightarrow> \<exists>n r s'. m n s = Some (r, s') \<and> I s'"
  shows "s_returns I m"
  using assms by (simp add: s_returns_def)

lemma s_returnsE:
  assumes "s_returns I m" and "I s"
  obtains n r s' where "m n s = Some (r, s')" "I s'"
  using assms unfolding s_returns_def by blast

lemma s_returns_mono: "s_returns I m \<Longrightarrow> i \<le> j \<Longrightarrow> s_below (m i) (m j)"
  by (simp add: s_returns_def)

lemma s_returns_more: "s_returns I m \<Longrightarrow> m i s = Some r \<Longrightarrow> i \<le> j \<Longrightarrow> m j s = Some r"
  by (metis s_returns_mono s_below_SomeD)

lemma s_returns_const [step_returns]:
  "s_returns I (\<lambda>_. s_ret x)" "s_returns I (\<lambda>_. s_fail e)" "s_returns I (\<lambda>_. s_out r)"
  by (auto intro!: s_returnsI simp: s_simps)

lemma s_returns_upd [step_returns]: "(\<And>s. I s \<Longrightarrow> I (f s)) \<Longrightarrow> s_returns I (\<lambda>_. s_upd f)"
  by (auto intro!: s_returnsI simp: s_simps)

lemma s_returns_bind [step_returns]:
  assumes m: "s_returns I m" and f: "\<And>x. s_returns I (\<lambda>n. f n x)"
  shows "s_returns I (\<lambda>n. s_bind (m n) (f n))"
proof (rule s_returnsI)
  show "s_below (s_bind (m i) (f i)) (s_bind (m j) (f j))" if "i \<le> j" for i j
    using that by (intro s_below_bind s_returns_mono[OF m] s_returns_mono[OF f])
next
  fix s assume "I s"
  from m this obtain n r s' where n: "m n s = Some (r, s')" "I s'" by (rule s_returnsE)
  show "\<exists>n r s'. s_bind (m n) (f n) s = Some (r, s') \<and> I s'"
  proof (cases r)
    case (Ok x)
    from f n(2) obtain k r' s'' where k: "f k x s' = Some (r', s'')" "I s''" by (rule s_returnsE)
    have "s_bind (m (max n k)) (f (max n k)) s = Some (r', s'')"
      using s_returns_more[OF m n(1), of "max n k"] s_returns_more[OF f k(1), of "max n k"]
      by (simp add: Ok s_bind_def)
    with k(2) show ?thesis by blast
  qed (use n in \<open>auto simp: s_bind_def intro!: exI[of _ n]\<close>)
qed

lemma s_returns_try [step_returns]:
  assumes m: "s_returns I m"
  shows "s_returns I (\<lambda>n. s_try (m n))"
proof (rule s_returnsI)
  fix s assume "I s"
  with m obtain n r s' where "m n s = Some (r, s')" "I s'" by (rule s_returnsE)
  then show "\<exists>n r s'. s_try (m n) s = Some (r, s') \<and> I s'"
    by (cases r) (auto simp: s_try_def intro!: exI[of _ n])
qed (use s_returns_mono[OF m] in \<open>intro s_below_try\<close>)

lemma s_returns_with [step_returns]:
  assumes f: "\<And>s. s_returns I (\<lambda>n. f n s)"
  shows "s_returns I (\<lambda>n. s_with (f n))"
proof (rule s_returnsI)
  fix s assume "I s"
  with f[of s] obtain n r s' where "f n s s = Some (r, s')" "I s'" by (rule s_returnsE)
  then show "\<exists>n r s'. s_with (f n) s = Some (r, s') \<and> I s'" unfolding s_with_def by blast
qed (use s_returns_mono[OF f] in \<open>intro s_below_with\<close>)

lemma s_returns_if [step_returns]:
  "(b \<Longrightarrow> s_returns I m) \<Longrightarrow> (\<not> b \<Longrightarrow> s_returns I m') \<Longrightarrow> s_returns I (\<lambda>n. if b then m n else m' n)"
  by (cases b) simp_all

lemma s_returns_around [step_returns]:
  "(\<And>s. I s \<Longrightarrow> I (f s)) \<Longrightarrow> s_returns I m \<Longrightarrow> (\<And>s. I s \<Longrightarrow> I (g s)) \<Longrightarrow>
   s_returns I (\<lambda>n. s_around f (m n) g)"
  unfolding s_around_def by (intro step_returns)

lemma s_returns_all [step_returns]:
  "(\<And>x. x \<in> set xs \<Longrightarrow> s_returns I (\<lambda>n. ev n x)) \<Longrightarrow> s_returns I (\<lambda>n. s_all (ev n) xs)"
  by (induction xs) (auto intro!: step_returns)

lemma s_returns_opt [step_returns]:
  "(\<And>x. v = Some x \<Longrightarrow> s_returns I (\<lambda>n. ev n x)) \<Longrightarrow> s_returns I (\<lambda>n. s_opt (ev n) v)"
  unfolding s_opt_def by (cases v) (auto intro!: step_returns)

text \<open>A family that makes its first step with fuel 1.\<close>

lemma s_returns_Suc:
  assumes "m 0 = s_stuck" and "s_returns I (\<lambda>n. m (Suc n))"
  shows "s_returns I m"
proof (rule s_returnsI)
  show "s_below (m i) (m j)" if "i \<le> j" for i j
    using that s_returns_mono[OF assms(2), of "i - 1" "j - 1"]
    by (cases i; cases j) (auto simp: assms(1) s_below_stuck)
  show "\<exists>n r s'. m n s = Some (r, s') \<and> I s'" if "I s" for s
    using s_returnsE[OF assms(2) that] by metis
qed

end
