(* ===== verification/Texts.thy ===== *)
theory Texts
  imports Prelude
begin

section \<open>Routines on strings\<close>

text \<open>
  The methods of \<open>str\<close> that the module, package and macro passes use, beyond those of the prelude.
\<close>

definition strip_cr :: "ustr \<Rightarrow> ustr" where
  "strip_cr s = (if s \<noteq> [] \<and> last s = 13 then butlast s else s)"

text \<open>\<open>str::lines\<close>: a line ends with a line feed or a carriage return and a line feed.\<close>

fun lines_from :: "ustr \<Rightarrow> ustr \<Rightarrow> ustr list" where
  "lines_from acc [] = (if acc = [] then [] else [rev acc])"
| "lines_from acc (c # cs) =
     (if c = 10 then strip_cr (rev acc) # lines_from [] cs else lines_from (c # acc) cs)"

definition text_lines :: "ustr \<Rightarrow> ustr list" where
  "text_lines s = lines_from [] s"

text \<open>\<open>str::split\<close> with a pattern that is not empty.\<close>

function split_from :: "ustr \<Rightarrow> ustr \<Rightarrow> ustr \<Rightarrow> ustr list" where
  "split_from p acc [] = [rev acc]"
| "split_from p acc (c # cs) =
     (if p \<noteq> [] \<and> starts_with (c # cs) p then rev acc # split_from p [] (drop (length p) (c # cs))
      else split_from p (c # acc) cs)"
  by pat_completeness auto
termination
  by (relation "measure (\<lambda>(p, acc, s). length s)") (auto simp: Suc_diff_le neq_Nil_conv)

definition split_str :: "ustr \<Rightarrow> ustr \<Rightarrow> ustr list" where
  "split_str p s = split_from p [] s"

definition strip_prefix :: "ustr \<Rightarrow> ustr \<Rightarrow> ustr option" where
  "strip_prefix p s = (if starts_with s p then Some (drop (length p) s) else None)"

definition trim_start_char :: "uchar \<Rightarrow> ustr \<Rightarrow> ustr" where
  "trim_start_char c s = dropWhile (\<lambda>x. x = c) s"

definition trim_end_char :: "uchar \<Rightarrow> ustr \<Rightarrow> ustr" where
  "trim_end_char c s = rev (dropWhile (\<lambda>x. x = c) (rev s))"

text \<open>\<open>str::trim_matches\<close> with a character.\<close>

definition trim_char :: "uchar \<Rightarrow> ustr \<Rightarrow> ustr" where
  "trim_char c s = trim_end_char c (trim_start_char c s)"

text \<open>The text before and behind the first character \<open>c\<close>: \<open>s.find(c)\<close> and the two slices.\<close>

fun split_at_char :: "uchar \<Rightarrow> ustr \<Rightarrow> (ustr \<times> ustr) option" where
  "split_at_char c [] = None"
| "split_at_char c (x # xs) =
     (if x = c then Some ([], xs)
      else case split_at_char c xs of None \<Rightarrow> None | Some (a, b) \<Rightarrow> Some (x # a, b))"

text \<open>\<open>bool::from_str\<close>\<close>

definition parse_bool :: "ustr \<Rightarrow> bool option" where
  "parse_bool s = (if s = lit ''true'' then Some True else if s = lit ''false'' then Some False else None)"

text \<open>\<open>str::contains\<close>\<close>

fun contains_str :: "ustr \<Rightarrow> ustr \<Rightarrow> bool" where
  "contains_str [] p = (p = [])"
| "contains_str (c # cs) p = (starts_with (c # cs) p \<or> contains_str cs p)"

text \<open>Hexadecimal printing in lower case, the format \<open>{:x}\<close>.\<close>

fun show_hex :: "nat \<Rightarrow> ustr" where
  "show_hex n = (let d = n mod 16; c = (if d < 10 then 48 + d else 87 + d) in
     if n < 16 then [c] else show_hex (n div 16) @ [c])"

declare show_hex.simps [simp del]

subsection \<open>Lemmas\<close>

lemma starts_with_append [simp]: "starts_with (p @ s) p"
  by (simp add: starts_with_def)

lemma strip_prefix_append [simp]: "strip_prefix p (p @ s) = Some s"
  by (simp add: strip_prefix_def)

lemma lines_from_line:
  "10 \<notin> set s \<Longrightarrow> lines_from acc (s @ 10 # rest) = strip_cr (rev acc @ s) # lines_from [] rest"
  by (induction s arbitrary: acc) auto

lemma text_lines_line: "10 \<notin> set s \<Longrightarrow> text_lines (s @ 10 # rest) = strip_cr s # text_lines rest"
  by (simp add: text_lines_def lines_from_line)

lemma text_lines_Nil [simp]: "text_lines [] = []"
  by (simp add: text_lines_def)

lemma strip_cr_id: "13 \<notin> set s \<Longrightarrow> strip_cr s = s"
  by (auto simp: strip_cr_def dest: last_in_set)

lemma split_at_char_app: "c \<notin> set a \<Longrightarrow> split_at_char c (a @ c # b) = Some (a, b)"
  by (induction a) auto

lemma split_from_char:
  "split_from [c] acc s = (case split_at_char c s of
     None \<Rightarrow> [rev acc @ s] | Some (a, b) \<Rightarrow> (rev acc @ a) # split_str [c] b)"
  by (induction s arbitrary: acc) (auto simp: starts_with_def split_str_def split: option.split)

lemma split_str_char:
  "split_str [c] s = (case split_at_char c s of None \<Rightarrow> [s] | Some (a, b) \<Rightarrow> a # split_str [c] b)"
  by (subst split_str_def, subst split_from_char) (simp split: option.split)

lemma split_at_char_None: "c \<notin> set s \<Longrightarrow> split_at_char c s = None"
  by (induction s) auto

lemma trim_ws_id: "(s \<noteq> [] \<Longrightarrow> \<not> is_white_space (hd s)) \<Longrightarrow> (s \<noteq> [] \<Longrightarrow> \<not> is_white_space (last s)) \<Longrightarrow> trim_ws s = s"
proof -
  assume "s \<noteq> [] \<Longrightarrow> \<not> is_white_space (hd s)" "s \<noteq> [] \<Longrightarrow> \<not> is_white_space (last s)"
  then have "dropWhile is_white_space s = s" "dropWhile is_white_space (rev s) = rev s"
    by (auto simp: dropWhile_eq_self_iff hd_rev)
  then show ?thesis by (simp add: trim_ws_def)
qed

end
