(* ===== verification/Engine.thy ===== *)
theory Engine
  imports Steps Seven Texts
begin

section \<open>The seven-channel runtime engine (compiler/src/runtime.rs)\<close>

text \<open>
  The engine runs a program under its annotations: a stack of scopes, a machine of cognitive
  phases, a governance check, a time monitor and a log of events. A method is a step over the
  record \<open>engine\<close>; the evaluators take fuel, which a while loop alone can use up.

  Texts the engine only shows (the messages of the errors) are computed, since a catch clause binds
  the text of an error to a variable. Times are read from a clock that the parameter gives, as the
  microseconds at each reading.
\<close>

subsection \<open>Values\<close>

datatype (plugins only: size) 'f EValue =
    EInt i64
  | EFloat 'f
  | EString ustr
  | EBool bool
  | EChar uchar
  | ENone
  | EArray "'f EValue list"
  | EStruct ustr "(ustr \<times> 'f EValue) list"
  | EResult bool "'f EValue option" "'f EValue option"
  | EOption bool "'f EValue option"
  | EFunc ustr

text \<open>
  What the engine takes from the platform besides the arithmetic: the debug print of a float, the
  characters beyond ASCII that a debug print does not escape, the debug print of an expression,
  and the clock.
\<close>

record 'f eplat = "'f plat" +
  e_float_debug :: "'f \<Rightarrow> ustr"
  e_plain :: "uchar \<Rightarrow> bool"
  e_expr_debug :: "'f Expr \<Rightarrow> ustr"
  e_clock :: "nat \<Rightarrow> nat"

fun show_evalue :: "'f eplat \<Rightarrow> 'f EValue \<Rightarrow> ustr" where
  "show_evalue P (EInt i) = show_int (sint i)"
| "show_evalue P (EFloat x) = f_show P x"
| "show_evalue P (EString s) = [34] @ s @ [34]"
| "show_evalue P (EBool b) = (if b then lit ''true'' else lit ''false'')"
| "show_evalue P (EChar c) = [39, c, 39]"
| "show_evalue P ENone = lit ''none''"
| "show_evalue P (EArray vs) =
     lit ''['' @ join_with (lit '', '') (map (show_evalue P) vs) @ lit '']''"
| "show_evalue P (EStruct name fs) =
     name @ lit '' { '' @
     join_with (lit '', '') (map (\<lambda>(k, t). k @ lit '': '' @ t) (map (\<lambda>(k, v). (k, show_evalue P v)) fs)) @
     lit '' }''"
| "show_evalue P (EResult is_ok ok_v err_v) =
     (if is_ok then (case ok_v of Some v \<Rightarrow> lit ''ok('' @ show_evalue P v @ lit '')'' | None \<Rightarrow> lit ''ok'')
      else (case err_v of Some v \<Rightarrow> lit ''err('' @ show_evalue P v @ lit '')'' | None \<Rightarrow> lit ''err''))"
| "show_evalue P (EOption is_some v) =
     (if is_some then (case v of Some x \<Rightarrow> lit ''some('' @ show_evalue P x @ lit '')'' | None \<Rightarrow> lit ''some'')
      else lit ''none'')"
| "show_evalue P (EFunc name) = lit ''<fn '' @ name @ lit ''>''"

text \<open>The derived debug print, with the escapes of \<open>char\<close> and \<open>str\<close>; \<open>q\<close> is the quote.\<close>

definition escape_debug :: "'f eplat \<Rightarrow> uchar \<Rightarrow> uchar \<Rightarrow> ustr" where
  "escape_debug P q c =
     (if c = 0 then [92, 48] else if c = 9 then [92, 116] else if c = 10 then [92, 110]
      else if c = 13 then [92, 114] else if c = 92 then [92, 92] else if c = q then [92, q]
      else if 32 \<le> c \<and> c < 127 \<or> 127 < c \<and> e_plain P c then [c]
      else [92, 117, 123] @ show_hex c @ lit ''}'')"

definition debug_str :: "'f eplat \<Rightarrow> ustr \<Rightarrow> ustr" where
  "debug_str P s = [34] @ concat (map (escape_debug P 34) s) @ [34]"

definition debug_bool :: "bool \<Rightarrow> ustr" where
  "debug_bool b = (if b then lit ''true'' else lit ''false'')"

fun debug_evalue :: "'f eplat \<Rightarrow> 'f EValue \<Rightarrow> ustr" where
  "debug_evalue P (EInt i) = lit ''Int('' @ show_int (sint i) @ lit '')''"
| "debug_evalue P (EFloat x) = lit ''Float('' @ e_float_debug P x @ lit '')''"
| "debug_evalue P (EString s) = lit ''String('' @ debug_str P s @ lit '')''"
| "debug_evalue P (EBool b) = lit ''Bool('' @ debug_bool b @ lit '')''"
| "debug_evalue P (EChar c) = lit ''Char('' @ [39] @ escape_debug P 39 c @ [39] @ lit '')''"
| "debug_evalue P ENone = lit ''None''"
| "debug_evalue P (EArray vs) =
     lit ''Array(['' @ join_with (lit '', '') (map (debug_evalue P) vs) @ lit ''])''"
| "debug_evalue P (EStruct name fs) =
     lit ''Struct('' @ debug_str P name @ lit '', ['' @
     join_with (lit '', '') (map (\<lambda>(k, t). lit ''('' @ debug_str P k @ lit '', '' @ t @ lit '')'')
       (map (\<lambda>(k, v). (k, debug_evalue P v)) fs)) @ lit ''])''"
| "debug_evalue P (EResult is_ok ok_v err_v) =
     lit ''Result('' @ debug_bool is_ok @ lit '', '' @
     (case ok_v of Some v \<Rightarrow> lit ''Some('' @ debug_evalue P v @ lit '')'' | None \<Rightarrow> lit ''None'') @ lit '', '' @
     (case err_v of Some v \<Rightarrow> lit ''Some('' @ debug_evalue P v @ lit '')'' | None \<Rightarrow> lit ''None'') @ lit '')''"
| "debug_evalue P (EOption is_some v) =
     lit ''Option('' @ debug_bool is_some @ lit '', '' @
     (case v of Some x \<Rightarrow> lit ''Some('' @ debug_evalue P x @ lit '')'' | None \<Rightarrow> lit ''None'') @ lit '')''"
| "debug_evalue P (EFunc name) = lit ''Func('' @ debug_str P name @ lit '')''"

subsection \<open>Errors\<close>

datatype (plugins only: size) e_error =
    EUndefinedVariable ustr
  | EUndefinedFunction ustr
  | ETypeError ustr ustr ustr
  | EDivisionByZero
  | EEffectViolation Effect Effect ustr
  | ELoopViolation CognitiveLoop CognitiveLoop ustr
  | EGovernanceViolation GovernanceLevel GovernanceLevel ustr
  | ETimeoutExceeded nat nat ustr
  | ELatencyViolation nat nat ustr
  | EAssertionFailed ustr
  | ERuntimePanic ustr

primrec debug_effect :: "Effect \<Rightarrow> ustr" where
  "debug_effect Pure = lit ''Pure''"
| "debug_effect Io = lit ''Io''"
| "debug_effect Async = lit ''Async''"
| "debug_effect Spawn = lit ''Spawn''"

primrec debug_loop :: "CognitiveLoop \<Rightarrow> ustr" where
  "debug_loop Perceive = lit ''Perceive''"
| "debug_loop Reason = lit ''Reason''"
| "debug_loop Decide = lit ''Decide''"
| "debug_loop Act = lit ''Act''"
| "debug_loop Loop = lit ''Loop''"

primrec debug_governance :: "GovernanceLevel \<Rightarrow> ustr" where
  "debug_governance Prepare = lit ''Prepare''"
| "debug_governance Suggest = lit ''Suggest''"
| "debug_governance Approve = lit ''Approve''"
| "debug_governance Execute = lit ''Execute''"

primrec show_e_error :: "e_error \<Rightarrow> ustr" where
  "show_e_error (EUndefinedVariable name) = lit ''undefined variable: '' @ name"
| "show_e_error (EUndefinedFunction name) = lit ''undefined function: '' @ name"
| "show_e_error (ETypeError expected actual detail) =
     lit ''type error: expected '' @ expected @ lit '', got '' @ actual @ [32, 8212, 32] @ detail"
| "show_e_error EDivisionByZero = lit ''division by zero''"
| "show_e_error (EEffectViolation declared required fn_name) =
     lit ''effect violation in '' @ [39] @ fn_name @ [39] @ lit '': declared '' @ debug_effect declared @
     lit '' but '' @ debug_effect required @ lit '' required''"
| "show_e_error (ELoopViolation declared required fn_name) =
     lit ''cognitive loop violation in '' @ [39] @ fn_name @ [39] @ lit '': declared '' @
     debug_loop declared @ lit '' but '' @ debug_loop required @ lit '' required''"
| "show_e_error (EGovernanceViolation declared required fn_name) =
     lit ''governance violation in '' @ [39] @ fn_name @ [39] @ lit '': declared '' @
     debug_governance declared @ lit '' but '' @ debug_governance required @ lit '' required''"
| "show_e_error (ETimeoutExceeded constraint elapsed fn_name) =
     lit ''timeout in '' @ [39] @ fn_name @ [39] @ lit '': limit '' @ show_nat constraint @
     lit ''ms, elapsed '' @ show_nat elapsed @ lit ''ms''"
| "show_e_error (ELatencyViolation declared actual fn_name) =
     lit ''latency violation in '' @ [39] @ fn_name @ [39] @ lit '': declared '' @ show_nat declared @
     lit ''ms but took '' @ show_nat actual @ lit ''ms''"
| "show_e_error (EAssertionFailed message) = lit ''assertion failed: '' @ message"
| "show_e_error (ERuntimePanic msg) = lit ''runtime panic: '' @ msg"

subsection \<open>Functions and scopes\<close>

record 'f FnDef =
  fd_name :: ustr
  fd_params :: "'f FnParam list"
  fd_body :: "'f Stmt list"
  fd_effect :: Effect
  fd_capability :: Capability
  fd_confidence :: "Confidence option"
  fd_loop :: "CognitiveLoop option"
  fd_governance :: "GovernanceLevel option"
  fd_time :: "TimeConstraint option"

datatype LoopPhase = Idle | Perceiving | Reasoning | Deciding | Acting | Looping

datatype (plugins only: size) 'f RunEvent =
    FnCalled ustr LoopPhase "GovernanceLevel option" nat
  | FnReturned ustr "'f EValue" nat
  | PhaseAdvanced LoopPhase LoopPhase
  | GovernanceChecked ustr GovernanceLevel bool
  | TimeWarned ustr ustr

text \<open>
  The scopes are a stack with the innermost one first; \<open>en_reads\<close> counts the readings of the clock.
\<close>

record 'f engine =
  en_frames :: "(ustr \<rightharpoonup> 'f EValue) list"
  en_functions :: "ustr \<rightharpoonup> 'f FnDef"
  en_phase :: LoopPhase
  en_history :: "(LoopPhase \<times> ustr \<times> nat) list"
  en_session :: GovernanceLevel
  en_check_log :: "(ustr \<times> GovernanceLevel \<times> bool) list"
  en_timings :: "(ustr \<times> nat) list"
  en_events :: "'f RunEvent list"
  en_depth :: nat
  en_returned :: bool
  en_return :: "'f EValue"
  en_reads :: nat

type_synonym ('f, 'a) estep = "('f engine, e_error, 'a) step"

definition max_depth :: nat where
  "max_depth = 64"

definition engine_new :: "GovernanceLevel \<Rightarrow> 'f engine" where
  "engine_new g = \<lparr>en_frames = [Map.empty], en_functions = Map.empty, en_phase = Idle, en_history = [],
     en_session = g, en_check_log = [], en_timings = [], en_events = [], en_depth = 0,
     en_returned = False, en_return = ENone, en_reads = 0\<rparr>"

definition push_scope :: "'f engine \<Rightarrow> 'f engine" where
  "push_scope s = s\<lparr>en_frames := Map.empty # en_frames s\<rparr>"

definition pop_scope :: "'f engine \<Rightarrow> 'f engine" where
  "pop_scope s = s\<lparr>en_frames := tl (en_frames s)\<rparr>"

definition en_define :: "ustr \<Rightarrow> 'f EValue \<Rightarrow> 'f engine \<Rightarrow> 'f engine" where
  "en_define name v s =
     (case en_frames s of
        [] \<Rightarrow> s
      | f # fs \<Rightarrow> s\<lparr>en_frames := f(name \<mapsto> v) # fs\<rparr>)"

fun lookup_frames :: "(ustr \<rightharpoonup> 'f EValue) list \<Rightarrow> ustr \<Rightarrow> 'f EValue option" where
  "lookup_frames [] name = None"
| "lookup_frames (f # fs) name = (case f name of Some v \<Rightarrow> Some v | None \<Rightarrow> lookup_frames fs name)"

definition register_fn :: "'f FnDef \<Rightarrow> 'f engine \<Rightarrow> 'f engine" where
  "register_fn d s = s\<lparr>en_functions := (en_functions s)(fd_name d \<mapsto> d)\<rparr>"

definition lookup_fn :: "ustr \<Rightarrow> ('f, 'f FnDef) estep" where
  "lookup_fn name = s_with (\<lambda>s.
     case en_functions s name of Some d \<Rightarrow> s_ret d | None \<Rightarrow> s_fail (EUndefinedFunction name))"

subsection \<open>The cognitive loop\<close>

primrec loop_to_phase :: "CognitiveLoop \<Rightarrow> LoopPhase" where
  "loop_to_phase Perceive = Perceiving"
| "loop_to_phase Reason = Reasoning"
| "loop_to_phase Decide = Deciding"
| "loop_to_phase Act = Acting"
| "loop_to_phase Loop = Looping"

text \<open>The position in \<open>phase_order\<close>, which does not list \<open>Idle\<close>.\<close>

primrec phase_index :: "LoopPhase \<Rightarrow> nat option" where
  "phase_index Idle = None"
| "phase_index Perceiving = Some 0"
| "phase_index Reasoning = Some 1"
| "phase_index Deciding = Some 2"
| "phase_index Acting = Some 3"
| "phase_index Looping = Some 4"

definition check_phase :: "CognitiveLoop \<Rightarrow> ustr \<Rightarrow> ('f, unit) estep" where
  "check_phase declared fn_name = s_with (\<lambda>s.
     if en_phase s = Idle then s_ret ()
     else case (phase_index (en_phase s), phase_index (loop_to_phase declared)) of
         (Some ci, Some ri) \<Rightarrow>
           if ri > ci then s_fail (ELoopViolation declared Perceive fn_name) else s_ret ()
       | _ \<Rightarrow> s_ret ())"

definition advance_phase :: "LoopPhase \<Rightarrow> ustr \<Rightarrow> nat \<Rightarrow> 'f engine \<Rightarrow> 'f engine" where
  "advance_phase p fn_name elapsed s =
     s\<lparr>en_phase := p, en_history := en_history s @ [(p, fn_name, elapsed)]\<rparr>"

subsection \<open>Governance\<close>

fun permitted :: "GovernanceLevel \<Rightarrow> GovernanceLevel \<Rightarrow> bool" where
  "permitted Execute _ = True"
| "permitted Approve Execute = False"
| "permitted Approve _ = True"
| "permitted Suggest Approve = False"
| "permitted Suggest Execute = False"
| "permitted Suggest _ = True"
| "permitted Prepare Prepare = True"
| "permitted Prepare _ = False"

definition log_check :: "ustr \<Rightarrow> GovernanceLevel \<Rightarrow> bool \<Rightarrow> 'f engine \<Rightarrow> 'f engine" where
  "log_check fn_name g ok s = s\<lparr>en_check_log := en_check_log s @ [(fn_name, g, ok)]\<rparr>"

definition check_governance :: "GovernanceLevel \<Rightarrow> ustr \<Rightarrow> ('f, unit) estep" where
  "check_governance target fn_name = s_with (\<lambda>s.
     let ok = permitted (en_session s) target in
     s_bind (s_upd (log_check fn_name target ok)) (\<lambda>_.
       if \<not> ok then s_fail (EGovernanceViolation (en_session s) target fn_name) else s_ret ()))"

subsection \<open>Time\<close>

definition check_time :: "TimeConstraint \<Rightarrow> ustr \<Rightarrow> nat \<Rightarrow> e_error list" where
  "check_time tc fn_name actual =
     (case latency_ms tc of
        Some l \<Rightarrow> if actual > l then [ELatencyViolation l actual fn_name] else []
      | None \<Rightarrow> []) @
     (case timeout_ms tc of
        Some t \<Rightarrow> if actual > t then [ETimeoutExceeded t actual fn_name] else []
      | None \<Rightarrow> [])"

definition read_clock :: "'f eplat \<Rightarrow> ('f, nat) estep" where
  "read_clock P = s_with (\<lambda>s.
     s_bind (s_upd (\<lambda>s. s\<lparr>en_reads := Suc (en_reads s)\<rparr>)) (\<lambda>_. s_ret (e_clock P (en_reads s))))"

text \<open>\<open>elapsed()\<close> is 0 when the clock goes back; the casts to \<open>u64\<close> keep the low bits.\<close>

definition elapsed_us :: "'f eplat \<Rightarrow> nat \<Rightarrow> ('f, nat) estep" where
  "elapsed_us P start = s_bind (read_clock P) (\<lambda>t. s_ret ((t - start) mod 2 ^ 64))"

definition elapsed_ms :: "'f eplat \<Rightarrow> nat \<Rightarrow> ('f, nat) estep" where
  "elapsed_ms P start = s_bind (read_clock P) (\<lambda>t. s_ret ((t - start) div 1000 mod 2 ^ 64))"

subsection \<open>Loading a program\<close>

definition fn_def_of :: "ustr \<Rightarrow> 'f FnParam list \<Rightarrow> FnAnnot \<Rightarrow> 'f Stmt list \<Rightarrow> TimeConstraint \<Rightarrow> 'f FnDef" where
  "fn_def_of name params an body tc =
     \<lparr>fd_name = name, fd_params = params, fd_body = body,
      fd_effect = (case an_effect an of Some e \<Rightarrow> parse_effect e | None \<Rightarrow> Pure),
      fd_capability = (case an_capability an of Some c \<Rightarrow> parse_capability c | None \<Rightarrow> Cpu),
      fd_confidence = map_option parse_confidence (an_confidence an),
      fd_loop = map_option parse_cognitive_loop (an_cognitive_loop an),
      fd_governance = map_option parse_governance (an_governance an),
      fd_time = (if has_time_bound tc then Some tc else None)\<rparr>"

text \<open>\<open>None\<close> is the panic when the timeout in seconds overflows.\<close>

definition load_stmt :: "bool \<Rightarrow> 'f Stmt \<Rightarrow> 'f engine \<Rightarrow> 'f engine option" where
  "load_stmt chk st s =
     (case st of
        SFn name params _ an body _ _ \<Rightarrow>
          (case fn_time chk an of
             None \<Rightarrow> None
           | Some tc \<Rightarrow> Some (register_fn (fn_def_of name params an body tc) s))
      | _ \<Rightarrow> Some s)"

fun load_stmts :: "bool \<Rightarrow> 'f Stmt list \<Rightarrow> 'f engine \<Rightarrow> 'f engine option" where
  "load_stmts chk [] s = Some s"
| "load_stmts chk (t # ts) s =
     (case load_stmt chk t s of None \<Rightarrow> None | Some s' \<Rightarrow> load_stmts chk ts s')"

definition load_program :: "bool \<Rightarrow> 'f Program \<Rightarrow> 'f engine \<Rightarrow> 'f engine option" where
  "load_program chk prog s = load_stmts chk (statements prog) s"

subsection \<open>Operators\<close>

definition int_op :: "i64 option \<Rightarrow> ('e, 'f EValue) outcome" where
  "int_op r = obind (or_panic r) (\<lambda>n. Ok (EInt n))"

definition op_mismatch :: "'f eplat \<Rightarrow> 'f EValue \<Rightarrow> ustr \<Rightarrow> 'f EValue \<Rightarrow> (e_error, 'f EValue) outcome" where
  "op_mismatch P l op r =
     (let t = show_evalue P l @ lit '' '' @ op @ lit '' '' @ show_evalue P r in
      Err (ETypeError t t (lit ''incompatible types for operator '' @ [39] @ op @ [39])))"

definition e_int_binary ::
  "'f eplat \<Rightarrow> i64 \<Rightarrow> ustr \<Rightarrow> i64 \<Rightarrow> (e_error, 'f EValue) outcome option" where
  "e_int_binary P a op b =
     (if op = lit ''+'' then Some (int_op (i64_add (ovf_checks P) a b))
      else if op = lit ''-'' then Some (int_op (i64_sub (ovf_checks P) a b))
      else if op = lit ''*'' then Some (int_op (i64_mul (ovf_checks P) a b))
      else if op = lit ''/'' then Some (if b = 0 then Err EDivisionByZero else int_op (i64_div a b))
      else if op = lit ''%'' then Some (if b = 0 then Err EDivisionByZero else int_op (i64_rem a b))
      else if op = lit ''=='' then Some (Ok (EBool (a = b)))
      else if op = lit ''!='' then Some (Ok (EBool (a \<noteq> b)))
      else if op = lit ''<'' then Some (Ok (EBool (sint a < sint b)))
      else if op = lit ''>'' then Some (Ok (EBool (sint b < sint a)))
      else if op = lit ''<='' then Some (Ok (EBool (sint a \<le> sint b)))
      else if op = lit ''>='' then Some (Ok (EBool (sint b \<le> sint a)))
      else None)"

text \<open>\<open>(a - b).abs() >= EPSILON\<close> is false when the difference is not a number.\<close>

definition e_float_binary ::
  "'f eplat \<Rightarrow> 'f \<Rightarrow> ustr \<Rightarrow> 'f \<Rightarrow> (e_error, 'f EValue) outcome option" where
  "e_float_binary P a op b =
     (if op = lit ''+'' then Some (Ok (EFloat (f_add P a b)))
      else if op = lit ''-'' then Some (Ok (EFloat (f_sub P a b)))
      else if op = lit ''*'' then Some (Ok (EFloat (f_mul P a b)))
      else if op = lit ''/'' then
        Some (if f_is_zero P b then Err EDivisionByZero else Ok (EFloat (f_div P a b)))
      else if op = lit ''<'' then Some (Ok (EBool (f_lt P a b)))
      else if op = lit ''>'' then Some (Ok (EBool (f_lt P b a)))
      else if op = lit ''<='' then Some (Ok (EBool (f_le P a b)))
      else if op = lit ''>='' then Some (Ok (EBool (f_le P b a)))
      else if op = lit ''=='' then Some (Ok (EBool (f_small P Epsilon (f_sub P a b))))
      else if op = lit ''!='' then
        Some (Ok (EBool (f_le P (f_sub P a b) (f_sub P a b) \<and> \<not> f_small P Epsilon (f_sub P a b))))
      else None)"

definition e_binary ::
  "'f eplat \<Rightarrow> 'f EValue \<Rightarrow> ustr \<Rightarrow> 'f EValue \<Rightarrow> (e_error, 'f EValue) outcome" where
  "e_binary P l op r =
     (case (case (l, r) of
          (EInt a, EInt b) \<Rightarrow> e_int_binary P a op b
        | (EFloat a, EFloat b) \<Rightarrow> e_float_binary P a op b
        | (EString a, EString b) \<Rightarrow>
            if op = lit ''=='' then Some (Ok (EBool (a = b)))
            else if op = lit ''!='' then Some (Ok (EBool (a \<noteq> b)))
            else if op = lit ''+'' then Some (Ok (EString (a @ b))) else None
        | (EBool a, EBool b) \<Rightarrow>
            if op = lit ''=='' then Some (Ok (EBool (a = b)))
            else if op = lit ''!='' then Some (Ok (EBool (a \<noteq> b)))
            else if op = lit ''&&'' then Some (Ok (EBool (a \<and> b)))
            else if op = lit ''||'' then Some (Ok (EBool (a \<or> b))) else None
        | _ \<Rightarrow> None) of
        Some res \<Rightarrow> res
      | None \<Rightarrow> op_mismatch P l op r)"

definition e_unary :: "'f eplat \<Rightarrow> ustr \<Rightarrow> 'f EValue \<Rightarrow> (e_error, 'f EValue) outcome" where
  "e_unary P op v =
     (if op = lit ''-'' then
        (case v of
           EInt i \<Rightarrow> int_op (i64_neg (ovf_checks P) i)
         | EFloat x \<Rightarrow> Ok (EFloat (f_neg P x))
         | _ \<Rightarrow> Err (ETypeError (lit ''number'') (show_evalue P v) (lit ''unary negation'')))
      else if op = lit ''!'' then
        (case v of
           EBool b \<Rightarrow> Ok (EBool (\<not> b))
         | _ \<Rightarrow> Err (ETypeError (lit ''bool'') (show_evalue P v) (lit ''logical not'')))
      else Err (ERuntimePanic (lit ''unknown unary op: '' @ op)))"

definition as_bool :: "'f eplat \<Rightarrow> 'f EValue \<Rightarrow> (e_error, bool) outcome" where
  "as_bool P v =
     (case v of
        EBool b \<Rightarrow> Ok b
      | EInt i \<Rightarrow> Ok (i \<noteq> 0)
      | ENone \<Rightarrow> Ok False
      | EString s \<Rightarrow> Ok (s \<noteq> [])
      | _ \<Rightarrow> Err (ETypeError (lit ''bool'') (show_evalue P v) (lit ''expected boolean value'')))"

subsection \<open>Patterns\<close>

definition literal_value :: "'f Expr \<Rightarrow> 'f EValue" where
  "literal_value e =
     (case e of
        IntLiteral v \<Rightarrow> EInt v
      | FloatLiteral v \<Rightarrow> EFloat v
      | StringLiteral s \<Rightarrow> EString s
      | BoolLiteral b \<Rightarrow> EBool b
      | CharLiteral c \<Rightarrow> EChar c
      | _ \<Rightarrow> ENone)"

text \<open>The derived equality with the value of a literal; floats are equal as numbers.\<close>

definition literal_equal :: "'f eplat \<Rightarrow> 'f EValue \<Rightarrow> 'f EValue \<Rightarrow> bool" where
  "literal_equal P a b =
     (case (a, b) of
        (EInt x, EInt y) \<Rightarrow> x = y
      | (EFloat x, EFloat y) \<Rightarrow> f_le P x y \<and> f_le P y x
      | (EString x, EString y) \<Rightarrow> x = y
      | (EBool x, EBool y) \<Rightarrow> x = y
      | (EChar x, EChar y) \<Rightarrow> x = y
      | (ENone, ENone) \<Rightarrow> True
      | _ \<Rightarrow> False)"

definition e_match :: "'f eplat \<Rightarrow> 'f Pattern \<Rightarrow> 'f EValue \<Rightarrow> bool" where
  "e_match P pat v =
     (if pat_kind pat = lit ''wild'' then True
      else if pat_kind pat = lit ''ident'' then True
      else if pat_kind pat = lit ''lit'' then
        (case pat_value pat of Some e \<Rightarrow> literal_equal P (literal_value e) v | None \<Rightarrow> False)
      else if pat_kind pat = lit ''ctor'' then
        (if pat_name pat = lit ''Some'' then (case v of EOption True _ \<Rightarrow> True | _ \<Rightarrow> False)
         else if pat_name pat = lit ''None'' then (case v of EOption False _ \<Rightarrow> True | _ \<Rightarrow> False)
         else if pat_name pat = lit ''Ok'' then (case v of EResult True _ _ \<Rightarrow> True | _ \<Rightarrow> False)
         else if pat_name pat = lit ''Err'' then (case v of EResult False _ _ \<Rightarrow> True | _ \<Rightarrow> False)
         else contains_str (debug_evalue P v) (pat_name pat))
      else False)"

subsection \<open>Blocks and calls\<close>

text \<open>
  The handlers take the evaluators they call as arguments: \<open>ev\<close> for expressions and \<open>es\<close> for
  statements.
\<close>

fun block_stmts :: "('f Stmt \<Rightarrow> ('f, 'f EValue) estep) \<Rightarrow> 'f Stmt list \<Rightarrow> 'f EValue \<Rightarrow> ('f, 'f EValue) estep"
  where
  "block_stmts es [] last_val = s_ret last_val"
| "block_stmts es (t # ts) _ =
     s_bind (es t) (\<lambda>v. s_with (\<lambda>s.
       if en_returned s then s_ret (en_return s) else block_stmts es ts v))"

definition clear_return :: "'f engine \<Rightarrow> 'f engine" where
  "clear_return s = s\<lparr>en_returned := False, en_return := ENone\<rparr>"

definition exec_block :: "('f Stmt \<Rightarrow> ('f, 'f EValue) estep) \<Rightarrow> 'f Stmt list \<Rightarrow> ('f, 'f EValue) estep" where
  "exec_block es ts = s_bind (s_upd clear_return) (\<lambda>_. block_stmts es ts ENone)"

definition scoped_block :: "('f Stmt \<Rightarrow> ('f, 'f EValue) estep) \<Rightarrow> 'f Stmt list \<Rightarrow> ('f, 'f EValue) estep" where
  "scoped_block es ts = s_around push_scope (exec_block es ts) pop_scope"

definition phase_of :: "'f FnDef \<Rightarrow> LoopPhase" where
  "phase_of d =
     (case fd_loop d of
        Some cl \<Rightarrow> loop_to_phase cl
      | None \<Rightarrow> if fd_effect d = Io \<or> fd_effect d = Async then Acting else Reasoning)"

definition log_event :: "'f RunEvent \<Rightarrow> 'f engine \<Rightarrow> 'f engine" where
  "log_event e s = s\<lparr>en_events := en_events s @ [e]\<rparr>"

definition bind_params :: "'f FnParam list \<Rightarrow> 'f EValue list \<Rightarrow> 'f engine \<Rightarrow> 'f engine" where
  "bind_params ps args s = fold (\<lambda>(p, v). en_define (param_name p) v) (zip ps args) s"

text \<open>The checks before the body: the time at which the call started.\<close>

definition call_checks :: "'f eplat \<Rightarrow> 'f FnDef \<Rightarrow> ('f, nat) estep" where
  "call_checks P d =
     s_bind (s_upd (\<lambda>s. s\<lparr>en_depth := en_depth s + 1\<rparr>)) (\<lambda>_.
     s_bind (read_clock P) (\<lambda>start.
     s_bind (case fd_loop d of Some cl \<Rightarrow> check_phase cl (fd_name d) | None \<Rightarrow> s_ret ()) (\<lambda>_.
     s_bind (case fd_governance d of Some g \<Rightarrow> check_governance g (fd_name d) | None \<Rightarrow> s_ret ()) (\<lambda>_.
     s_ret start))))"

definition call_enter :: "'f eplat \<Rightarrow> 'f FnDef \<Rightarrow> 'f EValue list \<Rightarrow> nat \<Rightarrow> ('f, unit) estep" where
  "call_enter P d args start =
     s_bind (elapsed_us P start) (\<lambda>t.
     s_bind (s_upd (advance_phase (phase_of d) (fd_name d) t)) (\<lambda>_.
     s_bind (elapsed_us P start) (\<lambda>t.
     s_bind (s_upd (log_event (FnCalled (fd_name d) (phase_of d) (fd_governance d) t))) (\<lambda>_.
     s_upd (\<lambda>s. bind_params (fd_params d) args (push_scope s))))))"

definition result_value :: "('e, 'f EValue) outcome \<Rightarrow> 'f EValue" where
  "result_value r = (case r of Ok v \<Rightarrow> v | _ \<Rightarrow> ENone)"

definition call_leave ::
  "'f eplat \<Rightarrow> 'f FnDef \<Rightarrow> nat \<Rightarrow> (e_error, 'f EValue) outcome \<Rightarrow> ('f, 'f EValue) estep" where
  "call_leave P d start r =
     s_bind (s_upd (\<lambda>s. pop_scope (case fd_governance d of
         Some g \<Rightarrow> log_check (fd_name d) g True s | None \<Rightarrow> s))) (\<lambda>_.
     s_bind (elapsed_ms P start) (\<lambda>ms.
     s_bind (s_upd (\<lambda>s. s\<lparr>en_timings := en_timings s @ [(fd_name d, ms)]\<rparr>)) (\<lambda>_.
     s_bind (s_upd (fold (\<lambda>e. log_event (TimeWarned (fd_name d) (show_e_error e)))
       (case fd_time d of Some tc \<Rightarrow> check_time tc (fd_name d) ms | None \<Rightarrow> []))) (\<lambda>_.
     s_bind (elapsed_us P start) (\<lambda>t.
     s_bind (s_upd (log_event (FnReturned (fd_name d) (result_value r) t))) (\<lambda>_.
     s_bind (s_upd (\<lambda>s. s\<lparr>en_depth := en_depth s - 1\<rparr>)) (\<lambda>_.
     s_out r)))))))"

definition overflow_text :: ustr where
  "overflow_text = lit ''stack overflow: max call depth '' @ show_nat max_depth @ lit '' exceeded''"

text \<open>What comes before the body, and the whole call.\<close>

definition call_prologue :: "'f eplat \<Rightarrow> 'f FnDef \<Rightarrow> 'f EValue list \<Rightarrow> ('f, nat) estep" where
  "call_prologue P d args =
     s_bind (call_checks P d) (\<lambda>start. s_bind (call_enter P d args start) (\<lambda>_. s_ret start))"

definition call_fn ::
  "'f eplat \<Rightarrow> ('f Stmt \<Rightarrow> ('f, 'f EValue) estep) \<Rightarrow> 'f FnDef \<Rightarrow> 'f EValue list \<Rightarrow> ('f, 'f EValue) estep" where
  "call_fn P es d args = s_with (\<lambda>s.
     if max_depth \<le> en_depth s then s_fail (ERuntimePanic overflow_text)
     else
       s_bind (call_prologue P d args) (\<lambda>start.
       s_bind (s_try (exec_block es (fd_body d))) (\<lambda>r.
       call_leave P d start r)))"

definition call_named ::
  "'f eplat \<Rightarrow> ('f Stmt \<Rightarrow> ('f, 'f EValue) estep) \<Rightarrow> ustr \<Rightarrow> 'f EValue list \<Rightarrow> ('f, 'f EValue) estep" where
  "call_named P es name args = s_bind (lookup_fn name) (\<lambda>d. call_fn P es d args)"

subsection \<open>Expressions\<close>

definition e_ident :: "ustr \<Rightarrow> ('f, 'f EValue) estep" where
  "e_ident name = s_with (\<lambda>s.
     case lookup_frames (en_frames s) name of
       Some v \<Rightarrow> s_ret v
     | None \<Rightarrow>
         if en_functions s name \<noteq> None then s_ret (EFunc name)
         else s_fail (EUndefinedVariable name))"

definition call_target :: "'f eplat \<Rightarrow> 'f EValue \<Rightarrow> (e_error, ustr) outcome" where
  "call_target P v =
     (case v of
        EFunc name \<Rightarrow> Ok name
      | EString name \<Rightarrow> Ok name
      | _ \<Rightarrow> Err (ETypeError (lit ''function'') (show_evalue P v) (lit ''call target is not a function'')))"

definition e_call ::
  "'f eplat \<Rightarrow> ('f Expr \<Rightarrow> ('f, 'f EValue) estep) \<Rightarrow> ('f Stmt \<Rightarrow> ('f, 'f EValue) estep) \<Rightarrow>
   'f Expr \<Rightarrow> 'f Expr list \<Rightarrow> ('f, 'f EValue) estep" where
  "e_call P ev es func args =
     s_bind (ev func) (\<lambda>f.
     s_bind (s_out (call_target P f)) (\<lambda>name.
     s_bind (s_all ev args) (\<lambda>vs.
     call_named P es name vs)))"

definition e_cond :: "'f eplat \<Rightarrow> ('f Expr \<Rightarrow> ('f, 'f EValue) estep) \<Rightarrow> 'f Expr \<Rightarrow> ('f, bool) estep" where
  "e_cond P ev c = s_bind (ev c) (\<lambda>v. s_out (as_bool P v))"

text \<open>The guard of an arm: an arm without one is taken.\<close>

definition e_guard :: "'f eplat \<Rightarrow> ('f Expr \<Rightarrow> ('f, 'f EValue) estep) \<Rightarrow> 'f MatchArm \<Rightarrow> ('f, bool) estep" where
  "e_guard P ev arm = (case arm_guard arm of None \<Rightarrow> s_ret True | Some g \<Rightarrow> e_cond P ev g)"

fun e_arms ::
  "'f eplat \<Rightarrow> ('f Expr \<Rightarrow> ('f, 'f EValue) estep) \<Rightarrow> ('f MatchArm \<Rightarrow> ('f, 'f EValue) estep) \<Rightarrow>
   'f EValue \<Rightarrow> 'f MatchArm list \<Rightarrow> ('f, 'f EValue) estep" where
  "e_arms P ev body v [] = s_ret ENone"
| "e_arms P ev body v (arm # arms) =
     (if e_match P (arm_pattern arm) v
      then s_bind (e_guard P ev arm) (\<lambda>go. if go then body arm else e_arms P ev body v arms)
      else e_arms P ev body v arms)"

text \<open>The body of an arm of a match expression: its statements, not as a block.\<close>

fun plain_stmts :: "('f Stmt \<Rightarrow> ('f, 'f EValue) estep) \<Rightarrow> 'f Stmt list \<Rightarrow> 'f EValue \<Rightarrow> ('f, 'f EValue) estep"
  where
  "plain_stmts es [] last_val = s_ret last_val"
| "plain_stmts es (t # ts) _ = s_bind (es t) (plain_stmts es ts)"

definition e_member :: "'f eplat \<Rightarrow> 'f EValue \<Rightarrow> ustr \<Rightarrow> (e_error, 'f EValue) outcome" where
  "e_member P obj member =
     (case obj of
        EStruct _ fs \<Rightarrow>
          (case map_of fs member of
             Some v \<Rightarrow> Ok v
           | None \<Rightarrow> Err (EUndefinedVariable (lit ''struct field '' @ [39] @ member @ [39])))
      | _ \<Rightarrow> Err (ETypeError (lit ''struct'') (show_evalue P obj) (lit ''member access'')))"

definition e_index :: "'f eplat \<Rightarrow> 'f EValue \<Rightarrow> 'f EValue \<Rightarrow> (e_error, 'f EValue) outcome" where
  "e_index P arr idx =
     (case (arr, idx) of
        (EArray vs, EInt i) \<Rightarrow>
          if length vs \<le> unat i
          then Err (ERuntimePanic (lit ''index out of bounds: len='' @ show_nat (length vs) @
            lit '' index='' @ show_nat (unat i)))
          else Ok (vs ! unat i)
      | _ \<Rightarrow> Err (ETypeError (lit ''array[index]'')
            (show_evalue P arr @ lit ''['' @ show_evalue P idx @ lit '']'') (lit ''indexing'')))"

text \<open>The function a pipe operation calls.\<close>

definition pipe_target :: "'f eplat \<Rightarrow> ustr \<Rightarrow> 'f Expr \<Rightarrow> ustr" where
  "pipe_target P op e =
     (if op \<in> {lit ''map'', lit ''filter'', lit ''fold''}
      then (case e of Ident name \<Rightarrow> name | StringLiteral s \<Rightarrow> s | _ \<Rightarrow> e_expr_debug P e)
      else op)"

fun e_pipe ::
  "'f eplat \<Rightarrow> ('f Stmt \<Rightarrow> ('f, 'f EValue) estep) \<Rightarrow> (ustr \<times> 'f Expr) list \<Rightarrow> 'f EValue \<Rightarrow>
   ('f, 'f EValue) estep" where
  "e_pipe P es [] v = s_ret v"
| "e_pipe P es ((op, e) # ops) v = s_bind (call_named P es (pipe_target P op e) [v]) (e_pipe P es ops)"

definition e_range :: "'f eplat \<Rightarrow> bool \<Rightarrow> 'f EValue \<Rightarrow> 'f EValue \<Rightarrow> (e_error, 'f EValue) outcome" where
  "e_range P inclusive s e =
     (case (s, e) of
        (EInt a, EInt b) \<Rightarrow>
          Ok (EArray (map (\<lambda>i. EInt (word_of_int i))
            (if inclusive then [sint a..sint b] else [sint a..sint b - 1])))
      | _ \<Rightarrow> Err (ETypeError (lit ''int..int'') (show_evalue P s @ lit ''..'' @ show_evalue P e)
            (lit ''range requires integers'')))"

definition e_expr_step ::
  "'f eplat \<Rightarrow> ('f Expr \<Rightarrow> ('f, 'f EValue) estep) \<Rightarrow> ('f Stmt \<Rightarrow> ('f, 'f EValue) estep) \<Rightarrow>
   'f Expr \<Rightarrow> ('f, 'f EValue) estep" where
  "e_expr_step P ev es expr =
     (case expr of
        IntLiteral v \<Rightarrow> s_ret (EInt v)
      | FloatLiteral v \<Rightarrow> s_ret (EFloat v)
      | StringLiteral s \<Rightarrow> s_ret (EString s)
      | BoolLiteral b \<Rightarrow> s_ret (EBool b)
      | CharLiteral c \<Rightarrow> s_ret (EChar c)
      | Ident name \<Rightarrow> e_ident name
      | BinaryOp l op r \<Rightarrow>
          s_bind (ev l) (\<lambda>a. s_bind (ev r) (\<lambda>b. s_out (e_binary P a op b)))
      | UnaryOp op e \<Rightarrow> s_bind (ev e) (\<lambda>v. s_out (e_unary P op v))
      | Call func args \<Rightarrow> e_call P ev es func args
      | IfExpr c t e \<Rightarrow> s_bind (e_cond P ev c) (\<lambda>b. if b then ev t else ev e)
      | MatchExpr target arms \<Rightarrow>
          s_bind (ev target) (\<lambda>v.
            e_arms P ev (\<lambda>arm. plain_stmts es (arm_body arm) ENone) v arms)
      | Array items \<Rightarrow> s_bind (s_all ev items) (\<lambda>vs. s_ret (EArray vs))
      | MemberAccess obj member \<Rightarrow> s_bind (ev obj) (\<lambda>v. s_out (e_member P v member))
      | Index array index \<Rightarrow>
          s_bind (ev array) (\<lambda>a. s_bind (ev index) (\<lambda>i. s_out (e_index P a i)))
      | Pipe input ops \<Rightarrow> s_bind (ev input) (e_pipe P es ops)
      | Range start end_ inclusive \<Rightarrow>
          s_bind (ev start) (\<lambda>a. s_bind (ev end_) (\<lambda>b. s_out (e_range P inclusive a b)))
      | OptionValue is_some v \<Rightarrow>
          if is_some then s_bind (s_opt ev v) (\<lambda>x. s_ret (EOption True x))
          else s_ret (EOption False None)
      | ResultValue is_ok v e \<Rightarrow>
          if is_ok then s_bind (s_opt ev v) (\<lambda>x. s_ret (EResult True x None))
          else s_bind (s_opt ev e) (\<lambda>x. s_ret (EResult False None x)))"

subsection \<open>Statements\<close>

definition e_value_or_none ::
  "('f Expr \<Rightarrow> ('f, 'f EValue) estep) \<Rightarrow> 'f Expr option \<Rightarrow> ('f, 'f EValue) estep" where
  "e_value_or_none ev v = (case v of Some e \<Rightarrow> ev e | None \<Rightarrow> s_ret ENone)"

definition e_let ::
  "('f Expr \<Rightarrow> ('f, 'f EValue) estep) \<Rightarrow> ustr \<Rightarrow> 'f Expr option \<Rightarrow> ('f, 'f EValue) estep" where
  "e_let ev name value =
     s_bind (e_value_or_none ev value) (\<lambda>v. s_bind (s_upd (en_define name v)) (\<lambda>_. s_ret ENone))"

definition set_return :: "'f EValue \<Rightarrow> 'f engine \<Rightarrow> 'f engine" where
  "set_return v s = s\<lparr>en_returned := True, en_return := v\<rparr>"

text \<open>
  A round of a loop ends the loop when the body returned. An error of the body leaves the loop with
  its scope still on the stack.
\<close>

definition after_round :: "('f, 'f EValue) estep \<Rightarrow> ('f, 'f EValue) estep" where
  "after_round rest = s_bind (s_upd pop_scope) (\<lambda>_. s_with (\<lambda>s.
     if en_returned s then s_ret (en_return s) else rest))"

fun e_while ::
  "'f eplat \<Rightarrow> ('f Expr \<Rightarrow> ('f, 'f EValue) estep) \<Rightarrow> ('f Stmt \<Rightarrow> ('f, 'f EValue) estep) \<Rightarrow> nat \<Rightarrow>
   'f Expr \<Rightarrow> 'f Stmt list \<Rightarrow> ('f, 'f EValue) estep" where
  "e_while P ev es 0 c body = s_stuck"
| "e_while P ev es (Suc n) c body =
     s_bind (e_cond P ev c) (\<lambda>b.
       if \<not> b then s_ret ENone
       else s_bind (s_upd push_scope) (\<lambda>_. s_bind (exec_block es body) (\<lambda>_.
         after_round (e_while P ev es n c body))))"

fun e_for ::
  "('f Stmt \<Rightarrow> ('f, 'f EValue) estep) \<Rightarrow> ustr \<Rightarrow> 'f Stmt list \<Rightarrow> 'f EValue list \<Rightarrow> ('f, 'f EValue) estep"
  where
  "e_for es target body [] = s_ret ENone"
| "e_for es target body (v # vs) =
     s_bind (s_upd (\<lambda>s. en_define target v (push_scope s))) (\<lambda>_. s_bind (exec_block es body) (\<lambda>_.
       after_round (e_for es target body vs)))"

definition for_items :: "'f eplat \<Rightarrow> 'f EValue \<Rightarrow> (e_error, 'f EValue list) outcome" where
  "for_items P v =
     (case v of
        EArray vs \<Rightarrow> Ok vs
      | EString s \<Rightarrow> Ok (map (\<lambda>c. EString [c]) s)
      | _ \<Rightarrow> Err (ETypeError (lit ''array or string'') (debug_evalue P v)
            (lit ''for loop requires iterable'')))"

definition e_try_catch ::
  "('f Stmt \<Rightarrow> ('f, 'f EValue) estep) \<Rightarrow> 'f Stmt list \<Rightarrow> ustr option \<Rightarrow> 'f Stmt list \<Rightarrow>
   ('f, 'f EValue) estep" where
  "e_try_catch es try_body catch_param catch_body =
     s_bind (s_try (scoped_block es try_body)) (\<lambda>r.
       case r of
         Ok v \<Rightarrow> s_ret v
       | Err e \<Rightarrow>
           s_around
             (\<lambda>s. (case catch_param of Some p \<Rightarrow> en_define p (EString (show_e_error e)) | None \<Rightarrow> id)
               (push_scope s))
             (exec_block es catch_body) pop_scope
       | Panic \<Rightarrow> s_out Panic)"

definition e_assert ::
  "'f eplat \<Rightarrow> ('f Expr \<Rightarrow> ('f, 'f EValue) estep) \<Rightarrow> 'f Expr \<Rightarrow> 'f Expr option \<Rightarrow> ('f, 'f EValue) estep" where
  "e_assert P ev c message =
     s_bind (e_cond P ev c) (\<lambda>b.
       if b then s_ret ENone
       else case message of
           Some m \<Rightarrow> s_bind (ev m) (\<lambda>v. s_fail (EAssertionFailed (show_evalue P v)))
         | None \<Rightarrow> s_fail (EAssertionFailed (lit ''assertion failed'')))"

definition spawned_fn :: "ustr \<Rightarrow> 'f FnParam list \<Rightarrow> FnAnnot \<Rightarrow> 'f Stmt list \<Rightarrow> 'f FnDef" where
  "spawned_fn name params an body =
     \<lparr>fd_name = name, fd_params = params, fd_body = body,
      fd_effect = (case an_effect an of Some e \<Rightarrow> parse_effect e | None \<Rightarrow> Spawn),
      fd_capability = (case an_capability an of Some c \<Rightarrow> parse_capability c | None \<Rightarrow> Cpu),
      fd_confidence = None, fd_loop = None, fd_governance = None, fd_time = None\<rparr>"

definition e_spawn :: "'f Stmt \<Rightarrow> ('f, 'f EValue) estep" where
  "e_spawn fn_decl =
     s_bind (s_upd (case fn_decl of
         SFn name params _ an body _ _ \<Rightarrow> register_fn (spawned_fn name params an body)
       | _ \<Rightarrow> id)) (\<lambda>_. s_ret ENone)"

definition e_stmt_step ::
  "'f eplat \<Rightarrow> nat \<Rightarrow> ('f Expr \<Rightarrow> ('f, 'f EValue) estep) \<Rightarrow> ('f Stmt \<Rightarrow> ('f, 'f EValue) estep) \<Rightarrow>
   'f Stmt \<Rightarrow> ('f, 'f EValue) estep" where
  "e_stmt_step P n ev es stmt =
     (case stmt of
        SLet name value _ _ \<Rightarrow> e_let ev name value
      | SConst name value _ \<Rightarrow> e_let ev name value
      | SReturn v \<Rightarrow>
          s_bind (e_value_or_none ev v) (\<lambda>x. s_bind (s_upd (set_return x)) (\<lambda>_. s_ret x))
      | SIf c then_body else_body \<Rightarrow>
          s_bind (e_cond P ev c) (\<lambda>b. if b then scoped_block es then_body else scoped_block es else_body)
      | SWhile c body \<Rightarrow> e_while P ev es n c body
      | SFor target iterable body \<Rightarrow>
          s_bind (ev iterable) (\<lambda>v. s_bind (s_out (for_items P v)) (e_for es target body))
      | SMatch target arms \<Rightarrow>
          s_bind (ev target) (\<lambda>v. e_arms P ev (\<lambda>arm. scoped_block es (arm_body arm)) v arms)
      | SExpr e \<Rightarrow> ev e
      | STryCatch try_body catch_param catch_body \<Rightarrow> e_try_catch es try_body catch_param catch_body
      | SAssert c message \<Rightarrow> e_assert P ev c message
      | SSpawn fn_decl \<Rightarrow> e_spawn fn_decl
      | _ \<Rightarrow> s_ret ENone)"

subsection \<open>The engine\<close>

fun run_expr :: "'f eplat \<Rightarrow> nat \<Rightarrow> 'f Expr \<Rightarrow> ('f, 'f EValue) estep"
and run_stmt :: "'f eplat \<Rightarrow> nat \<Rightarrow> 'f Stmt \<Rightarrow> ('f, 'f EValue) estep" where
  "run_expr P 0 e = s_stuck"
| "run_expr P (Suc n) e = e_expr_step P (run_expr P n) (run_stmt P n) e"
| "run_stmt P 0 t = s_stuck"
| "run_stmt P (Suc n) t = e_stmt_step P n (run_expr P n) (run_stmt P n) t"

definition engine_call :: "'f eplat \<Rightarrow> nat \<Rightarrow> ustr \<Rightarrow> 'f EValue list \<Rightarrow> ('f, 'f EValue) estep" where
  "engine_call P n name args = call_named P (run_stmt P n) name args"

text \<open>
  \<open>run_compiled\<close>: the outer option is fuel; a panic while loading is a panic of the run.
\<close>

definition run_compiled ::
  "'f eplat \<Rightarrow> nat \<Rightarrow> 'f Program \<Rightarrow> ustr \<Rightarrow> (e_error, 'f RunEvent list) outcome option" where
  "run_compiled P n prog entry =
     (case load_program (ovf_checks P) prog (engine_new Execute) of
        None \<Rightarrow> Some Panic
      | Some s \<Rightarrow>
          (case engine_call P n entry [] s of
             None \<Rightarrow> None
           | Some (Ok _, s') \<Rightarrow> Some (Ok (en_events s'))
           | Some (Err e, _) \<Rightarrow> Some (Err e)
           | Some (Panic, _) \<Rightarrow> Some Panic))"

subsection \<open>The self-healing runtime\<close>

datatype RecoveryMode = Fallback | RetryWithDefault | DegradeGovernance

record RecoveryEvent =
  rec_fn :: ustr
  rec_error :: e_error
  rec_mode :: RecoveryMode
  rec_success :: bool
  rec_time :: nat

record 'f healing =
  h_inner :: "'f engine"
  h_mode :: RecoveryMode
  h_log :: "RecoveryEvent list"
  h_seq :: nat

definition healing_new :: "GovernanceLevel \<Rightarrow> 'f healing" where
  "healing_new g = \<lparr>h_inner = engine_new g, h_mode = Fallback, h_log = [], h_seq = 0\<rparr>"

definition on_inner :: "('f, 'a) estep \<Rightarrow> ('f healing, e_error, 'a) step" where
  "on_inner m = (\<lambda>h. case m (h_inner h) of
       None \<Rightarrow> None
     | Some (r, s) \<Rightarrow> Some (r, h\<lparr>h_inner := s\<rparr>))"

definition set_session :: "GovernanceLevel \<Rightarrow> 'f healing \<Rightarrow> 'f healing" where
  "set_session g h = h\<lparr>h_inner := (h_inner h)\<lparr>en_session := g\<rparr>\<rparr>"

definition next_seq :: "('f healing, e_error, nat) step" where
  "next_seq = s_with (\<lambda>h. s_bind (s_upd (\<lambda>h. h\<lparr>h_seq := h_seq h + 1\<rparr>)) (\<lambda>_. s_ret (h_seq h)))"

definition log_recovery :: "ustr \<Rightarrow> e_error \<Rightarrow> RecoveryMode \<Rightarrow> bool \<Rightarrow> nat \<Rightarrow> 'f healing \<Rightarrow> 'f healing" where
  "log_recovery name e mode ok seq h =
     h\<lparr>h_log := h_log h @ [\<lparr>rec_fn = name, rec_error = e, rec_mode = mode, rec_success = ok,
       rec_time = seq * 1000\<rparr>]\<rparr>"

primrec degraded :: "GovernanceLevel \<Rightarrow> GovernanceLevel option" where
  "degraded Execute = Some Approve"
| "degraded Approve = Some Suggest"
| "degraded Suggest = Some Prepare"
| "degraded Prepare = None"

definition heal_fallback ::
  "ustr \<Rightarrow> e_error \<Rightarrow> ('f healing, e_error, 'f EValue) step \<Rightarrow> ('f healing, e_error, 'f EValue) step" where
  "heal_fallback name e call =
     (if (case e of ELoopViolation _ _ _ \<Rightarrow> True | EEffectViolation _ _ _ \<Rightarrow> True | _ \<Rightarrow> False)
      then
        s_bind next_seq (\<lambda>_.
        s_bind (s_upd (set_session Suggest)) (\<lambda>_.
        s_bind (s_try call) (\<lambda>retry.
        s_bind next_seq (\<lambda>seq.
        s_bind (s_upd (log_recovery name e Fallback (is_Ok retry) seq)) (\<lambda>_.
          if is_Ok retry then s_out retry
          else s_bind (s_upd (set_session Execute)) (\<lambda>_. s_fail e))))))
      else s_fail e)"

definition heal_default ::
  "ustr \<Rightarrow> e_error \<Rightarrow> ('f healing, e_error, 'f EValue) step" where
  "heal_default name e =
     (if e = EDivisionByZero then
        s_bind next_seq (\<lambda>seq.
        s_bind (s_upd (log_recovery name e RetryWithDefault True seq)) (\<lambda>_.
        s_ret (EInt 0)))
      else s_fail e)"

definition heal_degrade ::
  "ustr \<Rightarrow> e_error \<Rightarrow> ('f healing, e_error, 'f EValue) step \<Rightarrow> ('f healing, e_error, 'f EValue) step" where
  "heal_degrade name e call =
     (case e of
        EGovernanceViolation _ _ _ \<Rightarrow>
          s_bind next_seq (\<lambda>seq. s_with (\<lambda>h.
            case degraded (en_session (h_inner h)) of
              None \<Rightarrow> s_fail e
            | Some g \<Rightarrow>
                s_bind (s_upd (set_session g)) (\<lambda>_.
                s_bind (s_try call) (\<lambda>retry.
                s_bind (s_upd (log_recovery name e DegradeGovernance (is_Ok retry) seq)) (\<lambda>_.
                if is_Ok retry then s_out retry else s_fail e)))))
      | _ \<Rightarrow> s_fail e)"

definition call_with_healing ::
  "'f eplat \<Rightarrow> nat \<Rightarrow> ustr \<Rightarrow> 'f EValue list \<Rightarrow> ('f healing, e_error, 'f EValue) step" where
  "call_with_healing P n name args =
     (let call = on_inner (engine_call P n name args) in
      s_bind (s_try call) (\<lambda>r.
        case r of
          Err e \<Rightarrow> s_with (\<lambda>h. case h_mode h of
              Fallback \<Rightarrow> heal_fallback name e call
            | RetryWithDefault \<Rightarrow> heal_default name e
            | DegradeGovernance \<Rightarrow> heal_degrade name e call)
        | r \<Rightarrow> s_out r))"

definition recovery_count :: "'f healing \<Rightarrow> nat" where
  "recovery_count h = length (h_log h)"

definition run_with_healing ::
  "'f eplat \<Rightarrow> nat \<Rightarrow> 'f Program \<Rightarrow> ustr \<Rightarrow> GovernanceLevel \<Rightarrow>
   (e_error, 'f RunEvent list) outcome option" where
  "run_with_healing P n prog entry g =
     (case load_program (ovf_checks P) prog (engine_new g) of
        None \<Rightarrow> Some Panic
      | Some s \<Rightarrow>
          (case call_with_healing P n entry [] ((healing_new g)\<lparr>h_inner := s\<rparr>) of
             None \<Rightarrow> None
           | Some (Ok _, h) \<Rightarrow> Some (Ok (en_events (h_inner h)))
           | Some (Err e, _) \<Rightarrow> Some (Err e)
           | Some (Panic, _) \<Rightarrow> Some Panic))"

end
