(* ===== verification/EngineCorrect.thy ===== *)
theory EngineCorrect
  imports Engine
begin

section \<open>What the runtime engine guarantees\<close>

text \<open>
  Governance, cognitive phases and the depth of calls as relations between the states before and
  after a run, each an interpretation of one locale of relations that every step respects; and that
  more fuel keeps every result.
\<close>

subsection \<open>Fuel\<close>

lemma below_block_stmts: "s_below_all es es' \<Longrightarrow> s_below (block_stmts es ts v) (block_stmts es' ts v)"
  by (induction ts arbitrary: v) (auto simp: s_below_all_def intro!: step_mono)

lemma below_exec_block [step_mono]: "s_below_all es es' \<Longrightarrow> s_below (exec_block es ts) (exec_block es' ts)"
  unfolding exec_block_def by (auto intro!: step_mono below_block_stmts)

lemma below_scoped [step_mono]: "s_below_all es es' \<Longrightarrow> s_below (scoped_block es ts) (scoped_block es' ts)"
  unfolding scoped_block_def by (intro step_mono)

lemma below_call_named [step_mono]:
  "s_below_all es es' \<Longrightarrow> s_below (call_named P es name args) (call_named P es' name args)"
  unfolding call_named_def call_fn_def by (auto intro!: step_mono)

lemma below_e_call [step_mono]:
  "s_below_all ev ev' \<Longrightarrow> s_below_all es es' \<Longrightarrow> s_below (e_call P ev es f args) (e_call P ev' es' f args)"
  unfolding e_call_def by (intro step_mono s_below_allD)

lemma below_cond [step_mono]: "s_below_all ev ev' \<Longrightarrow> s_below (e_cond P ev c) (e_cond P ev' c)"
  unfolding e_cond_def by (intro step_mono s_below_allD)

lemma below_guard [step_mono]: "s_below_all ev ev' \<Longrightarrow> s_below (e_guard P ev arm) (e_guard P ev' arm)"
  unfolding e_guard_def by (auto split: option.split intro!: step_mono)

lemma en_below_arms [step_mono]:
  "s_below_all ev ev' \<Longrightarrow> (\<And>arm. s_below (b arm) (b' arm)) \<Longrightarrow>
   s_below (e_arms P ev b v arms) (e_arms P ev' b' v arms)"
  by (induction arms) (auto intro!: step_mono)

lemma below_plain [step_mono]: "s_below_all es es' \<Longrightarrow> s_below (plain_stmts es ts v) (plain_stmts es' ts v)"
  by (induction ts arbitrary: v) (auto simp: s_below_all_def intro!: step_mono)

lemma en_below_pipe [step_mono]: "s_below_all es es' \<Longrightarrow> s_below (e_pipe P es ops v) (e_pipe P es' ops v)"
  by (induction ops arbitrary: v) (auto intro!: step_mono)

lemma below_value [step_mono]:
  "s_below_all ev ev' \<Longrightarrow> s_below (e_value_or_none ev v) (e_value_or_none ev' v)"
  unfolding e_value_or_none_def by (auto simp: s_below_all_def split: option.split)

lemma below_round [step_mono]: "s_below m m' \<Longrightarrow> s_below (after_round m) (after_round m')"
  unfolding after_round_def by (auto intro!: step_mono)

lemma below_e_for [step_mono]: "s_below_all es es' \<Longrightarrow> s_below (e_for es x body vs) (e_for es' x body vs)"
  by (induction vs) (auto intro!: step_mono)

lemma below_e_while:
  "s_below_all ev ev' \<Longrightarrow> s_below_all es es' \<Longrightarrow> n \<le> m \<Longrightarrow>
   s_below (e_while P ev es n c body) (e_while P ev' es' m c body)"
proof (induction n arbitrary: m)
  case (Suc n)
  then obtain k where "m = Suc k" "n \<le> k" by (cases m) auto
  with Suc show ?case by (auto intro!: step_mono)
qed (simp add: s_below_stuck)

lemma en_below_expr_step:
  "s_below_all ev ev' \<Longrightarrow> s_below_all es es' \<Longrightarrow> s_below (e_expr_step P ev es e) (e_expr_step P ev' es' e)"
  unfolding e_expr_step_def by (cases e) (auto simp: s_below_all_def intro!: step_mono)

lemma en_below_stmt_step:
  "s_below_all ev ev' \<Longrightarrow> s_below_all es es' \<Longrightarrow> n \<le> m \<Longrightarrow>
   s_below (e_stmt_step P n ev es t) (e_stmt_step P m ev' es' t)"
  unfolding e_stmt_step_def e_let_def e_try_catch_def e_assert_def
  by (cases t) (auto simp: s_below_all_def split: option.split outcome.split intro!: step_mono below_e_while)

lemma engine_fuel_mono:
  "n \<le> m \<Longrightarrow> s_below_all (run_expr P n) (run_expr P m) \<and> s_below_all (run_stmt P n) (run_stmt P m)"
proof (induction n arbitrary: m)
  case (Suc n)
  then obtain k where m: "m = Suc k" "n \<le> k" by (cases m) auto
  from Suc.IH[OF m(2)] m(2) show ?case
    using en_below_expr_step[of "run_expr P n" "run_expr P k" "run_stmt P n" "run_stmt P k" P]
      en_below_stmt_step[of "run_expr P n" "run_expr P k" "run_stmt P n" "run_stmt P k" n k P]
    unfolding m(1) s_below_all_def by simp
qed (simp add: s_below_all_def s_below_stuck)

lemma engine_call_mono: "n \<le> m \<Longrightarrow> s_below (engine_call P n f args) (engine_call P m f args)"
  unfolding engine_call_def using engine_fuel_mono[of n m P] by (intro step_mono) simp

subsection \<open>Relations of every run\<close>

text \<open>
  A reflexive and transitive relation that the updates of the scopes, of the return flag and of the
  functions satisfy, and a call satisfies if its body does, relates the states before and after
  every expression and statement.
\<close>

locale engine_relation = step_relation R for R :: "'f engine \<Rightarrow> 'f engine \<Rightarrow> bool" +
  fixes P :: "'f eplat"
  assumes rel_frames: "R s (s\<lparr>en_frames := fs\<rparr>)"
    and rel_return: "R s (s\<lparr>en_returned := b, en_return := v\<rparr>)"
    and rel_register: "R s (register_fn d s)"
    and rel_call: "(\<And>ts. s_rel R (exec_block es ts)) \<Longrightarrow> s_rel R (call_fn P es d args)"
begin

lemma rel_updates [simp]:
  "R s (push_scope s)" "R s (pop_scope s)" "R s (clear_return s)" "R s (set_return v s)"
  by (simp_all add: push_scope_def pop_scope_def clear_return_def set_return_def rel_frames rel_return)

lemma rel_define [simp]: "R s (en_define x v s)"
  by (simp add: en_define_def rel_frames split: list.split)

lemma rel_define_push [simp]: "R s (en_define x v (push_scope s))"
  by (rule R_trans[of s "push_scope s"]) simp_all

lemma rel_block: "(\<And>t. s_rel R (es t)) \<Longrightarrow> s_rel R (block_stmts es ts v)"
  by (induction ts arbitrary: v) (auto intro!: step_rel)

lemma rel_exec_block [step_rel]: "(\<And>t. s_rel R (es t)) \<Longrightarrow> s_rel R (exec_block es ts)"
  unfolding exec_block_def by (intro step_rel rel_block) simp_all

lemma rel_scoped [step_rel]: "(\<And>t. s_rel R (es t)) \<Longrightarrow> s_rel R (scoped_block es ts)"
  unfolding scoped_block_def by (intro step_rel) simp_all

lemma rel_named [step_rel]: "(\<And>t. s_rel R (es t)) \<Longrightarrow> s_rel R (call_named P es f args)"
  unfolding call_named_def lookup_fn_def by (auto split: option.split intro!: step_rel rel_call rel_exec_block)

lemma rel_ident [step_rel]: "s_rel R (e_ident x)"
  unfolding e_ident_def by (auto split: option.split intro!: step_rel)

lemma rel_e_call [step_rel]:
  "(\<And>e. s_rel R (ev e)) \<Longrightarrow> (\<And>t. s_rel R (es t)) \<Longrightarrow> s_rel R (e_call P ev es f args)"
  unfolding e_call_def by (intro step_rel) simp_all

lemma rel_cond [step_rel]: "(\<And>e. s_rel R (ev e)) \<Longrightarrow> s_rel R (e_cond P ev c)"
  unfolding e_cond_def by (intro step_rel) simp_all

lemma rel_guard [step_rel]: "(\<And>e. s_rel R (ev e)) \<Longrightarrow> s_rel R (e_guard P ev arm)"
  unfolding e_guard_def by (auto split: option.split intro!: step_rel)

lemma rel_arms [step_rel]:
  "(\<And>e. s_rel R (ev e)) \<Longrightarrow> (\<And>arm. s_rel R (b arm)) \<Longrightarrow> s_rel R (e_arms P ev b v arms)"
  by (induction arms) (auto intro!: step_rel)

lemma rel_plain [step_rel]: "(\<And>t. s_rel R (es t)) \<Longrightarrow> s_rel R (plain_stmts es ts v)"
  by (induction ts arbitrary: v) (auto intro!: step_rel)

lemma rel_pipe [step_rel]: "(\<And>t. s_rel R (es t)) \<Longrightarrow> s_rel R (e_pipe P es ops v)"
  by (induction ops arbitrary: v) (auto intro!: step_rel)

lemma rel_value [step_rel]: "(\<And>e. s_rel R (ev e)) \<Longrightarrow> s_rel R (e_value_or_none ev v)"
  unfolding e_value_or_none_def by (auto split: option.split intro!: step_rel)

lemma rel_round [step_rel]: "s_rel R m \<Longrightarrow> s_rel R (after_round m)"
  unfolding after_round_def by (auto intro!: step_rel)

lemma rel_e_for [step_rel]: "(\<And>t. s_rel R (es t)) \<Longrightarrow> s_rel R (e_for es x body vs)"
  by (induction vs) (auto intro!: step_rel)

lemma rel_e_while [step_rel]:
  "(\<And>e. s_rel R (ev e)) \<Longrightarrow> (\<And>t. s_rel R (es t)) \<Longrightarrow> s_rel R (e_while P ev es n c body)"
  by (induction n) (auto intro!: step_rel)

lemma rel_try_catch [step_rel]:
  assumes "\<And>t. s_rel R (es t)"
  shows "s_rel R (e_try_catch es try_body p catch_body)"
proof -
  have "R s ((case p of Some x \<Rightarrow> en_define x v | None \<Rightarrow> id) (push_scope s))" for s v
    by (cases p) simp_all
  then show ?thesis
    unfolding e_try_catch_def using assms by (auto split: outcome.split intro!: step_rel)
qed

lemma rel_expr_step:
  "(\<And>e. s_rel R (ev e)) \<Longrightarrow> (\<And>t. s_rel R (es t)) \<Longrightarrow> s_rel R (e_expr_step P ev es e)"
  unfolding e_expr_step_def by (cases e) (auto intro!: step_rel)

lemma rel_stmt_step:
  "(\<And>e. s_rel R (ev e)) \<Longrightarrow> (\<And>t. s_rel R (es t)) \<Longrightarrow> s_rel R (e_stmt_step P n ev es t)"
  unfolding e_stmt_step_def e_let_def e_assert_def e_spawn_def
  by (cases t) (auto simp: rel_register split: option.split Statement.split intro!: step_rel)

lemma rel_run: "s_rel R (run_expr P n e) \<and> s_rel R (run_stmt P n t)"
  by (induction n arbitrary: e t) (simp_all add: s_rel_stuck rel_expr_step rel_stmt_step)

lemma rel_engine_call: "s_rel R (engine_call P n f args)"
  unfolding engine_call_def by (intro rel_named conjunct2[OF rel_run])

end

subsection \<open>Entering and leaving a call\<close>

definition late :: "'f FnDef \<Rightarrow> 'f engine \<Rightarrow> bool" where
  "late d s = (case fd_loop d of
       None \<Rightarrow> False
     | Some cl \<Rightarrow> en_phase s \<noteq> Idle \<and>
         the (phase_index (en_phase s)) < the (phase_index (loop_to_phase cl)))"

definition denied :: "'f FnDef \<Rightarrow> 'f engine \<Rightarrow> bool" where
  "denied d s = (case fd_governance d of None \<Rightarrow> False | Some g \<Rightarrow> \<not> permitted (en_session s) g)"

definition counted :: "'f engine \<Rightarrow> 'f engine" where
  "counted s = s\<lparr>en_depth := en_depth s + 1, en_reads := en_reads s + 1\<rparr>"

definition governance_logged :: "'f FnDef \<Rightarrow> bool \<Rightarrow> 'f engine \<Rightarrow> 'f engine" where
  "governance_logged d ok s = (case fd_governance d of Some g \<Rightarrow> log_check (fd_name d) g ok s | None \<Rightarrow> s)"

lemma phase_indexes [simp]: "phase_index (loop_to_phase cl) \<noteq> None" "p \<noteq> Idle \<Longrightarrow> phase_index p \<noteq> None"
  by (cases cl; simp) (cases p; simp)

lemma call_checks_eq:
  "call_checks P d s = Some (
     if late d s then (Err (ELoopViolation (the (fd_loop d)) Perceive (fd_name d)), counted s)
     else if denied d s then
       (Err (EGovernanceViolation (en_session s) (the (fd_governance d)) (fd_name d)),
        governance_logged d False (counted s))
     else (Ok (e_clock P (en_reads s)), governance_logged d True (counted s)))"
  using phase_indexes(2)[of "en_phase s"]
  by (cases "fd_loop d"; cases "fd_governance d")
    (auto simp: call_checks_def read_clock_def check_phase_def check_governance_def late_def denied_def
      counted_def governance_logged_def log_check_def Let_def s_simps split: option.splits)

definition entered :: "'f eplat \<Rightarrow> 'f FnDef \<Rightarrow> 'f EValue list \<Rightarrow> nat \<Rightarrow> 'f engine \<Rightarrow> 'f engine" where
  "entered P d args start s =
     bind_params (fd_params d) args (s\<lparr>en_phase := phase_of d,
       en_history := en_history s @ [(phase_of d, fd_name d, (e_clock P (en_reads s) - start) mod 2 ^ 64)],
       en_reads := Suc (Suc (en_reads s)),
       en_events := en_events s @ [FnCalled (fd_name d) (phase_of d) (fd_governance d)
         ((e_clock P (Suc (en_reads s)) - start) mod 2 ^ 64)],
       en_frames := Map.empty # en_frames s\<rparr>)"

lemma call_enter_eq: "call_enter P d args start s = Some (Ok (), entered P d args start s)"
  by (simp add: call_enter_def elapsed_us_def read_clock_def entered_def advance_phase_def log_event_def
      push_scope_def s_simps)

lemma call_prologue_eq:
  "call_prologue P d args s = Some (
     if late d s then (Err (ELoopViolation (the (fd_loop d)) Perceive (fd_name d)), counted s)
     else if denied d s then
       (Err (EGovernanceViolation (en_session s) (the (fd_governance d)) (fd_name d)),
        governance_logged d False (counted s))
     else (Ok (e_clock P (en_reads s)),
       entered P d args (e_clock P (en_reads s)) (governance_logged d True (counted s))))"
  by (simp add: call_prologue_def call_checks_eq call_enter_eq s_bind_def s_ret_def)

lemma bind_params_frames: "\<exists>fs. bind_params ps args s = s\<lparr>en_frames := fs\<rparr>"
proof (induction "zip ps args" arbitrary: s ps args)
  case Nil
  then show ?case by (auto simp: bind_params_def intro!: exI[of _ "en_frames s"])
next
  case (Cons x xs)
  obtain p ps' v args' where z: "ps = p # ps'" "args = v # args'" "xs = zip ps' args'"
    using Cons.hyps(2) by (cases ps; cases args) auto
  from Cons.hyps(1)[OF z(3)] obtain fs where
    "bind_params ps' args' (en_define (param_name p) v s) = (en_define (param_name p) v s)\<lparr>en_frames := fs\<rparr>" by blast
  then show ?case by (auto simp: z bind_params_def en_define_def split: list.splits)
qed

lemma bind_params_fields [simp]:
  "en_session (bind_params ps args s) = en_session s" "en_depth (bind_params ps args s) = en_depth s"
  "en_phase (bind_params ps args s) = en_phase s" "en_functions (bind_params ps args s) = en_functions s"
  "en_history (bind_params ps args s) = en_history s" "en_events (bind_params ps args s) = en_events s"
proof -
  obtain fs where "bind_params ps args s = s\<lparr>en_frames := fs\<rparr>" using bind_params_frames by blast
  then show "en_session (bind_params ps args s) = en_session s" "en_depth (bind_params ps args s) = en_depth s"
    "en_phase (bind_params ps args s) = en_phase s" "en_functions (bind_params ps args s) = en_functions s"
    "en_history (bind_params ps args s) = en_history s" "en_events (bind_params ps args s) = en_events s"
    by simp_all
qed

text \<open>The fields of the state after entering and after leaving, apart from scopes and times.\<close>

lemma entered_fields [simp]:
  "en_session (entered P d args t s) = en_session s" "en_depth (entered P d args t s) = en_depth s"
  "en_phase (entered P d args t s) = phase_of d" "en_functions (entered P d args t s) = en_functions s"
  "en_history (entered P d args t s) =
     en_history s @ [(phase_of d, fd_name d, (e_clock P (en_reads s) - t) mod 2 ^ 64)]"
  "en_events (entered P d args t s) = en_events s @
     [FnCalled (fd_name d) (phase_of d) (fd_governance d) ((e_clock P (Suc (en_reads s)) - t) mod 2 ^ 64)]"
  by (simp_all add: entered_def)

lemma logged_fields [simp]:
  "en_session (governance_logged d b s) = en_session s" "en_depth (governance_logged d b s) = en_depth s"
  "en_phase (governance_logged d b s) = en_phase s" "en_functions (governance_logged d b s) = en_functions s"
  "en_history (governance_logged d b s) = en_history s" "en_events (governance_logged d b s) = en_events s"
  by (simp_all add: governance_logged_def log_check_def split: option.split)

lemma counted_fields [simp]:
  "en_session (counted s) = en_session s" "en_depth (counted s) = Suc (en_depth s)"
  "en_phase (counted s) = en_phase s" "en_functions (counted s) = en_functions s"
  "en_history (counted s) = en_history s" "en_events (counted s) = en_events s"
  by (simp_all add: counted_def)

lemma log_warnings: "fold (\<lambda>e. log_event (w e)) es s = s\<lparr>en_events := en_events s @ map w es\<rparr>"
  by (induction es arbitrary: s) (simp_all add: log_event_def)

definition quiet :: "'f RunEvent \<Rightarrow> bool" where
  "quiet e = (case e of FnCalled _ _ _ _ \<Rightarrow> False | _ \<Rightarrow> True)"

lemma call_leave_eq:
  "\<exists>s'. call_leave P d t r s = Some (r, s') \<and> en_session s' = en_session s \<and>
     en_depth s' = en_depth s - 1 \<and> en_phase s' = en_phase s \<and> en_functions s' = en_functions s \<and>
     en_history s' = en_history s \<and> en_frames s' = tl (en_frames s) \<and>
     en_returned s' = en_returned s \<and> en_return s' = en_return s \<and>
     (\<exists>new. en_events s' = en_events s @ new \<and> list_all quiet new)"
  by (auto simp: call_leave_def elapsed_us_def elapsed_ms_def read_clock_def pop_scope_def log_check_def
      log_warnings log_event_def quiet_def list_all_iff s_simps split: option.split)

text \<open>How a call ends: too deep, refused before the body, or with the outcome of the body.\<close>

definition body_state :: "'f eplat \<Rightarrow> 'f FnDef \<Rightarrow> 'f EValue list \<Rightarrow> 'f engine \<Rightarrow> 'f engine" where
  "body_state P d args s = entered P d args (e_clock P (en_reads s)) (governance_logged d True (counted s))"

lemma body_state_fields [simp]:
  "en_session (body_state P d args s) = en_session s" "en_depth (body_state P d args s) = Suc (en_depth s)"
  "en_phase (body_state P d args s) = phase_of d" "en_functions (body_state P d args s) = en_functions s"
  unfolding body_state_def by simp_all

lemma body_state_logs:
  "\<exists>u. en_history (body_state P d args s) = en_history s @ [(phase_of d, fd_name d, u)]"
  "\<exists>u. en_events (body_state P d args s) = en_events s @ [FnCalled (fd_name d) (phase_of d) (fd_governance d) u]"
  unfolding body_state_def by simp_all

lemma call_fn_eq:
  "call_fn P es d args s =
     (if max_depth \<le> en_depth s then Some (Err (ERuntimePanic overflow_text), s)
      else if late d s then Some (Err (ELoopViolation (the (fd_loop d)) Perceive (fd_name d)), counted s)
      else if denied d s then
        Some (Err (EGovernanceViolation (en_session s) (the (fd_governance d)) (fd_name d)),
          governance_logged d False (counted s))
      else case exec_block es (fd_body d) (body_state P d args s) of
          None \<Rightarrow> None
        | Some (Panic, s') \<Rightarrow> Some (Panic, s')
        | Some (r, s') \<Rightarrow> call_leave P d (e_clock P (en_reads s)) r s')"
  by (simp add: call_fn_def s_with_def s_bind_def[of "call_prologue P d args"] call_prologue_eq s_fail_def
      s_out_def body_state_def)
    (auto simp: s_bind_def s_try_def split: option.split outcome.split)

lemma call_fn_cases:
  assumes "call_fn P es d args s = Some (r, s')"
  obtains (deep) "max_depth \<le> en_depth s" "r = Err (ERuntimePanic overflow_text)" "s' = s"
  | (late) "en_depth s < max_depth" "late d s"
      "r = Err (ELoopViolation (the (fd_loop d)) Perceive (fd_name d))" "s' = counted s"
  | (denied) "en_depth s < max_depth" "denied d s" "s' = governance_logged d False (counted s)"
      "r = Err (EGovernanceViolation (en_session s) (the (fd_governance d)) (fd_name d))"
  | (panicked) "en_depth s < max_depth" "\<not> late d s" "\<not> denied d s" "r = Panic"
      "exec_block es (fd_body d) (body_state P d args s) = Some (Panic, s')"
  | (ended) t s2 where "en_depth s < max_depth" "\<not> late d s" "\<not> denied d s" "r \<noteq> Panic"
      "exec_block es (fd_body d) (body_state P d args s) = Some (r, s2)" "call_leave P d t r s2 = Some (r, s')"
proof (cases "max_depth \<le> en_depth s \<or> late d s \<or> denied d s")
  case True
  then show ?thesis
    using assms deep late denied by (auto simp: call_fn_eq split: if_splits)
next
  case False
  then obtain r0 s2 where b: "exec_block es (fd_body d) (body_state P d args s) = Some (r0, s2)"
    using assms by (auto simp: call_fn_eq split: option.splits)
  show ?thesis
  proof (cases "r0 = Panic")
    case True
    then show ?thesis using assms b False panicked by (auto simp: call_fn_eq)
  next
    case False
    then have "call_leave P d (e_clock P (en_reads s)) r0 s2 = Some (r, s')"
      using assms b \<open>\<not> (max_depth \<le> en_depth s \<or> late d s \<or> denied d s)\<close>
      by (cases r0) (simp_all add: call_fn_eq)
    moreover from this have "r = r0" using call_leave_eq[of P d "e_clock P (en_reads s)" r0 s2] by auto
    ultimately show ?thesis using b False \<open>\<not> (max_depth \<le> en_depth s \<or> late d s \<or> denied d s)\<close> ended by simp
  qed
qed

lemma call_leaveE:
  assumes "call_leave P d t r s = Some (r', s')"
  obtains new where "r' = r" "en_session s' = en_session s" "en_depth s' = en_depth s - 1"
    "en_phase s' = en_phase s" "en_functions s' = en_functions s" "en_history s' = en_history s"
    "en_frames s' = tl (en_frames s)" "en_returned s' = en_returned s" "en_return s' = en_return s"
    "en_events s' = en_events s @ new" "list_all quiet new"
  using assms call_leave_eq[of P d t r s] by auto

subsection \<open>Governance\<close>

text \<open>A call is allowed in a session if the session's level permits the function's level.\<close>

definition allowed :: "GovernanceLevel \<Rightarrow> 'f RunEvent \<Rightarrow> bool" where
  "allowed g e = (case e of FnCalled _ _ (Some t) _ \<Rightarrow> permitted g t | _ \<Rightarrow> True)"

lemma quiet_allowed: "quiet e \<Longrightarrow> allowed g e"
  by (cases e) (auto simp: quiet_def allowed_def)

definition governed :: "'f engine \<Rightarrow> 'f engine \<Rightarrow> bool" where
  "governed s s' = (en_session s' = en_session s \<and>
     (\<exists>new. en_events s' = en_events s @ new \<and> list_all (allowed (en_session s)) new))"

lemma governed_same: "en_session s' = en_session s \<Longrightarrow> en_events s' = en_events s \<Longrightarrow> governed s s'"
  by (auto simp: governed_def intro!: exI[of _ "[]"])

interpretation gov: step_relation governed
proof
  show "governed s s" for s by (simp add: governed_same)
  show "governed s u" if "governed s t" "governed t u" for s t u
    using that by (fastforce simp: governed_def)
qed

lemma governed_body: "\<not> denied d s \<Longrightarrow> governed s (body_state P d args s)"
  using body_state_logs(2)[of P d args s]
  by (fastforce simp: governed_def denied_def allowed_def split: option.splits)

interpretation gov_run: engine_relation governed P for P :: "'f eplat"
proof unfold_locales
  fix es :: "'f Stmt \<Rightarrow> ('f, 'f EValue) estep" and d args
  assume block: "\<And>ts. s_rel governed (exec_block es ts)"
  show "s_rel governed (call_fn P es d args)"
    unfolding s_rel_def
  proof (intro allI impI)
    fix s r s' assume "call_fn P es d args s = Some (r, s')"
    then show "governed s s'"
    proof (cases rule: call_fn_cases)
      case panicked
      then have "governed (body_state P d args s) s'" using block by (blast dest: s_relD)
      then show ?thesis
        using governed_body panicked(3) gov.R_trans by blast
    next
      case (ended t s2)
      then have "governed (body_state P d args s) s2" using block by (blast dest: s_relD)
      moreover have "governed s2 s'"
        using ended(6) by (elim call_leaveE) (auto simp: governed_def list_all_iff quiet_allowed)
      ultimately show ?thesis using governed_body ended(3) gov.R_trans by blast
    qed (simp_all add: governed_same)
  qed
qed (simp_all add: governed_same register_fn_def)

subsection \<open>Cognitive phases\<close>

text \<open>
  A change of phase is free out of \<open>Idle\<close> and into the phases of functions without a cognitive
  loop; otherwise it never goes forward in the order of the phases.
\<close>

definition phase_change :: "LoopPhase \<Rightarrow> LoopPhase \<Rightarrow> bool" where
  "phase_change p q = (p = Idle \<or> q = Reasoning \<or> q = Acting \<or>
     the (phase_index q) \<le> the (phase_index p))"

definition paced :: "'f engine \<Rightarrow> 'f engine \<Rightarrow> bool" where
  "paced s s' = (\<exists>new. en_history s' = en_history s @ new \<and>
     successively phase_change (en_phase s # map fst new) \<and>
     en_phase s' = last (en_phase s # map fst new))"

lemma paced_same: "en_history s' = en_history s \<Longrightarrow> en_phase s' = en_phase s \<Longrightarrow> paced s s'"
  by (simp add: paced_def)

lemma successively_join:
  "successively Q (x # xs) \<Longrightarrow> successively Q (last (x # xs) # ys) \<Longrightarrow> successively Q (x # xs @ ys)"
proof (induction xs arbitrary: x)
  case (Cons a xs)
  then show ?case by (auto split: if_splits)
qed simp

lemma paced_trans:
  assumes "paced s t" and "paced t u"
  shows "paced s u"
proof -
  obtain xs ys where x: "en_history t = en_history s @ xs" "successively phase_change (en_phase s # map fst xs)"
      "en_phase t = last (en_phase s # map fst xs)"
    and y: "en_history u = en_history t @ ys" "successively phase_change (en_phase t # map fst ys)"
      "en_phase u = last (en_phase t # map fst ys)"
    using assms unfolding paced_def by blast
  have "successively phase_change (en_phase s # map fst xs @ map fst ys)"
    using successively_join[OF x(2)] x(3) y(2) by simp
  moreover have "en_phase u = last ((en_phase s # map fst xs) @ map fst ys)"
    using x(3) y(3) by (cases ys) auto
  ultimately show ?thesis
    using x(1) y(1) unfolding paced_def by (intro exI[of _ "xs @ ys"]) simp
qed

interpretation pace: step_relation paced
  by unfold_locales (auto simp: paced_same intro: paced_trans)

lemma paced_body: "\<not> late d s \<Longrightarrow> paced s (body_state P d args s)"
proof -
  assume "\<not> late d s"
  then have "phase_change (en_phase s) (phase_of d)"
    by (auto simp: late_def phase_change_def phase_of_def not_less split: option.splits)
  with body_state_logs(1)[of P d args s] show ?thesis by (fastforce simp: paced_def)
qed

interpretation pace_run: engine_relation paced P for P :: "'f eplat"
proof unfold_locales
  fix es :: "'f Stmt \<Rightarrow> ('f, 'f EValue) estep" and d args
  assume block: "\<And>ts. s_rel paced (exec_block es ts)"
  show "s_rel paced (call_fn P es d args)"
    unfolding s_rel_def
  proof (intro allI impI)
    fix s r s' assume "call_fn P es d args s = Some (r, s')"
    then show "paced s s'"
    proof (cases rule: call_fn_cases)
      case panicked
      then have "paced (body_state P d args s) s'" using block by (blast dest: s_relD)
      then show ?thesis using paced_body panicked(2) paced_trans by blast
    next
      case (ended t s2)
      then have "paced (body_state P d args s) s2" using block by (blast dest: s_relD)
      moreover have "paced s2 s'" using ended(6) by (elim call_leaveE) (simp add: paced_same)
      ultimately show ?thesis using paced_body ended(2) paced_trans by blast
    qed (simp_all add: paced_same)
  qed
qed (simp_all add: paced_same register_fn_def)

subsection \<open>The depth of calls\<close>

definition deeper :: "'f engine \<Rightarrow> 'f engine \<Rightarrow> bool" where
  "deeper s s' = (en_depth s \<le> en_depth s' \<and> (en_depth s \<le> max_depth \<longrightarrow> en_depth s' \<le> max_depth))"

interpretation depth: step_relation deeper
  by unfold_locales (auto simp: deeper_def)

interpretation depth_run: engine_relation deeper P for P :: "'f eplat"
proof unfold_locales
  fix es :: "'f Stmt \<Rightarrow> ('f, 'f EValue) estep" and d args
  assume block: "\<And>ts. s_rel deeper (exec_block es ts)"
  show "s_rel deeper (call_fn P es d args)"
    unfolding s_rel_def
  proof (intro allI impI)
    fix s r s' assume "call_fn P es d args s = Some (r, s')"
    then show "deeper s s'"
    proof (cases rule: call_fn_cases)
      case panicked
      then have "deeper (body_state P d args s) s'" using block by (blast dest: s_relD)
      then show ?thesis using panicked(1) by (simp add: deeper_def)
    next
      case (ended t s2)
      then have "deeper (body_state P d args s) s2" using block by (blast dest: s_relD)
      then show ?thesis using ended(1,6) by (elim call_leaveE) (auto simp: deeper_def)
    qed (simp_all add: deeper_def)
  qed
qed (simp_all add: deeper_def register_fn_def)

end
