(* ===== verification/EngineReturns.thy ===== *)
theory EngineReturns
  imports EngineCorrect
begin

section \<open>Programs without while loops return\<close>

text \<open>
  The engine bounds the depth of calls, so a program can only run forever in a while loop. The
  proof is an induction on the calls left before the bound and, inside a function, on the syntax.
\<close>

fun loopless_expr :: "'f Expr \<Rightarrow> bool"
and loopless_exprs :: "'f Expr list \<Rightarrow> bool"
and loopless_arms :: "'f MatchArm list \<Rightarrow> bool"
and loopless_stmt :: "'f Stmt \<Rightarrow> bool"
and loopless_stmts :: "'f Stmt list \<Rightarrow> bool" where
  "loopless_expr (BinaryOp l op r) = (loopless_expr l \<and> loopless_expr r)"
| "loopless_expr (UnaryOp op e) = loopless_expr e"
| "loopless_expr (Call f args) = (loopless_expr f \<and> loopless_exprs args)"
| "loopless_expr (MemberAccess e m) = loopless_expr e"
| "loopless_expr (Index a i) = (loopless_expr a \<and> loopless_expr i)"
| "loopless_expr (Pipe e ops) = loopless_expr e"
| "loopless_expr (Range a b incl) = (loopless_expr a \<and> loopless_expr b)"
| "loopless_expr (Array es) = loopless_exprs es"
| "loopless_expr (OptionValue b (Some e)) = loopless_expr e"
| "loopless_expr (ResultValue b (Some e) (Some e')) = (loopless_expr e \<and> loopless_expr e')"
| "loopless_expr (ResultValue b (Some e) None) = loopless_expr e"
| "loopless_expr (ResultValue b None (Some e')) = loopless_expr e'"
| "loopless_expr (IfExpr c t e) = (loopless_expr c \<and> loopless_expr t \<and> loopless_expr e)"
| "loopless_expr (MatchExpr e arms) = (loopless_expr e \<and> loopless_arms arms)"
| "loopless_expr _ = True"
| "loopless_exprs [] = True"
| "loopless_exprs (e # es) = (loopless_expr e \<and> loopless_exprs es)"
| "loopless_arms [] = True"
| "loopless_arms (MatchArm p (Some g) body # arms) =
     (loopless_expr g \<and> loopless_stmts body \<and> loopless_arms arms)"
| "loopless_arms (MatchArm p None body # arms) = (loopless_stmts body \<and> loopless_arms arms)"
| "loopless_stmt (SLet x (Some e) t m) = loopless_expr e"
| "loopless_stmt (SConst x (Some e) t) = loopless_expr e"
| "loopless_stmt (SFn x ps t an body b c) = loopless_stmts body"
| "loopless_stmt (SReturn (Some e)) = loopless_expr e"
| "loopless_stmt (SIf c ts es) = (loopless_expr c \<and> loopless_stmts ts \<and> loopless_stmts es)"
| "loopless_stmt (SWhile c body) = False"
| "loopless_stmt (SFor x e body) = (loopless_expr e \<and> loopless_stmts body)"
| "loopless_stmt (SMatch e arms) = (loopless_expr e \<and> loopless_arms arms)"
| "loopless_stmt (SSpawn t) = loopless_stmt t"
| "loopless_stmt (STryCatch ts x cs) = (loopless_stmts ts \<and> loopless_stmts cs)"
| "loopless_stmt (SAssert c (Some m)) = (loopless_expr c \<and> loopless_expr m)"
| "loopless_stmt (SAssert c None) = loopless_expr c"
| "loopless_stmt (SExpr e) = loopless_expr e"
| "loopless_stmt _ = True"
| "loopless_stmts [] = True"
| "loopless_stmts (t # ts) = (loopless_stmt t \<and> loopless_stmts ts)"

definition room :: "nat \<Rightarrow> 'f engine \<Rightarrow> bool" where
  "room k s = (max_depth \<le> en_depth s + k \<and>
     (\<forall>f d. en_functions s f = Some d \<longrightarrow> loopless_stmts (fd_body d)))"

lemma room_same: "en_depth s' = en_depth s \<Longrightarrow> en_functions s' = en_functions s \<Longrightarrow> room k s \<Longrightarrow> room k s'"
  by (simp add: room_def)

lemma room_updates [simp]:
  "room k s \<Longrightarrow> room k (push_scope s)" "room k s \<Longrightarrow> room k (pop_scope s)"
  "room k s \<Longrightarrow> room k (clear_return s)" "room k s \<Longrightarrow> room k (set_return v s)"
  "room k s \<Longrightarrow> room k (en_define x v s)"
  by (auto simp: push_scope_def pop_scope_def clear_return_def set_return_def en_define_def
      split: list.split intro: room_same)

lemma room_register: "loopless_stmts (fd_body d) \<Longrightarrow> room k s \<Longrightarrow> room k (register_fn d s)"
  by (auto simp: room_def register_fn_def)

lemma returns_value [step_returns]:
  "(\<And>e. v = Some e \<Longrightarrow> s_returns I (\<lambda>n. ev n e)) \<Longrightarrow> s_returns I (\<lambda>n. e_value_or_none (ev n) v)"
  unfolding e_value_or_none_def by (cases v) (auto intro!: step_returns)

lemma returns_cond [step_returns]:
  "s_returns I (\<lambda>n. ev n c) \<Longrightarrow> s_returns I (\<lambda>n. e_cond P (ev n) c)"
  unfolding e_cond_def by (intro step_returns)

lemma returns_ident [step_returns]: "s_returns I (\<lambda>_. e_ident x)"
  by (rule s_returnsI) (auto simp: e_ident_def s_simps split: option.split)

lemma returns_block_stmts:
  "(\<And>t. t \<in> set ts \<Longrightarrow> s_returns I (\<lambda>n. es n t)) \<Longrightarrow> s_returns I (\<lambda>n. block_stmts (es n) ts v)"
  by (induction ts arbitrary: v) (auto intro!: step_returns)

lemma returns_exec_block [step_returns]:
  "(\<And>t. t \<in> set ts \<Longrightarrow> s_returns (room k) (\<lambda>n. es n t)) \<Longrightarrow> s_returns (room k) (\<lambda>n. exec_block (es n) ts)"
  unfolding exec_block_def by (intro step_returns returns_block_stmts) simp_all

lemma returns_scoped [step_returns]:
  "(\<And>t. t \<in> set ts \<Longrightarrow> s_returns (room k) (\<lambda>n. es n t)) \<Longrightarrow> s_returns (room k) (\<lambda>n. scoped_block (es n) ts)"
  unfolding scoped_block_def by (intro step_returns) simp_all

lemma returns_plain [step_returns]:
  "(\<And>t. t \<in> set ts \<Longrightarrow> s_returns I (\<lambda>n. es n t)) \<Longrightarrow> s_returns I (\<lambda>n. plain_stmts (es n) ts v)"
  by (induction ts arbitrary: v) (auto intro!: step_returns)

lemma returns_arms [step_returns]:
  assumes "\<And>arm g. arm \<in> set arms \<Longrightarrow> arm_guard arm = Some g \<Longrightarrow> s_returns I (\<lambda>n. ev n g)"
    and "\<And>arm. arm \<in> set arms \<Longrightarrow> s_returns I (\<lambda>n. body n arm)"
  shows "s_returns I (\<lambda>n. e_arms P (ev n) (body n) v arms)"
  using assms
proof (induction arms)
  case (Cons arm arms)
  have "s_returns I (\<lambda>n. e_guard P (ev n) arm)"
    using Cons.prems(1)[of arm] unfolding e_guard_def
    by (cases "arm_guard arm") (auto intro!: step_returns)
  with Cons show ?case by (auto intro!: step_returns)
qed (simp add: s_returns_const)

lemma returns_round [step_returns]:
  "s_returns (room k) m \<Longrightarrow> s_returns (room k) (\<lambda>n. after_round (m n))"
  unfolding after_round_def by (intro step_returns) simp_all

lemma returns_for [step_returns]:
  "(\<And>t. t \<in> set body \<Longrightarrow> s_returns (room k) (\<lambda>n. es n t)) \<Longrightarrow>
   s_returns (room k) (\<lambda>n. e_for (es n) x body vs)"
  by (induction vs) (auto intro!: step_returns)

lemma returns_try_catch [step_returns]:
  assumes "\<And>t. t \<in> set ts \<Longrightarrow> s_returns (room k) (\<lambda>n. es n t)"
    and "\<And>t. t \<in> set cs \<Longrightarrow> s_returns (room k) (\<lambda>n. es n t)"
  shows "s_returns (room k) (\<lambda>n. e_try_catch (es n) ts p cs)"
proof -
  have c: "s_returns (room k) (\<lambda>n. case r of Ok v \<Rightarrow> s_ret v
      | Err e \<Rightarrow> s_around (\<lambda>s. (case p of Some x \<Rightarrow> en_define x (EString (show_e_error e)) | None \<Rightarrow> id) (push_scope s))
          (exec_block (es n) cs) pop_scope
      | Panic \<Rightarrow> s_out Panic)" for r
    using assms(2) by (cases r; cases p) (auto intro!: step_returns)
  show ?thesis unfolding e_try_catch_def using assms(1) c by (intro step_returns)
qed

lemma loopless_stmts_iff: "loopless_stmts ts \<longleftrightarrow> (\<forall>t\<in>set ts. loopless_stmt t)"
  by (induction ts) auto

lemma loopless_exprs_iff: "loopless_exprs es \<longleftrightarrow> (\<forall>e\<in>set es. loopless_expr e)"
  by (induction es) auto

lemma loopless_arms_iff:
  "loopless_arms arms \<longleftrightarrow> (\<forall>arm\<in>set arms. loopless_stmts (arm_body arm) \<and>
     (case arm_guard arm of Some g \<Rightarrow> loopless_expr g | None \<Rightarrow> True))"
proof (induction arms)
  case (Cons arm arms)
  then show ?case by (cases arm; cases "arm_guard arm") auto
qed simp

subsection \<open>Calls\<close>

definition blocks_return :: "'f eplat \<Rightarrow> nat \<Rightarrow> bool" where
  "blocks_return P k = (\<forall>ts. loopless_stmts ts \<longrightarrow> s_returns (room k) (\<lambda>n. exec_block (run_stmt P n) ts))"

lemma room_counted: "room k s \<Longrightarrow> room k (counted s)" "room k s \<Longrightarrow> room k (governance_logged d b s)"
  by (auto simp: room_def)

lemma returns_call_named [step_returns]:
  assumes body: "\<And>j. k = Suc j \<Longrightarrow> blocks_return P j"
  shows "s_returns (room k) (\<lambda>n. call_named P (run_stmt P n) f args)"
proof (rule s_returnsI)
  show "s_below (call_named P (run_stmt P i) f args) (call_named P (run_stmt P j) f args)" if "i \<le> j" for i j
    using engine_fuel_mono[OF that, of P] by (intro step_mono) simp
next
  fix s :: "'a engine" assume s: "room k s"
  show "\<exists>n r s'. call_named P (run_stmt P n) f args s = Some (r, s') \<and> room k s'"
  proof (cases "en_functions s f")
    case None
    then show ?thesis using s by (simp add: call_named_def lookup_fn_def s_simps)
  next
    case (Some d)
    then have named: "call_named P es f args s = call_fn P es d args s" for es
      by (simp add: call_named_def lookup_fn_def s_simps)
    show ?thesis
    proof (cases "max_depth \<le> en_depth s \<or> late d s \<or> denied d s")
      case True
      then show ?thesis using s by (auto simp: named call_fn_eq room_counted)
    next
      case False
      with s obtain j where k: "k = Suc j" by (cases k) (auto simp: room_def)
      have "room j (body_state P d args s)" and "loopless_stmts (fd_body d)"
        using s Some by (auto simp: room_def k)
      with body[OF k] obtain n r s2 where n: "exec_block (run_stmt P n) (fd_body d) (body_state P d args s) = Some (r, s2)"
          and s2: "room j s2"
        unfolding blocks_return_def by (blast elim: s_returnsE)
      show ?thesis
      proof (cases "r = Panic")
        case True
        then show ?thesis using False n s2
          by (auto simp: named call_fn_eq room_def k intro!: exI[of _ n])
      next
        case r: False
        obtain s' where s': "call_leave P d (e_clock P (en_reads s)) r s2 = Some (r, s')"
            "en_depth s' = en_depth s2 - 1" "en_functions s' = en_functions s2"
          using call_leave_eq[of P d "e_clock P (en_reads s)" r s2] by blast
        with s2 have "room k s'" by (auto simp: room_def k)
        with False n r s'(1) show ?thesis
          by (cases r) (auto simp: named call_fn_eq intro!: exI[of _ n])
      qed
    qed
  qed
qed

lemma returns_pipe [step_returns]:
  assumes "\<And>j. k = Suc j \<Longrightarrow> blocks_return P j"
  shows "s_returns (room k) (\<lambda>n. e_pipe P (run_stmt P n) ops v)"
  by (induction ops arbitrary: v) (auto intro!: step_returns assms)

lemma returns_spawn:
  assumes "loopless_stmt t"
  shows "s_returns (room k) (\<lambda>_. e_spawn t)"
  unfolding e_spawn_def using assms
  by (cases t) (auto intro!: step_returns room_register simp: spawned_fn_def)

lemma returns_run:
  "s_returns I (\<lambda>n. e_expr_step P (run_expr P n) (run_stmt P n) e) \<Longrightarrow> s_returns I (\<lambda>n. run_expr P n e)"
  "s_returns I (\<lambda>n. e_stmt_step P n (run_expr P n) (run_stmt P n) t) \<Longrightarrow> s_returns I (\<lambda>n. run_stmt P n t)"
  by (rule s_returns_Suc; simp)+

lemmas step_bodies = e_expr_step_def e_stmt_step_def e_call_def e_let_def e_assert_def

lemma returns_syntax:
  fixes P :: "'f eplat"
  assumes calls: "\<And>j. k = Suc j \<Longrightarrow> blocks_return P j"
  shows "loopless_expr e \<Longrightarrow> s_returns (room k) (\<lambda>n. run_expr P n e)"
    and "loopless_exprs es \<Longrightarrow> \<forall>e\<in>set es. s_returns (room k) (\<lambda>n. run_expr P n e)"
    and "loopless_arms arms \<Longrightarrow> \<forall>arm\<in>set arms.
        (\<forall>g. arm_guard arm = Some g \<longrightarrow> s_returns (room k) (\<lambda>n. run_expr P n g)) \<and>
        (\<forall>t\<in>set (arm_body arm). s_returns (room k) (\<lambda>n. run_stmt P n t))"
    and "loopless_stmt t \<Longrightarrow> s_returns (room k) (\<lambda>n. run_stmt P n t)"
    and "loopless_stmts ts \<Longrightarrow> \<forall>t\<in>set ts. s_returns (room k) (\<lambda>n. run_stmt P n t)"

proof (induction e and es and arms and t and ts
    rule: loopless_expr_loopless_exprs_loopless_arms_loopless_stmt_loopless_stmts.induct)
qed (rule returns_run, simp add: step_bodies cong: if_cong, intro step_returns calls returns_spawn; simp; fail
  | simp; fail | rule returns_run, simp add: step_bodies step_returns; fail)+

lemma blocks_return: "blocks_return P k"
proof (induction k)
  case 0
  show ?case unfolding blocks_return_def
    by (intro allI impI returns_exec_block) (use returns_syntax(5)[of 0 P] in auto)
next
  case (Suc k)
  then have "\<forall>t\<in>set ts. s_returns (room (Suc k)) (\<lambda>n. run_stmt P n t)" if "loopless_stmts ts" for ts
    using that returns_syntax(5)[of "Suc k" P] by auto
  then show ?case unfolding blocks_return_def by (intro allI impI returns_exec_block) auto
qed

lemma returns_engine_call: "s_returns (room k) (\<lambda>n. engine_call P n f args)"
  unfolding engine_call_def by (rule returns_call_named) (rule blocks_return)

lemma room_load:
  "load_stmts chk ts s = Some s' \<Longrightarrow> loopless_stmts ts \<Longrightarrow> room k s \<Longrightarrow> room k s'"
proof (induction ts arbitrary: s)
  case (Cons t ts)
  then obtain s1 where s1: "load_stmt chk t s = Some s1" "load_stmts chk ts s1 = Some s'"
    by (auto split: option.splits)
  moreover have "room k s1"
    using s1(1) Cons.prems(2,3)
    by (cases t) (auto simp: load_stmt_def fn_def_of_def split: option.splits intro!: room_register)
  ultimately show ?case using Cons by simp
qed simp

text \<open>
  C10: A program without while loops, at the top level or in the functions it declares or spawns,
  always returns: from some amount of fuel on, the run has one and the same result, whatever the
  depth of its calls, the recursion of its functions included.
\<close>

theorem loopless_programs_return:
  fixes P :: "'f eplat"
  assumes "loopless_stmts (statements prog)"
  shows "\<exists>n res. \<forall>m. run_compiled P (n + m) prog entry = Some res"
proof (cases "load_program (ovf_checks P) prog (engine_new Execute)")
  case (Some s)
  have "room max_depth s"
    using Some assms unfolding load_program_def by (rule room_load) (simp add: room_def engine_new_def)
  with returns_engine_call obtain n r s' where n: "engine_call P n entry [] s = Some (r, s')"
    by (rule s_returnsE)
  have "engine_call P (n + m) entry [] s = Some (r, s')" for m
    by (rule s_below_SomeD[OF engine_call_mono n]) simp
  then show ?thesis
    by (cases r) (auto simp: run_compiled_def Some intro!: exI[of _ n])
qed (simp add: run_compiled_def)

text \<open>For the witnesses: a platform whose floats are integers, and functions without annotations.\<close>

definition int_eplat :: "int eplat" where
  "int_eplat = plat.extend int_plat (eplat.fields show_int (\<lambda>_. True) (\<lambda>_. []) (\<lambda>n. n))"

lemma int_eplat_simps [simp]: "e_clock int_eplat n = n" "ovf_checks int_eplat"
  by (simp_all add: int_eplat_def eplat.defs plat.defs int_plat_def)

definition plain_fn :: "ustr \<Rightarrow> 'f Stmt list \<Rightarrow> 'f FnDef" where
  "plain_fn name body = \<lparr>fd_name = name, fd_params = [], fd_body = body, fd_effect = Pure,
     fd_capability = Cpu, fd_confidence = None, fd_loop = None, fd_governance = None, fd_time = None\<rparr>"

text \<open>A function that calls itself without end: the run ends with the error of the depth of calls.\<close>

definition recursing :: "int Program" where
  "recursing = program_new\<lparr>statements := [SFn (lit ''main'') [] None no_annot
     [SExpr (Call (Ident (lit ''main'')) [])] False False]\<rparr>"

theorem loopless_programs_return_witness:
  "\<exists>n res. \<forall>m. run_compiled int_eplat (n + m) recursing (lit ''main'') = Some res"
  by (rule loopless_programs_return) (simp add: recursing_def)

end
