(* ===== verification/EngineCalls.thy ===== *)
theory EngineCalls
  imports EngineReturns
begin

section \<open>What calls of the engine leave behind, and healing\<close>

text \<open>
  A refused call keeps its depth, a return ends the caller too, the stages of the cognitive loop
  can only be called in the reverse of their order, and the self-healing runtime sets the
  session's level for good. The witnesses run on an engine whose floats are integers.
\<close>

lemma engine_call_eq: "en_functions s f = Some d \<Longrightarrow> engine_call P n f args s = call_fn P (run_stmt P n) d args s"
  by (simp add: engine_call_def call_named_def lookup_fn_def s_simps)

subsection \<open>Refused calls\<close>

text \<open>Calling a function a number of times, whatever becomes of each call.\<close>

fun call_times :: "'f eplat \<Rightarrow> nat \<Rightarrow> ustr \<Rightarrow> 'f EValue list \<Rightarrow> nat \<Rightarrow> 'f engine \<Rightarrow> 'f engine option" where
  "call_times P n f args 0 s = Some s"
| "call_times P n f args (Suc k) s =
     (case engine_call P n f args s of None \<Rightarrow> None | Some (r, s') \<Rightarrow> call_times P n f args k s')"

lemma refused_call:
  assumes "en_functions s f = Some d" "fd_loop d = None" "fd_governance d = Some g" "\<not> permitted (en_session s) g"
    and "en_depth s \<le> max_depth"
  obtains e s' where "engine_call P n f args s = Some (Err e, s')" "en_functions s' = en_functions s"
    "en_session s' = en_session s" "en_depth s' = min max_depth (en_depth s + 1)"
  using assms by (cases "max_depth \<le> en_depth s") (auto simp: engine_call_eq call_fn_eq late_def denied_def)

lemma refused_calls:
  assumes "en_functions s f = Some d" "fd_loop d = None" "fd_governance d = Some g" "\<not> permitted (en_session s) g"
    and "en_depth s \<le> max_depth"
  shows "\<exists>s'. call_times P n f args k s = Some s' \<and> en_functions s' = en_functions s \<and>
    en_depth s' = min max_depth (en_depth s + k)"
  using assms
proof (induction k arbitrary: s)
  case (Suc k)
  obtain e s1 where s1: "engine_call P n f args s = Some (Err e, s1)" "en_functions s1 = en_functions s"
      "en_session s1 = en_session s" "en_depth s1 = min max_depth (en_depth s + 1)"
    using Suc.prems by (rule refused_call)
  have "\<exists>s'. call_times P n f args k s1 = Some s' \<and> en_functions s' = en_functions s1 \<and>
      en_depth s' = min max_depth (en_depth s1 + k)"
    by (rule Suc.IH) (use Suc.prems s1 in auto)
  then show ?case using s1 by (auto simp: min_def)
qed auto

text \<open>
  Refused calls use up the depth of the engine. A call that governance refuses adds one to the
  depth and does not take it back, so after 64 of them, each reported as a governance violation or
  caught by the program, every call of every function, those governance permits too, fails as a
  stack overflow although no call is active.
\<close>

theorem refused_calls_use_up_depth:
  assumes "en_functions s f = Some d" and "fd_loop d = None" and "fd_governance d = Some g"
    and "\<not> permitted (en_session s) g" and "en_depth s \<le> max_depth"
    and "en_functions s f' = Some d'"
  shows "\<exists>s'. call_times P n f args k s = Some s' \<and> en_depth s' = min max_depth (en_depth s + k) \<and>
    (max_depth \<le> en_depth s + k \<longrightarrow>
      engine_call P m f' args' s' = Some (Err (ERuntimePanic overflow_text), s'))"
proof -
  obtain s' where "call_times P n f args k s = Some s'" "en_functions s' = en_functions s"
      "en_depth s' = min max_depth (en_depth s + k)"
    using refused_calls[OF assms(1-5)] by blast
  then show ?thesis using assms(6) by (auto simp: engine_call_eq call_fn_eq min_def)
qed

definition refusing_engine :: "int engine" where
  "refusing_engine = register_fn (plain_fn (lit ''main'') [])
     (register_fn ((plain_fn (lit ''deploy'') [])\<lparr>fd_governance := Some Execute\<rparr>) (engine_new Suggest))"

theorem refused_calls_use_up_depth_witness:
  "\<exists>s'. call_times int_eplat 3 (lit ''deploy'') [] 64 refusing_engine = Some s' \<and>
    engine_call int_eplat 9 (lit ''main'') [] s' = Some (Err (ERuntimePanic overflow_text), s')"
proof -
  have fns: "en_functions refusing_engine (lit ''deploy'') = Some ((plain_fn (lit ''deploy'') [])\<lparr>fd_governance := Some Execute\<rparr>)"
    "en_functions refusing_engine (lit ''main'') = Some (plain_fn (lit ''main'') [])"
    by (simp_all add: refusing_engine_def register_fn_def plain_fn_def lit_def)
  have s: "en_session refusing_engine = Suggest" "en_depth refusing_engine = 0"
    by (simp_all add: refusing_engine_def register_fn_def engine_new_def)
  obtain s' where "call_times int_eplat 3 (lit ''deploy'') [] 64 refusing_engine = Some s'"
      "max_depth \<le> en_depth refusing_engine + 64 \<longrightarrow>
        engine_call int_eplat 9 (lit ''main'') [] s' = Some (Err (ERuntimePanic overflow_text), s')"
    using refused_calls_use_up_depth[OF fns(1) _ _ _ _ fns(2), of Execute int_eplat 3 "[]" 64 9 "[]"]
    by (auto simp: plain_fn_def s)
  then show ?thesis by (simp add: max_depth_def)
qed

subsection \<open>A return ends the caller\<close>

lemma block_stops:
  "es t s = Some (Ok v, s') \<Longrightarrow> en_returned s' \<Longrightarrow> block_stmts es (t # ts) w s = Some (Ok (en_return s'), s')"
  by (simp add: s_simps)

lemma call_of_returning:
  assumes "en_functions s f = Some d" and "fd_body d = [SReturn (Some (IntLiteral v))]"
    and "\<not> late d s" "\<not> denied d s" "en_depth s < max_depth" and "2 \<le> n"
  obtains s' where "engine_call P n f args s = Some (Ok (EInt v), s')" "en_returned s'" "en_return s' = EInt v"
    "en_depth s' = en_depth s"
proof -
  obtain n' where n: "n = Suc (Suc n')" using assms(6) by (metis numeral_2_eq_2 Suc_le_D le_Suc_ex add_Suc)
  let ?b = "set_return (EInt v) (clear_return (body_state P d args s))"
  have body: "exec_block (run_stmt P n) (fd_body d) (body_state P d args s) = Some (Ok (EInt v), ?b)"
    by (simp add: assms(2) n exec_block_def e_stmt_step_def e_expr_step_def e_value_or_none_def set_return_def s_simps)
  obtain s' where "call_leave P d (e_clock P (en_reads s)) (Ok (EInt v)) ?b = Some (Ok (EInt v), s')"
      "en_returned s' = en_returned ?b" "en_return s' = en_return ?b" "en_depth s' = en_depth ?b - 1"
    using call_leave_eq[of P d "e_clock P (en_reads s)" "Ok (EInt v)" ?b] by blast
  then show ?thesis
    using assms(1,3-5) body by (intro that[of s']) (simp_all add: engine_call_eq call_fn_eq set_return_def clear_return_def)
qed

text \<open>A call as the first statement of the body of a function without parameters.\<close>

abbreviation call_stmt :: "ustr \<Rightarrow> 'f Stmt" where
  "call_stmt f \<equiv> SExpr (Call (Ident f) [])"

lemma run_call_stmt:
  assumes "en_functions s f = Some d" and "lookup_frames (en_frames s) f = None" and "0 < m"
  shows "run_stmt P (Suc (Suc m)) (call_stmt f) s = engine_call P m f [] s"
  using assms by (cases m)
    (auto simp: e_stmt_step_def e_expr_step_def e_call_def e_ident_def call_target_def engine_call_def s_simps
      split: option.split)

lemma body_frames:
  "fd_params c = [] \<Longrightarrow> en_frames (body_state P c [] s) = Map.empty # en_frames s"
  by (simp add: body_state_def entered_def governance_logged_def log_check_def counted_def bind_params_def
      split: option.split)

text \<open>
  A return ends the callers too. Calling a function that returns a value leaves the flag of the
  return set, so a function whose first statement is such a call returns that value at once,
  whatever statements follow the call.
\<close>

theorem return_ends_caller:
  assumes "en_functions s g = Some c" and "fd_body c = call_stmt f # rest"
    and "fd_params c = []" and "fd_loop c = None" "fd_governance c = None"
    and "en_functions s f = Some d" and "fd_body d = [SReturn (Some (IntLiteral v))]"
    and "fd_loop d = None" "fd_governance d = None"
    and "lookup_frames (en_frames s) f = None" and "en_depth s < 63" and "5 \<le> n"
  shows "\<exists>s'. engine_call P n g [] s = Some (Ok (EInt v), s') \<and> en_depth s' = en_depth s"
proof -
  define m where "m = n - 2"
  have n: "n = Suc (Suc m)" "2 \<le> m" using assms(12) by (simp_all add: m_def)
  let ?b = "clear_return (body_state P c [] s)"
  have frames: "en_frames ?b = Map.empty # en_frames s"
    by (simp add: clear_return_def body_frames assms(3))
  have b: "en_functions ?b = en_functions s" "en_depth ?b = Suc (en_depth s)"
    by (simp_all add: clear_return_def)
  obtain s1 where s1: "engine_call P m f [] ?b = Some (Ok (EInt v), s1)" "en_returned s1" "en_return s1 = EInt v"
      "en_depth s1 = Suc (en_depth s)"
    by (rule call_of_returning[of ?b f d v m P "[]"])
      (use assms n b in \<open>simp_all add: late_def denied_def max_depth_def\<close>)
  have "run_stmt P n (call_stmt f) ?b = Some (Ok (EInt v), s1)"
    using s1(1) assms(6,10) n(2) run_call_stmt[of ?b f d m P] by (simp add: n(1) frames b)
  then have "exec_block (run_stmt P n) (fd_body c) (body_state P c [] s) = Some (Ok (EInt v), s1)"
    using s1(2,3) by (simp add: assms(2) exec_block_def s_simps)
  then show ?thesis
    using assms(1,4,5,11) s1(4) call_leave_eq[of P c "e_clock P (en_reads s)" "Ok (EInt v)" s1]
    by (auto simp: engine_call_eq call_fn_eq late_def denied_def max_depth_def)
qed

definition calling_engine :: "int engine" where
  "calling_engine = register_fn (plain_fn (lit ''main'') [call_stmt (lit ''f''), SReturn (Some (IntLiteral 2))])
     (register_fn (plain_fn (lit ''f'') [SReturn (Some (IntLiteral 1))]) (engine_new Execute))"

lemma calling_engine_simps [simp]:
  "en_functions calling_engine (lit ''main'') =
     Some (plain_fn (lit ''main'') [call_stmt (lit ''f''), SReturn (Some (IntLiteral 2))])"
  "en_functions calling_engine (lit ''f'') = Some (plain_fn (lit ''f'') [SReturn (Some (IntLiteral 1))])"
  "en_frames calling_engine = [Map.empty]" "en_depth calling_engine = 0"
  by (simp_all add: calling_engine_def register_fn_def plain_fn_def engine_new_def lit_def)

theorem return_ends_caller_witness:
  "\<exists>s'. engine_call int_eplat 9 (lit ''main'') [] calling_engine = Some (Ok (EInt 1), s') \<and> en_depth s' = 0"
  using return_ends_caller[OF calling_engine_simps(1), of "lit ''f''" "[SReturn (Some (IntLiteral 2))]" _ 1 9 int_eplat]
  by (simp add: plain_fn_def)

subsection \<open>The stages of the cognitive loop\<close>

text \<open>
  The stages can not be called in their order. A function of one stage of the cognitive loop
  that calls a function of a later stage, as perceive that calls reason, fails with a violation
  that says perceive was required, whatever follows the call, and the depth of the refused call is
  kept.
\<close>

theorem later_stage_refused:
  assumes "en_functions s g = Some c" and "fd_body c = call_stmt f # rest"
    and "fd_params c = []" and "fd_loop c = Some lc" "fd_governance c = None"
    and "en_functions s f = Some d" and "fd_loop d = Some ld"
    and "the (phase_index (loop_to_phase lc)) < the (phase_index (loop_to_phase ld))"
    and "lookup_frames (en_frames s) f = None" and "en_depth s < 63" and "en_phase s = Idle" and "3 \<le> n"
  shows "\<exists>s'. engine_call P n g [] s = Some (Err (ELoopViolation ld Perceive (fd_name d)), s') \<and>
    en_depth s' = en_depth s + 1"
proof -
  define m where "m = n - 2"
  have n: "n = Suc (Suc m)" "0 < m" using assms(12) by (simp_all add: m_def)
  let ?b = "clear_return (body_state P c [] s)"
  have b: "en_functions ?b = en_functions s" "en_depth ?b = Suc (en_depth s)"
      "en_frames ?b = Map.empty # en_frames s" "en_phase ?b = loop_to_phase lc"
    by (simp_all add: clear_return_def body_frames assms(3,4) phase_of_def)
  have late: "late d ?b" using assms(7,8) b(4) by (cases lc) (simp_all add: late_def)
  have "engine_call P m f [] ?b = Some (Err (ELoopViolation ld Perceive (fd_name d)), counted ?b)"
    using assms(6,7,10) late by (simp add: engine_call_eq call_fn_eq b max_depth_def)
  then have "run_stmt P n (call_stmt f) ?b = Some (Err (ELoopViolation ld Perceive (fd_name d)), counted ?b)"
    using assms(6,9) n(2) run_call_stmt[of ?b f d m P] by (simp add: n(1) b)
  then have "exec_block (run_stmt P n) (fd_body c) (body_state P c [] s) =
      Some (Err (ELoopViolation ld Perceive (fd_name d)), counted ?b)"
    by (simp add: assms(2) exec_block_def s_simps)
  then show ?thesis
    using assms(1,5,10,11)
      call_leave_eq[of P c "e_clock P (en_reads s)" "Err (ELoopViolation ld Perceive (fd_name d))" "counted ?b"]
    by (auto simp: engine_call_eq call_fn_eq late_def denied_def max_depth_def b split: option.split)
qed

definition staged_engine :: "int engine" where
  "staged_engine = register_fn ((plain_fn (lit ''see'') [call_stmt (lit ''think'')])\<lparr>fd_loop := Some Perceive\<rparr>)
     (register_fn ((plain_fn (lit ''think'') [])\<lparr>fd_loop := Some Reason\<rparr>) (engine_new Execute))"

lemma staged_engine_simps [simp]:
  "en_functions staged_engine (lit ''see'') =
     Some ((plain_fn (lit ''see'') [call_stmt (lit ''think'')])\<lparr>fd_loop := Some Perceive\<rparr>)"
  "en_functions staged_engine (lit ''think'') = Some ((plain_fn (lit ''think'') [])\<lparr>fd_loop := Some Reason\<rparr>)"
  "en_frames staged_engine = [Map.empty]" "en_depth staged_engine = 0" "en_phase staged_engine = Idle"
  by (simp_all add: staged_engine_def register_fn_def plain_fn_def engine_new_def lit_def)

theorem later_stage_refused_witness:
  "\<exists>s'. engine_call int_eplat 9 (lit ''see'') [] staged_engine =
      Some (Err (ELoopViolation Reason Perceive (lit ''think'')), s') \<and> en_depth s' = 1"
  using later_stage_refused[OF staged_engine_simps(1), of "lit ''think''" "[]" Perceive _ Reason 9 int_eplat]
  by (simp add: plain_fn_def)

subsection \<open>Self-healing\<close>

lemma engine_call_session:
  assumes "engine_call P n f args s = Some (r, s')"
  shows "en_session s' = en_session s"
  using s_relD[OF gov_run.rel_engine_call assms] by (simp add: governed_def)

lemma fallback_eq:
  assumes "h_mode h = Fallback"
    and "engine_call P n f args (h_inner h) = Some (Err e, s1)"
    and "(\<exists>a b c. e = ELoopViolation a b c) \<or> (\<exists>a b c. e = EEffectViolation a b c)"
  shows "call_with_healing P n f args h =
      (case on_inner (engine_call P n f args) (h\<lparr>h_inner := s1\<lparr>en_session := Suggest\<rparr>, h_seq := h_seq h + 1\<rparr>) of
         None \<Rightarrow> None
       | Some (Panic, h2) \<Rightarrow> Some (Panic, h2)
       | Some (Ok v, h2) \<Rightarrow> Some (Ok v, log_recovery f e Fallback True (h_seq h2) (h2\<lparr>h_seq := h_seq h2 + 1\<rparr>))
       | Some (Err e', h2) \<Rightarrow> Some (Err e, set_session Execute
           (log_recovery f e Fallback False (h_seq h2) (h2\<lparr>h_seq := h_seq h2 + 1\<rparr>))))"
  using assms
  by (auto simp: call_with_healing_def heal_fallback_def next_seq_def set_session_def on_inner_def
      log_recovery_def Let_def s_simps split: option.split outcome.split)

text \<open>
  Healing in the mode Fallback sets the level of the session, whatever it was. After a
  violation of the cognitive loop or of an effect the call is made again at the level Suggest; if
  that succeeds the session stays at Suggest, and if it fails it is left at Execute, the
  highest level. A session that started at Prepare has then every permission.
\<close>

theorem fallback_sets_session:
  assumes "h_mode h = Fallback"
    and "engine_call P n f args (h_inner h) = Some (Err e, s1)"
    and "(\<exists>a b c. e = ELoopViolation a b c) \<or> (\<exists>a b c. e = EEffectViolation a b c)"
    and "call_with_healing P n f args h = Some (r, h')"
  shows "en_session (h_inner h') = (case r of Err _ \<Rightarrow> Execute | _ \<Rightarrow> Suggest)"
proof -
  let ?h1 = "h\<lparr>h_inner := s1\<lparr>en_session := Suggest\<rparr>, h_seq := h_seq h + 1\<rparr>"
  note eval = fallback_eq[OF assms(1-3)]
  obtain r2 s2 where r2: "engine_call P n f args (h_inner ?h1) = Some (r2, s2)"
    using assms(4) eval by (cases "engine_call P n f args (h_inner ?h1)") (auto simp: on_inner_def)
  have "en_session s2 = Suggest" using engine_call_session[OF r2] by simp
  with r2 assms(4) eval show ?thesis
    by (cases r2) (auto simp: on_inner_def log_recovery_def set_session_def)
qed

lemma degraded_permits_less: "degraded g = Some g' \<Longrightarrow> permitted g' t \<Longrightarrow> permitted g t"
  by (cases g; cases t) auto

lemma denied_call:
  assumes "en_functions s f = Some d" "fd_loop d = None" "fd_governance d = Some g" "\<not> permitted (en_session s) g"
    and "en_depth s < max_depth"
  shows "engine_call P n f args s =
    Some (Err (EGovernanceViolation (en_session s) g (fd_name d)), log_check (fd_name d) g False (counted s))"
  using assms by (simp add: engine_call_eq call_fn_eq late_def denied_def governance_logged_def)

lemma log_check_fields [simp]:
  "en_session (log_check f g b s) = en_session s" "en_depth (log_check f g b s) = en_depth s"
  "en_functions (log_check f g b s) = en_functions s"
  by (simp_all add: log_check_def)

text \<open>
  Degrading the governance level never helps the refused call. When governance refuses a function,
  healing in the mode DegradeGovernance lowers the session by one level and calls again, which is
  refused again; the error of the first call is returned and the session stays lowered, while at
  the lowest level there is no second call.
\<close>

theorem degrading_never_helps:
  assumes "h_mode h = DegradeGovernance"
    and "en_functions (h_inner h) f = Some d" and "fd_loop d = None" and "fd_governance d = Some g"
    and "\<not> permitted (en_session (h_inner h)) g" and "en_depth (h_inner h) < max_depth"
  shows "\<exists>h'. call_with_healing P n f args h =
      Some (Err (EGovernanceViolation (en_session (h_inner h)) g (fd_name d)), h') \<and>
    en_session (h_inner h') = (case degraded (en_session (h_inner h)) of Some l \<Rightarrow> l | None \<Rightarrow> Prepare)"
proof -
  let ?s1 = "log_check (fd_name d) g False (counted (h_inner h))"
  let ?e = "EGovernanceViolation (en_session (h_inner h)) g (fd_name d)"
  have first: "engine_call P n f args (h_inner h) = Some (Err ?e, ?s1)"
    using assms(2-6) by (rule denied_call)
  have eval: "call_with_healing P n f args h =
     (case degraded (en_session (h_inner h)) of
        None \<Rightarrow> Some (Err ?e, h\<lparr>h_inner := ?s1, h_seq := h_seq h + 1\<rparr>)
      | Some l \<Rightarrow>
         (case on_inner (engine_call P n f args) (h\<lparr>h_inner := ?s1\<lparr>en_session := l\<rparr>, h_seq := h_seq h + 1\<rparr>) of
            None \<Rightarrow> None
          | Some (Panic, h2) \<Rightarrow> Some (Panic, h2)
          | Some (r, h2) \<Rightarrow>
              Some (if is_Ok r then r else Err ?e, log_recovery f ?e DegradeGovernance (is_Ok r) (h_seq h) h2)))"
    using first assms(1)
    by (auto simp: call_with_healing_def heal_degrade_def next_seq_def set_session_def on_inner_def
        log_recovery_def Let_def s_simps split: option.split outcome.split)
  show ?thesis
  proof (cases "degraded (en_session (h_inner h))")
    case None
    then have "en_session (h_inner h) = Prepare" by (cases "en_session (h_inner h)") auto
    with None eval show ?thesis by simp
  next
    case (Some l)
    let ?s2 = "?s1\<lparr>en_session := l\<rparr>"
    have "\<not> permitted l g" using Some assms(5) degraded_permits_less by blast
    then have "\<not> permitted (en_session ?s2) g" "en_functions ?s2 f = Some d" "en_depth ?s2 \<le> max_depth"
      using assms(2,6) by simp_all
    then obtain e' s3 where second: "engine_call P n f args ?s2 = Some (Err e', s3)"
      using assms(3,4) by (metis refused_call)
    moreover from second have "en_session s3 = l" using engine_call_session by fastforce
    ultimately show ?thesis using Some eval by (simp add: on_inner_def log_recovery_def)
  qed
qed

theorem degrading_never_helps_witness:
  "case call_with_healing int_eplat 5 (lit ''deploy'') []
      ((healing_new Suggest)\<lparr>h_inner := refusing_engine, h_mode := DegradeGovernance\<rparr>) of
     Some (Err (EGovernanceViolation l g name), h') \<Rightarrow>
       l = Suggest \<and> g = Execute \<and> name = lit ''deploy'' \<and> en_session (h_inner h') = Prepare
   | _ \<Rightarrow> False"
proof -
  have fn: "en_functions refusing_engine (lit ''deploy'') = Some ((plain_fn (lit ''deploy'') [])\<lparr>fd_governance := Some Execute\<rparr>)"
    and s: "en_session refusing_engine = Suggest" "en_depth refusing_engine = 0"
    by (simp_all add: refusing_engine_def register_fn_def plain_fn_def engine_new_def lit_def)
  show ?thesis
    using degrading_never_helps[of "(healing_new Suggest)\<lparr>h_inner := refusing_engine, h_mode := DegradeGovernance\<rparr>"
        "lit ''deploy''" _ Execute int_eplat 5 "[]"]
    by (auto simp: fn s plain_fn_def max_depth_def)
qed

definition healing_engine :: "int healing" where
  "healing_engine = (healing_new Prepare)\<lparr>h_inner := staged_engine\<lparr>en_session := Prepare, en_phase := Perceiving\<rparr>\<rparr>"

theorem fallback_sets_session_witness:
  "case call_with_healing int_eplat 9 (lit ''think'') [] healing_engine of
     Some (Err e, h') \<Rightarrow> en_session (h_inner h') = Execute
   | _ \<Rightarrow> False"
proof -
  let ?e = "ELoopViolation Reason Perceive (lit ''think'')"
  have calls: "engine_call int_eplat 9 (lit ''think'') [] s = Some (Err ?e, counted s)"
    if "en_functions s = en_functions staged_engine" "en_phase s = Perceiving" "en_depth s < 64" for s
    using that by (simp add: engine_call_eq[of _ _ "(plain_fn (lit ''think'') [])\<lparr>fd_loop := Some Reason\<rparr>"]
        call_fn_eq late_def plain_fn_def max_depth_def)
  have first: "engine_call int_eplat 9 (lit ''think'') [] (h_inner healing_engine) =
      Some (Err ?e, counted (h_inner healing_engine))"
    by (rule calls) (simp_all add: healing_engine_def healing_new_def)
  let ?h1 = "healing_engine\<lparr>h_inner := (counted (h_inner healing_engine))\<lparr>en_session := Suggest\<rparr>,
    h_seq := h_seq healing_engine + 1\<rparr>"
  obtain h2 where "on_inner (engine_call int_eplat 9 (lit ''think'') []) ?h1 = Some (Err ?e, h2)"
    by (simp add: on_inner_def calls healing_engine_def healing_new_def)
  then obtain h' where h': "call_with_healing int_eplat 9 (lit ''think'') [] healing_engine = Some (Err ?e, h')"
    using fallback_eq[OF _ first] by (simp add: healing_engine_def healing_new_def)
  have "h_mode healing_engine = Fallback" by (simp add: healing_engine_def healing_new_def)
  then show ?thesis using fallback_sets_session[OF _ first _ h'] by (simp add: h')
qed
subsection \<open>The level of the session and the phases of a run\<close>

text \<open>
  C11: Governance is enforced. Whatever a program does, the level of the session does not change, and
  every function that a run enters has a governance level that the level of the session
  permits, that is, at most the session's.
\<close>

theorem governance_enforced:
  assumes "engine_call P n f args s = Some (r, s')"
  shows "en_session s' = en_session s \<and> (\<exists>new. en_events s' = en_events s @ new \<and>
    list_all (\<lambda>e. case e of FnCalled _ _ (Some g) _ \<Rightarrow> governance_leq g (en_session s) | _ \<Rightarrow> True) new)"
proof -
  have leq: "permitted g h = governance_leq h g" for g h by (cases g; cases h) simp_all
  have "governed s s'" using gov_run.rel_engine_call assms by (rule s_relD)
  then show ?thesis
    by (auto simp: governed_def list_all_iff allowed_def leq split: RunEvent.splits option.splits)
qed

definition annotated_engine :: "int engine" where
  "annotated_engine = (register_fn ((plain_fn (lit ''f'') [SReturn (Some (IntLiteral 1))])
     \<lparr>fd_governance := Some Suggest, fd_loop := Some Perceive\<rparr>) (engine_new Approve))\<lparr>en_phase := Acting\<rparr>"

lemma annotated_fields [simp]: "en_session annotated_engine = Approve" "en_events annotated_engine = []"
  "en_history annotated_engine = []" "en_phase annotated_engine = Acting"
  by (simp_all add: annotated_engine_def register_fn_def engine_new_def)

lemma annotated_call:
  "\<exists>s'. engine_call int_eplat 4 (lit ''f'') [] annotated_engine = Some (Ok (EInt 1), s')"
  by (rule call_of_returning[of annotated_engine "lit ''f''" _ 1 4 int_eplat "[]"])
    (auto simp: annotated_engine_def register_fn_def engine_new_def plain_fn_def late_def denied_def max_depth_def)

theorem governance_enforced_witness:
  "\<exists>s' new. engine_call int_eplat 4 (lit ''f'') [] annotated_engine = Some (Ok (EInt 1), s') \<and>
    en_session s' = Approve \<and> en_events s' = new \<and>
    list_all (\<lambda>e. case e of FnCalled _ _ (Some g) _ \<Rightarrow> governance_leq g Approve | _ \<Rightarrow> True) new"
proof -
  obtain s' where s': "engine_call int_eplat 4 (lit ''f'') [] annotated_engine = Some (Ok (EInt 1), s')"
    using annotated_call by blast
  from governance_enforced[OF this, unfolded annotated_fields] show ?thesis by (simp add: s')
qed

text \<open>
  Cognitive phases never go forward. Along the phases a run enters, one after the other, a phase
  is followed only by itself, by an earlier phase of the order perceive, reason, decide, act, loop,
  or by the phases of functions without a cognitive loop (reasoning and acting). The phase of a
  caller is not restored when a call returns.
\<close>

theorem phases_never_advance:
  assumes "engine_call P n f args s = Some (r, s')"
  shows "\<exists>new. en_history s' = en_history s @ new \<and>
    en_phase s' = last (en_phase s # map fst new) \<and>
    successively (\<lambda>p q. p = Idle \<or> q \<in> {Reasoning, Acting} \<or> the (phase_index q) \<le> the (phase_index p))
      (en_phase s # map fst new)"
proof -
  have "phase_change = (\<lambda>p q. p = Idle \<or> q \<in> {Reasoning, Acting} \<or> the (phase_index q) \<le> the (phase_index p))"
    by (auto simp: fun_eq_iff phase_change_def)
  moreover have "paced s s'" using pace_run.rel_engine_call assms by (rule s_relD)
  ultimately show ?thesis unfolding paced_def by (metis (no_types))
qed

theorem phases_never_advance_witness:
  "\<exists>s' new. engine_call int_eplat 4 (lit ''f'') [] annotated_engine = Some (Ok (EInt 1), s') \<and>
    en_history s' = new \<and> en_phase s' = last (Acting # map fst new) \<and>
    successively (\<lambda>p q. p = Idle \<or> q \<in> {Reasoning, Acting} \<or> the (phase_index q) \<le> the (phase_index p))
      (Acting # map fst new)"
proof -
  obtain s' where s': "engine_call int_eplat 4 (lit ''f'') [] annotated_engine = Some (Ok (EInt 1), s')"
    using annotated_call by blast
  from phases_never_advance[OF this] show ?thesis
    by (elim exE) (intro exI[of _ s'] exI[of _ "en_history s'"], simp add: s')
qed

end
