(* ===== verification/ModuleSystem.thy ===== *)
theory ModuleSystem
  imports Texts Lexer "HOL-Library.AList" "HOL-Library.List_Lexorder"
begin

section \<open>Modules (compiler/src/module.rs)\<close>

text \<open>
  The module tree and the resolution of paths, the graph of the dependencies with the search for
  cycles and the order of loading, namespaces, the reader of module sources and the resolver. A
  hash map that is iterated over is an association list with distinct keys, in one of the orders
  the hash map can have; the others are maps. Texts of errors are values with their arguments.
\<close>

subsection \<open>The module tree\<close>

datatype Visibility = VPrivate | VPub

record ImportItem =
  im_path :: "ustr list"
  im_alias :: "ustr option"
  im_visibility :: Visibility

datatype ModDecl =
    ModDecl (md_name: ustr) (md_visibility: Visibility) (md_inline: bool) (md_items: "ModuleItem list")
and ModuleItem =
    MFunction ustr
  | MStruct ustr
  | MEnum ustr
  | MTrait ustr
  | MImplBlock "ustr list"
  | MModule ModDecl
  | MUse ImportItem
  | MExport ustr
  | MConst ustr
  | MTypeAlias ustr

type_synonym ModItem = ModuleItem

record ModuleNode =
  mn_name :: ustr
  mn_items :: "ModItem list"
  mn_visibility :: Visibility

record ModuleTree =
  mt_root :: ModuleNode
  mt_index :: "ustr \<rightharpoonup> ustr list"

datatype ResolveResult = Resolved "ustr list" | NotFound | Ambiguous "ustr list list"

definition module_node :: "ustr \<Rightarrow> ModuleNode" where
  "module_node name = \<lparr>mn_name = name, mn_items = [], mn_visibility = VPrivate\<rparr>"

definition exported_items :: "ModuleNode \<Rightarrow> ustr list" where
  "exported_items node = List.map_filter (\<lambda>item. case item of
       MFunction n \<Rightarrow> Some n | MStruct n \<Rightarrow> Some n | MEnum n \<Rightarrow> Some n | MTrait n \<Rightarrow> Some n
     | _ \<Rightarrow> None) (mn_items node)"

definition tree_new :: "ustr \<Rightarrow> ModuleTree" where
  "tree_new name = \<lparr>mt_root = module_node name, mt_index = Map.empty\<rparr>"

definition push_item :: "ModItem \<Rightarrow> ModuleTree \<Rightarrow> ModuleTree" where
  "push_item item t = t\<lparr>mt_root := (mt_root t)\<lparr>mn_items := mn_items (mt_root t) @ [item]\<rparr>\<rparr>"

definition tree_insert :: "ModDecl \<Rightarrow> ModuleTree \<Rightarrow> ModuleTree" where
  "tree_insert m t =
     (let t' = push_item (MModule m) t in t'\<lparr>mt_index := (mt_index t')(md_name m \<mapsto> [md_name m])\<rparr>)"

definition insert_use :: "ImportItem \<Rightarrow> ModuleTree \<Rightarrow> ModuleTree" where
  "insert_use imp t = (if im_visibility imp = VPub then push_item (MUse imp) t else t)"

definition tree_register_fn :: "ustr \<Rightarrow> ModuleTree \<Rightarrow> ModuleTree" where
  "tree_register_fn name t =
     (if MFunction name \<in> set (mn_items (mt_root t)) then t else push_item (MFunction name) t)"

definition lookup_symbol :: "ModuleTree \<Rightarrow> ustr \<Rightarrow> ustr list option" where
  "lookup_symbol t name =
     (if list_ex (\<lambda>item. item \<in> {MFunction name, MStruct name, MEnum name, MTrait name}) (mn_items (mt_root t))
      then Some [mn_name (mt_root t), name] else None)"

definition resolve_path :: "ModuleTree \<Rightarrow> ustr list \<Rightarrow> ResolveResult" where
  "resolve_path t path =
     (case path of
        [] \<Rightarrow> NotFound
      | head # segments \<Rightarrow>
          (let symbol = (case lookup_symbol t head of Some s \<Rightarrow> Resolved s | None \<Rightarrow> NotFound) in
           case mt_index t head of
             Some full_path \<Rightarrow>
               if segments = [] then Resolved full_path
               else if length path \<le> length full_path \<and> take (length path) full_path = path
               then Resolved full_path
               else symbol
           | None \<Rightarrow> symbol))"

subsection \<open>The graph of dependencies\<close>

type_synonym dep_graph = "(ustr \<times> ustr list) list"

definition add_module :: "ustr \<Rightarrow> ustr list \<Rightarrow> dep_graph \<Rightarrow> dep_graph" where
  "add_module name deps g = AList.update name deps g"

text \<open>
  The depth-first search keeps the visited names and the names on the current path; \<open>None\<close> is fuel
  used up.
\<close>

type_synonym search = "ustr set \<times> ustr set"

fun cycle_util :: "nat \<Rightarrow> dep_graph \<Rightarrow> ustr \<Rightarrow> search \<Rightarrow> (bool \<times> search) option"
and cycle_deps :: "nat \<Rightarrow> dep_graph \<Rightarrow> ustr list \<Rightarrow> search \<Rightarrow> (bool \<times> search) option" where
  "cycle_util 0 g name st = None"
| "cycle_util (Suc n) g name (visited, rec_stack) =
     (let st = (insert name visited, insert name rec_stack) in
      case (case map_of g name of Some deps \<Rightarrow> cycle_deps n g deps st | None \<Rightarrow> Some (False, st)) of
        Some (False, (v, r)) \<Rightarrow> Some (False, (v, r - {name}))
      | res \<Rightarrow> res)"
| "cycle_deps n g [] st = Some (False, st)"
| "cycle_deps n g (dep # deps) (visited, rec_stack) =
     (if dep \<notin> visited then
        (case cycle_util n g dep (visited, rec_stack) of
           Some (False, st) \<Rightarrow> cycle_deps n g deps st
         | res \<Rightarrow> res)
      else if dep \<in> rec_stack then Some (True, (visited, rec_stack))
      else cycle_deps n g deps (visited, rec_stack))"

fun cycle_keys :: "nat \<Rightarrow> dep_graph \<Rightarrow> ustr list \<Rightarrow> search \<Rightarrow> bool option" where
  "cycle_keys n g [] st = Some False"
| "cycle_keys n g (k # ks) st =
     (case cycle_util n g k st of
        None \<Rightarrow> None
      | Some (True, _) \<Rightarrow> Some True
      | Some (False, st') \<Rightarrow> cycle_keys n g ks st')"

definition graph_names :: "dep_graph \<Rightarrow> ustr list" where
  "graph_names g = concat (map (\<lambda>(m, deps). m # deps) g)"

definition has_cycle :: "dep_graph \<Rightarrow> bool option" where
  "has_cycle g = cycle_keys (length (graph_names g) + 2) g (map fst g) ({}, {})"

text \<open>
  The order of loading: a module waits for as many dependencies as it lists, and the queue is
  sorted and taken from its end.
\<close>

type_synonym degrees = "(ustr \<times> nat) list"

definition or_insert :: "ustr \<Rightarrow> degrees \<Rightarrow> degrees" where
  "or_insert m ds = (if map_of ds m = None then ds @ [(m, 0)] else ds)"

definition bump :: "ustr \<Rightarrow> degrees \<Rightarrow> degrees" where
  "bump m ds = (let ds' = or_insert m ds in AList.update m (the (map_of ds' m) + 1) ds')"

definition in_degrees :: "dep_graph \<Rightarrow> degrees" where
  "in_degrees g =
     fold (\<lambda>(m, deps). fold (\<lambda>dep ds. or_insert dep (bump m ds)) deps) g
       (fold (\<lambda>(m, _). or_insert m) g [])"

text \<open>The decrement panics below zero.\<close>

fun release_modules :: "ustr \<Rightarrow> dep_graph \<Rightarrow> degrees \<times> ustr list \<Rightarrow> (degrees \<times> ustr list) option" where
  "release_modules node [] st = Some st"
| "release_modules node ((m, deps) # g) (ds, queue) =
     (if node \<in> set deps then
        (case map_of ds m of
           None \<Rightarrow> release_modules node g (ds, queue)
         | Some 0 \<Rightarrow> None
         | Some (Suc d) \<Rightarrow>
             release_modules node g (AList.update m d ds, if d = 0 then sort (queue @ [m]) else queue))
      else release_modules node g (ds, queue))"

fun sort_loop :: "nat \<Rightarrow> dep_graph \<Rightarrow> degrees \<times> ustr list \<Rightarrow> ustr list \<Rightarrow> (unit, ustr list) outcome option" where
  "sort_loop n g (ds, []) result = Some (Ok result)"
| "sort_loop 0 g (ds, queue) result = None"
| "sort_loop (Suc n) g (ds, queue) result =
     (case release_modules (last queue) g (ds, butlast queue) of
        None \<Rightarrow> Some Panic
      | Some st \<Rightarrow> sort_loop n g st (result @ [last queue]))"

definition topological_sort :: "dep_graph \<Rightarrow> (unit, ustr list) outcome option" where
  "topological_sort g =
     (let ds = in_degrees g;
          queue = sort (map fst (filter (\<lambda>(_, d). d = 0) ds)) in
      case sort_loop (length ds) g (ds, queue) [] of
        Some (Ok result) \<Rightarrow> Some (if length result \<noteq> length g then Err () else Ok result)
      | res \<Rightarrow> res)"

subsection \<open>Namespaces\<close>

record SymbolLocation =
  sl_module :: ustr
  sl_item_type :: ustr
  sl_visibility :: Visibility

definition show_location :: "SymbolLocation \<Rightarrow> ustr" where
  "show_location l = sl_module l @ lit ''::'' @ sl_item_type l @ lit '' ('' @
     (case sl_visibility l of VPrivate \<Rightarrow> lit ''private'' | VPub \<Rightarrow> lit ''pub'') @ lit '')''"

type_synonym namespace = "(ustr \<times> SymbolLocation) list"

text \<open>The error carries the name, the existing location and the new one.\<close>

definition ns_register ::
  "ustr \<Rightarrow> SymbolLocation \<Rightarrow> namespace \<Rightarrow> (ustr \<times> SymbolLocation \<times> SymbolLocation) + namespace" where
  "ns_register name location ns =
     (case map_of ns name of
        Some existing \<Rightarrow> Inl (name, existing, location)
      | None \<Rightarrow> Inr (AList.update name location ns))"

definition ns_lookup :: "namespace \<Rightarrow> ustr \<Rightarrow> SymbolLocation option" where
  "ns_lookup ns name = map_of ns name"

fun ns_merge :: "namespace \<Rightarrow> namespace \<Rightarrow> ustr list \<times> namespace" where
  "ns_merge ns [] = ([], ns)"
| "ns_merge ns ((name, location) # other) =
     (case map_of ns name of
        Some existing \<Rightarrow>
          (let (conflicts, ns') = ns_merge ns other in
           (if existing \<noteq> location then name # conflicts else conflicts, ns'))
      | None \<Rightarrow> ns_merge (AList.update name location ns) other)"

text \<open>A conflict: the importing module, the imported name and the module that defines it.\<close>

definition check_import_conflicts :: "namespace \<Rightarrow> ustr list \<Rightarrow> ustr \<Rightarrow> (ustr \<times> ustr \<times> ustr) list" where
  "check_import_conflicts ns imports source_module = List.map_filter (\<lambda>name.
     case map_of ns name of
       Some loc \<Rightarrow> if sl_module loc \<noteq> source_module then Some (source_module, name, sl_module loc) else None
     | None \<Rightarrow> None) imports"

subsection \<open>Reading a module from its source\<close>

definition strip_either :: "ustr \<Rightarrow> ustr \<Rightarrow> ustr \<Rightarrow> ustr option" where
  "strip_either p q s = (case strip_prefix p s of Some body \<Rightarrow> Some body | None \<Rightarrow> strip_prefix q s)"

definition extract_name :: "unicode \<Rightarrow> ustr \<Rightarrow> ustr" where
  "extract_name U s = takeWhile (\<lambda>c. is_alphanumeric U c \<or> c = uc CHR ''_'') (trim_ws s)"

definition mod_item :: "Visibility \<Rightarrow> ustr \<Rightarrow> ustr \<Rightarrow> ModItem" where
  "mod_item vis ln body =
     MModule (ModDecl (trim_end_char (uc CHR ''{'') (trim_end_char (uc CHR '';'') body)) vis
       (uc CHR ''{'' \<in> set ln) [])"

definition use_item :: "Visibility \<Rightarrow> ustr \<Rightarrow> ModItem" where
  "use_item vis body =
     MUse \<lparr>im_path = split_str (lit ''::'') (trim_end_char (uc CHR '';'') body), im_alias = None,
       im_visibility = vis\<rparr>"

definition line_item :: "unicode \<Rightarrow> ustr \<Rightarrow> ModItem option" where
  "line_item U ln =
     (case strip_prefix (lit ''pub mod '') ln of Some body \<Rightarrow> Some (mod_item VPub ln body) | None \<Rightarrow>
     (case strip_prefix (lit ''mod '') ln of Some body \<Rightarrow> Some (mod_item VPrivate ln body) | None \<Rightarrow>
     (case strip_prefix (lit ''pub use '') ln of Some body \<Rightarrow> Some (use_item VPub body) | None \<Rightarrow>
     (case strip_prefix (lit ''use '') ln of Some body \<Rightarrow> Some (use_item VPrivate body) | None \<Rightarrow>
     (case strip_either (lit ''pub fn '') (lit ''fn '') ln of
        Some body \<Rightarrow> Some (MFunction (extract_name U body)) | None \<Rightarrow>
     (case strip_either (lit ''pub struct '') (lit ''struct '') ln of
        Some body \<Rightarrow> Some (MStruct (extract_name U body)) | None \<Rightarrow>
     (case strip_either (lit ''pub enum '') (lit ''enum '') ln of
        Some body \<Rightarrow> Some (MEnum (extract_name U body)) | None \<Rightarrow>
     (case strip_either (lit ''pub trait '') (lit ''trait '') ln of
        Some body \<Rightarrow> Some (MTrait (extract_name U body)) | None \<Rightarrow>
     (case strip_either (lit ''pub const '') (lit ''const '') ln of
        Some body \<Rightarrow> Some (MConst (extract_name U body)) | None \<Rightarrow>
     map_option (\<lambda>body. MTypeAlias (extract_name U body)) (strip_prefix (lit ''type '') ln))))))))))"

definition skipped_line :: "ustr \<Rightarrow> bool" where
  "skipped_line ln = (ln = [] \<or> starts_with ln (lit ''//'') \<or> starts_with ln (lit ''/*''))"

definition parse_module_from_source :: "unicode \<Rightarrow> ustr \<Rightarrow> ustr \<Rightarrow> ModDecl" where
  "parse_module_from_source U source name =
     ModDecl name VPrivate False
       (List.map_filter (\<lambda>ln. let l = trim_ws ln in if skipped_line l then None else line_item U l)
         (text_lines source))"

subsection \<open>The resolver\<close>

text \<open>
  A module that is not loaded becomes an empty one. Paths are texts, joined as \<open>PathBuf::join\<close>
  joins them on Unix.
\<close>

definition path_join :: "ustr \<Rightarrow> ustr \<Rightarrow> ustr" where
  "path_join base p =
     (if starts_with p (lit ''/'') then p
      else if base = [] \<or> ends_with base (lit ''/'') then base @ p
      else base @ lit ''/'' @ p)"

record resolver =
  rs_base :: ustr
  rs_loaded :: "(ustr \<times> ModDecl) list"
  rs_paths :: "ustr \<rightharpoonup> ustr"

definition resolver_new :: "ustr \<Rightarrow> resolver" where
  "resolver_new base_dir = \<lparr>rs_base = base_dir, rs_loaded = [], rs_paths = Map.empty\<rparr>"

definition resolve_module :: "ustr \<Rightarrow> resolver \<Rightarrow> ModDecl \<times> resolver" where
  "resolve_module name rs =
     (case map_of (rs_loaded rs) name of
        Some decl \<Rightarrow> (decl, rs)
      | None \<Rightarrow>
          (let decl = ModDecl name VPrivate False [] in
           (decl, rs\<lparr>rs_loaded := AList.update name decl (rs_loaded rs),
             rs_paths := (rs_paths rs)(name \<mapsto> path_join (rs_base rs) (name @ lit ''.dalin''))\<rparr>)))"

definition sub_names :: "ModDecl \<Rightarrow> ustr list" where
  "sub_names decl = List.map_filter (\<lambda>item. case item of MModule sub \<Rightarrow> Some (md_name sub) | _ \<Rightarrow> None)
     (md_items decl)"

text \<open>The state of a walk: the resolver, the order so far and the visited names.\<close>

type_synonym walk = "resolver \<times> ustr list \<times> ustr set"

fun resolve_recursive :: "nat \<Rightarrow> ustr \<Rightarrow> walk \<Rightarrow> walk option"
and resolve_subs :: "nat \<Rightarrow> ustr list \<Rightarrow> walk \<Rightarrow> walk option" where
  "resolve_recursive 0 name w = None"
| "resolve_recursive (Suc n) name (rs, order, visited) =
     (if name \<in> visited then Some (rs, order, visited)
      else
        (let (decl, rs') = resolve_module name rs in
         case resolve_subs n (sub_names decl) (rs', order, insert name visited) of
           None \<Rightarrow> None
         | Some (rs2, order2, visited2) \<Rightarrow> Some (rs2, order2 @ [name], visited2)))"
| "resolve_subs n [] w = Some w"
| "resolve_subs n (s # ss) w =
     (case resolve_recursive n s w of None \<Rightarrow> None | Some w' \<Rightarrow> resolve_subs n ss w')"

text \<open>Every name a walk can reach is the first one or the name of a module in a loaded one.\<close>

definition loaded_names :: "resolver \<Rightarrow> ustr list" where
  "loaded_names rs = concat (map (\<lambda>(_, decl). sub_names decl) (rs_loaded rs))"

definition resolve_all :: "ustr \<Rightarrow> resolver \<Rightarrow> (ustr list \<times> resolver) option" where
  "resolve_all name rs =
     map_option (\<lambda>(rs', order, _). (order, rs'))
       (resolve_recursive (length (loaded_names rs) + 3) name (rs, [], {}))"

definition list_modules :: "resolver \<Rightarrow> ustr list" where
  "list_modules rs = sort (map fst (rs_loaded rs))"

end
