(* ===== verification/ModulesCorrect.thy ===== *)
theory ModulesCorrect
  imports ModuleSystem
begin

section \<open>The graph of dependencies\<close>

text \<open>
  The search for cycles is exact on every graph; the order of loading is exact on graphs whose
  dependencies are modules of the graph, each listed once, and misled on others.
\<close>

definition edges :: "dep_graph \<Rightarrow> (ustr \<times> ustr) set" where
  "edges g = {(m, d). \<exists>deps. map_of g m = Some deps \<and> d \<in> set deps}"

lemma edgesI: "map_of g m = Some deps \<Longrightarrow> d \<in> set deps \<Longrightarrow> (m, d) \<in> edges g"
  by (auto simp: edges_def)

lemma edgesE: "(m, d) \<in> edges g \<Longrightarrow> (\<And>deps. map_of g m = Some deps \<Longrightarrow> d \<in> set deps \<Longrightarrow> P) \<Longrightarrow> P"
  by (auto simp: edges_def)

subsection \<open>The search for cycles\<close>

text \<open>
  The finished names, visited and no longer on the path, have only finished successors and lie on
  no cycle.
\<close>

definition finished :: "dep_graph \<Rightarrow> ustr set \<Rightarrow> bool" where
  "finished g B = (edges g `` B \<subseteq> B \<and> (\<forall>x\<in>B. (x, x) \<notin> (edges g)\<^sup>+))"

lemma trancl_closed: "(x, y) \<in> E\<^sup>+ \<Longrightarrow> E `` B \<subseteq> B \<Longrightarrow> x \<in> B \<Longrightarrow> y \<in> B"
  by (induction rule: trancl_induct) auto

lemma finished_insert:
  assumes "finished g B" and "edges g `` {x} \<subseteq> B" and "x \<notin> B"
  shows "finished g (insert x B)"
proof -
  have "(x, x) \<notin> (edges g)\<^sup>+"
  proof
    assume "(x, x) \<in> (edges g)\<^sup>+"
    then obtain y where "(x, y) \<in> edges g" "(y, x) \<in> (edges g)\<^sup>*" by (blast dest: tranclD)
    then show False
      using assms trancl_closed[of y x "edges g" B] by (auto simp: finished_def rtrancl_eq_or_trancl)
  qed
  with assms show ?thesis by (auto simp: finished_def)
qed

text \<open>What a search from a name on the path returns.\<close>

definition found :: "dep_graph \<Rightarrow> search \<Rightarrow> ustr set \<Rightarrow> (bool \<times> search) option \<Rightarrow> bool" where
  "found g st targets res = (case res of
       None \<Rightarrow> True
     | Some (True, _) \<Rightarrow> \<exists>x. (x, x) \<in> (edges g)\<^sup>+
     | Some (False, (v, r)) \<Rightarrow> fst st \<union> targets \<subseteq> v \<and> r = snd st \<and> finished g (v - r) \<and> targets \<inter> r = {})"

lemma search_found:
  "snd st \<subseteq> fst st \<Longrightarrow> finished g (fst st - snd st) \<Longrightarrow> name \<notin> fst st \<Longrightarrow>
     (\<forall>r\<in>snd st. (r, name) \<in> (edges g)\<^sup>+) \<Longrightarrow> found g st {name} (cycle_util n g name st)"
  "snd st \<subseteq> fst st \<Longrightarrow> finished g (fst st - snd st) \<Longrightarrow> u \<in> snd st \<Longrightarrow> (\<forall>r\<in>snd st. (r, u) \<in> (edges g)\<^sup>*) \<Longrightarrow>
     (\<forall>d\<in>set deps. (u, d) \<in> edges g) \<Longrightarrow> found g st (set deps) (cycle_deps n g deps st)"
proof (induction n g name st and n g deps st arbitrary: and u rule: cycle_util_cycle_deps.induct)
  case (1 g name st)
  then show ?case by (simp add: found_def)
next
  case (2 n g name v r)
  let ?st = "(insert name v, insert name r)"
  have fresh: "name \<notin> r" "insert name v - insert name r = v - r" using "2.prems" by auto
  define deps where "deps = (case map_of g name of Some deps \<Rightarrow> deps | None \<Rightarrow> [])"
  have succ: "edges g `` {name} = set deps"
    by (cases "map_of g name") (auto simp: deps_def edges_def)
  have "found g ?st (set deps) (case map_of g name of Some deps \<Rightarrow> cycle_deps n g deps ?st | None \<Rightarrow> Some (False, ?st))"
  proof (cases "map_of g name")
    case None
    with 2 fresh show ?thesis by (auto simp: found_def deps_def)
  next
    case (Some ds)
    have pre: "snd ?st \<subseteq> fst ?st" "finished g (fst ?st - snd ?st)" "name \<in> snd ?st"
        "\<forall>x\<in>snd ?st. (x, name) \<in> (edges g)\<^sup>*" "\<forall>d\<in>set ds. (name, d) \<in> edges g"
      using "2.prems" fresh Some by (auto intro: trancl_into_rtrancl edgesI)
    from "2.IH"[OF refl Some pre] show ?thesis by (simp add: Some deps_def)
  qed
  moreover have "finished g (v2 - r)"
    if "finished g (v2 - insert name r)" "set deps \<subseteq> v2" "set deps \<inter> insert name r = {}" "name \<in> v2" for v2
  proof -
    have "finished g (insert name (v2 - insert name r))"
      using that succ by (intro finished_insert) auto
    moreover have "insert name (v2 - insert name r) = v2 - r" using that(4) fresh(1) by auto
    ultimately show ?thesis by simp
  qed
  ultimately show ?case
    using fresh(1) by (auto simp: found_def Let_def split: option.splits bool.splits)
next
  case (3 n g st)
  then show ?case by (cases st) (simp add: found_def)
next
  case (4 n g dep deps v r)
  have step: "(u, dep) \<in> edges g" and rest: "\<forall>d\<in>set deps. (u, d) \<in> edges g" using "4.prems" by simp_all
  consider (new) "dep \<notin> v" | (path) "dep \<in> v" "dep \<in> r" | (old) "dep \<in> v" "dep \<notin> r" by blast
  then show ?case
  proof cases
    case new
    have path: "\<forall>x\<in>r. (x, dep) \<in> (edges g)\<^sup>+" using "4.prems"(4) step by (auto intro: rtrancl_into_trancl1)
    have dep: "found g (v, r) {dep} (cycle_util n g dep (v, r))"
      using "4.IH"(1) "4.prems" new path by simp
    show ?thesis
    proof (cases "cycle_util n g dep (v, r)")
      case None
      with new show ?thesis by (simp add: found_def)
    next
      case (Some res)
      obtain b v2 r2 where res: "res = (b, (v2, r2))" by (metis prod.exhaust)
      show ?thesis
      proof (cases b)
        case True
        with dep new Some res show ?thesis by (simp add: found_def)
      next
        case False
        with dep Some res have st2: "v \<subseteq> v2" "dep \<in> v2" "r2 = r" "finished g (v2 - r)" "dep \<notin> r"
          by (auto simp: found_def)
        have "found g (v2, r) (set deps) (cycle_deps n g deps (v2, r))"
          by (rule "4.IH"(2)) (use "4.prems" new st2 rest res False Some in auto)
        then have "found g (v, r) (insert dep (set deps)) (cycle_deps n g deps (v2, r))"
          using st2 by (auto simp: found_def split: option.splits bool.splits)
        with new Some res False st2 show ?thesis by simp
      qed
    qed
  next
    case path
    then have "(dep, dep) \<in> (edges g)\<^sup>+" using "4.prems" step by (auto intro: rtrancl_into_trancl1)
    with path show ?thesis by (auto simp: found_def)
  next
    case old
    have "found g (v, r) (set deps) (cycle_deps n g deps (v, r))"
      using "4.IH"(3)[of u] "4.prems" old rest by simp
    with old show ?thesis by (auto simp: found_def split: option.splits bool.splits)
  qed
qed

text \<open>The fuel: every nested search visits a further name.\<close>

lemma search_returns:
  assumes N: "finite N"
  shows "(\<And>m deps. map_of g m = Some deps \<Longrightarrow> set deps \<subseteq> N) \<Longrightarrow> name \<in> N \<Longrightarrow> name \<notin> fst st \<Longrightarrow>
      card (N - fst st) < n \<Longrightarrow> \<exists>b v r. cycle_util n g name st = Some (b, (v, r)) \<and> fst st \<subseteq> v"
    and "(\<And>m deps. map_of g m = Some deps \<Longrightarrow> set deps \<subseteq> N) \<Longrightarrow> set deps \<subseteq> N \<Longrightarrow>
      card (N - fst st) < n \<Longrightarrow> \<exists>b v r. cycle_deps n g deps st = Some (b, (v, r)) \<and> fst st \<subseteq> v"
proof (induction n g name st and n g deps st rule: cycle_util_cycle_deps.induct)
  case (2 n g name v r)
  have "card (N - insert name v) < card (N - v)"
    by (rule psubset_card_mono) (use "2.prems" N in auto)
  then have left: "card (N - insert name v) < n" using "2.prems"(4) by simp
  show ?case
  proof (cases "map_of g name")
    case (Some deps)
    then have "\<exists>b v' r'. cycle_deps n g deps (insert name v, insert name r) = Some (b, (v', r')) \<and> insert name v \<subseteq> v'"
      using "2.IH"[OF refl Some] "2.prems"(1) left by simp
    then show ?thesis by (auto simp: Some split: bool.splits)
  qed auto
next
  case (4 n g dep deps v r)
  show ?case
  proof (cases "dep \<in> v")
    case True
    then show ?thesis using "4.IH"(3) "4.prems" by (cases "dep \<in> r") auto
  next
    case False
    then obtain b v' r' where u: "cycle_util n g dep (v, r) = Some (b, (v', r'))" "v \<subseteq> v'"
      using "4.IH"(1) "4.prems" by auto
    have "card (N - v') \<le> card (N - v)" using u(2) N by (intro card_mono) auto
    then have "\<exists>b v2 r2. cycle_deps n g deps (v', r') = Some (b, (v2, r2)) \<and> v' \<subseteq> v2" if "\<not> b"
      using "4.IH"(2)[OF False u(1)] "4.prems" that by simp
    then have "\<not> b \<Longrightarrow> \<exists>b v2 r2. cycle_deps n g deps (v', r') = Some (b, (v2, r2)) \<and> v \<subseteq> v2"
      using u(2) by blast
    with u False show ?thesis by (cases b) auto
  qed
qed auto

text \<open>A finished name is searched again without an effect.\<close>

lemma cycle_deps_done: "set deps \<subseteq> v - r \<Longrightarrow> cycle_deps n g deps (v, r) = Some (False, (v, r))"
  by (induction deps) auto

lemma cycle_util_done:
  assumes "finished g v" and "name \<in> v" and "0 < n"
  shows "cycle_util n g name (v, {}) = Some (False, (v, {}))"
proof -
  obtain m where n: "n = Suc m" using assms(3) by (cases n) auto
  have v: "insert name v = v" using assms(2) by auto
  show ?thesis
  proof (cases "map_of g name")
    case (Some deps)
    then have "set deps \<subseteq> v - {name}" using assms(1,2) by (auto simp: finished_def intro: edgesI)
    then show ?thesis by (simp add: n v Some cycle_deps_done)
  qed (simp add: n v)
qed

lemma cycle_keys_exact:
  assumes N: "finite N" "\<And>m deps. map_of g m = Some deps \<Longrightarrow> set deps \<subseteq> N" and n: "card N < n"
  shows "finished g v \<Longrightarrow> set ks \<subseteq> N \<Longrightarrow> \<exists>b. cycle_keys n g ks (v, {}) = Some b \<and>
    (if b then \<exists>x. (x, x) \<in> (edges g)\<^sup>+ else \<exists>v'. finished g v' \<and> v \<union> set ks \<subseteq> v')"
proof (induction ks arbitrary: v)
  case (Cons k ks)
  show ?case
  proof (cases "k \<in> v")
    case True
    have "cycle_keys n g (k # ks) (v, {}) = cycle_keys n g ks (v, {})"
      using cycle_util_done[OF Cons.prems(1) True] n by simp
    moreover have "v \<union> set (k # ks) = v \<union> set ks" using True by auto
    moreover have "set ks \<subseteq> N" using Cons.prems(2) by simp
    ultimately show ?thesis using Cons.IH[OF Cons.prems(1)] by (simp only:)
  next
    case False
    have "card (N - v) \<le> card N" using N(1) by (intro card_mono) auto
    then obtain b v2 r2 where u: "cycle_util n g k (v, {}) = Some (b, (v2, r2))"
      using search_returns(1)[OF N(1), of g k "(v, {})" n] N(2) Cons.prems False n by auto
    have "found g (v, {}) {k} (cycle_util n g k (v, {}))"
      using search_found(1)[of "(v, {})" g k n] Cons.prems False by simp
    then have f: "if b then \<exists>x. (x, x) \<in> (edges g)\<^sup>+ else insert k v \<subseteq> v2 \<and> r2 = {} \<and> finished g v2"
      by (auto simp: u found_def split: bool.splits)
    show ?thesis
    proof (cases b)
      case True
      with u f show ?thesis by auto
    next
      case False
      with f have s: "insert k v \<subseteq> v2" "r2 = {}" "finished g v2" by simp_all
      obtain b' where "cycle_keys n g ks (v2, {}) = Some b'"
          "if b' then \<exists>x. (x, x) \<in> (edges g)\<^sup>+ else \<exists>v'. finished g v' \<and> v2 \<union> set ks \<subseteq> v'"
        using Cons.IH[OF s(3)] Cons.prems by auto
      with s u False show ?thesis by (auto split: if_splits)
    qed
  qed
qed auto

lemma graph_names_card: "card (set (graph_names g)) < length (graph_names g) + 2"
  using card_length[of "graph_names g"] by simp

lemma graph_names_deps: "map_of g m = Some deps \<Longrightarrow> set deps \<subseteq> set (graph_names g)"
  by (auto simp: graph_names_def dest!: map_of_SomeD)

lemma graph_names_keys: "fst ` set g \<subseteq> set (graph_names g)"
  by (auto simp: graph_names_def)

text \<open>
  C20: The search for cycles is exact. It returns for every graph and reports a cycle exactly when
  some module depends on itself through one or more dependencies, in whatever order the modules
  are visited and whether or not the dependencies are modules of the graph.
\<close>

theorem has_cycle_exact: "has_cycle g = Some (\<exists>x. (x, x) \<in> (edges g)\<^sup>+)"
proof -
  have "finished g {}" by (simp add: finished_def)
  then obtain b where b: "has_cycle g = Some b"
      "if b then \<exists>x. (x, x) \<in> (edges g)\<^sup>+ else \<exists>v'. finished g v' \<and> fst ` set g \<subseteq> v'"
    using cycle_keys_exact[of "set (graph_names g)" g "length (graph_names g) + 2" "{}" "map fst g"]
      graph_names_deps graph_names_keys graph_names_card unfolding has_cycle_def by (metis Un_empty_left finite_set set_map)
  have key: "x \<in> fst ` set g" if "(x, x) \<in> (edges g)\<^sup>+" for x
    using that by (auto dest!: tranclD simp: edges_def dest: map_of_SomeD intro: rev_image_eqI)
  have "(x, x) \<notin> (edges g)\<^sup>+" if "finished g v'" "fst ` set g \<subseteq> v'" for v' x
  proof
    assume c: "(x, x) \<in> (edges g)\<^sup>+"
    have "x \<in> v'" using key[OF c] that(2) by (rule subsetD[rotated])
    with that(1) c show False by (simp add: finished_def)
  qed
  with b show ?thesis by (cases b) auto
qed

end
