(* ===== verification/LoadOrder.thy ===== *)
theory LoadOrder
  imports ModulesCorrect "HOL-Library.Multiset"
begin

section \<open>The order of loading\<close>

text \<open>
  The order of loading by counting dependencies, as an invariant of its loop, and the graphs on
  which the count is wrong.
\<close>

definition well_formed :: "dep_graph \<Rightarrow> bool" where
  "well_formed g = (distinct (map fst g) \<and>
     list_all (\<lambda>(m, deps). distinct deps \<and> set deps \<subseteq> fst ` set g) g)"

lemma well_formedD:
  assumes "well_formed g" and "map_of g m = Some deps"
  shows "distinct deps" "set deps \<subseteq> fst ` set g" "m \<in> fst ` set g"
  using assms by (auto simp: well_formed_def list_all_iff dest!: map_of_SomeD intro: rev_image_eqI)

subsection \<open>The degrees\<close>

lemma update_known: "k \<in> fst ` set al \<Longrightarrow> map fst (AList.update k v al) = map fst al"
  by (induction al) auto

lemma map_of_known: "k \<in> fst ` set al \<Longrightarrow> \<exists>v. map_of al k = Some v"
  by (metis map_of_eq_None_iff not_None_eq)

lemma map_of_key: "map_of al k = Some v \<Longrightarrow> k \<in> fst ` set al"
  by (metis map_of_eq_None_iff option.distinct(1))

lemma or_insert_known: "k \<in> fst ` set al \<Longrightarrow> or_insert k al = al"
  by (auto simp: or_insert_def map_of_eq_None_iff)

lemma first_degrees:
  "distinct (map fst acc @ map fst g) \<Longrightarrow>
   fold (\<lambda>(m, _). or_insert m) g acc = acc @ map (\<lambda>(m, _). (m, 0)) g"
proof (induction g arbitrary: acc)
  case (Cons x g)
  then have "map_of acc (fst x) = None" by (auto simp: map_of_eq_None_iff)
  with Cons show ?case by (auto simp: or_insert_def split: prod.split)
qed simp

lemma count_degrees:
  assumes "m \<in> fst ` set ds" and "set deps \<subseteq> fst ` set ds"
  shows "map fst (fold (\<lambda>dep ds. or_insert dep (bump m ds)) deps ds) = map fst ds \<and>
    map_of (fold (\<lambda>dep ds. or_insert dep (bump m ds)) deps ds) =
      (map_of ds)(m \<mapsto> the (map_of ds m) + length deps)"
  using assms
proof (induction deps arbitrary: ds)
  case Nil
  then show ?case using map_of_known[OF Nil(1)] by auto
next
  case (Cons d deps)
  define ds' where "ds' = bump m ds"
  have b: "map fst ds' = map fst ds" "map_of ds' = (map_of ds)(m \<mapsto> the (map_of ds m) + 1)"
    using Cons.prems(1) by (simp_all add: ds'_def bump_def or_insert_known update_known update_conv')
  have keys: "fst ` set ds' = fst ` set ds" using b(1) by (metis set_map)
  have "or_insert d (bump m ds) = ds'"
    unfolding ds'_def[symmetric] by (rule or_insert_known) (use keys Cons.prems in simp)
  then show ?case using Cons.IH[of ds'] Cons.prems b keys by (simp add: fun_eq_iff)
qed

lemma all_degrees:
  assumes "distinct (map fst g')" and "fst ` set g' \<subseteq> fst ` set ds"
    and "\<forall>(m, deps)\<in>set g'. set deps \<subseteq> fst ` set ds"
  shows "map fst (fold (\<lambda>(m, deps). fold (\<lambda>dep ds. or_insert dep (bump m ds)) deps) g' ds) = map fst ds \<and>
    (\<forall>x. map_of (fold (\<lambda>(m, deps). fold (\<lambda>dep ds. or_insert dep (bump m ds)) deps) g' ds) x =
      (case map_of g' x of Some deps \<Rightarrow> Some (the (map_of ds x) + length deps) | None \<Rightarrow> map_of ds x))"
  using assms
proof (induction g' arbitrary: ds)
  case (Cons e g')
  obtain m deps where e: "e = (m, deps)" by (cases e)
  define ds' where "ds' = fold (\<lambda>dep ds. or_insert dep (bump m ds)) deps ds"
  have d: "map fst ds' = map fst ds" "map_of ds' = (map_of ds)(m \<mapsto> the (map_of ds m) + length deps)"
    using count_degrees[of m ds deps] Cons.prems by (auto simp: e ds'_def)
  have keys: "fst ` set ds' = fst ` set ds" using d(1) by (metis set_map)
  have "map_of g' m = None" using Cons.prems(1) by (auto simp: e map_of_eq_None_iff)
  then show ?case
    using Cons.IH[of ds'] Cons.prems d keys by (auto simp: e ds'_def[symmetric] split: option.split)
qed simp

lemma zero_degrees:
  "map_of (map (\<lambda>(m, _). (m, 0)) g) x = (if x \<in> fst ` set g then Some 0 else None)"
  by (induction g) auto

lemma in_degrees_eq:
  assumes "well_formed g"
  shows "map fst (in_degrees g) = map fst g"
    and "map_of g m = Some deps \<Longrightarrow> map_of (in_degrees g) m = Some (length deps)"
proof -
  have first: "fold (\<lambda>(m, _). or_insert m) g [] = map (\<lambda>(m, _). (m, 0)) g"
    using first_degrees[of "[]" g] assms by (simp add: well_formed_def)
  have keys: "fst ` set (map (\<lambda>(m, _). (m, 0)) g) = fst ` set g"
    by (simp add: image_image split_beta)
  have all: "map fst (in_degrees g) = map fst (map (\<lambda>(m, _). (m, 0::nat)) g) \<and>
    (\<forall>x. map_of (in_degrees g) x =
      (case map_of g x of Some deps \<Rightarrow> Some (the (map_of (map (\<lambda>(m, _). (m, 0)) g) x) + length deps)
       | None \<Rightarrow> map_of (map (\<lambda>(m, _). (m, 0)) g) x))"
    unfolding in_degrees_def first
  proof (rule all_degrees)
    show "\<forall>(m, deps)\<in>set g. set deps \<subseteq> fst ` set (map (\<lambda>(m, _). (m, 0::nat)) g)"
      unfolding keys using assms by (auto simp: well_formed_def list_all_iff)
  qed (use assms in \<open>simp_all add: keys well_formed_def del: set_map\<close>)
  then show "map fst (in_degrees g) = map fst g" by (simp add: split_beta comp_def)
  show "map_of (in_degrees g) m = Some (length deps)" if "map_of g m = Some deps"
    using all that by (simp add: zero_degrees dom_map_of_conv_image_fst[symmetric] domI)
qed

subsection \<open>The loop\<close>

definition pending :: "ustr list \<Rightarrow> ustr list \<Rightarrow> nat" where
  "pending result deps = length (filter (\<lambda>d. d \<notin> set result) deps)"

lemma pending_snoc:
  "distinct deps \<Longrightarrow> x \<notin> set result \<Longrightarrow>
   pending result deps = (if x \<in> set deps then Suc (pending (result @ [x]) deps) else pending (result @ [x]) deps)"
  unfolding pending_def
  by (induction deps) (auto split: if_splits)

lemma pending_0: "pending result deps = 0 \<longleftrightarrow> set deps \<subseteq> set result"
  by (auto simp: pending_def filter_empty_conv)

text \<open>Taking a module off the queue takes one off the degree of each module that waits for it.\<close>

lemma release_modules_eq:
  assumes "distinct (map fst g')" and "\<forall>(m, deps)\<in>set g'. node \<in> set deps \<longrightarrow> (\<exists>d. map_of ds m = Some (Suc d))"
  shows "\<exists>ds' q'. release_modules node g' (ds, q) = Some (ds', q') \<and> map fst ds' = map fst ds \<and>
    (\<forall>x. map_of ds' x = (case map_of g' x of
        Some deps \<Rightarrow> if node \<in> set deps then map_option (\<lambda>d. d - 1) (map_of ds x) else map_of ds x
      | None \<Rightarrow> map_of ds x)) \<and>
    mset q' = mset q + mset (map fst (filter (\<lambda>(m, deps). node \<in> set deps \<and> map_of ds m = Some 1) g'))"
  using assms
proof (induction g' arbitrary: ds q)
  case (Cons e g')
  obtain m deps where e: "e = (m, deps)" by (cases e)
  have fresh: "m \<notin> fst ` set g'" "map_of g' m = None" using Cons.prems(1) by (auto simp: e map_of_eq_None_iff)
  show ?case
  proof (cases "node \<in> set deps")
    case False
    have "(case map_of (e # g') x of
          Some deps \<Rightarrow> if node \<in> set deps then map_option (\<lambda>d. d - 1) (map_of ds x) else map_of ds x
        | None \<Rightarrow> map_of ds x) =
        (case map_of g' x of
          Some deps \<Rightarrow> if node \<in> set deps then map_option (\<lambda>d. d - 1) (map_of ds x) else map_of ds x
        | None \<Rightarrow> map_of ds x)" for x
      using False fresh(2) by (simp add: e)
    moreover have "release_modules node (e # g') (ds, q) = release_modules node g' (ds, q)"
        "filter (\<lambda>(m, deps). node \<in> set deps \<and> map_of ds m = Some 1) (e # g') =
          filter (\<lambda>(m, deps). node \<in> set deps \<and> map_of ds m = Some 1) g'"
      using False by (simp_all add: e)
    moreover have "distinct (map fst g')" "\<forall>(m, deps)\<in>set g'. node \<in> set deps \<longrightarrow> (\<exists>d. map_of ds m = Some (Suc d))"
      using Cons.prems by simp_all
    ultimately show ?thesis using Cons.IH[of ds q] by (simp only:)
  next
    case True
    then obtain d where d: "map_of ds m = Some (Suc d)" using Cons.prems(2) by (auto simp: e)
    define ds1 where "ds1 = AList.update m d ds"
    define q1 where "q1 = (if d = 0 then sort (q @ [m]) else q)"
    have ds1: "map fst ds1 = map fst ds" "map_of ds1 = (map_of ds)(m \<mapsto> d)"
      using update_known[of m ds d] weak_map_of_SomeI d
      by (auto simp: ds1_def update_conv' map_of_key[OF d])
    have other: "map_of ds1 x = map_of ds x" if "x \<in> fst ` set g'" for x
      using that fresh(1) by (auto simp: ds1(2))
    have "\<forall>(m, deps)\<in>set g'. node \<in> set deps \<longrightarrow> (\<exists>d. map_of ds1 m = Some (Suc d))"
      using Cons.prems(2) other by (force simp: e)
    then obtain ds' q' where r: "release_modules node g' (ds1, q1) = Some (ds', q')" "map fst ds' = map fst ds1"
        "\<forall>x. map_of ds' x = (case map_of g' x of
          Some deps \<Rightarrow> if node \<in> set deps then map_option (\<lambda>d. d - 1) (map_of ds1 x) else map_of ds1 x
        | None \<Rightarrow> map_of ds1 x)"
        "mset q' = mset q1 + mset (map fst (filter (\<lambda>(m, deps). node \<in> set deps \<and> map_of ds1 m = Some 1) g'))"
      using Cons.IH[of ds1 q1] Cons.prems(1) by (auto simp: e)
    have f: "filter (\<lambda>(m, deps). node \<in> set deps \<and> map_of ds1 m = Some 1) g' =
        filter (\<lambda>(m, deps). node \<in> set deps \<and> map_of ds m = Some 1) g'"
      using fresh(1) by (intro filter_cong) (auto simp: ds1(2) image_iff)
    have "release_modules node (e # g') (ds, q) = Some (ds', q')"
      using r(1) True d by (simp add: e ds1_def q1_def)
    moreover have "map_of ds' x = (case map_of (e # g') x of
          Some deps \<Rightarrow> if node \<in> set deps then map_option (\<lambda>d. d - 1) (map_of ds x) else map_of ds x
        | None \<Rightarrow> map_of ds x)" for x
      using r(3) True d fresh(2) by (auto simp: e ds1(2) split: option.split)
    moreover have "mset q' = mset q +
        mset (map fst (filter (\<lambda>(m, deps). node \<in> set deps \<and> map_of ds m = Some 1) (e # g')))"
      using r(4)[unfolded f] True d by (simp add: e q1_def del: mset_map mset_filter)
    ultimately show ?thesis using r(2) ds1(1) by metis
  qed
qed simp

text \<open>
  Queue and result hold exactly the modules that wait for none, and what is in the result waits for
  nothing outside of it.
\<close>

definition sorting :: "dep_graph \<Rightarrow> degrees \<times> ustr list \<Rightarrow> ustr list \<Rightarrow> bool" where
  "sorting g st result = (map fst (fst st) = map fst g \<and>
     (\<forall>m deps. map_of g m = Some deps \<longrightarrow> map_of (fst st) m = Some (pending result deps)) \<and>
     distinct (snd st) \<and> distinct result \<and> set (snd st) \<inter> set result = {} \<and>
     set (snd st) \<union> set result = {m. map_of (fst st) m = Some 0} \<and>
     finished g (set result) \<and>
     (\<forall>i<length result. set (the (map_of g (result ! i))) \<subseteq> set (take i result)))"

lemma sorting_keys: "sorting g st result \<Longrightarrow> set (snd st) \<union> set result \<subseteq> fst ` set g"
  unfolding sorting_def by (metis (mono_tags, lifting) map_of_key mem_Collect_eq set_map subsetI)

lemma zeros:
  "distinct (map fst ds) \<Longrightarrow> set (map fst (filter (\<lambda>(_, d). d = 0) ds)) = {m. map_of ds m = Some 0}"
  by (induction ds) (auto dest: map_of_key split: if_splits)

lemma sorting_start:
  assumes "well_formed g"
  shows "sorting g (in_degrees g, sort (map fst (filter (\<lambda>(_, d). d = 0) (in_degrees g)))) []"
proof -
  define queue where "queue = sort (map fst (filter (\<lambda>(_, d). d = 0) (in_degrees g)))"
  have d: "distinct (map fst (in_degrees g))" using assms in_degrees_eq(1) by (simp add: well_formed_def)
  then have "set queue = {m. map_of (in_degrees g) m = Some 0}"
    unfolding queue_def set_sort by (rule zeros)
  moreover have "distinct queue" using d by (simp add: queue_def distinct_map_filter)
  ultimately show ?thesis
    using in_degrees_eq[OF assms] unfolding queue_def[symmetric]
    by (simp add: sorting_def pending_def finished_def)
qed

lemma queue_last:
  "queue \<noteq> [] \<Longrightarrow> distinct queue \<Longrightarrow>
   distinct (butlast queue) \<and> last queue \<notin> set (butlast queue) \<and> set queue = insert (last queue) (set (butlast queue))"
  by (cases queue rule: rev_cases) auto

lemma sorting_step:
  assumes wf: "well_formed g" and inv: "sorting g (ds, queue) result" and queue: "queue \<noteq> []"
  shows "\<exists>st. release_modules (last queue) g (ds, butlast queue) = Some st \<and> sorting g st (result @ [last queue])"
proof -
  define node where "node = last queue"
  have keys: "map fst ds = map fst g"
    and deg: "\<And>m deps. map_of g m = Some deps \<Longrightarrow> map_of ds m = Some (pending result deps)"
    and dist: "distinct queue" "distinct result" "set queue \<inter> set result = {}"
    and zero: "set queue \<union> set result = {m. map_of ds m = Some 0}"
    and fin: "finished g (set result)"
    and order: "\<forall>i<length result. set (the (map_of g (result ! i))) \<subseteq> set (take i result)"
    using inv unfolding sorting_def by simp_all
  have q: "distinct (butlast queue)" "node \<notin> set (butlast queue)" "set queue = insert node (set (butlast queue))"
    using queue_last[OF queue dist(1)] by (simp_all add: node_def)
  have new: "node \<notin> set result" using q(3) dist(3) by auto
  have dg: "distinct (map fst g)" using wf by (simp add: well_formed_def)
  have waits: "\<exists>d. map_of ds m = Some (Suc d)" if "map_of g m = Some deps" "node \<in> set deps" for m deps
    using deg[OF that(1)] that(2) new pending_0[of result deps] by (cases "pending result deps") auto
  have "\<forall>(m, deps)\<in>set g. node \<in> set deps \<longrightarrow> (\<exists>d. map_of ds m = Some (Suc d))"
    using waits dg by (auto intro: map_of_is_SomeI)
  then obtain ds' q' where r: "release_modules node g (ds, butlast queue) = Some (ds', q')" "map fst ds' = map fst ds"
      "\<And>x. map_of ds' x = (case map_of g x of
        Some deps \<Rightarrow> if node \<in> set deps then map_option (\<lambda>d. d - 1) (map_of ds x) else map_of ds x
      | None \<Rightarrow> map_of ds x)"
      "mset q' = mset (butlast queue) +
        mset (map fst (filter (\<lambda>(m, deps). node \<in> set deps \<and> map_of ds m = Some 1) g))"
    using release_modules_eq[OF dg, of node ds "butlast queue"] by blast
  define L where "L = map fst (filter (\<lambda>(m, deps). node \<in> set deps \<and> map_of ds m = Some 1) g)"
  have L: "distinct L" "m \<in> set L \<longleftrightarrow> (\<exists>deps. map_of g m = Some deps \<and> node \<in> set deps \<and> map_of ds m = Some 1)" for m
    using dg by (auto simp: L_def distinct_map_filter image_iff)
  have mq: "mset q' = mset (butlast queue @ L)" using r(4) by (simp add: L_def)
  have at0: "map_of ds m = Some 0" if "m \<in> set queue \<union> set result" for m using that zero by blast
  have "distinct (butlast queue @ L)" using q L at0 by auto
  then have dq: "distinct q'" using mset_eq_imp_distinct_iff[OF mq] by simp
  have sq: "set q' = set (butlast queue) \<union> set L" using mset_eq_setD[OF mq] by simp
  have deg': "map_of ds' m = Some (pending (result @ [node]) deps)" if "map_of g m = Some deps" for m deps
    using deg[OF that] r(3)[of m] pending_snoc[OF well_formedD(1)[OF wf that] new] that by (auto split: if_splits)
  have key: "\<exists>deps. map_of g m = Some deps" if "map_of ds m = Some n" for m n
    using map_of_key[OF that] keys map_of_known[of m g] by (metis set_map)
  have keys': "map_of ds m \<noteq> None" if "map_of ds' m = Some n" for m n
    using that r(3)[of m] by (auto split: option.splits if_splits)
  have zero: "map_of ds m = Some 0 \<longleftrightarrow> m \<in> insert node (set (butlast queue) \<union> set result)" for m
    using zero q(3) by auto
  have "map_of ds' m = Some 0 \<longleftrightarrow> m \<in> set q' \<union> set (result @ [node])" for m
  proof (cases "map_of g m")
    case None
    then have "map_of ds m = None" using key[of m] by (cases "map_of ds m") auto
    with None zero[of m] L(2)[of m] show ?thesis by (simp add: r(3) sq)
  next
    case (Some deps)
    show ?thesis
    proof (cases "node \<in> set deps")
      case True
      with waits[OF Some] obtain d where "map_of ds m = Some (Suc d)" by blast
      with True Some zero[of m] L(2)[of m] show ?thesis by (simp add: r(3) sq)
    next
      case False
      with Some zero[of m] L(2)[of m] show ?thesis by (auto simp: r(3) sq)
    qed
  qed
  then have zero': "set q' \<union> set (result @ [node]) = {m. map_of ds' m = Some 0}" by blast
  obtain deps where deps: "map_of g node = Some deps" using at0[of node] key[of node] q(3) by blast
  then have sub: "set deps \<subseteq> set result" using deg[OF deps] at0[of node] q(3) by (simp add: pending_0[symmetric])
  then have "edges g `` {node} \<subseteq> set result" using deps by (auto simp: edges_def)
  then have fin': "finished g (set (result @ [node]))" using finished_insert[OF fin _ new] by simp
  have order': "\<forall>i<length (result @ [node]). set (the (map_of g ((result @ [node]) ! i))) \<subseteq> set (take i (result @ [node]))"
    using order sub deps by (auto simp: nth_append less_Suc_eq)
  have "set q' \<inter> set (result @ [node]) = {}"
    using sq q dist(3) L(2) at0 by auto
  then have "sorting g (ds', q') (result @ [node])"
    using r(2) keys deg' dq dist(2) new zero' fin' order' by (simp add: sorting_def)
  then show ?thesis using r(1) by (auto simp: node_def)
qed

lemma sorting_distinct:
  "sorting g st result \<Longrightarrow> distinct (snd st) \<and> distinct result \<and> set (snd st) \<inter> set result = {}"
  by (simp add: sorting_def)

text \<open>The fuel is enough: every round puts a module into the result.\<close>

lemma sort_loop_returns:
  assumes wf: "well_formed g"
  shows "sorting g st result \<Longrightarrow> length g \<le> length result + n \<Longrightarrow>
    \<exists>ds order. sort_loop n g st result = Some (Ok order) \<and> sorting g (ds, []) order"
proof (induction n arbitrary: st result)
  case 0
  obtain ds queue where st: "st = (ds, queue)" by (cases st)
  have "length queue + length result = card (set queue \<union> set result)"
    using sorting_distinct[OF 0(1)] by (simp add: st card_Un_disjoint distinct_card)
  also have "\<dots> \<le> card (fst ` set g)"
    using sorting_keys[OF 0(1)] by (intro card_mono) (simp_all add: st)
  also have "\<dots> \<le> length g" using card_length[of "map fst g"] by simp
  finally have "length queue = 0" using 0(2) by linarith
  then have "queue = []" by simp
  with 0 show ?case by (auto simp: st)
next
  case (Suc n)
  obtain ds queue where st: "st = (ds, queue)" by (cases st)
  show ?case
  proof (cases "queue = []")
    case True
    with Suc show ?thesis by (auto simp: st)
  next
    case False
    then obtain st' where s: "release_modules (last queue) g (ds, butlast queue) = Some st'"
        "sorting g st' (result @ [last queue])"
      using sorting_step[OF wf Suc.prems(1)[unfolded st]] by blast
    with Suc.IH[OF s(2)] Suc.prems(2) False show ?thesis by (cases queue) (simp_all add: st)
  qed
qed

lemma dependent_cycle:
  assumes "finite S" "S \<noteq> {}" and "\<And>x. x \<in> S \<Longrightarrow> \<exists>y\<in>S. (x, y) \<in> E"
  shows "\<exists>x. (x, x) \<in> E\<^sup>+"
proof (rule ccontr)
  assume "\<nexists>x. (x, x) \<in> E\<^sup>+"
  then have "acyclic (E \<inter> S \<times> S)" unfolding acyclic_def by (meson Int_lower1 trancl_mono)
  moreover have "finite (E \<inter> S \<times> S)" using assms(1) by simp
  ultimately have "wf ((E \<inter> S \<times> S)\<inverse>)" by (rule finite_acyclic_wf_converse[rotated])
  then obtain z where "z \<in> S" "\<And>y. (y, z) \<in> (E \<inter> S \<times> S)\<inverse> \<Longrightarrow> y \<notin> S"
    using assms(2) by (meson ex_in_conv wfE_min)
  with assms(3) show False by blast
qed

text \<open>
  C19: On well-formed graphs, whose dependencies are modules of the graph and listed once each, the
  order of loading is exact. It returns an order of all the modules, each behind everything it
  depends on, when no module depends on itself through others, and reports a circular dependency
  exactly when one does.
\<close>

theorem topological_sort_exact:
  assumes "well_formed g"
  shows "case topological_sort g of
      Some (Ok order) \<Rightarrow> (\<forall>x. (x, x) \<notin> (edges g)\<^sup>+) \<and> distinct order \<and> set order = fst ` set g \<and>
        (\<forall>i<length order. set (the (map_of g (order ! i))) \<subseteq> set (take i order))
    | Some (Err _) \<Rightarrow> \<exists>x. (x, x) \<in> (edges g)\<^sup>+
    | _ \<Rightarrow> False"
proof -
  have keys: "distinct (map fst g)" using assms by (simp add: well_formed_def)
  have len: "length (in_degrees g) = length g" using in_degrees_eq(1)[OF assms] by (metis length_map)
  from sort_loop_returns[OF assms sorting_start[OF assms], of "length (in_degrees g)"]
  obtain ds order where o: "sort_loop (length (in_degrees g)) g
        (in_degrees g, sort (map fst (filter (\<lambda>(_, d). d = 0) (in_degrees g)))) [] = Some (Ok order)"
      "sorting g (ds, []) order"
    using len by auto
  have sub: "set order \<subseteq> fst ` set g" using sorting_keys[OF o(2)] by simp
  have card: "card (fst ` set g) = length g" using keys by (metis distinct_card length_map set_map)
  show ?thesis
  proof (cases "length order = length g")
    case True
    then have "set order = fst ` set g"
      using sub card sorting_distinct[OF o(2)] by (intro card_subset_eq) (simp_all add: distinct_card)
    moreover have "x \<in> fst ` set g" if "(x, x) \<in> (edges g)\<^sup>+" for x
      using that by (auto dest!: tranclD simp: edges_def dest: map_of_key)
    moreover have "finished g (set order)" using o(2) unfolding sorting_def by blast
    ultimately have "\<forall>x. (x, x) \<notin> (edges g)\<^sup>+" unfolding finished_def by metis
    then show ?thesis
      using True o \<open>set order = _\<close> by (simp add: topological_sort_def Let_def sorting_def)
  next
    case False
    have "\<exists>y\<in>fst ` set g - set order. (x, y) \<in> edges g" if x: "x \<in> fst ` set g - set order" for x
    proof -
      obtain deps where d: "map_of g x = Some deps" using x map_of_known[of x g] by auto
      have "map_of ds x = Some (pending order deps)" "map_of ds x \<noteq> Some 0"
        using o(2) d x by (auto simp: sorting_def)
      then obtain y where "y \<in> set deps" "y \<notin> set order" by (auto simp: pending_0)
      with d well_formedD(2)[OF assms d] show ?thesis by (auto intro: edgesI)
    qed
    moreover have "fst ` set g - set order \<noteq> {}"
      using sub card False o(2) by (auto simp: sorting_def dest: distinct_card)
    ultimately have "\<exists>x. (x, x) \<in> (edges g)\<^sup>+"
      by (intro dependent_cycle[of "fst ` set g - set order"]) auto
    with False o(1) show ?thesis by (simp add: topological_sort_def Let_def)
  qed
qed

definition sample_graph :: dep_graph where
  "sample_graph = [(lit ''app'', [lit ''io'', lit ''core'']), (lit ''io'', [lit ''core'']), (lit ''core'', [])]"

theorem topological_sort_exact_witness:
  "topological_sort sample_graph = Some (Ok [lit ''core'', lit ''io'', lit ''app'']) \<and>
    (\<forall>x. (x, x) \<notin> (edges sample_graph)\<^sup>+)"
proof -
  have "well_formed sample_graph" by code_simp
  moreover have "topological_sort sample_graph = Some (Ok [lit ''core'', lit ''io'', lit ''app''])" by code_simp
  ultimately show ?thesis using topological_sort_exact[of sample_graph] by simp
qed

text \<open>
  Other graphs mislead the order of loading. A dependency listed twice is counted twice and
  released once, so a graph without cycles is reported as circular; and a dependency that is no
  module of the graph counts as one, so a graph with a module that depends on itself can be given
  an order, which then lists the missing dependency and leaves the module out.
\<close>

theorem topological_sort_misled:
  "topological_sort [(lit ''app'', [lit ''core'', lit ''core'']), (lit ''core'', [])] = Some (Err ()) \<and>
   has_cycle [(lit ''app'', [lit ''core'', lit ''core'']), (lit ''core'', [])] = Some False \<and>
   topological_sort [(lit ''app'', [lit ''ext'']), (lit ''loop'', [lit ''loop''])] = Some (Ok [lit ''ext'', lit ''app'']) \<and>
   has_cycle [(lit ''app'', [lit ''ext'']), (lit ''loop'', [lit ''loop''])] = Some True"
  by code_simp

end
