(* ===== verification/ModuleTrees.thy ===== *)
theory ModuleTrees
  imports LoadOrder
begin

section \<open>Module trees, namespaces and the resolver\<close>

text \<open>
  How paths resolve in the trees that the operations build, what merging namespaces keeps, in
  which order the resolver loads modules, and that reading a module source gives back the items
  it was written from.
\<close>

subsection \<open>Paths\<close>

inductive built :: "ModuleTree \<Rightarrow> bool" where
  built_new: "built (tree_new name)"
| built_insert: "built t \<Longrightarrow> built (tree_insert m t)"
| built_use: "built t \<Longrightarrow> built (insert_use imp t)"
| built_fn: "built t \<Longrightarrow> built (tree_register_fn name t)"

lemma built_index: "built t \<Longrightarrow> mt_index t m = Some p \<Longrightarrow> p = [m]"
  by (induction rule: built.induct)
    (auto simp: tree_new_def tree_insert_def insert_use_def tree_register_fn_def push_item_def split: if_splits)

text \<open>
  A path of several segments is resolved by its first segment alone, as a symbol of the root. In
  a tree that the operations built, no path through a module resolves to anything inside the module,
  and behind a function of the root any further segments are accepted.
\<close>

theorem path_resolved_by_head:
  assumes "built t" and "segments \<noteq> []"
  shows "resolve_path t (head # segments) =
    (case lookup_symbol t head of Some symbol \<Rightarrow> Resolved symbol | None \<Rightarrow> NotFound)"
  using assms built_index[OF assms(1), of head]
  by (cases segments) (auto simp: resolve_path_def split: option.split)

definition sample_tree :: ModuleTree where
  "sample_tree = tree_register_fn (lit ''run'')
     (tree_insert (ModDecl (lit ''utils'') VPub False [MFunction (lit ''max'')]) (tree_new (lit ''main'')))"

theorem path_resolved_by_head_witness:
  "resolve_path sample_tree [lit ''utils'', lit ''max''] = NotFound \<and>
   resolve_path sample_tree [lit ''run'', lit ''nothing''] = Resolved [lit ''main'', lit ''run'']"
proof -
  have "built sample_tree" unfolding sample_tree_def by (intro built.intros)
  moreover have "lookup_symbol sample_tree (lit ''utils'') = None"
    and "lookup_symbol sample_tree (lit ''run'') = Some [lit ''main'', lit ''run'']"
    by (simp_all add: lookup_symbol_def sample_tree_def tree_register_fn_def tree_insert_def tree_new_def
        push_item_def module_node_def lit_def)
  ultimately show ?thesis by (simp add: path_resolved_by_head)
qed

subsection \<open>Namespaces\<close>

lemma map_of_update: "map_of (AList.update k v al) = (map_of al)(k \<mapsto> v)"
  by (simp add: update_conv')

text \<open>
  Merging a namespace into another keeps every name that is already defined, adds the others,
  and reports exactly the names that both define at different locations.
\<close>

theorem merge_keeps_and_reports:
  assumes "distinct (map fst other)"
  shows "map_of (snd (ns_merge ns other)) = map_of other ++ map_of ns \<and>
    fst (ns_merge ns other) = map fst (filter (\<lambda>(name, location).
      case map_of ns name of Some existing \<Rightarrow> existing \<noteq> location | None \<Rightarrow> False) other)"
  using assms
proof (induction ns other rule: ns_merge.induct)
  case (2 ns name location other)
  have fresh: "name \<notin> fst ` set other" using "2.prems" by simp
  show ?case
  proof (cases "map_of ns name")
    case None
    have "filter (\<lambda>(n, l). case ((map_of ns)(name \<mapsto> location)) n of Some e \<Rightarrow> e \<noteq> l | None \<Rightarrow> False) other =
        filter (\<lambda>(n, l). case map_of ns n of Some e \<Rightarrow> e \<noteq> l | None \<Rightarrow> False) other"
      using fresh by (intro filter_cong) (auto simp: image_iff)
    moreover have "map_of other ++ (map_of ns)(name \<mapsto> location) = (map_of other)(name \<mapsto> location) ++ map_of ns"
      using None by (auto simp: fun_eq_iff map_add_def split: option.split)
    ultimately show ?thesis
      using "2.IH"(1)[OF None] "2.prems" None by (simp add: map_of_update del: fun_upd_apply)
  next
    case (Some existing)
    have "map_of other ++ map_of ns = (map_of other)(name \<mapsto> location) ++ map_of ns"
      using Some by (auto simp: fun_eq_iff map_add_def split: option.split)
    then show ?thesis using "2.IH"(2)[OF Some] "2.prems" Some by (simp add: Let_def split_beta del: fun_upd_apply)
  qed
qed simp

theorem merge_keeps_and_reports_witness:
  "case ns_merge [(lit ''f'', \<lparr>sl_module = lit ''a'', sl_item_type = lit ''fn'', sl_visibility = VPub\<rparr>)]
      [(lit ''f'', \<lparr>sl_module = lit ''b'', sl_item_type = lit ''fn'', sl_visibility = VPub\<rparr>),
       (lit ''g'', \<lparr>sl_module = lit ''b'', sl_item_type = lit ''fn'', sl_visibility = VPub\<rparr>)] of
     (conflicts, ns) \<Rightarrow> conflicts = [lit ''f''] \<and> map_option sl_module (map_of ns (lit ''f'')) = Some (lit ''a'')"
  using merge_keeps_and_reports[of "[(lit ''f'', \<lparr>sl_module = lit ''b'', sl_item_type = lit ''fn'', sl_visibility = VPub\<rparr>),
       (lit ''g'', \<lparr>sl_module = lit ''b'', sl_item_type = lit ''fn'', sl_visibility = VPub\<rparr>)]"
     "[(lit ''f'', \<lparr>sl_module = lit ''a'', sl_item_type = lit ''fn'', sl_visibility = VPub\<rparr>)]"]
  by (simp add: lit_def split: prod.split)

subsection \<open>The resolver\<close>

text \<open>The modules inside a module; loading one that is not loaded adds none.\<close>

definition subs_of :: "resolver \<Rightarrow> ustr \<Rightarrow> ustr list" where
  "subs_of rs m = (case map_of (rs_loaded rs) m of Some decl \<Rightarrow> sub_names decl | None \<Rightarrow> [])"

definition inside :: "resolver \<Rightarrow> (ustr \<times> ustr) set" where
  "inside rs = {(m, s). s \<in> set (subs_of rs m)}"

lemma resolve_module_subs:
  assumes "resolve_module m rs = (decl, rs')"
  shows "sub_names decl = subs_of rs m" "subs_of rs' = subs_of rs"
  using assms
  by (auto simp: resolve_module_def subs_of_def sub_names_def map_of_update fun_eq_iff Let_def
      List.map_filter_simps split: option.splits if_splits)

text \<open>
  What a walk adds to the order: names not visited before, each once, each with its submodules
  visited, and, unless a module is inside itself, behind its submodules.
\<close>

definition walked :: "resolver \<Rightarrow> walk \<Rightarrow> ustr set \<Rightarrow> walk option \<Rightarrow> bool" where
  "walked rs w targets res = (case (w, res) of
       (_, None) \<Rightarrow> True
     | ((_, order, visited), Some (rs', order', visited')) \<Rightarrow>
         subs_of rs' = subs_of rs \<and>
         (\<exists>new. order' = order @ new \<and> distinct new \<and> set new = visited' - visited \<and> visited \<subseteq> visited' \<and>
            targets \<subseteq> visited' \<and> set new \<subseteq> (inside rs)\<^sup>* `` targets \<and>
            (\<forall>x\<in>set new. set (subs_of rs x) \<subseteq> visited') \<and>
            (acyclic (inside rs) \<longrightarrow>
              (\<forall>i<length new. set (subs_of rs (new ! i)) \<subseteq> set order \<union> set (take i new)))))"

lemma walk_result:
  "subs_of (fst w) = subs_of rs \<Longrightarrow> set (fst (snd w)) \<subseteq> snd (snd w) \<Longrightarrow>
     (\<forall>s\<in>snd (snd w) - set (fst (snd w)). (s, name) \<in> (inside rs)\<^sup>+) \<Longrightarrow>
     walked rs w {name} (resolve_recursive n name w)"
  "subs_of (fst w) = subs_of rs \<Longrightarrow> set (fst (snd w)) \<subseteq> snd (snd w) \<Longrightarrow>
     (\<forall>x\<in>set ss. \<forall>s\<in>snd (snd w) - set (fst (snd w)). (s, x) \<in> (inside rs)\<^sup>+) \<Longrightarrow>
     walked rs w (set ss) (resolve_subs n ss w)"
proof (induction n name w and n ss w rule: resolve_recursive_resolve_subs.induct)
  case (1 name w)
  then show ?case by (simp add: walked_def split: prod.split)
next
  case (2 n name rs0 order visited)
  show ?case
  proof (cases "name \<in> visited")
    case True
    then show ?thesis using "2.prems" by (simp add: walked_def)
  next
    case False
    obtain decl rs1 where load: "resolve_module name rs0 = (decl, rs1)" by fastforce
    have subs: "sub_names decl = subs_of rs name" "subs_of rs1 = subs_of rs"
      using resolve_module_subs[OF load] "2.prems"(1) by simp_all
    have edge: "(name, x) \<in> inside rs" if "x \<in> set (subs_of rs name)" for x
      using that by (simp add: inside_def)
    have path: "\<forall>x\<in>set (subs_of rs name). \<forall>s\<in>insert name visited - set order. (s, x) \<in> (inside rs)\<^sup>+"
      using "2.prems"(3) edge by (auto intro: trancl_into_trancl)
    have ih: "walked rs (rs1, order, insert name visited) (set (subs_of rs name))
        (resolve_subs n (subs_of rs name) (rs1, order, insert name visited))"
      using "2.IH"[OF False load[symmetric] refl] "2.prems"(2) path subs by (auto simp: subs(1))
    show ?thesis
    proof (cases "resolve_subs n (subs_of rs name) (rs1, order, insert name visited)")
      case None
      with False load subs show ?thesis by (simp add: walked_def)
    next
      case (Some w2)
      obtain rs2 order2 v2 where w2: "w2 = (rs2, order2, v2)" by (metis prod.exhaust)
      from ih Some w2 obtain new where new: "subs_of rs2 = subs_of rs" "order2 = order @ new" "distinct new"
          "set new = v2 - insert name visited" "insert name visited \<subseteq> v2" "set (subs_of rs name) \<subseteq> v2"
          "set new \<subseteq> (inside rs)\<^sup>* `` set (subs_of rs name)" "\<forall>x\<in>set new. set (subs_of rs x) \<subseteq> v2"
          and ord: "acyclic (inside rs) \<Longrightarrow> \<forall>i<length new. set (subs_of rs (new ! i)) \<subseteq> set order \<union> set (take i new)"
        by (auto simp: walked_def)
      have "set (subs_of rs name) \<subseteq> set order \<union> set new" if "acyclic (inside rs)"
      proof
        fix d assume d: "d \<in> set (subs_of rs name)"
        have "d \<notin> insert name visited - set order"
          using "2.prems"(3) edge[OF d] that by (auto simp: acyclic_def intro: trancl_into_trancl)
        then show "d \<in> set order \<union> set new" using d new(4,6) by blast
      qed
      then have ord': "\<forall>i<length (new @ [name]). set (subs_of rs ((new @ [name]) ! i)) \<subseteq> set order \<union> set (take i (new @ [name]))"
        if "acyclic (inside rs)"
        using that ord[OF that] by (auto simp: nth_append less_Suc_eq)
      have reach: "set (new @ [name]) \<subseteq> (inside rs)\<^sup>* `` {name}"
        using new(7) edge by (auto intro: converse_rtrancl_into_rtrancl)
      show ?thesis
        using False load subs Some w2 new ord' reach
        by (auto simp: walked_def intro!: exI[of _ "new @ [name]"])
    qed
  qed
next
  case (3 n w)
  then show ?case by (auto simp: walked_def split: prod.split)
next
  case (4 n s ss w)
  obtain rs0 order visited where w: "w = (rs0, order, visited)" by (metis prod.exhaust)
  have first: "walked rs w {s} (resolve_recursive n s w)" using 4 by (simp add: w)
  show ?case
  proof (cases "resolve_recursive n s w")
    case None
    then show ?thesis by (simp add: walked_def w)
  next
    case (Some w1)
    obtain rs1 order1 v1 where w1: "w1 = (rs1, order1, v1)" by (metis prod.exhaust)
    from first Some w w1 obtain new1 where new1: "subs_of rs1 = subs_of rs" "order1 = order @ new1" "distinct new1"
        "set new1 = v1 - visited" "visited \<subseteq> v1" "s \<in> v1" "set new1 \<subseteq> (inside rs)\<^sup>* `` {s}"
        "\<forall>x\<in>set new1. set (subs_of rs x) \<subseteq> v1"
        and ord1: "acyclic (inside rs) \<Longrightarrow> \<forall>i<length new1. set (subs_of rs (new1 ! i)) \<subseteq> set order \<union> set (take i new1)"
      by (auto simp: walked_def)
    have "v1 - set order1 = visited - set order" using new1(2,4,5) "4.prems"(2) by (auto simp: w)
    then have rest: "walked rs w1 (set ss) (resolve_subs n ss w1)"
      using "4.IH"(2)[OF Some] "4.prems" new1 by (auto simp: w w1)
    show ?thesis
    proof (cases "resolve_subs n ss w1")
      case None
      with Some show ?thesis by (simp add: walked_def w)
    next
      case (Some w2)
      obtain rs2 order2 v2 where w2: "w2 = (rs2, order2, v2)" by (metis prod.exhaust)
      from rest Some w1 w2 obtain new2 where new2: "subs_of rs2 = subs_of rs" "order2 = order1 @ new2" "distinct new2"
          "set new2 = v2 - v1" "v1 \<subseteq> v2" "set ss \<subseteq> v2" "set new2 \<subseteq> (inside rs)\<^sup>* `` set ss"
          "\<forall>x\<in>set new2. set (subs_of rs x) \<subseteq> v2"
          and ord2: "acyclic (inside rs) \<Longrightarrow> \<forall>i<length new2. set (subs_of rs (new2 ! i)) \<subseteq> set order1 \<union> set (take i new2)"
        by (auto simp: walked_def)
      have ord: "\<forall>i<length (new1 @ new2). set (subs_of rs ((new1 @ new2) ! i)) \<subseteq> set order \<union> set (take i (new1 @ new2))"
        if "acyclic (inside rs)"
      proof (intro allI impI)
        fix i assume i: "i < length (new1 @ new2)"
        show "set (subs_of rs ((new1 @ new2) ! i)) \<subseteq> set order \<union> set (take i (new1 @ new2))"
        proof (cases "i < length new1")
          case True
          then show ?thesis using ord1[OF that] by (auto simp: nth_append)
        next
          case False
          with i have "i - length new1 < length new2" by simp
          with ord2[OF that] False show ?thesis by (simp add: nth_append new1(2) Un_assoc)
        qed
      qed
      have facts: "distinct (new1 @ new2)" "set (new1 @ new2) = v2 - visited" "visited \<subseteq> v2" "insert s (set ss) \<subseteq> v2"
          "set (new1 @ new2) \<subseteq> (inside rs)\<^sup>* `` insert s (set ss)"
        using new1 new2 by auto
      have closed: "\<forall>x\<in>set (new1 @ new2). set (subs_of rs x) \<subseteq> v2"
        using new1(8) new2(5,8) by (metis Un_iff set_append subset_trans)
      have "resolve_subs n (s # ss) w = Some (rs2, order @ new1 @ new2, v2)"
        using \<open>resolve_recursive n s w = Some w1\<close> Some new1(2) new2(2) by (simp add: w2)
      then show ?thesis
        using facts closed ord new2(1) by (simp add: walked_def w exI[of _ "new1 @ new2"])
    qed
  qed
qed

text \<open>The fuel: every nested walk visits a further name.\<close>

lemma walk_returns:
  assumes N: "finite N" "\<And>m. set (subs_of rs m) \<subseteq> N"
  shows "subs_of (fst w) = subs_of rs \<Longrightarrow> name \<in> N \<Longrightarrow> card (N - snd (snd w)) < n \<Longrightarrow>
      \<exists>rs' order' v'. resolve_recursive n name w = Some (rs', order', v') \<and> subs_of rs' = subs_of rs \<and> snd (snd w) \<subseteq> v'"
    and "subs_of (fst w) = subs_of rs \<Longrightarrow> set ss \<subseteq> N \<Longrightarrow> card (N - snd (snd w)) < n \<Longrightarrow>
      \<exists>rs' order' v'. resolve_subs n ss w = Some (rs', order', v') \<and> subs_of rs' = subs_of rs \<and> snd (snd w) \<subseteq> v'"
proof (induction n name w and n ss w rule: resolve_recursive_resolve_subs.induct)
  case (2 n name rs0 order visited)
  show ?case
  proof (cases "name \<in> visited")
    case False
    obtain decl rs1 where load: "resolve_module name rs0 = (decl, rs1)" by fastforce
    have subs: "sub_names decl = subs_of rs name" "subs_of rs1 = subs_of rs"
      using resolve_module_subs[OF load] "2.prems"(1) by simp_all
    have "card (N - insert name visited) < card (N - visited)"
      by (rule psubset_card_mono) (use "2.prems" False N in auto)
    then have "\<exists>rs' order' v'. resolve_subs n (sub_names decl) (rs1, order, insert name visited) = Some (rs', order', v') \<and>
        subs_of rs' = subs_of rs \<and> insert name visited \<subseteq> v'"
      using "2.IH"[OF False load[symmetric] refl] "2.prems" N(2) subs by simp
    with False load show ?thesis by auto
  qed (use "2.prems" in auto)
next
  case (4 n s ss w)
  then obtain rs' order' v' where r: "resolve_recursive n s w = Some (rs', order', v')" "subs_of rs' = subs_of rs"
      "snd (snd w) \<subseteq> v'"
    by auto
  have "card (N - v') \<le> card (N - snd (snd w))" using r(3) N(1) by (intro card_mono) auto
  with "4.IH"(2)[OF r(1)] "4.prems" r show ?case by fastforce
qed auto

text \<open>
  Resolving all modules under a module returns, and orders exactly the modules that are the
  module itself or inside it at some depth, each once; when no module is inside itself, each
  comes behind the modules inside it.
\<close>

theorem resolve_all_order:
  "\<exists>order rs'. resolve_all name rs = Some (order, rs') \<and> distinct order \<and>
    set order = (inside rs)\<^sup>* `` {name} \<and>
    (acyclic (inside rs) \<longrightarrow> (\<forall>i<length order. set (subs_of rs (order ! i)) \<subseteq> set (take i order)))"
proof -
  let ?N = "insert name (set (loaded_names rs))"
  let ?n = "length (loaded_names rs) + 3"
  have subs: "set (subs_of rs m) \<subseteq> ?N" for m
    by (cases "map_of (rs_loaded rs) m") (fastforce simp: subs_of_def loaded_names_def dest: map_of_SomeD)+
  have "card ?N < ?n" using card_length[of "loaded_names rs"] by (simp add: card_insert_if)
  then obtain rs' order v where r: "resolve_recursive ?n name (rs, [], {}) = Some (rs', order, v)"
    using walk_returns(1)[of ?N rs "(rs, [], {})" name ?n] subs by auto
  have "walked rs (rs, [], {}) {name} (resolve_recursive ?n name (rs, [], {}))"
    by (rule walk_result) simp_all
  then have o: "distinct order" "set order = v" "name \<in> v" "set order \<subseteq> (inside rs)\<^sup>* `` {name}"
      "\<forall>x\<in>set order. set (subs_of rs x) \<subseteq> v"
      "acyclic (inside rs) \<Longrightarrow> \<forall>i<length order. set (subs_of rs (order ! i)) \<subseteq> set (take i order)"
    by (auto simp: r walked_def)
  have "x \<in> v" if "(name, x) \<in> (inside rs)\<^sup>*" for x
    using that o(2,3,5) by (induction rule: rtrancl_induct) (auto simp: inside_def)
  then have "set order = (inside rs)\<^sup>* `` {name}" using o(2,4) by auto
  with o r show ?thesis by (simp add: resolve_all_def)
qed

definition nested_resolver :: resolver where
  "nested_resolver = (resolver_new (lit ''src''))\<lparr>rs_loaded :=
     [(lit ''app'', ModDecl (lit ''app'') VPrivate False
       [MModule (ModDecl (lit ''io'') VPub False []), MModule (ModDecl (lit ''core'') VPub False [])])]\<rparr>"

theorem resolve_all_order_witness:
  "map_option fst (resolve_all (lit ''app'') nested_resolver) = Some [lit ''io'', lit ''core'', lit ''app''] \<and>
    {lit ''io'', lit ''core'', lit ''app''} = (inside nested_resolver)\<^sup>* `` {lit ''app''}"
proof -
  have e: "map_option fst (resolve_all (lit ''app'') nested_resolver) = Some [lit ''io'', lit ''core'', lit ''app'']"
    by code_simp
  moreover obtain order rs' where "resolve_all (lit ''app'') nested_resolver = Some (order, rs')"
      "set order = (inside nested_resolver)\<^sup>* `` {lit ''app''}"
    using resolve_all_order[of "lit ''app''" nested_resolver] by blast
  ultimately show ?thesis by auto
qed

end
