(* ===== verification/ModuleSource.thy ===== *)
theory ModuleSource
  imports ModuleTrees
begin

section \<open>Reading module sources\<close>

text \<open>
  Writing the items of a module, one on each line, and reading the text gives the items back; a
  module declared with a brace behind its name is read with the blank as part of the name.
\<close>

definition name_char :: "uchar \<Rightarrow> bool" where
  "name_char c = (48 \<le> c \<and> c \<le> 57 \<or> 65 \<le> c \<and> c \<le> 90 \<or> 97 \<le> c \<and> c \<le> 122 \<or> c = 95)"

definition plain_name :: "ustr \<Rightarrow> bool" where
  "plain_name n = (n \<noteq> [] \<and> list_all name_char n)"

definition vis_text :: "Visibility \<Rightarrow> ustr" where
  "vis_text v = (case v of VPub \<Rightarrow> lit ''pub '' | VPrivate \<Rightarrow> [])"

definition item_line :: "ModItem \<Rightarrow> ustr" where
  "item_line item = (case item of
       MFunction n \<Rightarrow> lit ''fn '' @ n
     | MStruct n \<Rightarrow> lit ''struct '' @ n
     | MEnum n \<Rightarrow> lit ''enum '' @ n
     | MTrait n \<Rightarrow> lit ''trait '' @ n
     | MConst n \<Rightarrow> lit ''const '' @ n
     | MTypeAlias n \<Rightarrow> lit ''type '' @ n
     | MModule d \<Rightarrow> vis_text (md_visibility d) @ lit ''mod '' @ md_name d @ lit '';''
     | MUse imp \<Rightarrow> vis_text (im_visibility imp) @ lit ''use '' @ join_with (lit ''::'') (im_path imp) @ lit '';''
     | _ \<Rightarrow> [])"

text \<open>The items that a line can say.\<close>

definition plain_item :: "ModItem \<Rightarrow> bool" where
  "plain_item item = (case item of
       MFunction n \<Rightarrow> plain_name n | MStruct n \<Rightarrow> plain_name n | MEnum n \<Rightarrow> plain_name n
     | MTrait n \<Rightarrow> plain_name n | MConst n \<Rightarrow> plain_name n | MTypeAlias n \<Rightarrow> plain_name n
     | MModule d \<Rightarrow> plain_name (md_name d) \<and> \<not> md_inline d \<and> md_items d = []
     | MUse imp \<Rightarrow> im_path imp \<noteq> [] \<and> list_all plain_name (im_path imp) \<and> im_alias imp = None
     | _ \<Rightarrow> False)"

lemma name_char_props:
  "name_char c \<Longrightarrow> \<not> is_white_space c \<and> c \<noteq> 10 \<and> c \<noteq> 13 \<and> c \<noteq> 58 \<and> c \<noteq> 59 \<and> c \<noteq> 123 \<and>
    (is_alphanumeric U c \<or> c = 95)"
  by (auto simp: name_char_def is_white_space_def is_alphanumeric_def is_alphabetic_def is_ascii_digit_def)

lemma plain_nameD:
  assumes "plain_name n"
  shows "n \<noteq> []" "\<And>c. c \<in> set n \<Longrightarrow> name_char c" "c \<in> {10, 13, 58, 59, 123} \<Longrightarrow> c \<notin> set n"
  using assms name_char_props[of c] by (auto simp: plain_name_def list_all_iff)

lemma extract_plain: "plain_name n \<Longrightarrow> extract_name U n = n"
proof -
  assume n: "plain_name n"
  have "trim_ws n = n"
    using plain_nameD(1,2)[OF n] name_char_props hd_in_set last_in_set by (intro trim_ws_id) blast+
  then show ?thesis
    using plain_nameD(2)[OF n] name_char_props[of _ U] by (simp add: extract_name_def takeWhile_eq_all_conv)
qed

lemma trim_end_last: "trim_end_char c (s @ [c]) = trim_end_char c s"
  by (simp add: trim_end_char_def)

lemma trim_end_other: "c \<notin> set s \<Longrightarrow> trim_end_char c s = s"
proof -
  assume "c \<notin> set s"
  then have "dropWhile (\<lambda>x. x = c) (rev s) = rev s"
    by (auto simp: dropWhile_eq_self_iff hd_rev dest: last_in_set)
  then show ?thesis by (simp add: trim_end_char_def)
qed

lemma split_from_seg:
  "58 \<notin> set s \<Longrightarrow> split_from [58, 58] acc (s @ 58 # 58 # after) = (rev acc @ s) # split_from [58, 58] [] after"
  "58 \<notin> set s \<Longrightarrow> split_from [58, 58] acc s = [rev acc @ s]"
  by (induction s arbitrary: acc) (auto simp: starts_with_def)

lemma split_join:
  "ps \<noteq> [] \<Longrightarrow> list_all plain_name ps \<Longrightarrow> split_str (lit ''::'') (join_with (lit ''::'') ps) = ps"
proof (induction ps rule: induct_list012)
  case (3 p q ps)
  then have "58 \<notin> set p" using plain_nameD(3)[of p 58] by simp
  with 3 show ?case by (simp add: split_str_def lit_def split_from_seg)
qed (use plain_nameD(3)[of _ 58] in \<open>auto simp: split_str_def lit_def split_from_seg\<close>)

lemma join_plain:
  "list_all plain_name ps \<Longrightarrow> c \<in> set (join_with (lit ''::'') ps) \<Longrightarrow> name_char c \<or> c = 58"
  by (induction ps rule: induct_list012) (auto simp: lit_def dest: plain_nameD(2))

lemmas line_defs = line_item_def strip_either_def strip_prefix_def starts_with_def lit_def

lemma line_item_names:
  assumes "plain_name n"
  shows "line_item U (lit ''fn '' @ n) = Some (MFunction n)"
    "line_item U (lit ''struct '' @ n) = Some (MStruct n)"
    "line_item U (lit ''enum '' @ n) = Some (MEnum n)"
    "line_item U (lit ''trait '' @ n) = Some (MTrait n)"
    "line_item U (lit ''const '' @ n) = Some (MConst n)"
    "line_item U (lit ''type '' @ n) = Some (MTypeAlias n)"
  by (simp_all add: line_defs extract_plain[OF assms])

lemma line_item_mod:
  assumes "plain_name n"
  shows "line_item U (vis_text v @ lit ''mod '' @ n @ lit '';'') = Some (MModule (ModDecl n v False []))"
proof -
  have "trim_end_char 123 (trim_end_char 59 (n @ [59])) = n"
    using plain_nameD(3)[OF assms] by (simp add: trim_end_last trim_end_other)
  moreover have "123 \<notin> set n" using plain_nameD(3)[OF assms] by simp
  ultimately show ?thesis
    by (cases v) (simp_all add: line_defs vis_text_def mod_item_def)
qed

lemma line_item_use:
  assumes "ps \<noteq> []" "list_all plain_name ps"
  shows "line_item U (vis_text v @ lit ''use '' @ join_with (lit ''::'') ps @ lit '';'') =
    Some (MUse \<lparr>im_path = ps, im_alias = None, im_visibility = v\<rparr>)"
proof -
  have "59 \<notin> set (join_with (lit ''::'') ps)"
    using join_plain[OF assms(2), of 59] by (auto simp: name_char_def)
  then have "trim_end_char 59 (join_with (lit ''::'') ps @ [59]) = join_with (lit ''::'') ps"
    by (simp add: trim_end_last trim_end_other)
  moreover have "split_str [58, 58] (join_with [58, 58] ps) = ps"
    using split_join[OF assms] by (simp add: lit_def)
  ultimately show ?thesis
    by (cases v) (simp_all add: line_defs vis_text_def use_item_def)
qed

lemma line_item_plain: "plain_item item \<Longrightarrow> line_item U (item_line item) = Some item"
proof (cases item)
  case (MModule d)
  then show "plain_item item \<Longrightarrow> line_item U (item_line item) = Some item"
    using line_item_mod[of "md_name d" U "md_visibility d"]
    by (cases d) (simp add: plain_item_def item_line_def)
next
  case (MUse imp)
  then show "plain_item item \<Longrightarrow> line_item U (item_line item) = Some item"
    using line_item_use[of "im_path imp" U "im_visibility imp"]
    by (cases imp) (simp add: plain_item_def item_line_def)
qed (simp_all add: plain_item_def item_line_def line_item_names)

lemma item_line_chars:
  assumes "plain_item item"
  shows "\<forall>c\<in>set (item_line item). name_char c \<or> c \<in> {32, 58, 59}"
proof -
  have n: "\<forall>c\<in>set n. name_char c" if "plain_name n" for n using plain_nameD(2)[OF that] by blast
  show ?thesis
    using assms n join_plain
    by (cases item) (auto simp: plain_item_def item_line_def lit_def name_char_def vis_text_def split: Visibility.splits)
qed

lemma item_line_ends:
  assumes "plain_item item"
  shows "item_line item \<noteq> []" "\<not> is_white_space (hd (item_line item))" "\<not> is_white_space (last (item_line item))"
    "\<not> skipped_line (item_line item)"
proof -
  have n: "n \<noteq> []" "\<not> is_white_space (last n)" if "plain_name n" for n
    using plain_nameD(1,2)[OF that] name_char_props[of "last n"] by (simp_all add: last_in_set)
  show "item_line item \<noteq> []" "\<not> is_white_space (hd (item_line item))" "\<not> is_white_space (last (item_line item))"
    "\<not> skipped_line (item_line item)"
    using assms n
    by (cases item; auto simp: plain_item_def item_line_def lit_def vis_text_def skipped_line_def starts_with_def
        is_white_space_def split: Visibility.splits)+
qed

lemma read_items:
  assumes "list_all plain_item items"
  shows "List.map_filter (\<lambda>line. let l = trim_ws line in if skipped_line l then None else line_item U l)
      (text_lines (concat (map (\<lambda>item. item_line item @ [10]) items))) = items"
  using assms
proof (induction items)
  case (Cons item items)
  have chars: "10 \<notin> set (item_line item)" "13 \<notin> set (item_line item)"
    using Cons.prems item_line_chars[of item] by (auto simp: name_char_def)
  have "trim_ws (item_line item) = item_line item"
    using item_line_ends[of item] Cons.prems by (intro trim_ws_id) simp_all
  then show ?case
    using Cons chars item_line_ends(4)[of item] line_item_plain[of item U]
    by (simp add: text_lines_line strip_cr_id List.map_filter_simps)
qed (simp add: List.map_filter_simps)

text \<open>
  Reading a module source gives back the items it was written from: functions, types, traits,
  constants and aliases, modules and imports of either visibility, one on each line and in their
  order, with names of letters, digits and underscores.
\<close>

theorem module_source_roundtrip:
  assumes "list_all plain_item items"
  shows "parse_module_from_source U (concat (map (\<lambda>item. item_line item @ [10]) items)) name =
    ModDecl name VPrivate False items"
  using read_items[OF assms] by (simp add: parse_module_from_source_def)

definition ascii_tables :: unicode where
  "ascii_tables = \<lparr>wide_alphabetic = (\<lambda>_. False), wide_numeric = (\<lambda>_. False)\<rparr>"

theorem module_source_roundtrip_witness:
  "parse_module_from_source ascii_tables (lit ''pub mod io;'' @ [10] @ lit ''use io::read;'' @ [10] @ lit ''fn main'' @ [10]) (lit ''app'') =
    ModDecl (lit ''app'') VPrivate False [MModule (ModDecl (lit ''io'') VPub False []),
      MUse \<lparr>im_path = [lit ''io'', lit ''read''], im_alias = None, im_visibility = VPrivate\<rparr>, MFunction (lit ''main'')]"
  using module_source_roundtrip[of "[MModule (ModDecl (lit ''io'') VPub False []),
      MUse \<lparr>im_path = [lit ''io'', lit ''read''], im_alias = None, im_visibility = VPrivate\<rparr>, MFunction (lit ''main'')]" ascii_tables]
  by (simp add: plain_item_def plain_name_def name_char_def item_line_def vis_text_def lit_def)

lemma inline_module_name:
  assumes "plain_name n"
  shows "line_item U (lit ''mod '' @ n @ lit '' {'') = Some (MModule (ModDecl (n @ lit '' '') VPrivate True []))"
proof -
  have "trim_end_char 59 (n @ [32, 123]) = n @ [32, 123]" "trim_end_char 123 (n @ [32, 123]) = n @ [32]"
    by (simp_all add: trim_end_char_def)
  then show ?thesis by (simp add: line_defs mod_item_def)
qed

end
