(* ===== verification/TaskSpecs.thy ===== *)
theory TaskSpecs
  imports Engine
begin

section \<open>Task specifications (compiler/src/task\_spec.rs)\<close>

text \<open>
  What the compiler hands to the control plane: one specification for each function at the top of a
  program, with the levels of its annotations and a key against repeated delivery. The hasher of the
  standard library is the parameter \<open>hash\<close>, a function of the values that are fed to it: strings,
  and the position of a constructor in its enumeration.
\<close>

record TaskSpec =
  ts_fn_id :: ustr
  ts_effect :: Effect
  ts_capability :: Capability
  ts_parent_task :: "ustr option"
  ts_idempotency_key :: ustr
  ts_is_spawn :: bool
  ts_llm_prompt :: "ustr option"
  ts_governance_level :: "GovernanceLevel option"

datatype hash_item = HashStr ustr | HashDiscr nat

type_synonym hasher = "hash_item list \<Rightarrow> nat"

fun effect_discr :: "Effect \<Rightarrow> nat" where
  "effect_discr Pure = 0" | "effect_discr Io = 1" | "effect_discr Async = 2" | "effect_discr Spawn = 3"

fun capability_discr :: "Capability \<Rightarrow> nat" where
  "capability_discr Cpu = 0" | "capability_discr Gpu = 1" | "capability_discr Sfa = 2" | "capability_discr Net = 3"

fun governance_discr :: "GovernanceLevel \<Rightarrow> nat" where
  "governance_discr Prepare = 0" | "governance_discr Suggest = 1"
| "governance_discr Approve = 2" | "governance_discr Execute = 3"

definition hash_items ::
  "ustr \<Rightarrow> Effect \<Rightarrow> Capability \<Rightarrow> ustr option \<Rightarrow> GovernanceLevel option \<Rightarrow> hash_item list" where
  "hash_items name eff cap prompt gov =
     [HashStr name, HashDiscr (effect_discr eff), HashDiscr (capability_discr cap)] @
     (case prompt of Some p \<Rightarrow> [HashStr p] | None \<Rightarrow> []) @
     (case gov of Some g \<Rightarrow> [HashDiscr (governance_discr g)] | None \<Rightarrow> [])"

definition for_fn ::
  "hasher \<Rightarrow> ustr \<Rightarrow> Effect \<Rightarrow> Capability \<Rightarrow> bool \<Rightarrow> ustr option \<Rightarrow> GovernanceLevel option \<Rightarrow> TaskSpec" where
  "for_fn hash name eff cap is_spawn prompt gov =
     \<lparr>ts_fn_id = name, ts_effect = eff, ts_capability = cap, ts_parent_task = None,
      ts_idempotency_key = show_hex (hash (hash_items name eff cap prompt gov)),
      ts_is_spawn = is_spawn, ts_llm_prompt = prompt, ts_governance_level = gov\<rparr>"

definition spawn_child :: "hasher \<Rightarrow> TaskSpec \<Rightarrow> ustr \<Rightarrow> Effect \<Rightarrow> Capability \<Rightarrow> TaskSpec" where
  "spawn_child hash parent child_name eff cap =
     (for_fn hash child_name eff cap True None (ts_governance_level parent))
       \<lparr>ts_parent_task := Some (ts_idempotency_key parent)\<rparr>"

definition fn_spec :: "hasher \<Rightarrow> 'f Stmt \<Rightarrow> TaskSpec option" where
  "fn_spec hash st =
     (case st of
        SFn name _ _ an _ async _ \<Rightarrow>
          Some (for_fn hash name
            (case an_effect an of Some e \<Rightarrow> parse_effect e | None \<Rightarrow> if async then Async else Pure)
            (case an_capability an of Some c \<Rightarrow> parse_capability c | None \<Rightarrow> Cpu)
            False (an_llm_prompt an) (map_option parse_governance (an_governance an)))
      | _ \<Rightarrow> None)"

definition from_program :: "hasher \<Rightarrow> 'f Program \<Rightarrow> TaskSpec list" where
  "from_program hash prog = List.map_filter (fn_spec hash) (statements prog)"

subsection \<open>Specifications, types and the engine\<close>

lemma opt_map_map_option: "opt_map f x = map_option f x"
  by (cases x) simp_all

lemma check_expr_results [simp]: "results (check_expr fn d st e) = results st"
  by (auto simp: check_expr_def Let_def split: option.split)

lemma foldl_results:
  "(\<And>st x. x \<in> set xs \<Longrightarrow> results (f st x) = results st) \<Longrightarrow> results (foldl f st xs) = results st"
  by (induction xs arbitrary: st) auto

lemma walk_expr_results [simp]: "results (walk_expr_check fn d st e) = results st"
  by (induction fn d st e rule: walk_expr_check.induct) (auto simp: foldl_results)

lemma walk_stmt_results [simp]: "results (walk_stmt_for_check fn d st s) = results st"
  by (induction fn d st s rule: walk_stmt_for_check.induct) (auto simp: foldl_results split: option.split)

lemma walk_body_results [simp]: "results (walk_body_and_check fn d st body) = results st"
  by (simp add: walk_body_and_check_def foldl_results)

definition typed_levels :: "ustr \<times> SevenChannelType \<Rightarrow> ustr \<times> Effect option \<times> Capability option \<times> GovernanceLevel option" where
  "typed_levels r = (fst r, ct_effect (snd r), ct_capability (snd r), ct_governance (snd r))"

definition spec_levels :: "TaskSpec \<Rightarrow> ustr \<times> Effect option \<times> Capability option \<times> GovernanceLevel option" where
  "spec_levels sp = (ts_fn_id sp, Some (ts_effect sp), Some (ts_capability sp), ts_governance_level sp)"

lemma seven_stmts_levels:
  "seven_stmts chk V st ts = Some st' \<Longrightarrow> map typed_levels (results st') =
     map typed_levels (results st) @ map spec_levels (List.map_filter (fn_spec hash) ts)"
proof (induction ts arbitrary: st)
  case (Cons t ts)
  then obtain st1 where t: "seven_stmt chk V st t = Some st1" and r: "seven_stmts chk V st1 ts = Some st'"
    by (auto split: option.splits)
  have "map typed_levels (results st1) =
      map typed_levels (results st) @ map spec_levels (List.map_filter (fn_spec hash) [t])"
    using t by (cases t) (auto simp: seven_stmt_def fn_spec_def for_fn_def Let_def fn_result_def fn_declared_def
      typed_levels_def spec_levels_def List.map_filter_simps opt_map_map_option split: option.splits)
  then show ?case using Cons.IH[OF r] by (auto simp: List.map_filter_def)
qed (simp add: List.map_filter_simps)

text \<open>
  The task specifications agree with the types: name for name and in the order of the program,
  effect, capability and governance of a specification are those that the seven-channel inferencer
  recorded for the function.
\<close>

lemma specs_follow_types:
  assumes "seven_infer_program chk prog (seven_new n) = Some st"
  shows "map typed_levels (results st) = map spec_levels (from_program hash prog)"
  using seven_stmts_levels[of chk _ _ "statements prog" st hash] assms
  by (simp add: seven_infer_program_def Let_def from_program_def seven_new_def)

text \<open>
  What the engine loads for a name is the last function of that name. It takes a function for pure
  whose effect is not annotated, also where \<open>async\<close> makes its specification asynchronous.
\<close>

fun bare_async :: "'f Stmt \<Rightarrow> bool" where
  "bare_async (SFn _ _ _ an _ async _) = (async \<and> an_effect an = None)"
| "bare_async _ = False"

definition names_fn :: "ustr \<Rightarrow> 'f Stmt \<Rightarrow> bool" where
  "names_fn name st = (case st of SFn n _ _ _ _ _ _ \<Rightarrow> n = name | _ \<Rightarrow> False)"

definition last_bare_async :: "'f Stmt list \<Rightarrow> ustr \<Rightarrow> bool" where
  "last_bare_async ts name = (case find (names_fn name) (rev ts) of Some st \<Rightarrow> bare_async st | None \<Rightarrow> False)"

definition engine_agrees :: "(ustr \<Rightarrow> bool) \<Rightarrow> (ustr \<rightharpoonup> TaskSpec) \<Rightarrow> (ustr \<rightharpoonup> 'f FnDef) \<Rightarrow> bool" where
  "engine_agrees bare specs fns = (\<forall>name. rel_option (\<lambda>sp fd. ts_fn_id sp = fd_name fd \<and>
     ts_capability sp = fd_capability fd \<and> ts_governance_level sp = fd_governance fd \<and>
     (if bare name then ts_effect sp = Async \<and> fd_effect fd = Pure else ts_effect sp = fd_effect fd))
     (specs name) (fns name))"

definition last_specs :: "TaskSpec list \<Rightarrow> (ustr \<rightharpoonup> TaskSpec)" where
  "last_specs sps = fold (\<lambda>sp m. m(ts_fn_id sp \<mapsto> sp)) sps Map.empty"

lemma last_specs_snoc: "last_specs (sps @ [sp]) = (last_specs sps)(ts_fn_id sp \<mapsto> sp)"
  by (simp add: last_specs_def)

lemma last_bare_async_snoc:
  "last_bare_async (ts @ [t]) name = (if names_fn name t then bare_async t else last_bare_async ts name)"
  by (simp add: last_bare_async_def)

lemma load_stmts_snoc:
  "load_stmts chk (ts @ [t]) s = Option.bind (load_stmts chk ts s) (load_stmt chk t)"
  by (induction ts arbitrary: s) (auto split: option.split)

lemma map_filter_snoc:
  "List.map_filter f (xs @ [x]) = List.map_filter f xs @ (case f x of Some y \<Rightarrow> [y] | None \<Rightarrow> [])"
  by (induction xs) (auto simp: List.map_filter_simps split: option.split)

lemma load_stmts_agree:
  "load_stmts chk ts (engine_new g) = Some s \<Longrightarrow>
   engine_agrees (last_bare_async ts) (last_specs (List.map_filter (fn_spec hash) ts)) (en_functions s)"
proof (induction ts arbitrary: s rule: rev_induct)
  case Nil
  then show ?case by (auto simp: engine_agrees_def last_specs_def engine_new_def List.map_filter_simps)
next
  case (snoc t ts)
  then obtain s1 where r: "load_stmts chk ts (engine_new g) = Some s1" and t: "load_stmt chk t s1 = Some s"
    by (auto simp: load_stmts_snoc split: Option.bind_splits)
  note IH = snoc.IH[OF r]
  show ?case
  proof (cases "fn_spec hash t")
    case None
    then have "\<not> names_fn name t" "en_functions s = en_functions s1" for name
      using t by (cases t; simp add: names_fn_def load_stmt_def fn_spec_def)+
    with IH None show ?thesis by (simp add: map_filter_snoc engine_agrees_def last_bare_async_snoc)
  next
    case (Some sp)
    then obtain name ps rt an body async pub where fn: "t = SFn name ps rt an body async pub"
      by (cases t) (simp_all add: fn_spec_def)
    then obtain tc where s: "s = register_fn (fn_def_of name ps an body tc) s1"
      using t by (auto simp: load_stmt_def split: option.splits)
    let ?fd = "fn_def_of name ps an body tc"
    have fd: "en_functions s = (en_functions s1)(name \<mapsto> ?fd)" "fd_name ?fd = name"
        "fd_capability ?fd = ts_capability sp" "fd_governance ?fd = ts_governance_level sp" "ts_fn_id sp = name"
        "if bare_async t then ts_effect sp = Async \<and> fd_effect ?fd = Pure else ts_effect sp = fd_effect ?fd"
      using s Some by (auto simp: fn fn_spec_def for_fn_def register_fn_def fn_def_of_def split: option.split)
    have "names_fn n t \<longleftrightarrow> n = name" for n using fn by (auto simp: names_fn_def)
    with IH Some fd show ?thesis
      by (simp add: map_filter_snoc last_specs_snoc engine_agrees_def last_bare_async_snoc)
  qed
qed

text \<open>
  C17: The engine runs what the task specifications promise. After loading a program, the function of
  a name has the capability and the governance level of the last specification of that name, and its
  effect, with one exception, which is exact: where the last function of the name is async and has no
  effect annotation, the specification is asynchronous and the engine's function pure.
\<close>

theorem engine_keeps_specs:
  assumes "load_program chk prog (engine_new g) = Some s"
  shows "engine_agrees (last_bare_async (statements prog)) (last_specs (from_program hash prog)) (en_functions s)"
  using load_stmts_agree[of chk "statements prog" g s] assms by (simp add: load_program_def from_program_def)

theorem engine_keeps_specs_witness:
  "\<exists>s sp fd. load_program True (program_new\<lparr>statements :=
      [SFn (lit ''poll'') [] None (no_annot\<lparr>an_effect := Some (lit ''io'')\<rparr>) [] True False :: int Stmt]\<rparr>) (engine_new Execute) = Some s \<and>
    last_specs (from_program (\<lambda>_. 0) (program_new\<lparr>statements :=
      [SFn (lit ''poll'') [] None (no_annot\<lparr>an_effect := Some (lit ''io'')\<rparr>) [] True False :: int Stmt]\<rparr>)) (lit ''poll'') = Some sp \<and>
    en_functions s (lit ''poll'') = Some fd \<and> fd_effect fd = ts_effect sp"
proof -
  let ?t = "SFn (lit ''poll'') [] None (no_annot\<lparr>an_effect := Some (lit ''io'')\<rparr>) [] True False :: int Stmt"
  let ?prog = "program_new\<lparr>statements := [?t]\<rparr>"
  obtain s fd where s: "load_program True ?prog (engine_new Execute) = Some s" "en_functions s (lit ''poll'') = Some fd"
    by (simp add: load_program_def program_new_def load_stmt_def fn_time_def fn_timeout_def no_annot_def
        register_fn_def fn_def_of_def)
  have "engine_agrees (last_bare_async [?t]) (last_specs (from_program (\<lambda>_. 0) ?prog)) (en_functions s)"
    using engine_keeps_specs[OF s(1)] by simp
  then have "rel_option (\<lambda>sp fd. ts_effect sp = fd_effect fd)
      (last_specs (from_program (\<lambda>_. 0) ?prog) (lit ''poll'')) (en_functions s (lit ''poll''))"
    unfolding engine_agrees_def by (rule option.rel_mono_strong[OF spec[of _ "lit ''poll''"]])
      (simp add: last_bare_async_def names_fn_def no_annot_def)
  then obtain sp where "last_specs (from_program (\<lambda>_. 0) ?prog) (lit ''poll'') = Some sp" "ts_effect sp = fd_effect fd"
    using s(2) by (auto simp: option_rel_Some2)
  with s show ?thesis by fastforce
qed

end
