(* ===== verification/Latency.thy ===== *)
theory Latency
  imports Seven
begin

section \<open>The verifier of latencies (compiler/src/latency.rs)\<close>

text \<open>
  Sums of the latencies a body declares to wait for, in milliseconds as \<open>u64\<close>: \<open>None\<close> is the panic
  of an overflow where overflow is checked, else sums wrap around. A violation is kept as the
  function, the declared limit, the sum and the excess.
\<close>

definition u64_add :: "bool \<Rightarrow> nat \<Rightarrow> nat \<Rightarrow> nat option" where
  "u64_add chk a b = (if a + b < 2 ^ 64 then Some (a + b) else if chk then None else Some ((a + b) mod 2 ^ 64))"

definition plus_latency :: "bool \<Rightarrow> nat option \<Rightarrow> nat option \<Rightarrow> nat option" where
  "plus_latency chk x y = Option.bind x (\<lambda>a. Option.bind y (u64_add chk a))"

definition max_latency :: "nat option \<Rightarrow> nat option \<Rightarrow> nat option" where
  "max_latency x y = Option.bind x (\<lambda>a. map_option (max a) y)"

fun expr_latency :: "bool \<Rightarrow> (ustr \<rightharpoonup> nat) \<Rightarrow> 'f Expr \<Rightarrow> nat option"
and exprs_latency :: "bool \<Rightarrow> (ustr \<rightharpoonup> nat) \<Rightarrow> nat option \<Rightarrow> 'f Expr list \<Rightarrow> nat option" where
  "expr_latency chk D (IntLiteral _) = Some 0"
| "expr_latency chk D (FloatLiteral _) = Some 0"
| "expr_latency chk D (StringLiteral _) = Some 0"
| "expr_latency chk D (BoolLiteral _) = Some 0"
| "expr_latency chk D (CharLiteral _) = Some 0"
| "expr_latency chk D (Ident _) = Some 0"
| "expr_latency chk D (Array _) = Some 0"
| "expr_latency chk D (Range _ _ _) = Some 0"
| "expr_latency chk D (OptionValue _ _) = Some 0"
| "expr_latency chk D (ResultValue _ _ _) = Some 0"
| "expr_latency chk D (BinaryOp l _ r) =
     plus_latency chk (plus_latency chk (expr_latency chk D l) (Some 1)) (expr_latency chk D r)"
| "expr_latency chk D (UnaryOp _ e) = plus_latency chk (Some 1) (expr_latency chk D e)"
| "expr_latency chk D (IfExpr c t e) =
     plus_latency chk (expr_latency chk D c) (max_latency (expr_latency chk D t) (expr_latency chk D e))"
| "expr_latency chk D (Call f args) =
     plus_latency chk (exprs_latency chk D (Some 0) args)
       (Some (case f of Ident name \<Rightarrow> (case D name of Some l \<Rightarrow> l | None \<Rightarrow> 10) | _ \<Rightarrow> 10))"
| "expr_latency chk D (MemberAccess _ _) = Some 1"
| "expr_latency chk D (Index _ _) = Some 1"
| "expr_latency chk D (Pipe _ _) = Some 1"
| "expr_latency chk D (MatchExpr _ _) = Some 1"
| "exprs_latency chk D acc [] = acc"
| "exprs_latency chk D acc (e # es) =
     exprs_latency chk D (plus_latency chk acc (expr_latency chk D e)) es"

fun stmt_latency :: "bool \<Rightarrow> (ustr \<rightharpoonup> nat) \<Rightarrow> 'f Stmt \<Rightarrow> nat option"
and stmts_latency :: "bool \<Rightarrow> (ustr \<rightharpoonup> nat) \<Rightarrow> nat option \<Rightarrow> 'f Stmt list \<Rightarrow> nat option" where
  "stmt_latency chk D (SExpr e) = expr_latency chk D e"
| "stmt_latency chk D (SReturn (Some e)) = expr_latency chk D e"
| "stmt_latency chk D (SIf c ts es) =
     plus_latency chk (expr_latency chk D c)
       (max_latency (stmts_latency chk D (Some 0) ts) (stmts_latency chk D (Some 0) es))"
| "stmt_latency chk D (SWhile c body) =
     plus_latency chk (expr_latency chk D c) (stmts_latency chk D (Some 0) body)"
| "stmt_latency chk D (SFor _ e body) =
     plus_latency chk (expr_latency chk D e) (stmts_latency chk D (Some 0) body)"
| "stmt_latency chk D (SLet _ (Some e) _ _) = expr_latency chk D e"
| "stmt_latency chk D (SConst _ (Some e) _) = expr_latency chk D e"
| "stmt_latency chk D _ = Some 1"
| "stmts_latency chk D acc [] = acc"
| "stmts_latency chk D acc (t # ts) =
     stmts_latency chk D (plus_latency chk acc (stmt_latency chk D t)) ts"

text \<open>A function's own cost is 5 milliseconds.\<close>

definition analyze_call_chain :: "bool \<Rightarrow> 'f Stmt list \<Rightarrow> (ustr \<rightharpoonup> nat) \<Rightarrow> nat option" where
  "analyze_call_chain chk body D = stmts_latency chk D (Some 5) body"

definition latency_limit :: "'f Stmt \<Rightarrow> (ustr \<times> nat \<times> 'f Stmt list) option" where
  "latency_limit st =
     (case st of
        SFn name _ _ an body _ _ \<Rightarrow>
          (case an_latency an of
             Some l \<Rightarrow> map_option (\<lambda>ms. (name, ms, body)) (parse_u64 (trim_end_matches (lit ''ms'') l))
           | None \<Rightarrow> None)
      | _ \<Rightarrow> None)"

definition declared_latencies :: "'f Stmt list \<Rightarrow> (ustr \<rightharpoonup> nat)" where
  "declared_latencies ts = fold (\<lambda>st D. case latency_limit st of
       Some (name, ms, _) \<Rightarrow> D(name \<mapsto> ms) | None \<Rightarrow> D) ts Map.empty"

record latency_result =
  lr_errors :: "(ustr \<times> nat \<times> nat \<times> nat) list"
  lr_latencies :: "ustr \<rightharpoonup> nat"

definition latency_error :: "bool \<Rightarrow> (ustr \<rightharpoonup> nat) \<Rightarrow> 'f Stmt \<Rightarrow> (ustr \<times> nat \<times> nat \<times> nat) list option" where
  "latency_error chk D st =
     (case latency_limit st of
        None \<Rightarrow> Some []
      | Some (name, limit, body) \<Rightarrow>
          map_option (\<lambda>chain. if chain > limit then [(name, limit, chain, chain - limit)] else [])
            (analyze_call_chain chk body D))"

fun latency_errors :: "bool \<Rightarrow> (ustr \<rightharpoonup> nat) \<Rightarrow> 'f Stmt list \<Rightarrow> (ustr \<times> nat \<times> nat \<times> nat) list option" where
  "latency_errors chk D [] = Some []"
| "latency_errors chk D (t # ts) =
     (case latency_error chk D t of
        None \<Rightarrow> None
      | Some es \<Rightarrow> map_option ((@) es) (latency_errors chk D ts))"

definition verify_latency :: "bool \<Rightarrow> 'f Program \<Rightarrow> latency_result option" where
  "verify_latency chk prog =
     (let D = declared_latencies (statements prog) in
      map_option (\<lambda>es. \<lparr>lr_errors = es, lr_latencies = D\<rparr>) (latency_errors chk D (statements prog)))"

end
