(* ===== verification/LatencyCorrect.thy ===== *)
theory LatencyCorrect
  imports Latency
begin

section \<open>The sums of the verifier of latencies\<close>

text \<open>
  What a body may do, as a relation: the events of a way through it, which are calls and single
  operations. A way takes one branch of every conditional, as many rounds of a loop as it likes and
  one arm of a match, and a return ends it. Against these ways stands the one sum that the verifier
  makes of the body.
\<close>

subsection \<open>Ways through a body\<close>

datatype way_event = Calls ustr | CallsValue | Works

fun atom :: "'f Expr \<Rightarrow> bool" where
  "atom (IntLiteral _) = True"
| "atom (FloatLiteral _) = True"
| "atom (StringLiteral _) = True"
| "atom (BoolLiteral _) = True"
| "atom (CharLiteral _) = True"
| "atom (Ident _) = True"
| "atom _ = False"

fun declares :: "'f Stmt \<Rightarrow> bool" where
  "declares (SFn _ _ _ _ _ _ _) = True"
| "declares (SStructDef _ _ _) = True"
| "declares (SEnumDef _ _) = True"
| "declares (STraitDef _ _) = True"
| "declares (SImplBlock _ _ _) = True"
| "declares (SSpawn _) = True"
| "declares (SChannel _ _ _ _) = True"
| "declares (SLlm _ _ _ _) = True"
| "declares (SUse _) = True"
| "declares (SExport _) = True"
| "declares (STypeAlias _ _) = True"
| "declares _ = False"

text \<open>
  \<open>arms_way\<close> passes over arms whose pattern does not match, with the guards of those whose pattern
  does, and \<open>stmts_way\<close> tells whether the way has returned. Of the ways that return out of an arm of
  a match expression nothing is said.
\<close>

inductive expr_way :: "'f Expr \<Rightarrow> way_event list \<Rightarrow> bool"
  and exprs_way :: "'f Expr list \<Rightarrow> way_event list \<Rightarrow> bool"
  and opt_way :: "'f Expr option \<Rightarrow> way_event list \<Rightarrow> bool"
  and arms_way :: "'f MatchArm list \<Rightarrow> way_event list \<Rightarrow> bool \<Rightarrow> bool"
  and rounds_way :: "'f Stmt list \<Rightarrow> way_event list \<Rightarrow> bool \<Rightarrow> bool"
  and stmt_way :: "'f Stmt \<Rightarrow> way_event list \<Rightarrow> bool \<Rightarrow> bool"
  and stmts_way :: "'f Stmt list \<Rightarrow> way_event list \<Rightarrow> bool \<Rightarrow> bool" where
  way_atom: "atom e \<Longrightarrow> expr_way e []"
| way_binary: "expr_way l v \<Longrightarrow> expr_way r w \<Longrightarrow> expr_way (BinaryOp l op r) (v @ w @ [Works])"
| way_unary: "expr_way e v \<Longrightarrow> expr_way (UnaryOp op e) (v @ [Works])"
| way_then: "expr_way c v \<Longrightarrow> expr_way t w \<Longrightarrow> expr_way (IfExpr c t e) (v @ w)"
| way_else: "expr_way c v \<Longrightarrow> expr_way e w \<Longrightarrow> expr_way (IfExpr c t e) (v @ w)"
| way_call: "exprs_way args v \<Longrightarrow> expr_way (Call (Ident name) args) (v @ [Calls name])"
| way_call_value: "(\<And>n. f \<noteq> Ident n) \<Longrightarrow> expr_way f u \<Longrightarrow> exprs_way args v \<Longrightarrow>
    expr_way (Call f args) (u @ v @ [CallsValue])"
| way_member: "expr_way e v \<Longrightarrow> expr_way (MemberAccess e m) (v @ [Works])"
| way_index: "expr_way e v \<Longrightarrow> expr_way i w \<Longrightarrow> expr_way (Index e i) (v @ w @ [Works])"
| way_pipe: "expr_way e v \<Longrightarrow> expr_way (Pipe e ops) (v @ [Works] @ map (\<lambda>(name, _). Calls name) ops)"
| way_range: "expr_way a v \<Longrightarrow> expr_way b w \<Longrightarrow> expr_way (Range a b incl) (v @ w)"
| way_array: "exprs_way es v \<Longrightarrow> expr_way (Array es) v"
| way_option: "opt_way (if b then x else None) v \<Longrightarrow> expr_way (OptionValue b x) v"
| way_result: "opt_way (if b then x else y) v \<Longrightarrow> expr_way (ResultValue b x y) v"
| way_match_expr: "expr_way e v \<Longrightarrow> arms_way arms w False \<Longrightarrow> expr_way (MatchExpr e arms) (v @ [Works] @ w)"
| way_no_exprs: "exprs_way [] []"
| way_exprs: "expr_way e v \<Longrightarrow> exprs_way es w \<Longrightarrow> exprs_way (e # es) (v @ w)"
| way_none: "opt_way None []"
| way_some: "expr_way e v \<Longrightarrow> opt_way (Some e) v"
| way_no_arm: "arms_way [] [] False"
| way_arm: "opt_way (arm_guard arm) u \<Longrightarrow> stmts_way (arm_body arm) v b \<Longrightarrow> arms_way (arm # arms) (u @ v) b"
| way_arm_fails: "arms_way arms v b \<Longrightarrow> arms_way (arm # arms) v b"
| way_guard_fails: "arm_guard arm = Some g \<Longrightarrow> expr_way g u \<Longrightarrow> arms_way arms v b \<Longrightarrow> arms_way (arm # arms) (u @ v) b"
| way_expr: "expr_way e v \<Longrightarrow> stmt_way (SExpr e) v False"
| way_return: "expr_way e v \<Longrightarrow> stmt_way (SReturn (Some e)) v True"
| way_bare_return: "stmt_way (SReturn None) [Works] True"
| way_let: "expr_way e v \<Longrightarrow> stmt_way (SLet x (Some e) t m) v False"
| way_bare_let: "stmt_way (SLet x None t m) [Works] False"
| way_const: "expr_way e v \<Longrightarrow> stmt_way (SConst x (Some e) t) v False"
| way_bare_const: "stmt_way (SConst x None t) [Works] False"
| way_if: "expr_way c v \<Longrightarrow> stmts_way ts w b \<Longrightarrow> stmt_way (SIf c ts es) (v @ w) b"
| way_if_not: "expr_way c v \<Longrightarrow> stmts_way es w b \<Longrightarrow> stmt_way (SIf c ts es) (v @ w) b"
| way_while_ends: "expr_way c v \<Longrightarrow> stmt_way (SWhile c body) v False"
| way_while: "expr_way c u \<Longrightarrow> stmts_way body v False \<Longrightarrow> stmt_way (SWhile c body) w b \<Longrightarrow>
    stmt_way (SWhile c body) (u @ v @ w) b"
| way_while_returns: "expr_way c u \<Longrightarrow> stmts_way body v True \<Longrightarrow> stmt_way (SWhile c body) (u @ v) True"
| way_for: "expr_way e u \<Longrightarrow> rounds_way body v b \<Longrightarrow> stmt_way (SFor x e body) (u @ v) b"
| way_no_round: "rounds_way body [] False"
| way_round: "stmts_way body v False \<Longrightarrow> rounds_way body w b \<Longrightarrow> rounds_way body (v @ w) b"
| way_last_round: "stmts_way body v True \<Longrightarrow> rounds_way body v True"
| way_match: "expr_way e v \<Longrightarrow> arms_way arms w b \<Longrightarrow> stmt_way (SMatch e arms) (v @ [Works] @ w) b"
| way_try: "stmts_way ts v b \<Longrightarrow> stmt_way (STryCatch ts h us) (Works # v) b"
| way_caught: "stmts_way (take k ts) v False \<Longrightarrow> stmts_way us w b \<Longrightarrow> stmt_way (STryCatch ts h us) (Works # v @ w) b"
| way_assert: "expr_way c v \<Longrightarrow> opt_way m w \<Longrightarrow> stmt_way (SAssert c m) (Works # v @ w) False"
| way_holds: "expr_way c v \<Longrightarrow> stmt_way (SAssert c m) (Works # v) False"
| way_other: "declares t \<Longrightarrow> stmt_way t [Works] False"
| way_no_stmts: "stmts_way [] [] False"
| way_stops: "stmt_way t v True \<Longrightarrow> stmts_way (t # ts) v True"
| way_goes_on: "stmt_way t v False \<Longrightarrow> stmts_way ts w b \<Longrightarrow> stmts_way (t # ts) (v @ w) b"

text \<open>A call costs what the called function declares, or 10; an operation costs 1; the function itself 5.\<close>

fun event_cost :: "(ustr \<rightharpoonup> nat) \<Rightarrow> way_event \<Rightarrow> nat" where
  "event_cost D (Calls name) = (case D name of Some l \<Rightarrow> l | None \<Rightarrow> 10)"
| "event_cost D CallsValue = 10"
| "event_cost D Works = 1"

definition events_cost :: "(ustr \<rightharpoonup> nat) \<Rightarrow> way_event list \<Rightarrow> nat" where
  "events_cost D w = sum_list (map (event_cost D) w)"

lemma events_cost_simps [simp]:
  "events_cost D [] = 0" "events_cost D (x # w) = event_cost D x + events_cost D w"
  "events_cost D (v @ w) = events_cost D v + events_cost D w"
  by (simp_all add: events_cost_def)



subsection \<open>The sum of a body\<close>










subsection \<open>The sum and the ways\<close>





lemma atom_cost: "atom e \<Longrightarrow> expr_way e w \<Longrightarrow> w = []"
  by (cases e) (auto elim: expr_way.cases)









subsection \<open>Programs\<close>














text \<open>
  The calls that the sum never sees: those inside arrays, ranges, option and result values, behind a
  member access, an index or a pipe, in match expressions and statements, in try blocks and assertions.
  A loop counts as one pass.
\<close>

lemma uncounted_calls:
  "expr_latency chk D (Array es) = Some 0" "expr_latency chk D (Range l r b) = Some 0"
  "expr_latency chk D (OptionValue b x) = Some 0" "expr_latency chk D (ResultValue b x y) = Some 0"
  "expr_latency chk D (Index e i) = Some 1" "expr_latency chk D (MemberAccess e m) = Some 1"
  "expr_latency chk D (Pipe e ops) = Some 1" "expr_latency chk D (MatchExpr e arms) = Some 1"
  "stmt_latency chk D (SMatch e arms) = Some 1" "stmt_latency chk D (STryCatch ts h us) = Some 1"
  "stmt_latency chk D (SAssert e x) = Some 1"
  by simp_all

lemma loop_counts_once: "stmt_latency chk D (SWhile c body) = stmt_latency chk D (SIf c body body)"
  by (cases "stmts_latency chk D (Some 0) body") (simp_all add: max_latency_def)


end
