(* ===== verification/Llm.thy ===== *)
theory Llm
  imports Seven Texts
begin

section \<open>The directive @llm (compiler/src/llm.rs)\<close>

text \<open>
  The engine behind the directive without a QN1 back end: a prompt is matched against a few templates
  and otherwise becomes a stub. \<open>str::to_lowercase\<close>, which needs the Unicode tables, is the
  parameter \<open>lower\<close>. The confidence of code that a QN1 back end generates is a comparison of its
  score; back ends are outside the model.
\<close>

datatype LlmConfidence = LPatternMatch | LTypeChecked | LGenerated | LRejected

record 'f LlmGeneratedCode =
  lg_statements :: "'f Stmt list"
  lg_confidence :: LlmConfidence
  lg_prompt :: ustr

definition is_pattern_match :: "(ustr \<Rightarrow> ustr) \<Rightarrow> ustr \<Rightarrow> bool" where
  "is_pattern_match lower prompt =
     (let p = contains_str (lower (trim_ws prompt)) in
      p (lit ''sort'') \<and> (p (lit ''ascending'') \<or> p (lit ''asc'')) \<or>
      p (lit ''filter'') \<and> p (lit ''greater'') \<or>
      p (lit ''map'') \<and> p (lit ''double'') \<or>
      p (lit ''sum'') \<or> p (lit ''average'') \<or> p (lit ''reverse'') \<or> p (lit ''flatten''))"

definition template_annot :: FnAnnot where
  "template_annot = no_annot\<lparr>an_effect := Some (lit ''pure''), an_capability := Some (lit ''cpu'')\<rparr>"

definition template_fn :: "ustr \<Rightarrow> 'f Stmt" where
  "template_fn name = SFn name [] None template_annot [] False False"

definition match_template :: "(ustr \<Rightarrow> ustr) \<Rightarrow> ustr \<Rightarrow> 'f Stmt list option" where
  "match_template lower prompt =
     (let p = contains_str (lower (trim_ws prompt)) in
      if p (lit ''filter'') \<and> (p (lit ''greater'') \<or> p (lit ''>'')) then Some [template_fn (lit ''filter_fn'')]
      else if (p (lit ''sort'') \<or> p (lit ''order'')) \<and> (p (lit ''asc'') \<or> p (lit ''ascending''))
        then Some [template_fn (lit ''sort_fn'')]
      else if p (lit ''sum'') \<or> p (lit ''average'') \<or> p (lit ''total'') then Some [template_fn (lit ''aggregate_fn'')]
      else None)"

definition stub_text :: "ustr \<Rightarrow> ustr" where
  "stub_text prompt = lit ''@llm stub: '' @ prompt"

definition prompt_to_ast :: "(ustr \<Rightarrow> ustr) \<Rightarrow> ustr \<Rightarrow> ustr option \<Rightarrow> 'f Stmt list" where
  "prompt_to_ast lower prompt target =
     (case match_template lower (lower (trim_ws prompt)) of
        Some stmts \<Rightarrow> stmts
      | None \<Rightarrow> [SFn (case target of Some t \<Rightarrow> t | None \<Rightarrow> lit ''generated_fn'') [] None
          (template_annot\<lparr>an_llm_prompt := Some prompt\<rparr>)
          [SExpr (StringLiteral (stub_text prompt))] False False])"

definition process_directive :: "(ustr \<Rightarrow> ustr) \<Rightarrow> ustr \<Rightarrow> ustr option \<Rightarrow> 'f LlmGeneratedCode" where
  "process_directive lower prompt target =
     \<lparr>lg_statements = prompt_to_ast lower prompt target,
      lg_confidence = (if is_pattern_match lower prompt then LPatternMatch else LGenerated),
      lg_prompt = prompt\<rparr>"

subsection \<open>What a prompt generates\<close>

text \<open>One function in every case; its body is empty or the stub.\<close>

definition matched :: "(ustr \<Rightarrow> ustr) \<Rightarrow> ustr \<Rightarrow> bool" where
  "matched lower prompt = (match_template lower (lower (trim_ws prompt)) \<noteq> (None :: unit Stmt list option))"

lemma matched_iff: "(match_template lower p :: 'f Stmt list option) = None \<longleftrightarrow> (match_template lower p :: 'g Stmt list option) = None"
  by (simp add: match_template_def Let_def)

lemma template_shape:
  assumes "match_template lower p = Some stmts"
  shows "\<exists>name. stmts = [template_fn name]"
proof -
  obtain a b c where "(if a then Some [template_fn (lit ''filter_fn'')] else if b then Some [template_fn (lit ''sort_fn'')]
      else if c then Some [template_fn (lit ''aggregate_fn'')] else None) = Some stmts"
    using assms unfolding match_template_def Let_def by blast
  then show ?thesis by (auto split: if_splits)
qed

lemma generated_body:
  "\<exists>name an. lg_statements (process_directive lower prompt target :: 'f LlmGeneratedCode) =
     [SFn name [] None an (if matched lower prompt then [] else [SExpr (StringLiteral (stub_text prompt))]) False False]"
proof (cases "match_template lower (lower (trim_ws prompt)) :: 'f Stmt list option")
  case None
  then have "\<not> matched lower prompt"
    using matched_iff[of lower "lower (trim_ws prompt)", where 'f = 'f and 'g = unit] by (simp add: matched_def)
  with None show ?thesis by (simp add: process_directive_def prompt_to_ast_def)
next
  case (Some stmts)
  then have "matched lower prompt"
    using matched_iff[of lower "lower (trim_ws prompt)", where 'f = 'f and 'g = unit] by (simp add: matched_def)
  with Some template_shape[OF Some] show ?thesis
    by (auto simp: process_directive_def prompt_to_ast_def template_fn_def)
qed

end
