(* ===== verification/Compile.thy ===== *)
theory Compile
  imports Pipeline TaskSpecs LatencyCorrect Llm
begin

section \<open>The compiler driver (compiler/src/lib.rs)\<close>

text \<open>
  From a source text to the program, the seven-channel inference, the violations of latencies and the
  task specifications. The report is kept as the inferencer that prints it and the violations; its
  text is left out. A panic is the outcome \<open>Panic\<close>, a failure of the lexer or the parser \<open>Err\<close>.
\<close>

definition expand_fn :: "(ustr \<Rightarrow> ustr) \<Rightarrow> 'f Stmt \<Rightarrow> 'f Stmt" where
  "expand_fn lower st =
     (case st of
        SFn name params ret_type an body async pub \<Rightarrow>
          (case an_llm_prompt an of
             Some prompt \<Rightarrow>
               (let gen = lg_statements (process_directive lower prompt (Some name));
                    new_body = (case gen of SFn _ _ _ _ b _ _ # _ \<Rightarrow> b | _ \<Rightarrow> gen) in
                SFn name params ret_type (an\<lparr>an_llm_prompt := None, an_confidence := None\<rparr>) new_body async pub)
           | None \<Rightarrow> st)
      | _ \<Rightarrow> st)"

definition expand_llm :: "(ustr \<Rightarrow> ustr) \<Rightarrow> 'f Program \<Rightarrow> 'f Program" where
  "expand_llm lower prog = program_new\<lparr>statements := map (expand_fn lower) (statements prog)\<rparr>"

datatype compile_error = NotLexed LexerError | NotParsed ParseError

record 'f compiled =
  cr_program :: "'f Program"
  cr_inferred :: seven
  cr_specs :: "TaskSpec list"
  cr_errors :: "(ustr \<times> nat \<times> nat \<times> nat) list"

text \<open>\<open>n\<close> is the number of the next type variable, which the process counts.\<close>

definition compile_program_with_llm ::
  "bool \<Rightarrow> (ustr \<Rightarrow> ustr) \<Rightarrow> hasher \<Rightarrow> nat \<Rightarrow> 'f Program \<Rightarrow> (compile_error, 'f compiled) outcome" where
  "compile_program_with_llm chk lower hash n prog =
     (let expanded = expand_llm lower prog in
      obind (or_panic (seven_infer_program chk expanded (seven_new n))) (\<lambda>infer.
      obind (or_panic (verify_latency chk expanded)) (\<lambda>latency.
      Ok \<lparr>cr_program = expanded, cr_inferred = infer, cr_specs = from_program hash expanded,
          cr_errors = lr_errors latency\<rparr>)))"

definition compile_with_llm ::
  "unicode \<Rightarrow> 'f plat \<Rightarrow> (ustr \<Rightarrow> ustr) \<Rightarrow> hasher \<Rightarrow> nat \<Rightarrow> ustr \<Rightarrow>
    (compile_error, 'f compiled) outcome option" where
  "compile_with_llm U P lower hash n src =
     map_option (\<lambda>r. case r of
         LexFailed e \<Rightarrow> Err (NotLexed e)
       | ParseFailed e \<Rightarrow> Err (NotParsed e)
       | Ran prog \<Rightarrow> compile_program_with_llm (ovf_checks P) lower hash n prog)
     (parse_source U P src)"

end
