(* ===== verification/CompileCorrect.thy ===== *)
theory CompileCorrect
  imports Compile
begin

section \<open>Compiling a source text\<close>

text \<open>
  The driver always ends; what it hands out agrees with the types, keeps everything but the bodies of
  prompted functions, and gives printed programs back.
\<close>

subsection \<open>The expansion of prompts\<close>

definition is_prompted :: "'f Stmt \<Rightarrow> bool" where
  "is_prompted st = (case st of SFn _ _ _ an _ _ _ \<Rightarrow> an_llm_prompt an \<noteq> None | _ \<Rightarrow> False)"

lemma expand_fn_fn:
  "expand_fn lower (SFn name params ret_type an body async pub) =
     (case an_llm_prompt an of
        None \<Rightarrow> SFn name params ret_type an body async pub
      | Some prompt \<Rightarrow> SFn name params ret_type (an\<lparr>an_llm_prompt := None, an_confidence := None\<rparr>)
          (if matched lower prompt then [] else [SExpr (StringLiteral (stub_text prompt))]) async pub)"
proof (cases "an_llm_prompt an")
  case (Some prompt)
  then show ?thesis
    using generated_body[of lower prompt "Some name", where 'f = 'a] by (auto simp: expand_fn_def)
qed (simp add: expand_fn_def)

lemma expand_fn_other: "\<not> is_prompted st \<Longrightarrow> expand_fn lower st = st"
  by (auto simp: expand_fn_def is_prompted_def split: Statement.splits option.splits)

lemma prompted_fn:
  "is_prompted st \<Longrightarrow> \<exists>name params ret_type an body async pub prompt.
     st = SFn name params ret_type an body async pub \<and> an_llm_prompt an = Some prompt"
  by (auto simp: is_prompted_def split: Statement.splits)

lemma expanded_not_prompted: "\<not> is_prompted (expand_fn lower st)"
proof (cases "is_prompted st")
  case True
  from prompted_fn[OF this] show ?thesis by (auto simp: expand_fn_fn is_prompted_def)
qed (simp add: expand_fn_other)

lemma unprompted_spec: "\<not> is_prompted st \<Longrightarrow> fn_spec hash st = Some sp \<Longrightarrow> ts_llm_prompt sp = None"
  by (auto simp: fn_spec_def for_fn_def is_prompted_def split: Statement.splits)

text \<open>
  Prompts generate no code. The expansion keeps every statement but the functions with a prompt;
  of these it keeps name, parameters, result type and the other annotations but the confidence, and
  their body becomes empty when the prompt matches a template and a string with the prompt else. A
  second expansion changes nothing, and no task specification of the result carries a prompt.
\<close>

theorem prompts_generate_no_code:
  "statements (expand_llm lower prog) = map (\<lambda>st. case st of
       SFn name params ret_type an body async pub \<Rightarrow>
         (case an_llm_prompt an of
            None \<Rightarrow> st
          | Some prompt \<Rightarrow> SFn name params ret_type (an\<lparr>an_llm_prompt := None, an_confidence := None\<rparr>)
              (if matched lower prompt then [] else [SExpr (StringLiteral (stub_text prompt))]) async pub)
     | _ \<Rightarrow> st) (statements prog) \<and>
   expand_llm lower (expand_llm lower prog) = expand_llm lower prog \<and>
   list_all (\<lambda>sp. ts_llm_prompt sp = None) (from_program hash (expand_llm lower prog))"
proof (intro conjI)
  show "statements (expand_llm lower prog) = map (\<lambda>st. case st of
       SFn name params ret_type an body async pub \<Rightarrow>
         (case an_llm_prompt an of
            None \<Rightarrow> st
          | Some prompt \<Rightarrow> SFn name params ret_type (an\<lparr>an_llm_prompt := None, an_confidence := None\<rparr>)
              (if matched lower prompt then [] else [SExpr (StringLiteral (stub_text prompt))]) async pub)
     | _ \<Rightarrow> st) (statements prog)"
    by (auto simp: expand_llm_def expand_fn_fn expand_fn_def[where st = "SExpr e" for e] expand_fn_other
        is_prompted_def split: Statement.splits)
  show "expand_llm lower (expand_llm lower prog) = expand_llm lower prog"
    by (simp add: expand_llm_def expand_fn_other expanded_not_prompted)
  have "list_all (\<lambda>sp. ts_llm_prompt sp = None) (List.map_filter (fn_spec hash) (map (expand_fn lower) ts))" for ts
  proof (induction ts)
    case (Cons t ts)
    then show ?case
      using unprompted_spec[OF expanded_not_prompted, of hash lower t]
      by (auto simp: List.map_filter_simps split: option.splits)
  qed (simp add: List.map_filter_simps)
  then show "list_all (\<lambda>sp. ts_llm_prompt sp = None) (from_program hash (expand_llm lower prog))"
    by (simp add: from_program_def expand_llm_def)
qed

subsection \<open>Every text compiles to something\<close>

lemma parse_tokens_returns: "parse_tokens P (2 * length ts + 2) ts \<noteq> None"
  using good_program[of ts, OF order_refl, of P]
  by (auto simp: good_def parse_tokens_def split: option.splits sum.splits)

lemma parse_source_returns: "parse_source U P src \<noteq> None"
  using parse_tokens_returns[of P]
  by (auto simp: parse_source_def simp del: not_None_eq split: prod.split sum.split option.split)

lemma seconds_unchecked [simp]: "seconds_to_ms False r = None \<longleftrightarrow> False"
  by (auto simp: seconds_to_ms_def u64_times_1000_def split: option.split)

lemma seven_stmts_unchecked [simp]: "seven_stmts False V st ts = None \<longleftrightarrow> False"
proof (induction ts arbitrary: st)
  case (Cons t ts)
  have "seven_stmt False V st t \<noteq> None"
    by (auto simp: seven_stmt_def fn_time_def fn_timeout_def opt_map_map_option Let_def
        split: Statement.split option.split)
  with Cons show ?case by (auto split: option.split)
qed simp

lemma plus_unchecked: "\<not> chk \<Longrightarrow> x \<noteq> None \<Longrightarrow> y \<noteq> None \<Longrightarrow> plus_latency chk x y \<noteq> None"
  by (auto simp: plus_latency_def u64_add_def)

lemma max_unchecked: "x \<noteq> None \<Longrightarrow> y \<noteq> None \<Longrightarrow> max_latency x y \<noteq> None"
  by (auto simp: max_latency_def)

lemma expr_latency_unchecked:
  fixes e :: "'f Expr" and es :: "'f Expr list"
  shows "\<not> chk \<Longrightarrow> expr_latency chk D e \<noteq> None"
    and "\<not> chk \<Longrightarrow> acc \<noteq> None \<Longrightarrow> exprs_latency chk D acc es \<noteq> None"
  by (induction chk D e and chk D acc es rule: expr_latency_exprs_latency.induct)
    (simp_all add: plus_unchecked max_unchecked del: not_None_eq)

lemma stmt_latency_unchecked:
  fixes t :: "'f Stmt" and ts :: "'f Stmt list"
  shows "\<not> chk \<Longrightarrow> stmt_latency chk D t \<noteq> None"
    and "\<not> chk \<Longrightarrow> acc \<noteq> None \<Longrightarrow> stmts_latency chk D acc ts \<noteq> None"
  by (induction chk D t and chk D acc ts rule: stmt_latency_stmts_latency.induct)
    (simp_all add: plus_unchecked max_unchecked expr_latency_unchecked del: not_None_eq)

lemma latency_errors_unchecked [simp]: "latency_errors False D ts = None \<longleftrightarrow> False"
proof (induction ts)
  case (Cons t ts)
  have "latency_error False D t \<noteq> None"
    using stmt_latency_unchecked(2)[of False _ D]
    by (auto simp: latency_error_def analyze_call_chain_def split: option.split)
  with Cons show ?case by (auto split: option.split)
qed simp

text \<open>
  C16: Compiling ends on every text: with a compiled program, an error of the lexer or of the parser,
  or a panic, and never with a panic where overflow is not checked.
\<close>

theorem compile_always_returns:
  "\<exists>r. compile_with_llm U P lower hash n src = Some r \<and> (r = Panic \<longrightarrow> ovf_checks P)"
proof (cases "parse_source U P src")
  case (Some r)
  show ?thesis
  proof (cases r)
    case (Ran prog)
    have "compile_program_with_llm False lower hash n prog \<noteq> Panic"
      by (auto simp: compile_program_with_llm_def seven_infer_program_def verify_latency_def Let_def
          or_panic_def split: option.split)
    with Some Ran show ?thesis
      by (cases "ovf_checks P") (auto simp: compile_with_llm_def)
  qed (use Some in \<open>auto simp: compile_with_llm_def\<close>)
qed (use parse_source_returns in blast)

theorem compile_always_returns_witness:
  "\<exists>r. compile_with_llm no_tables (int_plat\<lparr>ovf_checks := False\<rparr>) id (\<lambda>_. 0) 0
     (lit ''fn f() @ timeout(99999999999999999999s) { return 1 }'') = Some r \<and> r \<noteq> Panic"
  using compile_always_returns[of no_tables "int_plat\<lparr>ovf_checks := False\<rparr>" id "\<lambda>_. 0" 0
      "lit ''fn f() @ timeout(99999999999999999999s) { return 1 }''"]
  by auto

subsection \<open>What is compiled\<close>

text \<open>
  C15: The parts of a compiled program agree. Its program is the expansion of what the parser reads,
  and effect, capability and governance of its task specifications are, name for name and in order,
  those that the seven-channel inference recorded for its functions.
\<close>

theorem compiled_parts_agree:
  assumes "compile_with_llm U P lower hash n src = Some (Ok r)"
  shows "(\<exists>prog. parse_source U P src = Some (Ran prog) \<and> cr_program r = expand_llm lower prog) \<and>
    cr_specs r = from_program hash (cr_program r) \<and>
    map typed_levels (results (cr_inferred r)) = map spec_levels (cr_specs r)"
proof -
  obtain prog where p: "parse_source U P src = Some (Ran prog)"
      and c: "compile_program_with_llm (ovf_checks P) lower hash n prog = Ok r"
    using assms
    by (cases "parse_source U P src"; cases "the (parse_source U P src)") (auto simp: compile_with_llm_def)
  then obtain st where "seven_infer_program (ovf_checks P) (expand_llm lower prog) (seven_new n) = Some st"
      "cr_inferred r = st" "cr_program r = expand_llm lower prog"
      "cr_specs r = from_program hash (expand_llm lower prog)"
    by (auto simp: compile_program_with_llm_def Let_def or_panic_def obind_Ok_iff split: option.splits)
  with specs_follow_types[of "ovf_checks P" "expand_llm lower prog" n st hash] p show ?thesis by simp
qed

lemma printed_fn:
  assumes "printable_stmt P t"
  shows "expand_fn lower t = t" and "latency_limit t = None"
    and "seven_stmt chk V st t \<noteq> None"
    and "fn_spec hash t = (case t of SFn name _ _ _ _ _ _ \<Rightarrow> Some (for_fn hash name Pure Cpu False None None) | _ \<Rightarrow> None)"
  using assms
  by (cases t; simp add: expand_fn_def latency_limit_def seven_stmt_def fn_spec_def no_annot_def fn_time_def
      fn_timeout_def opt_map_map_option Let_def)+

lemma printable_stmts_all: "printable_stmts P ts = list_all (printable_stmt P) ts"
  by (induction ts) simp_all

lemma printed_seven: "printable_stmts P ts \<Longrightarrow> seven_stmts chk V st ts \<noteq> None"
proof (induction ts arbitrary: st)
  case (Cons t ts)
  then show ?case using printed_fn(3)[of P t chk V st] by (auto split: option.split)
qed simp

lemma printed_latency: "printable_stmts P ts \<Longrightarrow> latency_errors chk D ts = Some []"
proof (induction ts)
  case (Cons t ts)
  then show ?case using printed_fn(2)[of P t] by (simp add: latency_error_def)
qed simp

lemma printed_specs:
  "printable_stmts P ts \<Longrightarrow> List.map_filter (fn_spec hash) ts =
     List.map_filter (\<lambda>t. case t of SFn name _ _ _ _ _ _ \<Rightarrow> Some (for_fn hash name Pure Cpu False None None) | _ \<Rightarrow> None) ts"
proof (induction ts)
  case (Cons t ts)
  then show ?case using printed_fn(4)[of P t hash] by (simp add: List.map_filter_simps split: option.split)
qed (simp add: List.map_filter_simps)

lemma printed_compile:
  assumes "printable_stmts P ts" and "\<forall>(tt, v) \<in> set (stmts_toks P ts). readable U tt v"
  shows "\<exists>r. compile_with_llm U P lower hash n (print_tokens (stmts_toks P ts)) = Some (Ok r) \<and>
    cr_program r = program_new\<lparr>statements := ts\<rparr> \<and> cr_errors r = [] \<and>
    cr_specs r = List.map_filter (\<lambda>t. case t of
      SFn name _ _ _ _ _ _ \<Rightarrow> Some (for_fn hash name Pure Cpu False None None) | _ \<Rightarrow> None) ts"
proof -
  have e: "expand_llm lower (program_new\<lparr>statements := ts\<rparr>) = program_new\<lparr>statements := ts\<rparr>"
    using assms(1) printed_fn(1)[of P] by (simp add: expand_llm_def printable_stmts_all list_all_iff map_idI program_new_def)
  have "seven_infer_program (ovf_checks P) (program_new\<lparr>statements := ts\<rparr>) (seven_new n) \<noteq> None"
    using printed_seven[OF assms(1)] by (simp add: seven_infer_program_def Let_def del: not_None_eq)
  then obtain st where s: "seven_infer_program (ovf_checks P) (program_new\<lparr>statements := ts\<rparr>) (seven_new n) = Some st"
    by blast
  have "latency_errors (ovf_checks P) D ts = Some []" for D
    by (rule printed_latency[OF assms(1)])
  then show ?thesis
    using printed_specs[OF assms(1), of hash]
    by (simp add: compile_with_llm_def parse_source_printed[OF assms] compile_program_with_llm_def e s
        verify_latency_def from_program_def Let_def)
qed

text \<open>
  Printed programs compile. The text of a printable program compiles without errors to that
  program, with one task specification for each of its functions in order, pure and for the processor,
  without governance and without a prompt.
\<close>

theorem printed_programs_compile:
  assumes "printable_stmts P ts" and "\<forall>(tt, v) \<in> set (stmts_toks P ts). readable U tt v"
  shows "\<exists>r. compile_with_llm U P lower hash n (print_tokens (stmts_toks P ts)) = Some (Ok r) \<and>
    cr_program r = program_new\<lparr>statements := ts\<rparr> \<and> cr_errors r = [] \<and>
    cr_specs r = List.map_filter (\<lambda>t. case t of
      SFn name _ _ _ _ _ _ \<Rightarrow> Some (for_fn hash name Pure Cpu False None None) | _ \<Rightarrow> None) ts"
  using assms by (rule printed_compile)

definition inc_program :: "int Stmt list" where
  "inc_program = [SFn (lit ''inc'') [FnParam (lit ''x'') None None] None no_annot
     [SReturn (Some (BinaryOp (Ident (lit ''x'')) (lit ''+'') (IntLiteral 1)))] False False]"

lemma inc_printed:
  "printable_stmts int_plat inc_program"
  "\<forall>(tt, v) \<in> set (stmts_toks int_plat inc_program). readable no_tables tt v"
proof -
  show "printable_stmts int_plat inc_program" by (simp add: inc_program_def printing lit_def)
  have t: "stmts_toks int_plat inc_program = [(KeywordFn, lit ''fn''), (IdentTok, lit ''inc''), (LeftParen, lit ''(''),
      (IdentTok, lit ''x''), (RightParen, lit '')''), (LeftBrace, lit ''{''), (KeywordReturn, lit ''return''),
      (IdentTok, lit ''x''), (Plus, lit ''+''), (TokenType.IntLiteral, lit ''1''), (RightBrace, lit ''}'')]"
    by (simp add: inc_program_def printing lit_def)
  show "\<forall>(tt, v) \<in> set (stmts_toks int_plat inc_program). readable no_tables tt v"
    unfolding t by (simp add: reading lit_def)
qed

theorem printed_programs_compile_witness:
  "\<exists>r. compile_with_llm no_tables int_plat id (\<lambda>_. 0) 0 (print_tokens (stmts_toks int_plat inc_program)) = Some (Ok r) \<and>
    map ts_fn_id (cr_specs r) = [lit ''inc'']"
  using printed_programs_compile[OF inc_printed, of id "\<lambda>_. 0" 0]
  by (auto simp: inc_program_def List.map_filter_simps for_fn_def)

theorem compiled_parts_agree_witness:
  "\<exists>r. compile_with_llm no_tables int_plat id (\<lambda>_. 0) 0 (print_tokens (stmts_toks int_plat inc_program)) = Some (Ok r) \<and>
    map typed_levels (results (cr_inferred r)) = [(lit ''inc'', Some Pure, Some Cpu, None)]"
proof -
  obtain r where r: "compile_with_llm no_tables int_plat id (\<lambda>_. 0) 0 (print_tokens (stmts_toks int_plat inc_program)) = Some (Ok r)"
      "map spec_levels (cr_specs r) = [(lit ''inc'', Some Pure, Some Cpu, None)]"
    using printed_compile[OF inc_printed, of id "\<lambda>_. 0" 0]
    by (auto simp: inc_program_def List.map_filter_simps for_fn_def spec_levels_def)
  with compiled_parts_agree[OF r(1)] show ?thesis by auto
qed

end
