(* ===== verification/Macros.thy ===== *)
theory Macros
  imports Ast "HOL-Library.AList"
begin

section \<open>Macros (compiler/src/macro\_expand.rs)\<close>

text \<open>
  Functions generated for the traits a structure derives, inserted behind it; the registry of
  declarative macros; and the built-in macros. The expander works on the vector of statements by
  index, from the last structure to the first.
\<close>

record ExpansionRecord =
  xr_macro_name :: ustr
  xr_target_type :: ustr
  xr_location :: ustr
  xr_generated_stmts :: nat

record 'f MacroExpansion =
  mx_original :: "'f Program"
  mx_expanded :: "'f Program"
  mx_expansions :: "ExpansionRecord list"

subsection \<open>Derived functions\<close>

definition plain_fn :: "ustr \<Rightarrow> 'f FnParam list \<Rightarrow> 'f Stmt list \<Rightarrow> 'f Stmt" where
  "plain_fn name params body = SFn name params None no_annot body False False"

definition generate_debug_impl :: "ustr \<Rightarrow> 'f Stmt" where
  "generate_debug_impl name =
     plain_fn (lit ''fmt'') [FnParam (lit ''_fmt'') (Some (type_new BString)) None]
       [SExpr (Call (Ident (lit ''print'')) [StringLiteral (lit ''[DEBUG] '' @ name)]), SReturn None]"

definition generate_clone_impl :: "ustr \<Rightarrow> 'f Stmt" where
  "generate_clone_impl name =
     plain_fn (lit ''clone'') []
       [SExpr (Call (Ident (lit ''println'')) [StringLiteral (lit ''clone '' @ name)]),
        SReturn (Some (IntLiteral 0))]"

definition generate_copy_impl :: "'f Stmt" where
  "generate_copy_impl = plain_fn (lit ''copy'') [] [SReturn None]"

definition generate_partialeq_impl :: "'f Stmt" where
  "generate_partialeq_impl =
     plain_fn (lit ''eq'') [FnParam (lit ''other'') None None]
       [SAssert (BoolLiteral True) (Some (StringLiteral (lit ''PartialEq check''))),
        SReturn (Some (BoolLiteral True))]"

definition default_value :: "'f plat \<Rightarrow> BaseType \<Rightarrow> 'f Expr" where
  "default_value P b =
     (case b of
        BInt \<Rightarrow> IntLiteral 0 | BFloat \<Rightarrow> FloatLiteral (f_zero P) | BString \<Rightarrow> StringLiteral []
      | BBool \<Rightarrow> BoolLiteral False | BChar \<Rightarrow> CharLiteral 0 | _ \<Rightarrow> IntLiteral 0)"

definition generate_default_impl :: "'f plat \<Rightarrow> FieldDef list \<Rightarrow> 'f Stmt" where
  "generate_default_impl P flds =
     plain_fn (lit ''default'') []
       (map (\<lambda>f. SLet (lit ''default_'' @ field_name f) (Some (default_value P (base (field_type f)))) None False) flds @
        [SReturn (Some (IntLiteral 0))])"

definition derive_record :: "ustr \<Rightarrow> ustr \<Rightarrow> ExpansionRecord" where
  "derive_record trait name =
     \<lparr>xr_macro_name = lit ''derive('' @ trait @ lit '')'', xr_target_type = lit ''struct'',
      xr_location = lit ''struct '' @ name, xr_generated_stmts = 1\<rparr>"

definition derived :: "'f plat \<Rightarrow> ustr \<Rightarrow> FieldDef list \<Rightarrow> ustr \<Rightarrow> ('f Stmt \<times> ExpansionRecord) option" where
  "derived P name flds trait =
     map_option (\<lambda>st. (st, derive_record trait name))
       (if trait = lit ''Debug'' then Some (generate_debug_impl name)
        else if trait = lit ''Clone'' then Some (generate_clone_impl name)
        else if trait = lit ''Copy'' then Some generate_copy_impl
        else if trait = lit ''PartialEq'' then Some generate_partialeq_impl
        else if trait = lit ''Default'' then Some (generate_default_impl P flds)
        else None)"

definition insert_at :: "nat \<Rightarrow> 'a \<Rightarrow> 'a list \<Rightarrow> 'a list" where
  "insert_at i x xs = take i xs @ x # drop i xs"

text \<open>The loop that inserts the new items one by one, from the position \<open>i\<close> on.\<close>

fun insert_items :: "nat \<Rightarrow> 'a list \<Rightarrow> 'a list \<Rightarrow> 'a list" where
  "insert_items i [] xs = xs"
| "insert_items i (y # ys) xs = insert_items (i + 1) ys (insert_at i y xs)"

type_synonym struct_entry = "nat \<times> ustr \<times> ustr list \<times> FieldDef list"

definition struct_entries :: "nat \<Rightarrow> 'f Stmt list \<Rightarrow> struct_entry list" where
  "struct_entries n stmts = List.map_filter (\<lambda>(i, st). case st of
       SStructDef name derives flds \<Rightarrow> if derives \<noteq> [] then Some (i, name, derives, flds) else None
     | _ \<Rightarrow> None) (enumerate n stmts)"

definition expand_entry ::
  "'f plat \<Rightarrow> struct_entry \<Rightarrow> 'f Stmt list \<times> ExpansionRecord list \<Rightarrow> 'f Stmt list \<times> ExpansionRecord list" where
  "expand_entry P = (\<lambda>(idx, name, derives, flds) (stmts, records).
     let gen = List.map_filter (derived P name flds) derives in
     (insert_items idx (stmts ! idx # map fst gen) (take idx stmts @ drop (idx + 1) stmts),
      records @ map snd gen))"

definition expand_derives ::
  "'f plat \<Rightarrow> 'f Stmt list \<times> ExpansionRecord list \<Rightarrow> 'f Stmt list \<times> ExpansionRecord list" where
  "expand_derives P st = fold (expand_entry P) (rev (struct_entries 0 (fst st))) st"

definition expand_enum_derives :: "'f Stmt list \<Rightarrow> 'f Stmt list" where
  "expand_enum_derives stmts = stmts"

subsection \<open>The registry and the expander\<close>

record MacroPatternRule =
  mp_patterns :: "ustr list"
  mp_expansion_templates :: "ustr list"

type_synonym MacroDef = "MacroPatternRule list"

type_synonym MacroRegistry = "(ustr \<times> MacroDef) list"

definition registry_insert :: "ustr \<Rightarrow> MacroDef \<Rightarrow> MacroRegistry \<Rightarrow> MacroRegistry" where
  "registry_insert key val reg = AList.update key val reg"

definition registry_get :: "MacroRegistry \<Rightarrow> ustr \<Rightarrow> MacroDef option" where
  "registry_get reg key = map_of reg key"

definition register_macro_decl :: "'f MacroDecl \<Rightarrow> MacroRegistry \<Rightarrow> MacroRegistry" where
  "register_macro_decl d reg =
     (case d of
        Declarative name rules \<Rightarrow> registry_insert name
          (map (\<lambda>r. \<lparr>mp_patterns = rule_pattern r, mp_expansion_templates = rule_expansion r\<rparr>) rules) reg
      | Derive _ _ _ \<Rightarrow> reg)"

definition register_macro_decls :: "MacroRegistry \<Rightarrow> 'f MacroDecl list \<Rightarrow> MacroRegistry" where
  "register_macro_decls reg ds = fold register_macro_decl ds reg"

definition extract_macro_decls :: "'f Stmt list \<Rightarrow> 'f MacroDecl list" where
  "extract_macro_decls stmts = []"

definition expand_program :: "'f plat \<Rightarrow> 'f Program \<Rightarrow> 'f MacroExpansion" where
  "expand_program P program =
     (let (stmts, records) = expand_derives P (statements program, []) in
      \<lparr>mx_original = program,
       mx_expanded = program\<lparr>statements := expand_enum_derives stmts\<rparr>,
       mx_expansions = records\<rparr>)"

subsection \<open>Built-in macros\<close>

record 'f BuiltinMacro =
  bm_name :: ustr
  bm_num_args :: nat
  bm_is_variadic :: bool
  bm_expand :: "'f Expr list \<Rightarrow> 'f Stmt list"

definition call_stmt :: "ustr \<Rightarrow> 'f Expr list \<Rightarrow> 'f Stmt" where
  "call_stmt f args = SExpr (Call (Ident f) args)"

definition expand_assert :: "'f Expr list \<Rightarrow> 'f Stmt list" where
  "expand_assert args =
     (case args of
        c # m # _ \<Rightarrow> [SAssert c (Some m)]
      | [c] \<Rightarrow> [SAssert c None]
      | [] \<Rightarrow> [])"

definition builtin_macros :: "ustr \<rightharpoonup> 'f BuiltinMacro" where
  "builtin_macros = [
     lit ''println'' \<mapsto> \<lparr>bm_name = lit ''println!'', bm_num_args = 1, bm_is_variadic = True,
       bm_expand = (\<lambda>args. [call_stmt (lit ''io::println'') args])\<rparr>,
     lit ''dbg'' \<mapsto> \<lparr>bm_name = lit ''dbg!'', bm_num_args = 1, bm_is_variadic = True,
       bm_expand = (\<lambda>args. [call_stmt (lit ''io::print'') [StringLiteral (lit ''[dbg] '')],
         call_stmt (lit ''io::println'') args])\<rparr>,
     lit ''assert'' \<mapsto> \<lparr>bm_name = lit ''assert!'', bm_num_args = 1, bm_is_variadic = False,
       bm_expand = expand_assert\<rparr>]"

definition expand_call :: "ustr \<Rightarrow> 'f Expr list \<Rightarrow> 'f Stmt list option" where
  "expand_call name args =
     (case builtin_macros name of
        None \<Rightarrow> None
      | Some m \<Rightarrow>
          if bm_num_args m = 0 \<or> bm_is_variadic m \<or> bm_num_args m \<le> length args
          then Some (bm_expand m args) else None)"

end
