(* ===== verification/MacrosCorrect.thy ===== *)
theory MacrosCorrect
  imports Macros
begin

section \<open>What macros expand to\<close>

text \<open>
  The expander, which moves statements by index, against the expansion of each statement by itself.
\<close>

definition derived_all :: "'f plat \<Rightarrow> 'f Stmt \<Rightarrow> ('f Stmt \<times> ExpansionRecord) list" where
  "derived_all P st =
     (case st of
        SStructDef name derives flds \<Rightarrow> List.map_filter (derived P name flds) derives
      | _ \<Rightarrow> [])"

lemma insert_items_append: "length pre = i \<Longrightarrow> insert_items i ys (pre @ xs) = pre @ ys @ xs"
proof (induction ys arbitrary: i pre)
  case (Cons y ys)
  have "insert_items (i + 1) ys ((pre @ [y]) @ xs) = (pre @ [y]) @ ys @ xs"
    by (rule Cons.IH) (use Cons.prems in simp)
  then show ?case using Cons.prems by (simp add: insert_at_def)
qed simp

lemma expand_entry_at:
  assumes "length pre = i"
  shows "expand_entry P (i, name, derives, flds) (pre @ st # post, records) =
    (pre @ st # map fst (List.map_filter (derived P name flds) derives) @ post,
     records @ map snd (List.map_filter (derived P name flds) derives))"
  using insert_items_append[OF assms, of "st # map fst (List.map_filter (derived P name flds) derives)" post] assms
  by (auto simp: expand_entry_def Let_def nth_append)

lemma struct_entries_Cons:
  "struct_entries n (st # ts) =
     (case st of SStructDef name derives flds \<Rightarrow> if derives \<noteq> [] then [(n, name, derives, flds)] else []
      | _ \<Rightarrow> []) @ struct_entries (Suc n) ts"
  by (auto simp: struct_entries_def List.map_filter_simps split: Statement.split)

lemma expand_entries:
  "length pre = n \<Longrightarrow> fold (expand_entry P) (rev (struct_entries n ts)) (pre @ ts, records) =
     (pre @ concat (map (\<lambda>st. st # map fst (derived_all P st)) ts),
      records @ concat (map (\<lambda>st. map snd (derived_all P st)) (rev ts)))"
proof (induction ts arbitrary: n pre records)
  case Nil
  then show ?case by (simp add: struct_entries_def List.map_filter_simps)
next
  case (Cons st ts)
  have "fold (expand_entry P) (rev (struct_entries (Suc n) ts)) ((pre @ [st]) @ ts, records) =
      ((pre @ [st]) @ concat (map (\<lambda>st. st # map fst (derived_all P st)) ts),
       records @ concat (map (\<lambda>st. map snd (derived_all P st)) (rev ts)))"
    by (rule Cons.IH) (use Cons.prems in simp)
  then show ?case
    using expand_entry_at[OF Cons.prems, of P]
    by (cases st) (auto simp: struct_entries_Cons derived_all_def List.map_filter_simps)
qed

text \<open>
  C24: The expander puts behind each structure exactly the functions of the known traits it derives,
  in the order in which it names them, and leaves every other statement in its place; it records one
  expansion for each of them, from the last structure to the first.
\<close>

theorem expansion_in_place:
  "mx_expanded (expand_program P prog) =
     prog\<lparr>statements := concat (map (\<lambda>st. st # map fst (derived_all P st)) (statements prog))\<rparr> \<and>
   mx_expansions (expand_program P prog) = concat (map (\<lambda>st. map snd (derived_all P st)) (rev (statements prog)))"
  using expand_entries[of "[]" 0 P "statements prog" "[]"]
  by (simp add: expand_program_def expand_derives_def expand_enum_derives_def)

end
