(* ===== verification/Packages.thy ===== *)
theory Packages
  imports Texts "HOL-Library.AList" "HOL-Library.List_Lexorder"
begin

section \<open>Packages (compiler/src/package.rs)\<close>

text \<open>
  Versions and requirements, the reader of \<open>dalin.toml\<close>, the choice of versions and the cache of
  packages. The components of a version are \<open>u64\<close>; a comparison casts them to \<open>i32\<close>, whose
  subtraction panics on overflow where that is checked (\<open>None\<close>) and else wraps around. A hash map is
  an association list without duplicate keys.
\<close>

subsection \<open>Versions\<close>

datatype PkgVersion = PkgVersion (v_major: "64 word") (v_minor: "64 word") (v_patch: "64 word")

text \<open>The derived order: by the components in turn.\<close>

instantiation PkgVersion :: linorder
begin

definition less_eq_PkgVersion :: "PkgVersion \<Rightarrow> PkgVersion \<Rightarrow> bool" where
  "a \<le> b = (v_major a < v_major b \<or> v_major a = v_major b \<and>
     (v_minor a < v_minor b \<or> v_minor a = v_minor b \<and> v_patch a \<le> v_patch b))"

definition less_PkgVersion :: "PkgVersion \<Rightarrow> PkgVersion \<Rightarrow> bool" where
  "a < b = (v_major a < v_major b \<or> v_major a = v_major b \<and>
     (v_minor a < v_minor b \<or> v_minor a = v_minor b \<and> v_patch a < v_patch b))"

instance
  by standard (auto simp: less_eq_PkgVersion_def less_PkgVersion_def intro: PkgVersion.expand)

end

definition show_u64 :: "64 word \<Rightarrow> ustr" where
  "show_u64 w = show_nat (unat w)"

definition show_version :: "PkgVersion \<Rightarrow> ustr" where
  "show_version v = show_u64 (v_major v) @ lit ''.'' @ show_u64 (v_minor v) @ lit ''.'' @ show_u64 (v_patch v)"

datatype version_error = BadShape ustr | BadMajor ustr | BadMinor ustr

definition parse_word :: "'e \<Rightarrow> ustr \<Rightarrow> 'e + 64 word" where
  "parse_word e s = (case parse_u64 s of Some n \<Rightarrow> Inr (of_nat n) | None \<Rightarrow> Inl e)"

text \<open>The leading digits of the third part, or 0 when they are none or too many.\<close>

definition parse_patch :: "ustr \<Rightarrow> 64 word" where
  "parse_patch s = (case parse_u64 (takeWhile is_ascii_digit s) of Some n \<Rightarrow> of_nat n | None \<Rightarrow> 0)"

definition parse_version :: "ustr \<Rightarrow> version_error + PkgVersion" where
  "parse_version version_str =
     (let parts = split_str (lit ''.'') (trim_ws version_str) in
      if length parts < 2 \<or> 3 < length parts then Inl (BadShape version_str)
      else
        case parse_word (BadMajor (parts ! 0)) (parts ! 0) of Inl e \<Rightarrow> Inl e | Inr mj \<Rightarrow>
        case parse_word (BadMinor (parts ! 1)) (parts ! 1) of Inl e \<Rightarrow> Inl e | Inr mn \<Rightarrow>
        Inr (PkgVersion mj mn (if length parts = 3 then parse_patch (parts ! 2) else 0)))"

type_synonym i32 = "32 word"

definition as_i32 :: "64 word \<Rightarrow> i32" where
  "as_i32 w = ucast w"

definition i32_sub :: "bool \<Rightarrow> i32 \<Rightarrow> i32 \<Rightarrow> i32 option" where
  "i32_sub chk a b = (if chk \<and> sint (a - b) \<noteq> sint a - sint b then None else Some (a - b))"

definition version_cmp :: "bool \<Rightarrow> PkgVersion \<Rightarrow> PkgVersion \<Rightarrow> i32 option" where
  "version_cmp chk a b =
     (if v_major a \<noteq> v_major b then i32_sub chk (as_i32 (v_major a)) (as_i32 (v_major b))
      else if v_minor a \<noteq> v_minor b then i32_sub chk (as_i32 (v_minor a)) (as_i32 (v_minor b))
      else i32_sub chk (as_i32 (v_patch a)) (as_i32 (v_patch b)))"

datatype VersionRequirement =
  VExact PkgVersion | VEqualOrAbove PkgVersion | VCaret PkgVersion | VTilde PkgVersion | VAny

fun satisfies :: "bool \<Rightarrow> PkgVersion \<Rightarrow> VersionRequirement \<Rightarrow> bool option" where
  "satisfies chk v (VExact req) = Some (v = req)"
| "satisfies chk v (VEqualOrAbove req) = map_option (\<lambda>d. 0 \<le> sint d) (version_cmp chk v req)"
| "satisfies chk v (VCaret req) =
     (if v_major v \<noteq> v_major req then Some False else map_option (\<lambda>d. 0 \<le> sint d) (version_cmp chk v req))"
| "satisfies chk v (VTilde req) =
     (if v_major v \<noteq> v_major req \<or> v_minor v \<noteq> v_minor req then Some False
      else Some (v_patch req \<le> v_patch v))"
| "satisfies chk v VAny = Some True"

subsection \<open>The manifest\<close>

datatype DependencySource = SourcePath ustr | SourceRegistry ustr | SourceGit ustr

record DependencyEntry =
  dep_version :: ustr
  dep_optional :: bool
  dep_default_features :: bool
  dep_features :: "ustr list"
  dep_source :: DependencySource

definition default_entry :: DependencyEntry where
  "default_entry = \<lparr>dep_version = lit ''*'', dep_optional = False, dep_default_features = True,
     dep_features = [], dep_source = SourceRegistry (lit ''crates.dal.in'')\<rparr>"

record Manifest =
  mf_name :: ustr
  mf_version :: PkgVersion
  mf_edition :: ustr
  mf_description :: "ustr option"
  mf_authors :: "ustr list"
  mf_license :: "ustr option"
  mf_deps :: "(ustr \<times> DependencyEntry) list"
  mf_dev_deps :: "(ustr \<times> DependencyEntry) list"
  mf_stdlib_modules :: "ustr list"
  mf_macros :: "ustr list"

definition manifest_new :: Manifest where
  "manifest_new = \<lparr>mf_name = [], mf_version = PkgVersion 0 1 0, mf_edition = lit ''2024'',
     mf_description = None, mf_authors = [], mf_license = None, mf_deps = [], mf_dev_deps = [],
     mf_stdlib_modules = [], mf_macros = []\<rparr>"

definition strip_toml_string :: "ustr \<Rightarrow> ustr" where
  "strip_toml_string s = trim_char (uc CHR 0x22) s"

definition parse_toml_array :: "ustr \<Rightarrow> ustr list" where
  "parse_toml_array s =
     map trim_ws (split_str (lit '','') (trim_end_char (uc CHR '']'') (trim_start_char (uc CHR ''['') s)))"

definition entry_part :: "ustr \<Rightarrow> DependencyEntry \<Rightarrow> DependencyEntry" where
  "entry_part p entry =
     (case split_at_char (uc CHR ''='') (trim_ws p) of
        None \<Rightarrow> entry
      | Some (k, v) \<Rightarrow>
          (let k = trim_ws k; v = trim_ws v in
           if k = lit ''version'' then entry\<lparr>dep_version := strip_toml_string v\<rparr>
           else if k = lit ''optional'' then
             entry\<lparr>dep_optional := (case parse_bool v of Some b \<Rightarrow> b | None \<Rightarrow> False)\<rparr>
           else if k = lit ''default-features'' then
             entry\<lparr>dep_default_features := (case parse_bool v of Some b \<Rightarrow> b | None \<Rightarrow> True)\<rparr>
           else if k = lit ''source'' then entry\<lparr>dep_source := SourceRegistry (strip_toml_string v)\<rparr>
           else entry))"

definition parse_dep_entry :: "ustr \<Rightarrow> DependencyEntry" where
  "parse_dep_entry val =
     (let val = trim_ws val in
      if uc CHR ''='' \<in> set val then fold entry_part (split_str (lit '','') val) default_entry
      else default_entry\<lparr>dep_version := strip_toml_string val\<rparr>)"

datatype manifest_error = BadSubsection | BadVersion version_error | NoName

text \<open>The state of the reader: the manifest, the current section and the current subsection.\<close>

type_synonym toml_state = "Manifest \<times> ustr option \<times> ustr option"

definition manifest_entry :: "ustr option \<Rightarrow> ustr \<Rightarrow> ustr \<Rightarrow> Manifest \<Rightarrow> manifest_error + Manifest" where
  "manifest_entry section key val m =
     (if section = Some (lit ''package'') then
        (if key = lit ''name'' then Inr (m\<lparr>mf_name := strip_toml_string val\<rparr>)
         else if key = lit ''version'' then
           (case parse_version (strip_toml_string val) of
              Inl e \<Rightarrow> Inl (BadVersion e) | Inr v \<Rightarrow> Inr (m\<lparr>mf_version := v\<rparr>))
         else if key = lit ''edition'' then Inr (m\<lparr>mf_edition := strip_toml_string val\<rparr>)
         else if key = lit ''description'' then Inr (m\<lparr>mf_description := Some (strip_toml_string val)\<rparr>)
         else if key = lit ''authors'' then Inr (m\<lparr>mf_authors := map strip_toml_string (parse_toml_array val)\<rparr>)
         else if key = lit ''license'' then Inr (m\<lparr>mf_license := Some (strip_toml_string val)\<rparr>)
         else Inr m)
      else if section = Some (lit ''dependencies'') then
        Inr (m\<lparr>mf_deps := AList.update key (parse_dep_entry val) (mf_deps m)\<rparr>)
      else if section = Some (lit ''dev-dependencies'') then
        Inr (m\<lparr>mf_dev_deps := AList.update key (parse_dep_entry val) (mf_dev_deps m)\<rparr>)
      else Inr m)"

definition manifest_line :: "ustr \<Rightarrow> toml_state \<Rightarrow> manifest_error + toml_state" where
  "manifest_line ln st =
     (let ln = trim_ws ln; (m, section, sub) = st in
      if ln = [] \<or> starts_with ln (lit ''#'') then Inr st
      else if starts_with ln (lit ''['') \<and> ends_with ln (lit '']'')
        then Inr (m, Some (butlast (tl ln)), None)
      else if starts_with ln (lit ''['') then
        (case split_at_char (uc CHR '']'') ln of
           None \<Rightarrow> Inl BadSubsection
         | Some (a, _) \<Rightarrow> Inr (m, section, Some (tl a)))
      else
        (case split_at_char (uc CHR ''='') ln of
           None \<Rightarrow> Inr st
         | Some (key, val) \<Rightarrow>
             map_sum id (\<lambda>m'. (m', section, sub)) (manifest_entry section (trim_ws key) (trim_ws val) m)))"

fun manifest_lines :: "ustr list \<Rightarrow> toml_state \<Rightarrow> manifest_error + toml_state" where
  "manifest_lines [] st = Inr st"
| "manifest_lines (l # ls) st =
     (case manifest_line l st of Inl e \<Rightarrow> Inl e | Inr st' \<Rightarrow> manifest_lines ls st')"

definition parse_package_manifest :: "ustr \<Rightarrow> manifest_error + Manifest" where
  "parse_package_manifest content =
     (case manifest_lines (text_lines content) (manifest_new, None, None) of
        Inl e \<Rightarrow> Inl e
      | Inr (m, _) \<Rightarrow> if mf_name m = [] then Inl NoName else Inr m)"

subsection \<open>Choosing versions\<close>

record PackageInfo =
  pi_name :: ustr
  pi_description :: "ustr option"
  pi_available_versions :: "PkgVersion list"
  pi_homepage :: "ustr option"

record PkgGraph =
  pg_packages :: "(ustr \<times> PackageInfo) list"
  pg_resolved :: "(ustr \<times> PkgVersion) list"

definition pkg_graph_new :: PkgGraph where
  "pkg_graph_new = \<lparr>pg_packages = [], pg_resolved = []\<rparr>"

definition add_package :: "ustr \<Rightarrow> PackageInfo \<Rightarrow> PkgGraph \<Rightarrow> PkgGraph" where
  "add_package name info g = g\<lparr>pg_packages := AList.update name info (pg_packages g)\<rparr>"

datatype resolve_error = VersionConflict ustr PkgVersion PkgVersion | NoVersion ustr

text \<open>The versions resolved so far, and the packages left, in the order of the hash map.\<close>

fun resolve_packages ::
  "(ustr \<times> PackageInfo) list \<Rightarrow> (ustr \<times> PkgVersion) list \<Rightarrow> (resolve_error option) \<times> (ustr \<times> PkgVersion) list" where
  "resolve_packages [] resolved = (None, resolved)"
| "resolve_packages ((name, info) # pkgs) resolved =
     (case map_of resolved name of
        Some existing \<Rightarrow>
          if existing \<in> set (pi_available_versions info) then resolve_packages pkgs resolved
          else (Some (VersionConflict name
                 (case pi_available_versions info of v # _ \<Rightarrow> v | [] \<Rightarrow> PkgVersion 0 0 0) existing), resolved)
      | None \<Rightarrow>
          (case pi_available_versions info of
             [] \<Rightarrow> (Some (NoVersion name), resolved)
           | v # vs \<Rightarrow> resolve_packages pkgs (AList.update name (fold max vs v) resolved)))"

definition resolve_graph :: "PkgGraph \<Rightarrow> (resolve_error + (ustr \<times> PkgVersion) list) \<times> PkgGraph" where
  "resolve_graph g =
     (let (err, resolved) = resolve_packages (pg_packages g) [] in
      (case err of Some e \<Rightarrow> Inl e | None \<Rightarrow> Inr resolved, g\<lparr>pg_resolved := resolved\<rparr>))"

subsection \<open>The cache\<close>

record CachedPackage =
  cp_name :: ustr
  cp_version :: PkgVersion
  cp_cache_path :: ustr
  cp_downloaded_at :: "64 word"
  cp_content_hash :: ustr

record PackageManager =
  pm_cache_dir :: ustr
  pm_cached_packages :: "(ustr \<times> CachedPackage) list"
  pm_registry_url :: ustr
  pm_dev_mode :: bool

definition manager_new :: "ustr \<Rightarrow> ustr \<Rightarrow> PackageManager" where
  "manager_new cache_dir registry_url =
     \<lparr>pm_cache_dir = cache_dir, pm_cached_packages = [], pm_registry_url = registry_url, pm_dev_mode = False\<rparr>"

definition enable_dev_mode :: "PackageManager \<Rightarrow> PackageManager" where
  "enable_dev_mode pm = pm\<lparr>pm_dev_mode := True\<rparr>"

definition disable_dev_mode :: "PackageManager \<Rightarrow> PackageManager" where
  "disable_dev_mode pm = pm\<lparr>pm_dev_mode := False\<rparr>"

text \<open>The bytes of a character in UTF-8.\<close>

definition utf8_char :: "uchar \<Rightarrow> nat list" where
  "utf8_char c =
     (if c < 128 then [c]
      else if c < 2048 then [192 + c div 64, 128 + c mod 64]
      else if c < 65536 then [224 + c div 4096, 128 + c div 64 mod 64, 128 + c mod 64]
      else [240 + c div 262144, 128 + c div 4096 mod 64, 128 + c div 64 mod 64, 128 + c mod 64])"

definition hash_string :: "ustr \<Rightarrow> 64 word" where
  "hash_string s = foldl (\<lambda>h b. push_bit 5 h + h + of_nat b) 5381 (concat (map utf8_char s))"

definition package_key :: "ustr \<Rightarrow> PkgVersion \<Rightarrow> ustr" where
  "package_key name version = name @ lit ''@'' @ show_version version"

definition download_package :: "ustr \<Rightarrow> PkgVersion \<Rightarrow> PackageManager \<Rightarrow> CachedPackage \<times> PackageManager" where
  "download_package name version pm =
     (let pkg = \<lparr>cp_name = name, cp_version = version,
            cp_cache_path = pm_cache_dir pm @ lit ''/'' @ name @ lit ''/'' @ show_version version,
            cp_downloaded_at = 0, cp_content_hash = show_hex (unat (hash_string (package_key name version)))\<rparr> in
      (pkg, pm\<lparr>pm_cached_packages := AList.update (package_key name version) pkg (pm_cached_packages pm)\<rparr>))"

definition get_package :: "ustr \<Rightarrow> PkgVersion \<Rightarrow> PackageManager \<Rightarrow> CachedPackage \<times> PackageManager" where
  "get_package name version pm =
     (case map_of (pm_cached_packages pm) (package_key name version) of
        Some cached \<Rightarrow> (cached, pm)
      | None \<Rightarrow>
          if pm_dev_mode pm
          then (\<lparr>cp_name = name, cp_version = version, cp_cache_path = lit ''./dev/packages/'' @ name,
                 cp_downloaded_at = 0, cp_content_hash = lit ''dev-mode-hash''\<rparr>, pm)
          else download_package name version pm)"

definition list_cached :: "PackageManager \<Rightarrow> ustr list" where
  "list_cached pm = sort (map (\<lambda>(_, p). cp_name p @ lit '' v'' @ show_version (cp_version p)) (pm_cached_packages pm))"

text \<open>The current time is the constant 0; the subtraction from it saturates.\<close>

definition cache_age :: "CachedPackage \<Rightarrow> nat" where
  "cache_age pkg = 0 - unat (cp_downloaded_at pkg)"

definition clean_cache :: "64 word \<Rightarrow> PackageManager \<Rightarrow> nat \<times> PackageManager" where
  "clean_cache max_age_seconds pm =
     (let kept = filter (\<lambda>(_, pkg). cache_age pkg < unat max_age_seconds) (pm_cached_packages pm) in
      (length (pm_cached_packages pm) - length kept, pm\<lparr>pm_cached_packages := kept\<rparr>))"

end
