(* ===== verification/PackagesCorrect.thy ===== *)
theory PackagesCorrect
  imports Packages
begin

section \<open>Versions, dependencies and the cache\<close>

text \<open>
  Versions against their texts and their order, the choice of the latest versions, requirements that
  the manifest loses, and what a cache of packages holds.
\<close>

subsection \<open>Versions as texts\<close>

lemma show_u64_char: "c \<in> set (show_u64 w) \<Longrightarrow> is_ascii_digit c"
  using show_nat_digits[of "unat w"] by (auto simp: show_u64_def list_all_iff)

lemma show_u64_not_Nil [simp]: "show_u64 w \<noteq> []"
  using show_nat_digits[of "unat w"] by (simp add: show_u64_def)

lemma show_u64_plain: "46 \<notin> set (show_u64 w)" "64 \<notin> set (show_u64 w)"
  using show_u64_char[of 46 w] show_u64_char[of 64 w] by (auto simp: is_ascii_digit_def)

lemma parse_show_word_nat: "parse_u64 (show_nat (unat (w :: 64 word))) = Some (unat w)"
  using unsigned_less[of w, where 'a = nat] by (intro parse_show_u64) simp

lemma parse_show_word [simp]: "parse_word e (show_u64 w) = Inr w"
  using parse_show_word_nat[of w] by (simp add: parse_word_def show_u64_def)

lemma parse_patch_show [simp]: "parse_patch (show_u64 w) = w"
proof -
  have t: "takeWhile is_ascii_digit (show_u64 w) = show_u64 w"
    by (simp add: takeWhile_eq_all_conv show_u64_char)
  show ?thesis
    unfolding parse_patch_def t using parse_show_word_nat[of w] by (simp add: show_u64_def)
qed

lemma digit_not_white: "is_ascii_digit c \<Longrightarrow> \<not> is_white_space c"
  by (auto simp: is_ascii_digit_def is_white_space_def)

lemma trim_show_version: "trim_ws (show_version v) = show_version v"
proof (rule trim_ws_id)
  show "\<not> is_white_space (hd (show_version v))"
    using show_u64_char[of "hd (show_u64 (v_major v))" "v_major v"] by (simp add: show_version_def digit_not_white)
  show "\<not> is_white_space (last (show_version v))"
    using show_u64_char[of "last (show_u64 (v_patch v))" "v_patch v"] by (simp add: show_version_def digit_not_white)
qed

lemma split_show_version:
  "split_str (lit ''.'') (show_version v) = [show_u64 (v_major v), show_u64 (v_minor v), show_u64 (v_patch v)]"
  using show_u64_plain(1)
  by (simp add: show_version_def lit_def split_str_char split_at_char_app split_at_char_None)

lemma parse_show_version: "parse_version (show_version v) = Inr v"
  by (simp add: parse_version_def trim_show_version split_show_version)

text \<open>The text of a version reads back as the version.\<close>

theorem version_roundtrip: "parse_version (show_version v) = Inr v"
  by (rule parse_show_version)

subsection \<open>The order of versions\<close>

definition small_version :: "PkgVersion \<Rightarrow> bool" where
  "small_version v = (v_major v < 2 ^ 31 \<and> v_minor v < 2 ^ 31 \<and> v_patch v < 2 ^ 31)"

lemma as_i32_int: "as_i32 w = word_of_int (uint w)"
  unfolding as_i32_def by (rule ucast_eq)

lemma small_uint: "w < (2 ^ 31 :: 64 word) \<Longrightarrow> 0 \<le> uint w \<and> uint w < 2147483648"
  by (simp add: word_less_def)

lemma sint_i32: "- 2147483648 \<le> x \<Longrightarrow> x < 2147483648 \<Longrightarrow> sint (word_of_int x :: i32) = x"
  unfolding int_word_sint by simp

lemma i32_sub_small:
  assumes "a < 2 ^ 31" and "b < 2 ^ 31"
  shows "\<exists>d. i32_sub chk (as_i32 a) (as_i32 b) = Some d \<and> sint d = uint a - uint b"
proof -
  note u = assms[THEN small_uint]
  have "sint (word_of_int (uint a - uint b) :: i32) = uint a - uint b"
    by (rule sint_i32) (use u in linarith)+
  moreover have "sint (as_i32 a) = uint a" "sint (as_i32 b) = uint b"
    unfolding as_i32_int by (rule sint_i32; use u in linarith)+
  moreover have "as_i32 a - as_i32 b = word_of_int (uint a - uint b)"
    by (simp only: as_i32_int wi_hom_sub)
  ultimately show ?thesis by (simp add: i32_sub_def)
qed

lemma version_cmp_small:
  assumes "small_version a" and "small_version b"
  shows "map_option (\<lambda>d. 0 \<le> sint d) (version_cmp chk a b) = Some (b \<le> a)"
proof -
  obtain d1 d2 d3 where
    "i32_sub chk (as_i32 (v_major a)) (as_i32 (v_major b)) = Some d1" "sint d1 = uint (v_major a) - uint (v_major b)"
    "i32_sub chk (as_i32 (v_minor a)) (as_i32 (v_minor b)) = Some d2" "sint d2 = uint (v_minor a) - uint (v_minor b)"
    "i32_sub chk (as_i32 (v_patch a)) (as_i32 (v_patch b)) = Some d3" "sint d3 = uint (v_patch a) - uint (v_patch b)"
    using assms i32_sub_small unfolding small_version_def by metis
  then show ?thesis
    by (auto simp: version_cmp_def less_eq_PkgVersion_def word_less_def word_le_def word_uint_eq_iff)
qed

fun required :: "VersionRequirement \<Rightarrow> PkgVersion \<Rightarrow> bool" where
  "required (VExact r) v = (v = r)"
| "required (VEqualOrAbove r) v = (r \<le> v)"
| "required (VCaret r) v = (v_major v = v_major r \<and> r \<le> v)"
| "required (VTilde r) v = (v_major v = v_major r \<and> v_minor v = v_minor r \<and> r \<le> v)"
| "required VAny v = True"

fun small_requirement :: "VersionRequirement \<Rightarrow> bool" where
  "small_requirement VAny = True"
| "small_requirement (VExact r) = small_version r"
| "small_requirement (VEqualOrAbove r) = small_version r"
| "small_requirement (VCaret r) = small_version r"
| "small_requirement (VTilde r) = small_version r"

text \<open>
  C25: While no component reaches $2^{31}$, requirements mean what they say in the order of versions:
  a version satisfies \<open>>= r\<close> when it is \<open>r\<close> or later, \<open>^ r\<close> when it is so within the same major
  version, and \<open>~ r\<close> within the same minor version; and no comparison panics.
\<close>

theorem requirements_exact:
  assumes "small_version v" and "small_requirement req"
  shows "satisfies chk v req = Some (required req v)"
proof (cases req)
  case (VEqualOrAbove r)
  then show ?thesis using assms version_cmp_small[of v r chk] by simp
next
  case (VCaret r)
  then show ?thesis using assms version_cmp_small[of v r chk] by simp
qed (auto simp: less_eq_PkgVersion_def)

theorem requirements_exact_witness:
  "satisfies True (PkgVersion 1 10 0) (VCaret (PkgVersion 1 9 5)) = Some True \<and>
   satisfies True (PkgVersion 2 0 0) (VTilde (PkgVersion 2 0 1)) = Some False"
  using requirements_exact[of "PkgVersion 1 10 0" "VCaret (PkgVersion 1 9 5)" True]
    requirements_exact[of "PkgVersion 2 0 0" "VTilde (PkgVersion 2 0 1)" True]
  by (simp add: small_version_def less_eq_PkgVersion_def)

text \<open>Beyond that the casts lose the order, or the subtraction panics.\<close>

lemma large_versions_misordered:
  "satisfies False (PkgVersion 4294967296 0 0) (VEqualOrAbove (PkgVersion 1 0 0)) = Some False"
  "satisfies True (PkgVersion 2147483648 0 0) (VEqualOrAbove (PkgVersion 1 0 0)) = None"
  by code_simp+

subsection \<open>Choosing versions\<close>

lemma latest_is_Max: "fold max vs v = Max (set (v # vs))"
  by (simp only: Max.set_eq_fold)

lemma update_fresh: "map_of al k = None \<Longrightarrow> AList.update k v al = al @ [(k, v)]"
  by (induction al) (auto split: if_splits)

lemma resolve_packages_latest:
  "distinct (map fst pkgs) \<Longrightarrow> fst ` set pkgs \<inter> fst ` set resolved = {} \<Longrightarrow>
   resolve_packages pkgs resolved =
     (let ok = takeWhile (\<lambda>(_, info). pi_available_versions info \<noteq> []) pkgs in
      (case drop (length ok) pkgs of [] \<Rightarrow> None | (name, _) # _ \<Rightarrow> Some (NoVersion name),
       resolved @ map (\<lambda>(name, info). (name, Max (set (pi_available_versions info)))) ok))"
proof (induction pkgs resolved rule: resolve_packages.induct)
  case (2 name info pkgs resolved)
  have n: "map_of resolved name = None"
    using "2.prems" by (auto simp: map_of_eq_None_iff)
  show ?case
  proof (cases "pi_available_versions info")
    case (Cons v vs)
    have u: "AList.update name (fold max vs v) resolved = resolved @ [(name, Max (set (v # vs)))]"
      using n by (simp add: latest_is_Max update_fresh)
    have d: "distinct (map fst pkgs)" "fst ` set pkgs \<inter> fst ` set (AList.update name (fold max vs v) resolved) = {}"
      using "2.prems" unfolding u by auto
    show ?thesis
      using "2.IH"(1)[OF n Cons d] n Cons by (simp add: u Let_def)
  qed (simp add: n)
qed simp


text \<open>
  Every package resolves to the greatest of its versions, in the order of the packages; the only
  failure is the first package without a version. The conflict of versions that the code looks for
  cannot happen, since no name is met twice.
\<close>

theorem latest_versions_chosen:
  assumes "distinct (map fst (pg_packages g))"
  shows "fst (resolve_graph g) =
    (case filter (\<lambda>(_, info). pi_available_versions info = []) (pg_packages g) of
       (name, _) # _ \<Rightarrow> Inl (NoVersion name)
     | [] \<Rightarrow> Inr (map (\<lambda>(name, info). (name, Max (set (pi_available_versions info)))) (pg_packages g)))"
proof -
  let ?ok = "\<lambda>(_, info). pi_available_versions info \<noteq> []"
  have r: "resolve_packages (pg_packages g) [] =
     (let ok = takeWhile ?ok (pg_packages g) in
      (case drop (length ok) (pg_packages g) of [] \<Rightarrow> None | (name, _) # _ \<Rightarrow> Some (NoVersion name),
       map (\<lambda>(name, info). (name, Max (set (pi_available_versions info)))) ok))"
    using resolve_packages_latest[OF assms, of "[]"] by simp
  have f: "filter (\<lambda>(_, info). pi_available_versions info = []) xs =
      (case dropWhile ?ok xs of [] \<Rightarrow> [] | p # ps \<Rightarrow> p # filter (\<lambda>(_, info). pi_available_versions info = []) ps)"
    for xs :: "(ustr \<times> PackageInfo) list"
    by (induction xs) auto
  show ?thesis
  proof (cases "dropWhile ?ok (pg_packages g)")
    case Nil
    then have "takeWhile ?ok (pg_packages g) = pg_packages g"
      by (simp only: dropWhile_eq_Nil_conv takeWhile_eq_all_conv)
    with Nil show ?thesis
      by (subst f) (simp add: resolve_graph_def r dropWhile_eq_drop[symmetric] Let_def del: dropWhile_eq_Nil_conv takeWhile_eq_all_conv)
  next
    case (Cons p ps)
    then show ?thesis
      by (subst f) (simp add: resolve_graph_def r dropWhile_eq_drop[symmetric] Let_def split: prod.split del: dropWhile_eq_Nil_conv)
  qed
qed

definition two_packages :: PkgGraph where
  "two_packages = add_package (lit ''json'') \<lparr>pi_name = lit ''json'', pi_description = None,
       pi_available_versions = [PkgVersion 1 2 0, PkgVersion 1 10 0], pi_homepage = None\<rparr>
     (add_package (lit ''http'') \<lparr>pi_name = lit ''http'', pi_description = None,
       pi_available_versions = [PkgVersion 0 9 1], pi_homepage = None\<rparr> pkg_graph_new)"

theorem latest_versions_chosen_witness:
  "fst (resolve_graph two_packages) = Inr [(lit ''http'', PkgVersion 0 9 1), (lit ''json'', PkgVersion 1 10 0)]"
proof -
  have p: "pg_packages two_packages = [(lit ''http'', \<lparr>pi_name = lit ''http'', pi_description = None,
       pi_available_versions = [PkgVersion 0 9 1], pi_homepage = None\<rparr>),
      (lit ''json'', \<lparr>pi_name = lit ''json'', pi_description = None,
       pi_available_versions = [PkgVersion 1 2 0, PkgVersion 1 10 0], pi_homepage = None\<rparr>)]"
    by (simp add: two_packages_def add_package_def pkg_graph_new_def lit_def)
  then have "distinct (map fst (pg_packages two_packages))" by (simp add: lit_def)
  from latest_versions_chosen[OF this] show ?thesis
    by (simp add: p max_def less_eq_PkgVersion_def)
qed

subsection \<open>Requirements in the manifest\<close>

lemma split_str_none: "c \<notin> set s \<Longrightarrow> split_str [c] s = [s]"
  by (simp add: split_str_char split_at_char_None)

lemma trim_ws_hd: "\<not> is_white_space c \<Longrightarrow> \<exists>r. trim_ws (c # s) = c # r"
proof -
  assume c: "\<not> is_white_space c"
  then have "dropWhile is_white_space (rev s @ [c]) \<noteq> []"
    by (auto simp: dropWhile_append)
  moreover have "dropWhile is_white_space (rev s @ [c]) = dropWhile is_white_space (rev s) @ [c]"
    using c by (auto simp: dropWhile_append)
  ultimately show ?thesis using c by (simp add: trim_ws_def)
qed

lemma entry_part_quoted:
  assumes "uc CHR ''='' \<notin> set op_text"
  shows "entry_part (34 # op_text @ uc CHR ''='' # ver @ [34]) entry = entry"
proof -
  have t: "trim_ws (34 # op_text @ uc CHR ''='' # ver @ [34]) = 34 # op_text @ uc CHR ''='' # ver @ [34]"
    by (rule trim_ws_id) (simp_all add: is_white_space_def)
  have "split_at_char (uc CHR ''='') (34 # op_text @ uc CHR ''='' # ver @ [34]) = Some (34 # op_text, ver @ [34])"
    using split_at_char_app[of "uc CHR ''=''" "34 # op_text"] assms by simp
  moreover obtain r where "trim_ws (34 # op_text) = 34 # r"
    using trim_ws_hd[of 34 op_text] by (auto simp: is_white_space_def)
  ultimately show ?thesis unfolding entry_part_def t by (simp add: lit_def)
qed

text \<open>
  C29: A quoted requirement with a comparison is lost. The value of a dependency that contains an
  equals sign is read as an inline table, so \<open>">=1.2.0"\<close> and every requirement of this shape becomes
  the default entry, any version at all.
\<close>

theorem comparisons_lost:
  assumes "uc CHR ''='' \<notin> set op_text" and "uc CHR '','' \<notin> set (op_text @ ver)"
  shows "parse_dep_entry (34 # op_text @ uc CHR ''='' # ver @ [34]) = default_entry"
proof -
  let ?v = "34 # op_text @ uc CHR ''='' # ver @ [34]"
  have "trim_ws ?v = ?v" by (rule trim_ws_id) (simp_all add: is_white_space_def)
  moreover have "split_str [uc CHR '',''] ?v = [?v]"
    by (rule split_str_none) (use assms(2) in simp)
  ultimately show ?thesis
    using entry_part_quoted[OF assms(1)] by (simp add: parse_dep_entry_def lit_def Let_def)
qed

theorem comparisons_lost_witness:
  "parse_dep_entry (34 # lit ''>=1.2.0'' @ [34]) = default_entry"
  using comparisons_lost[of "lit ''>''" "lit ''1.2.0''"] by (simp add: lit_def)

subsection \<open>The cache\<close>

text \<open>The managers that the operations reach from a new one.\<close>

inductive managed :: "PackageManager \<Rightarrow> bool" where
  managed_new: "managed (manager_new dir url)"
| managed_get: "managed pm \<Longrightarrow> managed (snd (get_package name v pm))"
| managed_clean: "managed pm \<Longrightarrow> managed (snd (clean_cache n pm))"
| managed_dev: "managed pm \<Longrightarrow> managed (enable_dev_mode pm)"
| managed_remote: "managed pm \<Longrightarrow> managed (disable_dev_mode pm)"

definition cache_ok :: "PackageManager \<Rightarrow> bool" where
  "cache_ok pm = (distinct (map fst (pm_cached_packages pm)) \<and>
     (\<forall>(key, p) \<in> set (pm_cached_packages pm).
        key = package_key (cp_name p) (cp_version p) \<and> cp_downloaded_at p = 0))"

lemma set_update: "set (AList.update k v al) \<subseteq> insert (k, v) (set al)"
  by (induction al) auto

lemma cache_ok_download: "cache_ok pm \<Longrightarrow> cache_ok (snd (download_package name v pm))"
  using set_update[of "package_key name v"]
  by (auto simp: cache_ok_def download_package_def Let_def distinct_update dest!: subsetD[OF set_update])

lemma managed_ok: "managed pm \<Longrightarrow> cache_ok pm"
proof (induction rule: managed.induct)
  case (managed_get pm name v)
  then show ?case using cache_ok_download by (auto simp: get_package_def split: option.split)
next
  case (managed_clean pm n)
  then show ?case by (auto simp: cache_ok_def clean_cache_def Let_def distinct_map_filter)
qed (auto simp: cache_ok_def manager_new_def enable_dev_mode_def disable_dev_mode_def)

lemma show_version_plain: "64 \<notin> set (show_version v)"
  using show_u64_plain(2) by (auto simp: show_version_def lit_def)

lemma last_part_unique:
  fixes c :: uchar
  assumes "c \<notin> set a" and "c \<notin> set b" and "xs @ c # a = ys @ c # b"
  shows "xs = ys \<and> a = b"
proof -
  have e: "rev a @ c # rev xs = rev b @ c # rev ys"
    using arg_cong[OF assms(3), of rev] by simp
  have "split_at_char c (rev a @ c # rev xs) = Some (rev a, rev xs)"
      "split_at_char c (rev b @ c # rev ys) = Some (rev b, rev ys)"
    by (rule split_at_char_app; simp add: assms(1,2))+
  then have "Some (rev a, rev xs) = Some (rev b, rev ys)"
    unfolding e by (rule trans[OF sym])
  then show ?thesis by simp
qed

lemma show_version_inj: "show_version v = show_version w \<Longrightarrow> v = w"
  by (drule arg_cong[of _ _ parse_version]) (simp only: parse_show_version sum.inject)

lemma package_key_inj: "package_key n v = package_key m w \<Longrightarrow> n = m \<and> v = w"
  using last_part_unique[OF show_version_plain show_version_plain, of n v m w] show_version_inj[of v w]
  by (simp add: package_key_def lit_def)

text \<open>
  A manager hands out the package it is asked for, whatever was fetched before: name and version
  are the requested ones, and asking again gives the same package and changes nothing.
\<close>

theorem requested_package:
  assumes "managed pm"
  shows "case get_package name v pm of (p, pm') \<Rightarrow>
    cp_name p = name \<and> cp_version p = v \<and> get_package name v pm' = (p, pm')"
proof (cases "map_of (pm_cached_packages pm) (package_key name v)")
  case None
  then show ?thesis by (simp add: get_package_def download_package_def Let_def update_conv')
next
  case (Some p)
  then have "(package_key name v, p) \<in> set (pm_cached_packages pm)" by (rule map_of_SomeD)
  with managed_ok[OF assms] have "package_key name v = package_key (cp_name p) (cp_version p)"
    by (auto simp: cache_ok_def)
  with Some package_key_inj[OF this] show ?thesis by (simp add: get_package_def)
qed

theorem requested_package_witness:
  "cp_name (fst (get_package (lit ''json'') (PkgVersion 1 2 0) (manager_new [] []))) = lit ''json''"
  using requested_package[OF managed_new, of "lit ''json''" "PkgVersion 1 2 0" "[]" "[]"] by (auto split: prod.splits)

text \<open>
  Nothing in the cache ever expires. Every entry is dated 0 and so is the present, so a cleaning
  with any age but 0 keeps the whole cache, and one with age 0 empties it.
\<close>

theorem cache_never_expires:
  assumes "managed pm"
  shows "clean_cache n pm =
    (if n = 0 then (length (pm_cached_packages pm), pm\<lparr>pm_cached_packages := []\<rparr>) else (0, pm))"
proof -
  have "cache_age p = 0" if "(key, p) \<in> set (pm_cached_packages pm)" for key p
    using that managed_ok[OF assms] by (auto simp: cache_ok_def cache_age_def)
  then have "filter (\<lambda>(_, pkg). cache_age pkg < unat n) (pm_cached_packages pm) =
      (if n = 0 then [] else pm_cached_packages pm)"
    by (auto simp: filter_id_conv filter_empty_conv unat_gt_0)
  then show ?thesis by (simp add: clean_cache_def)
qed

theorem cache_never_expires_witness:
  "fst (clean_cache 3600 (snd (get_package (lit ''json'') (PkgVersion 1 2 0) (manager_new [] [])))) = 0"
  using cache_never_expires[OF managed_get[OF managed_new], of 3600 "lit ''json''" "PkgVersion 1 2 0" "[]" "[]"] by simp

end
