(* ===== verification/ManifestText.thy ===== *)
theory ManifestText
  imports PackagesCorrect
begin

section \<open>Writing and reading a manifest\<close>

text \<open>
  The text of a manifest with a name, a version, an edition and its dependencies, and what the reader
  makes of it line by line.
\<close>

definition toml_key :: "ustr \<Rightarrow> bool" where
  "toml_key k = (k \<noteq> [] \<and> hd k \<noteq> uc CHR ''#'' \<and> hd k \<noteq> uc CHR ''['' \<and>
     list_all (\<lambda>c. c \<noteq> uc CHR ''='' \<and> \<not> is_white_space c) k)"

definition toml_value :: "ustr \<Rightarrow> bool" where
  "toml_value v = (10 \<notin> set v \<and> 34 \<notin> set v)"

definition assignment :: "ustr \<Rightarrow> ustr \<Rightarrow> ustr" where
  "assignment k v = k @ lit '' = '' @ 34 # v @ [34]"

definition manifest_text ::
  "ustr \<Rightarrow> PkgVersion \<Rightarrow> ustr \<Rightarrow> (ustr \<times> ustr) list \<Rightarrow> (ustr \<times> ustr) list \<Rightarrow> ustr list" where
  "manifest_text name version edition deps dev_deps =
     [lit ''[package]'', assignment (lit ''name'') name, assignment (lit ''version'') (show_version version),
      assignment (lit ''edition'') edition, [], lit ''[dependencies]''] @
     map (\<lambda>(k, v). assignment k v) deps @ [[], lit ''[dev-dependencies]''] @
     map (\<lambda>(k, v). assignment k v) dev_deps"

definition as_text :: "ustr list \<Rightarrow> ustr" where
  "as_text ls = concat (map (\<lambda>l. l @ [10]) ls)"

definition plain_line :: "ustr \<Rightarrow> bool" where
  "plain_line l = (10 \<notin> set l \<and> (l = [] \<or> last l \<noteq> 13))"

lemma text_lines_as_text: "list_all plain_line ls \<Longrightarrow> text_lines (as_text ls) = ls"
proof (induction ls)
  case (Cons l ls)
  then have "strip_cr l = l" by (cases "l = []") (simp_all add: strip_cr_def plain_line_def)
  with Cons show ?case by (simp add: as_text_def text_lines_line plain_line_def)
qed (simp add: as_text_def)

lemma trim_ws_ends:
  "\<not> is_white_space a \<Longrightarrow> \<not> is_white_space b \<Longrightarrow> trim_ws (a # s @ [b]) = a # s @ [b]"
  by (rule trim_ws_id) simp_all

lemma trim_assignment:
  assumes "toml_key k"
  shows "trim_ws (assignment k v) = assignment k v"
proof -
  obtain a k' where k: "k = a # k'" "\<not> is_white_space a" using assms by (cases k) (auto simp: toml_key_def)
  then show ?thesis
    using trim_ws_ends[of a 34 "k' @ lit '' = '' @ 34 # v"] by (simp add: assignment_def is_white_space_def)
qed

lemma trim_key: "toml_key k \<Longrightarrow> trim_ws (k @ [32]) = k"
  and trim_quoted: "trim_ws (32 # 34 # v @ [34]) = 34 # v @ [34]"
proof -
  assume "toml_key k"
  then have k: "k \<noteq> []" "\<And>c. c \<in> set k \<Longrightarrow> \<not> is_white_space c" by (auto simp: toml_key_def list_all_iff)
  then have "dropWhile is_white_space (k @ [32]) = k @ [32]" "dropWhile is_white_space (rev k) = rev k"
    by (auto simp: dropWhile_eq_self_iff hd_append hd_rev)
  then show "trim_ws (k @ [32]) = k" by (simp add: trim_ws_def is_white_space_def[of 32])
next
  show "trim_ws (32 # 34 # v @ [34]) = 34 # v @ [34]" by (simp add: trim_ws_def is_white_space_def)
qed

lemma strip_quoted: "toml_value v \<Longrightarrow> strip_toml_string (34 # v @ [34]) = v"
proof -
  assume "toml_value v"
  then have "dropWhile (\<lambda>x. x = 34) v = v" "dropWhile (\<lambda>x. x = 34) (rev v) = rev v"
    "\<And>s. dropWhile (\<lambda>x. x = 34) (v @ s) = (if v = [] then dropWhile (\<lambda>x. x = 34) s else v @ s)"
    by (auto simp: toml_value_def dropWhile_eq_self_iff hd_rev dest: hd_in_set last_in_set)
  then show ?thesis
    by (simp add: strip_toml_string_def trim_char_def trim_start_char_def trim_end_char_def)
qed

lemma manifest_assignment:
  assumes "toml_key k"
  shows "manifest_line (assignment k v) (m, section, sub) =
    map_sum id (\<lambda>m'. (m', section, sub)) (manifest_entry section k (34 # v @ [34]) m)"
proof -
  obtain a k' where k: "k = a # k'" "a \<noteq> uc CHR ''#''" "a \<noteq> uc CHR ''[''"
    using assms by (cases k) (auto simp: toml_key_def)
  have "uc CHR ''='' \<notin> set (k @ [32])" using assms by (auto simp: toml_key_def list_all_iff)
  from split_at_char_app[OF this, of "32 # 34 # v @ [34]"]
  have "split_at_char (uc CHR ''='') (assignment k v) = Some (k @ [32], 32 # 34 # v @ [34])"
    by (simp add: assignment_def lit_def)
  moreover have "\<not> starts_with (assignment k v) (lit ''#'')" "\<not> starts_with (assignment k v) (lit ''['')"
      "assignment k v \<noteq> []"
    using k by (auto simp: assignment_def starts_with_def lit_def)
  ultimately show ?thesis
    using assms by (simp add: manifest_line_def trim_assignment trim_key trim_quoted)
qed

lemma manifest_header:
  "list_all (\<lambda>c. \<not> is_white_space c) s \<Longrightarrow>
   manifest_line (91 # s @ [93]) (m, section, sub) = Inr (m, Some s, None)"
  using trim_ws_ends[of 91 93 s]
  by (simp add: manifest_line_def is_white_space_def starts_with_def ends_with_def lit_def butlast_append)

lemma manifest_blank: "manifest_line [] st = Inr st"
  by (cases st) (simp add: manifest_line_def trim_ws_def)

lemma dep_entry_quoted:
  assumes "toml_value v" and "uc CHR ''='' \<notin> set v"
  shows "parse_dep_entry (34 # v @ [34]) = default_entry\<lparr>dep_version := v\<rparr>"
  using assms trim_ws_ends[of 34 34 v] strip_quoted[of v]
  by (simp add: parse_dep_entry_def is_white_space_def)

definition plain_deps :: "(ustr \<times> ustr) list \<Rightarrow> bool" where
  "plain_deps deps = (distinct (map fst deps) \<and>
     list_all (\<lambda>(k, v). toml_key k \<and> toml_value v \<and> uc CHR ''='' \<notin> set v) deps)"

definition entries :: "(ustr \<times> ustr) list \<Rightarrow> (ustr \<times> DependencyEntry) list" where
  "entries deps = map (\<lambda>(k, v). (k, default_entry\<lparr>dep_version := v\<rparr>)) deps"

lemma manifest_dep:
  assumes "toml_key k" "toml_value v" "uc CHR ''='' \<notin> set v"
  shows "manifest_line (assignment k v) (m, Some (lit ''dependencies''), sub) =
      Inr (m\<lparr>mf_deps := AList.update k (default_entry\<lparr>dep_version := v\<rparr>) (mf_deps m)\<rparr>, Some (lit ''dependencies''), sub)"
    and "manifest_line (assignment k v) (m, Some (lit ''dev-dependencies''), sub) =
      Inr (m\<lparr>mf_dev_deps := AList.update k (default_entry\<lparr>dep_version := v\<rparr>) (mf_dev_deps m)\<rparr>, Some (lit ''dev-dependencies''), sub)"
  using assms by (simp_all add: manifest_assignment manifest_entry_def dep_entry_quoted lit_def)

lemma manifest_lines_append:
  "manifest_lines (xs @ ys) st = (case manifest_lines xs st of Inl e \<Rightarrow> Inl e | Inr st' \<Rightarrow> manifest_lines ys st')"
  by (induction xs arbitrary: st) (auto split: sum.split)

lemma manifest_deps:
  assumes "plain_deps deps" and "fst ` set deps \<inter> fst ` set (mf_deps m) = {}"
  shows "manifest_lines (map (\<lambda>(k, v). assignment k v) deps) (m, Some (lit ''dependencies''), sub) =
    Inr (m\<lparr>mf_deps := mf_deps m @ entries deps\<rparr>, Some (lit ''dependencies''), sub)"
  using assms
proof (induction deps arbitrary: m)
  case (Cons d deps)
  obtain k v where d: "d = (k, v)" by (cases d)
  have p: "plain_deps deps" "k \<notin> fst ` set deps" "toml_key k" "toml_value v" "uc CHR ''='' \<notin> set v"
    using Cons.prems(1) d by (auto simp: plain_deps_def)
  have u: "AList.update k w (mf_deps m) = mf_deps m @ [(k, w)]" for w
    using Cons.prems(2) d by (intro update_fresh) (auto simp: map_of_eq_None_iff)
  show ?case
    using Cons.IH[of "m\<lparr>mf_deps := mf_deps m @ [(k, default_entry\<lparr>dep_version := v\<rparr>)]\<rparr>"] Cons.prems p
    by (auto simp: d u manifest_dep entries_def)
qed (simp add: entries_def)

lemma manifest_dev_deps:
  assumes "plain_deps deps" and "fst ` set deps \<inter> fst ` set (mf_dev_deps m) = {}"
  shows "manifest_lines (map (\<lambda>(k, v). assignment k v) deps) (m, Some (lit ''dev-dependencies''), sub) =
    Inr (m\<lparr>mf_dev_deps := mf_dev_deps m @ entries deps\<rparr>, Some (lit ''dev-dependencies''), sub)"
  using assms
proof (induction deps arbitrary: m)
  case (Cons d deps)
  obtain k v where d: "d = (k, v)" by (cases d)
  have p: "plain_deps deps" "k \<notin> fst ` set deps" "toml_key k" "toml_value v" "uc CHR ''='' \<notin> set v"
    using Cons.prems(1) d by (auto simp: plain_deps_def)
  have u: "AList.update k w (mf_dev_deps m) = mf_dev_deps m @ [(k, w)]" for w
    using Cons.prems(2) d by (intro update_fresh) (auto simp: map_of_eq_None_iff)
  show ?case
    using Cons.IH[of "m\<lparr>mf_dev_deps := mf_dev_deps m @ [(k, default_entry\<lparr>dep_version := v\<rparr>)]\<rparr>"] Cons.prems p
    by (auto simp: d u manifest_dep entries_def)
qed (simp add: entries_def)

lemma manifest_package:
  assumes "toml_value name" and "toml_value edition"
  shows "manifest_lines [lit ''[package]'', assignment (lit ''name'') name,
      assignment (lit ''version'') (show_version version), assignment (lit ''edition'') edition, [],
      lit ''[dependencies]''] (m, section, sub) =
    Inr (m\<lparr>mf_name := name, mf_version := version, mf_edition := edition\<rparr>, Some (lit ''dependencies''), None)"
proof -
  have h: "manifest_line (lit ''[package]'') st = Inr (fst st, Some (lit ''package''), None)"
      "manifest_line (lit ''[dependencies]'') st = Inr (fst st, Some (lit ''dependencies''), None)" for st
    using manifest_header[of "lit ''package''" "fst st" "fst (snd st)" "snd (snd st)"]
      manifest_header[of "lit ''dependencies''" "fst st" "fst (snd st)" "snd (snd st)"]
    by (simp_all add: lit_def is_white_space_def)
  have k: "toml_key (lit ''name'')" "toml_key (lit ''version'')" "toml_key (lit ''edition'')"
    by (simp_all add: toml_key_def lit_def is_white_space_def)
  have v: "toml_value (show_version version)"
    using show_u64_char[of 10] show_u64_char[of 34]
    by (auto simp: toml_value_def show_version_def lit_def is_ascii_digit_def)
  note a = manifest_assignment[OF k(1)] manifest_assignment[OF k(2)] manifest_assignment[OF k(3)]
  show ?thesis
    by (simp add: h a manifest_entry_def strip_quoted assms v parse_show_version manifest_blank)
      (simp add: lit_def)
qed

lemma manifest_text_lines:
  assumes "toml_value name" "toml_value edition" "plain_deps deps" "plain_deps dev_deps"
  shows "manifest_lines (manifest_text name version edition deps dev_deps) (manifest_new, None, None) =
    Inr (manifest_new\<lparr>mf_name := name, mf_version := version, mf_edition := edition,
        mf_deps := entries deps, mf_dev_deps := entries dev_deps\<rparr>, Some (lit ''dev-dependencies''), None)"
proof -
  have "manifest_line (lit ''[dev-dependencies]'') st = Inr (fst st, Some (lit ''dev-dependencies''), None)" for st
    using manifest_header[of "lit ''dev-dependencies''" "fst st" "fst (snd st)" "snd (snd st)"]
    by (simp add: lit_def is_white_space_def)
  then show ?thesis
    unfolding manifest_text_def manifest_lines_append manifest_package[OF assms(1,2)]
    using manifest_deps[OF assms(3), of "manifest_new\<lparr>mf_name := name, mf_version := version, mf_edition := edition\<rparr>"]
      manifest_dev_deps[OF assms(4), of "manifest_new\<lparr>mf_name := name, mf_version := version, mf_edition := edition,
        mf_deps := entries deps\<rparr>"]
    by (simp add: manifest_blank manifest_new_def)
qed

lemma key_no_newline: "toml_key k \<Longrightarrow> 10 \<notin> set k"
proof -
  have "is_white_space 10" by (simp add: is_white_space_def)
  then show "toml_key k \<Longrightarrow> 10 \<notin> set k" by (auto simp: toml_key_def list_all_iff)
qed

lemma assignment_line: "toml_key k \<Longrightarrow> toml_value v \<Longrightarrow> plain_line (assignment k v)"
  by (auto simp: plain_line_def assignment_def lit_def toml_value_def dest: key_no_newline)

lemma manifest_text_plain:
  assumes "toml_value name" "toml_value edition" "plain_deps deps" "plain_deps dev_deps"
  shows "list_all plain_line (manifest_text name version edition deps dev_deps)"
proof -
  have k: "toml_key (lit ''name'')" "toml_key (lit ''version'')" "toml_key (lit ''edition'')"
    by (simp_all add: toml_key_def lit_def is_white_space_def)
  have v: "toml_value (show_version version)"
    using show_u64_char[of 10] show_u64_char[of 34]
    by (auto simp: toml_value_def show_version_def lit_def is_ascii_digit_def)
  have d: "list_all plain_line (map (\<lambda>(k, v). assignment k v) ds)" if "plain_deps ds" for ds
    using that by (auto simp: plain_deps_def list_all_iff intro: assignment_line)
  have h: "plain_line []" "plain_line (lit ''[package]'')" "plain_line (lit ''[dependencies]'')"
      "plain_line (lit ''[dev-dependencies]'')"
    by (simp_all add: plain_line_def lit_def)
  show ?thesis
    unfolding manifest_text_def list_all_append
    by (simp only: list.pred_inject h d[OF assms(3)] d[OF assms(4)] assignment_line[OF k(1) assms(1)]
        assignment_line[OF k(2) v] assignment_line[OF k(3) assms(2)] simp_thms)
qed

text \<open>
  C23: A manifest of plain dependencies reads back. From its text the reader recovers name, version and
  edition, and the dependencies and development dependencies with their versions in order. Plain means:
  each list names a dependency once, by a name that can be written as a key without quotes; no value
  holds a quote or a line end; and no version of a dependency holds an equals sign, so that \<open>>=1.2.0\<close> is
  excluded: the reader takes such a value for an inline table.
\<close>

theorem manifest_roundtrip:
  assumes "toml_value name" and "name \<noteq> []" and "toml_value edition" and "plain_deps deps" and "plain_deps dev_deps"
  shows "parse_package_manifest (as_text (manifest_text name version edition deps dev_deps)) =
    Inr (manifest_new\<lparr>mf_name := name, mf_version := version, mf_edition := edition,
      mf_deps := entries deps, mf_dev_deps := entries dev_deps\<rparr>)"
  using assms
  by (simp add: parse_package_manifest_def text_lines_as_text manifest_text_plain manifest_text_lines)

theorem manifest_roundtrip_witness:
  "map_sum id mf_deps (parse_package_manifest (as_text (manifest_text (lit ''app'') (PkgVersion 1 2 3)
      (lit ''2024'') [(lit ''json'', lit ''^1.0'')] []))) =
   Inr [(lit ''json'', default_entry\<lparr>dep_version := lit ''^1.0''\<rparr>)]"
proof -
  have "plain_deps [(lit ''json'', lit ''^1.0'')]" "plain_deps []" "toml_value (lit ''app'')" "toml_value (lit ''2024'')"
    by (simp_all add: plain_deps_def toml_key_def toml_value_def lit_def is_white_space_def)
  then show ?thesis
    using manifest_roundtrip[of "lit ''app''" "lit ''2024''" "[(lit ''json'', lit ''^1.0'')]" "[]" "PkgVersion 1 2 3"]
    by (simp add: entries_def lit_def)
qed

end
