(* ===== verification/StdLoader.thy ===== *)
theory StdLoader
  imports CompileCorrect ModuleSystem
begin

section \<open>The loader of the standard library (compiler/src/stdlib\_loader.rs)\<close>

text \<open>
  Modules are read from files, parsed, kept, and the modules they use are loaded in turn. The files
  are a parameter: what the path exists and holds, a text or an error of reading; they do not change
  while modules are loaded. Paths are texts. Messages are constructors with what they print. Maps are
  association lists without duplicate keys. The recursion over the modules that are used takes fuel,
  and \<open>None\<close> is fuel that ran out.
\<close>

type_synonym files = "ustr \<Rightarrow> (ustr + ustr) option"

subsection \<open>Configuration\<close>

record StdLibConfig =
  cf_path :: ustr
  cf_prelude :: "ustr list"

definition default_prelude :: "ustr list" where
  "default_prelude = [lit ''prelude'', lit ''core_types'']"

definition config_from_manifest :: "PackageManifest \<Rightarrow> StdLibConfig" where
  "config_from_manifest m = \<lparr>cf_path = (case pkg_stdlib_modules m of p # _ \<Rightarrow> p | [] \<Rightarrow> lit ''stdlib''),
     cf_prelude = default_prelude\<rparr>"

definition config_key :: "ustr \<Rightarrow> ustr \<Rightarrow> StdLibConfig \<Rightarrow> StdLibConfig" where
  "config_key key v cf =
     (if key = lit ''path'' then cf\<lparr>cf_path := v\<rparr>
      else if key = lit ''prelude'' then cf\<lparr>cf_prelude := map trim_ws (split_str (lit '','') v)\<rparr> else cf)"

text \<open>The loop over the lines, with whether the section is open.\<close>

fun config_lines :: "bool \<Rightarrow> ustr list \<Rightarrow> StdLibConfig \<Rightarrow> StdLibConfig" where
  "config_lines inside [] cf = cf"
| "config_lines inside (l # ls) cf =
     (let t = trim_ws l in
      if t = lit ''[stdlib]'' then config_lines True ls cf
      else if starts_with t (lit ''['') \<and> ends_with t (lit '']'') then config_lines False ls cf
      else if \<not> inside then config_lines inside ls cf
      else (case split_at_char (uc CHR ''='') t of
              None \<Rightarrow> config_lines inside ls cf
            | Some (k, v) \<Rightarrow> config_lines inside ls (config_key (trim_ws k) (trim_char 34 (trim_ws v)) cf)))"

definition config_from_toml :: "ustr \<Rightarrow> ustr \<Rightarrow> StdLibConfig" where
  "config_from_toml content proj =
     (let cf = config_lines False (text_lines content) \<lparr>cf_path = lit ''stdlib'', cf_prelude = default_prelude\<rparr> in
      cf\<lparr>cf_path := path_join proj (cf_path cf)\<rparr>)"

text \<open>The path that another function reads from the same file.\<close>

fun stdlib_path_line :: "ustr list \<Rightarrow> ustr option" where
  "stdlib_path_line [] = None"
| "stdlib_path_line (l # ls) =
     (let t = trim_ws l in
      case (if starts_with t (lit ''stdlib_path'') \<or> starts_with t (lit ''stdlib'')
            then split_at_char (uc CHR ''='') t else None) of
        None \<Rightarrow> stdlib_path_line ls
      | Some (_, v) \<Rightarrow> Some (trim_char 34 (trim_ws v)))"

definition read_stdlib_path :: "files \<Rightarrow> ustr \<Rightarrow> ustr option" where
  "read_stdlib_path fs proj =
     (case fs (path_join proj (lit ''dalin.toml'')) of
        Some (Inr content) \<Rightarrow> stdlib_path_line (text_lines content)
      | _ \<Rightarrow> None)"

subsection \<open>The loader\<close>

datatype load_error =
  Unreadable ustr ustr | Circular ustr | NotLexedIn ustr LexerError | NotParsedIn ustr ParseError | NoDirectory ustr

record 'f loader =
  ld_root :: ustr
  ld_config :: StdLibConfig
  ld_cache :: "(ustr \<times> 'f Program) list"
  ld_loaded :: "ustr set"

definition loader_new :: "files \<Rightarrow> ustr \<Rightarrow> load_error + 'f loader" where
  "loader_new fs proj =
     (let manifest = path_join proj (lit ''dalin.toml'');
          plain = \<lparr>cf_path = path_join proj (lit ''stdlib''), cf_prelude = default_prelude\<rparr>;
          made = (\<lambda>cf. \<lparr>ld_root = proj, ld_config = cf, ld_cache = [], ld_loaded = {}\<rparr>) in
      case fs manifest of
        None \<Rightarrow> Inr (made plain)
      | Some (Inl e) \<Rightarrow> Inl (Unreadable manifest e)
      | Some (Inr content) \<Rightarrow>
          Inr (made (if contains_str content (lit ''[stdlib]'') then config_from_toml content proj else plain)))"

definition loader_with_config :: "StdLibConfig \<Rightarrow> 'f loader \<Rightarrow> 'f loader" where
  "loader_with_config cf ld = ld\<lparr>ld_config := cf\<rparr>"

definition candidate_paths :: "ustr \<Rightarrow> ustr \<Rightarrow> ustr list" where
  "candidate_paths dir name =
     [path_join dir (name @ lit ''.dal''), path_join (path_join dir (lit ''core'')) (name @ lit ''.dal''),
      path_join dir (name @ lit ''.dalin'')]"

text \<open>The first candidate that exists, with what reading it gives.\<close>

definition find_module :: "files \<Rightarrow> ustr \<Rightarrow> ustr \<Rightarrow> (ustr \<times> (ustr + ustr)) option" where
  "find_module fs dir name =
     (case filter (\<lambda>p. fs p \<noteq> None) (candidate_paths dir name) of
        [] \<Rightarrow> None
      | p # _ \<Rightarrow> Some (p, the (fs p)))"

text \<open>
  The names that a program needs: the heads of its use statements, without the modules of the prelude,
  and its external modules. Each is loaded unless it is kept already.
\<close>

definition used_names :: "ustr list \<Rightarrow> 'f Program \<Rightarrow> ustr list" where
  "used_names prelude prog =
     filter (\<lambda>n. n \<notin> set prelude)
       (List.map_filter (\<lambda>st. case st of SUse path \<Rightarrow> Some (hd (split_str (lit ''::'') path)) | _ \<Rightarrow> None) (statements prog)) @
     List.map_filter (\<lambda>m. case m of External n \<Rightarrow> Some n | _ \<Rightarrow> None) (modules prog)"

fun resolve_names ::
  "(ustr \<Rightarrow> 'f loader \<Rightarrow> ((load_error + unit) \<times> 'f loader) option) \<Rightarrow> ustr list \<Rightarrow> 'f loader \<Rightarrow>
    ((load_error + unit) \<times> 'f loader) option" where
  "resolve_names load [] ld = Some (Inr (), ld)"
| "resolve_names load (n # ns) ld =
     (if map_of (ld_cache ld) n \<noteq> None then resolve_names load ns ld
      else (case load n ld of
              None \<Rightarrow> None
            | Some (Inl e, ld') \<Rightarrow> Some (Inl e, ld')
            | Some (Inr _, ld') \<Rightarrow> resolve_names load ns ld'))"

fun load_module ::
  "unicode \<Rightarrow> 'f plat \<Rightarrow> files \<Rightarrow> nat \<Rightarrow> ustr \<Rightarrow> 'f loader \<Rightarrow> ((load_error + unit) \<times> 'f loader) option" where
  "load_module U P fs 0 name ld = None"
| "load_module U P fs (Suc n) name ld =
     (if map_of (ld_cache ld) name \<noteq> None then Some (Inr (), ld)
      else if name \<in> ld_loaded ld then Some (Inl (Circular name), ld)
      else (case find_module fs (cf_path (ld_config ld)) name of
          None \<Rightarrow> Some (Inr (), ld\<lparr>ld_cache := AList.update name program_new (ld_cache ld),
              ld_loaded := insert name (ld_loaded ld)\<rparr>)
        | Some (p, Inl e) \<Rightarrow> Some (Inl (Unreadable p e), ld)
        | Some (p, Inr content) \<Rightarrow>
            (let ld1 = ld\<lparr>ld_loaded := insert name (ld_loaded ld)\<rparr> in
             case parse_source U P content of
               None \<Rightarrow> None
             | Some (LexFailed e) \<Rightarrow> Some (Inl (NotLexedIn name e), ld1)
             | Some (ParseFailed e) \<Rightarrow> Some (Inl (NotParsedIn name e), ld1)
             | Some (Ran prog) \<Rightarrow>
                 resolve_names (load_module U P fs n) (used_names (cf_prelude (ld_config ld)) prog)
                   (ld1\<lparr>ld_cache := AList.update name prog (ld_cache ld1)\<rparr>))))"

text \<open>Loading one module after the other, with the names that were loaded.\<close>

fun load_each ::
  "(ustr \<Rightarrow> 'f loader \<Rightarrow> ((load_error + unit) \<times> 'f loader) option) \<Rightarrow> ustr list \<Rightarrow> 'f loader \<Rightarrow>
    ((load_error + ustr list) \<times> 'f loader) option" where
  "load_each load [] ld = Some (Inr [], ld)"
| "load_each load (n # ns) ld =
     (case load n ld of
        None \<Rightarrow> None
      | Some (Inl e, ld') \<Rightarrow> Some (Inl e, ld')
      | Some (Inr _, ld') \<Rightarrow> map_option (apfst (map_sum id (Cons n))) (load_each load ns ld'))"

definition load_prelude ::
  "unicode \<Rightarrow> 'f plat \<Rightarrow> files \<Rightarrow> nat \<Rightarrow> 'f loader \<Rightarrow> ((load_error + ustr list) \<times> 'f loader) option" where
  "load_prelude U P fs n ld = load_each (load_module U P fs n) (cf_prelude (ld_config ld)) ld"

fun insert_name :: "ustr \<Rightarrow> ustr list \<Rightarrow> ustr list" where
  "insert_name n [] = [n]"
| "insert_name n (m # ms) = (if str_less m n then m # insert_name n ms else n # m # ms)"

definition sort_names :: "ustr list \<Rightarrow> ustr list" where
  "sort_names ns = foldr insert_name ns []"

text \<open>
  The entries of the directory, as pairs of a stem and an extension, are a parameter: \<open>None\<close> when the
  path does not exist. Names that are not Unicode, which the code skips, are not among them.
\<close>

definition load_all ::
  "unicode \<Rightarrow> 'f plat \<Rightarrow> files \<Rightarrow> (ustr \<Rightarrow> (ustr + (ustr \<times> ustr option) list) option) \<Rightarrow> nat \<Rightarrow> 'f loader \<Rightarrow>
    ((load_error + ustr list) \<times> 'f loader) option" where
  "load_all U P fs entries n ld =
     (let dir = cf_path (ld_config ld) in
      case entries dir of
        None \<Rightarrow> Some (Inl (NoDirectory dir), ld)
      | Some (Inl e) \<Rightarrow> Some (Inl (Unreadable dir e), ld)
      | Some (Inr es) \<Rightarrow>
          map_option (apfst (map_sum id sort_names))
            (load_each (load_module U P fs n) (map fst (filter (\<lambda>e. snd e = Some (lit ''dal'')) es)) ld))"

subsection \<open>Merging\<close>

definition decl_name :: "'f ModuleDecl \<Rightarrow> ustr" where
  "decl_name d = (case d of External n \<Rightarrow> n | Inline n _ \<Rightarrow> n)"

definition merge_module :: "ustr \<times> 'f Program \<Rightarrow> 'f Program \<Rightarrow> 'f Program" where
  "merge_module np target =
     foldl (\<lambda>t d. program_add t (SExport (fst np @ lit ''_imported_from:'' @ decl_name d)))
       (foldl program_add target (statements (snd np))) (modules (snd np))"

definition merge_into_program ::
  "unicode \<Rightarrow> 'f plat \<Rightarrow> files \<Rightarrow> nat \<Rightarrow> 'f Program \<Rightarrow> 'f loader \<Rightarrow>
    ((load_error + nat) \<times> 'f loader \<times> 'f Program) option" where
  "merge_into_program U P fs n target ld =
     map_option (\<lambda>(r, ld'). case r of
         Inl e \<Rightarrow> (Inl e, ld', target)
       | Inr _ \<Rightarrow> (Inr (sum_list (map (length \<circ> statements \<circ> snd) (ld_cache ld'))), ld',
           foldl (\<lambda>t np. merge_module np t) target (ld_cache ld')))
     (load_prelude U P fs n ld)"

definition loader_task_specs :: "hasher \<Rightarrow> ustr \<Rightarrow> 'f loader \<Rightarrow> TaskSpec list option" where
  "loader_task_specs hash name ld = map_option (from_program hash) (map_of (ld_cache ld) name)"

record StdLibStats =
  total_loaded :: nat
  cached_modules :: nat
  stats_prelude :: "ustr list"
  stats_root :: ustr

definition loader_stats :: "'f loader \<Rightarrow> StdLibStats" where
  "loader_stats ld = \<lparr>total_loaded = card (ld_loaded ld), cached_modules = length (ld_cache ld),
     stats_prelude = cf_prelude (ld_config ld), stats_root = cf_path (ld_config ld)\<rparr>"

end
