(* ===== verification/StdLoaderCorrect.thy ===== *)
theory StdLoaderCorrect
  imports StdLoader
begin

section \<open>What is loaded\<close>

text \<open>
  Loading only adds to what is kept; what is kept is what the files hold, with an empty program for a
  module without a file; a successful load brings everything that is used; and loading returns when
  finitely many modules have files.
\<close>

definition cached :: "'f loader \<Rightarrow> ustr set" where
  "cached ld = dom (map_of (ld_cache ld))"

lemma cached_update [simp]:
  "cached (ld\<lparr>ld_cache := AList.update n prog (ld_cache ld), ld_loaded := l\<rparr>) = insert n (cached ld)"
  "cached (ld\<lparr>ld_loaded := l, ld_cache := AList.update n prog (ld_cache ld)\<rparr>) = insert n (cached ld)"
  by (simp_all add: cached_def update_conv')

lemma cached_loaded [simp]: "cached (ld\<lparr>ld_loaded := l\<rparr>) = cached ld"
  by (simp add: cached_def)

lemma not_cached: "map_of (ld_cache ld) n = None \<longleftrightarrow> n \<notin> cached ld"
  by (auto simp: cached_def domIff)

subsection \<open>Steps\<close>

text \<open>A reflexive and transitive relation that each load respects is respected by a sequence of loads.\<close>

lemma resolve_names_rel:
  assumes "\<And>m ld r ld'. load m ld = Some (r, ld') \<Longrightarrow> R ld ld'"
    and "\<And>ld. R ld ld" and "\<And>a b c. R a b \<Longrightarrow> R b c \<Longrightarrow> R a c"
    and "resolve_names load ns ld = Some (r, ld')"
  shows "R ld ld'"
  using assms(4)
proof (induction ns arbitrary: ld)
  case (Cons m ns)
  show ?case
  proof (cases "map_of (ld_cache ld) m")
    case None
    with Cons.prems obtain r1 ld1 where l: "load m ld = Some (r1, ld1)"
      and r: "case r1 of Inl e \<Rightarrow> ld' = ld1 | Inr _ \<Rightarrow> resolve_names load ns ld1 = Some (r, ld')"
      by (auto split: option.splits prod.splits sum.splits)
    then show ?thesis
      using assms(1)[OF l] assms(3) Cons.IH[of ld1] by (cases r1) auto
  qed (use Cons in simp)
qed (use assms(2) in auto)

lemma load_each_rel:
  assumes "\<And>m ld r ld'. load m ld = Some (r, ld') \<Longrightarrow> R ld ld'"
    and "\<And>ld. R ld ld" and "\<And>a b c. R a b \<Longrightarrow> R b c \<Longrightarrow> R a c"
    and "load_each load ns ld = Some (r, ld')"
  shows "R ld ld'"
  using assms(4)
proof (induction ns arbitrary: ld r)
  case (Cons m ns)
  then obtain r1 ld1 where l: "load m ld = Some (r1, ld1)"
    and r: "case r1 of Inl e \<Rightarrow> ld' = ld1 | Inr _ \<Rightarrow> \<exists>r2. load_each load ns ld1 = Some (r2, ld')"
    by (auto split: option.splits prod.splits sum.splits)
  then show ?case
    using assms(1)[OF l] assms(3) Cons.IH[of ld1] by (cases r1) auto
qed (use assms(2) in auto)

text \<open>The cases of a load.\<close>

lemma load_cases:
  assumes "load_module U P fs (Suc n) name ld = Some (r, ld')"
  obtains (hit) "name \<in> cached ld" "r = Inr ()" "ld' = ld"
  | (circular) "name \<notin> cached ld" "name \<in> ld_loaded ld" "r = Inl (Circular name)" "ld' = ld"
  | (missing) "name \<notin> cached ld" "find_module fs (cf_path (ld_config ld)) name = None" "r = Inr ()"
      "ld' = ld\<lparr>ld_cache := AList.update name program_new (ld_cache ld), ld_loaded := insert name (ld_loaded ld)\<rparr>"
  | (unreadable) p e where "r = Inl (Unreadable p e)" "ld' = ld"
  | (broken) p c e where "name \<notin> cached ld" "find_module fs (cf_path (ld_config ld)) name = Some (p, Inr c)"
      "\<nexists>prog. parse_source U P c = Some (Ran prog)" "r = Inl e" "\<nexists>m. e = Circular m"
      "ld' = ld\<lparr>ld_loaded := insert name (ld_loaded ld)\<rparr>"
  | (read) p c prog where "name \<notin> cached ld" "find_module fs (cf_path (ld_config ld)) name = Some (p, Inr c)"
      "parse_source U P c = Some (Ran prog)"
      "resolve_names (load_module U P fs n) (used_names (cf_prelude (ld_config ld)) prog)
        (ld\<lparr>ld_loaded := insert name (ld_loaded ld), ld_cache := AList.update name prog (ld_cache ld)\<rparr>) = Some (r, ld')"
proof -
  consider "name \<in> cached ld" | "name \<notin> cached ld" "name \<in> ld_loaded ld" | "name \<notin> cached ld" "name \<notin> ld_loaded ld"
    by blast
  then show ?thesis
  proof cases
    case 3
    note new = this
    show ?thesis
    proof (cases "find_module fs (cf_path (ld_config ld)) name")
      case None
      then show ?thesis using assms new missing by (simp add: not_cached)
    next
      case (Some pc)
      obtain p ec where pc: "pc = (p, ec)" by force
      show ?thesis
      proof (cases ec)
        case (Inl e)
        then show ?thesis using assms new Some pc unreadable[of p e] by (auto simp: not_cached)
      next
        case (Inr c)
        note found = Some[unfolded pc Inr]
        show ?thesis
        proof (cases "\<exists>prog. parse_source U P c = Some (Ran prog)")
          case True
          then show ?thesis using assms new found read by (auto simp: not_cached)
        next
          case False
          then show ?thesis
            using assms new found broken[OF new(1) found False]
            by (cases "parse_source U P c"; cases "the (parse_source U P c)") (auto simp: not_cached)
        qed
      qed
    qed
  next
    case 1
    then have "r = Inr () \<and> ld' = ld" using assms by (auto simp: not_cached)
    with hit 1 show ?thesis by blast
  next
    case 2
    then have "r = Inl (Circular name) \<and> ld' = ld" using assms by (auto simp: not_cached)
    with circular 2 show ?thesis by blast
  qed
qed

definition grows :: "'f loader \<Rightarrow> 'f loader \<Rightarrow> bool" where
  "grows ld ld' = (ld_config ld' = ld_config ld \<and> ld_loaded ld \<subseteq> ld_loaded ld' \<and>
     (\<forall>m prog. map_of (ld_cache ld) m = Some prog \<longrightarrow> map_of (ld_cache ld') m = Some prog))"

lemma grows_refl [simp]: "grows ld ld"
  and grows_trans: "grows a b \<Longrightarrow> grows b c \<Longrightarrow> grows a c"
  by (auto simp: grows_def)

lemma grows_cached: "grows ld ld' \<Longrightarrow> cached ld \<subseteq> cached ld'"
  by (auto simp: grows_def cached_def)

lemma grows_update:
  "name \<notin> cached ld \<Longrightarrow> grows ld (ld\<lparr>ld_loaded := insert name (ld_loaded ld), ld_cache := AList.update name prog (ld_cache ld)\<rparr>)"
  by (auto simp: grows_def update_conv' cached_def)

lemma load_grows: "load_module U P fs n name ld = Some (r, ld') \<Longrightarrow> grows ld ld'"
proof (induction n arbitrary: name ld r ld')
  case (Suc n)
  from Suc.prems show ?case
  proof (cases rule: load_cases)
    case missing
    then show ?thesis by (auto simp: grows_def update_conv' cached_def)
  next
    case (read p c prog)
    have "grows (ld\<lparr>ld_loaded := insert name (ld_loaded ld), ld_cache := AList.update name prog (ld_cache ld)\<rparr>) ld'"
      by (rule resolve_names_rel[OF _ grows_refl _ read(4)]) (blast intro: Suc.IH grows_trans)+
    then show ?thesis
      using grows_update[OF read(1)] grows_trans by blast
  qed (auto simp: grows_def)
qed simp

subsection \<open>What is kept\<close>

text \<open>What a module is loaded as: what its file holds, or nothing for lack of a file.\<close>

definition holds :: "unicode \<Rightarrow> 'f plat \<Rightarrow> files \<Rightarrow> ustr \<Rightarrow> ustr \<Rightarrow> 'f Program \<Rightarrow> bool" where
  "holds U P fs dir name prog =
     (case find_module fs dir name of
        None \<Rightarrow> prog = program_new
      | Some (_, Inl _) \<Rightarrow> False
      | Some (_, Inr c) \<Rightarrow> parse_source U P c = Some (Ran prog))"

definition loader_ok :: "unicode \<Rightarrow> 'f plat \<Rightarrow> files \<Rightarrow> 'f loader \<Rightarrow> bool" where
  "loader_ok U P fs ld =
     ((\<forall>m prog. map_of (ld_cache ld) m = Some prog \<longrightarrow> holds U P fs (cf_path (ld_config ld)) m prog) \<and>
      (\<forall>m \<in> ld_loaded ld - cached ld. \<exists>p c. find_module fs (cf_path (ld_config ld)) m = Some (p, Inr c) \<and>
        (\<nexists>prog. parse_source U P c = Some (Ran prog))))"

lemma loader_ok_put:
  assumes "loader_ok U P fs ld" and "holds U P fs (cf_path (ld_config ld)) name prog"
  shows "loader_ok U P fs (ld\<lparr>ld_loaded := insert name (ld_loaded ld), ld_cache := AList.update name prog (ld_cache ld)\<rparr>)"
    and "loader_ok U P fs (ld\<lparr>ld_cache := AList.update name prog (ld_cache ld), ld_loaded := insert name (ld_loaded ld)\<rparr>)"
  using assms by (auto simp: loader_ok_def update_conv' cached_def split: if_splits)

lemma load_ok: "load_module U P fs n name ld = Some (r, ld') \<Longrightarrow> loader_ok U P fs ld \<Longrightarrow> loader_ok U P fs ld'"
proof (induction n arbitrary: name ld r ld')
  case (Suc n)
  from Suc.prems(1) show ?case
  proof (cases rule: load_cases)
    case missing
    then show ?thesis using Suc.prems(2) loader_ok_put(2)[of U P fs ld name program_new] by (simp add: holds_def)
  next
    case (broken p c e)
    then show ?thesis using Suc.prems(2) by (auto simp: loader_ok_def)
  next
    case (read p c prog)
    have "loader_ok U P fs (ld\<lparr>ld_loaded := insert name (ld_loaded ld), ld_cache := AList.update name prog (ld_cache ld)\<rparr>)"
      using Suc.prems(2) read(2,3) by (intro loader_ok_put(1)) (simp_all add: holds_def)
    moreover have "loader_ok U P fs (ld\<lparr>ld_loaded := insert name (ld_loaded ld), ld_cache := AList.update name prog (ld_cache ld)\<rparr>)
        \<longrightarrow> loader_ok U P fs ld'"
      by (rule resolve_names_rel[where R = "\<lambda>a b. loader_ok U P fs a \<longrightarrow> loader_ok U P fs b", OF _ _ _ read(4)])
        (use Suc.IH in blast)+
    ultimately show ?thesis by blast
  qed (use Suc.prems(2) in simp_all)
qed simp

text \<open>Whether a load reports a circular dependency on a module.\<close>

lemma circular_broken:
  "load_module U P fs n name ld = Some (Inl (Circular m), ld') \<Longrightarrow> loader_ok U P fs ld \<Longrightarrow>
    \<exists>p c. find_module fs (cf_path (ld_config ld)) m = Some (p, Inr c) \<and> (\<nexists>prog. parse_source U P c = Some (Ran prog))"
proof (induction n arbitrary: name ld ld')
  case (Suc n)
  from Suc.prems(1) show ?case
  proof (cases rule: load_cases)
    case circular
    then show ?thesis using Suc.prems(2) by (auto simp: loader_ok_def)
  next
    case (read p c prog)
    let ?ld = "ld\<lparr>ld_loaded := insert name (ld_loaded ld), ld_cache := AList.update name prog (ld_cache ld)\<rparr>"
    have ok: "loader_ok U P fs ?ld"
      using Suc.prems(2) read(2,3) by (intro loader_ok_put(1)) (simp_all add: holds_def)
    have "resolve_names (load_module U P fs n) ns a = Some (Inl (Circular m), ld') \<Longrightarrow> loader_ok U P fs a \<Longrightarrow>
        ld_config a = ld_config ld \<Longrightarrow> ?thesis" for ns a
    proof (induction ns arbitrary: a)
      case (Cons k ns)
      show ?case
      proof (cases "map_of (ld_cache a) k")
        case None
        with Cons.prems(1) obtain r1 b where l: "load_module U P fs n k a = Some (r1, b)"
          and r: "case r1 of Inl e \<Rightarrow> e = Circular m \<and> ld' = b
            | Inr _ \<Rightarrow> resolve_names (load_module U P fs n) ns b = Some (Inl (Circular m), ld')"
          by (auto split: option.splits prod.splits sum.splits)
        show ?thesis
        proof (cases r1)
          case (Inl e)
          with l r have "load_module U P fs n k a = Some (Inl (Circular m), b)" by simp
          from Suc.IH[OF this Cons.prems(2)] show ?thesis by (simp add: Cons.prems(3))
        next
          case (Inr u)
          with l r show ?thesis
            using Cons.IH[of b] load_ok[OF l Cons.prems(2)] load_grows[OF l] Cons.prems(3) by (simp add: grows_def)
        qed
      qed (use Cons in simp)
    qed simp
    from this[OF read(4) ok] show ?thesis by simp
  qed auto
qed simp

text \<open>Loads one after another, whatever they return.\<close>

inductive loader_step :: "unicode \<Rightarrow> 'f plat \<Rightarrow> files \<Rightarrow> 'f loader \<Rightarrow> 'f loader \<Rightarrow> bool" for U P fs where
  "load_module U P fs n name ld = Some (r, ld') \<Longrightarrow> loader_step U P fs ld ld'"

lemma loader_steps_ok: "(loader_step U P fs)\<^sup>*\<^sup>* ld ld' \<Longrightarrow> loader_ok U P fs ld \<Longrightarrow> loader_ok U P fs ld'"
  by (induction rule: rtranclp_induct) (auto elim!: loader_step.cases dest: load_ok)

lemma loader_steps_config: "(loader_step U P fs)\<^sup>*\<^sup>* ld ld' \<Longrightarrow> ld_config ld' = ld_config ld"
  by (induction rule: rtranclp_induct) (auto elim!: loader_step.cases dest!: load_grows simp: grows_def)

lemma loader_new_ok: "loader_new fs dir = Inr ld \<Longrightarrow> loader_ok U P fs ld \<and> ld_cache ld = []"
  by (auto simp: loader_new_def Let_def loader_ok_def cached_def split: option.splits sum.splits)

text \<open>
  The error of a circular dependency never reports one: whatever was loaded before, the module it
  names has a file that does not lex or does not parse, and was tried before. Modules that use each
  other are loaded without an error.
\<close>

theorem circular_means_broken:
  assumes "loader_new fs dir = Inr ld0" and "(loader_step U P fs)\<^sup>*\<^sup>* ld0 ld"
    and "load_module U P fs n name ld = Some (Inl (Circular m), ld')"
  shows "\<exists>p c. find_module fs (cf_path (ld_config ld0)) m = Some (p, Inr c) \<and>
    (\<nexists>prog. parse_source U P c = Some (Ran prog))"
  using circular_broken[OF assms(3) loader_steps_ok[OF assms(2)]] loader_new_ok[OF assms(1)] loader_steps_config[OF assms(2)] by simp


subsection \<open>Everything that is used\<close>

definition uses_cached :: "'f loader \<Rightarrow> ustr \<Rightarrow> bool" where
  "uses_cached ld m =
     (\<forall>prog. map_of (ld_cache ld) m = Some prog \<longrightarrow> set (used_names (cf_prelude (ld_config ld)) prog) \<subseteq> cached ld)"

lemma uses_cached_grows:
  "grows ld ld' \<Longrightarrow> m \<in> cached ld \<Longrightarrow> uses_cached ld m \<Longrightarrow> uses_cached ld' m"
  unfolding uses_cached_def grows_def cached_def by fastforce

lemma resolve_closes:
  assumes "\<And>m ld ld'. load m ld = Some (Inr (), ld') \<Longrightarrow> m \<in> cached ld' \<and> (\<forall>k. k \<notin> cached ld \<longrightarrow> uses_cached ld' k)"
    and "\<And>m ld r ld'. load m ld = Some (r, ld') \<Longrightarrow> grows ld ld'"
    and "resolve_names load ns ld = Some (Inr (), ld')"
  shows "set ns \<subseteq> cached ld' \<and> (\<forall>k. k \<notin> cached ld \<longrightarrow> uses_cached ld' k)"
  using assms(3)
proof (induction ns arbitrary: ld)
  case (Cons m ns)
  have up: "grows a ld'" if "resolve_names load ns a = Some (Inr (), ld')" for a
    by (rule resolve_names_rel[OF assms(2) grows_refl grows_trans that])
  show ?case
  proof (cases "map_of (ld_cache ld) m")
    case None
    with Cons.prems obtain ld1 where l: "load m ld = Some (Inr (), ld1)" and r: "resolve_names load ns ld1 = Some (Inr (), ld')"
      by (auto split: option.splits prod.splits sum.splits)
    have "uses_cached ld' k" if "k \<notin> cached ld" for k
      using Cons.IH[OF r] assms(1)[OF l] that uses_cached_grows[OF up[OF r], of k] by blast
    then show ?thesis
      using Cons.IH[OF r] assms(1)[OF l] grows_cached[OF up[OF r]] by auto
  next
    case (Some prog)
    then have r: "resolve_names load ns ld = Some (Inr (), ld')" using Cons.prems by simp
    moreover have "m \<in> cached ld" using Some by (auto simp: cached_def)
    ultimately show ?thesis using Cons.IH[OF r] grows_cached[OF up[OF r]] by auto
  qed
qed (auto simp: uses_cached_def cached_def)

lemma used_new [simp]: "used_names pre program_new = []"
  by (simp add: used_names_def program_new_def List.map_filter_simps)

lemma load_closes:
  "load_module U P fs n name ld = Some (Inr (), ld') \<Longrightarrow>
    name \<in> cached ld' \<and> (\<forall>k. k \<notin> cached ld \<longrightarrow> uses_cached ld' k)"
proof (induction n arbitrary: name ld ld')
  case (Suc n)
  from Suc.prems show ?case
  proof (cases rule: load_cases)
    case missing
    then show ?thesis by (auto simp: uses_cached_def update_conv' cached_def split: if_splits)
  next
    case (read p c prog)
    let ?ld = "ld\<lparr>ld_loaded := insert name (ld_loaded ld), ld_cache := AList.update name prog (ld_cache ld)\<rparr>"
    have r: "set (used_names (cf_prelude (ld_config ld)) prog) \<subseteq> cached ld' \<and> (\<forall>k. k \<notin> cached ?ld \<longrightarrow> uses_cached ld' k)"
      by (rule resolve_closes[OF _ _ read(4)]) (use Suc.IH load_grows in blast)+
    have g: "grows ?ld ld'"
      by (rule resolve_names_rel[OF load_grows grows_refl grows_trans read(4)])
    then have name: "map_of (ld_cache ld') name = Some prog" and pre: "ld_config ld' = ld_config ld"
      by (simp_all add: grows_def update_conv')
    have "uses_cached ld' name"
      unfolding uses_cached_def name pre using r by simp
    then have "uses_cached ld' k" if "k \<notin> cached ld" for k
      using that r by (cases "k = name") auto
    then show ?thesis using name by (auto simp: cached_def)
  qed (auto simp: uses_cached_def cached_def)
qed simp

lemma load_each_closes:
  "load_each (load_module U P fs n) ns ld = Some (Inr ms, ld') \<Longrightarrow>
    ms = ns \<and> set ns \<subseteq> cached ld' \<and> (\<forall>k. k \<notin> cached ld \<longrightarrow> uses_cached ld' k)"
proof (induction ns arbitrary: ld ms)
  case (Cons m ns)
  then obtain ld1 ms1 where l: "load_module U P fs n m ld = Some (Inr (), ld1)"
      and r: "load_each (load_module U P fs n) ns ld1 = Some (Inr ms1, ld')" "ms = m # ms1"
    by (auto split: option.splits prod.splits sum.splits elim: sum.exhaust) (metis Inl_Inr_False map_sum.simps old.sum.exhaust sum.inject(2))
  have g: "grows ld1 ld'"
    by (rule load_each_rel[OF load_grows grows_refl grows_trans r(1)])
  have "uses_cached ld' k" if "k \<notin> cached ld" for k
    using Cons.IH[OF r(1)] load_closes[OF l] that uses_cached_grows[OF g, of k] by blast
  then show ?case
    using Cons.IH[OF r(1)] load_closes[OF l] grows_cached[OF g] r(2) by auto
qed (auto simp: uses_cached_def cached_def)

lemma used_beyond: "set (used_names [] prog) \<subseteq> set (used_names pre prog) \<union> set pre"
  by (auto simp: used_names_def)

text \<open>
  C21: When the prelude of a new loader is loaded without an error, every module of the prelude is kept,
  and with every module all that it uses, in the end; each is kept as what its file holds, and as an
  empty program when it has no file.
\<close>

theorem prelude_loads_everything:
  assumes "loader_new fs dir = Inr ld0" and "load_prelude U P fs n ld0 = Some (Inr ms, ld)"
  shows "ms = cf_prelude (ld_config ld0) \<and> set ms \<subseteq> cached ld \<and>
    (\<forall>m prog. map_of (ld_cache ld) m = Some prog \<longrightarrow>
       holds U P fs (cf_path (ld_config ld0)) m prog \<and> set (used_names [] prog) \<subseteq> cached ld)"
proof -
  have each: "load_each (load_module U P fs n) (cf_prelude (ld_config ld0)) ld0 = Some (Inr ms, ld)"
    using assms(2) by (simp add: load_prelude_def)
  have "grows ld0 ld"
    by (rule load_each_rel[OF load_grows grows_refl grows_trans each])
  then have config: "ld_config ld = ld_config ld0"
    by (simp add: grows_def)
  have "loader_ok U P fs ld0 \<longrightarrow> loader_ok U P fs ld"
    by (rule load_each_rel[where R = "\<lambda>a b. loader_ok U P fs a \<longrightarrow> loader_ok U P fs b", OF _ _ _ each])
      (use load_ok in blast)+
  then have "loader_ok U P fs ld" "cached ld0 = {}"
    using loader_new_ok[OF assms(1)] by (auto simp: cached_def)
  moreover have "uses_cached ld m" "set (cf_prelude (ld_config ld0)) \<subseteq> cached ld" "ms = cf_prelude (ld_config ld0)" for m
    using load_each_closes[OF each] \<open>cached ld0 = {}\<close> by simp_all
  ultimately show ?thesis
    using used_beyond[where pre = "cf_prelude (ld_config ld0)"] config
    unfolding loader_ok_def uses_cached_def by (metis Un_subset_iff subset_trans)
qed

subsection \<open>Loading returns\<close>

lemma resolve_returns:
  assumes "\<And>m a. grows ld a \<Longrightarrow> load m a \<noteq> None" and "\<And>m a r b. load m a = Some (r, b) \<Longrightarrow> grows a b"
    and "grows ld a"
  shows "resolve_names load ns a \<noteq> None"
  using assms(3)
proof (induction ns arbitrary: a)
  case (Cons m ns)
  obtain r b where l: "load m a = Some (r, b)"
    using assms(1)[OF Cons.prems] by force
  then have "grows ld b" using assms(2) Cons.prems grows_trans by blast
  then show ?case using Cons l by (auto split: sum.split)
qed simp

lemma load_returns:
  assumes "finite {m. find_module fs dir m \<noteq> None}"
  shows "cf_path (ld_config ld) = dir \<Longrightarrow> card ({m. find_module fs dir m \<noteq> None} - cached ld) < n \<Longrightarrow>
    load_module U P fs n name ld \<noteq> None"
proof (induction n arbitrary: name ld)
  case (Suc n)
  show ?case
  proof (cases "name \<in> cached ld \<or> name \<in> ld_loaded ld \<or> find_module fs dir name = None")
    case True
    then show ?thesis using Suc.prems by (auto simp: not_cached)
  next
    case False
    let ?F = "{m. find_module fs dir m \<noteq> None}"
    have "resolve_names (load_module U P fs n) ns a \<noteq> None"
      if "grows (ld\<lparr>ld_loaded := insert name (ld_loaded ld), ld_cache := AList.update name prog (ld_cache ld)\<rparr>) a" for ns a prog
    proof (rule resolve_returns[OF _ load_grows that])
      fix m a
      assume g: "grows (ld\<lparr>ld_loaded := insert name (ld_loaded ld), ld_cache := AList.update name prog (ld_cache ld)\<rparr>) a"
      have "insert name (cached ld) \<subseteq> cached a" using grows_cached[OF g] by simp
      then have "?F - cached a \<subset> ?F - cached ld" using False by blast
      then have "card (?F - cached a) < n"
        using psubset_card_mono[of "?F - cached ld" "?F - cached a"] assms Suc.prems(2) by simp
      moreover have "cf_path (ld_config a) = dir" using g Suc.prems(1) by (simp add: grows_def)
      ultimately show "load_module U P fs n m a \<noteq> None" using Suc.IH by blast
    qed
    note loads = this
    from False obtain p ec where found: "find_module fs dir name = Some (p, ec)" by auto
    show ?thesis
    proof (cases ec)
      case (Inr c)
      obtain s where "parse_source U P c = Some s" using parse_source_returns[of U P c] by blast
      then show ?thesis
        using False found Inr Suc.prems(1) loads[OF grows_refl] by (cases s) (auto simp: not_cached)
    qed (use False found Suc.prems(1) in \<open>simp add: not_cached\<close>)
  qed
qed simp

text \<open>
  C22: Loading a module returns, with an error or without one, however the modules use each other, when
  finitely many names have files: fuel above their number is enough.
\<close>

theorem loading_returns:
  assumes "finite {m. find_module fs (cf_path (ld_config ld)) m \<noteq> None}"
    and "card {m. find_module fs (cf_path (ld_config ld)) m \<noteq> None} < n"
  shows "\<exists>r ld'. load_module U P fs n name ld = Some (r, ld') \<and> grows ld ld'"
proof -
  have "card ({m. find_module fs (cf_path (ld_config ld)) m \<noteq> None} - cached ld) < n"
    using card_mono[OF assms(1), of "{m. find_module fs (cf_path (ld_config ld)) m \<noteq> None} - cached ld"] assms(2) by force
  from load_returns[OF assms(1) refl this] obtain r ld' where "load_module U P fs n name ld = Some (r, ld')" by force
  with load_grows show ?thesis by blast
qed

subsection \<open>A library with modules that use each other\<close>

definition use_text :: "string \<Rightarrow> ustr" where
  "use_text m = print_tokens (stmts_toks int_plat [SUse (lit m)])"

definition broken_text :: ustr where
  "broken_text = print_tokens [(KeywordLet, lit ''let''), (IdentTok, lit ''x''), (Semicolon, lit '';'')]"

text \<open>The prelude uses \<open>a\<close>, \<open>a\<close> and \<open>b\<close> use each other, and \<open>c\<close> does not parse.\<close>

definition sample_files :: files where
  "sample_files path =
     (if path = lit ''stdlib/prelude.dal'' then Some (Inr (use_text ''a''))
      else if path = lit ''stdlib/a.dal'' then Some (Inr (use_text ''b''))
      else if path = lit ''stdlib/core/b.dal'' then Some (Inr (use_text ''a''))
      else if path = lit ''stdlib/c.dal'' then Some (Inr broken_text) else None)"

lemma use_text_parsed:
  assumes "m \<in> {''a'', ''b''}"
  shows "parse_source no_tables int_plat (use_text m) = Some (Ran (program_new\<lparr>statements := [SUse (lit m)]\<rparr>))"
  unfolding use_text_def using assms
  by (intro parse_source_printed) (auto simp: ident_tok_def reading lit_def)

lemma broken_text_rejected: "parse_source no_tables int_plat broken_text \<noteq> Some (Ran prog)"
proof -
  let ?ts = "[(KeywordLet, lit ''let''), (IdentTok, lit ''x''), (Semicolon, lit '';'')]"
  have "\<forall>(tt, v) \<in> set ?ts. readable no_tables tt v" by (simp add: reading lit_def)
  moreover have "rest (new_lexer broken_text) = print_tokens ?ts"
    by (simp add: rest_def new_lexer_def broken_text_def)
  ultimately obtain toks s' where lex: "tokenize no_tables (new_lexer broken_text) = (Inr toks, s')"
      "map tok_core toks = ?ts @ [(Eof, [])]"
    using tokenize_loop_printed[of "new_lexer broken_text" ?ts no_tables "[]"]
    by (auto simp: tokenize_def tok_core_def [abs_def])
  then have "map tok_core toks = stmts_toks int_plat [SLet (lit ''x'') None None False] @ (Semicolon, lit '';'') # [(Eof, [])]"
    by (simp add: opt_toks_def ident_tok_def)
  from semicolon_rejected[OF _ this order_refl] obtain e where
    "parse_tokens int_plat (2 * length toks + 2) toks = Some (Inl e)"
    by (auto simp: opt_toks_def ident_tok_def)
  then show ?thesis using lex(1) by (simp add: parse_source_def)
qed

definition sample_loader :: "int loader" where
  "sample_loader = \<lparr>ld_root = [], ld_config = \<lparr>cf_path = lit ''stdlib'', cf_prelude = default_prelude\<rparr>,
     ld_cache = [], ld_loaded = {}\<rparr>"

lemma sample_loader_new: "loader_new sample_files [] = Inr sample_loader"
  by (simp add: loader_new_def sample_files_def sample_loader_def path_join_def Let_def lit_def)

lemma sample_found:
  "find_module sample_files (lit ''stdlib'') (lit ''prelude'') = Some (lit ''stdlib/prelude.dal'', Inr (use_text ''a''))"
  "find_module sample_files (lit ''stdlib'') (lit ''a'') = Some (lit ''stdlib/a.dal'', Inr (use_text ''b''))"
  "find_module sample_files (lit ''stdlib'') (lit ''b'') = Some (lit ''stdlib/core/b.dal'', Inr (use_text ''a''))"
  "find_module sample_files (lit ''stdlib'') (lit ''c'') = Some (lit ''stdlib/c.dal'', Inr broken_text)"
  "find_module sample_files (lit ''stdlib'') (lit ''core_types'') = None"
  by (simp_all add: find_module_def candidate_paths_def sample_files_def path_join_def lit_def ends_with_def starts_with_def)

lemma sample_uses:
  assumes "m \<in> {''a'', ''b''}"
  shows "used_names default_prelude (program_new\<lparr>statements := [SUse (lit m)]\<rparr> :: int Program) = [lit m]"
  using assms by (auto simp: used_names_def default_prelude_def program_new_def split_str_def lit_def starts_with_def
      List.map_filter_simps)

lemma sample_names [simp]:
  "lit ''a'' \<noteq> lit ''b''" "lit ''prelude'' \<noteq> lit ''a''" "lit ''prelude'' \<noteq> lit ''b''" "lit ''core_types'' \<noteq> lit ''a''"
  "lit ''core_types'' \<noteq> lit ''b''" "lit ''core_types'' \<noteq> lit ''prelude''"
  by (simp_all add: lit_def)

lemma sample_loaded:
  "load_prelude no_tables int_plat sample_files 4 sample_loader = Some (Inr default_prelude, sample_loader\<lparr>
     ld_loaded := {lit ''prelude'', lit ''a'', lit ''b'', lit ''core_types''},
     ld_cache := [(lit ''prelude'', program_new\<lparr>statements := [SUse (lit ''a'')]\<rparr>),
       (lit ''a'', program_new\<lparr>statements := [SUse (lit ''b'')]\<rparr>),
       (lit ''b'', program_new\<lparr>statements := [SUse (lit ''a'')]\<rparr>), (lit ''core_types'', program_new)]\<rparr>)"
  by (simp add: load_prelude_def sample_loader_def default_prelude_def[of] eval_nat_numeral sample_found use_text_parsed
      sample_uses[unfolded default_prelude_def] Let_def sample_names[symmetric] insert_commute)

theorem prelude_loads_everything_witness:
  "\<exists>ld. load_prelude no_tables int_plat sample_files 4 sample_loader = Some (Inr default_prelude, ld) \<and>
    {lit ''prelude'', lit ''core_types''} \<subseteq> cached ld \<and> lit ''b'' \<in> cached ld"
  using sample_loaded prelude_loads_everything[OF sample_loader_new sample_loaded] by (auto simp: cached_def default_prelude_def)

lemma sample_broken_tried:
  "load_module no_tables int_plat sample_files 1 (lit ''c'') sample_loader = Some (r, ld) \<Longrightarrow>
    ld = sample_loader\<lparr>ld_loaded := {lit ''c''}\<rparr>"
  using broken_text_rejected
  by (auto simp: sample_loader_def sample_found Let_def split: option.splits source_result.splits)

theorem circular_means_broken_witness:
  "\<exists>ld p c. load_module no_tables int_plat sample_files 1 (lit ''c'') ld = Some (Inl (Circular (lit ''c'')), ld) \<and>
    find_module sample_files (lit ''stdlib'') (lit ''c'') = Some (p, Inr c) \<and>
    (\<nexists>prog. parse_source no_tables int_plat c = Some (Ran prog))"
proof -
  obtain x where "parse_source no_tables int_plat broken_text = Some x"
    using parse_source_returns by blast
  then obtain r ld where l: "load_module no_tables int_plat sample_files 1 (lit ''c'') sample_loader = Some (r, ld)"
    using broken_text_rejected by (cases x) (auto simp: sample_loader_def sample_found Let_def)
  have "load_module no_tables int_plat sample_files 1 (lit ''c'') ld = Some (Inl (Circular (lit ''c'')), ld)"
    by (simp add: sample_broken_tried[OF l] sample_loader_def)
  moreover have "(loader_step no_tables int_plat sample_files)\<^sup>*\<^sup>* sample_loader ld"
    using l by (blast intro: loader_step.intros)
  ultimately show ?thesis
    using circular_means_broken[OF sample_loader_new, of no_tables int_plat ld 1 "lit ''c''" "lit ''c''" ld]
    by (simp add: sample_loader_def del: load_module.simps) blast
qed

lemma path_join_below: "p = path_join d q \<Longrightarrow> hd p \<noteq> 47 \<Longrightarrow> d \<noteq> [] \<Longrightarrow> last d \<noteq> 47 \<Longrightarrow> p = d @ 47 # q"
  by (cases q; cases d rule: rev_cases) (auto simp: path_join_def starts_with_def ends_with_def lit_def split: if_splits)

lemma sample_below:
  "hd p = 115 \<Longrightarrow> p = path_join (lit ''stdlib'') q \<Longrightarrow> p = lit ''stdlib/'' @ q"
  "hd p = 115 \<Longrightarrow> p = path_join (lit ''stdlib/core'') q \<Longrightarrow> p = lit ''stdlib/core/'' @ q"
  using path_join_below[of p "lit ''stdlib''" q] path_join_below[of p "lit ''stdlib/core''" q] by (simp_all add: lit_def)

lemma sample_core: "path_join (lit ''stdlib'') (lit ''core'') = lit ''stdlib/core''"
  by (simp add: path_join_def starts_with_def ends_with_def lit_def)

lemma sample_modules: "{m. find_module sample_files (lit ''stdlib'') m \<noteq> None} \<subseteq> {lit ''prelude'', lit ''a'', lit ''b'', lit ''core/b'', lit ''c''}"
proof
  fix m
  assume "m \<in> {m. find_module sample_files (lit ''stdlib'') m \<noteq> None}"
  then have "filter (\<lambda>p. sample_files p \<noteq> None) (candidate_paths (lit ''stdlib'') m) \<noteq> []"
    by (auto simp: find_module_def)
  then obtain p where "p \<in> set (candidate_paths (lit ''stdlib'') m)" "sample_files p \<noteq> None"
    by (auto simp: find_module_def filter_empty_conv simp del: not_None_eq split: list.splits)
  then have p: "p \<in> {lit ''stdlib/prelude.dal'', lit ''stdlib/a.dal'', lit ''stdlib/core/b.dal'', lit ''stdlib/c.dal''}"
    and c: "p = path_join (lit ''stdlib'') (m @ lit ''.dal'') \<or> p = path_join (lit ''stdlib/core'') (m @ lit ''.dal'') \<or>
      p = path_join (lit ''stdlib'') (m @ lit ''.dalin'')"
    by (auto simp: sample_files_def candidate_paths_def sample_core split: if_splits)
  have "hd p = 115" using p by (auto simp: lit_def)
  then have "p = lit ''stdlib/'' @ m @ lit ''.dal'' \<or> p = lit ''stdlib/core/'' @ m @ lit ''.dal'' \<or>
      p = lit ''stdlib/'' @ m @ lit ''.dalin''"
    using c sample_below by blast
  then show "m \<in> {lit ''prelude'', lit ''a'', lit ''b'', lit ''core/b'', lit ''c''}"
  proof (elim disjE)
    assume e: "p = lit ''stdlib/'' @ m @ lit ''.dal''"
    then have "m = take (length p - 11) (drop 7 p)" by (simp add: lit_def)
    with p show ?thesis by (elim insertE emptyE) (simp_all add: lit_def)
  next
    assume "p = lit ''stdlib/core/'' @ m @ lit ''.dal''"
    then have "m = take (length p - 16) (drop 12 p)" "take 12 p = lit ''stdlib/core/''" by (simp_all add: lit_def)
    with p show ?thesis by (elim insertE emptyE) (simp_all add: lit_def)
  next
    assume "p = lit ''stdlib/'' @ m @ lit ''.dalin''"
    then have "drop (length p - 6) p = lit ''.dalin''" by (simp add: lit_def)
    with p show ?thesis by (elim insertE emptyE) (simp_all add: lit_def)
  qed
qed

theorem loading_returns_witness:
  "\<exists>r ld. load_module no_tables int_plat sample_files 6 (lit ''c'') sample_loader = Some (r, ld)"
proof -
  have f: "finite {m. find_module sample_files (cf_path (ld_config sample_loader)) m \<noteq> None}"
    using finite_subset[OF sample_modules] by (simp add: sample_loader_def)
  have "card {lit ''prelude'', lit ''a'', lit ''b'', lit ''core/b'', lit ''c''} \<le> 5"
    by (simp add: card_insert_if)
  then have "card {m. find_module sample_files (cf_path (ld_config sample_loader)) m \<noteq> None} < 6"
    using card_mono[OF _ sample_modules] by (simp add: sample_loader_def)
  from loading_returns[OF f this] show ?thesis by blast
qed
end
