(* ===== verification/Nodes.thy ===== *)
theory Nodes
  imports SchedulerCorrect "HOL-Library.AList"
begin

section \<open>The registry of nodes (control-plane/src/agent\_registry.rs)\<close>

text \<open>
  Nodes with their declarations and the time of their last heartbeat, in nanoseconds; a node counts
  as fresh for 30 s. A hash map is an association list without duplicate keys. An operation runs
  under the lock of the registry and is one step; its time is an argument. The messages are those of
  \<open>proto/control.proto\<close>; the load score of a heartbeat, a float, is of type \<open>'f\<close>.
\<close>

record CapabilitySet =
  has_cpu :: bool
  has_gpu :: bool
  has_sfa :: bool
  has_net :: bool

record EffectSet =
  does_pure :: bool
  does_io :: bool
  does_async :: bool
  does_spawn :: bool

record NodeSpec =
  ns_id :: ustr
  ns_addr :: ustr
  ns_capabilities :: "CapabilitySet option"
  ns_effects :: "EffectSet option"
  ns_arch :: ustr
  ns_ringbuffer_key :: ustr

record 'f NodeBeat =
  nb_id :: ustr
  nb_load_score :: 'f
  nb_capabilities :: "CapabilitySet option"
  nb_effects :: "EffectSet option"

record NodeEntry =
  ne_spec :: NodeSpec
  ne_last :: nat

type_synonym node_registry = "(ustr \<times> NodeEntry) list"

definition heartbeat_ttl :: nat where
  "heartbeat_ttl = 30000000000"

definition node_registry_new :: node_registry where
  "node_registry_new = []"

definition node_register :: "nat \<Rightarrow> NodeSpec \<Rightarrow> node_registry \<Rightarrow> (bool \<times> ustr) \<times> node_registry" where
  "node_register now spec reg =
     (let is_new = (map_of reg (ns_id spec) = None) in
      ((is_new, if is_new then lit ''node registered'' else lit ''node updated''),
       AList.update (ns_id spec) \<lparr>ne_spec = spec, ne_last = now\<rparr> reg))"

definition beaten :: "nat \<Rightarrow> 'f NodeBeat \<Rightarrow> NodeEntry \<Rightarrow> NodeEntry" where
  "beaten now beat e =
     (let e1 = e\<lparr>ne_last := now\<rparr>;
          e2 = (if nb_capabilities beat \<noteq> None
                then e1\<lparr>ne_spec := (ne_spec e1)\<lparr>ns_capabilities := nb_capabilities beat\<rparr>\<rparr> else e1) in
      if nb_effects beat \<noteq> None then e2\<lparr>ne_spec := (ne_spec e2)\<lparr>ns_effects := nb_effects beat\<rparr>\<rparr> else e2)"

definition node_heartbeat :: "nat \<Rightarrow> 'f NodeBeat \<Rightarrow> node_registry \<Rightarrow> bool \<times> node_registry" where
  "node_heartbeat now beat reg =
     (case map_of reg (nb_id beat) of
        None \<Rightarrow> (False, reg)
      | Some e \<Rightarrow> (True, AList.update (nb_id beat) (beaten now beat e) reg))"

definition is_fresh :: "nat \<Rightarrow> NodeEntry \<Rightarrow> bool" where
  "is_fresh now e = (now - ne_last e < heartbeat_ttl)"

definition declares :: "NodeSpec \<Rightarrow> (CapabilitySet \<Rightarrow> bool) \<Rightarrow> bool" where
  "declares spec has = (case ns_capabilities spec of None \<Rightarrow> False | Some c \<Rightarrow> has c)"

definition node_spec_to_scheduler_node :: "NodeSpec \<Rightarrow> Node" where
  "node_spec_to_scheduler_node spec = node_new (ns_id spec)
     ((if declares spec has_cpu then {Cpu} else {}) \<union> (if declares spec has_gpu then {Gpu} else {}) \<union>
      (if declares spec has_sfa then {Sfa} else {}) \<union> (if declares spec has_net then {Net} else {}))"

definition fresh_nodes :: "nat \<Rightarrow> node_registry \<Rightarrow> Node list" where
  "fresh_nodes now reg = map (node_spec_to_scheduler_node \<circ> ne_spec) (filter (is_fresh now) (map snd reg))"

definition all_nodes :: "node_registry \<Rightarrow> NodeSpec list" where
  "all_nodes reg = map (ne_spec \<circ> snd) reg"

definition node_cleanup :: "nat \<Rightarrow> node_registry \<Rightarrow> nat \<times> node_registry" where
  "node_cleanup now reg =
     (let kept = filter (\<lambda>(_, e). is_fresh now e) reg in (length reg - length kept, kept))"

subsection \<open>The service\<close>

definition register_node :: "nat \<Rightarrow> NodeSpec \<Rightarrow> node_registry \<Rightarrow> (bool \<times> ustr) \<times> node_registry" where
  "register_node now spec reg =
     (let ((is_new, msg), reg') = node_register now spec reg in
      ((True, (if is_new then lit ''registered: '' else lit ''updated: '') @ msg), reg'))"

definition heartbeat_request :: "nat \<Rightarrow> 'f NodeBeat \<Rightarrow> node_registry \<Rightarrow> (ustr + unit) \<times> node_registry" where
  "heartbeat_request now beat reg =
     (case node_heartbeat now beat reg of
        (ok, reg') \<Rightarrow> (if ok then Inr () else Inl (lit ''unknown node: '' @ nb_id beat), reg'))"

definition list_nodes :: "node_registry \<Rightarrow> NodeSpec list" where
  "list_nodes reg = all_nodes reg"

subsection \<open>The daemon (control-plane/bin/cpd.rs)\<close>

text \<open>The scheduler takes the fresh nodes every 30 s; the first time only when there are any.\<close>

definition first_sync :: "nat \<Rightarrow> node_registry \<Rightarrow> sched \<Rightarrow> sched" where
  "first_sync now reg s = (if fresh_nodes now reg \<noteq> [] then sync_nodes (fresh_nodes now reg) s else s)"

definition periodic_sync :: "nat \<Rightarrow> node_registry \<Rightarrow> sched \<Rightarrow> sched" where
  "periodic_sync now reg s = sync_nodes (fresh_nodes now reg) s"

end
