(* ===== verification/NodesCorrect.thy ===== *)
theory NodesCorrect
  imports Nodes
begin

section \<open>Fresh nodes and what is placed on them\<close>

text \<open>
  The registry behaves as one timer for each node; and a scheduler that has just taken the fresh
  nodes refuses a task only when no fresh node declares its capability or a higher one, however
  many tasks are placed.
\<close>

subsection \<open>Timers\<close>

datatype 'f registry_event = Registered NodeSpec | Beaten "'f NodeBeat" | CleanedUp

fun registry_apply :: "nat \<times> 'f registry_event \<Rightarrow> node_registry \<Rightarrow> node_registry" where
  "registry_apply (t, Registered spec) reg = snd (register_node t spec reg)"
| "registry_apply (t, Beaten beat) reg = snd (heartbeat_request t beat reg)"
| "registry_apply (t, CleanedUp) reg = snd (node_cleanup t reg)"

text \<open>What the same events make of one node: the time it was last heard of, while it is known.\<close>

fun timer :: "ustr \<Rightarrow> nat \<times> 'f registry_event \<Rightarrow> nat option \<Rightarrow> nat option" where
  "timer i (t, Registered spec) l = (if ns_id spec = i then Some t else l)"
| "timer i (t, Beaten beat) l = (if nb_id beat = i then map_option (\<lambda>_. t) l else l)"
| "timer i (t, CleanedUp) l = Option.bind l (\<lambda>t'. if t - t' < heartbeat_ttl then l else None)"

definition registry_ok :: "node_registry \<Rightarrow> bool" where
  "registry_ok reg = (distinct (map fst reg) \<and> (\<forall>x \<in> set reg. ns_id (ne_spec (snd x)) = fst x))"

lemma beaten_simps [simp]: "ns_id (ne_spec (beaten t b e)) = ns_id (ne_spec e)" "ne_last (beaten t b e) = t"
  by (simp_all add: beaten_def Let_def)

lemma registry_apply_eq:
  "registry_apply (t, Registered spec) reg = AList.update (ns_id spec) \<lparr>ne_spec = spec, ne_last = t\<rparr> reg"
  "registry_apply (t, Beaten beat) reg =
     (case map_of reg (nb_id beat) of None \<Rightarrow> reg | Some e \<Rightarrow> AList.update (nb_id beat) (beaten t beat e) reg)"
  "registry_apply (t, CleanedUp) reg = filter (is_fresh t \<circ> snd) reg"
  by (simp_all add: register_node_def node_register_def heartbeat_request_def node_heartbeat_def node_cleanup_def
      Let_def case_prod_beta' comp_def split: option.split)

lemma set_update_distinct:
  "distinct (map fst reg) \<Longrightarrow> set (AList.update i e reg) = {(j, x) \<in> set reg. j \<noteq> i} \<union> {(i, e)}"
proof (induction reg)
  case (Cons ix reg)
  then show ?case by (cases ix) (auto simp: image_iff)
qed simp

lemma registry_ok_apply: "registry_ok reg \<Longrightarrow> registry_ok (registry_apply te reg)"
proof (induction te reg rule: registry_apply.induct)
  case (3 t reg)
  then show ?case
    unfolding registry_apply_eq by (auto simp: registry_ok_def distinct_map_filter)
qed (auto simp: registry_apply_eq registry_ok_def distinct_update set_update_distinct dest!: map_of_SomeD
    simp del: registry_apply.simps split: option.split)

lemma registry_ok_run: "registry_ok reg \<Longrightarrow> registry_ok (fold registry_apply tes reg)"
  by (induction tes arbitrary: reg) (auto intro: registry_ok_apply)

lemma map_of_filter_snd:
  "distinct (map fst reg) \<Longrightarrow> map_of (filter (P \<circ> snd) reg) i = Option.bind (map_of reg i) (\<lambda>e. if P e then Some e else None)"
  by (induction reg) (auto simp: map_of_eq_None_iff image_iff split: bind_split)

lemma timer_step:
  assumes "registry_ok reg"
  shows "map_option ne_last (map_of (registry_apply te reg) i) = timer i te (map_option ne_last (map_of reg i))"
proof (cases te)
  case (Pair t ev)
  then show ?thesis
    using assms
    by (cases ev) (auto simp: registry_apply_eq update_conv' registry_ok_def map_of_filter_snd is_fresh_def
        simp del: registry_apply.simps map_of_eq_Some_iff Some_eq_map_of_iff split: option.split bind_split)
qed

lemma timer_run:
  "registry_ok reg \<Longrightarrow>
    map_option ne_last (map_of (fold registry_apply tes reg) i) = fold (timer i) tes (map_option ne_last (map_of reg i))"
  by (induction tes arbitrary: reg) (auto simp: timer_step registry_ok_apply)

lemma fresh_ids:
  assumes "registry_ok reg"
  shows "i \<in> node_id ` set (fresh_nodes t reg) \<longleftrightarrow> (\<exists>e. map_of reg i = Some e \<and> is_fresh t e)"
proof -
  have "node_id (node_spec_to_scheduler_node spec) = ns_id spec" for spec
    by (simp add: node_spec_to_scheduler_node_def node_new_def)
  then have "node_id ` set (fresh_nodes t reg) = (\<lambda>e. ns_id (ne_spec e)) ` {e \<in> snd ` set reg. is_fresh t e}"
    by (simp add: fresh_nodes_def image_image)
  then have "i \<in> node_id ` set (fresh_nodes t reg) \<longleftrightarrow> (\<exists>x \<in> set reg. ns_id (ne_spec (snd x)) = i \<and> is_fresh t (snd x))"
    by (auto simp: image_iff)
  also have "\<dots> \<longleftrightarrow> (\<exists>e. (i, e) \<in> set reg \<and> is_fresh t e)"
    using assms unfolding registry_ok_def by (metis fst_conv prod.collapse snd_conv)
  also have "\<dots> \<longleftrightarrow> (\<exists>e. map_of reg i = Some e \<and> is_fresh t e)"
    using assms by (simp add: registry_ok_def)
  finally show ?thesis .
qed

text \<open>
  C30: Whatever is registered, heard of and cleaned up, and in whatever order, the registry keeps for
  each node the time it was registered or last heard of, as one timer for each node would: no node
  affects another, a heartbeat counts only for a known node, and a node is given to the scheduler
  exactly while its timer is less than 30 s old.
\<close>

theorem registry_is_timers:
  "map_option ne_last (map_of (fold registry_apply tes node_registry_new) i) = fold (timer i) tes None \<and>
   (i \<in> node_id ` set (fresh_nodes t (fold registry_apply tes node_registry_new)) \<longleftrightarrow>
     (\<exists>t'. fold (timer i) tes None = Some t' \<and> t - t' < 30 * 10 ^ 9))"
proof -
  have ok: "registry_ok node_registry_new"
    by (simp add: registry_ok_def node_registry_new_def)
  let ?reg = "fold registry_apply tes node_registry_new"
  have "map_option ne_last (map_of ?reg i) = fold (timer i) tes None"
    using timer_run[OF ok] by (simp add: node_registry_new_def)
  then show ?thesis
    unfolding fresh_ids[OF registry_ok_run[OF ok]] is_fresh_def heartbeat_ttl_def
    by (auto simp flip: \<open>map_option ne_last (map_of ?reg i) = fold (timer i) tes None\<close>)
qed

subsection \<open>Placement after a synchronisation\<close>

definition offers :: "SchCap \<Rightarrow> NodeSpec \<Rightarrow> bool" where
  "offers req spec = (\<exists>c \<in> node_caps (node_spec_to_scheduler_node spec). sch_cap_leq req c)"

text \<open>Nodes without a quota and with a closed breaker.\<close>

definition unlimited :: "sched \<Rightarrow> bool" where
  "unlimited s = (\<forall>n \<in> set s. rt_quota n = None \<and> breaker_state (rt_breaker n) = 0)"

lemma unlimited_usable: "unlimited s \<Longrightarrow> n \<in> set s \<Longrightarrow> usable now req n = covers req n"
  by (auto simp: unlimited_def usable_def breaker_allow_def quota_reached_def)

lemma unlimited_probed: "unlimited s \<Longrightarrow> n \<in> set s \<Longrightarrow> probed now req n = n"
  by (auto simp: unlimited_def probed_def breaker_allow_def)

lemma unlimited_place:
  assumes "unlimited s" and "place now req s = (r, s')"
  shows "unlimited s' \<and> map rt_id s' = map rt_id s \<and> map rt_caps s' = map rt_caps s \<and>
    (r = None \<longleftrightarrow> (\<forall>n \<in> set s. \<not> covers req n)) \<and>
    (\<forall>p. r = Some p \<longrightarrow> (\<exists>n \<in> set s. covers req n \<and> pl_node p = rt_id n))"
proof -
  have probed: "map (probed now req) s = s"
    using assms(1) by (simp add: unlimited_probed map_idI)
  from assms(2) show ?thesis
  proof (cases rule: place_cases)
    case none
    moreover have "\<forall>n \<in> set s. \<not> usable now req n"
      using least_spec[where now = now and req = req and i = 0 and ns = s] assms(2) none
      by (auto simp: place_def place_scan_eq better_def split: option.splits)
    ultimately show ?thesis
      using assms(1) probed by (simp add: unlimited_usable)
  next
    case (some i)
    then have "covers req (s ! i)" "s ! i \<in> set s"
      using assms(1) unlimited_usable by auto
    moreover from this have s': "s' = s[i := (s ! i)\<lparr>rt_load := rt_load (s ! i) + 1\<rparr>]"
      using some probed unlimited_probed[OF assms(1), of "s ! i" now req] by simp
    moreover have "unlimited s'"
      using assms(1) \<open>s ! i \<in> set s\<close> unfolding s' unlimited_def by (auto dest: set_update_subset_insert[THEN subsetD])
    ultimately show ?thesis
      using some by (auto simp: map_update list_update_same_conv)
  qed
qed

definition any_covers :: "SchCap \<Rightarrow> sched \<Rightarrow> bool" where
  "any_covers req s = (\<exists>n \<in> set s. covers req n)"

lemma covers_nodes:
  "map rt_id s' = map rt_id s \<Longrightarrow> map rt_caps s' = map rt_caps s \<Longrightarrow>
    (\<exists>n \<in> set s'. covers req n \<and> i = rt_id n) = (\<exists>n \<in> set s. covers req n \<and> i = rt_id n)"
proof (induction s' arbitrary: s)
  case (Cons n s')
  then obtain m t where "s = m # t" "rt_id m = rt_id n" "rt_caps m = rt_caps n"
      "map rt_id s' = map rt_id t" "map rt_caps s' = map rt_caps t"
    by (cases s) auto
  with Cons.IH[of t] show ?case by (auto simp: covers_def)
qed auto

lemma unlimited_places:
  assumes "unlimited s"
  shows "unlimited (((\<lambda>s. snd (place now req s)) ^^ k) s) \<and>
    map rt_id (((\<lambda>s. snd (place now req s)) ^^ k) s) = map rt_id s \<and>
    map rt_caps (((\<lambda>s. snd (place now req s)) ^^ k) s) = map rt_caps s"
proof (induction k)
  case (Suc k)
  then show ?case
    using unlimited_place[of "((\<lambda>s. snd (place now req s)) ^^ k) s" now req, OF _ prod.collapse[symmetric]] by simp
qed (simp add: assms)

lemma unlimited_sync: "unlimited (periodic_sync t reg s)"
  by (auto simp: unlimited_def periodic_sync_def sync_nodes_def fresh_nodes_def runtime_of_def
      node_spec_to_scheduler_node_def node_new_def breaker_new_def)

lemma covers_synced:
  "(\<exists>n \<in> set (periodic_sync t reg s). covers req n \<and> i = rt_id n) \<longleftrightarrow>
   (\<exists>e \<in> snd ` set reg. is_fresh t e \<and> offers req (ne_spec e) \<and> i = ns_id (ne_spec e))"
  by (auto simp: periodic_sync_def sync_nodes_def fresh_nodes_def covers_def offers_def runtime_of_def
      node_spec_to_scheduler_node_def node_new_def)

text \<open>
  C31: Once the scheduler has taken the nodes of the registry, whatever it held before, it places every
  task whose capability some fresh node declares, or one above it, on such a node, however many it has
  placed: the nodes come without a quota, with no load and with closed breakers, so that nothing is
  ever held back and the tasks that still run are not counted.
\<close>

theorem registry_nodes_never_full:
  "case fst (place now req (((\<lambda>s. snd (place now req s)) ^^ k) (periodic_sync t reg s))) of
     None \<Rightarrow> \<not> (\<exists>e \<in> snd ` set reg. is_fresh t e \<and> offers req (ne_spec e))
   | Some p \<Rightarrow> \<exists>e \<in> snd ` set reg. is_fresh t e \<and> offers req (ne_spec e) \<and> pl_node p = ns_id (ne_spec e)"
proof -
  define s1 where "s1 = ((\<lambda>s. snd (place now req s)) ^^ k) (periodic_sync t reg s)"
  have s1: "unlimited s1" "map rt_id s1 = map rt_id (periodic_sync t reg s)"
      "map rt_caps s1 = map rt_caps (periodic_sync t reg s)"
    using unlimited_places[OF unlimited_sync] unfolding s1_def by blast+
  have "(\<exists>n \<in> set s1. covers req n \<and> i = rt_id n) \<longleftrightarrow>
      (\<exists>e \<in> snd ` set reg. is_fresh t e \<and> offers req (ne_spec e) \<and> i = ns_id (ne_spec e))" for i
    unfolding covers_nodes[OF s1(2,3)] by (rule covers_synced)
  note covering = this
  have placed: "fst (place now req s1) = None \<longleftrightarrow> (\<forall>n \<in> set s1. \<not> covers req n)"
      "\<And>p. fst (place now req s1) = Some p \<Longrightarrow> \<exists>n \<in> set s1. covers req n \<and> pl_node p = rt_id n"
    using unlimited_place[OF s1(1) prod.collapse[symmetric], of now req] by blast+
  show ?thesis
    unfolding s1_def[symmetric]
  proof (cases "fst (place now req s1)")
    case None
    with placed(1) covering show "case fst (place now req s1) of
        None \<Rightarrow> \<not> (\<exists>e \<in> snd ` set reg. is_fresh t e \<and> offers req (ne_spec e))
      | Some p \<Rightarrow> \<exists>e \<in> snd ` set reg. is_fresh t e \<and> offers req (ne_spec e) \<and> pl_node p = ns_id (ne_spec e)"
      by simp blast
  next
    case (Some p)
    with placed(2)[OF Some] covering show "case fst (place now req s1) of
        None \<Rightarrow> \<not> (\<exists>e \<in> snd ` set reg. is_fresh t e \<and> offers req (ne_spec e))
      | Some p \<Rightarrow> \<exists>e \<in> snd ` set reg. is_fresh t e \<and> offers req (ne_spec e) \<and> pl_node p = ns_id (ne_spec e)"
      by simp
  qed
qed

end
