(* ===== verification/Convert.thy ===== *)
theory Convert
  imports ControlPlaneCorrect TaskSpecs
begin

section \<open>From the compiler to the control plane (control-plane/src/convert.rs)\<close>

text \<open>
  A specification of the compiler becomes one of the control plane, whose levels are texts; the
  capability is then read by the scheduler, which has its own enumeration and its own order. The
  texts are what the derived \<open>Debug\<close> prints, in lower case.
\<close>

fun debug_capability :: "Channels.Capability \<Rightarrow> ustr" where
  "debug_capability Capability.Cpu = lit ''Cpu''" | "debug_capability Capability.Gpu = lit ''Gpu''"
| "debug_capability Capability.Sfa = lit ''Sfa''" | "debug_capability Capability.Net = lit ''Net''"

text \<open>\<open>to_lowercase\<close> of a text that is ASCII.\<close>

definition ascii_lowercase :: "ustr \<Rightarrow> ustr" where
  "ascii_lowercase s = map (\<lambda>c. if 65 \<le> c \<and> c \<le> 90 then c + 32 else c) s"

definition effect_to_str :: "Effect \<Rightarrow> ustr" where
  "effect_to_str e = ascii_lowercase (debug_effect e)"

definition capability_to_str :: "Channels.Capability \<Rightarrow> ustr" where
  "capability_to_str c = ascii_lowercase (debug_capability c)"

definition to_pb :: "TaskSpec \<Rightarrow> PbTaskSpec" where
  "to_pb sp = \<lparr>pb_effect = effect_to_str (ts_effect sp), pb_capability = capability_to_str (ts_capability sp),
     pb_key = ts_idempotency_key sp\<rparr>"

subsection \<open>What the scheduler makes of it\<close>

fun to_sched :: "Channels.Capability \<Rightarrow> SchCap" where
  "to_sched Capability.Cpu = SchCap.Cpu" | "to_sched Capability.Gpu = SchCap.Gpu"
| "to_sched Capability.Sfa = SchCap.Sfa" | "to_sched Capability.Net = SchCap.Net"

lemma effect_to_str_eq: "effect_to_str e = show_effect e"
  by (cases e) (simp_all add: effect_to_str_def ascii_lowercase_def lit_def)

lemma capability_to_str_eq: "capability_to_str c = show_capability c"
  by (cases c) (simp_all add: capability_to_str_def ascii_lowercase_def lit_def)

lemma sch_cap_from_show: "sch_cap_from_str (show_capability c) = Some (to_sched c)"
  by (cases c) (simp_all add: sch_cap_from_str_def lit_def)

lemma to_sched_surj: "\<exists>d. e = to_sched d"
  by (cases e) (metis to_sched.simps)+

lemma to_sched_leq:
  "sch_cap_leq (to_sched c) (to_sched d) \<longleftrightarrow> capability_leq c d \<or>
    (c, d) \<in> {(Capability.Gpu, Capability.Sfa), (Capability.Gpu, Capability.Net), (Capability.Sfa, Capability.Net)}"
  by (cases c; cases d) (simp_all add: sch_cap_leq_def)

text \<open>
  C29: A specification of the compiler that is submitted passes the check of its effect, keeps its
  levels and its key, and is placed as a task of its capability. But the scheduler orders the
  capabilities in a chain where the compiler has three that cannot stand for each other: what needs a
  graphics processor may be placed on a node that has only an accelerator or only a network, and what
  needs an accelerator on one that has only a network.
\<close>

theorem compiled_task_placed:
  "submit_check \<lparr>sr_name = name, sr_parent = parent, sr_spec = Some (to_pb sp)\<rparr> = Inr () \<and>
   fst (submit_place now \<lparr>sr_name = name, sr_parent = parent, sr_spec = Some (to_pb sp)\<rparr> cp) =
     map_option pl_node (fst (place now (to_sched (ts_capability sp)) (cp_sched cp))) \<and>
   parse_effect (pb_effect (to_pb sp)) = ts_effect sp \<and>
   parse_capability (pb_capability (to_pb sp)) = ts_capability sp \<and> pb_key (to_pb sp) = ts_idempotency_key sp \<and>
   (covers (to_sched c) n \<longleftrightarrow> (\<exists>d. to_sched d \<in> rt_caps n \<and> (capability_leq c d \<or>
     (c, d) \<in> {(Capability.Gpu, Capability.Sfa), (Capability.Gpu, Capability.Net), (Capability.Sfa, Capability.Net)})))"
proof -
  have "covers (to_sched c) n \<longleftrightarrow> (\<exists>d. to_sched d \<in> rt_caps n \<and> sch_cap_leq (to_sched c) (to_sched d))"
    unfolding covers_def by (metis to_sched_surj)
  then show ?thesis
    by (simp add: to_sched_leq to_pb_def effect_to_str_eq capability_to_str_eq submit_place_def req_capability_def
        sch_cap_from_show case_prod_beta)
qed

end
