(* ===== verification/Json.thy ===== *)
theory Json
  imports Texts
begin

section \<open>JSON values\<close>

text \<open>
  The JSON library is outside the repository: a record of the operations that the source uses, with
  the laws it relies on, and values that obey them.
\<close>

record 'j json_ops =
  j_object :: "(ustr \<times> 'j) list \<Rightarrow> 'j"
  j_array :: "'j list \<Rightarrow> 'j"
  j_string :: "ustr \<Rightarrow> 'j"
  j_strings :: "ustr list \<Rightarrow> 'j"
  j_number :: "nat \<Rightarrow> 'j"
  j_null :: 'j
  j_get :: "'j \<Rightarrow> ustr \<Rightarrow> 'j option"
  j_as_str :: "'j \<Rightarrow> ustr option"
  j_as_strings :: "'j \<Rightarrow> ustr list option"

definition json_ok :: "'j json_ops \<Rightarrow> bool" where
  "json_ok J = ((\<forall>kvs k. distinct (map fst kvs) \<longrightarrow> j_get J (j_object J kvs) k = map_of kvs k) \<and>
     (\<forall>s. j_as_str J (j_string J s) = Some s) \<and> (\<forall>ss. j_as_strings J (j_strings J ss) = Some ss))"

lemma json_get: "json_ok J \<Longrightarrow> distinct (map fst kvs) \<Longrightarrow> j_get J (j_object J kvs) k = map_of kvs k"
  and json_str [simp]: "json_ok J \<Longrightarrow> j_as_str J (j_string J s) = Some s"
  and json_strs [simp]: "json_ok J \<Longrightarrow> j_as_strings J (j_strings J ss) = Some ss"
  by (simp_all add: json_ok_def)

text \<open>The member at the end of a path.\<close>

fun json_at :: "'j json_ops \<Rightarrow> ustr list \<Rightarrow> 'j \<Rightarrow> 'j option" where
  "json_at J [] v = Some v"
| "json_at J (k # ks) v = Option.bind (j_get J v k) (json_at J ks)"

subsection \<open>Values that obey the laws\<close>

datatype json_value =
  JString ustr | JStrings "ustr list" | JNumber nat | JNull | JArray "json_value list" | JObject "(ustr \<times> json_value) list"

definition sample_json :: "json_value json_ops" where
  "sample_json = \<lparr>j_object = JObject, j_array = JArray, j_string = JString, j_strings = JStrings, j_number = JNumber,
     j_null = JNull, j_get = (\<lambda>v k. case v of JObject kvs \<Rightarrow> map_of kvs k | _ \<Rightarrow> None),
     j_as_str = (\<lambda>v. case v of JString s \<Rightarrow> Some s | _ \<Rightarrow> None),
     j_as_strings = (\<lambda>v. case v of JStrings ss \<Rightarrow> Some ss | _ \<Rightarrow> None)\<rparr>"

lemma sample_json_ok: "json_ok sample_json"
  by (simp add: json_ok_def sample_json_def)

lemma sample_json_simps:
  "j_object sample_json = JObject" "j_string sample_json = JString" "j_strings sample_json = JStrings"
  "j_number sample_json = JNumber" "j_get sample_json (JObject kvs) k = map_of kvs k"
  "j_as_str sample_json (JString s) = Some s" "j_as_strings sample_json (JStrings ss) = Some ss"
  by (simp_all add: sample_json_def)

end
