(* ===== verification/Handshake.thy ===== *)
theory Handshake
  imports Json "HOL-Library.AList"
begin

section \<open>The handshake of agents (dalin-handshake/src)\<close>

text \<open>
  The protocol engine over a transport: discovery, handshakes, sessions and heartbeats. Outside the
  repository are the JSON library, whose operations on values are the record \<open>json_ops\<close>, and
  drawn identifiers and the clock, which the record \<open>henv\<close> gives as sequences: the \<open>n\<close>-th identifier
  and the \<open>n\<close>-th reading, in nanoseconds. Every created message and session draws from them, and the
  engine keeps the position. A hash map is an association list without duplicate keys.
\<close>

subsection \<open>Messages and sessions (types.rs)\<close>

record henv =
  h_uuid :: "nat \<Rightarrow> ustr"
  h_clock :: "nat \<Rightarrow> int"
  h_rfc3339 :: "int \<Rightarrow> ustr"

datatype MessageType =
  MDiscovery | MDiscoveryAck | MHandshakeReq | MHandshakeResp | MData | MPing | MPong | MError | MDisconnect

record 'j Message =
  m_id :: ustr
  m_type :: MessageType
  m_version :: ustr
  m_from :: ustr
  m_to :: ustr
  m_session :: "ustr option"
  m_timestamp :: ustr
  m_payload :: 'j
  m_correlation :: "ustr option"

datatype HandshakeState = HInit | HDiscovered | HConnecting | HConnected | HActive | HClosed

fun show_state :: "HandshakeState \<Rightarrow> ustr" where
  "show_state HInit = lit ''init''" | "show_state HDiscovered = lit ''discovered''"
| "show_state HConnecting = lit ''connecting''" | "show_state HConnected = lit ''connected''"
| "show_state HActive = lit ''active''" | "show_state HClosed = lit ''closed''"

record Session =
  se_id :: ustr
  se_peer_id :: ustr
  se_peer_name :: ustr
  se_state :: HandshakeState
  se_granted :: "ustr list"
  se_keep_alive :: nat
  se_created_at :: int
  se_last_heartbeat :: int

datatype TransportKind = KFile | KUnix | KTcp | KMemory | KOther ustr

fun show_kind :: "TransportKind \<Rightarrow> ustr" where
  "show_kind KFile = lit ''file''" | "show_kind KUnix = lit ''unix''" | "show_kind KTcp = lit ''tcp''"
| "show_kind KMemory = lit ''memory''" | "show_kind (KOther s) = s"

record PeerInfo =
  pe_agent_id :: ustr
  pe_agent_name :: ustr
  pe_agent_version :: ustr
  pe_language :: ustr
  pe_transport :: TransportKind
  pe_endpoint :: ustr
  pe_capabilities :: "ustr list"

record Discovery =
  di_protocol :: ustr
  di_agent_id :: ustr
  di_agent_name :: ustr
  di_agent_version :: ustr
  di_language :: ustr
  di_transport :: TransportKind
  di_endpoint :: ustr
  di_capabilities :: "ustr list"
  di_started_at :: ustr
  di_ttl_seconds :: nat

definition discovery_new :: "henv \<Rightarrow> nat \<Rightarrow> ustr \<Rightarrow> ustr \<Rightarrow> ustr \<Rightarrow> TransportKind \<Rightarrow> ustr \<Rightarrow> Discovery" where
  "discovery_new E n agent_id name version kind endpoint =
     \<lparr>di_protocol = lit ''ahp/1.0'', di_agent_id = agent_id, di_agent_name = name, di_agent_version = version,
      di_language = lit ''rust'', di_transport = kind, di_endpoint = endpoint, di_capabilities = [],
      di_started_at = h_rfc3339 E (h_clock E n), di_ttl_seconds = 300\<rparr>"

datatype hs_error =
  HTransport ustr | HProtocol ustr | HSerialization ustr | HSession ustr | HAuth ustr | HTimeout ustr
| HNotFound ustr | HAlreadyExists ustr | HIo ustr | HInternal ustr

text \<open>A message takes one identifier and one reading; a session one identifier and two readings.\<close>

definition message_new :: "henv \<Rightarrow> nat \<Rightarrow> MessageType \<Rightarrow> ustr \<Rightarrow> ustr \<Rightarrow> 'j \<Rightarrow> 'j Message" where
  "message_new E n ty sender receiver payload =
     \<lparr>m_id = h_uuid E n, m_type = ty, m_version = lit ''1.0'', m_from = sender, m_to = receiver,
      m_session = None, m_timestamp = h_rfc3339 E (h_clock E n), m_payload = payload, m_correlation = None\<rparr>"

definition ping_message :: "'j json_ops \<Rightarrow> henv \<Rightarrow> nat \<Rightarrow> ustr \<Rightarrow> ustr \<Rightarrow> ustr \<Rightarrow> 'j Message" where
  "ping_message J E n sender receiver session =
     (message_new E n MPing sender receiver (j_object J []))\<lparr>m_session := Some session\<rparr>"

definition pong_message :: "'j json_ops \<Rightarrow> henv \<Rightarrow> nat \<Rightarrow> 'j Message \<Rightarrow> 'j Message" where
  "pong_message J E n ping =
     (message_new E n MPong (m_to ping) (m_from ping) (j_object J []))
       \<lparr>m_session := m_session ping, m_correlation := Some (m_id ping)\<rparr>"

definition data_message ::
  "henv \<Rightarrow> nat \<Rightarrow> ustr \<Rightarrow> ustr \<Rightarrow> ustr \<Rightarrow> 'j \<Rightarrow> ustr option \<Rightarrow> 'j Message" where
  "data_message E n sender receiver session payload correlation =
     (message_new E n MData sender receiver payload)
       \<lparr>m_session := Some session, m_correlation := correlation\<rparr>"

definition session_new :: "henv \<Rightarrow> nat \<Rightarrow> ustr \<Rightarrow> ustr \<Rightarrow> ustr list \<Rightarrow> Session" where
  "session_new E n peer_id peer_name caps =
     \<lparr>se_id = h_uuid E n, se_peer_id = peer_id, se_peer_name = peer_name, se_state = HConnected,
      se_granted = caps, se_keep_alive = 30, se_created_at = h_clock E n, se_last_heartbeat = h_clock E (n + 1)\<rparr>"

text \<open>The keep-alive interval counts seconds, the clock nanoseconds.\<close>

definition heartbeat_expired :: "int \<Rightarrow> nat \<Rightarrow> Session \<Rightarrow> bool" where
  "heartbeat_expired now max_missed s =
     (now - se_last_heartbeat s > int (se_keep_alive s * max_missed) * 1000000000)"

subsection \<open>Transports (transport/mod.rs)\<close>

text \<open>
  The methods of the trait on a state \<open>'t\<close>. Sending and receiving go through a shared reference, but
  change what the transport holds.
\<close>

record ('t, 'j) transport_ops =
  t_start :: "'t \<Rightarrow> (hs_error + unit) \<times> 't"
  t_stop :: "'t \<Rightarrow> (hs_error + unit) \<times> 't"
  t_send :: "ustr \<Rightarrow> 'j Message \<Rightarrow> 't \<Rightarrow> (hs_error + unit) \<times> 't"
  t_recv :: "'t \<Rightarrow> (hs_error + 'j Message option) \<times> 't"
  t_broadcast :: "'j Message \<Rightarrow> 't \<Rightarrow> (hs_error + unit) \<times> 't"
  t_discover :: "'t \<Rightarrow> (hs_error + PeerInfo list) \<times> 't"

text \<open>The transport within one process.\<close>

record 'j memory =
  mt_name :: ustr
  mt_channel :: "'j Message list"
  mt_peers :: "PeerInfo list"

definition memory_new :: "ustr \<Rightarrow> 'j memory" where
  "memory_new name = \<lparr>mt_name = name, mt_channel = [], mt_peers = []\<rparr>"

definition memory_peer :: "'j memory \<Rightarrow> PeerInfo" where
  "memory_peer t = \<lparr>pe_agent_id = mt_name t, pe_agent_name = mt_name t, pe_agent_version = lit ''1.0.0'',
     pe_language = lit ''rust'', pe_transport = KMemory, pe_endpoint = mt_name t, pe_capabilities = []\<rparr>"

text \<open>Linking two transports: the one of the receiver and the other.\<close>

definition memory_link :: "'j memory \<Rightarrow> 'j memory \<Rightarrow> 'j memory \<times> 'j memory" where
  "memory_link t other =
     (t\<lparr>mt_peers := mt_peers t @ [memory_peer other]\<rparr>, other\<lparr>mt_peers := mt_peers other @ [memory_peer t]\<rparr>)"

definition memory_push :: "'j Message \<Rightarrow> 'j memory \<Rightarrow> 'j memory" where
  "memory_push msg t = t\<lparr>mt_channel := mt_channel t @ [msg]\<rparr>"

definition memory_recv :: "'j memory \<Rightarrow> (hs_error + 'j Message option) \<times> 'j memory" where
  "memory_recv t =
     (if mt_channel t = [] then (Inr None, t)
      else (Inr (Some (last (mt_channel t))), t\<lparr>mt_channel := butlast (mt_channel t)\<rparr>))"

definition memory_ops :: "('j memory, 'j) transport_ops" where
  "memory_ops =
     \<lparr>t_start = (\<lambda>t. (Inr (), t)), t_stop = (\<lambda>t. (Inr (), t)),
      t_send = (\<lambda>_ msg t. (Inr (), memory_push msg t)), t_recv = memory_recv,
      t_broadcast = (\<lambda>msg t. (Inr (), memory_push msg t)), t_discover = (\<lambda>t. (Inr (mt_peers t), t))\<rparr>"

subsection \<open>The protocol engine (protocol.rs)\<close>

record 't protocol =
  hp_agent_id :: ustr
  hp_agent_name :: ustr
  hp_agent_version :: ustr
  hp_transport :: 't
  hp_state :: HandshakeState
  hp_sessions :: "(ustr \<times> Session) list"
  hp_language :: ustr
  hp_heartbeat_interval :: nat
  hp_auth_token :: "ustr option"
  hp_tick :: nat

definition protocol_new :: "ustr \<Rightarrow> ustr \<Rightarrow> ustr \<Rightarrow> 't \<Rightarrow> 't protocol" where
  "protocol_new agent_id name version tr =
     \<lparr>hp_agent_id = agent_id, hp_agent_name = name, hp_agent_version = version, hp_transport = tr,
      hp_state = HInit, hp_sessions = [], hp_language = lit ''rust'', hp_heartbeat_interval = 30,
      hp_auth_token = None, hp_tick = 0\<rparr>"

definition with_auth :: "ustr \<Rightarrow> 't protocol \<Rightarrow> 't protocol" where
  "with_auth token p = p\<lparr>hp_auth_token := Some token\<rparr>"

definition with_language :: "ustr \<Rightarrow> 't protocol \<Rightarrow> 't protocol" where
  "with_language lang p = p\<lparr>hp_language := lang\<rparr>"

definition hs_start :: "('t, 'j) transport_ops \<Rightarrow> 't protocol \<Rightarrow> (hs_error + unit) \<times> 't protocol" where
  "hs_start T p =
     (case t_start T (hp_transport p) of
        (Inl e, t) \<Rightarrow> (Inl e, p\<lparr>hp_transport := t\<rparr>)
      | (Inr _, t) \<Rightarrow> (Inr (), p\<lparr>hp_transport := t, hp_state := HDiscovered\<rparr>))"

text \<open>Going offline: one message to each peer, whatever becomes of it.\<close>

fun say_goodbye ::
  "'j json_ops \<Rightarrow> henv \<Rightarrow> ('t, 'j) transport_ops \<Rightarrow> Session list \<Rightarrow> 't protocol \<Rightarrow> 't protocol" where
  "say_goodbye J E T [] p = p"
| "say_goodbye J E T (s # ss) p =
     say_goodbye J E T ss (p\<lparr>hp_tick := hp_tick p + 1,
       hp_transport := snd (t_send T (se_peer_id s)
         (message_new E (hp_tick p) MDisconnect (hp_agent_id p) (se_peer_id s)
           (j_object J [(lit ''reason'', j_string J (lit ''agent shutting down''))])) (hp_transport p))\<rparr>)"

definition hs_stop ::
  "'j json_ops \<Rightarrow> henv \<Rightarrow> ('t, 'j) transport_ops \<Rightarrow> 't protocol \<Rightarrow> (hs_error + unit) \<times> 't protocol" where
  "hs_stop J E T p =
     (let p1 = (say_goodbye J E T (map snd (hp_sessions p)) p)\<lparr>hp_sessions := []\<rparr> in
      case t_stop T (hp_transport p1) of
        (Inl e, t) \<Rightarrow> (Inl e, p1\<lparr>hp_transport := t\<rparr>)
      | (Inr _, t) \<Rightarrow> (Inr (), p1\<lparr>hp_transport := t, hp_state := HClosed\<rparr>))"

definition hs_discover :: "('t, 'j) transport_ops \<Rightarrow> 't protocol \<Rightarrow> (hs_error + PeerInfo list) \<times> 't protocol" where
  "hs_discover T p = (case t_discover T (hp_transport p) of (r, t) \<Rightarrow> (r, p\<lparr>hp_transport := t\<rparr>))"

definition request_payload :: "'j json_ops \<Rightarrow> 't protocol \<Rightarrow> 'j" where
  "request_payload J p = j_object J
     ([(lit ''version'', j_string J (lit ''1.0'')), (lit ''agent_name'', j_string J (hp_agent_name p)),
       (lit ''agent_version'', j_string J (hp_agent_version p)), (lit ''language'', j_string J (hp_language p)),
       (lit ''requested_capabilities'', j_strings J [])] @
      (case hp_auth_token p of None \<Rightarrow> []
       | Some token \<Rightarrow> [(lit ''auth'', j_object J [(lit ''method'', j_string J (lit ''token'')),
           (lit ''credentials'', j_string J token)])]))"

definition hs_handshake ::
  "'j json_ops \<Rightarrow> henv \<Rightarrow> ('t, 'j) transport_ops \<Rightarrow> PeerInfo \<Rightarrow> 't protocol \<Rightarrow> (hs_error + Session) \<times> 't protocol" where
  "hs_handshake J E T peer p =
     (if hp_state p = HClosed then (Inl (HProtocol (lit ''Protocol is closed'')), p)
      else
        (let n = hp_tick p; p1 = p\<lparr>hp_state := HConnecting, hp_tick := n + 1\<rparr>;
             req = message_new E n MHandshakeReq (hp_agent_id p) (pe_agent_id peer) (request_payload J p) in
         case t_send T (pe_endpoint peer) req (hp_transport p1) of
           (Inl e, t) \<Rightarrow> (Inl e, p1\<lparr>hp_transport := t\<rparr>)
         | (Inr _, t) \<Rightarrow>
             (let session = session_new E (n + 1) (pe_agent_id peer) (pe_agent_name peer) (pe_capabilities peer) in
              (Inr session, p1\<lparr>hp_transport := t, hp_tick := n + 3,
                 hp_sessions := AList.update (se_id session) session (hp_sessions p1), hp_state := HConnected\<rparr>))))"

subsubsection \<open>Handlers\<close>

definition respond :: "henv \<Rightarrow> 'j Message \<Rightarrow> 'j \<Rightarrow> 't protocol \<Rightarrow> 'j Message option \<times> 't protocol" where
  "respond E msg payload p =
     (Some (message_new E (hp_tick p) MHandshakeResp (hp_agent_id p) (m_from msg) payload),
      p\<lparr>hp_tick := hp_tick p + 1\<rparr>)"

definition rejection :: "'j json_ops \<Rightarrow> ustr \<Rightarrow> 'j" where
  "rejection J reason = j_object J [(lit ''status'', j_string J (lit ''rejected'')), (lit ''reason'', j_string J reason)]"

definition str_member :: "'j json_ops \<Rightarrow> 'j \<Rightarrow> ustr \<Rightarrow> ustr option" where
  "str_member J v key = Option.bind (j_get J v key) (j_as_str J)"

text \<open>The condition under which a request is turned away for its credentials.\<close>

definition bad_credentials :: "'j json_ops \<Rightarrow> 'j \<Rightarrow> bool" where
  "bad_credentials J payload =
     (case j_get J payload (lit ''auth'') of
        None \<Rightarrow> False
      | Some auth \<Rightarrow>
          (case (str_member J auth (lit ''credentials''), str_member J auth (lit ''method'')) of
             (Some token, Some meth) \<Rightarrow> meth = lit ''token'' \<and> \<not> starts_with token (lit ''ahp_tkn_'')
           | _ \<Rightarrow> False))"

definition handle_handshake_req ::
  "'j json_ops \<Rightarrow> henv \<Rightarrow> 'j Message \<Rightarrow> 't protocol \<Rightarrow> 'j Message option \<times> 't protocol" where
  "handle_handshake_req J E msg p =
     (let payload = m_payload msg;
          version = (case str_member J payload (lit ''version'') of Some v \<Rightarrow> v | None \<Rightarrow> lit ''unknown'') in
      if version \<noteq> lit ''1.0'' then respond E msg (rejection J (lit ''Unsupported version: '' @ version)) p
      else if bad_credentials J payload then respond E msg (rejection J (lit ''Invalid auth token'')) p
      else
        (let requested = (case Option.bind (j_get J payload (lit ''requested_capabilities'')) (j_as_strings J) of
               Some cs \<Rightarrow> cs | None \<Rightarrow> []);
             n = hp_tick p;
             session = session_new E n (m_from msg)
               (case str_member J payload (lit ''agent_name'') of Some a \<Rightarrow> a | None \<Rightarrow> lit ''unknown'') requested;
             (resp, p1) = respond E msg (j_object J [(lit ''status'', j_string J (lit ''accepted'')),
               (lit ''session_id'', j_string J (se_id session)), (lit ''granted_capabilities'', j_strings J requested),
               (lit ''keep_alive_interval'', j_number J (hp_heartbeat_interval p))])
               (p\<lparr>hp_tick := n + 2, hp_sessions := AList.update (se_id session) session (hp_sessions p)\<rparr>) in
         (resp, p1\<lparr>hp_state := HConnected\<rparr>)))"

definition handle_handshake_resp ::
  "'j json_ops \<Rightarrow> 'j Message \<Rightarrow> 't protocol \<Rightarrow> (hs_error + 'j Message option) \<times> 't protocol" where
  "handle_handshake_resp J msg p =
     (let status = (case str_member J (m_payload msg) (lit ''status'') of Some s \<Rightarrow> s | None \<Rightarrow> lit ''rejected'') in
      if status = lit ''accepted'' then
        (Inr (Some msg),
         case str_member J (m_payload msg) (lit ''session_id'') of
           None \<Rightarrow> p
         | Some sid \<Rightarrow>
             (case map_of (hp_sessions p) sid of
                None \<Rightarrow> p
              | Some s \<Rightarrow> p\<lparr>hp_sessions := AList.update sid (s\<lparr>se_state := HActive\<rparr>) (hp_sessions p), hp_state := HActive\<rparr>))
      else
        (Inl (HAuth (lit ''Handshake rejected: '' @
           (case str_member J (m_payload msg) (lit ''reason'') of Some r \<Rightarrow> r | None \<Rightarrow> lit ''unknown''))), p))"

text \<open>The session of a message, when it names one that is known, gets a fresh heartbeat.\<close>

definition touch_session :: "henv \<Rightarrow> 'j Message \<Rightarrow> 't protocol \<Rightarrow> 't protocol" where
  "touch_session E msg p =
     (case Option.bind (m_session msg) (map_of (hp_sessions p)) of
        None \<Rightarrow> p
      | Some s \<Rightarrow> p\<lparr>hp_tick := hp_tick p + 1, hp_sessions :=
          AList.update (the (m_session msg)) (s\<lparr>se_last_heartbeat := h_clock E (hp_tick p)\<rparr>) (hp_sessions p)\<rparr>)"

definition handle_ping ::
  "'j json_ops \<Rightarrow> henv \<Rightarrow> 'j Message \<Rightarrow> 't protocol \<Rightarrow> 'j Message option \<times> 't protocol" where
  "handle_ping J E msg p =
     (Some (pong_message J E (hp_tick p) msg), touch_session E msg (p\<lparr>hp_tick := hp_tick p + 1\<rparr>))"

definition handle_disconnect :: "'j Message \<Rightarrow> 't protocol \<Rightarrow> 't protocol" where
  "handle_disconnect msg p =
     (case m_session msg of
        None \<Rightarrow> p
      | Some sid \<Rightarrow> p\<lparr>hp_sessions := AList.delete sid (hp_sessions p)\<rparr>)"

definition handle_message ::
  "'j json_ops \<Rightarrow> henv \<Rightarrow> 'j Message \<Rightarrow> 't protocol \<Rightarrow> (hs_error + 'j Message option) \<times> 't protocol" where
  "handle_message J E msg p =
     (case m_type msg of
        MHandshakeReq \<Rightarrow> map_prod Inr id (handle_handshake_req J E msg p)
      | MHandshakeResp \<Rightarrow> handle_handshake_resp J msg p
      | MPing \<Rightarrow> map_prod Inr id (handle_ping J E msg p)
      | MPong \<Rightarrow> (Inr None, touch_session E msg p)
      | MData \<Rightarrow> (Inr (Some msg), p)
      | MDisconnect \<Rightarrow> (Inr None, handle_disconnect msg p)
      | _ \<Rightarrow> (Inr None, p))"

subsubsection \<open>Sending and cleaning up\<close>

definition send_heartbeat ::
  "'j json_ops \<Rightarrow> henv \<Rightarrow> ('t, 'j) transport_ops \<Rightarrow> ustr \<Rightarrow> 't protocol \<Rightarrow> (hs_error + unit) \<times> 't protocol" where
  "send_heartbeat J E T sid p =
     (case map_of (hp_sessions p) sid of
        None \<Rightarrow> (Inr (), p)
      | Some s \<Rightarrow>
          (case t_send T (se_peer_id s) (ping_message J E (hp_tick p) (hp_agent_id p) (se_peer_id s) sid) (hp_transport p) of
             (r, t) \<Rightarrow> (r, p\<lparr>hp_transport := t, hp_tick := hp_tick p + 1\<rparr>)))"

definition send_data ::
  "henv \<Rightarrow> ('t, 'j) transport_ops \<Rightarrow> ustr \<Rightarrow> 'j \<Rightarrow> ustr option \<Rightarrow> 't protocol \<Rightarrow> (hs_error + unit) \<times> 't protocol" where
  "send_data E T sid payload correlation p =
     (case map_of (hp_sessions p) sid of
        None \<Rightarrow> (Inl (HSession (lit ''Session not found: '' @ sid)), p)
      | Some s \<Rightarrow>
          (case t_send T (se_peer_id s)
              (data_message E (hp_tick p) (hp_agent_id p) (se_peer_id s) sid payload correlation) (hp_transport p) of
             (r, t) \<Rightarrow> (r, p\<lparr>hp_transport := t, hp_tick := hp_tick p + 1\<rparr>)))"

definition hs_recv :: "('t, 'j) transport_ops \<Rightarrow> 't protocol \<Rightarrow> (hs_error + 'j Message option) \<times> 't protocol" where
  "hs_recv T p = (case t_recv T (hp_transport p) of (r, t) \<Rightarrow> (r, p\<lparr>hp_transport := t\<rparr>))"

text \<open>Each session is compared with a reading of its own.\<close>

fun expire :: "henv \<Rightarrow> nat \<Rightarrow> nat \<Rightarrow> (ustr \<times> Session) list \<Rightarrow> ustr list \<times> (ustr \<times> Session) list" where
  "expire E n max_missed [] = ([], [])"
| "expire E n max_missed ((sid, s) # ss) =
     (let (gone, kept) = expire E (n + 1) max_missed ss in
      if heartbeat_expired (h_clock E n) max_missed s then (sid # gone, kept) else (gone, (sid, s) # kept))"

definition clean_expired_sessions :: "henv \<Rightarrow> nat \<Rightarrow> 't protocol \<Rightarrow> ustr list \<times> 't protocol" where
  "clean_expired_sessions E max_missed p =
     (let (gone, kept) = expire E (hp_tick p) max_missed (hp_sessions p) in
      (gone, p\<lparr>hp_tick := hp_tick p + length (hp_sessions p), hp_sessions := kept\<rparr>))"

subsection \<open>Agents (agent.rs)\<close>

text \<open>An engine with declared capabilities, and the builder that makes it.\<close>

record 'j AgentCapability =
  ca_name :: ustr
  ca_version :: ustr
  ca_description :: "ustr option"
  ca_input_schema :: "'j option"
  ca_output_schema :: "'j option"

definition capability_new :: "ustr \<Rightarrow> ustr \<Rightarrow> 'j AgentCapability" where
  "capability_new name version = \<lparr>ca_name = name, ca_version = version, ca_description = None,
     ca_input_schema = None, ca_output_schema = None\<rparr>"

definition with_description :: "ustr \<Rightarrow> 'j AgentCapability \<Rightarrow> 'j AgentCapability" where
  "with_description desc c = c\<lparr>ca_description := Some desc\<rparr>"

record ('t, 'j) Agent =
  ag_protocol :: "'t protocol"
  ag_capabilities :: "'j AgentCapability list"
  ag_started :: bool

definition agent_start :: "('t, 'j) transport_ops \<Rightarrow> ('t, 'j) Agent \<Rightarrow> (hs_error + unit) \<times> ('t, 'j) Agent" where
  "agent_start T ag =
     (case hs_start T (ag_protocol ag) of
        (Inl e, p) \<Rightarrow> (Inl e, ag\<lparr>ag_protocol := p\<rparr>)
      | (Inr _, p) \<Rightarrow> (Inr (), ag\<lparr>ag_protocol := p, ag_started := True\<rparr>))"

definition agent_stop ::
  "'j json_ops \<Rightarrow> henv \<Rightarrow> ('t, 'j) transport_ops \<Rightarrow> ('t, 'j) Agent \<Rightarrow> (hs_error + unit) \<times> ('t, 'j) Agent" where
  "agent_stop J E T ag =
     (case hs_stop J E T (ag_protocol ag) of
        (Inl e, p) \<Rightarrow> (Inl e, ag\<lparr>ag_protocol := p\<rparr>)
      | (Inr _, p) \<Rightarrow> (Inr (), ag\<lparr>ag_protocol := p, ag_started := False\<rparr>))"

text \<open>The other methods hand over to the engine.\<close>

definition on_engine :: "('t protocol \<Rightarrow> 'r \<times> 't protocol) \<Rightarrow> ('t, 'j) Agent \<Rightarrow> 'r \<times> ('t, 'j) Agent" where
  "on_engine f ag = (case f (ag_protocol ag) of (r, p) \<Rightarrow> (r, ag\<lparr>ag_protocol := p\<rparr>))"

definition agent_discover :: "('t, 'j) transport_ops \<Rightarrow> ('t, 'j) Agent \<Rightarrow> (hs_error + PeerInfo list) \<times> ('t, 'j) Agent" where
  "agent_discover T = on_engine (hs_discover T)"

definition agent_handshake ::
  "'j json_ops \<Rightarrow> henv \<Rightarrow> ('t, 'j) transport_ops \<Rightarrow> PeerInfo \<Rightarrow> ('t, 'j) Agent \<Rightarrow> (hs_error + Session) \<times> ('t, 'j) Agent" where
  "agent_handshake J E T peer = on_engine (hs_handshake J E T peer)"

definition agent_send ::
  "henv \<Rightarrow> ('t, 'j) transport_ops \<Rightarrow> ustr \<Rightarrow> 'j \<Rightarrow> ('t, 'j) Agent \<Rightarrow> (hs_error + unit) \<times> ('t, 'j) Agent" where
  "agent_send E T sid payload = on_engine (send_data E T sid payload None)"

definition agent_recv :: "('t, 'j) transport_ops \<Rightarrow> ('t, 'j) Agent \<Rightarrow> (hs_error + 'j Message option) \<times> ('t, 'j) Agent" where
  "agent_recv T = on_engine (hs_recv T)"

definition agent_handle ::
  "'j json_ops \<Rightarrow> henv \<Rightarrow> 'j Message \<Rightarrow> ('t, 'j) Agent \<Rightarrow> (hs_error + 'j Message option) \<times> ('t, 'j) Agent" where
  "agent_handle J E msg = on_engine (handle_message J E msg)"

record ('t, 'j) builder =
  bu_id :: "ustr option"
  bu_name :: "ustr option"
  bu_version :: ustr
  bu_language :: ustr
  bu_transport :: "'t option"
  bu_capabilities :: "'j AgentCapability list"
  bu_auth :: "ustr option"

definition builder_new :: "('t, 'j) builder" where
  "builder_new = \<lparr>bu_id = None, bu_name = None, bu_version = lit ''1.0.0'', bu_language = lit ''rust'',
     bu_transport = None, bu_capabilities = [], bu_auth = None\<rparr>"

definition builder_capability :: "ustr \<Rightarrow> ustr \<Rightarrow> ('t, 'j) builder \<Rightarrow> ('t, 'j) builder" where
  "builder_capability name version b = b\<lparr>bu_capabilities := bu_capabilities b @ [capability_new name version]\<rparr>"

text \<open>\<open>drawn\<close> is the identifier that is generated when none was set.\<close>

definition build_agent :: "ustr \<Rightarrow> ('t, 'j) builder \<Rightarrow> hs_error + ('t, 'j) Agent" where
  "build_agent drawn b =
     (let agent_id = (case bu_id b of Some i \<Rightarrow> i | None \<Rightarrow> drawn);
          name = (case bu_name b of Some n \<Rightarrow> n | None \<Rightarrow> lit ''agent'') in
      case bu_transport b of
        None \<Rightarrow> Inl (HProtocol (lit ''Transport is required''))
      | Some tr \<Rightarrow>
          (let p = protocol_new agent_id name (bu_version b) tr;
               p1 = (case bu_auth b of Some token \<Rightarrow> with_auth token p | None \<Rightarrow> p) in
           Inr \<lparr>ag_protocol = with_language (bu_language b) p1, ag_capabilities = bu_capabilities b, ag_started = False\<rparr>))"

end
