(* ===== verification/HandshakeCorrect.thy ===== *)
theory HandshakeCorrect
  imports Handshake
begin

section \<open>Handshakes, sessions and disconnections\<close>

text \<open>
  Transports that never fail, with the one in memory as the instance; runs of the engine; and what two
  engines make of each other's messages.
\<close>

subsection \<open>Reliable transports\<close>

locale reliable_transport =
  fixes T :: "('t, 'j) transport_ops"
  assumes start_ok: "fst (t_start T t) = Inr ()"
    and stop_ok: "fst (t_stop T t) = Inr ()"
    and send_ok: "fst (t_send T target msg t) = Inr ()"
begin

lemma start_discovers: "fst (hs_start T p) = Inr () \<and> hp_state (snd (hs_start T p)) = HDiscovered"
  using start_ok[of "hp_transport p"] by (auto simp: hs_start_def split: prod.split sum.split)

lemma stop_closes:
  "fst (hs_stop J E T p) = Inr () \<and> hp_state (snd (hs_stop J E T p)) = HClosed \<and> hp_sessions (snd (hs_stop J E T p)) = []"
  using stop_ok by (auto simp: hs_stop_def Let_def split: prod.split sum.split) (metis fst_conv sum.distinct(1))+

lemma handshake_connects:
  assumes "hp_state p \<noteq> HClosed"
  shows "hs_handshake J E T peer p =
    (let n = hp_tick p; s = session_new E (n + 1) (pe_agent_id peer) (pe_agent_name peer) (pe_capabilities peer) in
     (Inr s, p\<lparr>hp_tick := n + 3, hp_state := HConnected,
       hp_sessions := AList.update (se_id s) s (hp_sessions p),
       hp_transport := snd (t_send T (pe_endpoint peer)
         (message_new E n MHandshakeReq (hp_agent_id p) (pe_agent_id peer) (request_payload J p)) (hp_transport p))\<rparr>))"
  using assms send_ok[of "pe_endpoint peer"]
  by (auto simp: hs_handshake_def Let_def split: prod.split sum.split) (metis fst_conv sum.distinct(1))+

end

interpretation memory: reliable_transport memory_ops
  by unfold_locales (simp_all add: memory_ops_def)

subsection \<open>Requests\<close>

definition version_ok :: "'j json_ops \<Rightarrow> 'j \<Rightarrow> bool" where
  "version_ok J payload = (str_member J payload (lit ''version'') = Some (lit ''1.0''))"

lemma status_member:
  assumes "json_ok J"
  shows "str_member J (rejection J r) (lit ''status'') = Some (lit ''rejected'')"
    and "str_member J (j_object J [(lit ''status'', j_string J (lit ''accepted'')), (lit ''session_id'', j_string J sid),
      (lit ''granted_capabilities'', g), (lit ''keep_alive_interval'', k)]) (lit ''status'') = Some (lit ''accepted'')"
    and "str_member J (j_object J [(lit ''status'', j_string J (lit ''accepted'')), (lit ''session_id'', j_string J sid),
      (lit ''granted_capabilities'', g), (lit ''keep_alive_interval'', k)]) (lit ''session_id'') = Some sid"
  using assms by (simp_all add: str_member_def rejection_def json_get lit_def)

lemma unknown_version: "lit ''unknown'' \<noteq> lit ''1.0''"
  by (simp add: lit_def)

lemma handle_req_eq:
  "handle_handshake_req J E msg p =
    (if version_ok J (m_payload msg) \<and> \<not> bad_credentials J (m_payload msg) then
       (let n = hp_tick p;
            requested = (case Option.bind (j_get J (m_payload msg) (lit ''requested_capabilities'')) (j_as_strings J) of
              Some cs \<Rightarrow> cs | None \<Rightarrow> []);
            s = session_new E n (m_from msg)
              (case str_member J (m_payload msg) (lit ''agent_name'') of Some a \<Rightarrow> a | None \<Rightarrow> lit ''unknown'') requested in
        (Some (message_new E (n + 2) MHandshakeResp (hp_agent_id p) (m_from msg)
           (j_object J [(lit ''status'', j_string J (lit ''accepted'')), (lit ''session_id'', j_string J (se_id s)),
             (lit ''granted_capabilities'', j_strings J requested),
             (lit ''keep_alive_interval'', j_number J (hp_heartbeat_interval p))])),
         p\<lparr>hp_tick := n + 3, hp_state := HConnected, hp_sessions := AList.update (se_id s) s (hp_sessions p)\<rparr>))
     else
       (Some (message_new E (hp_tick p) MHandshakeResp (hp_agent_id p) (m_from msg)
          (rejection J (if version_ok J (m_payload msg) then lit ''Invalid auth token''
            else lit ''Unsupported version: '' @ (case str_member J (m_payload msg) (lit ''version'') of
              Some v \<Rightarrow> v | None \<Rightarrow> lit ''unknown'')))),
        p\<lparr>hp_tick := hp_tick p + 1\<rparr>))"
  using unknown_version
  by (auto simp: handle_handshake_req_def version_ok_def respond_def Let_def split: option.split)

lemma request_opens:
  assumes "json_ok J" and "m_type msg = MHandshakeReq"
    and "version_ok J (m_payload msg)" and "\<not> bad_credentials J (m_payload msg)"
  shows "\<exists>resp p' s. handle_message J E msg p = (Inr (Some resp), p') \<and> m_type resp = MHandshakeResp \<and>
    m_to resp = m_from msg \<and>
    str_member J (m_payload resp) (lit ''status'') = Some (lit ''accepted'') \<and>
    str_member J (m_payload resp) (lit ''session_id'') = Some (se_id s) \<and>
    hp_sessions p' = AList.update (se_id s) s (hp_sessions p) \<and> hp_state p' = HConnected \<and>
    se_id s = h_uuid E (hp_tick p) \<and> se_peer_id s = m_from msg \<and> se_state s = HConnected"
  using assms
  by (auto simp: handle_message_def handle_req_eq Let_def message_new_def status_member session_new_def
      intro!: exI[of _ "session_new E (hp_tick p) (m_from msg) a b" for a b])

lemma request_turned_away:
  assumes "json_ok J" and "m_type msg = MHandshakeReq"
    and "\<not> (version_ok J (m_payload msg) \<and> \<not> bad_credentials J (m_payload msg))"
  shows "\<exists>resp. handle_message J E msg p = (Inr (Some resp), p\<lparr>hp_tick := hp_tick p + 1\<rparr>) \<and>
    m_to resp = m_from msg \<and> str_member J (m_payload resp) (lit ''status'') = Some (lit ''rejected'')"
  using assms by (auto simp: handle_message_def handle_req_eq Let_def message_new_def status_member)

text \<open>
  A request is accepted exactly when it names version 1.0 and does not carry a token without the
  prefix of tokens. A request without credentials is accepted by every engine, one with its own
  token too and a closed one too, which it takes back to connected; and only an accepted request
  opens a session.
\<close>

theorem requests_accepted_exactly:
  assumes "json_ok J" and "m_type msg = MHandshakeReq"
  shows "\<exists>resp p'. handle_message J E msg p = (Inr (Some resp), p') \<and> m_to resp = m_from msg \<and>
    (if version_ok J (m_payload msg) \<and> \<not> bad_credentials J (m_payload msg)
     then str_member J (m_payload resp) (lit ''status'') = Some (lit ''accepted'') \<and> hp_state p' = HConnected \<and>
       (\<exists>s. str_member J (m_payload resp) (lit ''session_id'') = Some (se_id s) \<and> se_peer_id s = m_from msg \<and>
         hp_sessions p' = AList.update (se_id s) s (hp_sessions p))
     else str_member J (m_payload resp) (lit ''status'') = Some (lit ''rejected'') \<and>
       hp_state p' = hp_state p \<and> hp_sessions p' = hp_sessions p)"
proof (cases "version_ok J (m_payload msg) \<and> \<not> bad_credentials J (m_payload msg)")
  case True
  then show ?thesis using request_opens[OF assms, of E p] by auto
next
  case False
  then show ?thesis using request_turned_away[OF assms False, of E p] by auto
qed

definition sample_env :: henv where
  "sample_env = \<lparr>h_uuid = (\<lambda>n. lit ''id'' @ [n]), h_clock = int, h_rfc3339 = (\<lambda>_. lit ''now'')\<rparr>"

definition sample_engine :: "string \<Rightarrow> json_value memory protocol" where
  "sample_engine name = protocol_new (lit name) (lit name) (lit ''1.0.0'') (memory_new (lit name))"

definition sample_request :: "json_value Message" where
  "sample_request = message_new sample_env 0 MHandshakeReq (lit ''a'') (lit ''b'')
     (request_payload sample_json (sample_engine ''a''))"

theorem requests_accepted_exactly_witness:
  "\<exists>resp p'. handle_message sample_json sample_env sample_request (sample_engine ''b'') = (Inr (Some resp), p') \<and>
    hp_state p' = HConnected"
proof -
  have "version_ok sample_json (m_payload sample_request) \<and> \<not> bad_credentials sample_json (m_payload sample_request)"
    by (simp add: sample_request_def message_new_def request_payload_def version_ok_def bad_credentials_def
        str_member_def sample_json_simps sample_engine_def protocol_new_def lit_def)
  moreover have "m_type sample_request = MHandshakeReq"
    by (simp add: sample_request_def message_new_def)
  ultimately show ?thesis
    using requests_accepted_exactly[OF sample_json_ok, of sample_request sample_env "sample_engine ''b''"] by auto
qed

subsection \<open>Two engines\<close>

text \<open>What an engine asks for is accepted, unless its token lacks the prefix.\<close>

definition token_ok :: "'t protocol \<Rightarrow> bool" where
  "token_ok p = pred_option (\<lambda>token. starts_with token (lit ''ahp_tkn_'')) (hp_auth_token p)"

lemma own_request_accepted:
  assumes "json_ok J"
  shows "version_ok J (request_payload J p)"
    and "bad_credentials J (request_payload J p) = (\<not> token_ok p)"
  using assms
  by (auto simp: version_ok_def bad_credentials_def token_ok_def request_payload_def str_member_def json_get lit_def
      split: option.split)

text \<open>
  C37: A handshake that is accepted never becomes active. Let the first engine not be closed and have no
  token or one that starts with \<open>ahp_tkn_\<close>, and let the identifier that the second draws be neither the
  one that the first draws nor one of the first's sessions. Then the request of the first is accepted by
  the second; but the second opens a session under an identifier of its own and answers with that one,
  which is not the identifier of the session the first has opened, so that the answer changes nothing:
  each side is left connected, with a session the other does not know. An engine with another token is
  turned away (\<open>request_turned_away\<close>).
\<close>

theorem handshake_never_active:
  assumes "json_ok J" and "hp_state a \<noteq> HClosed" and "token_ok a"
    and "h_uuid EB (hp_tick b) \<noteq> h_uuid EA (hp_tick a + 1)"
    and "map_of (hp_sessions a) (h_uuid EB (hp_tick b)) = None"
  shows "\<exists>sa a' resp b' sb. hs_handshake J EA memory_ops peer a = (Inr sa, a') \<and>
    handle_message J EB (last (mt_channel (hp_transport a'))) b = (Inr (Some resp), b') \<and>
    handle_message J EA resp a' = (Inr (Some resp), a') \<and>
    hp_state a' = HConnected \<and> hp_state b' = HConnected \<and>
    map_of (hp_sessions a') (se_id sa) = Some sa \<and> map_of (hp_sessions b') (se_id sb) = Some sb \<and>
    str_member J (m_payload resp) (lit ''session_id'') = Some (se_id sb) \<and>
    map_of (hp_sessions a') (se_id sb) = None \<and> se_state sa = HConnected \<and> se_state sb = HConnected"
proof -
  define n where "n = hp_tick a"
  define sa where "sa = session_new EA (n + 1) (pe_agent_id peer) (pe_agent_name peer) (pe_capabilities peer)"
  define req where "req = message_new EA n MHandshakeReq (hp_agent_id a) (pe_agent_id peer) (request_payload J a)"
  define a' where "a' = a\<lparr>hp_tick := n + 3, hp_state := HConnected,
    hp_sessions := AList.update (se_id sa) sa (hp_sessions a), hp_transport := memory_push req (hp_transport a)\<rparr>"
  have one: "hs_handshake J EA memory_ops peer a = (Inr sa, a')"
    using memory.handshake_connects[OF assms(2)]
    by (simp add: Let_def a'_def sa_def req_def n_def memory_ops_def)
  have req: "last (mt_channel (hp_transport a')) = req" "m_type req = MHandshakeReq"
      "version_ok J (m_payload req)" "\<not> bad_credentials J (m_payload req)"
    using assms(1,3) by (simp_all add: a'_def memory_push_def req_def message_new_def own_request_accepted)
  obtain resp b' sb where two: "handle_message J EB req b = (Inr (Some resp), b')" "m_type resp = MHandshakeResp"
      "str_member J (m_payload resp) (lit ''status'') = Some (lit ''accepted'')"
      "str_member J (m_payload resp) (lit ''session_id'') = Some (se_id sb)"
      "hp_sessions b' = AList.update (se_id sb) sb (hp_sessions b)" "hp_state b' = HConnected"
      "se_id sb = h_uuid EB (hp_tick b)" "se_state sb = HConnected"
    using request_opens[OF assms(1) req(2-4)] by metis
  have "map_of (hp_sessions a') (se_id sb) = None"
    using assms(4,5) by (simp add: a'_def two(7) sa_def session_new_def n_def update_conv')
  moreover from this have "handle_message J EA resp a' = (Inr (Some resp), a')"
    by (simp add: handle_message_def handle_handshake_resp_def two(2-4))
  moreover have "map_of (hp_sessions a') (se_id sa) = Some sa" "se_state sa = HConnected" "hp_state a' = HConnected"
    by (simp_all add: a'_def update_conv' sa_def session_new_def)
  moreover have "map_of (hp_sessions b') (se_id sb) = Some sb"
    by (simp add: two(5) update_conv')
  ultimately show ?thesis
    using one two req(1) by metis
qed


theorem handshake_never_active_witness:
  "\<exists>sa a'. hs_handshake sample_json sample_env memory_ops (memory_peer (memory_new (lit ''b'') :: json_value memory)) (sample_engine ''a'') = (Inr sa, a') \<and>
    hp_state a' = HConnected"
proof -
  have "h_uuid sample_env (hp_tick (sample_engine ''b'')) \<noteq> h_uuid sample_env (hp_tick (sample_engine ''a'') + 1)"
    by (simp add: sample_env_def sample_engine_def protocol_new_def)
  moreover have "hp_state (sample_engine ''a'') \<noteq> HClosed" "token_ok (sample_engine ''a'')"
      "map_of (hp_sessions (sample_engine ''a'')) k = None" for k
    by (simp_all add: sample_engine_def protocol_new_def token_ok_def)
  ultimately show ?thesis
    using handshake_never_active[OF sample_json_ok, of "sample_engine ''a''" sample_env "sample_engine ''b''" sample_env] by metis
qed

subsection \<open>Going offline\<close>

lemma memory_send: "t_send memory_ops receiver msg t = (Inr (), memory_push msg t)"
  by (simp add: memory_ops_def)

lemma say_goodbye_memory:
  "\<exists>msgs. hp_transport (say_goodbye J E memory_ops ss p) =
      (hp_transport p)\<lparr>mt_channel := mt_channel (hp_transport p) @ msgs\<rparr> \<and>
    map m_to msgs = map se_peer_id ss \<and> (\<forall>m \<in> set msgs. m_type m = MDisconnect \<and> m_session m = None)"
proof (induction ss arbitrary: p)
  case (Cons s ss)
  define m where "m = message_new E (hp_tick p) MDisconnect (hp_agent_id p) (se_peer_id s)
    (j_object J [(lit ''reason'', j_string J (lit ''agent shutting down''))])"
  have "m_to m = se_peer_id s" "m_type m = MDisconnect" "m_session m = None"
    by (simp_all add: m_def message_new_def)
  moreover obtain msgs where
    "hp_transport (say_goodbye J E memory_ops (s # ss) p) =
      (memory_push m (hp_transport p))\<lparr>mt_channel := mt_channel (memory_push m (hp_transport p)) @ msgs\<rparr>"
    "map m_to msgs = map se_peer_id ss" "\<forall>m \<in> set msgs. m_type m = MDisconnect \<and> m_session m = None"
    using Cons.IH[of "p\<lparr>hp_tick := hp_tick p + 1, hp_transport := memory_push m (hp_transport p)\<rparr>"]
    by (auto simp: memory_send simp flip: m_def)
  ultimately show ?case
    by (intro exI[of _ "m # msgs"]) (simp add: memory_push_def)
qed auto

lemma sessionless_disconnect_ignored:
  "m_type m = MDisconnect \<Longrightarrow> m_session m = None \<Longrightarrow> handle_message J E m q = (Inr None, q)"
  by (simp add: handle_message_def handle_disconnect_def)

text \<open>
  An engine that stops ends its own sessions, is closed, and sends one farewell to the peer of each
  session; but the farewells name no session, and no engine that receives one does anything: the peers
  keep their sessions until the heartbeat expires.
\<close>

theorem goodbye_ignored:
  "\<exists>p' msgs. hs_stop J E memory_ops p = (Inr (), p') \<and> hp_state p' = HClosed \<and> hp_sessions p' = [] \<and>
    mt_channel (hp_transport p') = mt_channel (hp_transport p) @ msgs \<and>
    map m_to msgs = map (se_peer_id \<circ> snd) (hp_sessions p) \<and>
    list_all (\<lambda>m. handle_message J E' m q = (Inr None, q)) msgs"
proof -
  obtain msgs where msgs:
    "hp_transport (say_goodbye J E memory_ops (map snd (hp_sessions p)) p) =
      (hp_transport p)\<lparr>mt_channel := mt_channel (hp_transport p) @ msgs\<rparr>"
    "map m_to msgs = map se_peer_id (map snd (hp_sessions p))"
    "\<forall>m \<in> set msgs. m_type m = MDisconnect \<and> m_session m = None"
    using say_goodbye_memory by metis
  have "list_all (\<lambda>m. handle_message J E' m q = (Inr None, q)) msgs"
    using msgs(3) by (simp add: list_all_iff sessionless_disconnect_ignored)
  with msgs(1,2) show ?thesis
    by (auto simp: hs_stop_def memory_ops_def Let_def)
qed

subsection \<open>Runs of an engine\<close>

text \<open>One operation on an engine, whatever it returns.\<close>

inductive hs_step ::
  "'j json_ops \<Rightarrow> henv \<Rightarrow> ('t, 'j) transport_ops \<Rightarrow> 't protocol \<Rightarrow> 't protocol \<Rightarrow> bool"
  for J E T where
  start: "hs_step J E T p (snd (hs_start T p))"
| stop: "hs_step J E T p (snd (hs_stop J E T p))"
| discover: "hs_step J E T p (snd (hs_discover T p))"
| handshake: "hs_step J E T p (snd (hs_handshake J E T peer p))"
| message: "hs_step J E T p (snd (handle_message J E msg p))"
| heartbeat: "hs_step J E T p (snd (send_heartbeat J E T sid p))"
| data: "hs_step J E T p (snd (send_data E T sid payload correlation p))"
| receive: "hs_step J E T p (snd (hs_recv T p))"
| clean: "hs_step J E T p (snd (clean_expired_sessions E missed p))"

text \<open>
  Sessions are found under their own identifier, each once, and are connected or active; before the
  first start and after a stop there are none.
\<close>

definition session_ok :: "ustr \<times> Session \<Rightarrow> bool" where
  "session_ok ks = (se_id (snd ks) = fst ks \<and> se_state (snd ks) \<in> {HConnected, HActive})"

definition engine_ok :: "'t protocol \<Rightarrow> bool" where
  "engine_ok p = (distinct (map fst (hp_sessions p)) \<and> list_all session_ok (hp_sessions p) \<and>
     (hp_state p = HClosed \<longrightarrow> hp_sessions p = []))"

lemma session_ok_update:
  "list_all session_ok ss \<Longrightarrow> session_ok (k, s) \<Longrightarrow> list_all session_ok (AList.update k s ss)"
  by (induction ss) auto

lemma session_ok_delete: "list_all session_ok ss \<Longrightarrow> list_all session_ok (AList.delete k ss)"
  by (auto simp: list_all_iff AList.delete_eq)

lemma session_ok_map_of: "list_all session_ok ss \<Longrightarrow> map_of ss k = Some s \<Longrightarrow> session_ok (k, s)"
  by (auto simp: list_all_iff dest: map_of_SomeD)

lemma session_ok_change:
  assumes "list_all session_ok ss" and "map_of ss k = Some s"
    and "se_id s' = se_id s" and "se_state s' \<in> {HActive, se_state s}"
  shows "list_all session_ok (AList.update k s' ss)"
  using session_ok_map_of[OF assms(1,2)] assms(3,4) by (intro session_ok_update[OF assms(1)]) (auto simp: session_ok_def)

lemma session_ok_new: "session_ok (se_id (session_new E n a b c), session_new E n a b c)"
  by (simp add: session_ok_def session_new_def)

lemma engine_ok_update:
  "engine_ok p \<Longrightarrow> session_ok (k, s) \<Longrightarrow> st \<noteq> HClosed \<Longrightarrow>
    engine_ok (p\<lparr>hp_tick := n, hp_transport := t, hp_state := st, hp_sessions := AList.update k s (hp_sessions p)\<rparr>)"
  by (simp add: engine_ok_def session_ok_update distinct_update)

lemma expire_sub: "set (snd (expire E n m ss)) \<subseteq> set ss \<and> (distinct (map fst ss) \<longrightarrow> distinct (map fst (snd (expire E n m ss))))"
proof (induction ss arbitrary: n)
  case (Cons ks ss)
  then show ?case
    using Cons.IH[of "n + 1"] by (cases ks) (auto simp: case_prod_beta Let_def image_iff)
qed simp

lemma say_goodbye_keeps [simp]: "hp_sessions (say_goodbye J E T ss p) = hp_sessions p \<and> hp_state (say_goodbye J E T ss p) = hp_state p"
  by (induction ss arbitrary: p) simp_all

lemma engine_ok_message:
  assumes "engine_ok p"
  shows "engine_ok (snd (handle_message J E msg p))"
proof (cases "m_type msg")
  case MHandshakeReq
  then show ?thesis
    using engine_ok_update[OF assms session_ok_new] assms
    by (auto simp: handle_message_def handle_req_eq Let_def engine_ok_def session_ok_update distinct_update session_ok_new)
next
  case MHandshakeResp
  then show ?thesis
    using assms
    by (auto simp: handle_message_def handle_handshake_resp_def Let_def engine_ok_def distinct_update
        elim!: session_ok_change split: option.split)
next
  case MPing
  then show ?thesis
    using assms
    by (auto simp: handle_message_def handle_ping_def touch_session_def Let_def engine_ok_def distinct_update bind_eq_Some_conv
        elim!: session_ok_change split: option.split)
next
  case MPong
  then show ?thesis
    using assms
    by (auto simp: handle_message_def touch_session_def Let_def engine_ok_def distinct_update bind_eq_Some_conv
        elim!: session_ok_change split: option.split)
next
  case MDisconnect
  then show ?thesis
    using assms
    by (auto simp: handle_message_def handle_disconnect_def engine_ok_def distinct_delete intro: session_ok_delete
        split: option.split)
qed (use assms in \<open>simp_all add: handle_message_def\<close>)

lemma engine_ok_step:
  assumes "hs_step J E T p p'" and "engine_ok p"
  shows "engine_ok p'"
  using assms
proof (induction rule: hs_step.induct)
  case (stop p)
  then show ?case by (auto simp: hs_stop_def Let_def engine_ok_def split: prod.split sum.split)
next
  case (handshake p peer)
  then show ?case
    by (auto simp: hs_handshake_def Let_def engine_ok_def session_ok_update distinct_update session_ok_new
        split: prod.split sum.split)
next
  case (message p msg)
  then show ?case by (rule engine_ok_message)
next
  case (clean p missed)
  then show ?case
    using expire_sub[of E "hp_tick p" missed "hp_sessions p"]
    by (auto simp: clean_expired_sessions_def engine_ok_def list_all_iff case_prod_beta Let_def)
qed (auto simp: hs_start_def hs_discover_def send_heartbeat_def send_data_def hs_recv_def engine_ok_def
    split: prod.split sum.split option.split)

lemma engine_ok_runs: "(hs_step J E T)\<^sup>*\<^sup>* p p' \<Longrightarrow> engine_ok p \<Longrightarrow> engine_ok p'"
  by (induction rule: rtranclp_induct) (auto intro: engine_ok_step)

text \<open>
  C36: In every run of an engine, over any transport and with whatever messages arrive, no two sessions
  have the same identifier, each session is kept under its own and is connected or active, and a
  closed engine has no sessions.
\<close>

theorem sessions_well_kept:
  assumes "(hs_step J E T)\<^sup>*\<^sup>* (protocol_new agent_id name version tr) p"
  shows "distinct (map fst (hp_sessions p)) \<and>
    (\<forall>(sid, s) \<in> set (hp_sessions p). se_id s = sid \<and> se_state s \<in> {HConnected, HActive}) \<and>
    (hp_state p = HClosed \<longrightarrow> hp_sessions p = [])"
proof -
  have "engine_ok p"
    using engine_ok_runs[OF assms] by (simp add: engine_ok_def protocol_new_def)
  then show ?thesis
    by (auto simp: engine_ok_def session_ok_def list_all_iff)
qed

lemma first_session:
  "hp_state p \<noteq> HClosed \<Longrightarrow> hp_sessions p = [] \<Longrightarrow> length (hp_sessions (snd (hs_handshake J E memory_ops peer p))) = 1"
  by (simp add: memory.handshake_connects Let_def)

theorem sessions_well_kept_witness:
  "\<exists>p :: json_value memory protocol. length (hp_sessions p) = 1 \<and> distinct (map fst (hp_sessions p))"
proof -
  let ?peer = "memory_peer (memory_new (lit ''b'') :: json_value memory)"
  let ?p = "snd (hs_handshake sample_json sample_env memory_ops ?peer (sample_engine ''a''))"
  have "(hs_step sample_json sample_env memory_ops)\<^sup>*\<^sup>* (sample_engine ''a'') ?p"
    by (intro r_into_rtranclp hs_step.handshake)
  then have "distinct (map fst (hp_sessions ?p))"
    unfolding sample_engine_def by (rule sessions_well_kept[THEN conjunct1])
  moreover have "length (hp_sessions ?p) = 1"
    by (rule first_session) (simp_all add: sample_engine_def protocol_new_def)
  ultimately show ?thesis by blast
qed

end
