(* ===== verification/Operator.thy ===== *)
theory Operator
  imports Json "HOL-Library.AList"
begin

section \<open>The Kubernetes operator (control-plane/src/k8s/operator\_types.rs and controller.rs)\<close>

text \<open>
  Tasks with their channels become deployments: resources, the selector of nodes, labels, replicas,
  and the JSON of the deployment. Its enumerations are its own and are written with a \<open>K\<close> in front.
  A \<open>u32\<close> and a \<open>u64\<close> are words; \<open>None\<close> is the panic of an overflow, where overflow is checked
  (\<open>chk\<close>). A hash map is an association list without duplicate keys.
\<close>

type_synonym u32 = "32 word"
type_synonym ku64 = "64 word"

datatype OperatorError =
  InvalidSpec ustr | CompilationFailed ustr ustr | DeploymentFailed ustr ustr | ResourceLimit ustr

subsection \<open>Channels\<close>

datatype KEffect = KPure | KIo | KAsync | KSpawn

fun resource_hints :: "KEffect \<Rightarrow> ustr \<times> ustr" where
  "resource_hints KPure = (lit ''100m'', lit ''128Mi'')" | "resource_hints KIo = (lit ''250m'', lit ''256Mi'')"
| "resource_hints KAsync = (lit ''500m'', lit ''512Mi'')" | "resource_hints KSpawn = (lit ''1'', lit ''1Gi'')"

definition k_effect_from_str :: "ustr \<Rightarrow> ustr + KEffect" where
  "k_effect_from_str s =
     (if s = lit ''pure'' then Inr KPure else if s = lit ''io'' then Inr KIo
      else if s = lit ''async'' then Inr KAsync else if s = lit ''spawn'' then Inr KSpawn
      else Inl (lit ''Unknown effect: '' @ s))"

datatype KCapability = KCpu | KGpu | KSfa | KNet | KMixed

fun capability_selector :: "KCapability \<Rightarrow> (ustr \<times> ustr) list" where
  "capability_selector KGpu = [(lit ''nvidia.com/gpu'', lit ''true''), (lit ''gpu.vendor'', lit ''nvidia'')]"
| "capability_selector KSfa = [(lit ''accelerator.type'', lit ''sfa''), (lit ''accelerator.family'', lit ''qn1'')]"
| "capability_selector KNet = [(lit ''network.speed'', lit ''10gbit'')]"
| "capability_selector _ = []"

definition needs_gpu :: "KCapability \<Rightarrow> bool" where
  "needs_gpu c = (c \<in> {KGpu, KMixed})"

definition needs_sfa :: "KCapability \<Rightarrow> bool" where
  "needs_sfa c = (c = KSfa)"

definition k_capability_from_str :: "ustr \<Rightarrow> ustr + KCapability" where
  "k_capability_from_str s =
     (if s = lit ''cpu'' then Inr KCpu else if s = lit ''gpu'' then Inr KGpu else if s = lit ''sfa'' then Inr KSfa
      else if s = lit ''net'' then Inr KNet else if s = lit ''mixed'' then Inr KMixed
      else Inl (lit ''Unknown capability: '' @ s))"

datatype KConfidence = KLow | KMedium | KHigh | KVerified | KAutoRecover

datatype ReplicaStrategy = Fixed nat | Minimum nat | Quorum u32 u32 | SelfHealing nat nat

definition u32_mul :: "bool \<Rightarrow> u32 \<Rightarrow> u32 \<Rightarrow> u32 option" where
  "u32_mul chk a b = (if chk \<and> 2 ^ 32 \<le> unat a * unat b then None else Some (a * b))"

definition confidence_strategy :: "bool \<Rightarrow> KConfidence \<Rightarrow> u32 \<Rightarrow> ReplicaStrategy option" where
  "confidence_strategy chk c requested =
     (if c = KVerified \<and> 2 \<le> requested then map_option (Quorum requested) (u32_mul chk requested 2)
      else if c = KAutoRecover then Some (SelfHealing 3 1000)
      else if c = KHigh then Some (Minimum 1)
      else Some (Fixed (unat requested)))"

definition k_confidence_from_str :: "ustr \<Rightarrow> ustr + KConfidence" where
  "k_confidence_from_str s =
     (if s = lit ''low'' then Inr KLow else if s = lit ''medium'' then Inr KMedium else if s = lit ''high'' then Inr KHigh
      else if s = lit ''verified'' then Inr KVerified else if s = lit ''auto_recover'' then Inr KAutoRecover
      else Inl (lit ''Unknown confidence: '' @ s))"

datatype KGovernance = KNone | KBasic | KAudit | KTrace | KFull

definition k_governance_from_str :: "ustr \<Rightarrow> ustr + KGovernance" where
  "k_governance_from_str s =
     (if s = lit ''none'' then Inr KNone else if s = lit ''basic'' then Inr KBasic else if s = lit ''audit'' then Inr KAudit
      else if s = lit ''trace'' then Inr KTrace else if s = lit ''full'' then Inr KFull
      else Inl (lit ''Unknown governance: '' @ s))"

datatype KCognitive = KObserve | KReason | KDecide | KAct | KReflect | KSense

definition k_cognitive_from_str :: "ustr \<Rightarrow> ustr + KCognitive" where
  "k_cognitive_from_str s =
     (if s = lit ''observe'' then Inr KObserve else if s = lit ''reason'' then Inr KReason
      else if s = lit ''decide'' then Inr KDecide else if s = lit ''act'' then Inr KAct
      else if s = lit ''reflect'' then Inr KReflect else if s = lit ''sense'' then Inr KSense
      else Inl (lit ''Unknown cognitive loop: '' @ s))"

subsection \<open>Specifications\<close>

record ResourceList =
  rl_cpu :: "ustr option"
  rl_memory :: "ustr option"
  rl_gpu :: "ustr option"

definition no_resources :: ResourceList where
  "no_resources = \<lparr>rl_cpu = None, rl_memory = None, rl_gpu = None\<rparr>"

record ResourceRequirements =
  rr_requests :: "ResourceList option"
  rr_limits :: "ResourceList option"

definition no_requirements :: ResourceRequirements where
  "no_requirements = \<lparr>rr_requests = None, rr_limits = None\<rparr>"

record DalinTaskSpec =
  dk_function_id :: ustr
  dk_cognitive_id :: "ustr option"
  dk_effect :: KEffect
  dk_capability :: KCapability
  dk_latency_ms :: "ku64 option"
  dk_throughput_min :: "ku64 option"
  dk_throughput_max :: "ku64 option"
  dk_governance :: KGovernance
  dk_confidence :: KConfidence
  dk_cognitive_loop :: "KCognitive option"
  dk_replicas :: u32
  dk_max_replicas :: "u32 option"
  dk_min_replicas :: "u32 option"
  dk_resources :: "ResourceRequirements option"
  dk_timeout_seconds :: ku64
  dk_retry_attempts :: u32
  dk_retry_backoff_ms :: ku64
  dk_source_file :: "ustr option"
  dk_source_git_repo :: "ustr option"
  dk_source_git_ref :: "ustr option"
  dk_tags :: "ustr list"
  dk_annotations :: "(ustr \<times> ustr) list"

definition default_task_spec :: DalinTaskSpec where
  "default_task_spec = \<lparr>dk_function_id = [], dk_cognitive_id = None, dk_effect = KIo, dk_capability = KCpu,
     dk_latency_ms = None, dk_throughput_min = None, dk_throughput_max = None, dk_governance = KNone,
     dk_confidence = KMedium, dk_cognitive_loop = None, dk_replicas = 1, dk_max_replicas = Some 10,
     dk_min_replicas = Some 1, dk_resources = None, dk_timeout_seconds = 300, dk_retry_attempts = 3,
     dk_retry_backoff_ms = 1000, dk_source_file = None, dk_source_git_repo = None, dk_source_git_ref = None,
     dk_tags = [], dk_annotations = []\<rparr>"

subsection \<open>Status\<close>

datatype TaskPhase = PhPending | PhCompiling | PhScheduled | PhRunning | PhCompleted | PhFailed | PhRecovering | PhUnknown

fun debug_phase :: "TaskPhase \<Rightarrow> ustr" where
  "debug_phase PhPending = lit ''Pending''" | "debug_phase PhCompiling = lit ''Compiling''"
| "debug_phase PhScheduled = lit ''Scheduled''" | "debug_phase PhRunning = lit ''Running''"
| "debug_phase PhCompleted = lit ''Completed''" | "debug_phase PhFailed = lit ''Failed''"
| "debug_phase PhRecovering = lit ''Recovering''" | "debug_phase PhUnknown = lit ''Unknown''"

record TaskCondition =
  tc_type :: ustr
  tc_status :: ustr
  tc_last_transition :: ustr
  tc_message :: "ustr option"

record 'f ExecutionStats =
  ex_total :: ku64
  ex_successful :: ku64
  ex_failed :: ku64
  ex_avg_latency :: 'f
  ex_recoveries :: ku64

record 'f DalinTaskStatus =
  st_phase :: TaskPhase
  st_ready :: "u32 option"
  st_observed :: "ku64 option"
  st_conditions :: "TaskCondition list"
  st_stats :: "'f ExecutionStats option"
  st_last_run :: "ustr option"

text \<open>\<open>ms\<close> is the reading of the clock, in milliseconds.\<close>

definition status_transition :: "nat \<Rightarrow> TaskPhase \<Rightarrow> 'f DalinTaskStatus \<Rightarrow> 'f DalinTaskStatus" where
  "status_transition ms phase st = st\<lparr>st_phase := phase, st_conditions := st_conditions st @
     [\<lparr>tc_type = lit ''PhaseChange'', tc_status = lit ''True'', tc_last_transition = show_nat ms @ lit ''ms'',
       tc_message = Some (lit ''Phase changed to '' @ debug_phase phase)\<rparr>]\<rparr>"

subsection \<open>Resources\<close>

definition or_default :: "'a \<Rightarrow> 'a option \<Rightarrow> 'a" where
  "or_default d x = (case x of Some v \<Rightarrow> v | None \<Rightarrow> d)"

text \<open>
  The statements of the source one after another: \<open>reqs\<close> is returned, \<open>limits\<close> is a second value of
  the same type that is filled beside it.
\<close>

definition resolve_base :: "KEffect \<Rightarrow> ResourceRequirements \<Rightarrow> ResourceRequirements" where
  "resolve_base eff reqs =
     (let (cpu, mem) = resource_hints eff; r = or_default no_resources (rr_requests reqs) in
      reqs\<lparr>rr_requests := Some (r\<lparr>rl_cpu := Some (or_default cpu (rl_cpu r)), rl_memory := Some (or_default mem (rl_memory r))\<rparr>)\<rparr>)"

definition copy_limits :: "ResourceRequirements \<Rightarrow> ResourceRequirements \<Rightarrow> ResourceRequirements" where
  "copy_limits reqs limits =
     (case rr_requests reqs of
        None \<Rightarrow> limits
      | Some r \<Rightarrow>
          (let l = or_default no_resources (rr_limits limits);
               l1 = (case rl_cpu r of Some cpu \<Rightarrow> l\<lparr>rl_cpu := Some (trim_end_char (uc CHR ''m'') cpu @ lit ''x2'')\<rparr> | None \<Rightarrow> l);
               l2 = (case rl_memory r of Some mem \<Rightarrow> l1\<lparr>rl_memory := Some (mem @ lit ''x2'')\<rparr> | None \<Rightarrow> l1) in
           limits\<lparr>rr_limits := Some l2\<rparr>))"

definition add_gpu ::
  "KCapability \<Rightarrow> ResourceRequirements \<times> ResourceRequirements \<Rightarrow> ResourceRequirements \<times> ResourceRequirements" where
  "add_gpu cap rl =
     (if needs_gpu cap
      then ((fst rl)\<lparr>rr_requests := Some ((or_default no_resources (rr_requests (fst rl)))\<lparr>rl_gpu := Some (lit ''1'')\<rparr>)\<rparr>,
            (snd rl)\<lparr>rr_limits := Some ((or_default no_resources (rr_limits (snd rl)))\<lparr>rl_gpu := Some (lit ''1'')\<rparr>)\<rparr>)
      else rl)"

definition latency_ceiling :: "ku64 option \<Rightarrow> ResourceRequirements \<Rightarrow> ResourceRequirements" where
  "latency_ceiling latency limits =
     (let set = (\<lambda>cpu. limits\<lparr>rr_limits := Some ((or_default no_resources (rr_limits limits))\<lparr>rl_cpu := Some cpu\<rparr>)\<rparr>) in
      case latency of
        None \<Rightarrow> limits
      | Some ms \<Rightarrow> if ms < 10 then set (lit ''2'') else if ms < 100 then set (lit ''1'') else limits)"

definition resolve_resources :: "DalinTaskSpec \<Rightarrow> OperatorError + ResourceRequirements" where
  "resolve_resources spec =
     (let reqs = resolve_base (dk_effect spec) (or_default no_requirements (dk_resources spec));
          limits = copy_limits reqs no_requirements;
          (reqs1, limits1) = add_gpu (dk_capability spec) (reqs, limits);
          limits2 = latency_ceiling (dk_latency_ms spec) limits1 in
      Inr reqs1)"

definition deployment_name :: "ustr \<Rightarrow> ustr" where
  "deployment_name f = lit ''dalin-task-'' @ f"

subsection \<open>Labels\<close>

fun k_effect_label :: "KEffect \<Rightarrow> ustr" where
  "k_effect_label KPure = lit ''pure''" | "k_effect_label KIo = lit ''io''"
| "k_effect_label KAsync = lit ''async''" | "k_effect_label KSpawn = lit ''spawn''"

fun k_capability_label :: "KCapability \<Rightarrow> ustr" where
  "k_capability_label KCpu = lit ''cpu''" | "k_capability_label KGpu = lit ''gpu''" | "k_capability_label KSfa = lit ''sfa''"
| "k_capability_label KNet = lit ''net''" | "k_capability_label KMixed = lit ''mixed''"

text \<open>The debug print has no underscore, so the replacement of underscores changes nothing.\<close>

fun k_confidence_label :: "KConfidence \<Rightarrow> ustr" where
  "k_confidence_label KLow = lit ''low''" | "k_confidence_label KMedium = lit ''medium''"
| "k_confidence_label KHigh = lit ''high''" | "k_confidence_label KVerified = lit ''verified''"
| "k_confidence_label KAutoRecover = lit ''autorecover''"

definition tag_label :: "ustr \<Rightarrow> ustr" where
  "tag_label tag = lit ''tag/'' @ map (\<lambda>c. if c = uc CHR ''/'' then uc CHR ''-'' else c) tag"

definition pod_labels :: "DalinTaskSpec \<Rightarrow> (ustr \<times> ustr) list" where
  "pod_labels spec =
     foldl (\<lambda>ls tag. AList.update (tag_label tag) (lit ''true'') ls)
       [(lit ''app.dalin.ai/task'', dk_function_id spec), (lit ''app.dalin.ai/effect'', k_effect_label (dk_effect spec)),
        (lit ''app.dalin.ai/capability'', k_capability_label (dk_capability spec)),
        (lit ''app.dalin.ai/confidence'', k_confidence_label (dk_confidence spec))]
       (dk_tags spec)"

subsection \<open>Reconciliation\<close>

datatype ReconcileResult = ReScheduled ustr nat | ReFailed ustr | ReNoOp

definition validate_spec :: "DalinTaskSpec \<Rightarrow> OperatorError + unit" where
  "validate_spec spec =
     (if dk_function_id spec = [] then Inl (InvalidSpec (lit ''function_id must not be empty''))
      else if dk_replicas spec = 0 then Inl (InvalidSpec (lit ''replicas must be >= 1''))
      else Inr ())"

fun replica_count :: "ReplicaStrategy \<Rightarrow> u32 \<Rightarrow> nat" where
  "replica_count (Fixed n) _ = n"
| "replica_count (Minimum n) _ = n"
| "replica_count (Quorum least _) _ = unat least"
| "replica_count (SelfHealing _ _) d = unat d"

definition reconcile :: "bool \<Rightarrow> ustr \<Rightarrow> DalinTaskSpec \<Rightarrow> (OperatorError + ReconcileResult) option" where
  "reconcile chk task_name spec =
     (case validate_spec spec of
        Inl e \<Rightarrow> Some (Inl e)
      | Inr _ \<Rightarrow>
          (case resolve_resources spec of
             Inl e \<Rightarrow> Some (Inl e)
           | Inr _ \<Rightarrow> map_option (\<lambda>strategy. Inr (ReScheduled (deployment_name task_name)
               (replica_count strategy (dk_replicas spec)))) (confidence_strategy chk (dk_confidence spec) (dk_replicas spec))))"

subsection \<open>Deployments\<close>

record DeploymentDesire =
  de_name :: ustr
  de_namespace :: ustr
  de_function_id :: ustr
  de_replicas :: nat
  de_resources :: ResourceRequirements
  de_node_selector :: "(ustr \<times> ustr) list"
  de_pod_labels :: "(ustr \<times> ustr) list"
  de_timeout :: ku64
  de_retry_attempts :: u32
  de_effect :: KEffect
  de_confidence :: KConfidence

definition desire_from_spec :: "DalinTaskSpec \<Rightarrow> ustr \<Rightarrow> DeploymentDesire" where
  "desire_from_spec spec namespace =
     \<lparr>de_name = deployment_name (dk_function_id spec), de_namespace = namespace, de_function_id = dk_function_id spec,
      de_replicas = unat (dk_replicas spec),
      de_resources = (case resolve_resources spec of Inr r \<Rightarrow> r | Inl _ \<Rightarrow> no_requirements),
      de_node_selector = capability_selector (dk_capability spec), de_pod_labels = pod_labels spec,
      de_timeout = dk_timeout_seconds spec, de_retry_attempts = dk_retry_attempts spec,
      de_effect = dk_effect spec, de_confidence = dk_confidence spec\<rparr>"

definition string_object :: "'j json_ops \<Rightarrow> (ustr \<times> ustr) list \<Rightarrow> 'j" where
  "string_object J kvs = j_object J (map (map_prod id (j_string J)) kvs)"

definition quantity :: "(ResourceList \<Rightarrow> ustr option) \<Rightarrow> ResourceList option \<Rightarrow> ustr \<Rightarrow> ustr" where
  "quantity field r d = or_default d (Option.bind r field)"

definition container_json :: "'j json_ops \<Rightarrow> DeploymentDesire \<Rightarrow> 'j" where
  "container_json J d =
     (let req = rr_requests (de_resources d); lim = rr_limits (de_resources d) in
      j_object J
       [(lit ''name'', j_string J (de_function_id d)),
        (lit ''image'', j_string J (lit ''ghcr.io/cn-qn1-dalin/dalin-l-runtime:latest'')),
        (lit ''command'', j_strings J [lit ''/usr/local/bin/dalib'', lit ''cpd'', lit ''--mode'', lit ''runner'']),
        (lit ''env'', j_array J
          [string_object J [(lit ''name'', lit ''DALIN_TASK_ID''), (lit ''value'', de_function_id d)],
           string_object J [(lit ''name'', lit ''DALIN_LOG_LEVEL''), (lit ''value'', lit ''info'')]]),
        (lit ''resources'', j_object J
          [(lit ''requests'', string_object J
             [(lit ''cpu'', quantity rl_cpu req (lit ''100m'')), (lit ''memory'', quantity rl_memory req (lit ''128Mi''))]),
           (lit ''limits'', string_object J
             [(lit ''cpu'', quantity rl_cpu lim (lit ''200m'')), (lit ''memory'', quantity rl_memory lim (lit ''256Mi''))])])])"

definition affinity_json :: "'j json_ops \<Rightarrow> ustr \<Rightarrow> 'j" where
  "affinity_json J f =
     j_object J [(lit ''podAntiAffinity'', j_object J
       [(lit ''preferredDuringSchedulingIgnoredDuringExecution'', j_array J [j_object J
         [(lit ''weight'', j_number J 100),
          (lit ''podAffinityTerm'', j_object J
            [(lit ''labelSelector'', j_object J [(lit ''matchExpressions'', j_array J [j_object J
               [(lit ''key'', j_string J (lit ''app.dalin.ai/task'')), (lit ''operator'', j_string J (lit ''In'')),
                (lit ''values'', j_strings J [f])]])]),
             (lit ''topologyKey'', j_string J (lit ''kubernetes.io/hostname''))])]])])]"

definition desire_to_json :: "'j json_ops \<Rightarrow> DeploymentDesire \<Rightarrow> 'j" where
  "desire_to_json J d =
     j_object J
      [(lit ''apiVersion'', j_string J (lit ''apps/v1'')), (lit ''kind'', j_string J (lit ''Deployment'')),
       (lit ''metadata'', j_object J
         [(lit ''name'', j_string J (de_name d)), (lit ''namespace'', j_string J (de_namespace d)),
          (lit ''labels'', string_object J
            [(lit ''app.kubernetes.io/part-of'', lit ''dalin-l''), (lit ''app.dalin.ai/function'', de_function_id d)])]),
       (lit ''spec'', j_object J
         [(lit ''replicas'', j_number J (de_replicas d)),
          (lit ''selector'', j_object J
            [(lit ''matchLabels'', string_object J [(lit ''app.dalin.ai/function'', de_function_id d)])]),
          (lit ''template'', j_object J
            [(lit ''metadata'', j_object J [(lit ''labels'', string_object J (de_pod_labels d))]),
             (lit ''spec'', j_object J
               [(lit ''containers'', j_array J [container_json J d]),
                (lit ''nodeSelector'', if de_node_selector d = [] then j_null J else string_object J (de_node_selector d)),
                (lit ''affinity'', affinity_json J (de_function_id d)),
                (lit ''terminationGracePeriodSeconds'', j_number J (unat (de_timeout d)))])])])]"

fun debug_k_effect :: "KEffect \<Rightarrow> ustr" where
  "debug_k_effect KPure = lit ''Pure''" | "debug_k_effect KIo = lit ''Io''"
| "debug_k_effect KAsync = lit ''Async''" | "debug_k_effect KSpawn = lit ''Spawn''"

fun debug_k_confidence :: "KConfidence \<Rightarrow> ustr" where
  "debug_k_confidence KLow = lit ''Low''" | "debug_k_confidence KMedium = lit ''Medium''"
| "debug_k_confidence KHigh = lit ''High''" | "debug_k_confidence KVerified = lit ''Verified''"
| "debug_k_confidence KAutoRecover = lit ''AutoRecover''"

text \<open>The clock is read twice.\<close>

definition status_update :: "nat \<Rightarrow> nat \<Rightarrow> TaskPhase \<Rightarrow> DeploymentDesire \<Rightarrow> 'f DalinTaskStatus" where
  "status_update ms1 ms2 phase d =
     status_transition ms2 phase
       \<lparr>st_phase = phase, st_ready = Some (of_nat (de_replicas d)), st_observed = Some 1,
        st_conditions = [\<lparr>tc_type = lit ''Ready'', tc_status = lit ''True'', tc_last_transition = show_nat ms1,
          tc_message = Some (lit ''Deployment '' @ de_name d @ lit '' ready with '' @ show_nat (de_replicas d) @
            lit '' replicas (effect='' @ debug_k_effect (de_effect d) @ lit '', conf='' @
            debug_k_confidence (de_confidence d) @ lit '')'')\<rparr>],
        st_stats = None, st_last_run = None\<rparr>"

end
