(* ===== verification/OperatorCorrect.thy ===== *)
theory OperatorCorrect
  imports Operator
begin

section \<open>Deployments and replicas\<close>

text \<open>
  Which labels, resources and replicas a deployment has, and when the reconciliation of a task fails.
\<close>

subsection \<open>Labels\<close>

definition function_key :: ustr where
  "function_key = lit ''app.dalin.ai/function''"

lemma tag_label_key: "tag_label tag \<noteq> function_key"
  by (simp add: tag_label_def function_key_def lit_def)

lemma tag_labels:
  "distinct (map fst ls) \<Longrightarrow>
    distinct (map fst (foldl (\<lambda>ls tag. AList.update (tag_label tag) v ls) ls tags)) \<and>
    map_of (foldl (\<lambda>ls tag. AList.update (tag_label tag) v ls) ls tags) function_key = map_of ls function_key"
  by (induction tags arbitrary: ls) (simp_all add: distinct_update update_conv' tag_label_key[symmetric])

lemma pod_labels_function: "distinct (map fst (pod_labels spec)) \<and> map_of (pod_labels spec) function_key = None"
proof -
  let ?base = "[(lit ''app.dalin.ai/task'', dk_function_id spec), (lit ''app.dalin.ai/effect'', k_effect_label (dk_effect spec)),
        (lit ''app.dalin.ai/capability'', k_capability_label (dk_capability spec)),
        (lit ''app.dalin.ai/confidence'', k_confidence_label (dk_confidence spec))]"
  have "distinct (map fst ?base)" "map_of ?base function_key = None"
    by (simp_all add: lit_def function_key_def)
  with tag_labels[of ?base "lit ''true''" "dk_tags spec"] show ?thesis
    unfolding pod_labels_def by simp
qed

subsection \<open>The JSON of a deployment\<close>

lemma at_object:
  "json_ok J \<Longrightarrow> distinct (map fst kvs) \<Longrightarrow> json_at J (k # ks) (j_object J kvs) = Option.bind (map_of kvs k) (json_at J ks)"
  by (simp add: json_get)

lemma bind_at_end [simp]: "Option.bind x (json_at J []) = x"
  by (cases x) simp_all

lemma at_strings:
  assumes "json_ok J" and "distinct (map fst kvs)"
  shows "json_at J [k] (string_object J kvs) = map_option (j_string J) (map_of kvs k)"
proof -
  have "map fst (map (map_prod id (j_string J)) kvs) = map fst kvs" by simp
  moreover have "map_of (map (map_prod id (j_string J)) kvs) k = map_option (j_string J) (map_of kvs k)"
    by (induction kvs) auto
  ultimately show ?thesis
    using assms json_get[OF assms(1), of "map (map_prod id (j_string J)) kvs" k] by (auto simp: string_object_def)
qed

lemma desire_paths:
  assumes "json_ok J"
  shows "json_at J [lit ''spec'', lit ''selector'', lit ''matchLabels'', k] (desire_to_json J d) =
      json_at J [k] (string_object J [(function_key, de_function_id d)])"
    and "json_at J [lit ''spec'', lit ''template'', lit ''metadata'', lit ''labels'', k] (desire_to_json J d) =
      json_at J [k] (string_object J (de_pod_labels d))"
  unfolding desire_to_json_def function_key_def
  by (simp_all add: at_object[OF assms] lit_def del: json_at.simps(2))

text \<open>
  C39: The selector of a deployment asks for the label of the function, and the labels of its pods never
  have it, whatever the task and its tags are: the deployment selects none of its own pods.
\<close>

theorem selector_matches_no_pod:
  assumes "json_ok J"
  shows "json_at J [lit ''spec'', lit ''selector'', lit ''matchLabels'', lit ''app.dalin.ai/function'']
      (desire_to_json J (desire_from_spec spec namespace)) = Some (j_string J (dk_function_id spec)) \<and>
    json_at J [lit ''spec'', lit ''template'', lit ''metadata'', lit ''labels'', lit ''app.dalin.ai/function'']
      (desire_to_json J (desire_from_spec spec namespace)) = None"
  using pod_labels_function[of spec]
  unfolding desire_paths[OF assms] function_key_def[symmetric]
  by (simp add: at_strings[OF assms] desire_from_spec_def del: json_at.simps(2))

theorem selector_matches_no_pod_witness:
  "json_at sample_json [lit ''spec'', lit ''template'', lit ''metadata'', lit ''labels'', lit ''app.dalin.ai/function'']
    (desire_to_json sample_json (desire_from_spec (default_task_spec\<lparr>dk_tags := [lit ''a'']\<rparr>) [])) = None"
  using selector_matches_no_pod[OF sample_json_ok] by blast

subsection \<open>Resources\<close>

definition explicit :: "(ResourceRequirements \<Rightarrow> ResourceList option) \<Rightarrow> (ResourceList \<Rightarrow> 'a option) \<Rightarrow> DalinTaskSpec \<Rightarrow> 'a option" where
  "explicit part field spec = Option.bind (Option.bind (dk_resources spec) part) field"

lemma resolved_resources:
  "\<exists>r. resolve_resources spec = Inr r \<and> rr_limits r = Option.bind (dk_resources spec) rr_limits \<and>
    Option.bind (rr_requests r) rl_cpu = Some (or_default (fst (resource_hints (dk_effect spec))) (explicit rr_requests rl_cpu spec)) \<and>
    Option.bind (rr_requests r) rl_memory = Some (or_default (snd (resource_hints (dk_effect spec))) (explicit rr_requests rl_memory spec)) \<and>
    Option.bind (rr_requests r) rl_gpu =
      (if needs_gpu (dk_capability spec) then Some (lit ''1'') else explicit rr_requests rl_gpu spec)"
  by (cases "dk_resources spec"; cases "Option.bind (dk_resources spec) rr_requests")
    (auto simp: resolve_resources_def resolve_base_def add_gpu_def explicit_def or_default_def no_requirements_def
      no_resources_def Let_def split: prod.split option.split)

lemma container_paths:
  assumes "json_ok J"
  shows "json_at J [lit ''resources'', lit ''requests'', k] (container_json J d) =
      json_at J [k] (string_object J [(lit ''cpu'', quantity rl_cpu (rr_requests (de_resources d)) (lit ''100m'')),
        (lit ''memory'', quantity rl_memory (rr_requests (de_resources d)) (lit ''128Mi''))])"
    and "json_at J [lit ''resources'', lit ''limits'', k] (container_json J d) =
      json_at J [k] (string_object J [(lit ''cpu'', quantity rl_cpu (rr_limits (de_resources d)) (lit ''200m'')),
        (lit ''memory'', quantity rl_memory (rr_limits (de_resources d)) (lit ''256Mi''))])"
  unfolding container_json_def
  by (simp_all add: at_object[OF assms] Let_def lit_def del: json_at.simps(2))

text \<open>
  A container requests the processor and the memory that the task asks for, or those of its effect;
  its limits are those the task gives, or 200m and 256Mi: neither effect nor latency nor capability has
  a part in them, and no graphics processor is requested or limited. So a task without resources of its
  own and with an effect above pure requests more than its limits.
\<close>

theorem deployment_resources:
  assumes "json_ok J"
  shows "let c = container_json J (desire_from_spec spec namespace) in
    json_at J [lit ''resources'', lit ''requests'', lit ''cpu''] c =
      Some (j_string J (or_default (fst (resource_hints (dk_effect spec))) (explicit rr_requests rl_cpu spec))) \<and>
    json_at J [lit ''resources'', lit ''requests'', lit ''memory''] c =
      Some (j_string J (or_default (snd (resource_hints (dk_effect spec))) (explicit rr_requests rl_memory spec))) \<and>
    json_at J [lit ''resources'', lit ''limits'', lit ''cpu''] c =
      Some (j_string J (or_default (lit ''200m'') (explicit rr_limits rl_cpu spec))) \<and>
    json_at J [lit ''resources'', lit ''limits'', lit ''memory''] c =
      Some (j_string J (or_default (lit ''256Mi'') (explicit rr_limits rl_memory spec))) \<and>
    json_at J [lit ''resources'', lit ''requests'', lit ''nvidia.com/gpu''] c = None \<and>
    json_at J [lit ''resources'', lit ''limits'', lit ''nvidia.com/gpu''] c = None"
proof -
  obtain r where r: "resolve_resources spec = Inr r" "rr_limits r = Option.bind (dk_resources spec) rr_limits"
      "Option.bind (rr_requests r) rl_cpu = Some (or_default (fst (resource_hints (dk_effect spec))) (explicit rr_requests rl_cpu spec))"
      "Option.bind (rr_requests r) rl_memory = Some (or_default (snd (resource_hints (dk_effect spec))) (explicit rr_requests rl_memory spec))"
    using resolved_resources[of spec] by blast
  have d: "de_resources (desire_from_spec spec namespace) = r" by (simp add: desire_from_spec_def r(1))
  have keys: "lit ''cpu'' \<noteq> lit ''memory''" "lit ''nvidia.com/gpu'' \<noteq> lit ''cpu''" "lit ''nvidia.com/gpu'' \<noteq> lit ''memory''"
    by (simp_all add: lit_def)
  show ?thesis
    unfolding Let_def container_paths[OF assms] d quantity_def r(2-4)
    using keys by (simp add: at_strings[OF assms] explicit_def or_default_def del: json_at.simps(2))
qed

theorem deployment_resources_witness:
  "json_at sample_json [lit ''resources'', lit ''requests'', lit ''cpu'']
     (container_json sample_json (desire_from_spec default_task_spec [])) = Some (JString (lit ''250m'')) \<and>
   json_at sample_json [lit ''resources'', lit ''limits'', lit ''cpu'']
     (container_json sample_json (desire_from_spec default_task_spec [])) = Some (JString (lit ''200m''))"
  using deployment_resources[OF sample_json_ok, of default_task_spec "[]"]
  by (simp add: Let_def default_task_spec_def explicit_def or_default_def sample_json_simps(2) del: json_at.simps(2))

subsection \<open>Reconciliation\<close>

text \<open>
  C38: The reconciliation of a task fails exactly for a task without a function or without replicas, and
  panics, where overflow is checked, exactly for a verified task of \<open>2 ^ 31\<close> replicas or more. Otherwise it
  schedules as many replicas as the deployment asks for, but one for a task of high confidence.
\<close>

theorem reconcile_exact:
  "reconcile chk name spec =
    (if dk_function_id spec = [] then Some (Inl (InvalidSpec (lit ''function_id must not be empty'')))
     else if dk_replicas spec = 0 then Some (Inl (InvalidSpec (lit ''replicas must be >= 1'')))
     else if chk \<and> dk_confidence spec = KVerified \<and> 2 ^ 31 \<le> unat (dk_replicas spec) then None
     else Some (Inr (ReScheduled (lit ''dalin-task-'' @ name)
       (if dk_confidence spec = KHigh then 1 else de_replicas (desire_from_spec spec namespace)))))"
proof -
  obtain r where "resolve_resources spec = Inr r" using resolved_resources by blast
  moreover have "2 \<le> w" if "2 ^ 31 \<le> unat w" for w :: u32
    using that by (simp add: word_le_nat_alt)
  ultimately show ?thesis
    by (cases "dk_confidence spec")
      (auto simp: reconcile_def validate_spec_def confidence_strategy_def u32_mul_def deployment_name_def desire_from_spec_def)
qed

end
