(* ===== verification/Clusters.thy ===== *)
theory Clusters
  imports Prelude "HOL-Library.AList"
begin

section \<open>Clusters of errors (compiler/src/j1\_pattern\_learning.rs)\<close>

text \<open>
  The log of errors with its index of keywords, and the clusters of errors that are close to each
  other. Closeness (\<open>near\<close>), a cosine distance of vectors of floats below a bound, is a parameter,
  and so is whether a text reads as a float (\<open>is_float\<close>). Vectors of flags are lists of booleans.
\<close>

record ErrorRecord =
  er_id :: nat
  er_timestamp :: ustr
  er_type :: ustr
  er_message :: ustr
  er_location :: "(ustr \<times> nat \<times> nat) option"
  er_stack_trace :: "ustr option"
  er_recovery :: "ustr option"
  er_recovered :: bool

subsection \<open>Keywords\<close>

text \<open>The characters that separate words: ASCII punctuation and the blank.\<close>

definition separators :: "uchar list" where
  "separators = [61, 60, 62, 33, 64, 35, 36, 37, 94, 38, 42, 40, 41, 95, 43, 45, 91, 93, 123, 125, 124, 59, 58, 39,
     44, 46, 63, 47, 34, 92, 96, 126, 32]"

text \<open>The loop over the characters, with the buffer in reverse.\<close>

fun words_from :: "ustr \<Rightarrow> ustr \<Rightarrow> ustr list" where
  "words_from buf [] = (if buf = [] then [] else [rev buf])"
| "words_from buf (c # cs) =
     (if c \<in> set separators then (if buf = [] then words_from [] cs else rev buf # words_from [] cs)
      else words_from (c # buf) cs)"

definition error_words :: "(ustr \<Rightarrow> bool) \<Rightarrow> ustr \<Rightarrow> ustr list" where
  "error_words is_float msg = filter (\<lambda>t. \<not> is_float t) (words_from [] msg)"

subsection \<open>The log and its index\<close>

record error_engine =
  ee_errors :: "ErrorRecord list"
  ee_index :: "(ustr \<times> nat list) list"

definition error_engine_new :: error_engine where
  "error_engine_new = \<lparr>ee_errors = [], ee_index = []\<rparr>"

definition index_push :: "nat \<Rightarrow> ustr \<Rightarrow> (ustr \<times> nat list) list \<Rightarrow> (ustr \<times> nat list) list" where
  "index_push i k ix = AList.update k ((case map_of ix k of Some l \<Rightarrow> l | None \<Rightarrow> []) @ [i]) ix"

definition add_error :: "(ustr \<Rightarrow> bool) \<Rightarrow> ErrorRecord \<Rightarrow> error_engine \<Rightarrow> error_engine" where
  "add_error is_float err en =
     (let i = length (ee_errors en) in
      \<lparr>ee_errors = ee_errors en @ [err],
       ee_index = fold (index_push i) (er_type err # error_words is_float (er_message err)) (ee_index en)\<rparr>)"

definition error_count :: "error_engine \<Rightarrow> nat" where
  "error_count en = length (ee_errors en)"

subsection \<open>Clusters\<close>

definition neighbors :: "(nat \<Rightarrow> nat \<Rightarrow> bool) \<Rightarrow> nat \<Rightarrow> nat \<Rightarrow> nat list" where
  "neighbors near n i = filter (near i) (filter (\<lambda>j. j \<noteq> i) [0..<n])"

lemma unvisited_update:
  "q < length v \<Longrightarrow> \<not> v ! q \<Longrightarrow> length (filter Not (v[q := True])) < length (filter Not v)"
  by (induction v arbitrary: q) (auto split: nat.split simp: nth_Cons)

text \<open>
  The queue of a cluster. A position beyond the flags, at which the source would panic, never gets into
  the queue; it is skipped here.
\<close>

function expand_cluster ::
  "(nat \<Rightarrow> nat list) \<Rightarrow> nat \<Rightarrow> nat list \<Rightarrow> bool list \<Rightarrow> bool list \<Rightarrow> nat list \<Rightarrow> bool list \<times> bool list \<times> nat list" where
  "expand_cluster nb need [] visited assigned cluster = (visited, assigned, cluster)"
| "expand_cluster nb need (q # queue) visited assigned cluster =
     (let fresh = (q < length visited \<and> \<not> visited ! q);
          visited' = (if fresh then visited[q := True] else visited);
          queue' = (if fresh \<and> need \<le> length (nb q) then queue @ nb q else queue);
          new = (q < length assigned \<and> \<not> assigned ! q);
          assigned' = (if new then assigned[q := True] else assigned);
          cluster' = (if new then cluster @ [q] else cluster) in
      expand_cluster nb need queue' visited' assigned' cluster')"
  by pat_completeness auto

termination
  by (relation "measures [\<lambda>(nb, need, queue, v, a, c). length (filter Not v), \<lambda>(nb, need, queue, v, a, c). length queue]")
    (auto simp: Let_def unvisited_update)

text \<open>\<open>min_points - 1\<close>, with the panic or the wrap-around at 0.\<close>

definition needed :: "bool \<Rightarrow> nat \<Rightarrow> nat option" where
  "needed chk min_points =
     (if min_points = 0 then (if chk then None else Some (2 ^ 64 - 1)) else Some (min_points - 1))"

fun dbscan_from ::
  "(nat \<Rightarrow> nat list) \<Rightarrow> nat \<Rightarrow> nat list \<Rightarrow> bool list \<Rightarrow> bool list \<Rightarrow> nat list list \<Rightarrow> nat list list" where
  "dbscan_from nb need [] visited assigned clusters = clusters"
| "dbscan_from nb need (i # is) visited assigned clusters =
     (if visited ! i then dbscan_from nb need is visited assigned clusters
      else if length (nb i) < need then dbscan_from nb need is (visited[i := True]) (assigned[i := True]) clusters
      else
        (let (visited', assigned', cluster) =
               expand_cluster nb need (nb i) (visited[i := True]) (assigned[i := True]) [i] in
         dbscan_from nb need is visited' assigned'
           (if 2 \<le> length cluster then clusters @ [cluster] else clusters)))"

definition dbscan :: "bool \<Rightarrow> (nat \<Rightarrow> nat \<Rightarrow> bool) \<Rightarrow> nat \<Rightarrow> nat \<Rightarrow> nat list list option" where
  "dbscan chk near n min_points =
     (if n = 0 then Some []
      else map_option (\<lambda>need. dbscan_from (neighbors near n) need [0..<n] (replicate n False) (replicate n False) [])
        (needed chk min_points))"

definition cluster_errors ::
  "bool \<Rightarrow> (ErrorRecord \<Rightarrow> ErrorRecord \<Rightarrow> bool) \<Rightarrow> nat \<Rightarrow> error_engine \<Rightarrow> nat list list option" where
  "cluster_errors chk close min_points en =
     (if length (ee_errors en) < 2 then Some []
      else dbscan chk (\<lambda>i j. close (ee_errors en ! i) (ee_errors en ! j)) (length (ee_errors en)) min_points)"

end
