(* ===== verification/ClustersCorrect.thy ===== *)
theory ClustersCorrect
  imports Clusters
begin

section \<open>What the clusters are\<close>

text \<open>
  A point with enough neighbours is a core. The clusters are disjoint, every point of a cluster is
  reached from its first through cores, and cores that are neighbours share a cluster.
\<close>

definition core :: "(nat \<Rightarrow> nat list) \<Rightarrow> nat \<Rightarrow> nat \<Rightarrow> bool" where
  "core nb need i = (need \<le> length (nb i))"

definition dense_step :: "(nat \<Rightarrow> nat list) \<Rightarrow> nat \<Rightarrow> nat \<Rightarrow> nat \<Rightarrow> bool" where
  "dense_step nb need x y = (core nb need x \<and> y \<in> set (nb x))"

text \<open>The flags that are set.\<close>

definition flagged :: "bool list \<Rightarrow> nat set" where
  "flagged v = {i. i < length v \<and> v ! i}"

lemma flagged_update: "q < length v \<Longrightarrow> flagged (v[q := True]) = insert q (flagged v)"
  by (auto simp: flagged_def nth_list_update)

lemma flagged_none [simp]: "flagged (replicate n False) = {}"
  by (simp add: flagged_def)

subsection \<open>One cluster\<close>

lemma expand_spec:
  assumes "expand_cluster nb need queue v a cl = (v', a', cl')" and "a = v"
    and "set queue \<subseteq> {..<length v}" and "\<And>x. x < length v \<Longrightarrow> set (nb x) \<subseteq> {..<length v}"
    and "\<And>q. q \<in> set queue \<Longrightarrow> (dense_step nb need)\<^sup>*\<^sup>* s q"
  shows "a' = v' \<and> length v' = length v \<and> flagged v \<subseteq> flagged v' \<and> set queue \<subseteq> flagged v' \<and>
    (\<exists>new. cl' = cl @ new \<and> distinct new \<and> set new = flagged v' - flagged v \<and>
      (\<forall>x \<in> set new. (dense_step nb need)\<^sup>*\<^sup>* s x \<and> (core nb need x \<longrightarrow> set (nb x) \<subseteq> flagged v')))"
  using assms
proof (induction nb need queue v a cl arbitrary: v' a' cl' rule: expand_cluster.induct)
  case (2 nb need q queue v a cl)
  have q: "q < length v" using "2.prems"(3) by simp
  show ?case
  proof (cases "v ! q")
    case True
    then have run: "expand_cluster nb need queue v v cl = (v', a', cl')"
      using "2.prems"(1,2) by simp
    from True have "q \<in> flagged v" using q by (simp add: flagged_def)
    moreover have "a' = v' \<and> length v' = length v \<and> flagged v \<subseteq> flagged v' \<and> set queue \<subseteq> flagged v' \<and>
        (\<exists>new. cl' = cl @ new \<and> distinct new \<and> set new = flagged v' - flagged v \<and>
          (\<forall>x \<in> set new. (dense_step nb need)\<^sup>*\<^sup>* s x \<and> (core nb need x \<longrightarrow> set (nb x) \<subseteq> flagged v')))"
      using "2.IH"[OF refl refl refl refl refl refl, of v' a' cl'] True run "2.prems"(2-5) by simp
    ultimately show ?thesis by auto
  next
    case False
    define queue' where "queue' = (if need \<le> length (nb q) then queue @ nb q else queue)"
    have run: "expand_cluster nb need queue' (v[q := True]) (v[q := True]) (cl @ [q]) = (v', a', cl')"
      using "2.prems"(1,2) False q by (simp add: queue'_def)
    have sq: "(dense_step nb need)\<^sup>*\<^sup>* s q" using "2.prems"(5) by simp
    have "(dense_step nb need)\<^sup>*\<^sup>* s x" if "x \<in> set queue'" for x
    proof (cases "x \<in> set queue")
      case False
      with that have "dense_step nb need q x" by (auto simp: queue'_def dense_step_def core_def split: if_splits)
      with sq show ?thesis by (rule rtranclp.rtrancl_into_rtrancl)
    qed (use "2.prems"(5) in simp)
    moreover have "set queue' \<subseteq> {..<length v}"
      using "2.prems"(3,4) q by (auto simp: queue'_def)
    ultimately have ih: "a' = v' \<and> length v' = length v \<and> flagged (v[q := True]) \<subseteq> flagged v' \<and> set queue' \<subseteq> flagged v' \<and>
        (\<exists>new. cl' = (cl @ [q]) @ new \<and> distinct new \<and> set new = flagged v' - flagged (v[q := True]) \<and>
          (\<forall>x \<in> set new. (dense_step nb need)\<^sup>*\<^sup>* s x \<and> (core nb need x \<longrightarrow> set (nb x) \<subseteq> flagged v')))"
      using "2.IH"[OF refl refl refl refl refl refl, of v' a' cl'] False run "2.prems"(2,4) q
      by (simp add: queue'_def)
    then obtain new where new: "cl' = (cl @ [q]) @ new" "distinct new" "set new = flagged v' - insert q (flagged v)"
        "\<forall>x \<in> set new. (dense_step nb need)\<^sup>*\<^sup>* s x \<and> (core nb need x \<longrightarrow> set (nb x) \<subseteq> flagged v')"
      by (auto simp: flagged_update[OF q])
    have "q \<notin> flagged v" using False by (simp add: flagged_def)
    moreover have "q \<in> flagged v'" "flagged v \<subseteq> flagged v'" "set queue \<subseteq> flagged v'" "core nb need q \<longrightarrow> set (nb q) \<subseteq> flagged v'"
      using ih by (auto simp: flagged_update[OF q] queue'_def core_def split: if_splits)
    ultimately have "\<exists>new. cl' = cl @ new \<and> distinct new \<and> set new = flagged v' - flagged v \<and>
          (\<forall>x \<in> set new. (dense_step nb need)\<^sup>*\<^sup>* s x \<and> (core nb need x \<longrightarrow> set (nb x) \<subseteq> flagged v'))"
      using new sq by (intro exI[of _ "q # new"]) auto
    then show ?thesis
      using ih \<open>q \<in> flagged v'\<close> \<open>set queue \<subseteq> flagged v'\<close> \<open>flagged v \<subseteq> flagged v'\<close> by simp
  qed
qed simp


subsection \<open>All clusters\<close>

text \<open>What holds between two seeds.\<close>

definition clusters_ok :: "(nat \<Rightarrow> nat list) \<Rightarrow> nat \<Rightarrow> bool list \<Rightarrow> nat list list \<Rightarrow> bool" where
  "clusters_ok nb need v cls =
     (distinct (concat cls) \<and> set (concat cls) \<subseteq> flagged v \<and>
      (\<forall>c \<in> set cls. 2 \<le> length c \<and> core nb need (hd c) \<and> (\<forall>x \<in> set c. (dense_step nb need)\<^sup>*\<^sup>* (hd c) x)) \<and>
      (\<forall>x \<in> flagged v. core nb need x \<longrightarrow> set (nb x) \<subseteq> flagged v) \<and>
      (\<forall>x \<in> flagged v. \<forall>y \<in> set (nb x). core nb need x \<longrightarrow> core nb need y \<longrightarrow> (\<exists>c \<in> set cls. x \<in> set c \<and> y \<in> set c)))"

definition good_neighbors :: "(nat \<Rightarrow> nat list) \<Rightarrow> nat \<Rightarrow> bool" where
  "good_neighbors nb n = (\<forall>x < n. \<forall>y \<in> set (nb x). y < n \<and> y \<noteq> x \<and> x \<in> set (nb y))"

lemma good_neighborsD:
  assumes "good_neighbors nb n" and "x < n" and "y \<in> set (nb x)"
  shows "y < n" and "y \<noteq> x" and "x \<in> set (nb y)"
  using assms(1)[unfolded good_neighbors_def, rule_format, OF assms(2,3)] by simp_all

lemma good_neighbors_small: "good_neighbors nb n \<Longrightarrow> x < n \<Longrightarrow> set (nb x) \<subseteq> {..<n}"
  using good_neighborsD(1) by (intro subsetI) (rule lessThan_iff[THEN iffD2], blast)

lemma ok_flagged: "clusters_ok nb need v cls \<Longrightarrow> x \<in> flagged v \<Longrightarrow> core nb need x \<Longrightarrow> set (nb x) \<subseteq> flagged v"
  unfolding clusters_ok_def by (elim conjE) (drule bspec, assumption, rule mp)

lemma ok_shared:
  assumes "clusters_ok nb need v cls" and "x \<in> flagged v" and "y \<in> set (nb x)" and "core nb need x" and "core nb need y"
  shows "\<exists>c \<in> set cls. x \<in> set c \<and> y \<in> set c"
proof -
  from assms(1) have "\<forall>x \<in> flagged v. \<forall>y \<in> set (nb x). core nb need x \<longrightarrow> core nb need y \<longrightarrow> (\<exists>c \<in> set cls. x \<in> set c \<and> y \<in> set c)"
    unfolding clusters_ok_def by (elim conjE)
  from this[rule_format, OF assms(2-5)] show ?thesis .
qed

lemma ok_lists:
  assumes "clusters_ok nb need v cls"
  shows "distinct (concat cls)" and "set (concat cls) \<subseteq> flagged v"
    and "\<forall>c \<in> set cls. 2 \<le> length c \<and> core nb need (hd c) \<and> (\<forall>x \<in> set c. (dense_step nb need)\<^sup>*\<^sup>* (hd c) x)"
  subgoal using assms unfolding clusters_ok_def by (elim conjE)
  subgoal using assms unfolding clusters_ok_def by (elim conjE)
  subgoal using assms unfolding clusters_ok_def by (elim conjE)
  done

lemma clusters_okI:
  assumes "distinct (concat cls)" and "set (concat cls) \<subseteq> flagged v"
    and "\<forall>c \<in> set cls. 2 \<le> length c \<and> core nb need (hd c) \<and> (\<forall>x \<in> set c. (dense_step nb need)\<^sup>*\<^sup>* (hd c) x)"
    and "\<And>x. x \<in> flagged v \<Longrightarrow> core nb need x \<Longrightarrow> set (nb x) \<subseteq> flagged v"
    and "\<And>x y. x \<in> flagged v \<Longrightarrow> y \<in> set (nb x) \<Longrightarrow> core nb need x \<Longrightarrow> core nb need y \<Longrightarrow>
      \<exists>c \<in> set cls. x \<in> set c \<and> y \<in> set c"
  shows "clusters_ok nb need v cls"
  unfolding clusters_ok_def
  by (intro conjI ballI impI assms(1,2) assms(3)[rule_format] assms(4,5)) (use assms(3) in auto)

lemma ok_noise:
  assumes "clusters_ok nb need v cls" and "i < length v" and "\<not> core nb need i"
  shows "clusters_ok nb need (v[i := True]) cls"
proof (rule clusters_okI; (unfold flagged_update[OF assms(2)])?)
  show "x \<in> insert i (flagged v) \<Longrightarrow> core nb need x \<Longrightarrow> set (nb x) \<subseteq> insert i (flagged v)" for x
    using ok_flagged[OF assms(1)] assms(3) by blast
  show "x \<in> insert i (flagged v) \<Longrightarrow> y \<in> set (nb x) \<Longrightarrow> core nb need x \<Longrightarrow> core nb need y \<Longrightarrow>
      \<exists>c \<in> set cls. x \<in> set c \<and> y \<in> set c" for x y
    using ok_shared[OF assms(1)] assms(3) by blast
  show "set (concat cls) \<subseteq> insert i (flagged v)" using ok_lists(2)[OF assms(1)] by (rule subset_insertI2)
qed (rule ok_lists[OF assms(1)])+

lemma ok_cluster:
  assumes ok: "clusters_ok nb need v cls" and nb: "good_neighbors nb (length v)" and i: "i < length v" "\<not> v ! i" "core nb need i"
    and run: "expand_cluster nb need (nb i) (v[i := True]) (v[i := True]) [i] = (v', a', cl)"
  shows "a' = v' \<and> length v' = length v \<and> insert i (flagged v) \<subseteq> flagged v' \<and>
    clusters_ok nb need v' (if 2 \<le> length cl then cls @ [cl] else cls)"
proof -
  have "a' = v' \<and> length v' = length (v[i := True]) \<and> flagged (v[i := True]) \<subseteq> flagged v' \<and> set (nb i) \<subseteq> flagged v' \<and>
      (\<exists>new. cl = [i] @ new \<and> distinct new \<and> set new = flagged v' - flagged (v[i := True]) \<and>
        (\<forall>x \<in> set new. (dense_step nb need)\<^sup>*\<^sup>* i x \<and> (core nb need x \<longrightarrow> set (nb x) \<subseteq> flagged v')))"
  proof (rule expand_spec[OF run refl])
    show small: "set (nb x) \<subseteq> {..<length (v[i := True])}" if "x < length (v[i := True])" for x
      unfolding length_list_update by (rule good_neighbors_small[OF nb]) (use that in simp)
    show "set (nb i) \<subseteq> {..<length (v[i := True])}" by (rule small) (use i(1) in simp)
    show "q \<in> set (nb i) \<Longrightarrow> (dense_step nb need)\<^sup>*\<^sup>* i q" for q
      using i(3) by (auto simp: dense_step_def)
  qed
  then obtain new where v': "a' = v'" "length v' = length v" "insert i (flagged v) \<subseteq> flagged v'" "set (nb i) \<subseteq> flagged v'"
      and cl: "cl = i # new" "distinct new" "set new = flagged v' - insert i (flagged v)"
      and new: "\<And>x. x \<in> set new \<Longrightarrow> (dense_step nb need)\<^sup>*\<^sup>* i x"
        "\<And>x. x \<in> set new \<Longrightarrow> core nb need x \<Longrightarrow> set (nb x) \<subseteq> flagged v'"
    unfolding flagged_update[OF i(1)] length_list_update append_Cons append_Nil by (elim conjE exE) blast
  let ?cls = "if 2 \<le> length cl then cls @ [cl] else cls"
  have old: "i \<notin> flagged v" using i(2) by (simp add: flagged_def)
  have set_cl: "set cl = flagged v' - flagged v" using cl v'(3) old by auto
  have "distinct cl" using cl by simp
  then have c1: "distinct (concat ?cls)" "set (concat ?cls) \<subseteq> flagged v'"
    using ok_lists(1,2)[OF ok] set_cl v'(3) by auto
  have c2: "\<forall>c \<in> set ?cls. 2 \<le> length c \<and> core nb need (hd c) \<and> (\<forall>x \<in> set c. (dense_step nb need)\<^sup>*\<^sup>* (hd c) x)"
    using ok_lists(3)[OF ok] i(3) new(1) cl(3) by (auto simp: cl(1) Suc_le_eq)
  have c3: "set (nb x) \<subseteq> flagged v'" if x: "x \<in> flagged v'" "core nb need x" for x
  proof -
    consider "x \<in> flagged v" | "x = i" | "x \<in> set new" using x(1) cl(3) by blast
    then show ?thesis
    proof cases
      case 1
      then show ?thesis using ok_flagged[OF ok 1 x(2)] v'(3) by blast
    qed (use v'(4) new(2)[OF _ x(2)] in blast)+
  qed
  have c4: "\<exists>c \<in> set ?cls. x \<in> set c \<and> y \<in> set c"
    if x: "x \<in> flagged v'" "core nb need x" and y: "y \<in> set (nb x)" "core nb need y" for x y
  proof (cases "x \<in> flagged v")
    case True
    then obtain c where "c \<in> set cls" "x \<in> set c" "y \<in> set c"
      using ok_shared[OF ok True y(1) x(2) y(2)] by blast
    then show ?thesis by auto
  next
    case False
    have xlt: "x < length v" using x(1) v'(2) by (simp add: flagged_def)
    note sym = good_neighborsD(2,3)[OF nb xlt y(1)]
    have "y \<notin> flagged v" using ok_flagged[OF ok _ y(2)] sym(2) False by (meson subsetD)
    moreover have "y \<in> flagged v'" using c3[OF x] y(1) by (rule subsetD)
    ultimately have in_cl: "x \<in> set cl" "y \<in> set cl" using x(1) False unfolding set_cl by simp_all
    then have "2 \<le> length cl" using sym(1) by (cases cl; cases "tl cl") auto
    then show ?thesis using in_cl by auto
  qed
  have "clusters_ok nb need v' ?cls"
    by (rule clusters_okI[OF c1 c2]) (rule c3 c4; assumption)+
  then show ?thesis using v'(1-3) by simp
qed

lemma dbscan_ok:
  "clusters_ok nb need v cls \<Longrightarrow> good_neighbors nb (length v) \<Longrightarrow> set is \<subseteq> {..<length v} \<Longrightarrow>
    \<exists>v'. length v' = length v \<and> flagged v \<union> set is \<subseteq> flagged v' \<and> clusters_ok nb need v' (dbscan_from nb need is v v cls)"
proof (induction "is" arbitrary: v cls)
  case (Cons i "is")
  then have i: "i < length v" by simp
  consider "v ! i" | "\<not> v ! i" "\<not> core nb need i" | "\<not> v ! i" "core nb need i" by blast
  then show ?case
  proof cases
    case 1
    then have e: "dbscan_from nb need (i # is) v v cls = dbscan_from nb need is v v cls" and "i \<in> flagged v"
      using i by (simp_all add: flagged_def)
    have "set is \<subseteq> {..<length v}" using Cons.prems(3) by simp
    from Cons.IH[OF Cons.prems(1,2) this] obtain v' where "length v' = length v" "flagged v \<union> set is \<subseteq> flagged v'"
        "clusters_ok nb need v' (dbscan_from nb need is v v cls)"
      by blast
    then show ?thesis unfolding e using \<open>i \<in> flagged v\<close> by (intro exI[of _ v'] conjI) auto
  next
    case 2
    then have e: "dbscan_from nb need (i # is) v v cls = dbscan_from nb need is (v[i := True]) (v[i := True]) cls"
      by (simp add: core_def)
    show ?thesis
      unfolding e using Cons.IH[OF ok_noise[OF Cons.prems(1) i 2(2)]] Cons.prems(2,3) by (simp add: flagged_update[OF i])
  next
    case 3
    obtain v' a' cl where run: "expand_cluster nb need (nb i) (v[i := True]) (v[i := True]) [i] = (v', a', cl)"
      by (metis prod_cases3)
    from ok_cluster[OF Cons.prems(1,2) i 3 run] have s: "a' = v'" "length v' = length v" "insert i (flagged v) \<subseteq> flagged v'"
        "clusters_ok nb need v' (if 2 \<le> length cl then cls @ [cl] else cls)"
      by blast+
    have e: "dbscan_from nb need (i # is) v v cls =
        dbscan_from nb need is v' v' (if 2 \<le> length cl then cls @ [cl] else cls)"
      using 3 run s(1) by (simp add: core_def Let_def)
    obtain v2 where "length v2 = length v'" "flagged v' \<union> set is \<subseteq> flagged v2"
        "clusters_ok nb need v2 (dbscan_from nb need is v' v' (if 2 \<le> length cl then cls @ [cl] else cls))"
      using Cons.IH[OF s(4)] Cons.prems(2,3) s(2) by auto
    then show ?thesis unfolding e using s(2,3) by (intro exI[of _ v2]) auto
  qed
qed auto

lemma neighbors_good: "(\<And>i j. near i j = near j i) \<Longrightarrow> good_neighbors (neighbors near n) n"
  by (auto simp: good_neighbors_def neighbors_def)

text \<open>
  C40: The clusters of points whose closeness is symmetric are disjoint lists of at least two points. All
  points of a cluster are reached from its first, a core, over cores and their neighbours, and cores that
  are neighbours are in one cluster. A minimum of no
  points panics where overflow is checked and is excluded.
\<close>

theorem clusters_exact:
  assumes "\<And>i j. near i j = near j i" and "needed chk min_points = Some need"
  shows "\<exists>cls. dbscan chk near n min_points = Some cls \<and> distinct (concat cls) \<and> set (concat cls) \<subseteq> {..<n} \<and>
    (\<forall>c \<in> set cls. 2 \<le> length c \<and> core (neighbors near n) need (hd c) \<and>
      (\<forall>x \<in> set c. (dense_step (neighbors near n) need)\<^sup>*\<^sup>* (hd c) x)) \<and>
    (\<forall>x < n. \<forall>y \<in> set (neighbors near n x). core (neighbors near n) need x \<longrightarrow> core (neighbors near n) need y \<longrightarrow>
      (\<exists>c \<in> set cls. x \<in> set c \<and> y \<in> set c))"
proof (cases "n = 0")
  case True
  then show ?thesis by (simp add: dbscan_def)
next
  case False
  let ?nb = "neighbors near n"
  let ?cls = "dbscan_from ?nb need [0..<n] (replicate n False) (replicate n False) []"
  have nb: "good_neighbors ?nb (length (replicate n False))" using neighbors_good[OF assms(1)] by simp
  have start: "clusters_ok ?nb need (replicate n False) []" by (simp add: clusters_ok_def)
  obtain v' where v': "length v' = n" "flagged (replicate n False) \<union> set [0..<n] \<subseteq> flagged v'" "clusters_ok ?nb need v' ?cls"
    using dbscan_ok[OF start nb, of "[0..<n]"] by (auto simp: atLeast0LessThan)
  have all: "flagged v' = {..<n}" using v'(1,2) by (auto simp: flagged_def)
  have run: "dbscan chk near n min_points = Some ?cls" using False assms(2) by (simp add: dbscan_def)
  show ?thesis
    using ok_lists[OF v'(3)] ok_shared[OF v'(3)] run unfolding all by (intro exI[of _ ?cls]) simp
qed

theorem clusters_exact_witness:
  "\<exists>cls. dbscan True (\<lambda>i j. i div 3 = j div 3) 5 2 = Some cls \<and> distinct (concat cls)"
proof -
  have "needed True 2 = Some 1" by (simp add: needed_def)
  from clusters_exact[of "\<lambda>i j. i div 3 = j div 3", OF eq_commute this, of 5] show ?thesis by (elim exE conjE) (intro exI conjI)
qed

end
