(* ===== verification/StoreCalls.thy ===== *)
theory StoreCalls
  imports Registry "HOL-Library.Multiset"
begin

section \<open>What the stores have in common (control-plane/src/store.rs)\<close>

text \<open>
  Calls of a store and its answers as values, a reference that says what the stores over a service
  answer, and the simulation that they share: \<open>keyed_store\<close> is a store that keeps records under
  identifiers, identifiers under idempotency keys, and the identifiers of children under parents.
\<close>

subsection \<open>Calls\<close>

datatype store_call =
    CallRegister ustr "ustr option" ustr ustr ustr
  | CallStatus ustr TaskStatus
  | CallAssign ustr ustr
  | CallCancel ustr
  | CallGet ustr
  | CallChildren ustr
  | CallList "ustr option"

datatype store_answer =
    GaveTask TaskRecord
  | GaveMaybe "TaskRecord option"
  | GaveNothing
  | GaveBool bool
  | GaveTasks "TaskRecord list"

fun serve_call :: "'s task_store \<Rightarrow> store_call \<Rightarrow> 's \<Rightarrow> store_answer \<times> 's" where
  "serve_call S (CallRegister n p e c k) s = map_prod GaveTask id (ts_register S n p e c k s)"
| "serve_call S (CallStatus i st) s = map_prod GaveMaybe id (ts_set_status S i st s)"
| "serve_call S (CallAssign i n) s = (GaveNothing, ts_assign_node S i n s)"
| "serve_call S (CallCancel i) s = map_prod GaveBool id (ts_cancel S i s)"
| "serve_call S (CallGet i) s = (GaveMaybe (ts_get S i s), s)"
| "serve_call S (CallChildren p) s = (GaveTasks (ts_children_of S p s), s)"
| "serve_call S (CallList p) s = (GaveTasks (ts_list S p s), s)"

fun serve_calls :: "'s task_store \<Rightarrow> store_call list \<Rightarrow> 's \<Rightarrow> store_answer list \<times> 's" where
  "serve_calls S [] s = ([], s)"
| "serve_calls S (c # cs) s =
     (let (a, s1) = serve_call S c s; (as, s2) = serve_calls S cs s1 in (a # as, s2))"

text \<open>Tasks are listed in any order.\<close>

fun same_answer :: "store_answer \<Rightarrow> store_answer \<Rightarrow> bool" where
  "same_answer (GaveTasks rs) b = (case b of GaveTasks rs' \<Rightarrow> mset rs = mset rs' | _ \<Rightarrow> False)"
| "same_answer a b = (a = b)"

subsection \<open>Stores that keep the contract\<close>

text \<open>Whatever is called, keys keep their identifiers.\<close>

context task_store_laws
begin

lemma call_keeps:
  assumes "good s"
  shows "good (snd (serve_call S c s)) \<and> (keyed s p k = Some i \<longrightarrow> keyed (snd (serve_call S c s)) p k = Some i)"
proof (cases c)
  case (CallRegister n p' e c' k')
  obtain r s' where reg: "ts_register S n p' e c' k' s = (r, s')" by force
  have "keyed s p k = Some i \<longrightarrow> keyed s' p k = Some i"
  proof (cases "keyed s p' k'")
    case None
    then show ?thesis using register_new[OF assms None reg, of "tr_id r" p k i] by simp
  next
    case (Some j)
    then show ?thesis using register_old[OF assms Some, of n e c'] reg by simp
  qed
  then show ?thesis using register_good[OF assms, of n p' e c' k'] reg by (simp add: CallRegister)
qed (use assms in \<open>simp_all add: set_status_good set_status_keyed assign_good assign_keyed cancel_good cancel_keyed\<close>)

lemma calls_keep:
  "good s \<Longrightarrow> good (snd (serve_calls S cs s)) \<and> (keyed s p k = Some i \<longrightarrow> keyed (snd (serve_calls S cs s)) p k = Some i)"
proof (induction cs arbitrary: s)
  case (Cons c cs)
  then show ?case using call_keeps[OF Cons.prems, of c p k i] by (simp add: split_beta Let_def)
qed simp

end

subsection \<open>The reference\<close>

text \<open>
  The store in memory, in which the children of \<open>p\<close> are the tasks whose parent is \<open>below\<close> it; for
  equality it is the store in memory itself.
\<close>

definition children_below :: "(ustr \<Rightarrow> ustr \<Rightarrow> bool) \<Rightarrow> ustr \<Rightarrow> mem_store \<Rightarrow> TaskRecord list" where
  "children_below below p m = filter (\<lambda>r. \<exists>q. tr_parent r = Some q \<and> below p q) (map snd (ms_tasks m))"

definition memory_below ::
  "(ustr \<Rightarrow> ustr \<Rightarrow> bool) \<Rightarrow> (nat \<Rightarrow> ustr) \<Rightarrow> (nat \<Rightarrow> i64) \<Rightarrow> mem_store task_store" where
  "memory_below below uuid clock = (in_memory uuid clock)
     \<lparr>ts_children_of := children_below below,
      ts_list := (\<lambda>p m. case p of Some p \<Rightarrow> children_below below p m | None \<Rightarrow> map snd (ms_tasks m))\<rparr>"

lemma memory_below_eq: "memory_below (=) uuid clock = in_memory uuid clock"
proof -
  have kids: "children_below (=) = mem_children_of"
    by (intro ext) (simp add: children_below_def mem_children_of_def eq_commute)
  have "(\<lambda>p m. case p of Some p \<Rightarrow> children_below (=) p m | None \<Rightarrow> map snd (ms_tasks m)) = mem_list"
    by (intro ext) (simp add: mem_list_def kids mem_children_of_def split: option.split)
  then show ?thesis by (simp add: memory_below_def in_memory_def kids)
qed

lemma memory_below_simps [simp]:
  "ts_register (memory_below below uuid clock) = mem_register uuid clock"
  "ts_set_status (memory_below below uuid clock) = mem_set_status"
  "ts_assign_node (memory_below below uuid clock) = mem_assign_node"
  "ts_cancel (memory_below below uuid clock) = mem_cancel" "ts_get (memory_below below uuid clock) = mem_get"
  "ts_children_of (memory_below below uuid clock) = children_below below"
  "ts_list (memory_below below uuid clock) None m = map snd (ms_tasks m)"
  "ts_list (memory_below below uuid clock) (Some p) m = children_below below p m"
  by (simp_all add: memory_below_def in_memory_def)

text \<open>Identifiers are listed once.\<close>

definition mem_tidy :: "(nat \<Rightarrow> ustr) \<Rightarrow> mem_store \<Rightarrow> bool" where
  "mem_tidy uuid m = (mem_good uuid m \<and> distinct (map fst (ms_tasks m)))"

lemma mem_tidy_new: "inj uuid \<Longrightarrow> mem_tidy uuid mem_new"
  by (simp add: mem_tidy_def mem_good_new) (simp add: mem_new_def)

lemma mem_tidy_put: "mem_tidy uuid m \<Longrightarrow> mem_get i m = Some r \<Longrightarrow> tr_id r' = tr_id r \<Longrightarrow> mem_tidy uuid (mem_put r' m)"
  by (simp add: mem_tidy_def mem_good_put) (simp add: mem_put_def distinct_update)

lemma mem_tidy_send [simp]: "mem_tidy uuid (mem_send e m) = mem_tidy uuid m"
  by (simp add: mem_tidy_def) (simp add: mem_send_def)

lemma mem_tidy_register: "mem_tidy uuid m \<Longrightarrow> mem_tidy uuid (snd (mem_register uuid clock n p e c k m))"
  unfolding mem_tidy_def
  by (auto simp: mem_register_good) (auto simp: mem_register_def mem_send_def mem_put_def Let_def
      distinct_update split: option.split)

lemma mem_tidy_events: "mem_tidy uuid (m\<lparr>ms_events := es\<rparr>) = mem_tidy uuid m"
  unfolding mem_tidy_def mem_good_def mem_get_def by simp

lemma set_fetched: "set (List.map_filter f xs) = {y. \<exists>x \<in> set xs. f x = Some y}"
  by (induction xs) (auto simp: map_filter_simps split: option.splits)

text \<open>The records of a list of identifiers, as the stores fetch them one by one.\<close>

lemma fetched:
  assumes "mem_tidy uuid m" and "distinct ids" and "\<And>i. i \<in> set ids \<longleftrightarrow> (\<exists>r. mem_get i m = Some r \<and> Q r)"
  shows "mset (List.map_filter (\<lambda>i. mem_get i m) ids) = mset (filter Q (map snd (ms_tasks m)))"
proof -
  have good: "mem_good uuid m" and keys: "distinct (map fst (ms_tasks m))" using assms(1) by (auto simp: mem_tidy_def)
  have get: "mem_get i m = Some r \<longleftrightarrow> (i, r) \<in> set (ms_tasks m)" for i r
    using keys by (simp add: mem_get_def)
  have own: "tr_id r = i" if "(i, r) \<in> set (ms_tasks m)" for i r
    using that get mem_good_id[OF good] by blast
  have "distinct (map (tr_id \<circ> snd) (ms_tasks m))"
    using keys own by (metis (no_types, lifting) comp_apply map_eq_conv prod.collapse)
  then have d1: "distinct (filter Q (map snd (ms_tasks m)))"
    by (simp add: distinct_map comp_inj_on_iff distinct_filter) (auto simp: distinct_map inj_on_def)
  have "\<forall>i \<in> set ids. \<exists>r. mem_get i m = Some r \<and> tr_id r = i" using assms(3) mem_good_id[OF good] by blast
  then have "map tr_id (List.map_filter (\<lambda>i. mem_get i m) ids) = ids" by (induction ids) (auto simp: map_filter_simps)
  then have d2: "distinct (List.map_filter (\<lambda>i. mem_get i m) ids)"
    using assms(2) by (metis distinct_map)
  have "r \<in> set (List.map_filter (\<lambda>i. mem_get i m) ids) \<longleftrightarrow> r \<in> set (filter Q (map snd (ms_tasks m)))" for r
  proof -
    have "r \<in> set (List.map_filter (\<lambda>i. mem_get i m) ids) \<longleftrightarrow> (\<exists>i. mem_get i m = Some r \<and> Q r)"
    proof
      assume "r \<in> set (List.map_filter (\<lambda>i. mem_get i m) ids)"
      then obtain i where i: "i \<in> set ids" "mem_get i m = Some r" by (auto simp: set_fetched)
      from i(1) obtain r' where "mem_get i m = Some r'" "Q r'" unfolding assms(3) by (elim exE conjE)
      then show "\<exists>i. mem_get i m = Some r \<and> Q r" using i(2) by auto
    next
      assume "\<exists>i. mem_get i m = Some r \<and> Q r"
      then obtain i where i: "mem_get i m = Some r" "Q r" by auto
      then have "i \<in> set ids" unfolding assms(3) by (intro exI conjI)
      then show "r \<in> set (List.map_filter (\<lambda>i. mem_get i m) ids)" using i(1) by (auto simp: set_fetched)
    qed
    also have "\<dots> \<longleftrightarrow> r \<in> set (filter Q (map snd (ms_tasks m)))" unfolding get by force
    finally show ?thesis .
  qed
  then have "set (List.map_filter (\<lambda>i. mem_get i m) ids) = set (filter Q (map snd (ms_tasks m)))" by blast
  then show ?thesis using set_eq_iff_mset_eq_distinct[OF d2 d1] by (rule iffD1[rotated])
qed

subsection \<open>Stores with keys\<close>

text \<open>
  What a store shows of its state: whether it is in order, the identifier under an idempotency key, the
  identifiers listed as children and as tasks, how many identifiers were drawn, and the events sent to
  its own subscribers.
\<close>

record 's store_view =
  sv_ok :: "'s \<Rightarrow> bool"
  sv_id_for :: "'s \<Rightarrow> ustr \<Rightarrow> ustr option"
  sv_kids :: "'s \<Rightarrow> ustr \<Rightarrow> ustr list"
  sv_ids :: "'s \<Rightarrow> ustr list"
  sv_drawn :: "'s \<Rightarrow> nat"
  sv_events :: "'s \<Rightarrow> TaskEvent list"

definition queued_task ::
  "(nat \<Rightarrow> ustr) \<Rightarrow> (nat \<Rightarrow> i64) \<Rightarrow> nat \<Rightarrow> ustr \<Rightarrow> ustr option \<Rightarrow> ustr \<Rightarrow> ustr \<Rightarrow> ustr \<Rightarrow> TaskRecord" where
  "queued_task uuid clock d name parent effect capability k =
     \<lparr>tr_id = uuid d, tr_name = name, tr_parent = parent, tr_effect = effect, tr_capability = capability,
      tr_key = k, tr_status = Queued, tr_node = None, tr_submitted = clock d\<rparr>"

text \<open>One record is written over and events are sent.\<close>

definition rewritten ::
  "'s task_store \<Rightarrow> 's store_view \<Rightarrow> 's \<Rightarrow> TaskRecord \<Rightarrow> TaskEvent list \<Rightarrow> 's \<Rightarrow> bool" where
  "rewritten S V s r evs s' =
     (sv_ok V s' \<and> (\<forall>j. ts_get S j s' = (if j = tr_id r then Some r else ts_get S j s)) \<and>
      sv_id_for V s' = sv_id_for V s \<and> (\<forall>q. set (sv_kids V s' q) = set (sv_kids V s q)) \<and>
      set (sv_ids V s') = set (sv_ids V s) \<and> sv_drawn V s' = sv_drawn V s \<and>
      sv_events V s' = sv_events V s @ evs)"

text \<open>A record is written under a key, and below a parent if it has one.\<close>

definition task_entered ::
  "'s task_store \<Rightarrow> 's store_view \<Rightarrow> (ustr \<Rightarrow> ustr \<Rightarrow> bool) \<Rightarrow> 's \<Rightarrow> ustr \<Rightarrow> TaskRecord \<Rightarrow> 's \<Rightarrow> bool" where
  "task_entered S V below s ik r s' =
     (sv_ok V s' \<and> (\<forall>j. ts_get S j s' = (if j = tr_id r then Some r else ts_get S j s)) \<and>
      sv_id_for V s' = (sv_id_for V s)(ik \<mapsto> tr_id r) \<and>
      (\<forall>q. set (sv_kids V s' q) = (if \<exists>p. tr_parent r = Some p \<and> below q p then {tr_id r} else {}) \<union> set (sv_kids V s q)) \<and>
      set (sv_ids V s') = insert (tr_id r) (set (sv_ids V s)) \<and> sv_drawn V s' = Suc (sv_drawn V s) \<and>
      sv_events V s' = sv_events V s @ [EvSubmitted r])"

locale keyed_store =
  fixes S :: "'s task_store" and V :: "'s store_view" and below :: "ustr \<Rightarrow> ustr \<Rightarrow> bool"
    and uuid :: "nat \<Rightarrow> ustr" and clock :: "nat \<Rightarrow> i64"
  assumes listed_once: "sv_ok V s \<Longrightarrow> distinct (sv_kids V s q) \<and> distinct (sv_ids V s)"
    and register_found: "sv_ok V s \<Longrightarrow> Option.bind (sv_id_for V s (idem_key p k)) (\<lambda>i. ts_get S i s) = Some r \<Longrightarrow>
      ts_register S n p e c k s = (r, s)"
    and register_fresh: "sv_ok V s \<Longrightarrow> Option.bind (sv_id_for V s (idem_key p k)) (\<lambda>i. ts_get S i s) = None \<Longrightarrow>
      ts_get S (uuid (sv_drawn V s)) s = None \<Longrightarrow> r = queued_task uuid clock (sv_drawn V s) n p e c k \<Longrightarrow>
      \<exists>s'. ts_register S n p e c k s = (r, s') \<and> task_entered S V below s (idem_key p k) r s'"
    and unknown: "sv_ok V s \<Longrightarrow> ts_get S i s = None \<Longrightarrow>
      ts_set_status S i st s = (None, s) \<and> ts_assign_node S i n s = s \<and> ts_cancel S i s = (False, s)"
    and status_known: "sv_ok V s \<Longrightarrow> ts_get S i s = Some r \<Longrightarrow> tr_id r = i \<Longrightarrow> r' = r\<lparr>tr_status := st\<rparr> \<Longrightarrow>
      \<exists>s'. ts_set_status S i st s = (Some r', s') \<and> rewritten S V s r' [EvStatusChanged r'] s'"
    and assign_known: "sv_ok V s \<Longrightarrow> ts_get S i s = Some r \<Longrightarrow> tr_id r = i \<Longrightarrow>
      rewritten S V s (r\<lparr>tr_node := Some n\<rparr>) [] (ts_assign_node S i n s)"
    and cancel_known: "sv_ok V s \<Longrightarrow> ts_get S i s = Some r \<Longrightarrow> tr_id r = i \<Longrightarrow>
      \<exists>s'. ts_cancel S i s = (True, s') \<and> rewritten S V s (r\<lparr>tr_status := Canceled\<rparr>) [EvCanceled i] s'"
    and children: "sv_ok V s \<Longrightarrow> ts_children_of S q s = List.map_filter (\<lambda>i. ts_get S i s) (sv_kids V s q)"
    and list_all_tasks: "sv_ok V s \<Longrightarrow> ts_list S None s = List.map_filter (\<lambda>i. ts_get S i s) (sv_ids V s)"
    and list_children: "sv_ok V s \<Longrightarrow> ts_list S (Some q) s = ts_children_of S q s"
begin

definition like :: "'s \<Rightarrow> mem_store \<Rightarrow> bool" where
  "like s m = (sv_ok V s \<and> mem_tidy uuid m \<and> (\<forall>i. ts_get S i s = mem_get i m) \<and> sv_id_for V s = map_of (ms_idem m) \<and>
     (\<forall>q. set (sv_kids V s q) = {i. \<exists>r. mem_get i m = Some r \<and> (\<exists>p. tr_parent r = Some p \<and> below q p)}) \<and>
     set (sv_ids V s) = {i. \<exists>r. mem_get i m = Some r} \<and> sv_drawn V s = ms_drawn m \<and> sv_events V s = ms_events m)"

lemma likeD:
  assumes "like s m"
  shows "sv_ok V s" "mem_tidy uuid m" "ts_get S i s = mem_get i m" "sv_id_for V s = map_of (ms_idem m)"
    "set (sv_kids V s q) = {i. \<exists>r. mem_get i m = Some r \<and> (\<exists>p. tr_parent r = Some p \<and> below q p)}"
    "set (sv_ids V s) = {i. \<exists>r. mem_get i m = Some r}" "sv_drawn V s = ms_drawn m" "sv_events V s = ms_events m"
  using assms by (simp_all add: like_def)

lemma like_rewritten:
  assumes "like s m" and "mem_get i m = Some r0" and "tr_id r = tr_id r0" and "tr_parent r = tr_parent r0"
    and "rewritten S V s r evs s'" and "m' = mem_put r m" and "m2 = m'\<lparr>ms_events := ms_events m @ evs\<rparr>"
  shows "like s' m2"
proof -
  note l = likeD[OF assms(1)]
  have i: "tr_id r0 = i" using l(2) assms(2) mem_good_id by (auto simp: mem_tidy_def)
  have tidy: "mem_tidy uuid m2"
    using mem_tidy_put[OF l(2) assms(2,3)] by (simp only: assms(6,7) mem_tidy_events)
  have get: "mem_get j m2 = (if j = i then Some r else mem_get j m)" for j
    using assms(3) i by (simp add: assms(6,7) mem_get_def mem_put_def update_conv')
  have "ms_idem m2 = ms_idem m" "ms_drawn m2 = ms_drawn m" "ms_events m2 = ms_events m @ evs"
    by (simp_all add: assms(6,7))
  then show ?thesis
    using l assms(2-5) i unfolding like_def rewritten_def by (auto simp: tidy get)
qed

lemma like_registered:
  assumes "like s m" and "Option.bind (map_of (ms_idem m) (idem_key p k)) (\<lambda>i. mem_get i m) = None"
    and "r = queued_task uuid clock (ms_drawn m) n p e c k" and "task_entered S V below s (idem_key p k) r s'"
  shows "mem_get (uuid (ms_drawn m)) m = None \<Longrightarrow> mem_register uuid clock n p e c k m = (r, snd (mem_register uuid clock n p e c k m)) \<and>
    like s' (snd (mem_register uuid clock n p e c k m))"
proof -
  assume new: "mem_get (uuid (ms_drawn m)) m = None"
  note l = likeD[OF assms(1)]
  let ?m = "mem_send (EvSubmitted r) (mem_put r
      (m\<lparr>ms_idem := AList.update (idem_key p k) (uuid (ms_drawn m)) (ms_idem m), ms_drawn := ms_drawn m + 1\<rparr>))"
  have reg: "mem_register uuid clock n p e c k m = (r, ?m)"
    using assms(2,3) by (simp add: mem_register_def queued_task_def Let_def)
  have tidy: "mem_tidy uuid ?m" using mem_tidy_register[OF l(2), of clock n p e c k] by (simp add: reg)
  have r: "tr_id r = uuid (ms_drawn m)" "tr_parent r = p" by (simp_all add: assms(3) queued_task_def)
  have "ms_events ?m = ms_events m @ [EvSubmitted r]" by (simp add: mem_send_def mem_put_def)
  moreover have "ms_idem ?m = AList.update (idem_key p k) (tr_id r) (ms_idem m)" "ms_drawn ?m = Suc (ms_drawn m)"
    by (simp_all add: r)
  moreover have "mem_get j ?m = (if j = tr_id r then Some r else mem_get j m)" for j by simp
  moreover have "mem_get (tr_id r) m = None" using new r by simp
  ultimately have "like s' ?m"
    using l assms(4) tidy unfolding like_def task_entered_def by (auto simp: update_conv')
  then show ?thesis using reg by simp
qed

lemma call_like:
  assumes "like s m"
  shows "same_answer (fst (serve_call S c s)) (fst (serve_call (memory_below below uuid clock) c m)) \<and>
    like (snd (serve_call S c s)) (snd (serve_call (memory_below below uuid clock) c m))"
proof -
  note l = likeD[OF assms]
  note once = listed_once[OF l(1)]
  have kids: "mset (List.map_filter (\<lambda>i. mem_get i m) (sv_kids V s q)) = mset (children_below below q m)" for q
    unfolding children_below_def by (rule fetched[OF l(2)]) (use once l(5) in auto)
  have all: "mset (List.map_filter (\<lambda>i. mem_get i m) (sv_ids V s)) = mset (map snd (ms_tasks m))"
    using fetched[OF l(2), of "sv_ids V s" "\<lambda>_. True"] once l(6) by auto
  have own: "tr_id r = i" if "mem_get i m = Some r" for i r using l(2) that mem_good_id by (auto simp: mem_tidy_def)
  show ?thesis
  proof (cases c)
    case (CallRegister n p e ca k)
    show ?thesis
    proof (cases "Option.bind (map_of (ms_idem m) (idem_key p k)) (\<lambda>i. mem_get i m)")
      case None
      let ?r = "queued_task uuid clock (ms_drawn m) n p e ca k"
      have fresh: "mem_get (uuid (ms_drawn m)) m = None"
        using l(2) unfolding mem_tidy_def mem_good_def by (metis injD less_irrefl not_None_eq)
      from None fresh obtain s' where s': "ts_register S n p e ca k s = (?r, s')" "task_entered S V below s (idem_key p k) ?r s'"
        using register_fresh[OF l(1), of p k ?r n e ca] l(3,4,7) by auto
      from like_registered[OF assms None refl s'(2) fresh] s'(1) show ?thesis
        by (cases "mem_register uuid clock n p e ca k m") (simp add: CallRegister)
    next
      case (Some r)
      then have "ts_register S n p e ca k s = (r, s)" using register_found[OF l(1)] l(3,4) by simp
      moreover have "mem_register uuid clock n p e ca k m = (r, m)" using Some by (simp add: mem_register_def)
      ultimately show ?thesis using assms by (simp add: CallRegister)
    qed
  next
    case (CallStatus i st)
    show ?thesis
    proof (cases "mem_get i m")
      case None
      then show ?thesis using unknown[OF l(1), of i st] l(3) assms by (simp add: CallStatus mem_set_status_def)
    next
      case (Some r)
      obtain s' where s': "ts_set_status S i st s = (Some (r\<lparr>tr_status := st\<rparr>), s')"
          "rewritten S V s (r\<lparr>tr_status := st\<rparr>) [EvStatusChanged (r\<lparr>tr_status := st\<rparr>)] s'"
        using status_known[OF l(1) _ own[OF Some] refl] Some l(3) by auto
      have "like s' (mem_send (EvStatusChanged (r\<lparr>tr_status := st\<rparr>)) (mem_put (r\<lparr>tr_status := st\<rparr>) m))"
        by (rule like_rewritten[OF assms Some _ _ s'(2) refl]) (simp_all add: mem_send_def mem_put_def)
      then show ?thesis using Some s'(1) by (simp add: CallStatus mem_set_status_def Let_def)
    qed
  next
    case (CallAssign i n)
    show ?thesis
    proof (cases "mem_get i m")
      case None
      then show ?thesis using unknown[OF l(1), of i _ n] l(3) assms by (simp add: CallAssign mem_assign_node_def)
    next
      case (Some r)
      have s': "rewritten S V s (r\<lparr>tr_node := Some n\<rparr>) [] (ts_assign_node S i n s)"
        using assign_known[OF l(1) _ own[OF Some]] Some l(3) by auto
      have "like (ts_assign_node S i n s) (mem_put (r\<lparr>tr_node := Some n\<rparr>) m)"
        by (rule like_rewritten[OF assms Some _ _ s' refl]) (simp_all add: mem_put_def)
      then show ?thesis using Some by (simp add: CallAssign mem_assign_node_def)
    qed
  next
    case (CallCancel i)
    show ?thesis
    proof (cases "mem_get i m")
      case None
      then show ?thesis using unknown[OF l(1), of i] l(3) assms by (simp add: CallCancel mem_cancel_def)
    next
      case (Some r)
      obtain s' where s': "ts_cancel S i s = (True, s')" "rewritten S V s (r\<lparr>tr_status := Canceled\<rparr>) [EvCanceled i] s'"
        using cancel_known[OF l(1) _ own[OF Some]] Some l(3) by auto
      have "like s' (mem_send (EvCanceled i) (mem_put (r\<lparr>tr_status := Canceled\<rparr>) m))"
        by (rule like_rewritten[OF assms Some _ _ s'(2) refl]) (simp_all add: mem_send_def mem_put_def)
      then show ?thesis using Some s'(1) by (simp add: CallCancel mem_cancel_def)
    qed
  next
    case (CallGet i)
    then show ?thesis using l(3) assms by simp
  next
    case (CallChildren p)
    then show ?thesis using kids children[OF l(1)] l(3) assms by simp
  next
    case (CallList p)
    then show ?thesis
      using kids all children[OF l(1)] list_all_tasks[OF l(1)] list_children[OF l(1)] l(3) assms by (cases p) simp_all
  qed
qed

lemma calls_like:
  "like s m \<Longrightarrow> list_all2 same_answer (fst (serve_calls S cs s)) (fst (serve_calls (memory_below below uuid clock) cs m)) \<and>
    like (snd (serve_calls S cs s)) (snd (serve_calls (memory_below below uuid clock) cs m))"
proof (induction cs arbitrary: s m)
  case (Cons c cs)
  from call_like[OF Cons.prems, of c] Cons.IH[of "snd (serve_call S c s)" "snd (serve_call (memory_below below uuid clock) c m)"]
  show ?case by (simp add: split_beta Let_def)
qed simp

lemma calls_same:
  assumes "like s m"
  shows "list_all2 same_answer (fst (serve_calls S cs s)) (fst (serve_calls (memory_below below uuid clock) cs m)) \<and>
    sv_events V (snd (serve_calls S cs s)) = ms_events (snd (serve_calls (memory_below below uuid clock) cs m))"
  using calls_like[OF assms] likeD(8) by blast

end

end
