(* ===== verification/StoreRedis.thy ===== *)
theory StoreRedis
  imports StoreCalls Texts
begin

section \<open>The store over Redis (control-plane/src/store\_redis.rs)\<close>

text \<open>
  Redis and the JSON of records and events are outside the repository: \<open>redis_ops\<close> are the commands
  that the source sends, \<open>store_codec\<close> the readers and writers of JSON, which do not fail on records of
  strings. A command answers \<open>None\<close> where it fails; the source ignores the outcome of the commands that
  write. The state of the store is the server and the channel to its own subscribers.
\<close>

record 'r redis_ops =
  rd_get :: "ustr \<Rightarrow> 'r \<Rightarrow> ustr option option"
  rd_set :: "ustr \<Rightarrow> ustr \<Rightarrow> 'r \<Rightarrow> 'r"
  rd_sadd :: "ustr \<Rightarrow> ustr \<Rightarrow> 'r \<Rightarrow> 'r"
  rd_smembers :: "ustr \<Rightarrow> 'r \<Rightarrow> ustr list option"
  rd_publish :: "ustr \<Rightarrow> ustr \<Rightarrow> 'r \<Rightarrow> 'r"

record WireEvent =
  we_origin :: ustr
  we_event :: TaskEvent

record store_codec =
  cd_record :: "TaskRecord \<Rightarrow> ustr"
  cd_unrecord :: "ustr \<Rightarrow> TaskRecord option"
  cd_event :: "WireEvent \<Rightarrow> ustr"
  cd_unevent :: "ustr \<Rightarrow> WireEvent option"

record 'r redis_store =
  rs_redis :: 'r
  rs_events :: "TaskEvent list"
  rs_drawn :: nat

subsection \<open>Operations\<close>

definition redis_publish_event ::
  "'r redis_ops \<Rightarrow> store_codec \<Rightarrow> ustr \<Rightarrow> TaskEvent \<Rightarrow> 'r redis_store \<Rightarrow> 'r redis_store" where
  "redis_publish_event R C node e s =
     s\<lparr>rs_redis := rd_publish R (lit ''dalin:tasks:events'') (cd_event C \<lparr>we_origin = node, we_event = e\<rparr>) (rs_redis s),
       rs_events := rs_events s @ [e]\<rparr>"

text \<open>The task that listens to the channel: the payload of one message.\<close>

definition redis_receive :: "store_codec \<Rightarrow> ustr \<Rightarrow> ustr \<Rightarrow> 'r redis_store \<Rightarrow> 'r redis_store" where
  "redis_receive C node payload s =
     (case cd_unevent C payload of
        None \<Rightarrow> s
      | Some we \<Rightarrow> if we_origin we \<noteq> node then s\<lparr>rs_events := rs_events s @ [we_event we]\<rparr> else s)"

definition redis_value :: "'r redis_ops \<Rightarrow> ustr \<Rightarrow> 'r redis_store \<Rightarrow> ustr option" where
  "redis_value R k s = Option.bind (rd_get R k (rs_redis s)) id"

definition redis_get_record :: "'r redis_ops \<Rightarrow> store_codec \<Rightarrow> ustr \<Rightarrow> 'r redis_store \<Rightarrow> TaskRecord option" where
  "redis_get_record R C i s = Option.bind (redis_value R (lit ''dalin:task:'' @ i) s) (cd_unrecord C)"

definition redis_set :: "'r redis_ops \<Rightarrow> ustr \<Rightarrow> ustr \<Rightarrow> 'r redis_store \<Rightarrow> 'r redis_store" where
  "redis_set R k v s = s\<lparr>rs_redis := rd_set R k v (rs_redis s)\<rparr>"

definition redis_put :: "'r redis_ops \<Rightarrow> store_codec \<Rightarrow> TaskRecord \<Rightarrow> 'r redis_store \<Rightarrow> 'r redis_store" where
  "redis_put R C r s = redis_set R (lit ''dalin:task:'' @ tr_id r) (cd_record C r) s"

definition redis_sadd :: "'r redis_ops \<Rightarrow> ustr \<Rightarrow> ustr \<Rightarrow> 'r redis_store \<Rightarrow> 'r redis_store" where
  "redis_sadd R k i s = s\<lparr>rs_redis := rd_sadd R k i (rs_redis s)\<rparr>"

text \<open>
  A registration looks for the record of its key, and else writes a new one; other calls may be served
  between the two.
\<close>

definition redis_lookup ::
  "'r redis_ops \<Rightarrow> store_codec \<Rightarrow> ustr option \<Rightarrow> ustr \<Rightarrow> 'r redis_store \<Rightarrow> TaskRecord option" where
  "redis_lookup R C parent k s =
     Option.bind (redis_value R (lit ''dalin:idem:'' @ idem_key parent k) s) (\<lambda>i. redis_get_record R C i s)"

definition redis_create ::
  "'r redis_ops \<Rightarrow> store_codec \<Rightarrow> ustr \<Rightarrow> (nat \<Rightarrow> ustr) \<Rightarrow> (nat \<Rightarrow> i64) \<Rightarrow> ustr \<Rightarrow> ustr option \<Rightarrow> ustr \<Rightarrow> ustr \<Rightarrow> ustr \<Rightarrow>
   'r redis_store \<Rightarrow> TaskRecord \<times> 'r redis_store" where
  "redis_create R C node uuid clock name parent effect capability k s =
     (let i = uuid (rs_drawn s);
          r = \<lparr>tr_id = i, tr_name = name, tr_parent = parent, tr_effect = effect, tr_capability = capability,
               tr_key = k, tr_status = Queued, tr_node = None, tr_submitted = clock (rs_drawn s)\<rparr>;
          s1 = redis_put R C r (s\<lparr>rs_drawn := rs_drawn s + 1\<rparr>);
          s2 = redis_set R (lit ''dalin:idem:'' @ idem_key parent k) i s1;
          s3 = (case parent of Some p \<Rightarrow> redis_sadd R (lit ''dalin:children:'' @ p) i s2 | None \<Rightarrow> s2);
          s4 = redis_sadd R (lit ''dalin:tasks'') i s3
      in (r, redis_publish_event R C node (EvSubmitted r) s4))"

definition redis_register ::
  "'r redis_ops \<Rightarrow> store_codec \<Rightarrow> ustr \<Rightarrow> (nat \<Rightarrow> ustr) \<Rightarrow> (nat \<Rightarrow> i64) \<Rightarrow> ustr \<Rightarrow> ustr option \<Rightarrow> ustr \<Rightarrow> ustr \<Rightarrow> ustr \<Rightarrow>
   'r redis_store \<Rightarrow> TaskRecord \<times> 'r redis_store" where
  "redis_register R C node uuid clock name parent effect capability k s =
     (case redis_lookup R C parent k s of
        Some r \<Rightarrow> (r, s)
      | None \<Rightarrow> redis_create R C node uuid clock name parent effect capability k s)"

definition redis_set_status ::
  "'r redis_ops \<Rightarrow> store_codec \<Rightarrow> ustr \<Rightarrow> ustr \<Rightarrow> TaskStatus \<Rightarrow> 'r redis_store \<Rightarrow> TaskRecord option \<times> 'r redis_store" where
  "redis_set_status R C node i st s =
     (case redis_get_record R C i s of
        None \<Rightarrow> (None, s)
      | Some r \<Rightarrow>
          (let u = r\<lparr>tr_status := st\<rparr> in
           (Some u, redis_publish_event R C node (EvStatusChanged u)
              (redis_set R (lit ''dalin:task:'' @ i) (cd_record C u) s))))"

definition redis_assign_node ::
  "'r redis_ops \<Rightarrow> store_codec \<Rightarrow> ustr \<Rightarrow> ustr \<Rightarrow> 'r redis_store \<Rightarrow> 'r redis_store" where
  "redis_assign_node R C i n s =
     (case redis_get_record R C i s of
        None \<Rightarrow> s
      | Some r \<Rightarrow> redis_set R (lit ''dalin:task:'' @ i) (cd_record C (r\<lparr>tr_node := Some n\<rparr>)) s)"

definition redis_cancel ::
  "'r redis_ops \<Rightarrow> store_codec \<Rightarrow> ustr \<Rightarrow> ustr \<Rightarrow> 'r redis_store \<Rightarrow> bool \<times> 'r redis_store" where
  "redis_cancel R C node i s =
     (case redis_get_record R C i s of
        None \<Rightarrow> (False, s)
      | Some r \<Rightarrow> (True, redis_publish_event R C node (EvCanceled i)
          (redis_set R (lit ''dalin:task:'' @ i) (cd_record C (r\<lparr>tr_status := Canceled\<rparr>)) s)))"

definition redis_fetch_many :: "'r redis_ops \<Rightarrow> store_codec \<Rightarrow> ustr list \<Rightarrow> 'r redis_store \<Rightarrow> TaskRecord list" where
  "redis_fetch_many R C ids s = List.map_filter (\<lambda>i. redis_get_record R C i s) ids"

text \<open>\<open>smembers(..).await.unwrap_or_default()\<close>\<close>

definition redis_members :: "'r redis_ops \<Rightarrow> ustr \<Rightarrow> 'r redis_store \<Rightarrow> ustr list" where
  "redis_members R k s = (case rd_smembers R k (rs_redis s) of Some ids \<Rightarrow> ids | None \<Rightarrow> [])"

definition redis_children_of :: "'r redis_ops \<Rightarrow> store_codec \<Rightarrow> ustr \<Rightarrow> 'r redis_store \<Rightarrow> TaskRecord list" where
  "redis_children_of R C p s = redis_fetch_many R C (redis_members R (lit ''dalin:children:'' @ p) s) s"

definition redis_list :: "'r redis_ops \<Rightarrow> store_codec \<Rightarrow> ustr option \<Rightarrow> 'r redis_store \<Rightarrow> TaskRecord list" where
  "redis_list R C parent s =
     (case parent of
        Some p \<Rightarrow> redis_children_of R C p s
      | None \<Rightarrow> redis_fetch_many R C (redis_members R (lit ''dalin:tasks'') s) s)"

definition over_redis ::
  "'r redis_ops \<Rightarrow> store_codec \<Rightarrow> ustr \<Rightarrow> (nat \<Rightarrow> ustr) \<Rightarrow> (nat \<Rightarrow> i64) \<Rightarrow> 'r redis_store task_store" where
  "over_redis R C node uuid clock =
     \<lparr>ts_register = redis_register R C node uuid clock, ts_set_status = redis_set_status R C node,
      ts_assign_node = redis_assign_node R C, ts_cancel = redis_cancel R C node,
      ts_get = redis_get_record R C, ts_children_of = redis_children_of R C, ts_list = redis_list R C\<rparr>"

subsection \<open>What a server that works does\<close>

definition codec_ok :: "store_codec \<Rightarrow> bool" where
  "codec_ok C = ((\<forall>r. cd_unrecord C (cd_record C r) = Some r) \<and> (\<forall>e. cd_unevent C (cd_event C e) = Some e))"

text \<open>
  Commands do not fail; \<open>SET\<close> and \<open>SADD\<close> change what they name, and publishing changes nothing that is
  stored.
\<close>

definition redis_ok :: "'r redis_ops \<Rightarrow> bool" where
  "redis_ok R =
     ((\<forall>k k' v s. rd_get R k (rd_set R k' v s) = (if k = k' then Some (Some v) else rd_get R k s)) \<and>
      (\<forall>k k' i s. k \<noteq> k' \<longrightarrow> rd_get R k (rd_sadd R k' i s) = rd_get R k s) \<and>
      (\<forall>k k' v s. k \<noteq> k' \<longrightarrow> rd_smembers R k (rd_set R k' v s) = rd_smembers R k s) \<and>
      (\<forall>k k' i s. k \<noteq> k' \<longrightarrow> rd_smembers R k (rd_sadd R k' i s) = rd_smembers R k s) \<and>
      (\<forall>k i s ids. rd_smembers R k s = Some ids \<longrightarrow> distinct ids \<longrightarrow>
         (\<exists>ids'. rd_smembers R k (rd_sadd R k i s) = Some ids' \<and> distinct ids' \<and> set ids' = insert i (set ids))) \<and>
      (\<forall>k c p s. rd_get R k (rd_publish R c p s) = rd_get R k s \<and> rd_smembers R k (rd_publish R c p s) = rd_smembers R k s))"

definition redis_empty :: "'r redis_ops \<Rightarrow> 'r \<Rightarrow> bool" where
  "redis_empty R s = (\<forall>k. rd_get R k s = Some None \<and> rd_smembers R k s = Some [])"

text \<open>A server with one map for texts and one for sets.\<close>

record sample_redis =
  sr_texts :: "(ustr \<times> ustr) list"
  sr_sets :: "(ustr \<times> ustr list) list"
  sr_sent :: "(ustr \<times> ustr) list"

definition sample_redis_ops :: "sample_redis redis_ops" where
  "sample_redis_ops =
     \<lparr>rd_get = (\<lambda>k s. Some (map_of (sr_texts s) k)), rd_set = (\<lambda>k v s. s\<lparr>sr_texts := AList.update k v (sr_texts s)\<rparr>),
      rd_sadd = (\<lambda>k i s. s\<lparr>sr_sets := AList.update k (List.insert i (case map_of (sr_sets s) k of Some l \<Rightarrow> l | None \<Rightarrow> [])) (sr_sets s)\<rparr>),
      rd_smembers = (\<lambda>k s. Some (case map_of (sr_sets s) k of Some l \<Rightarrow> l | None \<Rightarrow> [])),
      rd_publish = (\<lambda>c p s. s\<lparr>sr_sent := sr_sent s @ [(c, p)]\<rparr>)\<rparr>"

lemma sample_redis_ok: "redis_ok sample_redis_ops"
  by (simp add: redis_ok_def sample_redis_ops_def update_conv')

lemma sample_redis_empty: "redis_empty sample_redis_ops \<lparr>sr_texts = [], sr_sets = [], sr_sent = []\<rparr>"
  by (simp add: redis_empty_def sample_redis_ops_def)

end
