(* ===== verification/StoreRedisCorrect.thy ===== *)
theory StoreRedisCorrect
  imports StoreRedis
begin

section \<open>The store over Redis answers as the store in memory\<close>

lemma redis_keys [simp]:
  "lit ''dalin:task:'' @ i \<noteq> lit ''dalin:idem:'' @ k" "lit ''dalin:idem:'' @ k \<noteq> lit ''dalin:task:'' @ i"
  "lit ''dalin:task:'' @ i \<noteq> lit ''dalin:children:'' @ p" "lit ''dalin:children:'' @ p \<noteq> lit ''dalin:task:'' @ i"
  "lit ''dalin:idem:'' @ k \<noteq> lit ''dalin:children:'' @ p" "lit ''dalin:children:'' @ p \<noteq> lit ''dalin:idem:'' @ k"
  "lit ''dalin:task:'' @ i \<noteq> lit ''dalin:tasks''" "lit ''dalin:tasks'' \<noteq> lit ''dalin:task:'' @ i"
  "lit ''dalin:idem:'' @ k \<noteq> lit ''dalin:tasks''" "lit ''dalin:tasks'' \<noteq> lit ''dalin:idem:'' @ k"
  "lit ''dalin:children:'' @ p \<noteq> lit ''dalin:tasks''" "lit ''dalin:tasks'' \<noteq> lit ''dalin:children:'' @ p"
  by (simp_all add: lit_def)

subsection \<open>The commands\<close>

text \<open>A key that holds a set without duplicates, or nothing.\<close>

definition listed :: "'r redis_ops \<Rightarrow> ustr \<Rightarrow> 'r redis_store \<Rightarrow> bool" where
  "listed R k s = (\<exists>ids. rd_smembers R k (rs_redis s) = Some ids \<and> distinct ids)"

lemma redis_value_set: "redis_ok R \<Longrightarrow> redis_value R k (redis_set R k' v s) = (if k = k' then Some v else redis_value R k s)"
  by (simp add: redis_ok_def redis_value_def redis_set_def)

lemma redis_value_sadd: "redis_ok R \<Longrightarrow> k \<noteq> k' \<Longrightarrow> redis_value R k (redis_sadd R k' i s) = redis_value R k s"
  by (simp add: redis_ok_def redis_value_def redis_sadd_def)

lemma redis_value_publish: "redis_ok R \<Longrightarrow> redis_value R k (redis_publish_event R C node e s) = redis_value R k s"
  by (simp add: redis_ok_def redis_value_def redis_publish_event_def)

lemma redis_value_drawn: "redis_value R k (s\<lparr>rs_drawn := d\<rparr>) = redis_value R k s"
  by (simp add: redis_value_def)

lemma redis_members_set: "redis_ok R \<Longrightarrow> k \<noteq> k' \<Longrightarrow> redis_members R k (redis_set R k' v s) = redis_members R k s"
  by (simp add: redis_ok_def redis_members_def redis_set_def)

lemma redis_ok_sadd:
  "redis_ok R \<Longrightarrow> rd_smembers R k s = Some ids \<Longrightarrow> distinct ids \<Longrightarrow>
    \<exists>ids'. rd_smembers R k (rd_sadd R k i s) = Some ids' \<and> distinct ids' \<and> set ids' = insert i (set ids)"
  unfolding redis_ok_def by (elim conjE) (drule spec, drule spec, drule spec, drule spec, drule mp, assumption, drule mp)

lemma redis_ok_sadd_other: "redis_ok R \<Longrightarrow> k \<noteq> k' \<Longrightarrow> rd_smembers R k (rd_sadd R k' i s) = rd_smembers R k s"
  unfolding redis_ok_def by (elim conjE) simp

lemma redis_members_sadd:
  "redis_ok R \<Longrightarrow> listed R k s \<Longrightarrow>
    set (redis_members R k (redis_sadd R k' i s)) = (if k = k' then insert i (set (redis_members R k s)) else set (redis_members R k s))"
  using redis_ok_sadd[of R k "rs_redis s" _ i] redis_ok_sadd_other[of R k k' i "rs_redis s"]
  by (cases "k = k'") (auto simp: redis_members_def redis_sadd_def listed_def)

lemma redis_members_publish: "redis_ok R \<Longrightarrow> redis_members R k (redis_publish_event R C node e s) = redis_members R k s"
  by (simp add: redis_ok_def redis_members_def redis_publish_event_def)

lemma redis_members_drawn: "redis_members R k (s\<lparr>rs_drawn := d\<rparr>) = redis_members R k s"
  by (simp add: redis_members_def)

lemma listed_set: "redis_ok R \<Longrightarrow> k \<noteq> k' \<Longrightarrow> listed R k (redis_set R k' v s) = listed R k s"
  by (simp add: redis_ok_def listed_def redis_set_def)

lemma listed_sadd: "redis_ok R \<Longrightarrow> listed R k s \<Longrightarrow> listed R k (redis_sadd R k' i s)"
  using redis_ok_sadd[of R k "rs_redis s" _ i] redis_ok_sadd_other[of R k k' i "rs_redis s"]
  by (cases "k = k'") (auto simp: redis_sadd_def listed_def)

lemma listed_publish: "redis_ok R \<Longrightarrow> listed R k (redis_publish_event R C node e s) = listed R k s"
  by (simp add: redis_ok_def listed_def redis_publish_event_def)

lemma listed_drawn: "listed R k (s\<lparr>rs_drawn := d\<rparr>) = listed R k s"
  by (simp add: listed_def)

lemma listed_distinct: "listed R k s \<Longrightarrow> distinct (redis_members R k s)"
  by (auto simp: listed_def redis_members_def)

lemma redis_fields [simp]:
  "rs_events (redis_set R k v s) = rs_events s" "rs_events (redis_sadd R k v s) = rs_events s"
  "rs_events (redis_publish_event R C node e s) = rs_events s @ [e]"
  "rs_drawn (redis_set R k v s) = rs_drawn s" "rs_drawn (redis_sadd R k v s) = rs_drawn s"
  "rs_drawn (redis_publish_event R C node e s) = rs_drawn s"
  by (simp_all add: redis_set_def redis_sadd_def redis_publish_event_def)

lemmas redis_commands = redis_value_set redis_value_sadd redis_value_publish redis_value_drawn redis_members_set
  redis_members_sadd redis_members_publish redis_members_drawn listed_set listed_sadd listed_publish listed_drawn

subsection \<open>The store keeps the contract of stores with keys\<close>

definition redis_view :: "'r redis_ops \<Rightarrow> store_codec \<Rightarrow> 'r redis_store store_view" where
  "redis_view R C =
     \<lparr>sv_ok = (\<lambda>s. redis_ok R \<and> codec_ok C \<and> (\<forall>p. listed R (lit ''dalin:children:'' @ p) s) \<and> listed R (lit ''dalin:tasks'') s),
      sv_id_for = (\<lambda>s k. redis_value R (lit ''dalin:idem:'' @ k) s),
      sv_kids = (\<lambda>s p. redis_members R (lit ''dalin:children:'' @ p) s), sv_ids = redis_members R (lit ''dalin:tasks''),
      sv_drawn = rs_drawn, sv_events = rs_events\<rparr>"

lemma over_redis_simps [simp]:
  "ts_register (over_redis R C node uuid clock) = redis_register R C node uuid clock"
  "ts_set_status (over_redis R C node uuid clock) = redis_set_status R C node"
  "ts_assign_node (over_redis R C node uuid clock) = redis_assign_node R C"
  "ts_cancel (over_redis R C node uuid clock) = redis_cancel R C node"
  "ts_get (over_redis R C node uuid clock) = redis_get_record R C"
  "ts_children_of (over_redis R C node uuid clock) = redis_children_of R C"
  "ts_list (over_redis R C node uuid clock) = redis_list R C"
  by (simp_all add: over_redis_def)

lemma redis_created:
  assumes ok: "sv_ok (redis_view R C) s"
    and new: "redis_create R C node uuid clock n p e c k s = (r, s')"
  shows "r = queued_task uuid clock (rs_drawn s) n p e c k \<and>
    task_entered (over_redis R C node uuid clock) (redis_view R C) (=) s (idem_key p k) r s'"
proof -
  have r: "redis_ok R" "\<And>r. cd_unrecord C (cd_record C r) = Some r" "codec_ok C"
    and l: "\<And>q. listed R (lit ''dalin:children:'' @ q) s" "listed R (lit ''dalin:tasks'') s"
    using ok by (auto simp: redis_view_def codec_ok_def)
  have r_eq: "r = queued_task uuid clock (rs_drawn s) n p e c k"
    using new by (simp add: redis_create_def queued_task_def Let_def)
  show ?thesis
    using new r l unfolding task_entered_def
    by (cases p) (auto simp: redis_create_def queued_task_def Let_def redis_view_def redis_get_record_def redis_put_def
        redis_commands fun_eq_iff)
qed

lemma redis_rewritten:
  assumes "sv_ok (redis_view R C) s" and "tr_id r = i" and "s1 = redis_set R (lit ''dalin:task:'' @ i) (cd_record C r) s"
    and "s2 = s1 \<and> evs = [] \<or> s2 = redis_publish_event R C node e s1 \<and> evs = [e]"
  shows "rewritten (over_redis R C node uuid clock) (redis_view R C) s r evs s2"
  using assms unfolding rewritten_def
  by (auto simp: redis_view_def redis_get_record_def redis_commands codec_ok_def fun_eq_iff)

interpretation over_redis: keyed_store "over_redis R C node uuid clock" "redis_view R C" "(=)" uuid clock
  for R C node uuid clock
proof (unfold_locales, goal_cases)
  case (1 s q)
  then show ?case by (simp add: redis_view_def listed_distinct)
next
  case (2 s p k r n e c)
  then show ?case by (simp add: redis_register_def redis_lookup_def redis_view_def)
next
  case (3 s p k r n e c)
  then have "redis_lookup R C p k s = None" by (simp add: redis_lookup_def redis_view_def)
  then show ?case
    using redis_created[OF 3(1), of node uuid clock n p e c k] 3(4)
    by (cases "redis_create R C node uuid clock n p e c k s") (simp add: redis_register_def redis_view_def)
next
  case (4 s i st n)
  then show ?case by (simp add: redis_set_status_def redis_assign_node_def redis_cancel_def)
next
  case (5 s i r r' st)
  then show ?case
    by (auto simp: redis_set_status_def Let_def intro!: redis_rewritten[OF 5(1)])
next
  case (6 s i r n)
  then show ?case by (auto simp: redis_assign_node_def intro!: redis_rewritten[OF 6(1)])
next
  case (7 s i r)
  then show ?case by (auto simp: redis_cancel_def intro!: redis_rewritten[OF 7(1)])
next
  case (8 s q)
  then show ?case by (simp add: redis_children_of_def redis_fetch_many_def redis_view_def)
next
  case (9 s)
  then show ?case by (simp add: redis_list_def redis_fetch_many_def redis_view_def)
next
  case (10 s q)
  then show ?case by (simp add: redis_list_def)
qed

subsection \<open>A codec\<close>

text \<open>Records and events as lists of fields, each with its length in front.\<close>

fun read_fields :: "nat \<Rightarrow> ustr \<Rightarrow> ustr list" where
  "read_fields 0 _ = []"
| "read_fields (Suc k) [] = []"
| "read_fields (Suc k) (n # cs) = take n cs # read_fields k (drop n cs)"

definition write_fields :: "ustr list \<Rightarrow> ustr" where
  "write_fields fs = concat (map (\<lambda>f. length f # f) fs)"

lemma read_write_fields: "read_fields (length fs) (write_fields fs @ cs) = fs"
  by (induction fs) (simp_all add: write_fields_def)

fun field_option :: "ustr \<Rightarrow> ustr option" where
  "field_option [] = None"
| "field_option (_ # s) = Some s"

definition option_field :: "ustr option \<Rightarrow> ustr" where
  "option_field x = (case x of None \<Rightarrow> [] | Some s \<Rightarrow> 0 # s)"

definition sample_statuses :: "TaskStatus list" where
  "sample_statuses = [Queued, Scheduled, Running, Succeeded, Failed, Canceled]"

fun status_place :: "TaskStatus \<Rightarrow> nat" where
  "status_place Queued = 0" | "status_place Scheduled = 1" | "status_place Running = 2"
| "status_place Succeeded = 3" | "status_place Failed = 4" | "status_place Canceled = 5"

definition record_fields :: "TaskRecord \<Rightarrow> ustr list" where
  "record_fields r = [tr_id r, tr_name r, option_field (tr_parent r), tr_effect r, tr_capability r, tr_key r,
     [status_place (tr_status r)], option_field (tr_node r), [unat (tr_submitted r)]]"

definition fields_record :: "ustr list \<Rightarrow> TaskRecord" where
  "fields_record fs = \<lparr>tr_id = fs ! 0, tr_name = fs ! 1, tr_parent = field_option (fs ! 2), tr_effect = fs ! 3,
     tr_capability = fs ! 4, tr_key = fs ! 5, tr_status = sample_statuses ! hd (fs ! 6), tr_node = field_option (fs ! 7),
     tr_submitted = of_nat (hd (fs ! 8))\<rparr>"

definition event_fields :: "TaskEvent \<Rightarrow> ustr list" where
  "event_fields e = (case e of EvSubmitted r \<Rightarrow> [0] # record_fields r | EvStatusChanged r \<Rightarrow> [1] # record_fields r
     | EvCanceled i \<Rightarrow> [2] # replicate 9 i)"

definition fields_event :: "ustr list \<Rightarrow> TaskEvent" where
  "fields_event fs = (if hd fs = [0] then EvSubmitted (fields_record (tl fs))
     else if hd fs = [1] then EvStatusChanged (fields_record (tl fs)) else EvCanceled (fs ! 1))"

definition sample_codec :: store_codec where
  "sample_codec = \<lparr>cd_record = (\<lambda>r. write_fields (record_fields r)),
     cd_unrecord = (\<lambda>t. Some (fields_record (read_fields 9 t))),
     cd_event = (\<lambda>w. write_fields (we_origin w # event_fields (we_event w))),
     cd_unevent = (\<lambda>t. let fs = read_fields 11 t in Some \<lparr>we_origin = hd fs, we_event = fields_event (tl fs)\<rparr>)\<rparr>"

lemma read_write_exact: "length fs = k \<Longrightarrow> read_fields k (write_fields fs) = fs"
  using read_write_fields[of fs "[]"] by simp

lemma option_field [simp]: "field_option (option_field x) = x"
  by (cases x) (simp_all add: option_field_def)

lemma record_fields [simp]: "fields_record (record_fields r) = r"
  by (cases r; cases "tr_status r") (simp_all add: fields_record_def record_fields_def sample_statuses_def)

lemma event_fields [simp]: "fields_event (event_fields e) = e"
  by (cases e) (simp_all add: fields_event_def event_fields_def eval_nat_numeral)

lemma sample_codec_ok: "codec_ok sample_codec"
proof -
  have "read_fields 9 (write_fields (record_fields r)) = record_fields r" for r
    by (rule read_write_exact) (simp add: record_fields_def)
  moreover have "read_fields 11 (write_fields (o' # event_fields e)) = o' # event_fields e" for o' e
    by (rule read_write_exact) (simp add: event_fields_def record_fields_def split: TaskEvent.split)
  ultimately show ?thesis by (simp add: codec_ok_def sample_codec_def)
qed

subsection \<open>Any calls\<close>

definition redis_start :: "'r \<Rightarrow> 'r redis_store" where
  "redis_start r = \<lparr>rs_redis = r, rs_events = [], rs_drawn = 0\<rparr>"

lemma redis_like_start:
  assumes "redis_ok R" and "codec_ok C" and "redis_empty R r" and "inj uuid"
  shows "over_redis.like R C node uuid clock (redis_start r) mem_new"
  using assms(3) mem_tidy_new[OF assms(4), unfolded mem_new_def] unfolding over_redis.like_def
  by (auto simp: assms redis_start_def redis_empty_def redis_view_def listed_def redis_value_def redis_members_def
      redis_get_record_def mem_new_def mem_get_def fun_eq_iff)

text \<open>
  C32: Over a Redis that works and that this control plane alone writes to, any sequence of calls, one
  after the other, has the answers of the store in memory, with lists of tasks in some order, and sends
  the same events to its subscribers.
\<close>

theorem redis_answers_as_memory:
  assumes "redis_ok R" and "codec_ok C" and "redis_empty R r" and "inj uuid"
  shows "list_all2 same_answer (fst (serve_calls (over_redis R C node uuid clock) cs (redis_start r)))
      (fst (serve_calls (in_memory uuid clock) cs mem_new)) \<and>
    rs_events (snd (serve_calls (over_redis R C node uuid clock) cs (redis_start r))) =
      ms_events (snd (serve_calls (in_memory uuid clock) cs mem_new))"
  using over_redis.calls_same[OF redis_like_start[OF assms], where cs = cs] by (simp add: memory_below_eq redis_view_def)

theorem redis_answers_as_memory_witness:
  "list_all2 same_answer
     (fst (serve_calls (over_redis sample_redis_ops sample_codec [0] (\<lambda>k. [k]) (\<lambda>_. 0))
        [CallRegister [1] None [2] [3] [4], CallRegister [5] (Some [0]) [2] [3] [4], CallChildren [0]]
        (redis_start \<lparr>sr_texts = [], sr_sets = [], sr_sent = []\<rparr>)))
     (fst (serve_calls (in_memory (\<lambda>k. [k]) (\<lambda>_. 0))
        [CallRegister [1] None [2] [3] [4], CallRegister [5] (Some [0]) [2] [3] [4], CallChildren [0]] mem_new))"
  using redis_answers_as_memory[OF sample_redis_ok sample_codec_ok sample_redis_empty, of "\<lambda>k. [k]" "[0]" "\<lambda>_. 0"
    "[CallRegister [1] None [2] [3] [4], CallRegister [5] (Some [0]) [2] [3] [4], CallChildren [0]]"]
  by (simp add: inj_def)

end
