(* ===== verification/StoreRedisRace.thy ===== *)
theory StoreRedisRace
  imports StoreRedisCorrect
begin

section \<open>Registrations over Redis at the same time (control-plane/src/store\_redis.rs)\<close>

text \<open>
  A registration as the sequence of commands that it awaits. Between any two of them the server may
  answer another registration, of this node or another one. Uninterrupted, the commands are
  \<open>redis_register\<close>; interleaved, two registrations of one key may make two tasks.
\<close>

subsection \<open>The commands of a registration\<close>

text \<open>
  What a registration has done: nothing; read the identifier of its key; seen that there is no record;
  written the record; written the key; entered the task below its parent; entered it into the list of
  tasks; returned.
\<close>

datatype reg_stage =
    RegEntered
  | RegFound ustr
  | RegMissed
  | RegWritten TaskRecord
  | RegKeyed TaskRecord
  | RegBelow TaskRecord
  | RegListed TaskRecord
  | RegReturned TaskRecord

record registration =
  rg_name :: ustr
  rg_effect :: ustr
  rg_capability :: ustr

definition redis_next_command ::
  "'r redis_ops \<Rightarrow> store_codec \<Rightarrow> ustr \<Rightarrow> (nat \<Rightarrow> ustr) \<Rightarrow> (nat \<Rightarrow> i64) \<Rightarrow> ustr option \<Rightarrow> ustr \<Rightarrow> registration \<Rightarrow>
   reg_stage \<Rightarrow> 'r redis_store \<Rightarrow> reg_stage \<times> 'r redis_store" where
  "redis_next_command R C node uuid clock parent k q st s =
     (case st of
        RegEntered \<Rightarrow>
          (case redis_value R (lit ''dalin:idem:'' @ idem_key parent k) s of
             None \<Rightarrow> (RegMissed, s)
           | Some i \<Rightarrow> (RegFound i, s))
      | RegFound i \<Rightarrow>
          (case redis_get_record R C i s of
             None \<Rightarrow> (RegMissed, s)
           | Some r \<Rightarrow> (RegReturned r, s))
      | RegMissed \<Rightarrow>
          (let r = \<lparr>tr_id = uuid (rs_drawn s), tr_name = rg_name q, tr_parent = parent, tr_effect = rg_effect q,
                 tr_capability = rg_capability q, tr_key = k, tr_status = Queued, tr_node = None,
                 tr_submitted = clock (rs_drawn s)\<rparr>
           in (RegWritten r, redis_put R C r (s\<lparr>rs_drawn := rs_drawn s + 1\<rparr>)))
      | RegWritten r \<Rightarrow> (RegKeyed r, redis_set R (lit ''dalin:idem:'' @ idem_key parent k) (tr_id r) s)
      | RegKeyed r \<Rightarrow>
          (RegBelow r, case parent of Some p \<Rightarrow> redis_sadd R (lit ''dalin:children:'' @ p) (tr_id r) s | None \<Rightarrow> s)
      | RegBelow r \<Rightarrow> (RegListed r, redis_sadd R (lit ''dalin:tasks'') (tr_id r) s)
      | RegListed r \<Rightarrow> (RegReturned r, redis_publish_event R C node (EvSubmitted r) s)
      | RegReturned r \<Rightarrow> (RegReturned r, s))"

text \<open>Alone, a registration ends within seven commands as \<open>redis_register\<close> does.\<close>

lemma registration_alone:
  "((\<lambda>(st, s). redis_next_command R C node uuid clock parent k q st s) ^^ 7) (RegEntered, s) =
   (case redis_register R C node uuid clock (rg_name q) parent (rg_effect q) (rg_capability q) k s of
      (r, s') \<Rightarrow> (RegReturned r, s'))"
  by (simp add: eval_nat_numeral redis_next_command_def redis_register_def redis_lookup_def redis_create_def Let_def
      split: option.split prod.split)

subsection \<open>Two registrations of one key\<close>

text \<open>A schedule says which of the two is served next.\<close>

fun serve_two ::
  "(bool \<Rightarrow> reg_stage \<Rightarrow> 's \<Rightarrow> reg_stage \<times> 's) \<Rightarrow> bool list \<Rightarrow> (bool \<Rightarrow> reg_stage) \<Rightarrow> 's \<Rightarrow> (bool \<Rightarrow> reg_stage) \<times> 's"
where
  "serve_two next [] f s = (f, s)"
| "serve_two next (x # xs) f s = (case next x (f x) s of (st, s') \<Rightarrow> serve_two next xs (f(x := st)) s')"

fun reg_record :: "reg_stage \<Rightarrow> TaskRecord option" where
  "reg_record (RegWritten r) = Some r"
| "reg_record (RegKeyed r) = Some r"
| "reg_record (RegBelow r) = Some r"
| "reg_record (RegListed r) = Some r"
| "reg_record (RegReturned r) = Some r"
| "reg_record _ = None"

fun before_look_up :: "reg_stage \<Rightarrow> bool" where
  "before_look_up RegEntered = True"
| "before_look_up (RegFound _) = True"
| "before_look_up _ = False"

fun past_key :: "reg_stage \<Rightarrow> bool" where
  "past_key (RegKeyed _) = True"
| "past_key (RegBelow _) = True"
| "past_key (RegListed _) = True"
| "past_key (RegReturned _) = True"
| "past_key _ = False"

text \<open>
  The two outcomes as invariants. Racing, both are past their look-ups, and what they write are records
  of their own with identifiers that were drawn one after the other. Joined, one has written the key and
  the other can only read it.
\<close>

definition racing :: "'r redis_ops \<Rightarrow> store_codec \<Rightarrow> (nat \<Rightarrow> ustr) \<Rightarrow> (bool \<Rightarrow> reg_stage) \<Rightarrow> 'r redis_store \<Rightarrow> bool" where
  "racing R C uuid f s =
     ((\<forall>x. \<not> before_look_up (f x)) \<and>
      (\<forall>x r. reg_record (f x) = Some r \<longrightarrow>
         (\<exists>d < rs_drawn s. tr_id r = uuid d) \<and> redis_get_record R C (tr_id r) s = Some r) \<and>
      (\<forall>r r'. reg_record (f False) = Some r \<longrightarrow> reg_record (f True) = Some r' \<longrightarrow> tr_id r \<noteq> tr_id r'))"

definition joined :: "'r redis_ops \<Rightarrow> store_codec \<Rightarrow> ustr \<Rightarrow> bool \<Rightarrow> TaskRecord \<Rightarrow> (bool \<Rightarrow> reg_stage) \<Rightarrow> 'r redis_store \<Rightarrow> bool" where
  "joined R C ik x r f s =
     (past_key (f x) \<and> reg_record (f x) = Some r \<and> f (\<not> x) \<in> {RegEntered, RegFound (tr_id r), RegReturned r} \<and>
      redis_value R (lit ''dalin:idem:'' @ ik) s = Some (tr_id r) \<and> redis_get_record R C (tr_id r) s = Some r)"

lemma record_commands:
  assumes "redis_ok R"
  shows "redis_get_record R C i (redis_set R (lit ''dalin:idem:'' @ k) v s) = redis_get_record R C i s"
    and "redis_get_record R C i (redis_sadd R (lit ''dalin:children:'' @ p) j s) = redis_get_record R C i s"
    and "redis_get_record R C i (redis_sadd R (lit ''dalin:tasks'') j s) = redis_get_record R C i s"
    and "redis_get_record R C i (redis_publish_event R C node e s) = redis_get_record R C i s"
    and "redis_get_record R C i (s\<lparr>rs_drawn := d\<rparr>) = redis_get_record R C i s"
  using assms by (simp_all add: redis_get_record_def redis_commands)

lemma record_put:
  "redis_ok R \<Longrightarrow> codec_ok C \<Longrightarrow>
   redis_get_record R C i (redis_put R C r s) = (if i = tr_id r then Some r else redis_get_record R C i s)"
  by (auto simp: redis_get_record_def redis_put_def redis_commands codec_ok_def)

lemma put_fields [simp]: "rs_drawn (redis_put R C r s) = rs_drawn s"
  by (simp add: redis_put_def)

lemma racing_moves:
  assumes "racing R C uuid f s" and "reg_record st = reg_record (f x)" and "\<not> before_look_up st"
    and "rs_drawn s' = rs_drawn s" and "\<And>i. redis_get_record R C i s' = redis_get_record R C i s"
  shows "racing R C uuid (f(x := st)) s'"
proof -
  have "reg_record ((f(x := st)) y) = reg_record (f y)" for y using assms(2) by simp
  moreover have "\<not> before_look_up ((f(x := st)) y)" for y using assms(1,3) by (simp add: racing_def)
  ultimately show ?thesis using assms(1,4,5) unfolding racing_def by (simp del: fun_upd_apply)
qed

lemma racing_step:
  assumes ok: "redis_ok R" "codec_ok C" "inj uuid" and inv: "racing R C uuid f s"
    and step: "redis_next_command R C node uuid clock p k q (f x) s = (st, s')"
  shows "racing R C uuid (f(x := st)) s'"
proof (cases "f x")
  case RegMissed
  let ?r = "\<lparr>tr_id = uuid (rs_drawn s), tr_name = rg_name q, tr_parent = p, tr_effect = rg_effect q,
                 tr_capability = rg_capability q, tr_key = k, tr_status = Queued, tr_node = None,
                 tr_submitted = clock (rs_drawn s)\<rparr>"
  have st: "st = RegWritten ?r" "s' = redis_put R C ?r (s\<lparr>rs_drawn := rs_drawn s + 1\<rparr>)"
    using step RegMissed by (auto simp: redis_next_command_def Let_def)
  have old: "tr_id r \<noteq> uuid (rs_drawn s)" if "reg_record (f y) = Some r" for y r
    using inv that ok(3) by (force simp: racing_def dest: injD)
  have keeps: "(\<exists>d < rs_drawn s'. tr_id r = uuid d) \<and> redis_get_record R C (tr_id r) s' = Some r"
    if "reg_record ((f(x := st)) y) = Some r" for y r
  proof (cases "y = x")
    case True
    then show ?thesis using that ok by (auto simp: st record_put)
  next
    case False
    then have r: "reg_record (f y) = Some r" using that by simp
    then have "\<exists>d < rs_drawn s. tr_id r = uuid d" and "redis_get_record R C (tr_id r) s = Some r"
      using inv unfolding racing_def by blast+
    moreover from old[OF r] have "redis_get_record R C (tr_id r) s' = redis_get_record R C (tr_id r) s"
      using ok by (simp add: st record_put record_commands)
    moreover have "rs_drawn s' = Suc (rs_drawn s)" by (simp add: st)
    ultimately show ?thesis by (auto simp: less_Suc_eq)
  qed
  have "tr_id r \<noteq> tr_id r'" if "reg_record ((f(x := st)) False) = Some r" "reg_record ((f(x := st)) True) = Some r'" for r r'
    using that old[of False r] old[of True r'] by (cases x) (auto simp: st)
  with keeps inv show ?thesis unfolding racing_def st by simp
next
  case (RegFound i)
  then show ?thesis using inv by (auto simp: racing_def dest: spec[of _ x])
next
  case RegEntered
  then show ?thesis using inv by (auto simp: racing_def dest: spec[of _ x])
next
  case (RegReturned r)
  then show ?thesis using inv step by (auto simp: redis_next_command_def fun_upd_idem_iff)
qed (use step ok in \<open>auto simp: redis_next_command_def record_commands split: option.splits intro!: racing_moves[OF inv]\<close>)

lemma joined_step:
  assumes ok: "redis_ok R" and inv: "joined R C (idem_key p k) x r f s"
    and step: "redis_next_command R C node uuid clock p k q (f y) s = (st, s')"
  shows "joined R C (idem_key p k) x r (f(y := st)) s'"
proof (cases "y = x")
  case True
  obtain st0 where st0: "f x = st0" by blast
  have step': "redis_next_command R C node uuid clock p k q st0 s = (st, s')" using step True st0 by simp
  have "past_key st0" "reg_record st0 = Some r" "redis_value R (lit ''dalin:idem:'' @ idem_key p k) s = Some (tr_id r)"
      "redis_get_record R C (tr_id r) s = Some r"
    using inv st0 by (simp_all add: joined_def)
  then have "past_key st \<and> reg_record st = Some r \<and> redis_value R (lit ''dalin:idem:'' @ idem_key p k) s' = Some (tr_id r) \<and>
      redis_get_record R C (tr_id r) s' = Some r"
    using step' ok by (cases st0) (auto simp: redis_next_command_def record_commands redis_commands split: option.splits)
  then show ?thesis using inv True by (simp add: joined_def)
next
  case False
  then have "y = (\<not> x)" by auto
  then show ?thesis using inv step ok by (auto simp: redis_next_command_def joined_def)
qed

lemma racing_run:
  assumes "redis_ok R" "codec_ok C" "inj uuid" and "racing R C uuid f s"
    and "serve_two (\<lambda>x. redis_next_command R C node uuid clock p k (q x)) xs f s = (f', s')"
  shows "racing R C uuid f' s'"
  using assms(4,5)
proof (induction xs arbitrary: f s)
  case (Cons x xs)
  obtain st t where st: "redis_next_command R C node uuid clock p k (q x) (f x) s = (st, t)" by force
  have "racing R C uuid (f(x := st)) t" by (rule racing_step[OF assms(1-3) Cons.prems(1) st])
  moreover have "serve_two (\<lambda>x. redis_next_command R C node uuid clock p k (q x)) xs (f(x := st)) t = (f', s')"
    using Cons.prems(2) st by simp
  ultimately show ?case by (rule Cons.IH)
qed simp

lemma joined_run:
  assumes "redis_ok R" and "joined R C (idem_key p k) x r f s"
    and "serve_two (\<lambda>x. redis_next_command R C node uuid clock p k (q x)) xs f s = (f', s')"
  shows "joined R C (idem_key p k) x r f' s'"
  using assms(2,3)
proof (induction xs arbitrary: f s)
  case (Cons y xs)
  obtain st t where st: "redis_next_command R C node uuid clock p k (q y) (f y) s = (st, t)" by force
  have "joined R C (idem_key p k) x r (f(y := st)) t" by (rule joined_step[OF assms(1) Cons.prems(1) st])
  moreover have "serve_two (\<lambda>x. redis_next_command R C node uuid clock p k (q x)) xs (f(y := st)) t = (f', s')"
    using Cons.prems(2) st by simp
  ultimately show ?case by (rule Cons.IH)
qed simp

text \<open>
  C35: What two registrations of one key return that run at the same time over a Redis that works, from a
  state where the key is unused, in any order of their commands: the same task exactly when the first
  three commands are those of one registration, which look up the key, write the record and write the
  key. Under every other schedule both return a task of their own, and both tasks are stored.
\<close>

theorem registrations_race:
  assumes "redis_ok R" and "codec_ok C" and "inj uuid"
    and "redis_value R (lit ''dalin:idem:'' @ idem_key p k) s = None"
    and "serve_two (\<lambda>x. redis_next_command R C node uuid clock p k (q x)) xs (\<lambda>_. RegEntered) s = (f, s')"
    and "f False = RegReturned a" and "f True = RegReturned b"
  shows "(if \<exists>x. take 3 xs = [x, x, x] then a = b else tr_id a \<noteq> tr_id b) \<and>
    redis_get_record R C (tr_id a) s' = Some a \<and> redis_get_record R C (tr_id b) s' = Some b"
proof -
  let ?next = "\<lambda>x. redis_next_command R C node uuid clock p k (q x)"
  have enter: "?next x RegEntered s = (RegMissed, s)" for x using assms(4) by (simp add: redis_next_command_def)
  have both: "f x \<noteq> RegEntered" "f x \<noteq> RegMissed" "\<And>r. f x \<noteq> RegWritten r" for x using assms(6,7) by (cases x; simp)+
  obtain x xs1 where x: "xs = x # xs1" using assms(5) both(1) by (cases xs) auto
  define f1 where "f1 = (\<lambda>_. RegEntered)(x := RegMissed)"
  have run1: "serve_two ?next xs1 f1 s = (f, s')" using assms(5) enter x by (simp add: f1_def)
  obtain y xs2 where y: "xs1 = y # xs2" using run1 both(1)[of "\<not> x"] by (cases xs1) (auto simp: f1_def)
  have races: ?thesis if "racing R C uuid g t" "serve_two ?next zs g t = (f, s')" "\<not> (\<exists>x. take 3 xs = [x, x, x])" for g t zs
  proof -
    have "racing R C uuid f s'" by (rule racing_run[OF assms(1-3) that(1,2)])
    moreover have "reg_record (f False) = Some a" "reg_record (f True) = Some b" using assms(6,7) by simp_all
    ultimately show ?thesis using that(3) unfolding racing_def by simp
  qed
  show ?thesis
  proof (cases "y = x")
    case False
    then have "?next y (f1 y) s = (RegMissed, s)" using enter by (simp add: f1_def)
    then have "serve_two ?next xs2 (f1(y := RegMissed)) s = (f, s')" using run1 y by simp
    moreover have "racing R C uuid (f1(y := RegMissed)) s" using False by (auto simp: racing_def f1_def)
    moreover have "\<not> (\<exists>x. take 3 xs = [x, x, x])" using False x y by (cases xs2) auto
    ultimately show ?thesis using races by blast
  next
    case True
    obtain r t where w: "?next x RegMissed s = (RegWritten r, t)" "tr_id r = uuid (rs_drawn s)" "rs_drawn t = Suc (rs_drawn s)"
        "redis_get_record R C (tr_id r) t = Some r" "redis_value R (lit ''dalin:idem:'' @ idem_key p k) t = None"
      using assms(1,2,4) by (simp add: redis_next_command_def Let_def record_put redis_put_def[symmetric])
        (simp add: redis_put_def redis_commands)
    define f2 where "f2 = f1(x := RegWritten r)"
    have run2: "serve_two ?next xs2 f2 t = (f, s')" using run1 y True w(1) by (simp add: f1_def f2_def)
    obtain z xs3 where z: "xs2 = z # xs3" using run2 both(1)[of "\<not> x"] by (cases xs2) (auto simp: f1_def f2_def)
    show ?thesis
    proof (cases "z = x")
      case False
      then have "?next z (f2 z) t = (RegMissed, t)" using w(5) by (simp add: f1_def f2_def redis_next_command_def)
      then have "serve_two ?next xs3 (f2(z := RegMissed)) t = (f, s')" using run2 z by simp
      moreover have "racing R C uuid (f2(z := RegMissed)) t"
        using False w by (auto simp: racing_def f1_def f2_def split: if_splits)
      moreover have "\<not> (\<exists>x. take 3 xs = [x, x, x])" using False True x y z by auto
      ultimately show ?thesis using races by blast
    next
      case third: True
      let ?t = "redis_set R (lit ''dalin:idem:'' @ idem_key p k) (tr_id r) t"
      have "?next x (RegWritten r) t = (RegKeyed r, ?t)" by (simp add: redis_next_command_def)
      then have run3: "serve_two ?next xs3 (f2(x := RegKeyed r)) ?t = (f, s')" using run2 z third by (simp add: f2_def)
      have "joined R C (idem_key p k) x r (f2(x := RegKeyed r)) ?t"
        using w assms(1) by (auto simp: joined_def f1_def f2_def redis_commands record_commands)
      from joined_run[OF assms(1) this run3] show ?thesis
        using assms(6,7) True third x y z by (cases x) (auto simp: joined_def)
    qed
  qed
qed

theorem registrations_race_witness:
  "\<exists>a b f s'. serve_two (\<lambda>x. redis_next_command sample_redis_ops sample_codec [0] (\<lambda>n. [n]) (\<lambda>_. 0) None [4]
       \<lparr>rg_name = [1], rg_effect = [2], rg_capability = [3]\<rparr>) (concat (replicate 6 [False, True])) (\<lambda>_. RegEntered)
       (redis_start \<lparr>sr_texts = [], sr_sets = [], sr_sent = []\<rparr>) = (f, s') \<and>
     f False = RegReturned a \<and> f True = RegReturned b \<and> tr_id a \<noteq> tr_id b"
proof -
  let ?q = "\<lparr>rg_name = [1], rg_effect = [2], rg_capability = [3]\<rparr>"
  let ?next = "\<lambda>x :: bool. redis_next_command sample_redis_ops sample_codec [0] (\<lambda>n. [n]) (\<lambda>_. 0) None [4] ?q"
  let ?s = "redis_start \<lparr>sr_texts = [], sr_sets = [], sr_sent = []\<rparr>"
  let ?xs = "concat (replicate 6 [False, True])"
  have none: "redis_value sample_redis_ops (lit ''dalin:idem:'' @ idem_key None [4]) ?s = None"
    by (simp add: redis_value_def redis_start_def sample_redis_ops_def)
  obtain f s' where run: "serve_two ?next ?xs (\<lambda>_. RegEntered) ?s = (f, s')" by force
  have "\<exists>a b. f False = RegReturned a \<and> f True = RegReturned b"
    using run none by (auto simp: eval_nat_numeral redis_next_command_def Let_def)
  then obtain a b where ab: "f False = RegReturned a" "f True = RegReturned b" by blast
  from registrations_race[OF sample_redis_ok sample_codec_ok _ none run ab] run ab show ?thesis
    by (auto simp: inj_def eval_nat_numeral)
qed

end
