(* ===== verification/StoreEtcd.thy ===== *)
theory StoreEtcd
  imports StoreRedis "HOL-Library.Sublist"
begin

section \<open>The store over etcd (control-plane/src/store\_etcd.rs)\<close>

text \<open>
  etcd keeps texts under keys that are ordered, so that all keys with a prefix can be read: \<open>etcd_ops\<close> are
  the requests that the source sends, \<open>None\<close> where one fails. Keys and values are bytes of texts. The
  key of an event is drawn: \<open>event_id k\<close> for the k-th event sent. The sets of identifiers are the last
  segments of keys, as the store over Redis has sets of its own.
\<close>

record 'e etcd_ops =
  et_get :: "ustr \<Rightarrow> 'e \<Rightarrow> (ustr \<times> ustr) list option"
  et_get_prefix :: "ustr \<Rightarrow> 'e \<Rightarrow> (ustr \<times> ustr) list option"
  et_put :: "ustr \<Rightarrow> ustr \<Rightarrow> 'e \<Rightarrow> 'e"

record 'e etcd_store =
  es_etcd :: 'e
  es_events :: "TaskEvent list"
  es_drawn :: nat
  es_sent :: nat

subsection \<open>Operations\<close>

definition etcd_put :: "'e etcd_ops \<Rightarrow> ustr \<Rightarrow> ustr \<Rightarrow> 'e etcd_store \<Rightarrow> 'e etcd_store" where
  "etcd_put E k v s = s\<lparr>es_etcd := et_put E k v (es_etcd s)\<rparr>"

definition etcd_publish_event ::
  "'e etcd_ops \<Rightarrow> store_codec \<Rightarrow> ustr \<Rightarrow> (nat \<Rightarrow> ustr) \<Rightarrow> TaskEvent \<Rightarrow> 'e etcd_store \<Rightarrow> 'e etcd_store" where
  "etcd_publish_event E C node event_id e s =
     (let s1 = etcd_put E (lit ''dalin/events/'' @ event_id (es_sent s)) (cd_event C \<lparr>we_origin = node, we_event = e\<rparr>) s in
      s1\<lparr>es_events := es_events s1 @ [e], es_sent := es_sent s1 + 1\<rparr>)"

text \<open>The task that watches the events: the value of one of them.\<close>

definition etcd_receive :: "store_codec \<Rightarrow> ustr \<Rightarrow> ustr \<Rightarrow> 'e etcd_store \<Rightarrow> 'e etcd_store" where
  "etcd_receive C node payload s =
     (case cd_unevent C payload of
        None \<Rightarrow> s
      | Some we \<Rightarrow> if we_origin we \<noteq> node then s\<lparr>es_events := es_events s @ [we_event we]\<rparr> else s)"

text \<open>The value of the first key of the answer.\<close>

definition etcd_at :: "'e etcd_ops \<Rightarrow> ustr \<Rightarrow> 'e \<Rightarrow> ustr option" where
  "etcd_at E k e = Option.bind (et_get E k e) (\<lambda>kvs. case kvs of [] \<Rightarrow> None | kv # _ \<Rightarrow> Some (snd kv))"

definition etcd_value :: "'e etcd_ops \<Rightarrow> ustr \<Rightarrow> 'e etcd_store \<Rightarrow> ustr option" where
  "etcd_value E k s = etcd_at E k (es_etcd s)"

definition etcd_get_record :: "'e etcd_ops \<Rightarrow> store_codec \<Rightarrow> ustr \<Rightarrow> 'e etcd_store \<Rightarrow> TaskRecord option" where
  "etcd_get_record E C i s = Option.bind (etcd_value E (lit ''dalin/task/'' @ i) s) (cd_unrecord C)"

definition etcd_lookup ::
  "'e etcd_ops \<Rightarrow> store_codec \<Rightarrow> ustr option \<Rightarrow> ustr \<Rightarrow> 'e etcd_store \<Rightarrow> TaskRecord option" where
  "etcd_lookup E C parent k s =
     Option.bind (etcd_value E (lit ''dalin/idem/'' @ idem_key parent k) s) (\<lambda>i. etcd_get_record E C i s)"

definition etcd_create ::
  "'e etcd_ops \<Rightarrow> store_codec \<Rightarrow> ustr \<Rightarrow> (nat \<Rightarrow> ustr) \<Rightarrow> (nat \<Rightarrow> ustr) \<Rightarrow> (nat \<Rightarrow> i64) \<Rightarrow> ustr \<Rightarrow> ustr option \<Rightarrow> ustr \<Rightarrow>
   ustr \<Rightarrow> ustr \<Rightarrow> 'e etcd_store \<Rightarrow> TaskRecord \<times> 'e etcd_store" where
  "etcd_create E C node event_id uuid clock name parent effect capability k s =
     (let i = uuid (es_drawn s);
          r = \<lparr>tr_id = i, tr_name = name, tr_parent = parent, tr_effect = effect, tr_capability = capability,
               tr_key = k, tr_status = Queued, tr_node = None, tr_submitted = clock (es_drawn s)\<rparr>;
          s1 = etcd_put E (lit ''dalin/task/'' @ i) (cd_record C r) (s\<lparr>es_drawn := es_drawn s + 1\<rparr>);
          s2 = etcd_put E (lit ''dalin/idem/'' @ idem_key parent k) i s1;
          s3 = (case parent of Some p \<Rightarrow> etcd_put E (lit ''dalin/children/'' @ p @ lit ''/'' @ i) [] s2 | None \<Rightarrow> s2);
          s4 = etcd_put E (lit ''dalin/tasks/'' @ i) [] s3
      in (r, etcd_publish_event E C node event_id (EvSubmitted r) s4))"

definition etcd_register ::
  "'e etcd_ops \<Rightarrow> store_codec \<Rightarrow> ustr \<Rightarrow> (nat \<Rightarrow> ustr) \<Rightarrow> (nat \<Rightarrow> ustr) \<Rightarrow> (nat \<Rightarrow> i64) \<Rightarrow> ustr \<Rightarrow> ustr option \<Rightarrow> ustr \<Rightarrow>
   ustr \<Rightarrow> ustr \<Rightarrow> 'e etcd_store \<Rightarrow> TaskRecord \<times> 'e etcd_store" where
  "etcd_register E C node event_id uuid clock name parent effect capability k s =
     (case etcd_lookup E C parent k s of
        Some r \<Rightarrow> (r, s)
      | None \<Rightarrow> etcd_create E C node event_id uuid clock name parent effect capability k s)"

definition etcd_set_status ::
  "'e etcd_ops \<Rightarrow> store_codec \<Rightarrow> ustr \<Rightarrow> (nat \<Rightarrow> ustr) \<Rightarrow> ustr \<Rightarrow> TaskStatus \<Rightarrow> 'e etcd_store \<Rightarrow>
   TaskRecord option \<times> 'e etcd_store" where
  "etcd_set_status E C node event_id i st s =
     (case etcd_get_record E C i s of
        None \<Rightarrow> (None, s)
      | Some r \<Rightarrow>
          (let u = r\<lparr>tr_status := st\<rparr> in
           (Some u, etcd_publish_event E C node event_id (EvStatusChanged u)
              (etcd_put E (lit ''dalin/task/'' @ i) (cd_record C u) s))))"

definition etcd_assign_node :: "'e etcd_ops \<Rightarrow> store_codec \<Rightarrow> ustr \<Rightarrow> ustr \<Rightarrow> 'e etcd_store \<Rightarrow> 'e etcd_store" where
  "etcd_assign_node E C i n s =
     (case etcd_get_record E C i s of
        None \<Rightarrow> s
      | Some r \<Rightarrow> etcd_put E (lit ''dalin/task/'' @ i) (cd_record C (r\<lparr>tr_node := Some n\<rparr>)) s)"

definition etcd_cancel ::
  "'e etcd_ops \<Rightarrow> store_codec \<Rightarrow> ustr \<Rightarrow> (nat \<Rightarrow> ustr) \<Rightarrow> ustr \<Rightarrow> 'e etcd_store \<Rightarrow> bool \<times> 'e etcd_store" where
  "etcd_cancel E C node event_id i s =
     (case etcd_get_record E C i s of
        None \<Rightarrow> (False, s)
      | Some r \<Rightarrow> (True, etcd_publish_event E C node event_id (EvCanceled i)
          (etcd_put E (lit ''dalin/task/'' @ i) (cd_record C (r\<lparr>tr_status := Canceled\<rparr>)) s)))"

text \<open>\<open>s.rsplit('/').next()\<close>\<close>

definition last_segment :: "ustr \<Rightarrow> ustr" where
  "last_segment s = rev (takeWhile (\<lambda>c. c \<noteq> uc CHR ''/'') (rev s))"

definition extract_ids :: "(ustr \<times> ustr) list option \<Rightarrow> ustr list" where
  "extract_ids resp = (case resp of Some kvs \<Rightarrow> map (\<lambda>kv. last_segment (fst kv)) kvs | None \<Rightarrow> [])"

definition etcd_fetch_many :: "'e etcd_ops \<Rightarrow> store_codec \<Rightarrow> ustr list \<Rightarrow> 'e etcd_store \<Rightarrow> TaskRecord list" where
  "etcd_fetch_many E C ids s = List.map_filter (\<lambda>i. etcd_get_record E C i s) ids"

definition etcd_children_of :: "'e etcd_ops \<Rightarrow> store_codec \<Rightarrow> ustr \<Rightarrow> 'e etcd_store \<Rightarrow> TaskRecord list" where
  "etcd_children_of E C p s =
     etcd_fetch_many E C (extract_ids (et_get_prefix E (lit ''dalin/children/'' @ p @ lit ''/'') (es_etcd s))) s"

definition etcd_list :: "'e etcd_ops \<Rightarrow> store_codec \<Rightarrow> ustr option \<Rightarrow> 'e etcd_store \<Rightarrow> TaskRecord list" where
  "etcd_list E C parent s =
     (case parent of
        Some p \<Rightarrow> etcd_children_of E C p s
      | None \<Rightarrow> etcd_fetch_many E C (extract_ids (et_get_prefix E (lit ''dalin/tasks/'') (es_etcd s))) s)"

definition over_etcd ::
  "'e etcd_ops \<Rightarrow> store_codec \<Rightarrow> ustr \<Rightarrow> (nat \<Rightarrow> ustr) \<Rightarrow> (nat \<Rightarrow> ustr) \<Rightarrow> (nat \<Rightarrow> i64) \<Rightarrow> 'e etcd_store task_store" where
  "over_etcd E C node event_id uuid clock =
     \<lparr>ts_register = etcd_register E C node event_id uuid clock, ts_set_status = etcd_set_status E C node event_id,
      ts_assign_node = etcd_assign_node E C, ts_cancel = etcd_cancel E C node event_id,
      ts_get = etcd_get_record E C, ts_children_of = etcd_children_of E C, ts_list = etcd_list E C\<rparr>"

subsection \<open>What a server that works does\<close>

definition etcd_ok :: "'e etcd_ops \<Rightarrow> bool" where
  "etcd_ok E =
     ((\<forall>k k' v e. etcd_at E k (et_put E k' v e) = (if k = k' then Some v else etcd_at E k e)) \<and>
      (\<forall>p e. \<exists>kvs. et_get_prefix E p e = Some kvs \<and> distinct (map fst kvs) \<and>
         set (map fst kvs) = {k. prefix p k \<and> etcd_at E k e \<noteq> None}))"

definition etcd_empty :: "'e etcd_ops \<Rightarrow> 'e \<Rightarrow> bool" where
  "etcd_empty E e = (\<forall>k. etcd_at E k e = None)"

text \<open>A server with an association list.\<close>

definition sample_etcd_ops :: "(ustr \<times> ustr) list etcd_ops" where
  "sample_etcd_ops =
     \<lparr>et_get = (\<lambda>k e. Some (case map_of e k of Some v \<Rightarrow> [(k, v)] | None \<Rightarrow> [])),
      et_get_prefix = (\<lambda>p e. Some (filter (\<lambda>kv. prefix p (fst kv)) (AList.clearjunk e))), et_put = AList.update\<rparr>"

lemma sample_etcd_at: "etcd_at sample_etcd_ops k e = map_of e k"
  by (simp add: etcd_at_def sample_etcd_ops_def split: option.split)

lemma sample_etcd_ok: "etcd_ok sample_etcd_ops"
proof -
  have "distinct (map fst (filter P (AList.clearjunk e)))" for P and e :: "(ustr \<times> ustr) list"
    by (simp add: distinct_map_filter distinct_clearjunk)
  moreover have "set (map fst (filter (\<lambda>kv. prefix p (fst kv)) (AList.clearjunk e))) = {k. prefix p k \<and> map_of e k \<noteq> None}"
    for p and e :: "(ustr \<times> ustr) list"
  proof -
    have "k \<in> fst ` set (AList.clearjunk e) \<longleftrightarrow> map_of e k \<noteq> None" for k
      using dom_clearjunk[of e] by (simp add: map_of_eq_None_iff)
    then show ?thesis by fastforce
  qed
  ultimately show ?thesis
    by (simp add: etcd_ok_def sample_etcd_at) (simp add: sample_etcd_ops_def update_conv')
qed

lemma sample_etcd_empty: "etcd_empty sample_etcd_ops []"
  by (simp add: etcd_empty_def sample_etcd_at)

end
