(* ===== verification/StoreEtcdCorrect.thy ===== *)
theory StoreEtcdCorrect
  imports StoreEtcd StoreRedisCorrect
begin

section \<open>What the store over etcd answers\<close>

text \<open>
  The children of a parent are read by a prefix of their keys, which the children of longer parents
  have too when these go on with a slash.
\<close>

definition path_below :: "ustr \<Rightarrow> ustr \<Rightarrow> bool" where
  "path_below p x = (x = p \<or> prefix (p @ lit ''/'') x)"

lemma etcd_keys [simp]:
  "lit ''dalin/task/'' @ i \<noteq> lit ''dalin/idem/'' @ k" "lit ''dalin/idem/'' @ k \<noteq> lit ''dalin/task/'' @ i"
  "lit ''dalin/task/'' @ i \<noteq> lit ''dalin/children/'' @ p" "lit ''dalin/children/'' @ p \<noteq> lit ''dalin/task/'' @ i"
  "lit ''dalin/idem/'' @ k \<noteq> lit ''dalin/children/'' @ p" "lit ''dalin/children/'' @ p \<noteq> lit ''dalin/idem/'' @ k"
  "lit ''dalin/task/'' @ i \<noteq> lit ''dalin/tasks/'' @ j" "lit ''dalin/tasks/'' @ j \<noteq> lit ''dalin/task/'' @ i"
  "lit ''dalin/idem/'' @ k \<noteq> lit ''dalin/tasks/'' @ j" "lit ''dalin/tasks/'' @ j \<noteq> lit ''dalin/idem/'' @ k"
  "lit ''dalin/children/'' @ p \<noteq> lit ''dalin/tasks/'' @ j" "lit ''dalin/tasks/'' @ j \<noteq> lit ''dalin/children/'' @ p"
  "lit ''dalin/events/'' @ v \<noteq> lit ''dalin/task/'' @ i" "lit ''dalin/task/'' @ i \<noteq> lit ''dalin/events/'' @ v"
  "lit ''dalin/events/'' @ v \<noteq> lit ''dalin/idem/'' @ k" "lit ''dalin/idem/'' @ k \<noteq> lit ''dalin/events/'' @ v"
  "lit ''dalin/events/'' @ v \<noteq> lit ''dalin/children/'' @ p" "lit ''dalin/children/'' @ p \<noteq> lit ''dalin/events/'' @ v"
  "lit ''dalin/events/'' @ v \<noteq> lit ''dalin/tasks/'' @ j" "lit ''dalin/tasks/'' @ j \<noteq> lit ''dalin/events/'' @ v"
  by (simp_all add: lit_def)

subsection \<open>Segments\<close>

abbreviation slashless :: "ustr \<Rightarrow> bool" where
  "slashless i \<equiv> uc CHR ''/'' \<notin> set i"

lemma last_segment: "slashless i \<Longrightarrow> last_segment (p @ lit ''/'' @ i) = i"
proof -
  assume "slashless i"
  then have "takeWhile (\<lambda>c. c \<noteq> uc CHR ''/'') (rev i) = rev i" by (auto simp: takeWhile_eq_all_conv)
  then show ?thesis
    using \<open>slashless i\<close> by (simp add: last_segment_def lit_def takeWhile_append)
qed

lemma segments_eq: "slashless i \<Longrightarrow> slashless j \<Longrightarrow> x @ lit ''/'' @ i = y @ lit ''/'' @ j \<longleftrightarrow> x = y \<and> i = j"
  using last_segment[of i x] last_segment[of j y] by auto

lemma prefix_segment:
  assumes "slashless i"
  shows "prefix (p @ lit ''/'') (x @ lit ''/'' @ i) \<longleftrightarrow> path_below p x"
proof
  assume "prefix (p @ lit ''/'') (x @ lit ''/'' @ i)"
  then obtain z where z: "x @ uc CHR ''/'' # i = p @ uc CHR ''/'' # z" by (auto simp: prefix_def lit_def)
  then obtain us where "x = p @ us \<and> us @ uc CHR ''/'' # i = uc CHR ''/'' # z \<or> p = x @ us \<and> uc CHR ''/'' # i = us @ uc CHR ''/'' # z"
    by (auto simp: append_eq_append_conv2)
  then show "path_below p x"
    by (cases us) (use assms in \<open>auto simp: path_below_def lit_def prefix_def\<close>)
next
  assume "path_below p x"
  then show "prefix (p @ lit ''/'') (x @ lit ''/'' @ i)" by (auto simp: path_below_def prefix_def)
qed

subsection \<open>The requests\<close>

lemma etcd_value_put: "etcd_ok E \<Longrightarrow> etcd_value E k (etcd_put E k' v s) = (if k = k' then Some v else etcd_value E k s)"
  by (simp add: etcd_ok_def etcd_value_def etcd_put_def)

lemma etcd_value_publish:
  "etcd_ok E \<Longrightarrow> (\<And>v. k \<noteq> lit ''dalin/events/'' @ v) \<Longrightarrow> etcd_value E k (etcd_publish_event E C node event_id e s) = etcd_value E k s"
  by (simp add: etcd_ok_def etcd_value_def etcd_publish_event_def etcd_put_def Let_def)

lemma etcd_value_drawn: "etcd_value E k (s\<lparr>es_drawn := d\<rparr>) = etcd_value E k s"
  by (simp add: etcd_value_def)

lemma etcd_fields [simp]:
  "es_events (etcd_put E k v s) = es_events s" "es_drawn (etcd_put E k v s) = es_drawn s"
  "es_events (etcd_publish_event E C node event_id e s) = es_events s @ [e]"
  "es_drawn (etcd_publish_event E C node event_id e s) = es_drawn s"
  by (simp_all add: etcd_put_def etcd_publish_event_def Let_def)

definition etcd_ids :: "'e etcd_ops \<Rightarrow> ustr \<Rightarrow> 'e etcd_store \<Rightarrow> ustr list" where
  "etcd_ids E p s = extract_ids (et_get_prefix E p (es_etcd s))"

lemma etcd_ids_set: "etcd_ok E \<Longrightarrow> set (etcd_ids E p s) = {last_segment k |k. prefix p k \<and> etcd_value E k s \<noteq> None}"
proof -
  assume "etcd_ok E"
  then obtain kvs where kvs: "et_get_prefix E p (es_etcd s) = Some kvs" "set (map fst kvs) = {k. prefix p k \<and> etcd_value E k s \<noteq> None}"
    unfolding etcd_ok_def etcd_value_def by blast
  have "set (etcd_ids E p s) = last_segment ` set (map fst kvs)" by (auto simp: etcd_ids_def extract_ids_def kvs(1))
  then show ?thesis unfolding kvs(2) by blast
qed

lemma etcd_ids_distinct:
  assumes "etcd_ok E" and "inj_on last_segment {k. prefix p k \<and> etcd_value E k s \<noteq> None}"
  shows "distinct (etcd_ids E p s)"
proof -
  obtain kvs where kvs: "et_get_prefix E p (es_etcd s) = Some kvs" "distinct (map fst kvs)"
      "set (map fst kvs) = {k. prefix p k \<and> etcd_value E k s \<noteq> None}"
    using assms(1) unfolding etcd_ok_def etcd_value_def by blast
  have "etcd_ids E p s = map last_segment (map fst kvs)" by (simp add: etcd_ids_def extract_ids_def kvs(1))
  then show ?thesis using kvs(2) assms(2) by (simp only: distinct_map kvs(3))
qed

subsection \<open>The store keeps the contract of stores with keys\<close>

text \<open>Every key of a child is that of its record and parent, and every key of a task that of a name without slashes.\<close>

definition etcd_tidy :: "'e etcd_ops \<Rightarrow> store_codec \<Rightarrow> 'e etcd_store \<Rightarrow> bool" where
  "etcd_tidy E C s =
     ((\<forall>k. etcd_value E (lit ''dalin/children/'' @ k) s \<noteq> None \<longrightarrow>
        (\<exists>q i r. k = q @ lit ''/'' @ i \<and> slashless i \<and> etcd_get_record E C i s = Some r \<and> tr_parent r = Some q)) \<and>
      (\<forall>i. etcd_value E (lit ''dalin/tasks/'' @ i) s \<noteq> None \<longrightarrow> slashless i))"

definition etcd_view :: "'e etcd_ops \<Rightarrow> store_codec \<Rightarrow> (nat \<Rightarrow> ustr) \<Rightarrow> 'e etcd_store store_view" where
  "etcd_view E C uuid =
     \<lparr>sv_ok = (\<lambda>s. etcd_ok E \<and> codec_ok C \<and> (\<forall>k. slashless (uuid k)) \<and> etcd_tidy E C s),
      sv_id_for = (\<lambda>s k. etcd_value E (lit ''dalin/idem/'' @ k) s),
      sv_kids = (\<lambda>s p. etcd_ids E (lit ''dalin/children/'' @ p @ lit ''/'') s), sv_ids = etcd_ids E (lit ''dalin/tasks/''),
      sv_drawn = es_drawn, sv_events = es_events\<rparr>"

lemma etcd_kids_set:
  assumes "etcd_ok E" and "etcd_tidy E C s"
  shows "set (etcd_ids E (lit ''dalin/children/'' @ p @ lit ''/'') s) =
    {i. \<exists>q. slashless i \<and> path_below p q \<and> etcd_value E (lit ''dalin/children/'' @ q @ lit ''/'' @ i) s \<noteq> None}"
    (is "_ = ?R")
proof (intro set_eqI iffI)
  fix i assume "i \<in> set (etcd_ids E (lit ''dalin/children/'' @ p @ lit ''/'') s)"
  then obtain k where k: "i = last_segment k" "prefix (lit ''dalin/children/'' @ p @ lit ''/'') k" "etcd_value E k s \<noteq> None"
    by (auto simp: etcd_ids_set[OF assms(1)])
  from k(2) obtain z where z: "k = lit ''dalin/children/'' @ z" "prefix (p @ lit ''/'') z" by (auto simp: prefix_def)
  obtain q j where j: "z = q @ lit ''/'' @ j" "slashless j" using assms(2) k(3) unfolding etcd_tidy_def z(1) by blast
  have "path_below p q" using z(2) unfolding j(1) by (simp only: prefix_segment[OF j(2)])
  moreover have "i = j" using last_segment[OF j(2), of "lit ''dalin/children/'' @ q"] k(1) z(1) j(1) by simp
  ultimately show "i \<in> ?R" using k(3) z(1) j by auto
next
  fix i assume "i \<in> ?R"
  then obtain q where q: "slashless i" "path_below p q" "etcd_value E (lit ''dalin/children/'' @ q @ lit ''/'' @ i) s \<noteq> None" by blast
  have "prefix (lit ''dalin/children/'' @ p @ lit ''/'') (lit ''dalin/children/'' @ q @ lit ''/'' @ i)"
    using prefix_segment[OF q(1), of p q] q(2) by simp
  moreover have "last_segment (lit ''dalin/children/'' @ q @ lit ''/'' @ i) = i"
    using last_segment[OF q(1), of "lit ''dalin/children/'' @ q"] by simp
  ultimately show "i \<in> set (etcd_ids E (lit ''dalin/children/'' @ p @ lit ''/'') s)"
    unfolding etcd_ids_set[OF assms(1)] using q(3) by (intro CollectI exI[of _ "lit ''dalin/children/'' @ q @ lit ''/'' @ i"]) simp
qed

lemma etcd_tasks_set:
  assumes "etcd_ok E" and "etcd_tidy E C s"
  shows "set (etcd_ids E (lit ''dalin/tasks/'') s) = {i. etcd_value E (lit ''dalin/tasks/'' @ i) s \<noteq> None}"
proof -
  have "last_segment (lit ''dalin/tasks/'' @ i) = i" if "etcd_value E (lit ''dalin/tasks/'' @ i) s \<noteq> None" for i
    using last_segment[of i "lit ''dalin/tasks''"] assms(2) that by (simp add: etcd_tidy_def lit_def)
  then show ?thesis unfolding etcd_ids_set[OF assms(1)] by (auto simp: prefix_def) metis
qed

lemma etcd_listed_once:
  assumes "etcd_ok E" and "etcd_tidy E C s"
  shows "distinct (etcd_ids E (lit ''dalin/children/'' @ p) s) \<and> distinct (etcd_ids E (lit ''dalin/tasks/'') s)"
proof
  show "distinct (etcd_ids E (lit ''dalin/children/'' @ p) s)"
  proof (rule etcd_ids_distinct[OF assms(1)], rule inj_onI)
    fix k k' assume k: "k \<in> {k. prefix (lit ''dalin/children/'' @ p) k \<and> etcd_value E k s \<noteq> None}"
      "k' \<in> {k. prefix (lit ''dalin/children/'' @ p) k \<and> etcd_value E k s \<noteq> None}" and same: "last_segment k = last_segment k'"
    from k obtain z z' where z: "k = lit ''dalin/children/'' @ z" "k' = lit ''dalin/children/'' @ z'" by (auto simp: prefix_def)
    from k obtain q i r where i: "z = q @ lit ''/'' @ i" "slashless i" "etcd_get_record E C i s = Some r" "tr_parent r = Some q"
      using assms(2) unfolding etcd_tidy_def z by blast
    from k obtain q' i' r' where i': "z' = q' @ lit ''/'' @ i'" "slashless i'" "etcd_get_record E C i' s = Some r'" "tr_parent r' = Some q'"
      using assms(2) unfolding etcd_tidy_def z by blast
    have "i = i'"
      using last_segment[OF i(2), of "lit ''dalin/children/'' @ q"] last_segment[OF i'(2), of "lit ''dalin/children/'' @ q'"]
        same z i(1) i'(1) by simp
    then show "k = k'" using i i' z by simp
  qed
  show "distinct (etcd_ids E (lit ''dalin/tasks/'') s)"
  proof (rule etcd_ids_distinct[OF assms(1)], rule inj_onI)
    fix k k' assume k: "k \<in> {k. prefix (lit ''dalin/tasks/'') k \<and> etcd_value E k s \<noteq> None}"
      "k' \<in> {k. prefix (lit ''dalin/tasks/'') k \<and> etcd_value E k s \<noteq> None}" and same: "last_segment k = last_segment k'"
    from k obtain i i' where z: "k = lit ''dalin/tasks/'' @ i" "k' = lit ''dalin/tasks/'' @ i'" by (auto simp: prefix_def)
    have "slashless i" "slashless i'" using k assms(2) unfolding etcd_tidy_def z by blast+
    then show "k = k'"
      using last_segment[of i "lit ''dalin/tasks''"] last_segment[of i' "lit ''dalin/tasks''"] same z by (simp add: lit_def)
  qed
qed

lemma etcd_value_published:
  assumes "etcd_ok E"
  shows "etcd_value E (lit ''dalin/task/'' @ i) (etcd_publish_event E C node event_id e s) = etcd_value E (lit ''dalin/task/'' @ i) s"
    and "etcd_value E (lit ''dalin/idem/'' @ k) (etcd_publish_event E C node event_id e s) = etcd_value E (lit ''dalin/idem/'' @ k) s"
    and "etcd_value E (lit ''dalin/children/'' @ p) (etcd_publish_event E C node event_id e s) = etcd_value E (lit ''dalin/children/'' @ p) s"
    and "etcd_value E (lit ''dalin/tasks/'' @ i) (etcd_publish_event E C node event_id e s) = etcd_value E (lit ''dalin/tasks/'' @ i) s"
  by (simp_all add: etcd_value_publish[OF assms])

lemmas etcd_requests = etcd_value_put etcd_value_drawn etcd_value_published

lemma over_etcd_simps [simp]:
  "ts_register (over_etcd E C node event_id uuid clock) = etcd_register E C node event_id uuid clock"
  "ts_set_status (over_etcd E C node event_id uuid clock) = etcd_set_status E C node event_id"
  "ts_assign_node (over_etcd E C node event_id uuid clock) = etcd_assign_node E C"
  "ts_cancel (over_etcd E C node event_id uuid clock) = etcd_cancel E C node event_id"
  "ts_get (over_etcd E C node event_id uuid clock) = etcd_get_record E C"
  "ts_children_of (over_etcd E C node event_id uuid clock) = etcd_children_of E C"
  "ts_list (over_etcd E C node event_id uuid clock) = etcd_list E C"
  by (simp_all add: over_etcd_def)

text \<open>What a registration and a change of a record do to the keys.\<close>

lemma etcd_created:
  assumes ok: "etcd_ok E" "codec_ok C"
    and new: "etcd_create E C node event_id uuid clock n p e c k s = (r, s')"
  shows "r = queued_task uuid clock (es_drawn s) n p e c k"
    and "etcd_get_record E C j s' = (if j = tr_id r then Some r else etcd_get_record E C j s)"
    and "etcd_value E (lit ''dalin/idem/'' @ ik) s' = (if ik = idem_key p k then Some (tr_id r) else etcd_value E (lit ''dalin/idem/'' @ ik) s)"
    and "etcd_value E (lit ''dalin/children/'' @ q) s' =
      (if \<exists>x. p = Some x \<and> q = x @ lit ''/'' @ tr_id r then Some [] else etcd_value E (lit ''dalin/children/'' @ q) s)"
    and "etcd_value E (lit ''dalin/tasks/'' @ j) s' = (if j = tr_id r then Some [] else etcd_value E (lit ''dalin/tasks/'' @ j) s)"
    and "es_drawn s' = Suc (es_drawn s)" and "es_events s' = es_events s @ [EvSubmitted r]"
proof -
  have dec: "cd_unrecord C (cd_record C x) = Some x" for x using ok(2) by (simp add: codec_ok_def)
  show r: "r = queued_task uuid clock (es_drawn s) n p e c k"
    using new by (simp add: etcd_create_def queued_task_def Let_def)
  define s2 where "s2 = etcd_put E (lit ''dalin/idem/'' @ idem_key p k) (tr_id r)
    (etcd_put E (lit ''dalin/task/'' @ tr_id r) (cd_record C r) (s\<lparr>es_drawn := es_drawn s + 1\<rparr>))"
  define s3 where "s3 = (case p of Some x \<Rightarrow> etcd_put E (lit ''dalin/children/'' @ x @ lit ''/'' @ tr_id r) [] s2 | None \<Rightarrow> s2)"
  have s': "s' = etcd_publish_event E C node event_id (EvSubmitted r) (etcd_put E (lit ''dalin/tasks/'' @ tr_id r) [] s3)"
    using new by (cases p) (auto simp: etcd_create_def Let_def s2_def s3_def)
  note reqs = etcd_value_put[OF ok(1)] etcd_value_published[OF ok(1)] etcd_value_drawn
  have s2: "etcd_value E (lit ''dalin/task/'' @ j) s2 = (if j = tr_id r then Some (cd_record C r) else etcd_value E (lit ''dalin/task/'' @ j) s)"
    "etcd_value E (lit ''dalin/idem/'' @ ik) s2 = (if ik = idem_key p k then Some (tr_id r) else etcd_value E (lit ''dalin/idem/'' @ ik) s)"
    "etcd_value E (lit ''dalin/children/'' @ q) s2 = etcd_value E (lit ''dalin/children/'' @ q) s"
    "etcd_value E (lit ''dalin/tasks/'' @ j) s2 = etcd_value E (lit ''dalin/tasks/'' @ j) s"
    "es_drawn s2 = Suc (es_drawn s)" "es_events s2 = es_events s"
    by (simp_all add: s2_def reqs)
  have s3: "etcd_value E (lit ''dalin/task/'' @ j) s3 = etcd_value E (lit ''dalin/task/'' @ j) s2"
    "etcd_value E (lit ''dalin/idem/'' @ ik) s3 = etcd_value E (lit ''dalin/idem/'' @ ik) s2"
    "etcd_value E (lit ''dalin/children/'' @ q) s3 =
      (if \<exists>x. p = Some x \<and> q = x @ lit ''/'' @ tr_id r then Some [] else etcd_value E (lit ''dalin/children/'' @ q) s2)"
    "etcd_value E (lit ''dalin/tasks/'' @ j) s3 = etcd_value E (lit ''dalin/tasks/'' @ j) s2"
    "es_drawn s3 = es_drawn s2" "es_events s3 = es_events s2"
    by (cases p; simp add: s3_def reqs)+
  show "etcd_get_record E C j s' = (if j = tr_id r then Some r else etcd_get_record E C j s)"
    by (simp add: s' etcd_get_record_def reqs s3 s2 dec)
  show "etcd_value E (lit ''dalin/idem/'' @ ik) s' = (if ik = idem_key p k then Some (tr_id r) else etcd_value E (lit ''dalin/idem/'' @ ik) s)"
    "etcd_value E (lit ''dalin/children/'' @ q) s' =
      (if \<exists>x. p = Some x \<and> q = x @ lit ''/'' @ tr_id r then Some [] else etcd_value E (lit ''dalin/children/'' @ q) s)"
    "etcd_value E (lit ''dalin/tasks/'' @ j) s' = (if j = tr_id r then Some [] else etcd_value E (lit ''dalin/tasks/'' @ j) s)"
    "es_drawn s' = Suc (es_drawn s)" "es_events s' = es_events s @ [EvSubmitted r]"
    by (auto simp: s' reqs s3 s2)
qed

lemma etcd_put_record:
  assumes "etcd_ok E" and "codec_ok C"
  shows "etcd_get_record E C j (etcd_put E (lit ''dalin/task/'' @ i) (cd_record C r) s) = (if j = i then Some r else etcd_get_record E C j s)"
    and "etcd_value E (lit ''dalin/idem/'' @ ik) (etcd_put E (lit ''dalin/task/'' @ i) v s) = etcd_value E (lit ''dalin/idem/'' @ ik) s"
    and "etcd_value E (lit ''dalin/children/'' @ q) (etcd_put E (lit ''dalin/task/'' @ i) v s) = etcd_value E (lit ''dalin/children/'' @ q) s"
    and "etcd_value E (lit ''dalin/tasks/'' @ j) (etcd_put E (lit ''dalin/task/'' @ i) v s) = etcd_value E (lit ''dalin/tasks/'' @ j) s"
  using assms(2) by (simp_all add: etcd_get_record_def etcd_value_put[OF assms(1)] codec_ok_def)

lemma etcd_get_published:
  "etcd_ok E \<Longrightarrow> etcd_get_record E C j (etcd_publish_event E C node event_id e s) = etcd_get_record E C j s"
  by (simp add: etcd_get_record_def etcd_value_published)

lemma etcd_changed:
  assumes ok: "etcd_ok E" "codec_ok C" and s1: "s1 = etcd_put E (lit ''dalin/task/'' @ i) (cd_record C r) s"
    and s2: "s2 = s1 \<and> evs = [] \<or> s2 = etcd_publish_event E C node event_id e s1 \<and> evs = [e]"
  shows "etcd_get_record E C j s2 = (if j = i then Some r else etcd_get_record E C j s)"
    and "etcd_value E (lit ''dalin/idem/'' @ ik) s2 = etcd_value E (lit ''dalin/idem/'' @ ik) s"
    and "etcd_value E (lit ''dalin/children/'' @ q) s2 = etcd_value E (lit ''dalin/children/'' @ q) s"
    and "etcd_value E (lit ''dalin/tasks/'' @ j) s2 = etcd_value E (lit ''dalin/tasks/'' @ j) s"
    and "es_drawn s2 = es_drawn s" and "es_events s2 = es_events s @ evs"
proof -
  have "etcd_get_record E C j s2 = etcd_get_record E C j s1"
    "etcd_value E (lit ''dalin/idem/'' @ ik) s2 = etcd_value E (lit ''dalin/idem/'' @ ik) s1"
    "etcd_value E (lit ''dalin/children/'' @ q) s2 = etcd_value E (lit ''dalin/children/'' @ q) s1"
    "etcd_value E (lit ''dalin/tasks/'' @ j) s2 = etcd_value E (lit ''dalin/tasks/'' @ j) s1"
    "es_drawn s2 = es_drawn s1" "es_events s2 = es_events s1 @ evs"
    using s2 ok(1) by (auto simp: etcd_value_published etcd_get_published)
  then show "etcd_get_record E C j s2 = (if j = i then Some r else etcd_get_record E C j s)"
    "etcd_value E (lit ''dalin/idem/'' @ ik) s2 = etcd_value E (lit ''dalin/idem/'' @ ik) s"
    "etcd_value E (lit ''dalin/children/'' @ q) s2 = etcd_value E (lit ''dalin/children/'' @ q) s"
    "etcd_value E (lit ''dalin/tasks/'' @ j) s2 = etcd_value E (lit ''dalin/tasks/'' @ j) s"
    "es_drawn s2 = es_drawn s" "es_events s2 = es_events s @ evs"
    by (simp_all add: s1 etcd_put_record[OF ok])
qed

lemma etcd_entered:
  assumes ok: "sv_ok (etcd_view E C uuid) s" and fresh: "etcd_get_record E C (uuid (es_drawn s)) s = None"
    and new: "etcd_create E C node event_id uuid clock n p e c k s = (r, s')"
  shows "task_entered (over_etcd E C node event_id uuid clock) (etcd_view E C uuid) path_below s (idem_key p k) r s'"
proof -
  have o: "etcd_ok E" "codec_ok C" "\<And>k. slashless (uuid k)" "etcd_tidy E C s" using ok by (auto simp: etcd_view_def)
  note n = etcd_created[OF o(1,2) new]
  have id: "tr_id r = uuid (es_drawn s)" "tr_parent r = p" "slashless (tr_id r)" using n(1) o(3) by (simp_all add: queued_task_def)
  have tidy: "etcd_tidy E C s'"
    unfolding etcd_tidy_def
  proof (intro conjI allI impI)
    fix q assume q: "etcd_value E (lit ''dalin/children/'' @ q) s' \<noteq> None"
    show "\<exists>q' i r. q = q' @ lit ''/'' @ i \<and> slashless i \<and> etcd_get_record E C i s' = Some r \<and> tr_parent r = Some q'"
    proof (cases "\<exists>x. p = Some x \<and> q = x @ lit ''/'' @ tr_id r")
      case True
      then show ?thesis using id n(2)[of "tr_id r"] by auto
    next
      case False
      then obtain q' i r' where i: "q = q' @ lit ''/'' @ i" "slashless i" "etcd_get_record E C i s = Some r'" "tr_parent r' = Some q'"
        using q o(4) n(4)[of q] unfolding etcd_tidy_def by (metis (no_types, lifting))
      then have "i \<noteq> tr_id r" using fresh id(1) by auto
      then show ?thesis using i n(2)[of i] by auto
    qed
  next
    fix j assume "etcd_value E (lit ''dalin/tasks/'' @ j) s' \<noteq> None"
    then show "slashless j" using n(5)[of j] id(3) o(4) by (auto simp: etcd_tidy_def split: if_splits)
  qed
  have kids: "set (etcd_ids E (lit ''dalin/children/'' @ q @ lit ''/'') s') =
      (if \<exists>x. p = Some x \<and> path_below q x then {tr_id r} else {}) \<union> set (etcd_ids E (lit ''dalin/children/'' @ q @ lit ''/'') s)" for q
    unfolding etcd_kids_set[OF o(1) tidy] etcd_kids_set[OF o(1,4)] n(4)
    using segments_eq[OF _ id(3)] id(3) by (auto split: if_splits)
  have tasks: "set (etcd_ids E (lit ''dalin/tasks/'') s') = insert (tr_id r) (set (etcd_ids E (lit ''dalin/tasks/'') s))"
    unfolding etcd_tasks_set[OF o(1) tidy] etcd_tasks_set[OF o(1,4)] by (auto simp: n(5))
  show ?thesis
    unfolding task_entered_def using o(1-3) tidy n(2,3,6,7) kids tasks id(2) by (simp add: etcd_view_def fun_eq_iff)
qed

lemma etcd_rewritten:
  assumes ok: "sv_ok (etcd_view E C uuid) s" and old: "etcd_get_record E C i s = Some r0" "tr_parent r = tr_parent r0"
    and "tr_id r = i" and "s1 = etcd_put E (lit ''dalin/task/'' @ i) (cd_record C r) s"
    and "s2 = s1 \<and> evs = [] \<or> s2 = etcd_publish_event E C node event_id e s1 \<and> evs = [e]"
  shows "rewritten (over_etcd E C node event_id uuid clock) (etcd_view E C uuid) s r evs s2"
proof -
  have o: "etcd_ok E" "codec_ok C" "\<And>k. slashless (uuid k)" "etcd_tidy E C s" using ok by (auto simp: etcd_view_def)
  note n = etcd_changed[OF o(1,2) assms(5,6)]
  have tidy: "etcd_tidy E C s2"
    unfolding etcd_tidy_def n(3,4)
  proof (intro conjI allI impI)
    fix q assume "etcd_value E (lit ''dalin/children/'' @ q) s \<noteq> None"
    then obtain q' j r' where j: "q = q' @ lit ''/'' @ j" "slashless j" "etcd_get_record E C j s = Some r'" "tr_parent r' = Some q'"
      using o(4) unfolding etcd_tidy_def by blast
    then have "\<exists>r'. etcd_get_record E C j s2 = Some r' \<and> tr_parent r' = Some q'" using old n(1)[of j] by auto
    then show "\<exists>q' i r. q = q' @ lit ''/'' @ i \<and> slashless i \<and> etcd_get_record E C i s2 = Some r \<and> tr_parent r = Some q'"
      using j(1,2) by blast
  next
    fix j assume "etcd_value E (lit ''dalin/tasks/'' @ j) s \<noteq> None"
    then show "slashless j" using o(4) unfolding etcd_tidy_def by blast
  qed
  have "set (etcd_ids E (lit ''dalin/children/'' @ q @ lit ''/'') s2) = set (etcd_ids E (lit ''dalin/children/'' @ q @ lit ''/'') s)" for q
    unfolding etcd_kids_set[OF o(1) tidy] etcd_kids_set[OF o(1,4)] n(3) ..
  moreover have "set (etcd_ids E (lit ''dalin/tasks/'') s2) = set (etcd_ids E (lit ''dalin/tasks/'') s)"
    unfolding etcd_tasks_set[OF o(1) tidy] etcd_tasks_set[OF o(1,4)] n(4) ..
  ultimately show ?thesis
    unfolding rewritten_def using o(1-3) tidy n(1,2,5,6) assms(4) by (simp add: etcd_view_def fun_eq_iff)
qed

interpretation over_etcd: keyed_store "over_etcd E C node event_id uuid clock" "etcd_view E C uuid" path_below uuid clock
  for E C node event_id uuid clock
proof (unfold_locales, goal_cases)
  case (1 s q)
  then show ?case using etcd_listed_once[of E C s "q @ lit ''/''"] by (simp add: etcd_view_def)
next
  case (2 s p k r n e c)
  then show ?case by (simp add: etcd_register_def etcd_lookup_def etcd_view_def)
next
  case (3 s p k r n e c)
  then have "etcd_lookup E C p k s = None" and o: "etcd_ok E" "codec_ok C" by (simp_all add: etcd_lookup_def etcd_view_def)
  moreover obtain r' s' where new: "etcd_create E C node event_id uuid clock n p e c k s = (r', s')" by force
  moreover have "r' = r" using etcd_created(1)[OF o new] 3(4) by (simp add: etcd_view_def)
  ultimately show ?case using etcd_entered[OF 3(1) _ new] 3(3) by (simp add: etcd_register_def etcd_view_def)
next
  case (4 s i st n)
  then show ?case by (simp add: etcd_set_status_def etcd_assign_node_def etcd_cancel_def)
next
  case (5 s i r r' st)
  then show ?case by (auto simp: etcd_set_status_def Let_def intro!: etcd_rewritten[OF 5(1)])
next
  case (6 s i r n)
  then show ?case by (auto simp: etcd_assign_node_def intro!: etcd_rewritten[OF 6(1)])
next
  case (7 s i r)
  then show ?case by (auto simp: etcd_cancel_def intro!: etcd_rewritten[OF 7(1)])
next
  case (8 s q)
  then show ?case by (simp add: etcd_children_of_def etcd_fetch_many_def etcd_view_def etcd_ids_def)
next
  case (9 s)
  then show ?case by (simp add: etcd_list_def etcd_fetch_many_def etcd_view_def etcd_ids_def)
next
  case (10 s q)
  then show ?case by (simp add: etcd_list_def)
qed

subsection \<open>Any calls\<close>

definition etcd_start :: "'e \<Rightarrow> 'e etcd_store" where
  "etcd_start e = \<lparr>es_etcd = e, es_events = [], es_drawn = 0, es_sent = 0\<rparr>"

lemma etcd_like_start:
  assumes "etcd_ok E" and "codec_ok C" and "etcd_empty E e" and "inj uuid" and "\<And>k. slashless (uuid k)"
  shows "over_etcd.like E C node event_id uuid clock (etcd_start e) mem_new"
proof -
  have none: "etcd_value E k (etcd_start e) = None" for k using assms(3) by (simp add: etcd_empty_def etcd_value_def etcd_start_def)
  have "set (etcd_ids E p (etcd_start e)) = {}" for p using etcd_ids_set[OF assms(1)] none by simp
  then show ?thesis
    using none mem_tidy_new[OF assms(4)] assms(1,2,5) unfolding over_etcd.like_def
    by (simp add: etcd_view_def etcd_tidy_def etcd_get_record_def fun_eq_iff) (simp add: etcd_start_def mem_new_def mem_get_def)
qed

text \<open>
  C33: Over an etcd that works and that this control plane alone writes to, any sequence of calls, one after
  the other, has the answers of the store in memory, but for the children of a parent, which are the tasks
  whose parent is it or goes on from it with a slash.
\<close>

theorem etcd_answers_below:
  assumes "etcd_ok E" and "codec_ok C" and "etcd_empty E e" and "inj uuid" and "\<And>k. uc CHR ''/'' \<notin> set (uuid k)"
  shows "list_all2 same_answer (fst (serve_calls (over_etcd E C node event_id uuid clock) cs (etcd_start e)))
      (fst (serve_calls (memory_below path_below uuid clock) cs mem_new)) \<and>
    es_events (snd (serve_calls (over_etcd E C node event_id uuid clock) cs (etcd_start e))) =
      ms_events (snd (serve_calls (memory_below path_below uuid clock) cs mem_new))"
  using over_etcd.calls_same[OF etcd_like_start[OF assms], where cs = cs] by (simp add: etcd_view_def)

theorem etcd_answers_below_witness:
  "\<exists>answers. list_all2 same_answer answers
     (fst (serve_calls (memory_below path_below (\<lambda>k. replicate k 0) (\<lambda>_. 0))
        [CallRegister [1] (Some (lit ''a/b'')) [2] [3] [4], CallChildren (lit ''a'')] mem_new))"
  using etcd_answers_below[OF sample_etcd_ok sample_codec_ok sample_etcd_empty, of "\<lambda>k. replicate k 0" "[0]" "\<lambda>k. [k]" "\<lambda>_. 0"
    "[CallRegister [1] (Some (lit ''a/b'')) [2] [3] [4], CallChildren (lit ''a'')]"]
  by (auto simp: inj_def)

end
