(* ===== verification/StorePostgres.thy ===== *)
theory StorePostgres
  imports StoreCalls Texts
begin

section \<open>The store over Postgres (control-plane/src/store\_postgres.rs)\<close>

text \<open>
  The database is outside the repository: \<open>pg_ops\<close> are the statements the source sends, with the condition
  and the change of a statement as functions of rows; \<open>None\<close> is a query that fails. A column that may be
  null is an option, and \<open>NULL\<close> equals nothing but in \<open>IS NOT DISTINCT FROM\<close>.
\<close>

record PgRow =
  pr_id :: ustr
  pr_name :: ustr
  pr_parent :: "ustr option"
  pr_effect :: ustr
  pr_capability :: ustr
  pr_key :: ustr
  pr_status :: ustr
  pr_node :: "ustr option"
  pr_submitted :: i64

record 'd pg_ops =
  pg_select :: "(PgRow \<Rightarrow> bool) \<Rightarrow> 'd \<Rightarrow> PgRow list option"
  pg_insert :: "PgRow \<Rightarrow> 'd \<Rightarrow> 'd"
  pg_update :: "(PgRow \<Rightarrow> bool) \<Rightarrow> (PgRow \<Rightarrow> PgRow) \<Rightarrow> 'd \<Rightarrow> 'd"

record 'd pg_store =
  pg_data :: 'd
  pg_events :: "TaskEvent list"
  pg_drawn :: nat

subsection \<open>Rows\<close>

fun status_to_str :: "TaskStatus \<Rightarrow> ustr" where
  "status_to_str Queued = lit ''Queued''" | "status_to_str Scheduled = lit ''Scheduled''"
| "status_to_str Running = lit ''Running''" | "status_to_str Succeeded = lit ''Succeeded''"
| "status_to_str Failed = lit ''Failed''" | "status_to_str Canceled = lit ''Canceled''"

definition str_to_status :: "ustr \<Rightarrow> TaskStatus" where
  "str_to_status s =
     (if s = lit ''Scheduled'' then Scheduled else if s = lit ''Running'' then Running
      else if s = lit ''Succeeded'' then Succeeded else if s = lit ''Failed'' then Failed
      else if s = lit ''Canceled'' then Canceled else Queued)"

definition row_to_record :: "PgRow \<Rightarrow> TaskRecord" where
  "row_to_record w = \<lparr>tr_id = pr_id w, tr_name = pr_name w, tr_parent = pr_parent w, tr_effect = pr_effect w,
     tr_capability = pr_capability w, tr_key = pr_key w, tr_status = str_to_status (pr_status w), tr_node = pr_node w,
     tr_submitted = pr_submitted w\<rparr>"

text \<open>The parameters of the insertion.\<close>

definition record_to_row :: "TaskRecord \<Rightarrow> PgRow" where
  "record_to_row r = \<lparr>pr_id = tr_id r, pr_name = tr_name r, pr_parent = tr_parent r, pr_effect = tr_effect r,
     pr_capability = tr_capability r, pr_key = tr_key r, pr_status = status_to_str (tr_status r), pr_node = tr_node r,
     pr_submitted = tr_submitted r\<rparr>"

lemma status_roundtrip [simp]: "str_to_status (status_to_str st) = st"
  by (cases st) (simp_all add: str_to_status_def lit_def)

lemma row_roundtrip [simp]: "row_to_record (record_to_row r) = r"
  by (simp add: row_to_record_def record_to_row_def)

subsection \<open>Operations\<close>

definition pg_get_record :: "'d pg_ops \<Rightarrow> ustr \<Rightarrow> 'd pg_store \<Rightarrow> TaskRecord option" where
  "pg_get_record D i s =
     Option.bind (pg_select D (\<lambda>w. pr_id w = i) (pg_data s))
       (\<lambda>rows. case rows of [] \<Rightarrow> None | w # _ \<Rightarrow> Some (row_to_record w))"

definition pg_existing :: "'d pg_ops \<Rightarrow> ustr option \<Rightarrow> ustr \<Rightarrow> 'd pg_store \<Rightarrow> ustr option" where
  "pg_existing D parent k s =
     Option.bind (pg_select D (\<lambda>w. pr_parent w = parent \<and> pr_key w = k) (pg_data s))
       (\<lambda>rows. case rows of [] \<Rightarrow> None | w # _ \<Rightarrow> Some (pr_id w))"

definition pg_register ::
  "'d pg_ops \<Rightarrow> (nat \<Rightarrow> ustr) \<Rightarrow> (nat \<Rightarrow> i64) \<Rightarrow> ustr \<Rightarrow> ustr option \<Rightarrow> ustr \<Rightarrow> ustr \<Rightarrow> ustr \<Rightarrow> 'd pg_store \<Rightarrow>
   TaskRecord \<times> 'd pg_store" where
  "pg_register D uuid clock name parent effect capability k s =
     (case Option.bind (pg_existing D parent k s) (\<lambda>i. pg_get_record D i s) of
        Some r \<Rightarrow> (r, s)
      | None \<Rightarrow>
          (let r = \<lparr>tr_id = uuid (pg_drawn s), tr_name = name, tr_parent = parent, tr_effect = effect,
                    tr_capability = capability, tr_key = k, tr_status = Queued, tr_node = None,
                    tr_submitted = clock (pg_drawn s)\<rparr> in
           (r, \<lparr>pg_data = pg_insert D (record_to_row r) (pg_data s), pg_events = pg_events s @ [EvSubmitted r],
                pg_drawn = pg_drawn s + 1\<rparr>)))"

definition pg_write :: "'d pg_ops \<Rightarrow> ustr \<Rightarrow> (PgRow \<Rightarrow> PgRow) \<Rightarrow> 'd pg_store \<Rightarrow> 'd pg_store" where
  "pg_write D i f s = s\<lparr>pg_data := pg_update D (\<lambda>w. pr_id w = i) f (pg_data s)\<rparr>"

definition pg_send :: "TaskEvent \<Rightarrow> 'd pg_store \<Rightarrow> 'd pg_store" where
  "pg_send e s = s\<lparr>pg_events := pg_events s @ [e]\<rparr>"

definition pg_set_status :: "'d pg_ops \<Rightarrow> ustr \<Rightarrow> TaskStatus \<Rightarrow> 'd pg_store \<Rightarrow> TaskRecord option \<times> 'd pg_store" where
  "pg_set_status D i st s =
     (case pg_get_record D i s of
        None \<Rightarrow> (None, s)
      | Some r \<Rightarrow>
          (let u = r\<lparr>tr_status := st\<rparr> in
           (Some u, pg_send (EvStatusChanged u) (pg_write D i (\<lambda>w. w\<lparr>pr_status := status_to_str st\<rparr>) s))))"

definition pg_assign_node :: "'d pg_ops \<Rightarrow> ustr \<Rightarrow> ustr \<Rightarrow> 'd pg_store \<Rightarrow> 'd pg_store" where
  "pg_assign_node D i n s =
     (case pg_get_record D i s of
        None \<Rightarrow> s
      | Some _ \<Rightarrow> pg_write D i (\<lambda>w. w\<lparr>pr_node := Some n\<rparr>) s)"

definition pg_cancel :: "'d pg_ops \<Rightarrow> ustr \<Rightarrow> 'd pg_store \<Rightarrow> bool \<times> 'd pg_store" where
  "pg_cancel D i s =
     (case pg_get_record D i s of
        None \<Rightarrow> (False, s)
      | Some _ \<Rightarrow> (True, pg_send (EvCanceled i) (pg_write D i (\<lambda>w. w\<lparr>pr_status := status_to_str Canceled\<rparr>) s)))"

text \<open>A query that fails lists nothing.\<close>

definition pg_records :: "'d pg_ops \<Rightarrow> (PgRow \<Rightarrow> bool) \<Rightarrow> 'd pg_store \<Rightarrow> TaskRecord list" where
  "pg_records D P s = (case pg_select D P (pg_data s) of Some rows \<Rightarrow> map row_to_record rows | None \<Rightarrow> [])"

definition pg_children_of :: "'d pg_ops \<Rightarrow> ustr \<Rightarrow> 'd pg_store \<Rightarrow> TaskRecord list" where
  "pg_children_of D p s = pg_records D (\<lambda>w. pr_parent w = Some p) s"

definition pg_list :: "'d pg_ops \<Rightarrow> ustr option \<Rightarrow> 'd pg_store \<Rightarrow> TaskRecord list" where
  "pg_list D parent s =
     (case parent of Some p \<Rightarrow> pg_children_of D p s | None \<Rightarrow> pg_records D (\<lambda>_. True) s)"

definition over_postgres :: "'d pg_ops \<Rightarrow> (nat \<Rightarrow> ustr) \<Rightarrow> (nat \<Rightarrow> i64) \<Rightarrow> 'd pg_store task_store" where
  "over_postgres D uuid clock =
     \<lparr>ts_register = pg_register D uuid clock, ts_set_status = pg_set_status D, ts_assign_node = pg_assign_node D,
      ts_cancel = pg_cancel D, ts_get = pg_get_record D, ts_children_of = pg_children_of D, ts_list = pg_list D\<rparr>"

subsection \<open>What a database that works does\<close>

definition pg_table :: "'d pg_ops \<Rightarrow> 'd \<Rightarrow> PgRow list" where
  "pg_table D d = (case pg_select D (\<lambda>_. True) d of Some rows \<Rightarrow> rows | None \<Rightarrow> [])"

text \<open>
  Queries do not fail and answer the rows of the table that obey their condition; an insertion adds a
  row whose identifier is new (a violation of the primary key would not), an update changes the rows that
  obey its condition.
\<close>

definition pg_ok :: "'d pg_ops \<Rightarrow> bool" where
  "pg_ok D =
     ((\<forall>P d. \<exists>rows. pg_select D P d = Some rows \<and> mset rows = filter_mset P (mset (pg_table D d))) \<and>
      (\<forall>w d. pr_id w \<notin> pr_id ` set (pg_table D d) \<longrightarrow> mset (pg_table D (pg_insert D w d)) = add_mset w (mset (pg_table D d))) \<and>
      (\<forall>P f d. mset (pg_table D (pg_update D P f d)) = image_mset (\<lambda>w. if P w then f w else w) (mset (pg_table D d))))"

text \<open>A table in memory.\<close>

definition sample_pg_ops :: "PgRow list pg_ops" where
  "sample_pg_ops = \<lparr>pg_select = (\<lambda>P d. Some (filter P d)),
     pg_insert = (\<lambda>w d. if pr_id w \<in> pr_id ` set d then d else d @ [w]),
     pg_update = (\<lambda>P f d. map (\<lambda>w. if P w then f w else w) d)\<rparr>"

lemma sample_pg_ok: "pg_ok sample_pg_ops"
  by (simp add: pg_ok_def pg_table_def sample_pg_ops_def)

subsection \<open>The table\<close>

lemma pg_okD:
  assumes "pg_ok D"
  shows "\<exists>rows. pg_select D P d = Some rows \<and> mset rows = filter_mset P (mset (pg_table D d))"
    and "pr_id w \<notin> pr_id ` set (pg_table D d) \<Longrightarrow> mset (pg_table D (pg_insert D w d)) = add_mset w (mset (pg_table D d))"
    and "mset (pg_table D (pg_update D P f d)) = image_mset (\<lambda>w. if P w then f w else w) (mset (pg_table D d))"
  using assms unfolding pg_ok_def by (elim conjE; erule allE; erule allE; assumption | simp)+

lemma pg_select_set: "pg_ok D \<Longrightarrow> \<exists>rows. pg_select D P d = Some rows \<and> set rows = {w \<in> set (pg_table D d). P w}"
proof -
  assume ok: "pg_ok D"
  obtain rows where rows: "pg_select D P d = Some rows" "mset rows = filter_mset P (mset (pg_table D d))"
    using pg_okD(1)[OF ok, of P d] by (elim exE conjE)
  have "set rows = {w \<in> set (pg_table D d). P w}" using arg_cong[where f = set_mset, OF rows(2)] by simp
  then show ?thesis using rows(1) by (intro exI conjI)
qed

lemma pg_insert_set:
  "pg_ok D \<Longrightarrow> pr_id w \<notin> pr_id ` set (pg_table D d) \<Longrightarrow> set (pg_table D (pg_insert D w d)) = insert w (set (pg_table D d))"
  using arg_cong[where f = set_mset, OF pg_okD(2)[of D w d]] by simp

lemma pg_update_set:
  "pg_ok D \<Longrightarrow> set (pg_table D (pg_update D P f d)) = (\<lambda>w. if P w then f w else w) ` set (pg_table D d)"
  using arg_cong[where f = set_mset, OF pg_okD(3)[of D P f d]] by simp

text \<open>
  In order: no two rows have one identifier, none have one parent and key, and identifiers were drawn.
\<close>

definition pg_good :: "'d pg_ops \<Rightarrow> (nat \<Rightarrow> ustr) \<Rightarrow> 'd pg_store \<Rightarrow> bool" where
  "pg_good D uuid s =
     (pg_ok D \<and> inj uuid \<and> inj_on pr_id (set (pg_table D (pg_data s))) \<and>
      inj_on (\<lambda>w. (pr_parent w, pr_key w)) (set (pg_table D (pg_data s))) \<and>
      pr_id ` set (pg_table D (pg_data s)) \<subseteq> uuid ` {..<pg_drawn s})"

lemma pg_first:
  assumes "pg_ok D" and "inj_on key {w \<in> set (pg_table D d). P w}" and "\<And>w. P w \<longleftrightarrow> key w = x"
  shows "Option.bind (pg_select D P d) (\<lambda>rows. case rows of [] \<Rightarrow> None | w # _ \<Rightarrow> Some (g w)) = Some y \<longleftrightarrow>
    (\<exists>w \<in> set (pg_table D d). key w = x \<and> g w = y)"
proof -
  obtain rows where rows: "pg_select D P d = Some rows" "set rows = {w \<in> set (pg_table D d). P w}"
    using pg_select_set[OF assms(1)] by blast
  have "w = w'" if "w \<in> set rows" "w' \<in> set rows" for w w'
    using that assms(2,3) unfolding rows(2) by (auto dest: inj_onD)
  then have "(case rows of [] \<Rightarrow> None | w # _ \<Rightarrow> Some (g w)) = Some y \<longleftrightarrow> (\<exists>w \<in> set rows. g w = y)"
    by (cases rows) auto
  then show ?thesis using rows assms(3) by auto
qed

lemma pg_get_iff:
  "pg_good D uuid s \<Longrightarrow> pg_get_record D i s = Some r \<longleftrightarrow> (\<exists>w \<in> set (pg_table D (pg_data s)). pr_id w = i \<and> row_to_record w = r)"
  unfolding pg_get_record_def by (rule pg_first[where key = pr_id]) (auto simp: pg_good_def intro: inj_on_subset)

lemma pg_existing_iff:
  "pg_good D uuid s \<Longrightarrow> pg_existing D p k s = Some i \<longleftrightarrow>
    (\<exists>w \<in> set (pg_table D (pg_data s)). (pr_parent w, pr_key w) = (p, k) \<and> pr_id w = i)"
  unfolding pg_existing_def
  by (rule pg_first[where key = "\<lambda>w. (pr_parent w, pr_key w)"]) (auto simp: pg_good_def intro: inj_on_subset)

end
