(* ===== verification/StorePostgresCorrect.thy ===== *)
theory StorePostgresCorrect
  imports StorePostgres
begin

section \<open>The store over Postgres keeps the contract, with exact keys\<close>

lemma same_options: "(\<And>y. a = Some y \<longleftrightarrow> b = Some y) \<Longrightarrow> a = b"
  by (cases a; cases b) auto

lemma over_postgres_simps [simp]:
  "ts_register (over_postgres D uuid clock) = pg_register D uuid clock"
  "ts_set_status (over_postgres D uuid clock) = pg_set_status D"
  "ts_assign_node (over_postgres D uuid clock) = pg_assign_node D"
  "ts_cancel (over_postgres D uuid clock) = pg_cancel D" "ts_get (over_postgres D uuid clock) = pg_get_record D"
  by (simp_all add: over_postgres_def)

subsection \<open>A change of one row\<close>

text \<open>A change that keeps identifier, parent and key.\<close>

definition keeps_key :: "(PgRow \<Rightarrow> PgRow) \<Rightarrow> bool" where
  "keeps_key f = (\<forall>w. pr_id (f w) = pr_id w \<and> pr_parent (f w) = pr_parent w \<and> pr_key (f w) = pr_key w)"

lemma pg_write_table:
  "pg_ok D \<Longrightarrow> set (pg_table D (pg_data (pg_write D i f s))) = (\<lambda>w. if pr_id w = i then f w else w) ` set (pg_table D (pg_data s))"
  by (simp add: pg_write_def pg_update_set)

lemma inj_on_changed: "inj_on h A \<Longrightarrow> (\<And>w. h (g w) = h w) \<Longrightarrow> inj_on h (g ` A)"
  by (rule inj_onI) (auto dest: inj_onD)

lemma pg_write_good:
  assumes "pg_good D uuid s" and "keeps_key f"
  shows "pg_good D uuid (pg_write D i f s)"
proof -
  let ?g = "\<lambda>w. if pr_id w = i then f w else w" and ?t = "set (pg_table D (pg_data s))"
  have ok: "pg_ok D" using assms(1) by (simp add: pg_good_def)
  have g: "pr_id (?g w) = pr_id w" "pr_parent (?g w) = pr_parent w" "pr_key (?g w) = pr_key w" for w
    using assms(2) by (simp_all add: keeps_key_def)
  have t: "inj_on pr_id ?t" "inj_on (\<lambda>w. (pr_parent w, pr_key w)) ?t" "pr_id ` ?t \<subseteq> uuid ` {..<pg_drawn s}" "inj uuid"
    using assms(1) by (simp_all add: pg_good_def)
  have ids: "pr_id ` ?g ` ?t = pr_id ` ?t" unfolding image_image g ..
  have "inj_on pr_id (?g ` ?t)" by (rule inj_on_changed[OF t(1)]) (rule g)
  moreover have "inj_on (\<lambda>w. (pr_parent w, pr_key w)) (?g ` ?t)" by (rule inj_on_changed[OF t(2)]) (simp only: g)
  moreover have "pg_drawn (pg_write D i f s) = pg_drawn s" by (simp add: pg_write_def)
  ultimately show ?thesis
    unfolding pg_good_def pg_write_table[OF ok] ids using ok t(3,4) by (intro conjI) (assumption | simp only:)+
qed

lemma pg_write_existing:
  assumes "pg_good D uuid s" and "keeps_key f"
  shows "pg_existing D p k (pg_write D i f s) = pg_existing D p k s"
proof (rule same_options)
  have ok: "pg_ok D" using assms(1) by (simp add: pg_good_def)
  show "pg_existing D p k (pg_write D i f s) = Some j \<longleftrightarrow> pg_existing D p k s = Some j" for j
    unfolding pg_existing_iff[OF assms(1)] pg_existing_iff[OF pg_write_good[OF assms]] pg_write_table[OF ok]
    using assms(2) by (auto simp: keeps_key_def split: if_splits)
qed

lemma pg_write_get:
  assumes "pg_good D uuid s" and "keeps_key f" and "\<And>w. row_to_record (f w) = h (row_to_record w)"
  shows "pg_get_record D j (pg_write D i f s) = (if j = i then map_option h (pg_get_record D i s) else pg_get_record D j s)"
proof (rule same_options)
  have ok: "pg_ok D" using assms(1) by (simp add: pg_good_def)
  let ?g = "\<lambda>w. if pr_id w = i then f w else w" and ?t = "set (pg_table D (pg_data s))"
  have id: "pr_id (?g w) = pr_id w" for w using assms(2) by (simp add: keeps_key_def)
  fix r
  have "pg_get_record D j (pg_write D i f s) = Some r \<longleftrightarrow> (\<exists>w \<in> ?t. pr_id w = j \<and> row_to_record (?g w) = r)"
    unfolding pg_get_iff[OF pg_write_good[OF assms(1,2)]] pg_write_table[OF ok] bex_simps(7) id ..
  also have "\<dots> \<longleftrightarrow> (if j = i then map_option h (pg_get_record D i s) else pg_get_record D j s) = Some r"
  proof (cases "j = i")
    case True
    have "(\<exists>w \<in> ?t. pr_id w = i \<and> row_to_record (?g w) = r) \<longleftrightarrow> (\<exists>x. (\<exists>w \<in> ?t. pr_id w = i \<and> row_to_record w = x) \<and> h x = r)"
      by (auto simp: assms(3))
    also have "\<dots> \<longleftrightarrow> map_option h (pg_get_record D i s) = Some r"
      unfolding pg_get_iff[OF assms(1), symmetric] by auto
    finally show ?thesis using True by simp
  next
    case False
    then have "(\<exists>w \<in> ?t. pr_id w = j \<and> row_to_record (?g w) = r) \<longleftrightarrow> (\<exists>w \<in> ?t. pr_id w = j \<and> row_to_record w = r)" by auto
    then show ?thesis using False pg_get_iff[OF assms(1)] by simp
  qed
  finally show "pg_get_record D j (pg_write D i f s) = Some r \<longleftrightarrow>
      (if j = i then map_option h (pg_get_record D i s) else pg_get_record D j s) = Some r" .
qed

lemma pg_send_simps [simp]:
  "pg_good D uuid (pg_send e s) = pg_good D uuid s" "pg_existing D p k (pg_send e s) = pg_existing D p k s"
  "pg_get_record D i (pg_send e s) = pg_get_record D i s"
  by (simp_all add: pg_send_def pg_good_def pg_existing_def pg_get_record_def)

lemma row_changes:
  "keeps_key (\<lambda>w. w\<lparr>pr_status := x\<rparr>)" "keeps_key (\<lambda>w. w\<lparr>pr_node := n\<rparr>)"
  "row_to_record (w\<lparr>pr_status := status_to_str st\<rparr>) = (row_to_record w)\<lparr>tr_status := st\<rparr>"
  "row_to_record (w\<lparr>pr_node := n\<rparr>) = (row_to_record w)\<lparr>tr_node := n\<rparr>"
  by (simp_all add: keeps_key_def row_to_record_def)

lemmas row_canceled = row_changes(3)[where st = Canceled, simplified]

subsection \<open>A registration\<close>

lemma pg_known:
  assumes "pg_good D uuid s" and "pg_existing D p k s = Some i"
  shows "\<exists>r. pg_get_record D i s = Some r \<and> tr_id r = i \<and> pg_register D uuid clock n p e c k s = (r, s)"
proof -
  obtain w where w: "w \<in> set (pg_table D (pg_data s))" "pr_id w = i"
    using assms(2) unfolding pg_existing_iff[OF assms(1)] by blast
  then have "pg_get_record D i s = Some (row_to_record w)" unfolding pg_get_iff[OF assms(1)] by blast
  then show ?thesis using assms(2) w(2) by (simp add: pg_register_def) (simp add: row_to_record_def)
qed

lemma pg_unknown:
  assumes good: "pg_good D uuid s" and new: "pg_existing D p k s = None" and reg: "pg_register D uuid clock n p e c k s = (r, s')"
  shows "r = queued_task uuid clock (pg_drawn s) n p e c k" and "pg_get_record D (tr_id r) s = None" and "pg_good D uuid s'"
    and "set (pg_table D (pg_data s')) = insert (record_to_row r) (set (pg_table D (pg_data s)))"
proof -
  let ?t = "set (pg_table D (pg_data s))"
  show r: "r = queued_task uuid clock (pg_drawn s) n p e c k"
    using reg new by (simp add: pg_register_def queued_task_def Let_def)
  have s': "s' = \<lparr>pg_data = pg_insert D (record_to_row r) (pg_data s), pg_events = pg_events s @ [EvSubmitted r], pg_drawn = pg_drawn s + 1\<rparr>"
    using reg new r by (simp add: pg_register_def queued_task_def Let_def)
  have row: "pr_id (record_to_row r) = uuid (pg_drawn s)" "pr_parent (record_to_row r) = p" "pr_key (record_to_row r) = k"
    by (simp_all add: r queued_task_def record_to_row_def)
  have g: "pg_ok D" "inj uuid" "inj_on pr_id ?t" "inj_on (\<lambda>w. (pr_parent w, pr_key w)) ?t" "pr_id ` ?t \<subseteq> uuid ` {..<pg_drawn s}"
    using good by (simp_all add: pg_good_def)
  have fresh: "uuid (pg_drawn s) \<notin> pr_id ` ?t" using g(2,5) by (auto dest: injD)
  have "pg_get_record D (tr_id r) s \<noteq> Some x" for x
    unfolding pg_get_iff[OF good] using fresh by (auto simp: r queued_task_def image_iff)
  then show "pg_get_record D (tr_id r) s = None" by (cases "pg_get_record D (tr_id r) s") auto
  show t: "set (pg_table D (pg_data s')) = insert (record_to_row r) ?t"
    using pg_insert_set[OF g(1), of "record_to_row r" "pg_data s"] fresh by (simp add: s' row)
  have "(p, k) \<notin> (\<lambda>w. (pr_parent w, pr_key w)) ` ?t"
    using new pg_existing_iff[OF good, of p k] by auto
  then have "inj_on (\<lambda>w. (pr_parent w, pr_key w)) (insert (record_to_row r) ?t)" using g(4) by (simp add: row) blast
  moreover have "inj_on pr_id (insert (record_to_row r) ?t)" using g(3) fresh by (simp add: row) blast
  moreover have "pr_id ` insert (record_to_row r) ?t \<subseteq> uuid ` {..<Suc (pg_drawn s)}" using g(5) by (auto simp: row)
  ultimately show "pg_good D uuid s'"
    unfolding pg_good_def t using g(1,2) by (simp add: s')
qed

interpretation over_postgres: task_store_laws "over_postgres D uuid clock" "pg_good D uuid" "\<lambda>s p k. pg_existing D p k s"
  for D uuid clock
proof (unfold_locales, goal_cases)
  case (1 s name p eff cap k)
  then show ?case
  proof (cases "pg_existing D p k s")
    case None
    then show ?thesis using pg_unknown(3)[OF 1 None] by (metis over_postgres_simps(1) prod.collapse)
  next
    case (Some i)
    then show ?thesis using pg_known[OF 1 Some, of clock name eff cap] 1 by auto
  qed
next
  case (2 s p k i name eff cap)
  then show ?case using pg_known[OF 2, of clock name eff cap] by auto
next
  case (3 s p k name eff cap r s' j p' k' j')
  then have reg: "pg_register D uuid clock name p eff cap k s = (r, s')" by simp
  note new = pg_unknown[OF 3(1,2) reg]
  have row: "pr_id (record_to_row r) = tr_id r" "pr_parent (record_to_row r) = p" "pr_key (record_to_row r) = k"
    by (simp_all add: new(1) queued_task_def record_to_row_def)
  have "pg_get_record D j s' = (if j = tr_id r then Some r else pg_get_record D j s)"
  proof (rule same_options)
    show "pg_get_record D j s' = Some x \<longleftrightarrow> (if j = tr_id r then Some r else pg_get_record D j s) = Some x" for x
      using new(2) pg_get_iff[OF 3(1), of "tr_id r"] unfolding pg_get_iff[OF new(3)] new(4)
      by (auto simp: row pg_get_iff[OF 3(1)])
  qed
  moreover have "pg_existing D p k s' = Some (tr_id r)"
    unfolding pg_existing_iff[OF new(3)] new(4) by (simp add: row)
  moreover have "pg_existing D p' k' s = Some j' \<longrightarrow> pg_existing D p' k' s' = Some j'"
    unfolding pg_existing_iff[OF new(3)] pg_existing_iff[OF 3(1)] new(4) by blast
  ultimately show ?case using new(1,2) by (simp add: queued_task_def)
qed (auto simp: pg_set_status_def pg_assign_node_def pg_cancel_def Let_def pg_write_get row_changes row_canceled pg_write_good
    pg_write_existing fun_eq_iff split: option.splits)

subsection \<open>Keys\<close>

definition pg_start :: "'d \<Rightarrow> 'd pg_store" where
  "pg_start d = \<lparr>pg_data = d, pg_events = [], pg_drawn = 0\<rparr>"

text \<open>
  C34: Over a Postgres that works and that this control plane alone writes to, two registrations, with any
  calls before and between them, return the same task exactly when they have the same parent and the
  same key.
\<close>

theorem postgres_keys_exact:
  assumes "pg_ok D" and "pg_table D d = []" and "inj uuid"
    and "s = snd (serve_calls (over_postgres D uuid clock) cs (pg_start d))"
    and "pg_register D uuid clock n p e c k s = (a, s1)"
    and "s2 = snd (serve_calls (over_postgres D uuid clock) cs' s1)"
    and "pg_register D uuid clock n' p' e' c' k' s2 = (b, s3)"
  shows "tr_id a = tr_id b \<longleftrightarrow> p = p' \<and> k = k'"
proof -
  have start: "pg_good D uuid (pg_start d)" by (simp add: assms(1-3) pg_good_def pg_start_def)
  have good: "pg_good D uuid s" using over_postgres.calls_keep[OF start] by (simp add: assms(4))
  have reg1: "ts_register (over_postgres D uuid clock) n p e c k s = (a, s1)" using assms(5) by simp
  have good1: "pg_good D uuid s1" using over_postgres.register_good[OF good, of clock n p e c k] assms(5) by simp
  have key1: "pg_existing D p k s1 = Some (tr_id a)" by (rule over_postgres.register_keyed[OF good reg1])
  have good2: "pg_good D uuid s2" and key2: "pg_existing D p k s2 = Some (tr_id a)"
    using over_postgres.calls_keep[OF good1] key1 by (simp_all add: assms(6))
  have reg2: "ts_register (over_postgres D uuid clock) n' p' e' c' k' s2 = (b, s3)" using assms(7) by simp
  have good3: "pg_good D uuid s3" using over_postgres.register_good[OF good2, of clock n' p' e' c' k'] assms(7) by simp
  have key3: "pg_existing D p' k' s3 = Some (tr_id b)" by (rule over_postgres.register_keyed[OF good2 reg2])
  have "pg_existing D p k s3 = Some (tr_id a)"
    using over_postgres.call_keeps[OF good2, where clock = clock and c = "CallRegister n' p' e' c' k'" and p = p and k = k and i = "tr_id a"] key2 assms(7)
    by simp
  then obtain w w' where w: "w \<in> set (pg_table D (pg_data s3))" "(pr_parent w, pr_key w) = (p, k)" "pr_id w = tr_id a"
      "w' \<in> set (pg_table D (pg_data s3))" "(pr_parent w', pr_key w') = (p', k')" "pr_id w' = tr_id b"
    using key3 unfolding pg_existing_iff[OF good3] by blast
  show ?thesis
  proof
    assume "tr_id a = tr_id b"
    then have "w = w'" using w good3 unfolding pg_good_def by (metis inj_onD)
    then show "p = p' \<and> k = k'" using w(2,5) by simp
  next
    assume "p = p' \<and> k = k'"
    then show "tr_id a = tr_id b" using over_postgres.register_again[OF good2 key2, of clock n' e' c'] assms(7) by simp
  qed
qed

theorem postgres_keys_exact_witness:
  "\<exists>a b s1 s2. pg_register sample_pg_ops (\<lambda>k. [k]) (\<lambda>_. 0) [1] (Some (lit ''a/b'')) [2] [3] (lit ''c'') (pg_start []) = (a, s1) \<and>
    pg_register sample_pg_ops (\<lambda>k. [k]) (\<lambda>_. 0) [1] (Some (lit ''a'')) [2] [3] (lit ''b/c'') s1 = (b, s2) \<and> tr_id a \<noteq> tr_id b"
proof -
  obtain a s1 where a: "pg_register sample_pg_ops (\<lambda>k. [k]) (\<lambda>_. 0) [1] (Some (lit ''a/b'')) [2] [3] (lit ''c'') (pg_start []) = (a, s1)"
    by force
  obtain b s2 where b: "pg_register sample_pg_ops (\<lambda>k. [k]) (\<lambda>_. 0) [1] (Some (lit ''a'')) [2] [3] (lit ''b/c'') s1 = (b, s2)"
    by force
  have "tr_id a = tr_id b \<longleftrightarrow> Some (lit ''a/b'') = Some (lit ''a'') \<and> lit ''c'' = lit ''b/c''"
    by (rule postgres_keys_exact[where cs = "[]" and cs' = "[]", OF sample_pg_ok _ _ _ a _ b])
      (simp_all add: pg_table_def sample_pg_ops_def inj_def)
  then have "tr_id a \<noteq> tr_id b" by (simp add: lit_def)
  then show ?thesis using a b by blast
qed

end
