(* ===== verification/StoreFactory.thy ===== *)
theory StoreFactory
  imports Texts
begin

section \<open>The choice of a store (control-plane/src/store\_factory.rs)\<close>

text \<open>
  The store that an address asks for, with what its connection takes, and the name that is printed.
  Connecting is outside the model.
\<close>

datatype task_backend = InMemoryStore | RedisStore ustr | PostgresStore ustr | EtcdStore "ustr list" | UnknownScheme ustr

definition etcd_seeds :: "ustr \<Rightarrow> ustr list" where
  "etcd_seeds rest = filter (\<lambda>s. s \<noteq> []) (map trim_ws (split_str (lit '','') rest))"

definition chosen_backend :: "ustr \<Rightarrow> task_backend" where
  "chosen_backend address =
     (let url = trim_ws address in
      if url = [] \<or> starts_with url (lit ''memory://'') then InMemoryStore
      else if starts_with url (lit ''redis://'') then RedisStore url
      else if starts_with url (lit ''postgres://'') then PostgresStore url
      else (case strip_prefix (lit ''etcd://'') url of
          Some rest \<Rightarrow> EtcdStore (etcd_seeds rest)
        | None \<Rightarrow> UnknownScheme url))"

definition backend_name :: "ustr \<Rightarrow> ustr" where
  "backend_name address =
     (let url = trim_ws address in
      if url = [] \<or> starts_with url (lit ''memory://'') then lit ''memory''
      else if starts_with url (lit ''redis://'') then lit ''redis''
      else if starts_with url (lit ''postgres://'') then lit ''postgres''
      else if starts_with url (lit ''etcd://'') then lit ''etcd''
      else lit ''unknown'')"

text \<open>The name is that of the store.\<close>

lemma backend_name_chosen:
  "backend_name address = (case chosen_backend address of
      InMemoryStore \<Rightarrow> lit ''memory'' | RedisStore _ \<Rightarrow> lit ''redis'' | PostgresStore _ \<Rightarrow> lit ''postgres''
    | EtcdStore _ \<Rightarrow> lit ''etcd'' | UnknownScheme _ \<Rightarrow> lit ''unknown'')"
  by (simp add: backend_name_def chosen_backend_def Let_def strip_prefix_def)

end
