(* ===== verification/Spec2Isabelle.thy ===== *)
theory Spec2Isabelle
  imports TyCorrect SevenCorrect LexerTiles Pipeline ControlPlaneCorrect EngineCalls ModuleSource CompileCorrect
    MacrosCorrect ManifestText StdLoaderCorrect NodesCorrect Convert HandshakeCorrect
    OperatorCorrect ClustersCorrect StoreRedisRace StoreEtcdCorrect StorePostgresCorrect StoreFactory
begin

text \<open>
  \<^bold>\<open>A verification development for Dalin L\<close>

  Dalin L is a small language whose functions are annotated in seven channels (effect, capability,
  time, confidence, cognitive loop, governance, and the value type), with a compiler, two ways to run
  a program, a runtime engine that enforces the annotations, and a control plane that schedules the
  tasks a program declares on nodes. This library models that program in the order in which a source
  text goes through it, and proves what each part promises and how the parts fit together. Every
  definition follows the Rust source; paths below are relative to \<open>src/\<close>.

  \<^bold>\<open>Parts and theories\<close>

  \<^item> \<^bold>\<open>Shared\<close>. \<open>Prelude\<close> has what the model uses of Rust: strings as lists of scalar
    values, 64-bit integers with wrap-around and with the overflow checks of the debug profile,
    outcomes (\<open>Ok\<close>, \<open>Err\<close>, \<open>Panic\<close>), the floating point operations as a parameter. \<open>Texts\<close> has
    the string routines of the standard library, \<open>Scope\<close> the locale of nested scopes, \<open>Steps\<close> the
    steps of a program that has state, errors, panics and fuel.

  \<^item> \<^bold>\<open>Front end\<close>. \<open>Tokens\<close> and \<open>Lexer\<close> model \<open>compiler/src/token.rs\<close> and \<open>lexer.rs\<close>: the
    record of the lexer is its position, its operations are \<open>lex_at\<close>, \<open>next_token\<close> and \<open>tokenize\<close>.
    \<open>LexerCorrect\<close> has positions and shows that printed tokens are read back, \<open>LexerTiles\<close> says what the
    tokens of a text are without the lexer and shows that the lexer finds them. \<open>Ast\<close> is
    \<open>ast.rs\<close>; \<open>Parser\<close> is \<open>parser.rs\<close>, one definition for each parsing function, over a state of
    tokens and position. \<open>ParserCorrect\<close> shows that it always answers, \<open>ParserRoundtrip\<close> and
    \<open>ParserProgram\<close> that printed expressions and programs are read back.

  \<^item> \<^bold>\<open>Types\<close>. \<open>Channels\<close> has the levels of \<open>ty2.rs\<close>, their orders, joins and texts, as
    interpretations of the locales of orders and joins; \<open>Infer\<close> and \<open>Seven\<close> have the inferencers of the
    channels and the walk over functions; \<open>SevenCorrect\<close> says which sub-expressions the walk checks, in
    which four of the channels, and what its effect check means. \<open>Ty\<close> is the value type inference of
    \<open>ty.rs\<close>, and \<open>TyCorrect\<close> the soundness and termination of its unification.

  \<^item> \<^bold>\<open>Running\<close>. \<open>Vm\<close> and \<open>VmCompiler\<close> are \<open>dlvm/src/lib.rs\<close> and \<open>compiler.rs\<close>; \<open>VmCorrect\<close> has a
    reference evaluator and shows that compiled code refines it. \<open>Env\<close> and \<open>Interp\<close> are
    \<open>runtime/src/env.rs\<close> and \<open>interpreter.rs\<close>, with \<open>InterpCorrect\<close>. \<open>Agreement\<close> compares both on the
    expressions of a small type system, which leaves out the float operators on which they differ, and
    \<open>Pipeline\<close> states the round trip and the agreement for source texts.

  \<^item> \<^bold>\<open>Engine\<close>. \<open>Engine\<close> is \<open>compiler/src/runtime.rs\<close>: the record \<open>engine\<close> holds scopes, functions,
    phase, governance level and depth; \<open>run_expr\<close> and \<open>run_stmt\<close> take fuel. \<open>EngineCorrect\<close> has the
    relations every run respects, as interpretations of \<open>engine_relation\<close>; \<open>EngineReturns\<close> shows
    that programs without while loops return, \<open>EngineCalls\<close> what calls and healing leave behind.

  \<^item> \<^bold>\<open>Compiler driver\<close>. \<open>Latency\<close>, \<open>TaskSpecs\<close>, \<open>Llm\<close> and \<open>Compile\<close> are \<open>latency.rs\<close>,
    \<open>task_spec.rs\<close>, \<open>llm.rs\<close> and \<open>lib.rs\<close> of the compiler; \<open>LatencyCorrect\<close> sets the sums
    of the verifier against the ways through a body, \<open>CompileCorrect\<close> relates what one compilation returns. \<open>ModuleSystem\<close> is \<open>module.rs\<close> with \<open>ModulesCorrect\<close> (cycles),
    \<open>LoadOrder\<close> (topological order), \<open>ModuleTrees\<close> (paths, namespaces, the resolver) and
    \<open>ModuleSource\<close> (reading items). \<open>StdLoader\<close> is \<open>stdlib_loader.rs\<close> with \<open>StdLoaderCorrect\<close>.
    \<open>Macros\<close> and \<open>MacrosCorrect\<close> are about \<open>macro_expand.rs\<close>, \<open>Packages\<close>, \<open>PackagesCorrect\<close> and
    \<open>ManifestText\<close> about \<open>package.rs\<close>.

  \<^item> \<^bold>\<open>Control plane\<close>. \<open>Scheduler\<close>, \<open>Registry\<close>, \<open>EffectMonitor\<close>, \<open>Nodes\<close>, \<open>Convert\<close> and \<open>ControlPlane\<close>
    are \<open>scheduler.rs\<close>, \<open>registry.rs\<close> with \<open>store.rs\<close>, \<open>effect_monitor.rs\<close>, \<open>agent_registry.rs\<close> with the
    loop of \<open>bin/cpd.rs\<close>, \<open>convert.rs\<close>, and \<open>server.rs\<close> with \<open>dispatch.rs\<close>. The store is an interface,
    \<open>task_store_laws\<close>, with the store in memory as its instance; a request is a sequence of steps
    that other requests interleave with. The stores over services are \<open>StoreRedis\<close>, \<open>StoreEtcd\<close> and
    \<open>StorePostgres\<close> (\<open>store_redis.rs\<close>, \<open>store_etcd.rs\<close>, \<open>store_postgres.rs\<close>), and \<open>StoreFactory\<close> chooses one
    (\<open>store_factory.rs\<close>). \<open>StoreCalls\<close> has calls as values and the locale \<open>keyed_store\<close>, in which the
    simulation by the store in memory is proved once; Redis and etcd are its instances (\<open>StoreRedisCorrect\<close>,
    \<open>StoreEtcdCorrect\<close>), Postgres is one of \<open>task_store_laws\<close> (\<open>StorePostgresCorrect\<close>).
    \<open>StoreRedisRace\<close> has a registration command by command and two of them interleaved. \<open>SchedulerCorrect\<close>,
    \<open>NodesCorrect\<close> and \<open>ControlPlaneCorrect\<close> have invariants over all runs. \<open>Operator\<close> is \<open>k8s/operator_types.rs\<close> and \<open>controller.rs\<close>, over the
    interface of JSON values of \<open>Json\<close>; \<open>OperatorCorrect\<close> says what a reconciliation answers and what
    the deployments ask for.

  \<^item> \<^bold>\<open>Agents\<close>. \<open>Handshake\<close> is \<open>dalin-handshake/src\<close>: messages, sessions, the protocol engine over a
    transport, agents; \<open>HandshakeCorrect\<close> has the locale of reliable transports, the invariant of
    sessions and what two engines make of each other.

  \<^item> \<^bold>\<open>Error clusters\<close>. \<open>Clusters\<close> is the log of errors, the index and the clustering of
    \<open>compiler/src/j1_pattern_learning.rs\<close>; \<open>ClustersCorrect\<close> says what the clusters are, in terms of
    dense points and paths over them, by an invariant between two seeds.

  \<^bold>\<open>How the parts interact\<close>

  The lexer feeds the parser, whose program goes to the inferencers, the latency verifier, the task
  specifications, the macro expander, the two runners and the engine. Theorems that span parts:
  the source round trip, the agreement of interpreter and bytecode on source texts, the agreement of
  the levels in types, task specifications and the engine, loading modules over the lexer and the
  parser, and the way of a specification through conversion, scheduler and store.
\<close>

text \<open>
  \<^bold>\<open>Groups of lemmas\<close>

  \<^item> round trips: tokens, expressions, programs, source texts, manifests, module sources;
  \<^item> refinement and equivalence: bytecode and reference evaluator, bytecode and interpreter, the
    macro expander and expansion in place, the cycle check and reachability, the node registry and one timer for each node,
    the stores over Redis and etcd and the store in memory;
  \<^item> types: unification yields a unifier, arithmetic keeps the inferred type;
  \<^item> invariants and safety over all runs and interleavings: governance and phases of the engine,
    idempotent submissions, loads and live tasks, sessions of an agent, the schedules under which two
    registrations make two tasks;
  \<^item> termination and liveness: parser, unification, compiler, loader, programs without loops, the
    placement on fresh nodes;
  \<^item> what checks report: the walk over the channels, the effect check, the sums of latencies against the
    ways through a body;
  \<^item> bounds and errors: requirements on versions below \<open>2^31\<close>, offsets of jumps below \<open>2^15\<close>, the
    answers and the one overflow of a reconciliation.

  \<^bold>\<open>Fuel and bounds\<close>

  The parser takes fuel \<open>2 * tokens + 2\<close>, which \<open>parse_returns\<close> shows to be enough. The interpreter
  and the engine take fuel because programs may loop; their results do not change with more of it, and
  \<open>loopless_programs_return\<close> shows that some fuel is enough when there is no while loop, as the engine
  itself bounds calls at depth 64. The virtual machine, chains of type variables and unification are
  \<open>partial_function (option)\<close>: \<open>None\<close> is a run that does not end. The searches through module graphs
  take fuel above the number of names, the loader fuel above the number of names with files; both are
  shown to be enough. Compiled code must be shorter than \<open>2^15\<close> for the 16-bit offsets of jumps.

  \<^bold>\<open>Parameters\<close>

  What is not under \<open>src/\<close> is a parameter: the operations on \<open>f64\<close>, the Unicode tables beyond ASCII,
  \<open>to_lowercase\<close>, the hasher, JSON values, the commands of Redis, etcd and Postgres,
  random identifiers, clocks, the file system. Laws about them are named hypotheses (\<open>json_ok\<close>,
  \<open>codec_ok\<close>, \<open>redis_ok\<close>, \<open>etcd_ok\<close>, \<open>pg_ok\<close>, the laws of the store) with instances. A hash map is an
  association list without duplicate keys, so that its order is one of those the map may have.
  Errors keep the arguments of their messages; the texts of reports are left out.

  \<^bold>\<open>Not modelled\<close>

  \<^item> Threads and channels: a spawned task's answer is a parameter of the interpreter, a lock of the
    control plane is one step. The depth of Rust's own stack is not bounded.
  \<^item> I/O: gRPC, NATS, connections to the stores' services, the controller over kube-rs (\<open>k8s/scheduler_controller.rs\<close>,
    which is not part of the build), the transports over files and sockets, the
    cache on disk, the command line, the editor server, and bindings for Python.
  \<^item> The mock and the remote QN1 back end, the vectors and templates of pattern learning, and evolution
    (\<open>qn1.rs\<close>, the rest of \<open>j1\<close>, \<open>j2\<close>, \<open>j3\<close>, \<open>cli/src/cmd/evolve.rs\<close>), which are heuristics over
    floating point scores or call services.
  \<^item> The profiler (wall-clock time), the formatter and the printing of diagnostics.
\<close>

end
